(* ===== verification/Prelude.thy ===== *)
theory Prelude
  imports Complex_Main "HOL-Library.Multiset" "HOL-Library.Product_Lexorder"
begin

text \<open>
  Shared vocabulary of the development: results with errors as values, tables as lists of rows
  found by a key, Python's slicing and accumulation loops, and the generic lemmas about them.
  The collection \<open>res_simps\<close> holds the rewriting rules for results, \<open>table_simps\<close> those for
  tables; the component theories hand them to the simplifier.
\<close>

named_theorems res_simps \<open>rewriting of results\<close>
named_theorems table_simps \<open>rewriting of table operations\<close>

section \<open>Results\<close>

text \<open>
  A Python function that may raise returns \<open>Inl e\<close> for the exception and \<open>Inr x\<close> for its value;
  \<open>rbind\<close> is sequencing (an exception skips the rest).
\<close>

type_synonym ('e, 'a) result = "'e + 'a"

definition rbind :: "('e, 'a) result \<Rightarrow> ('a \<Rightarrow> ('e, 'b) result) \<Rightarrow> ('e, 'b) result" where
  "rbind r f = (case r of Inl e \<Rightarrow> Inl e | Inr x \<Rightarrow> f x)"

definition guard :: "bool \<Rightarrow> 'e \<Rightarrow> ('e, unit) result" where
  "guard b e = (if b then Inr () else Inl e)"

lemma rbind_simps [simp, res_simps]:
  "rbind (Inl e) f = Inl e"
  "rbind (Inr x) f = f x"
  by (simp_all add: rbind_def)

lemma rbind_eq_Inr [res_simps]:
  "rbind r f = Inr y \<longleftrightarrow> (\<exists>x. r = Inr x \<and> f x = Inr y)"
  by (cases r) simp_all

lemma rbind_eq_Inl [res_simps]:
  "rbind r f = Inl e \<longleftrightarrow> r = Inl e \<or> (\<exists>x. r = Inr x \<and> f x = Inl e)"
  by (cases r) auto

lemma guard_simps [simp, res_simps]:
  "guard b e = Inr u \<longleftrightarrow> b"
  "guard b e = Inl e' \<longleftrightarrow> \<not> b \<and> e' = e"
  by (auto simp: guard_def)

lemma guard_True [simp]: "guard True e = Inr ()"
  by (simp add: guard_def)

lemma guard_False [simp]: "guard False e = Inl e"
  by (simp add: guard_def)

text \<open>An exception of a called component becomes one of the caller's.\<close>

definition lift_err :: "('e \<Rightarrow> 'd) \<Rightarrow> ('e, 'a) result \<Rightarrow> ('d, 'a) result" where
  "lift_err g r = (case r of Inl e \<Rightarrow> Inl (g e) | Inr x \<Rightarrow> Inr x)"

lemma lift_err_simps [simp, res_simps]:
  "lift_err g (Inl e) = Inl (g e)"
  "lift_err g (Inr x) = Inr x"
  by (simp_all add: lift_err_def)

lemma lift_err_eq [res_simps]:
  "lift_err g r = Inr x \<longleftrightarrow> r = Inr x"
  "lift_err g r = Inl d \<longleftrightarrow> (\<exists>e. r = Inl e \<and> d = g e)"
  by (cases r; auto)+

text \<open>The loop \<open>[f(x) for x in xs]\<close> with an \<open>f\<close> that may raise: the first exception ends it.\<close>

fun rmap :: "('a \<Rightarrow> ('e, 'b) result) \<Rightarrow> 'a list \<Rightarrow> ('e, 'b list) result" where
  "rmap f [] = Inr []"
| "rmap f (x # xs) = rbind (f x) (\<lambda>y. rbind (rmap f xs) (\<lambda>ys. Inr (y # ys)))"

text \<open>A loop that updates an accumulator and may raise.\<close>

fun rfold :: "('a \<Rightarrow> 's \<Rightarrow> ('e, 's) result) \<Rightarrow> 'a list \<Rightarrow> 's \<Rightarrow> ('e, 's) result" where
  "rfold f [] s = Inr s"
| "rfold f (x # xs) s = rbind (f x s) (rfold f xs)"

lemma rfold_append [res_simps]:
  "rfold f (xs @ ys) s = rbind (rfold f xs s) (rfold f ys)"
  by (induction xs arbitrary: s) (auto simp: rbind_def split: sum.splits)

lemma rfold_invariant:
  assumes "rfold f xs s = Inr t" and "P s"
    and "\<And>x s s'. x \<in> set xs \<Longrightarrow> P s \<Longrightarrow> f x s = Inr s' \<Longrightarrow> P s'"
  shows "P t"
  using assms
proof (induction xs arbitrary: s)
  case Nil
  then show ?case by simp
next
  case (Cons x xs)
  from Cons.prems(1) obtain s' where s': "f x s = Inr s'" "rfold f xs s' = Inr t"
    by (auto simp: res_simps)
  have "P s'" by (rule Cons.prems(3) [OF _ Cons.prems(2) s'(1)]) simp
  then show ?case
    by (rule Cons.IH [OF s'(2)]) (rule Cons.prems(3), auto)
qed

lemma length_rmap: "rmap f xs = Inr ys \<Longrightarrow> length ys = length xs"
  by (induction xs arbitrary: ys) (auto simp: res_simps)

lemma rmap_nth: "rmap f xs = Inr ys \<Longrightarrow> i < length xs \<Longrightarrow> f (xs ! i) = Inr (ys ! i)"
proof (induction xs arbitrary: ys i)
  case (Cons x xs)
  then show ?case by (cases i) (auto simp: res_simps)
qed simp

lemma rmap_total: "\<forall>x \<in> set xs. \<exists>y. f x = Inr y \<Longrightarrow> \<exists>ys. rmap f xs = Inr ys"
  by (induction xs) (auto simp: res_simps)

text \<open>\<open>enumerate(xs)\<close> with integer positions.\<close>

definition enumerate_int :: "'a list \<Rightarrow> (int \<times> 'a) list" where
  "enumerate_int xs = map (\<lambda>(i, x). (int i, x)) (enumerate 0 xs)"

lemma length_enumerate_int [simp]: "length (enumerate_int xs) = length xs"
  by (simp add: enumerate_int_def)

lemma nth_enumerate_int [simp]: "i < length xs \<Longrightarrow> enumerate_int xs ! i = (int i, xs ! i)"
  by (simp add: enumerate_int_def nth_enumerate_eq)

section \<open>Tables\<close>

text \<open>
  A database table is the list of its rows in insertion order. \<open>row k i\<close> is the lookup by the
  key \<open>k\<close> (\<open>session.get\<close>, \<open>scalar_one_or_none\<close>), \<open>set_row\<close> writes the changed row back in place.
\<close>

definition row :: "('r \<Rightarrow> 'k) \<Rightarrow> 'k \<Rightarrow> 'r list \<Rightarrow> 'r option" where
  "row key k t = find (\<lambda>r. key r = k) t"

definition set_row :: "('r \<Rightarrow> 'k) \<Rightarrow> 'r \<Rightarrow> 'r list \<Rightarrow> 'r list" where
  "set_row key r' t = map (\<lambda>r. if key r = key r' then r' else r) t"

abbreviation keys_of :: "('r \<Rightarrow> 'k) \<Rightarrow> 'r list \<Rightarrow> 'k set" where
  "keys_of key t \<equiv> key ` set t"

lemma row_Nil [simp, table_simps]: "row key k [] = None"
  by (simp add: row_def)

lemma row_Cons [simp, table_simps]:
  "row key k (r # t) = (if key r = k then Some r else row key k t)"
  by (simp add: row_def)

lemma row_SomeD: "row key k t = Some r \<Longrightarrow> r \<in> set t \<and> key r = k"
  by (auto simp: row_def find_Some_iff in_set_conv_nth)

lemma row_None_iff [table_simps]: "row key k t = None \<longleftrightarrow> k \<notin> keys_of key t"
  by (auto simp: row_def find_None_iff)

lemma row_append [table_simps]:
  "row key k (t @ u) = (case row key k t of None \<Rightarrow> row key k u | Some r \<Rightarrow> Some r)"
  by (induction t) auto

lemma row_in_distinct:
  assumes "distinct (map key t)" and "r \<in> set t"
  shows "row key (key r) t = Some r"
  using assms by (induction t) (auto dest: row_SomeD)

lemma keys_set_row [simp, table_simps]: "map key (set_row key r' t) = map key t"
  by (simp add: set_row_def)

lemma length_set_row [simp, table_simps]: "length (set_row key r' t) = length t"
  by (simp add: set_row_def)

lemma row_set_row [table_simps]:
  "row key k (set_row key r' t) =
     (if k = key r' \<and> row key k t \<noteq> None then Some r' else row key k t)"
  by (induction t) (auto simp: set_row_def)

lemma row_set_row_same:
  "row key k t = Some r \<Longrightarrow> key r' = k \<Longrightarrow> row key k (set_row key r' t) = Some r'"
  by (simp add: row_set_row)

lemma row_set_row_other [simp]:
  "k \<noteq> key r' \<Longrightarrow> row key k (set_row key r' t) = row key k t"
  by (simp add: row_set_row)

lemma set_row_absent [simp]:
  "key r' \<notin> keys_of key t \<Longrightarrow> set_row key r' t = t"
  by (induction t) (auto simp: set_row_def)

lemma set_set_rowD:
  "r \<in> set (set_row key r' t) \<Longrightarrow> r = r' \<or> (r \<in> set t \<and> key r \<noteq> key r')"
  by (auto simp: set_row_def split: if_splits)

lemma set_set_row_Ball:
  "(\<forall>r \<in> set t. P r) \<Longrightarrow> P r' \<Longrightarrow> \<forall>r \<in> set (set_row key r' t). P r"
  by (auto dest: set_set_rowD)

lemma set_row_Cons [table_simps]:
  "set_row key r' (r # t) = (if key r = key r' then r' else r) # set_row key r' t"
  by (simp add: set_row_def)

lemma row_map [table_simps]:
  "(\<And>r. key (f r) = key r) \<Longrightarrow> row key k (map f t) = map_option f (row key k t)"
  by (induction t) auto

lemma row_filter:
  "row key k (filter P t) = Some r \<Longrightarrow> distinct (map key t) \<Longrightarrow> row key k t = Some r"
  using row_in_distinct [of key t r] by (auto dest!: row_SomeD)

text \<open>Sums over a table, as SQL's \<open>SUM(...) WHERE ...\<close> computes them.\<close>

lemma sum_list_set_row_other:
  assumes "\<And>r. r \<in> set t \<Longrightarrow> key r = key r' \<Longrightarrow> f r = f r'"
  shows "sum_list (map f (set_row key r' t)) = sum_list (map f t)"
  using assms by (induction t) (auto simp: set_row_def)

lemma sum_list_set_row:
  fixes f :: "'r \<Rightarrow> int"
  assumes "distinct (map key t)" and "row key (key r') t = Some r"
  shows "sum_list (map f (set_row key r' t)) = sum_list (map f t) - f r + f r'"
  using assms
proof (induction t)
  case Nil
  then show ?case by simp
next
  case (Cons a t)
  then show ?case
    by (cases "key a = key r'") (auto simp: set_row_Cons)
qed

lemma sum_list_filter_eq:
  fixes f :: "'r \<Rightarrow> int"
  shows "sum_list (map f (filter P t)) = sum_list (map (\<lambda>r. if P r then f r else 0) t)"
  by (induction t) auto

lemma sum_list_nonneg_int:
  fixes xs :: "int list"
  shows "(\<And>x. x \<in> set xs \<Longrightarrow> 0 \<le> x) \<Longrightarrow> 0 \<le> sum_list xs"
  by (simp add: sum_list_nonneg)

lemma member_le_sum_list_int:
  fixes xs :: "int list"
  assumes "x \<in> set xs" and "\<And>y. y \<in> set xs \<Longrightarrow> 0 \<le> y"
  shows "x \<le> sum_list xs"
  using assms
proof (induction xs)
  case Nil
  then show ?case by simp
next
  case (Cons a xs)
  have "0 \<le> a" and "0 \<le> sum_list xs"
    using Cons.prems(2) by (auto intro: sum_list_nonneg_int)
  moreover have "x = a \<or> x \<le> sum_list xs" using Cons by auto
  ultimately show ?case by auto
qed

section \<open>Python lists\<close>

text \<open>\<open>xs[:k]\<close>: a negative \<open>k\<close> counts from the end.\<close>

definition py_take :: "int \<Rightarrow> 'a list \<Rightarrow> 'a list" where
  "py_take k xs = (if 0 \<le> k then take (nat k) xs else take (length xs - nat (- k)) xs)"

text \<open>The loop \<open>for i in idx: parts[i] += 1\<close>.\<close>

definition bump :: "nat \<Rightarrow> int list \<Rightarrow> int list" where
  "bump i ps = ps[i := ps ! i + 1]"

definition bump_all :: "nat list \<Rightarrow> int list \<Rightarrow> int list" where
  "bump_all idx ps = fold bump idx ps"

lemma bump_all_Nil [simp]: "bump_all [] ps = ps"
  by (simp add: bump_all_def)

lemma bump_all_Cons [simp]: "bump_all (i # idx) ps = bump_all idx (bump i ps)"
  by (simp add: bump_all_def)

lemma length_bump [simp]: "length (bump i ps) = length ps"
  by (simp add: bump_def)

lemma length_bump_all [simp]: "length (bump_all idx ps) = length ps"
  by (induction idx arbitrary: ps) auto

lemma sum_list_bump: "i < length ps \<Longrightarrow> sum_list (bump i ps) = sum_list ps + 1"
  by (induction ps arbitrary: i) (auto simp: bump_def split: nat.split)

lemma sum_list_bump_all:
  assumes "\<forall>i \<in> set idx. i < length ps"
  shows "sum_list (bump_all idx ps) = sum_list ps + int (length idx)"
  using assms by (induction idx arbitrary: ps) (auto simp: sum_list_bump)

lemma nth_bump_all:
  assumes "distinct idx" and "\<forall>i \<in> set idx. i < length ps" and "j < length ps"
  shows "bump_all idx ps ! j = ps ! j + (if j \<in> set idx then 1 else 0)"
  using assms
proof (induction idx arbitrary: ps)
  case Nil
  then show ?case by simp
next
  case (Cons i idx)
  then show ?case by (cases "i = j") (auto simp: bump_def)
qed

text \<open>
  A dictionary of integer amounts in insertion order: \<open>d[k] = d.get(k, 0) + q\<close>, and its reading
  \<open>d.get(k, 0)\<close>.
\<close>

fun dict_add :: "'k \<Rightarrow> int \<Rightarrow> ('k \<times> int) list \<Rightarrow> ('k \<times> int) list" where
  "dict_add k q [] = [(k, q)]"
| "dict_add k q ((k', v) # ds) = (if k' = k then (k', v + q) # ds else (k', v) # dict_add k q ds)"

definition dict_get :: "('k \<times> int) list \<Rightarrow> 'k \<Rightarrow> int" where
  "dict_get ds k = (case map_of ds k of None \<Rightarrow> 0 | Some v \<Rightarrow> v)"

lemma dict_get_Nil [simp]: "dict_get [] k = 0"
  by (simp add: dict_get_def)

lemma dict_get_Cons [simp]: "dict_get ((k', v) # ds) k = (if k' = k then v else dict_get ds k)"
  by (simp add: dict_get_def)

lemma dict_get_add [simp]: "dict_get (dict_add k q ds) j = dict_get ds j + (if j = k then q else 0)"
  by (induction ds) auto

lemma dict_add_keys [simp]: "fst ` set (dict_add k q ds) = insert k (fst ` set ds)"
proof (induction ds)
  case (Cons a ds)
  then show ?case by (cases a) (simp add: insert_commute)
qed simp

lemma dict_add_distinct: "distinct (map fst ds) \<Longrightarrow> distinct (map fst (dict_add k q ds))"
proof (induction ds)
  case (Cons a ds)
  have "fst a \<notin> set (map fst (dict_add k q ds))" if "fst a \<noteq> k" "fst a \<notin> set (map fst ds)"
    using that by (simp only: set_map dict_add_keys) auto
  with Cons show ?case by (cases a) auto
qed simp

lemma dict_get_absent: "k \<notin> fst ` set ds \<Longrightarrow> dict_get ds k = 0"
  by (induction ds) auto

lemma dict_get_nonzero [simp]:
  assumes "distinct (map fst ds)"
  shows "dict_get (filter (\<lambda>(_, v). v \<noteq> 0) ds) k = dict_get ds k"
  using assms
proof (induction ds)
  case (Cons a ds)
  then have "dict_get ds (fst a) = 0" by (simp add: dict_get_absent)
  with Cons show ?case by (cases a) auto
qed simp

text \<open>
  In a list sorted by \<open>f\<close>, the elements satisfying a predicate closed downwards along \<open>f\<close> come
  first, so a prefix no longer than their number holds only such elements.
\<close>

lemma sorted_filter_takeWhile:
  assumes "sorted (map f xs)" and "\<And>x y. f x \<le> f y \<Longrightarrow> P y \<Longrightarrow> P x"
  shows "filter P xs = takeWhile P xs"
  using assms(1)
proof (induction xs)
  case Nil
  then show ?case by simp
next
  case (Cons x xs)
  show ?case
  proof (cases "P x")
    case True
    with Cons show ?thesis by simp
  next
    case False
    have "\<not> P y" if "y \<in> set xs" for y
      using Cons.prems that False assms(2) [of x y] by auto
    with False show ?thesis by (simp add: filter_empty_conv)
  qed
qed

lemma set_take_sorted:
  assumes "sorted (map f xs)" and "\<And>x y. f x \<le> f y \<Longrightarrow> P y \<Longrightarrow> P x"
    and "k \<le> length (filter P xs)" and "x \<in> set (take k xs)"
  shows "P x"
proof -
  have eq: "filter P xs = takeWhile P xs" using assms(1,2) by (rule sorted_filter_takeWhile)
  have "take k xs = take k (takeWhile P xs)"
    using assms(3) unfolding eq by (metis takeWhile_eq_take take_take min.absorb1 length_takeWhile_le)
  with assms(4) show ?thesis by (metis in_set_takeD set_takeWhileD)
qed

lemma length_filter_sort_key [simp]: "length (filter P (sort_key f xs)) = length (filter P xs)"
  by (metis mset_filter mset_sort size_mset)

lemma length_filter_upt:
  "length (filter (\<lambda>i. Q (xs ! i)) [0..<length xs]) = length (filter Q xs)"
proof -
  have "map ((!) xs) (filter (Q \<circ> (!) xs) [0..<length xs]) = filter Q (map ((!) xs) [0..<length xs])"
    by (simp add: filter_map)
  then have "length (filter (Q \<circ> (!) xs) [0..<length xs]) = length (filter Q xs)"
    by (metis length_map map_nth)
  then show ?thesis by (simp add: comp_def)
qed

section \<open>Integer columns\<close>

text \<open>
  Every amount, price, quantity and stock count is a PostgreSQL \<open>Integer\<close> column: a 32-bit
  signed value. \<open>int32\<close> is the range such a column can hold.
\<close>

definition int32 :: "int \<Rightarrow> bool" where
  "int32 x \<longleftrightarrow> - (2 ^ 31) \<le> x \<and> x < 2 ^ 31"

end
