(* ===== verification/Decimal_Context.thy ===== *)
theory Decimal_Context
  imports Prelude
begin

text \<open>
  Python's \<open>decimal\<close> module as the program uses it: the default context keeps 28 significant
  digits and rounds half-even after every multiplication, division and subtraction;
  \<open>quantize(Decimal(1), ROUND_HALF_UP)\<close> followed by \<open>int\<close> rounds half-up to a whole number.
  A decimal is represented by the rational it denotes. The lemmas bound the error of one context
  rounding and say when it is exact, which is all the money arithmetic relies on.
  (\<open>quantize\<close> also signals when the whole number would need more than 28 digits; amounts are
  32-bit columns and never come near, so that signal has no branch here.)
\<close>

section \<open>The context\<close>

text \<open>\<open>dec_exp x\<close> is the exponent of the leading digit: \<open>10 ^ e \<le> x < 10 ^ (e + 1)\<close>.\<close>

function up_exp :: "rat \<Rightarrow> int" where
  "up_exp x = (if x < 10 then 0 else up_exp (x / 10) + 1)"
  by pat_completeness auto
termination
proof (relation "measure (\<lambda>x. nat \<lfloor>x\<rfloor>)")
  fix x :: rat
  assume "\<not> x < 10"
  then have x: "10 \<le> x" by simp
  then have "\<lfloor>x / 10\<rfloor> \<le> \<lfloor>x - 9\<rfloor>" by (intro floor_mono) simp
  then have "\<lfloor>x / 10\<rfloor> \<le> \<lfloor>x\<rfloor> - 9" by simp
  moreover have "10 \<le> \<lfloor>x\<rfloor>" using x by (simp add: le_floor_iff)
  ultimately show "(x / 10, x) \<in> measure (\<lambda>x. nat \<lfloor>x\<rfloor>)" by simp
qed simp

function down_exp :: "rat \<Rightarrow> int" where
  "down_exp x = (if 1 \<le> x \<or> x \<le> 0 then 0 else down_exp (x * 10) - 1)"
  by pat_completeness auto
termination
proof (relation "measure (\<lambda>x. nat \<lceil>1 / x\<rceil>)")
  fix x :: rat
  assume "\<not> (1 \<le> x \<or> x \<le> 0)"
  then have x: "0 < x" "x < 1" by auto
  define y where "y = 1 / x"
  have y: "1 < y" "1 / (x * 10) = y / 10"
    using x by (simp_all add: y_def field_simps)
  have "\<lceil>y / 10\<rceil> < \<lceil>y\<rceil>"
  proof (cases "y \<le> 10")
    case True
    then have "\<lceil>y / 10\<rceil> \<le> 1" by (simp add: ceiling_le_iff)
    moreover have "1 < \<lceil>y\<rceil>" using y(1) by (simp add: less_ceiling_iff)
    ultimately show ?thesis by linarith
  next
    case False
    then have "y / 10 \<le> y - 1" by simp
    then have "\<lceil>y / 10\<rceil> \<le> \<lceil>y - 1\<rceil>" by (rule ceiling_mono)
    then show ?thesis by simp
  qed
  moreover have "0 < \<lceil>y\<rceil>" using y(1) by (simp add: less_ceiling_iff)
  ultimately have "nat \<lceil>y / 10\<rceil> < nat \<lceil>y\<rceil>" by linarith
  then show "(x * 10, x) \<in> measure (\<lambda>x. nat \<lceil>1 / x\<rceil>)"
    unfolding in_measure y(2) by (simp only: y_def)
qed simp

declare up_exp.simps [simp del] down_exp.simps [simp del]

definition dec_exp :: "rat \<Rightarrow> int" where
  "dec_exp x = (if 1 \<le> \<bar>x\<bar> then up_exp \<bar>x\<bar> else down_exp \<bar>x\<bar>)"

definition round_half_even :: "rat \<Rightarrow> int" where
  "round_half_even x =
     (let f = \<lfloor>x\<rfloor>; r = x - of_int f in
      if r < 1 / 2 then f
      else if 1 / 2 < r then f + 1
      else if even f then f else f + 1)"

definition dec_ctx :: "rat \<Rightarrow> rat" where
  "dec_ctx x =
     (if x = 0 then 0
      else let u = 10 powi (dec_exp x - 27) in of_int (round_half_even (x / u)) * u)"

definition dec_mul :: "rat \<Rightarrow> rat \<Rightarrow> rat" where
  "dec_mul a b = dec_ctx (a * b)"

definition dec_div :: "rat \<Rightarrow> rat \<Rightarrow> rat" where
  "dec_div a b = dec_ctx (a / b)"

definition dec_sub :: "rat \<Rightarrow> rat \<Rightarrow> rat" where
  "dec_sub a b = dec_ctx (a - b)"

definition dec_add :: "rat \<Rightarrow> rat \<Rightarrow> rat" where
  "dec_add a b = dec_ctx (a + b)"

text \<open>\<open>int(d)\<close> truncates towards zero.\<close>

definition dec_int :: "rat \<Rightarrow> int" where
  "dec_int x = (if 0 \<le> x then \<lfloor>x\<rfloor> else \<lceil>x\<rceil>)"

text \<open>\<open>int(value.quantize(Decimal(1), rounding=ROUND_HALF_UP))\<close>: halves go away from zero.\<close>

definition round_half_up :: "rat \<Rightarrow> int" where
  "round_half_up x = (if 0 \<le> x then \<lfloor>x + 1 / 2\<rfloor> else - \<lfloor>1 / 2 - x\<rfloor>)"

section \<open>Rounding lemmas\<close>

lemma up_exp_bounds:
  "1 \<le> x \<Longrightarrow> 0 \<le> up_exp x \<and> 10 powi (up_exp x) \<le> x \<and> x < 10 powi (up_exp x + 1)"
proof (induction x rule: up_exp.induct)
  case (1 x)
  show ?case
  proof (cases "x < 10")
    case True
    with 1 show ?thesis by (simp add: up_exp.simps [of x])
  next
    case False
    then have "1 \<le> x / 10" by simp
    with 1 False have IH: "0 \<le> up_exp (x / 10)" "10 powi (up_exp (x / 10)) \<le> x / 10"
      "x / 10 < 10 powi (up_exp (x / 10) + 1)" by auto
    have "up_exp x = up_exp (x / 10) + 1"
      using False by (simp add: up_exp.simps [of x])
    moreover have "(10::rat) powi (up_exp (x / 10) + 1) = 10 powi (up_exp (x / 10)) * 10"
      "(10::rat) powi (up_exp (x / 10) + 1 + 1) = 10 powi (up_exp (x / 10) + 1) * 10"
      by (rule power_int_add_1, simp)+
    ultimately show ?thesis using IH by auto
  qed
qed

lemma down_exp_bounds:
  "0 < x \<Longrightarrow> x < 1 \<Longrightarrow> down_exp x < 0 \<and> 10 powi (down_exp x) \<le> x \<and> x < 10 powi (down_exp x + 1)"
proof (induction x rule: down_exp.induct)
  case (1 x)
  have eq: "down_exp x = down_exp (x * 10) - 1"
    using "1.prems" by (simp add: down_exp.simps [of x])
  have p: "(10::rat) powi (down_exp x + 1) = 10 powi (down_exp (x * 10))"
    "(10::rat) powi (down_exp x) = 10 powi (down_exp (x * 10)) / 10"
    by (simp_all add: eq power_int_diff)
  show ?case
  proof (cases "x * 10 < 1")
    case True
    with 1 have "down_exp (x * 10) < 0" "10 powi (down_exp (x * 10)) \<le> x * 10"
      "x * 10 < 10 powi (down_exp (x * 10) + 1)" by auto
    moreover have "(10::rat) powi (down_exp (x * 10) + 1) = 10 powi (down_exp (x * 10)) * 10"
      by (rule power_int_add_1) simp
    ultimately show ?thesis unfolding p by (simp add: eq)
  next
    case False
    then have "down_exp (x * 10) = 0" by (simp add: down_exp.simps)
    with False "1.prems" show ?thesis by (simp add: eq power_int_minus field_simps)
  qed
qed

lemma dec_exp_bounds:
  assumes "x \<noteq> 0"
  shows "10 powi (dec_exp x) \<le> \<bar>x\<bar>" and "\<bar>x\<bar> < 10 powi (dec_exp x + 1)"
  using assms up_exp_bounds [of "\<bar>x\<bar>"] down_exp_bounds [of "\<bar>x\<bar>"]
  by (auto simp: dec_exp_def)

lemma round_half_even_error: "\<bar>of_int (round_half_even x) - x\<bar> \<le> 1 / 2"
proof -
  have "of_int \<lfloor>x\<rfloor> \<le> x" "x < of_int \<lfloor>x\<rfloor> + 1" by linarith+
  then show ?thesis unfolding round_half_even_def Let_def by (simp split: if_split)
qed

lemma round_half_even_int [simp]: "round_half_even (of_int n) = n"
  by (simp add: round_half_even_def)

lemma dec_ctx_0 [simp]: "dec_ctx 0 = 0"
  by (simp add: dec_ctx_def)

lemma dec_ctx_error: "\<bar>dec_ctx x - x\<bar> \<le> \<bar>x\<bar> / (2 * 10 ^ 27)"
proof (cases "x = 0")
  case False
  define u :: rat where "u = 10 powi (dec_exp x - 27)"
  have u: "0 < u" by (simp add: u_def)
  have "u = 10 powi (dec_exp x) / 10 ^ 27"
    by (simp add: u_def power_int_diff)
  with dec_exp_bounds(1) [OF False] have le: "u \<le> \<bar>x\<bar> / 10 ^ 27"
    by (simp add: divide_right_mono)
  have "dec_ctx x - x = (of_int (round_half_even (x / u)) - x / u) * u"
    using False u by (simp add: dec_ctx_def u_def [symmetric] Let_def field_simps)
  then have "\<bar>dec_ctx x - x\<bar> = \<bar>of_int (round_half_even (x / u)) - x / u\<bar> * u"
    using u by (simp add: abs_mult)
  also have "\<dots> \<le> 1 / 2 * u"
    using u round_half_even_error [of "x / u"] by (intro mult_right_mono) auto
  also have "\<dots> \<le> \<bar>x\<bar> / (2 * 10 ^ 27)" using le by simp
  finally show ?thesis .
qed simp

lemma dec_ctx_exact:
  assumes "x * 10 ^ k = of_int n" and "\<bar>n\<bar> < 10 ^ 28"
  shows "dec_ctx x = x"
proof (cases "x = 0")
  case False
  have "\<bar>x\<bar> * 10 ^ k < 10 ^ 28"
  proof -
    have "\<bar>x\<bar> * 10 ^ k = \<bar>of_int n\<bar>" using assms(1) by (simp add: abs_mult flip: assms(1))
    also have "\<dots> < of_int (10 ^ 28)" using assms(2) by linarith
    finally show ?thesis by simp
  qed
  moreover have "10 powi (dec_exp x) * 10 ^ k \<le> \<bar>x\<bar> * 10 ^ k"
    using dec_exp_bounds(1) [OF False] by (simp add: mult_right_mono)
  ultimately have "10 powi (dec_exp x) * 10 ^ k < (10::rat) ^ 28" by linarith
  then have "(10::rat) powi (dec_exp x + int k) < 10 powi 28"
    by (simp add: power_int_add)
  then have "dec_exp x + int k < 28"
    using power_int_increasing [of 28 "dec_exp x + int k" "10::rat"] by linarith
  then have le: "int k \<le> 27 - dec_exp x" by simp
  define m where "m = nat (27 - dec_exp x) - k"
  have m: "27 - dec_exp x = int k + int m" using le by (simp add: m_def)
  define u :: rat where "u = 10 powi (dec_exp x - 27)"
  have "inverse u = 10 powi (27 - dec_exp x)"
    by (simp add: u_def power_int_minus [symmetric])
  also have "\<dots> = 10 ^ k * 10 ^ m" by (simp add: m power_int_add)
  finally have xu: "x / u = of_int (n * 10 ^ m)"
    using assms(1) by (simp add: divide_inverse mult.assoc [symmetric])
  have "dec_ctx x = of_int (round_half_even (x / u)) * u"
    using False by (simp add: dec_ctx_def u_def Let_def)
  also have "\<dots> = (x / u) * u" by (simp only: xu round_half_even_int)
  finally show ?thesis by (simp add: u_def)
qed simp

lemma dec_ctx_int [simp]: "\<bar>n\<bar> < 10 ^ 28 \<Longrightarrow> dec_ctx (of_int n) = of_int n"
  by (rule dec_ctx_exact [where k = 0 and n = n]) simp_all

lemma dec_ctx_nonneg: "0 \<le> x \<Longrightarrow> 0 \<le> dec_ctx x"
proof -
  assume "0 \<le> x"
  then have "\<bar>dec_ctx x - x\<bar> \<le> x / (2 * 10 ^ 27)" using dec_ctx_error [of x] by simp
  moreover have "x / (2 * 10 ^ 27) \<le> x" using \<open>0 \<le> x\<close> by (simp add: field_simps)
  ultimately show ?thesis by linarith
qed

lemma dec_ctx_pos: "0 < x \<Longrightarrow> 0 < dec_ctx x"
proof -
  assume "0 < x"
  then have "\<bar>dec_ctx x - x\<bar> \<le> x / (2 * 10 ^ 27)" using dec_ctx_error [of x] by simp
  moreover have "x / (2 * 10 ^ 27) < x" using \<open>0 < x\<close> by (simp add: field_simps)
  ultimately show ?thesis by linarith
qed

lemma round_half_up_error: "\<bar>of_int (round_half_up x) - x\<bar> \<le> 1 / 2"
proof -
  have 1: "of_int \<lfloor>x + 1 / 2\<rfloor> \<le> x + 1 / 2" "x + 1 / 2 < of_int \<lfloor>x + 1 / 2\<rfloor> + 1" by linarith+
  have 2: "of_int \<lfloor>1 / 2 - x\<rfloor> \<le> 1 / 2 - x" "1 / 2 - x < of_int \<lfloor>1 / 2 - x\<rfloor> + 1" by linarith+
  show ?thesis
  proof (cases "0 \<le> x")
    case True
    have "\<bar>of_int \<lfloor>x + 1 / 2\<rfloor> - x\<bar> \<le> 1 / 2" using 1 by linarith
    with True show ?thesis by (simp add: round_half_up_def)
  next
    case False
    have "\<bar>- of_int \<lfloor>1 / 2 - x\<rfloor> - x\<bar> \<le> 1 / 2" using 2 by linarith
    with False show ?thesis by (simp add: round_half_up_def)
  qed
qed

lemma round_half_up_int [simp]: "round_half_up (of_int n) = n"
  using round_half_up_error [of "of_int n"] by linarith

lemma round_half_up_nonneg: "0 \<le> x \<Longrightarrow> 0 \<le> round_half_up x"
  by (simp add: round_half_up_def)

lemma round_half_up_mono: "x \<le> y \<Longrightarrow> 0 \<le> x \<Longrightarrow> round_half_up x \<le> round_half_up y"
  by (simp add: round_half_up_def floor_mono)

lemma round_half_up_0 [simp]: "round_half_up 0 = 0"
  using round_half_up_int [of 0] by (simp del: round_half_up_int)

end
