(* ===== verification/Decimal_Text.thy ===== *)
theory Decimal_Text
  imports Decimal_Context
begin

text \<open>
  Texts of the program and their decimal reading. A string holds code points below 256, so
  \<open>str.strip\<close> and \<open>str.lower\<close> act as on Latin-1. \<open>read_decimal\<close> is \<open>Decimal(s)\<close> on finite
  numerals (sign, digits, point, exponent; blanks around and underscores are dropped; anything
  else, NaN and Infinity included, has no integer value and is refused), \<open>show_fixed\<close> is the
  format \<open>f\<close> of a decimal with a given number of places. The lemmas end in the round trip
  \<open>read_show_fixed\<close>.
\<close>

section \<open>Strings\<close>

definition char_code :: "char \<Rightarrow> int" where
  "char_code c = of_char c"

definition is_space :: "char \<Rightarrow> bool" where
  "is_space c \<longleftrightarrow>
     (let n = char_code c in 9 \<le> n \<and> n \<le> 13 \<or> 28 \<le> n \<and> n \<le> 32 \<or> n = 133 \<or> n = 160)"

definition str_strip :: "string \<Rightarrow> string" where
  "str_strip s = rev (dropWhile is_space (rev (dropWhile is_space s)))"

text \<open>\<open>btrim\<close> of PostgreSQL: only blanks are trimmed.\<close>

definition btrim :: "string \<Rightarrow> string" where
  "btrim s = rev (dropWhile (\<lambda>c. c = CHR '' '') (rev (dropWhile (\<lambda>c. c = CHR '' '') s)))"

definition lower_char :: "char \<Rightarrow> char" where
  "lower_char c =
     (let n = char_code c in
      if 65 \<le> n \<and> n \<le> 90 \<or> 192 \<le> n \<and> n \<le> 222 \<and> n \<noteq> 215 then char_of (n + 32) else c)"

text \<open>
  \<open>str.upper\<close> and \<open>str.casefold\<close>: the sharp s becomes two letters; micro sign and y with diaeresis
  have no capital below 256 and stay as they are.
\<close>

definition upper_chars :: "char \<Rightarrow> string" where
  "upper_chars c =
     (let n = char_code c in
      if 97 \<le> n \<and> n \<le> 122 \<or> 224 \<le> n \<and> n \<le> 254 \<and> n \<noteq> 247 then [char_of (n - 32)]
      else if n = 223 then ''SS'' else [c])"

definition str_upper :: "string \<Rightarrow> string" where
  "str_upper s = concat (map upper_chars s)"

definition str_casefold :: "string \<Rightarrow> string" where
  "str_casefold s = concat (map (\<lambda>c. if char_code c = 223 then ''ss'' else [lower_char c]) s)"

abbreviation str_lower :: "string \<Rightarrow> string" where
  "str_lower s \<equiv> map lower_char s"

section \<open>Digits\<close>

definition digit_char :: "nat \<Rightarrow> char" where
  "digit_char d = char_of (48 + int d)"

definition is_digit :: "char \<Rightarrow> bool" where
  "is_digit c \<longleftrightarrow> 48 \<le> char_code c \<and> char_code c \<le> 57"

definition digit_val :: "char \<Rightarrow> nat" where
  "digit_val c = nat (char_code c - 48)"

fun show_nat :: "nat \<Rightarrow> string" where
  "show_nat n = (if n < 10 then [digit_char n] else show_nat (n div 10) @ [digit_char (n mod 10)])"

fun show_places :: "nat \<Rightarrow> nat \<Rightarrow> string" where
  "show_places 0 n = []"
| "show_places (Suc e) n = show_places e (n div 10) @ [digit_char (n mod 10)]"

definition read_digits :: "string \<Rightarrow> nat" where
  "read_digits s = foldl (\<lambda>a c. 10 * a + digit_val c) 0 s"

declare show_nat.simps [simp del]

text \<open>\<open>f"{d:f}"\<close> for a decimal \<open>d\<close> with \<open>e\<close> places, given as \<open>m = d * 10 ^ e\<close>.\<close>

definition show_fixed :: "nat \<Rightarrow> int \<Rightarrow> string" where
  "show_fixed e m =
     (let n = nat \<bar>m\<bar> in
      (if m < 0 then ''-'' else '''') @ show_nat (n div 10 ^ e)
      @ (if e = 0 then '''' else ''.'' @ show_places e n))"

definition read_sign :: "string \<Rightarrow> int \<times> string" where
  "read_sign s =
     (case s of c # t \<Rightarrow> (if c = CHR ''-'' then (- 1, t) else if c = CHR ''+'' then (1, t) else (1, s))
      | [] \<Rightarrow> (1, []))"

definition read_exponent :: "string \<Rightarrow> int option" where
  "read_exponent s =
     (case s of [] \<Rightarrow> Some 0
      | c # t \<Rightarrow>
          (let (g, u) = read_sign t in
           if lower_char c = CHR ''e'' \<and> u \<noteq> [] \<and> list_all is_digit u
           then Some (g * int (read_digits u)) else None))"

definition read_decimal :: "string \<Rightarrow> rat option" where
  "read_decimal s0 =
     (let (g, s) = read_sign (filter (\<lambda>c. c \<noteq> CHR ''_'') (str_strip s0));
          whole = takeWhile is_digit s;
          s1 = dropWhile is_digit s;
          (frac, s2) = (case s1 of c # t \<Rightarrow> (if c = CHR ''.'' then (takeWhile is_digit t, dropWhile is_digit t)
                                             else ([], s1))
                        | [] \<Rightarrow> ([], []))
      in if whole @ frac = [] then None
         else map_option
                (\<lambda>x. of_int g * of_nat (read_digits (whole @ frac)) * 10 powi (x - int (length frac)))
                (read_exponent s2))"

section \<open>Reading back what was printed\<close>

lemma char_code_digit [simp]: "d < 10 \<Longrightarrow> char_code (digit_char d) = 48 + int d"
  by (simp add: char_code_def digit_char_def)

lemma is_digit_digit_char [simp]: "d < 10 \<Longrightarrow> is_digit (digit_char d)"
  by (simp add: is_digit_def)

lemma digit_val_digit_char [simp]: "d < 10 \<Longrightarrow> digit_val (digit_char d) = d"
  by (simp add: digit_val_def)

lemma read_digits_snoc [simp]: "read_digits (s @ [c]) = 10 * read_digits s + digit_val c"
  by (simp add: read_digits_def)

lemma read_digits_Nil [simp]: "read_digits [] = 0"
  by (simp add: read_digits_def)

lemma read_digits_append:
  "read_digits (s @ t) = read_digits s * 10 ^ length t + read_digits t"
  by (induction t rule: rev_induct) (simp_all flip: append_assoc)

lemma read_show_nat [simp]: "read_digits (show_nat n) = n"
proof (induction n rule: show_nat.induct)
  case (1 n)
  show ?case
  proof (cases "n < 10")
    case True
    then show ?thesis using read_digits_snoc [of "[]" "digit_char n"] by (simp add: show_nat.simps [of n])
  next
    case False
    with 1 show ?thesis by (simp add: show_nat.simps [of n])
  qed
qed

lemma show_nat_digits [simp]: "list_all is_digit (show_nat n)"
proof (induction n rule: show_nat.induct)
  case (1 n)
  then show ?case by (cases "n < 10") (simp_all add: show_nat.simps [of n])
qed

lemma show_nat_not_Nil [simp]: "show_nat n \<noteq> []"
  by (subst show_nat.simps) simp

lemma length_show_places [simp]: "length (show_places e n) = e"
  by (induction e arbitrary: n) simp_all

lemma show_places_digits [simp]: "list_all is_digit (show_places e n)"
  by (induction e arbitrary: n) simp_all

lemma read_show_places [simp]: "read_digits (show_places e n) = n mod 10 ^ e"
proof (induction e arbitrary: n)
  case (Suc e)
  have "n mod 10 ^ Suc e = 10 * (n div 10 mod 10 ^ e) + n mod 10"
    by (simp add: mod_mult2_eq)
  with Suc show ?case by simp
qed simp

lemma digit_not_special:
  assumes "is_digit c"
  shows "\<not> is_space c" "c \<noteq> CHR ''_''" "c \<noteq> CHR ''-''" "c \<noteq> CHR ''+''" "c \<noteq> CHR ''.''"
  using assms by (auto simp: is_digit_def is_space_def char_code_def Let_def)

lemma takeWhile_digits: "list_all is_digit s \<Longrightarrow> takeWhile is_digit s = s"
  by (simp add: takeWhile_eq_all_conv list_all_iff)

lemma dropWhile_digits: "list_all is_digit s \<Longrightarrow> dropWhile is_digit s = []"
  by (simp add: dropWhile_eq_Nil_conv list_all_iff)

lemma span_digits:
  assumes "list_all is_digit s"
  shows "takeWhile is_digit (s @ CHR ''.'' # t) = s"
    and "dropWhile is_digit (s @ CHR ''.'' # t) = CHR ''.'' # t"
  using assms by (induction s) (auto simp: is_digit_def char_code_def)

lemma strip_no_space: "list_all (\<lambda>c. \<not> is_space c) s \<Longrightarrow> str_strip s = s"
proof -
  assume s: "list_all (\<lambda>c. \<not> is_space c) s"
  then have "dropWhile is_space s = s" by (cases s) simp_all
  moreover have "dropWhile is_space (rev s) = rev s"
    using s by (cases s rule: rev_cases) simp_all
  ultimately show ?thesis by (simp add: str_strip_def)
qed

definition numeral_char :: "char \<Rightarrow> bool" where
  "numeral_char c \<longleftrightarrow> is_digit c \<or> c = CHR ''-'' \<or> c = CHR ''.''"

lemma numeral_char_kept: "numeral_char c \<Longrightarrow> \<not> is_space c \<and> c \<noteq> CHR ''_''"
  by (auto simp: numeral_char_def digit_not_special)
    (simp_all add: is_space_def is_digit_def char_code_def Let_def)

lemma show_fixed_chars: "list_all numeral_char (show_fixed e m)"
proof -
  have "list_all numeral_char s" if "list_all is_digit s" for s
    using that by (simp add: list_all_iff numeral_char_def)
  from this [OF show_nat_digits] this [OF show_places_digits] show ?thesis
    by (simp add: show_fixed_def Let_def numeral_char_def)
qed

lemma clean_show_fixed:
  "filter (\<lambda>c. c \<noteq> CHR ''_'') (str_strip (show_fixed e m)) = show_fixed e m"
  using show_fixed_chars [of e m]
  by (simp add: strip_no_space list_all_iff numeral_char_kept filter_id_conv)

lemma read_sign_digits:
  "list_all is_digit s \<Longrightarrow> s \<noteq> [] \<Longrightarrow> read_sign (s @ t) = (1, s @ t)"
  by (cases s) (auto simp: read_sign_def digit_not_special)

lemma read_sign_show_fixed:
  "read_sign (show_fixed e m) = (if m < 0 then - 1 else 1, show_fixed e \<bar>m\<bar>)"
proof (cases "m < 0")
  case True
  then show ?thesis by (simp add: read_sign_def show_fixed_def Let_def)
next
  case False
  then show ?thesis
    using read_sign_digits [OF show_nat_digits show_nat_not_Nil] by (simp add: show_fixed_def Let_def)
qed

lemma read_show_fixed:
  "read_decimal (show_fixed e m) = Some (of_int m / 10 ^ e)"
proof -
  define n where "n = nat \<bar>m\<bar>"
  define w where "w = show_nat (n div 10 ^ e)"
  have w: "list_all is_digit w" "w \<noteq> []" "read_digits w = n div 10 ^ e" by (simp_all add: w_def)
  have sgn: "(if m < 0 then - 1 else 1) * int n = m" by (simp add: n_def)
  have sgn': "of_int (if m < 0 then - 1 else 1) * of_nat n = (of_int m :: rat)"
    by (metis sgn of_int_mult of_int_of_nat_eq)
  show ?thesis
  proof (cases "e = 0")
    case True
    have "show_fixed e \<bar>m\<bar> = w" using True by (simp add: show_fixed_def w_def n_def Let_def)
    with w True sgn' show ?thesis
      by (simp add: read_decimal_def clean_show_fixed read_sign_show_fixed takeWhile_digits
          dropWhile_digits read_exponent_def)
  next
    case False
    have fx: "show_fixed e \<bar>m\<bar> = w @ CHR ''.'' # show_places e n"
      using False by (simp add: show_fixed_def w_def n_def Let_def)
    have val: "read_digits (w @ show_places e n) = n"
      by (simp add: read_digits_append w(3) div_mult_mod_eq)
    have "read_decimal (show_fixed e m)
        = Some (of_int (if m < 0 then - 1 else 1) * of_nat n * 10 powi (- int e))"
      using w(1,2) val
      by (simp add: read_decimal_def clean_show_fixed read_sign_show_fixed fx span_digits
          takeWhile_digits dropWhile_digits read_exponent_def)
    then show ?thesis unfolding sgn' by (simp add: power_int_minus divide_inverse)
  qed
qed

end
