(* ===== verification/Money.thy ===== *)
theory Money
  imports Decimal_Text
begin

text \<open>
  \<open>core/money.py\<close>: the currency table, and the conversions between decimal amounts in major
  units, integers of minor units and the integers a payment provider expects. The properties are
  the round trips: minor units through a decimal, through the printed text, and through the
  provider's amount.
\<close>

section \<open>Currencies\<close>

record currency =
  cur_code :: string
  cur_exponent :: nat
  cur_payment_verified :: bool

definition mk_currency :: "string \<Rightarrow> nat \<Rightarrow> bool \<Rightarrow> currency" where
  "mk_currency c e v = \<lparr>cur_code = c, cur_exponent = e, cur_payment_verified = v\<rparr>"

definition CURRENCIES :: "currency list" where
  "CURRENCIES =
     [mk_currency ''usd'' 2 True, mk_currency ''inr'' 2 True, mk_currency ''eur'' 2 True,
      mk_currency ''gbp'' 2 True, mk_currency ''jpy'' 0 True, mk_currency ''krw'' 0 False,
      mk_currency ''kwd'' 3 False, mk_currency ''bhd'' 3 False]"

text \<open>The arguments the functions are handed, by Python type.\<close>

datatype py_value =
  PyBool bool | PyFloat rat | PyInt int | PyDecimal rat | PyStr string

datatype money_error =
  UnsupportedCurrency string
| CurrencyNotPayable string string
| InvalidMoney
| DecimalInvalid

definition normalize_code :: "string \<Rightarrow> string" where
  "normalize_code code = str_lower (str_strip code)"

definition get_currency :: "string \<Rightarrow> (money_error, currency) result" where
  "get_currency code =
     (let normalized = normalize_code code in
      case row cur_code normalized CURRENCIES of
        Some c \<Rightarrow> Inr c
      | None \<Rightarrow> Inl (UnsupportedCurrency normalized))"

section \<open>Conversions\<close>

definition decimal_of :: "py_value \<Rightarrow> (money_error, rat) result" where
  "decimal_of v =
     (case v of
        PyDecimal d \<Rightarrow> Inr d
      | PyInt n \<Rightarrow> Inr (of_int n)
      | PyStr s \<Rightarrow> (case read_decimal s of Some d \<Rightarrow> Inr d | None \<Rightarrow> Inl DecimalInvalid)
      | PyBool b \<Rightarrow> Inl InvalidMoney
      | PyFloat x \<Rightarrow> Inl InvalidMoney)"

definition to_minor :: "py_value \<Rightarrow> string \<Rightarrow> (money_error, int) result" where
  "to_minor amount code =
     (case amount of
        PyBool b \<Rightarrow> Inl InvalidMoney
      | PyFloat x \<Rightarrow> Inl InvalidMoney
      | _ \<Rightarrow> rbind (get_currency code) (\<lambda>c. rbind (decimal_of amount) (\<lambda>d.
               Inr (round_half_up (dec_mul d (10 ^ cur_exponent c))))))"

definition from_minor :: "py_value \<Rightarrow> string \<Rightarrow> (money_error, rat) result" where
  "from_minor minor code =
     (case minor of
        PyInt m \<Rightarrow> rbind (get_currency code) (\<lambda>c.
          let e = cur_exponent c
          in Inr (of_int (round_half_even (dec_div (of_int m) (10 ^ e) * 10 ^ e)) / 10 ^ e))
      | _ \<Rightarrow> Inl InvalidMoney)"

definition format_minor :: "py_value \<Rightarrow> string \<Rightarrow> (money_error, string) result" where
  "format_minor minor code =
     rbind (from_minor minor code) (\<lambda>d. rbind (get_currency code) (\<lambda>c.
       Inr (show_fixed (cur_exponent c) (round_half_even (d * 10 ^ cur_exponent c)))))"

definition to_stripe_amount :: "py_value \<Rightarrow> string \<Rightarrow> (money_error, int) result" where
  "to_stripe_amount minor code =
     rbind (get_currency code) (\<lambda>c.
       if \<not> cur_payment_verified c
       then Inl (CurrencyNotPayable (cur_code c) ''payment_currency_not_verified'')
       else (case minor of PyInt m \<Rightarrow> (if m \<le> 0 then Inl InvalidMoney else Inr m)
             | _ \<Rightarrow> Inl InvalidMoney))"

definition from_stripe_amount :: "py_value \<Rightarrow> string \<Rightarrow> (money_error, int) result" where
  "from_stripe_amount amount code =
     rbind (get_currency code) (\<lambda>c. case amount of PyInt m \<Rightarrow> Inr m | _ \<Rightarrow> Inl InvalidMoney)"

section \<open>Lemmas\<close>

lemma get_currency_known:
  "get_currency code = Inr c \<Longrightarrow> c \<in> set CURRENCIES \<and> cur_code c = normalize_code code"
  by (auto simp: get_currency_def Let_def dest: row_SomeD split: option.splits)

lemma currency_exponent: "c \<in> set CURRENCIES \<Longrightarrow> cur_exponent c \<le> 3"
  by (auto simp: CURRENCIES_def mk_currency_def)

lemma get_currency_idem: "get_currency code = Inr c \<Longrightarrow> get_currency (cur_code c) = Inr c"
proof -
  assume "get_currency code = Inr c"
  then have "c \<in> set CURRENCIES" using get_currency_known by blast
  moreover have "list_all (\<lambda>c. get_currency (cur_code c) = Inr c) CURRENCIES"
    by code_simp
  ultimately show ?thesis by (simp add: list_all_iff)
qed

lemma int32_small: "int32 m \<Longrightarrow> \<bar>m\<bar> \<le> 2147483648"
  by (auto simp: int32_def)

lemma dec_div_minor:
  assumes "\<bar>m\<bar> < 10 ^ 28"
  shows "dec_div (of_int m) (10 ^ e) = of_int m / 10 ^ e"
  unfolding dec_div_def by (rule dec_ctx_exact [where k = e and n = m]) (use assms in simp_all)

lemma from_minor_exact:
  assumes "get_currency code = Inr c" and "\<bar>m\<bar> < 10 ^ 28"
  shows "from_minor (PyInt m) code = Inr (of_int m / 10 ^ cur_exponent c)"
  using assms by (simp add: from_minor_def dec_div_minor)

lemma to_minor_exact:
  assumes "get_currency code = Inr c" and "\<bar>m\<bar> < 10 ^ 28"
    and "decimal_of v = Inr (of_int m / 10 ^ cur_exponent c)"
  shows "to_minor v code = Inr m"
  using assms by (cases v) (simp_all add: to_minor_def dec_mul_def decimal_of_def)

lemma format_minor_text:
  assumes "get_currency code = Inr c" and "\<bar>m\<bar> < 10 ^ 28"
  shows "format_minor (PyInt m) code = Inr (show_fixed (cur_exponent c) m)"
  using assms by (simp add: format_minor_def from_minor_exact)

section \<open>Properties\<close>

text \<open>
  For every currency the platform knows and every amount below ten to the 28 (every
  integer column is far below), converting minor units to a decimal is exact, and both the decimal
  and its printed text convert back to the same minor units.
\<close>

theorem money_round_trip:
  assumes "get_currency code = Inr c" and "\<bar>m\<bar> < 10 ^ 28"
  shows "from_minor (PyInt m) code = Inr (of_int m / 10 ^ cur_exponent c)
    \<and> rbind (from_minor (PyInt m) code) (\<lambda>d. to_minor (PyDecimal d) code) = Inr m
    \<and> rbind (format_minor (PyInt m) code) (\<lambda>s. to_minor (PyStr s) code) = Inr m"
proof (intro conjI)
  show "from_minor (PyInt m) code = Inr (of_int m / 10 ^ cur_exponent c)"
    using assms by (rule from_minor_exact)
  show "rbind (from_minor (PyInt m) code) (\<lambda>d. to_minor (PyDecimal d) code) = Inr m"
    using assms by (simp add: from_minor_exact to_minor_exact decimal_of_def)
  show "rbind (format_minor (PyInt m) code) (\<lambda>s. to_minor (PyStr s) code) = Inr m"
    using assms by (simp add: format_minor_text to_minor_exact decimal_of_def read_show_fixed)
qed

theorem money_round_trip_witness:
  "rbind (from_minor (PyInt (- 1099)) '' USD '') (\<lambda>d. to_minor (PyDecimal d) '' USD '') = Inr (- 1099)
   \<and> get_currency '' USD '' = Inr (mk_currency ''usd'' 2 True)"
proof -
  have "get_currency '' USD '' = Inr (mk_currency ''usd'' 2 True)" by code_simp
  moreover have "\<bar>- 1099 :: int\<bar> < 10 ^ 28" by simp
  ultimately show ?thesis using money_round_trip [of "'' USD ''"] by blast
qed

text \<open>
  A decimal amount with at most 28 significant digits is converted to minor units with an
  error of at most half a unit; binary floats and booleans are always refused.
\<close>

theorem to_minor_nearest:
  assumes "get_currency code = Inr c" and "d * 10 ^ k = of_int n" and "\<bar>n\<bar> < 10 ^ 28"
    and "cur_exponent c \<le> k"
  shows "\<exists>m. to_minor (PyDecimal d) code = Inr m
      \<and> \<bar>of_int m - d * 10 ^ cur_exponent c\<bar> \<le> 1 / 2
      \<and> to_minor (PyFloat d) code = Inl InvalidMoney"
proof -
  define e where "e = cur_exponent c"
  obtain j where j: "k = e + j" using assms(4) le_Suc_ex unfolding e_def by blast
  have "d * 10 ^ e * 10 ^ j = of_int n" using assms(2) by (simp add: j power_add mult.assoc)
  from dec_ctx_exact [OF this assms(3)] have "dec_mul d (10 ^ e) = d * 10 ^ e"
    by (simp add: dec_mul_def)
  then show ?thesis
    using assms(1) round_half_up_error [of "d * 10 ^ e"]
    by (simp add: to_minor_def decimal_of_def e_def)
qed

theorem to_minor_nearest_witness:
  "\<exists>m. to_minor (PyDecimal (10995 / 1000)) ''usd'' = Inr m
      \<and> \<bar>rat_of_int m - (10995 / 1000) * 10 ^ 2\<bar> \<le> 1 / 2
      \<and> to_minor (PyFloat (10995 / 1000)) ''usd'' = Inl InvalidMoney"
proof -
  have "get_currency ''usd'' = Inr (mk_currency ''usd'' 2 True)" by code_simp
  from to_minor_nearest [OF this, of "10995 / 1000" 3 10995] show ?thesis
    by (simp add: mk_currency_def)
qed

text \<open>
  A provider amount is produced exactly for a positive integer in a currency verified for
  payments, it is the minor-unit integer itself, and \<open>from_stripe_amount\<close> inverts it.
\<close>

theorem stripe_amount_exact:
  "to_stripe_amount v code = Inr a \<longleftrightarrow>
     (\<exists>c. get_currency code = Inr c \<and> cur_payment_verified c \<and> v = PyInt a \<and> 0 < a
          \<and> from_stripe_amount (PyInt a) code = Inr a)"
  by (cases v) (auto simp: to_stripe_amount_def from_stripe_amount_def res_simps split: if_splits)

end
