(* ===== verification/Gst_Calc.thy ===== *)
theory Gst_Calc
  imports Decimal_Context
begin

text \<open>
  The GST arithmetic of \<open>app/modules/tax/gst_calc.py\<close>: largest-remainder allocation, the rates of
  a line, the tax of one value at one set of rates, and \<open>calculate\<close> over an invoice under both
  pricing modes, both shipping treatments and both rounding policies. The locale \<open>exact_split\<close>
  is the contract of an exact proportional split, which \<open>allocate\<close> implements and which the
  discount code relies on.
\<close>

section \<open>Definitions\<close>

record calc_line =
  cl_key :: int
  cl_value_paise :: int
  cl_treatment :: string
  cl_cgst :: rat
  cl_sgst :: rat
  cl_igst :: rat

record line_tax =
  lt_key :: int
  lt_shipping_paise :: int
  lt_gross_paise :: int
  lt_taxable_paise :: int
  lt_cgst_paise :: int
  lt_sgst_paise :: int
  lt_igst_paise :: int
  lt_round_off_paise :: int

definition lt_tax_paise :: "line_tax \<Rightarrow> int" where
  "lt_tax_paise l = lt_cgst_paise l + lt_sgst_paise l + lt_igst_paise l"

record gst_result =
  gr_lines :: "line_tax list"
  gr_shipping_untaxed_paise :: int
  gr_taxable_paise :: int
  gr_cgst_paise :: int
  gr_sgst_paise :: int
  gr_igst_paise :: int
  gr_round_off_paise :: int
  gr_tax_paise :: int
  gr_tax_added_paise :: int
  gr_tax_included_paise :: int

datatype gst_error = UnknownTaxConfiguration

definition half_up :: "rat \<Rightarrow> int" where
  "half_up x = round_half_up x"

text \<open>\<open>exact[i]\<close> of \<open>_allocate\<close>: \<open>Decimal(total) * w / weight_sum\<close>, rounded by the context twice.\<close>

definition exact_share :: "int \<Rightarrow> int \<Rightarrow> int \<Rightarrow> rat" where
  "exact_share amount weight_sum w = dec_div (dec_mul (of_int amount) (of_int w)) (of_int weight_sum)"

definition allocate :: "int \<Rightarrow> int list \<Rightarrow> int list" where
  "allocate amount weights =
     (let weight_sum = sum_list weights in
      if amount = 0 \<or> weight_sum = 0 then replicate (length weights) 0
      else
        let exact = map (exact_share amount weight_sum) weights;
            parts = map dec_int exact;
            leftover = amount - sum_list parts;
            order = sort_key (\<lambda>i. (- dec_sub (exact ! i) (of_int (parts ! i)), i))
                      [0..<length weights]
        in bump_all (py_take leftover order) parts)"

type_synonym rates = "rat \<times> rat \<times> rat"

definition rates_of :: "calc_line \<Rightarrow> bool \<Rightarrow> rates" where
  "rates_of line intra_state =
     (if cl_treatment line \<noteq> ''taxable'' then (0, 0, 0)
      else if intra_state then (cl_cgst line, cl_sgst line, 0) else (0, 0, cl_igst line))"

definition sum_rates :: "rates \<Rightarrow> rat" where
  "sum_rates r = (case r of (c, s, g) \<Rightarrow> dec_add (dec_add (dec_add 0 c) s) g)"

definition percent_of :: "int \<Rightarrow> rat \<Rightarrow> int" where
  "percent_of v r = half_up (dec_div (dec_mul (of_int v) r) 100)"

definition slab_tax :: "int \<Rightarrow> rates \<Rightarrow> string \<Rightarrow> int \<times> int \<times> int \<times> int" where
  "slab_tax v r pricing_mode =
     (case r of (c, s, g) \<Rightarrow>
        if sum_rates r = 0 then (v, 0, 0, 0)
        else if pricing_mode = ''exclusive''
        then (v, percent_of v c, percent_of v s, percent_of v g)
        else
          let taxable = half_up (dec_div (dec_mul (of_int v) 100) (dec_add 100 (sum_rates r)))
          in (taxable, percent_of taxable c, percent_of taxable s, percent_of taxable g))"

text \<open>\<open>slabs.setdefault(r, []).append(i)\<close> on an insertion-ordered dict.\<close>

fun add_slab :: "rates \<Rightarrow> nat \<Rightarrow> (rates \<times> nat list) list \<Rightarrow> (rates \<times> nat list) list" where
  "add_slab r i [] = [(r, [i])]"
| "add_slab r i ((r', is) # slabs) =
     (if r' = r then (r', is @ [i]) # slabs else (r', is) # add_slab r i slabs)"

fun group_slabs :: "nat \<Rightarrow> rates list \<Rightarrow> (rates \<times> nat list) list \<Rightarrow> (rates \<times> nat list) list" where
  "group_slabs i [] slabs = slabs"
| "group_slabs i (r # rs) slabs = group_slabs (Suc i) rs (add_slab r i slabs)"

text \<open>\<open>for i, part in zip(members, parts): target[i] = part\<close>.\<close>

fun assign :: "nat list \<Rightarrow> int list \<Rightarrow> int list \<Rightarrow> int list" where
  "assign (i # is) (p # ps) target = assign is ps (target[i := p])"
| "assign _ _ target = target"

type_synonym tax_columns = "int list \<times> int list \<times> int list \<times> int list"

definition slab_columns ::
  "string \<Rightarrow> int list \<Rightarrow> rates \<times> nat list \<Rightarrow> tax_columns \<Rightarrow> tax_columns" where
  "slab_columns pricing_mode grosses slab cols =
     (case slab of (r, members) \<Rightarrow> case cols of (taxable, cgst, sgst, igst) \<Rightarrow>
        let weights = map (\<lambda>i. grosses ! i) members in
        case slab_tax (sum_list weights) r pricing_mode of (t, c, s, g) \<Rightarrow>
          (assign members (allocate t weights) taxable,
           assign members (allocate c weights) cgst,
           assign members (allocate s weights) sgst,
           assign members (allocate g weights) igst))"

definition invoice_columns :: "string \<Rightarrow> int list \<Rightarrow> rates list \<Rightarrow> tax_columns" where
  "invoice_columns pricing_mode grosses rates =
     (let zeros = replicate (length rates) 0 in
      fold (slab_columns pricing_mode grosses) (group_slabs 0 rates []) (zeros, zeros, zeros, zeros))"

definition line_columns :: "string \<Rightarrow> int list \<Rightarrow> rates list \<Rightarrow> tax_columns" where
  "line_columns pricing_mode grosses rates =
     (let ts = map2 (\<lambda>v r. slab_tax v r pricing_mode) grosses rates in
      (map (\<lambda>(t, c, s, g). t) ts, map (\<lambda>(t, c, s, g). c) ts,
       map (\<lambda>(t, c, s, g). s) ts, map (\<lambda>(t, c, s, g). g) ts))"

definition shipped_parts :: "string \<Rightarrow> int \<Rightarrow> int list \<Rightarrow> int list \<times> int" where
  "shipped_parts shipping_treatment shipping values =
     (if shipping_treatment = ''taxable_with_goods'' \<and> shipping \<noteq> 0
      then (allocate shipping values, 0)
      else (replicate (length values) 0, shipping))"

definition line_result ::
  "string \<Rightarrow> calc_line list \<Rightarrow> int list \<Rightarrow> int list \<Rightarrow> tax_columns \<Rightarrow> nat \<Rightarrow> line_tax" where
  "line_result pricing_mode ls shipped grosses cols i =
     (case cols of (taxable, cgst, sgst, igst) \<Rightarrow>
        \<lparr>lt_key = cl_key (ls ! i), lt_shipping_paise = shipped ! i, lt_gross_paise = grosses ! i,
         lt_taxable_paise = taxable ! i, lt_cgst_paise = cgst ! i, lt_sgst_paise = sgst ! i,
         lt_igst_paise = igst ! i,
         lt_round_off_paise =
           (if pricing_mode = ''inclusive''
            then grosses ! i - taxable ! i - cgst ! i - sgst ! i - igst ! i else 0)\<rparr>)"

definition calculate ::
  "calc_line list \<Rightarrow> int \<Rightarrow> bool \<Rightarrow> string \<Rightarrow> string \<Rightarrow> string \<Rightarrow> (gst_error, gst_result) result" where
  "calculate ls shipping_paise intra_state pricing_mode shipping_treatment rounding_policy =
     (if pricing_mode \<notin> {''inclusive'', ''exclusive''}
         \<or> shipping_treatment \<notin> {''not_taxed'', ''taxable_with_goods''}
         \<or> rounding_policy \<notin> {''line_half_up'', ''invoice_half_up''}
      then Inl UnknownTaxConfiguration
      else
        let vals = map cl_value_paise ls;
            (shipped, untaxed_shipping) = shipped_parts shipping_treatment shipping_paise vals;
            grosses = map2 (+) vals shipped;
            rates = map (\<lambda>l. rates_of l intra_state) ls;
            cols = (if rounding_policy = ''line_half_up''
                    then line_columns pricing_mode grosses rates
                    else invoice_columns pricing_mode grosses rates);
            per_line = map (line_result pricing_mode ls shipped grosses cols) [0..<length ls]
        in case cols of (taxable, cgst, sgst, igst) \<Rightarrow>
          let tax_total = sum_list cgst + sum_list sgst + sum_list igst in
          Inr \<lparr>gr_lines = per_line, gr_shipping_untaxed_paise = untaxed_shipping,
               gr_taxable_paise = sum_list taxable, gr_cgst_paise = sum_list cgst,
               gr_sgst_paise = sum_list sgst, gr_igst_paise = sum_list igst,
               gr_round_off_paise = sum_list (map lt_round_off_paise per_line),
               gr_tax_paise = tax_total,
               gr_tax_added_paise = (if pricing_mode = ''exclusive'' then tax_total else 0),
               gr_tax_included_paise = (if pricing_mode = ''inclusive'' then tax_total else 0)\<rparr>)"

section \<open>The contract of an exact split\<close>

text \<open>
  What callers of the allocation rely on: the parts are as many as the weights, they add up to
  the total exactly, they are not negative, and (when the total is at most the sum of the weights)
  no part exceeds its weight.
\<close>

locale exact_split =
  fixes split :: "int \<Rightarrow> int list \<Rightarrow> int list"
    and ok :: "int \<Rightarrow> int list \<Rightarrow> bool"
  assumes split_length: "length (split t ws) = length ws"
    and split_sum: "ok t ws \<Longrightarrow> sum_list (split t ws) = t"
    and split_nonneg: "ok t ws \<Longrightarrow> i < length ws \<Longrightarrow> 0 \<le> split t ws ! i"
    and split_le: "ok t ws \<Longrightarrow> t \<le> sum_list ws \<Longrightarrow> i < length ws \<Longrightarrow> split t ws ! i \<le> ws ! i"
begin

definition net :: "int \<Rightarrow> int list \<Rightarrow> int list" where
  "net t ws = map2 (-) ws (split t ws)"

lemma length_net: "length (net t ws) = length ws"
  by (simp add: net_def split_length)

lemma sum_net: "ok t ws \<Longrightarrow> sum_list (net t ws) = sum_list ws - t"
  using split_sum [of t ws] split_length [of t ws]
  by (simp add: net_def sum_list_subtractf [symmetric] sum_list_sum_nth split_beta' sum_subtractf)

lemma net_bounds:
  assumes "ok t ws" and "t \<le> sum_list ws" and "i < length ws"
  shows "0 \<le> net t ws ! i" and "net t ws ! i \<le> ws ! i"
  using split_nonneg [OF assms(1,3)] split_le [OF assms] split_length [of t ws] assms(3)
  by (simp_all add: net_def)

end

section \<open>Largest-remainder allocation is an exact split\<close>

text \<open>
  The range in which the 28-digit context cannot disturb the allocation: non-negative weights
  that are not all zero, and a product of total and weight sum below \<open>10 ^ 27\<close>. Integer columns
  stay far below it.
\<close>

definition alloc_ok :: "int \<Rightarrow> int list \<Rightarrow> bool" where
  "alloc_ok t ws \<longleftrightarrow> 0 \<le> t \<and> list_all (\<lambda>w. 0 \<le> w) ws \<and> (t = 0 \<or> 0 < sum_list ws)
     \<and> t * sum_list ws < 10 ^ 27"

lemma quotient_split:
  fixes n W :: int
  assumes "0 < W"
  shows "rat_of_int n / of_int W = of_int (n div W) + of_int (n mod W) / of_int W"
proof -
  have "rat_of_int n = of_int (n div W * W + n mod W)" by simp
  then have "rat_of_int n = of_int (n div W) * of_int W + of_int (n mod W)"
    by (simp only: of_int_add of_int_mult)
  then show ?thesis using assms by (simp add: add_divide_distrib)
qed

lemma exact_share_near:
  assumes W: "0 < W" and n: "0 \<le> n" "n < 10 ^ 27"
  shows "dec_int (dec_ctx (of_int n / of_int W)) = n div W"
    and "dec_sub (dec_ctx (of_int n / of_int W)) (of_int (n div W)) = 0 \<longleftrightarrow> n mod W = 0"
    and "0 \<le> dec_sub (dec_ctx (of_int n / of_int W)) (of_int (n div W))"
proof -
  let ?q = "rat_of_int n / of_int W" and ?a = "n div W" and ?r = "n mod W"
  have a: "0 \<le> ?a" "?a \<le> n"
    using W n(1) zdiv_mono2 [of n 1 W] by (simp_all add: pos_imp_zdiv_nonneg_iff)
  have q0: "0 \<le> ?q" using W n(1) by simp
  have r: "0 \<le> ?r" "?r < W" using W by simp_all
  show "dec_int (dec_ctx ?q) = ?a"
    and "dec_sub (dec_ctx ?q) (of_int ?a) = 0 \<longleftrightarrow> ?r = 0"
    and "0 \<le> dec_sub (dec_ctx ?q) (of_int ?a)"
  proof (atomize (full), cases "?r = 0")
    case True
    then have "?q = of_int ?a" using quotient_split [OF W, of n] by simp
    moreover have "dec_ctx (of_int ?a) = of_int ?a" using a n(2) by (intro dec_ctx_int) auto
    ultimately show "dec_int (dec_ctx ?q) = ?a \<and> (dec_sub (dec_ctx ?q) (of_int ?a) = 0 \<longleftrightarrow> ?r = 0)
        \<and> 0 \<le> dec_sub (dec_ctx ?q) (of_int ?a)"
      using True a by (simp add: dec_int_def dec_sub_def)
  next
    case False
    have err: "\<bar>dec_ctx ?q - ?q\<bar> \<le> ?q / (2 * 10 ^ 27)" using dec_ctx_error [of ?q] q0 by simp
    have "?q / (2 * 10 ^ 27) < 1 / of_int W"
    proof -
      have "rat_of_int n < of_int (10 ^ 27)" using n(2) by linarith
      then have "rat_of_int n / (2 * 10 ^ 27) < 1" by simp
      then show ?thesis using W by (simp add: field_simps)
    qed
    with err have e: "\<bar>dec_ctx ?q - ?q\<bar> < 1 / of_int W" by linarith
    have lo: "1 / of_int W \<le> rat_of_int ?r / of_int W"
      using False r W by (intro divide_right_mono) (auto simp: le_less)
    have hi: "rat_of_int ?r / of_int W \<le> 1 - 1 / of_int W"
    proof -
      have "rat_of_int ?r \<le> of_int W - 1" using r by linarith
      then have "rat_of_int ?r / of_int W \<le> (of_int W - 1) / of_int W"
        using W by (intro divide_right_mono) auto
      then show ?thesis using W by (simp add: diff_divide_distrib)
    qed
    have "of_int ?a < dec_ctx ?q" "dec_ctx ?q < of_int ?a + 1"
      using e lo hi quotient_split [OF W, of n] by linarith+
    then have "\<lfloor>dec_ctx ?q\<rfloor> = ?a" and "0 < dec_sub (dec_ctx ?q) (of_int ?a)"
      by (auto simp: floor_eq_iff dec_sub_def intro: dec_ctx_pos)
    then show "dec_int (dec_ctx ?q) = ?a \<and> (dec_sub (dec_ctx ?q) (of_int ?a) = 0 \<longleftrightarrow> ?r = 0)
        \<and> 0 \<le> dec_sub (dec_ctx ?q) (of_int ?a)"
      using False dec_ctx_nonneg [OF q0] by (simp add: dec_int_def)
  qed
qed

lemma weights_bounds:
  assumes "alloc_ok t ws" and "w \<in> set ws"
  shows "0 \<le> w" and "w \<le> sum_list ws" and "0 \<le> t * w" and "t * w < 10 ^ 27"
proof -
  show w: "0 \<le> w" using assms by (auto simp: alloc_ok_def list_all_iff)
  show le: "w \<le> sum_list ws"
    using assms by (auto simp: alloc_ok_def list_all_iff intro: member_le_sum_list_int)
  have "0 \<le> t" using assms by (simp add: alloc_ok_def)
  then show "0 \<le> t * w" using w by simp
  have "t * w \<le> t * sum_list ws" using le \<open>0 \<le> t\<close> by (rule mult_left_mono)
  then show "t * w < 10 ^ 27" using assms by (simp add: alloc_ok_def)
qed

lemma exact_share_eq:
  assumes "alloc_ok t ws" and "w \<in> set ws"
  shows "exact_share t (sum_list ws) w = dec_ctx (of_int (t * w) / of_int (sum_list ws))"
proof -
  have "dec_mul (of_int t) (of_int w) = of_int (t * w)"
    unfolding dec_mul_def using dec_ctx_int [of "t * w"] weights_bounds [OF assms] by simp
  then show ?thesis by (simp add: exact_share_def dec_div_def)
qed

lemma leftover_bounds:
  fixes t W :: int and ws :: "int list"
  assumes W: "W = sum_list ws" "0 < W"
  defines "l \<equiv> t - sum_list (map (\<lambda>w. t * w div W) ws)"
  shows "0 \<le> l" and "l \<le> int (length (filter (\<lambda>w. t * w mod W \<noteq> 0) ws))"
proof -
  have "t * sum_list xs = W * sum_list (map (\<lambda>w. t * w div W) xs) + sum_list (map (\<lambda>w. t * w mod W) xs)"
    for xs by (induction xs) (simp_all add: distrib_left)
  then have eq: "W * l = sum_list (map (\<lambda>w. t * w mod W) ws)"
    using W(1) by (simp add: l_def right_diff_distrib mult.commute)
  have nn: "0 \<le> sum_list (map (\<lambda>w. t * w mod W) ws)"
    using W(2) by (intro sum_list_nonneg) auto
  then have "0 \<le> W * l" by (simp only: eq)
  with W(2) show "0 \<le> l" by (simp add: zero_le_mult_iff)
  have "sum_list (map (\<lambda>w. t * w mod W) ws) \<le> W * int (length (filter (\<lambda>w. t * w mod W \<noteq> 0) ws))"
  proof (induction ws)
    case (Cons w ws)
    have "t * w mod W \<le> W" using W(2) by (simp add: less_imp_le)
    with Cons show ?case by (auto simp: algebra_simps)
  qed simp
  with eq have "W * l \<le> W * int (length (filter (\<lambda>w. t * w mod W \<noteq> 0) ws))" by simp
  with W(2) show "l \<le> int (length (filter (\<lambda>w. t * w mod W \<noteq> 0) ws))" by simp
qed

text \<open>The value of every part: the floor of its exact share, plus one for some shares that are not whole.\<close>

lemma length_allocate [simp]: "length (allocate t ws) = length ws"
  by (simp add: allocate_def Let_def)

lemma allocate_parts:
  assumes ok: "alloc_ok t ws" and t: "t \<noteq> 0"
  obtains idx where
    "allocate t ws = bump_all idx (map (\<lambda>w. t * w div sum_list ws) ws)"
    and "distinct idx"
    and "int (length idx) = t - sum_list (map (\<lambda>w. t * w div sum_list ws) ws)"
    and "\<And>i. i \<in> set idx \<Longrightarrow> i < length ws \<and> t * ws ! i mod sum_list ws \<noteq> 0"
proof -
  define W where "W = sum_list ws"
  have W: "0 < W" using ok t by (simp add: alloc_ok_def W_def)
  define exact where "exact = map (exact_share t W) ws"
  define parts where "parts = map (\<lambda>w. t * w div W) ws"
  have near: "dec_int (exact_share t W w) = t * w div W"
    "dec_sub (exact_share t W w) (of_int (t * w div W)) = 0 \<longleftrightarrow> t * w mod W = 0"
    "0 \<le> dec_sub (exact_share t W w) (of_int (t * w div W))" if "w \<in> set ws" for w
    using exact_share_near [OF W, of "t * w"] weights_bounds [OF ok that]
      exact_share_eq [OF ok that] by (simp_all add: W_def)
  have parts: "map dec_int exact = parts" by (simp add: exact_def parts_def near)
  define key where "key = (\<lambda>i. (- dec_sub (exact ! i) (of_int (parts ! i)), i))"
  define order where "order = sort_key key [0..<length ws]"
  define l where "l = t - sum_list parts"
  define P where "P = (\<lambda>x :: rat \<times> nat. fst x < 0)"
  have P: "P (key i) \<longleftrightarrow> t * ws ! i mod W \<noteq> 0" if "i < length ws" for i
    using near [of "ws ! i"] that by (auto simp: P_def key_def exact_def parts_def less_le)
  have "filter (\<lambda>i. P (key i)) [0..<length ws] = filter (\<lambda>i. t * ws ! i mod W \<noteq> 0) [0..<length ws]"
    using P by (intro filter_cong) auto
  then have count: "length (filter (\<lambda>i. P (key i)) order) = length (filter (\<lambda>w. t * w mod W \<noteq> 0) ws)"
    unfolding order_def length_filter_sort_key
    by (simp add: length_filter_upt [where Q = "\<lambda>w. t * w mod W \<noteq> 0"])
  have l: "0 \<le> l" "l \<le> int (length (filter (\<lambda>i. P (key i)) order))"
    using leftover_bounds [OF W_def W, of t] by (simp_all add: l_def parts_def count)
  have sorted: "sorted (map key order)" by (simp add: order_def)
  have "allocate t ws = bump_all (py_take l order) parts"
    using W t by (simp add: allocate_def Let_def W_def [symmetric] exact_def [symmetric] parts
        key_def [symmetric] order_def [symmetric] l_def [symmetric])
  then have 1: "allocate t ws = bump_all (take (nat l) order) parts"
    using l(1) by (simp add: py_take_def)
  have 2: "distinct (take (nat l) order)" by (simp add: order_def distinct_take)
  have "nat l \<le> length order"
    using l(2) length_filter_le [of "\<lambda>i. P (key i)" order] by linarith
  then have 3: "int (length (take (nat l) order)) = l" using l(1) by simp
  have 4: "i < length ws \<and> t * ws ! i mod W \<noteq> 0" if i: "i \<in> set (take (nat l) order)" for i
  proof -
    have "i < length ws" using in_set_takeD [OF i] by (simp add: order_def)
    moreover have "P (key x)" if "key x \<le> key y" "P (key y)" for x y
      using that by (auto simp: P_def less_eq_prod_def)
    then have "P (key i)"
      using set_take_sorted [of key order "\<lambda>i. P (key i)" "nat l" i] sorted l i by simp
    ultimately show ?thesis by (simp add: P)
  qed
  show thesis
  proof (rule that [of "take (nat l) order"])
    show "allocate t ws = bump_all (take (nat l) order) (map (\<lambda>w. t * w div sum_list ws) ws)"
      using 1 by (simp only: parts_def W_def)
    show "int (length (take (nat l) order)) = t - sum_list (map (\<lambda>w. t * w div sum_list ws) ws)"
      using 3 by (simp only: l_def parts_def W_def)
    show "i < length ws \<and> t * ws ! i mod sum_list ws \<noteq> 0" if "i \<in> set (take (nat l) order)" for i
      using 4 [OF that] unfolding W_def .
  qed (rule 2)
qed

lemma allocate_nth:
  assumes ok: "alloc_ok t ws" and i: "i < length ws"
  shows "allocate t ws ! i \<in> {t * ws ! i div sum_list ws,
           t * ws ! i div sum_list ws + (if t * ws ! i mod sum_list ws = 0 then 0 else 1)}"
proof (cases "t = 0")
  case True
  with i show ?thesis by (simp add: allocate_def)
next
  case False
  obtain idx where idx: "allocate t ws = bump_all idx (map (\<lambda>w. t * w div sum_list ws) ws)"
    "distinct idx" "\<And>i. i \<in> set idx \<Longrightarrow> i < length ws \<and> t * ws ! i mod sum_list ws \<noteq> 0"
    using allocate_parts [OF ok False] by metis
  show ?thesis
    using nth_bump_all [OF idx(2), of "map (\<lambda>w. t * w div sum_list ws) ws" i] idx(3) i
    by (auto simp: idx(1))
qed

lemma allocate_sum:
  assumes ok: "alloc_ok t ws"
  shows "sum_list (allocate t ws) = t"
proof (cases "t = 0")
  case True
  then show ?thesis by (simp add: allocate_def sum_list_replicate)
next
  case False
  obtain idx where idx: "allocate t ws = bump_all idx (map (\<lambda>w. t * w div sum_list ws) ws)"
    "int (length idx) = t - sum_list (map (\<lambda>w. t * w div sum_list ws) ws)"
    "\<And>i. i \<in> set idx \<Longrightarrow> i < length ws \<and> t * ws ! i mod sum_list ws \<noteq> 0"
    using allocate_parts [OF ok False] by metis
  show ?thesis
    using sum_list_bump_all [of idx "map (\<lambda>w. t * w div sum_list ws) ws"] idx(2,3)
    by (simp add: idx(1))
qed

lemma allocate_nonneg:
  assumes "alloc_ok t ws" and "i < length ws"
  shows "0 \<le> allocate t ws ! i"
proof -
  have "0 \<le> t * ws ! i" and "0 \<le> sum_list ws"
    using weights_bounds [OF assms(1), of "ws ! i"] assms(2) by auto
  then have "0 \<le> t * ws ! i div sum_list ws" by (simp add: div_int_pos_iff)
  then show ?thesis using allocate_nth [OF assms] by (auto split: if_splits)
qed

lemma allocate_le:
  assumes ok: "alloc_ok t ws" and le: "t \<le> sum_list ws" and i: "i < length ws"
  shows "allocate t ws ! i \<le> ws ! i"
proof (cases "t = 0")
  case True
  then show ?thesis using weights_bounds(1) [OF ok nth_mem [OF i]] i by (simp add: allocate_def)
next
  case False
  define W where "W = sum_list ws"
  define n where "n = t * ws ! i"
  have W: "0 < W" using ok False by (simp add: alloc_ok_def W_def)
  have w: "0 \<le> ws ! i" using weights_bounds(1) [OF ok nth_mem [OF i]] .
  have "n \<le> W * ws ! i" using le w by (simp add: n_def W_def mult_right_mono)
  then have div: "n div W * W + n mod W \<le> ws ! i * W" by (simp add: mult.commute)
  have "n div W \<le> ws ! i"
  proof (rule ccontr)
    assume "\<not> n div W \<le> ws ! i"
    then have "(ws ! i + 1) * W \<le> n div W * W" using W by (intro mult_right_mono) auto
    then have "ws ! i * W + W \<le> n div W * W" by (simp add: distrib_right)
    moreover have "0 \<le> n mod W" using W by simp
    ultimately show False using div W by linarith
  qed
  moreover have "n div W + 1 \<le> ws ! i" if "n mod W \<noteq> 0"
  proof (rule ccontr)
    assume "\<not> n div W + 1 \<le> ws ! i"
    then have "ws ! i * W \<le> n div W * W" using W by (intro mult_right_mono) auto
    moreover have "0 < n mod W" using that pos_mod_sign [OF W, of n] by simp
    ultimately show False using div by linarith
  qed
  ultimately show ?thesis
    using allocate_nth [OF ok i] by (auto simp: W_def n_def split: if_splits)
qed

interpretation alloc: exact_split allocate alloc_ok
  by unfold_locales (auto simp: allocate_sum allocate_nonneg allocate_le)

section \<open>Grouping lines into rate slabs\<close>

definition slabs_ok :: "nat \<Rightarrow> rates list \<Rightarrow> (rates \<times> nat list) list \<Rightarrow> bool" where
  "slabs_ok n rs slabs \<longleftrightarrow> distinct (concat (map snd slabs)) \<and> set (concat (map snd slabs)) = {0..<n}
     \<and> (\<forall>(r, ms) \<in> set slabs. \<forall>i \<in> set ms. rs ! i = r)"

lemma slabs_ok_slab:
  assumes "slabs_ok n rs slabs" and "slab \<in> set slabs"
  shows "distinct (snd slab)" and "\<forall>i \<in> set (snd slab). i < n \<and> rs ! i = fst slab"
proof -
  have d: "distinct (concat (map snd slabs))" using assms(1) by (simp add: slabs_ok_def)
  then show "distinct (snd slab)"
    using assms(2) by (induction slabs) auto
  have "set (snd slab) \<subseteq> {0..<n}"
    using assms by (auto simp: slabs_ok_def)
  then show "\<forall>i \<in> set (snd slab). i < n \<and> rs ! i = fst slab"
    using assms by (auto simp: slabs_ok_def case_prod_beta)
qed

lemma add_slab_members:
  "mset (concat (map snd (add_slab r i slabs))) = add_mset i (mset (concat (map snd slabs)))"
  by (induction r i slabs rule: add_slab.induct) auto

lemma add_slab_rates:
  assumes "\<forall>(r, ms) \<in> set slabs. \<forall>j \<in> set ms. rs ! j = r" and "rs ! i = r"
  shows "\<forall>(r, ms) \<in> set (add_slab r i slabs). \<forall>j \<in> set ms. rs ! j = r"
  using assms by (induction r i slabs rule: add_slab.induct) auto

lemma add_slab_ok:
  assumes "slabs_ok n rs slabs" and "rs ! n = r"
  shows "slabs_ok (Suc n) rs (add_slab r n slabs)"
proof -
  have m: "mset (concat (map snd (add_slab r n slabs))) = mset (n # concat (map snd slabs))"
    by (simp add: add_slab_members)
  have "distinct (n # concat (map snd slabs))" and "set (n # concat (map snd slabs)) = {0..<Suc n}"
    using assms(1) by (auto simp: slabs_ok_def)
  then have "distinct (concat (map snd (add_slab r n slabs)))"
    and "set (concat (map snd (add_slab r n slabs))) = {0..<Suc n}"
    using mset_eq_imp_distinct_iff [OF m] mset_eq_setD [OF m] by simp_all
  then show ?thesis
    using assms add_slab_rates [of slabs rs n r] by (auto simp: slabs_ok_def)
qed

lemma group_slabs_ok:
  "slabs_ok n (ps @ rs) slabs \<Longrightarrow> n = length ps \<Longrightarrow>
   slabs_ok (length (ps @ rs)) (ps @ rs) (group_slabs n rs slabs)"
proof (induction n rs slabs arbitrary: ps rule: group_slabs.induct)
  case (1 i slabs)
  then show ?case by simp
next
  case (2 i r rs slabs)
  have "slabs_ok (Suc i) (ps @ r # rs) (add_slab r i slabs)"
    using 2(2,3) by (intro add_slab_ok) (auto simp: nth_append)
  then show ?case using 2(1) [of "ps @ [r]"] 2(3) by simp
qed

lemma group_slabs_start: "slabs_ok (length rs) rs (group_slabs 0 rs [])"
  using group_slabs_ok [of 0 "[]" rs "[]"] by (simp add: slabs_ok_def)

lemma length_assign [simp]: "length (assign ms ps target) = length target"
  by (induction ms ps target rule: assign.induct) auto

lemma assign_other: "i \<notin> set ms \<Longrightarrow> assign ms ps target ! i = target ! i"
  by (induction ms ps target rule: assign.induct) auto

lemma assign_nth:
  assumes "distinct ms" and "length ps = length ms" and "\<forall>m \<in> set ms. m < length target"
    and "k < length ms"
  shows "assign ms ps target ! (ms ! k) = ps ! k"
  using assms
proof (induction ms ps target arbitrary: k rule: assign.induct)
  case (1 i "is" p ps target)
  then show ?case by (cases k) (auto simp: assign_other)
qed auto

lemma sum_list_update_int:
  fixes xs :: "int list"
  shows "i < length xs \<Longrightarrow> sum_list (xs[i := v]) = sum_list xs - xs ! i + v"
  by (induction xs arbitrary: i) (auto split: nat.split)

lemma sum_assign:
  assumes "distinct ms" and "length ps = length ms" and "\<forall>m \<in> set ms. m < length target \<and> target ! m = 0"
  shows "sum_list (assign ms ps target) = sum_list target + sum_list ps"
  using assms
proof (induction ms ps target rule: assign.induct)
  case (1 i "is" p ps target)
  then have "\<forall>m \<in> set is. m < length (target[i := p]) \<and> target[i := p] ! m = 0"
    by (auto simp: nth_list_update)
  with 1 show ?case by (simp add: sum_list_update_int)
qed auto

section \<open>The columns of an invoice\<close>

definition cols_at :: "tax_columns \<Rightarrow> nat \<Rightarrow> int \<times> int \<times> int \<times> int" where
  "cols_at cols i = (case cols of (t, c, s, g) \<Rightarrow> (t ! i, c ! i, s ! i, g ! i))"

definition cols_length :: "nat \<Rightarrow> tax_columns \<Rightarrow> bool" where
  "cols_length n cols \<longleftrightarrow>
     (case cols of (t, c, s, g) \<Rightarrow> length t = n \<and> length c = n \<and> length s = n \<and> length g = n)"

text \<open>What one slab hands to its \<open>k\<close>-th member.\<close>

definition slab_part :: "string \<Rightarrow> int list \<Rightarrow> rates \<times> nat list \<Rightarrow> nat \<Rightarrow> int \<times> int \<times> int \<times> int" where
  "slab_part m grosses slab k =
     (let weights = map ((!) grosses) (snd slab) in
      case slab_tax (sum_list weights) (fst slab) m of (t, c, s, g) \<Rightarrow>
        (allocate t weights ! k, allocate c weights ! k, allocate s weights ! k, allocate g weights ! k))"

lemma slab_part_eq:
  "slab_part m grosses slab k =
     (let weights = map ((!) grosses) (snd slab); x = slab_tax (sum_list weights) (fst slab) m in
      (allocate (fst x) weights ! k, allocate (fst (snd x)) weights ! k,
       allocate (fst (snd (snd x))) weights ! k, allocate (snd (snd (snd x))) weights ! k))"
  by (simp add: slab_part_def Let_def case_prod_beta)

lemma slab_columns_length:
  "cols_length n cols \<Longrightarrow> cols_length n (slab_columns m grosses slab cols)"
  by (auto simp: cols_length_def slab_columns_def Let_def split: prod.splits)

lemma slab_columns_member:
  assumes "cols_length n cols" and "distinct (snd slab)" and "\<forall>i \<in> set (snd slab). i < n"
    and "k < length (snd slab)"
  shows "cols_at (slab_columns m grosses slab cols) (snd slab ! k) = slab_part m grosses slab k"
  using assms
  by (auto simp: cols_length_def slab_columns_def slab_part_def cols_at_def Let_def assign_nth
      split: prod.splits)

lemma slab_columns_other:
  "i \<notin> set (snd slab) \<Longrightarrow> cols_at (slab_columns m grosses slab cols) i = cols_at cols i"
  by (auto simp: slab_columns_def cols_at_def Let_def assign_other split: prod.splits)

text \<open>
  A property of what every slab hands to each of its members holds of every line of the
  invoice.
\<close>

lemma fold_slabs_property:
  assumes "cols_length n cols"
    and "\<And>slab. slab \<in> set slabs \<Longrightarrow> distinct (snd slab) \<and> (\<forall>i \<in> set (snd slab). i < n)"
    and "\<And>slab k. slab \<in> set slabs \<Longrightarrow> k < length (snd slab) \<Longrightarrow>
           Q (snd slab ! k) (slab_part m grosses slab k)"
    and "\<And>i. i \<in> D \<Longrightarrow> Q i (cols_at cols i)"
    and "i \<in> D \<union> set (concat (map snd slabs))"
  shows "Q i (cols_at (fold (slab_columns m grosses) slabs cols) i)"
  using assms
proof (induction slabs arbitrary: cols D)
  case Nil
  then show ?case by simp
next
  case (Cons slab slabs)
  let ?cols = "slab_columns m grosses slab cols"
  have "cols_length n ?cols" using Cons.prems(1) by (rule slab_columns_length)
  moreover have "Q j (cols_at ?cols j)" if j: "j \<in> D \<union> set (snd slab)" for j
  proof (cases "j \<in> set (snd slab)")
    case True
    then obtain k where k: "k < length (snd slab)" "j = snd slab ! k" by (auto simp: in_set_conv_nth)
    have "distinct (snd slab)" "\<forall>i \<in> set (snd slab). i < n"
      using Cons.prems(2) [of slab] by simp_all
    then have "cols_at ?cols j = slab_part m grosses slab k"
      using slab_columns_member Cons.prems(1) k by blast
    then show ?thesis using Cons.prems(3) [of slab k] k by simp
  next
    case False
    then show ?thesis using j Cons.prems(4) by (simp add: slab_columns_other)
  qed
  moreover have "i \<in> (D \<union> set (snd slab)) \<union> set (concat (map snd slabs))"
    using Cons.prems(5) by auto
  ultimately have "Q i (cols_at (fold (slab_columns m grosses) slabs ?cols) i)"
    using Cons.prems(2) [OF list.set_intros(2)] Cons.prems(3) [OF list.set_intros(2)]
    by (intro Cons.IH [where D = "D \<union> set (snd slab)"])
  then show ?case by simp
qed

lemma invoice_columns_property:
  assumes "\<And>slab k. slab \<in> set (group_slabs 0 rs []) \<Longrightarrow> k < length (snd slab) \<Longrightarrow>
             Q (snd slab ! k) (slab_part m grosses slab k)"
    and "i < length rs"
  shows "Q i (cols_at (invoice_columns m grosses rs) i)"
proof -
  let ?z = "replicate (length rs) (0::int)"
  have ok: "slabs_ok (length rs) rs (group_slabs 0 rs [])" by (rule group_slabs_start)
  have "Q i (cols_at (fold (slab_columns m grosses) (group_slabs 0 rs []) (?z, ?z, ?z, ?z)) i)"
  proof (rule fold_slabs_property [where D = "{}" and n = "length rs"])
    show "distinct (snd slab) \<and> (\<forall>i \<in> set (snd slab). i < length rs)"
      if "slab \<in> set (group_slabs 0 rs [])" for slab
      using slabs_ok_slab [OF ok that] by simp
    show "cols_length (length rs) (?z, ?z, ?z, ?z)" by (simp add: cols_length_def)
    show "i \<in> {} \<union> set (concat (map snd (group_slabs 0 rs [])))"
      using ok assms(2) unfolding slabs_ok_def by simp
  qed (rule assms(1), assumption+, simp)
  then show ?thesis by (simp add: invoice_columns_def Let_def)
qed

lemma line_columns_at:
  assumes "i < length rs" and "length grosses = length rs"
  shows "cols_at (line_columns m grosses rs) i = slab_tax (grosses ! i) (rs ! i) m"
  using assms by (auto simp: line_columns_def cols_at_def Let_def split: prod.splits)

section \<open>Calculating an invoice\<close>

text \<open>The amounts of an order: Integer columns that are not negative.\<close>

definition amounts_ok :: "calc_line list \<Rightarrow> int \<Rightarrow> bool" where
  "amounts_ok ls shipping \<longleftrightarrow> list_all (\<lambda>l. 0 \<le> cl_value_paise l) ls
     \<and> int32 (sum_list (map cl_value_paise ls)) \<and> 0 \<le> shipping \<and> int32 shipping"

lemma int32_product_bound:
  assumes "0 \<le> a" "a \<le> 2 ^ 32" "0 \<le> b" "b \<le> (2 ^ 32 :: int)"
  shows "a * b < 10 ^ 27"
proof -
  have "a * b \<le> 2 ^ 32 * 2 ^ 32" using assms by (intro mult_mono) auto
  then show ?thesis by simp
qed

lemma amounts_alloc_ok:
  assumes "amounts_ok ls shipping" and "shipping = 0 \<or> 0 < sum_list (map cl_value_paise ls)"
  shows "alloc_ok shipping (map cl_value_paise ls)"
proof -
  have nn: "0 \<le> sum_list (map cl_value_paise ls)"
    using assms(1) by (intro sum_list_nonneg) (auto simp: amounts_ok_def list_all_iff)
  then have "shipping * sum_list (map cl_value_paise ls) < 10 ^ 27"
    using assms(1) by (intro int32_product_bound) (auto simp: amounts_ok_def int32_def)
  with assms show ?thesis by (auto simp: alloc_ok_def amounts_ok_def list_all_iff)
qed

lemma allocate_zero_weights: "sum_list ws = 0 \<Longrightarrow> allocate t ws = replicate (length ws) 0"
  by (simp add: allocate_def)

lemma allocate_0 [simp]: "allocate 0 ws = replicate (length ws) 0"
  by (simp add: allocate_def)

lemma allocate_self:
  assumes "list_all (\<lambda>w. 0 \<le> w) ws" and "sum_list ws \<le> 2 ^ 32"
  shows "allocate (sum_list ws) ws = ws"
proof (cases "sum_list ws = 0")
  case True
  have "ws ! i = 0" if "i < length ws" for i
  proof -
    have "ws ! i \<le> sum_list ws" "0 \<le> ws ! i"
      using assms(1) that by (auto simp: list_all_iff intro!: member_le_sum_list_int)
    with True show ?thesis by simp
  qed
  then show ?thesis by (intro nth_equalityI) (simp_all add: allocate_zero_weights True)
next
  case False
  have nn: "0 \<le> sum_list ws" using assms(1) by (intro sum_list_nonneg) (auto simp: list_all_iff)
  then have ok: "alloc_ok (sum_list ws) ws"
    using assms False int32_product_bound [of "sum_list ws" "sum_list ws"] by (simp add: alloc_ok_def)
  show ?thesis
  proof (rule nth_equalityI)
    show "allocate (sum_list ws) ws ! i = ws ! i" if "i < length (allocate (sum_list ws) ws)" for i
      using allocate_nth [OF ok, of i] that False by simp
  qed simp
qed

lemma percent_of_0 [simp]: "percent_of v 0 = 0"
  by (simp add: percent_of_def dec_mul_def dec_div_def half_up_def)

lemma slab_tax_exclusive: "fst (slab_tax v r ''exclusive'') = v"
  by (simp add: slab_tax_def split: prod.splits)

lemma shipped_parts_lengths:
  "length (fst (shipped_parts st shipping vals)) = length vals"
  by (simp add: shipped_parts_def)

lemma shipped_parts_sum:
  assumes "alloc_ok shipping vals \<or> st \<noteq> ''taxable_with_goods''"
  shows "sum_list (fst (shipped_parts st shipping vals)) + snd (shipped_parts st shipping vals) = shipping"
  using assms by (auto simp: shipped_parts_def allocate_sum sum_list_replicate)

lemma shipped_parts_nonneg:
  assumes "amounts_ok ls shipping" and "i < length ls"
  shows "0 \<le> fst (shipped_parts st shipping (map cl_value_paise ls)) ! i"
proof (cases "shipping = 0 \<or> 0 < sum_list (map cl_value_paise ls)")
  case True
  then show ?thesis
    using assms amounts_alloc_ok [OF assms(1) True] by (simp add: shipped_parts_def allocate_nonneg)
next
  case False
  have "0 \<le> sum_list (map cl_value_paise ls)"
    using assms(1) by (intro sum_list_nonneg) (auto simp: amounts_ok_def list_all_iff)
  then have "sum_list (map cl_value_paise ls) = 0" using False by simp
  then show ?thesis using assms(2) by (simp add: shipped_parts_def allocate_zero_weights)
qed

lemma shipped_sum_le:
  assumes "amounts_ok ls shipping"
  shows "sum_list (fst (shipped_parts st shipping (map cl_value_paise ls))) \<le> shipping"
proof (cases "shipping = 0 \<or> 0 < sum_list (map cl_value_paise ls)")
  case True
  then show ?thesis
    using assms amounts_alloc_ok [OF assms(1) True]
    by (simp add: shipped_parts_def allocate_sum sum_list_replicate amounts_ok_def)
next
  case False
  have "0 \<le> sum_list (map cl_value_paise ls)"
    using assms by (intro sum_list_nonneg) (auto simp: amounts_ok_def list_all_iff)
  then have "sum_list (map cl_value_paise ls) = 0" using False by simp
  then show ?thesis
    using assms by (simp add: shipped_parts_def allocate_zero_weights sum_list_replicate amounts_ok_def)
qed

lemma sum_list_map2_plus:
  fixes xs ys :: "int list"
  shows "length xs = length ys \<Longrightarrow> sum_list (map2 (+) xs ys) = sum_list xs + sum_list ys"
  by (induction xs ys rule: list_induct2) auto

definition gross_values :: "calc_line list \<Rightarrow> int \<Rightarrow> string \<Rightarrow> int list" where
  "gross_values ls shipping st =
     map2 (+) (map cl_value_paise ls) (fst (shipped_parts st shipping (map cl_value_paise ls)))"

lemma length_gross_values [simp]: "length (gross_values ls shipping st) = length ls"
  by (simp add: gross_values_def shipped_parts_lengths)

lemma gross_values_bounds:
  assumes "amounts_ok ls shipping"
  shows "list_all (\<lambda>g. 0 \<le> g) (gross_values ls shipping st)"
    and "sum_list (gross_values ls shipping st) \<le> 2 ^ 32"
proof -
  have "0 \<le> gross_values ls shipping st ! i" if "i < length ls" for i
    using that assms shipped_parts_nonneg [OF assms that, of st]
    by (simp add: gross_values_def shipped_parts_lengths amounts_ok_def list_all_length)
  then show "list_all (\<lambda>g. 0 \<le> g) (gross_values ls shipping st)" by (simp add: list_all_length)
  have "sum_list (gross_values ls shipping st) \<le> sum_list (map cl_value_paise ls) + shipping"
    using shipped_sum_le [OF assms, of st]
    by (simp add: gross_values_def sum_list_map2_plus shipped_parts_lengths)
  then show "sum_list (gross_values ls shipping st) \<le> 2 ^ 32"
    using assms by (simp add: amounts_ok_def int32_def)
qed

lemma sum_members_le:
  fixes xs :: "int list"
  assumes "distinct ms" and "\<forall>i \<in> set ms. i < length xs" and "list_all (\<lambda>x. 0 \<le> x) xs"
  shows "sum_list (map ((!) xs) ms) \<le> sum_list xs"
proof -
  have "sum_list (map ((!) xs) ms) = sum ((!) xs) (set ms)"
    using assms(1) by (simp add: sum_list_distinct_conv_sum_set)
  also have "\<dots> \<le> sum ((!) xs) {0..<length xs}"
    using assms(2,3) by (intro sum_mono2) (auto simp: list_all_length)
  finally show ?thesis by (simp add: sum_list_sum_nth)
qed

lemma slab_weights_ok:
  fixes st :: string
  assumes "amounts_ok ls shipping" and "slab \<in> set (group_slabs 0 rs [])" and "length rs = length ls"
  defines "ws \<equiv> map ((!) (gross_values ls shipping st)) (snd slab)"
  shows "list_all (\<lambda>w. 0 \<le> w) ws" and "sum_list ws \<le> 2 ^ 32" and "0 \<le> sum_list ws"
proof -
  note slab = slabs_ok_slab [OF group_slabs_start assms(2)]
  note g = gross_values_bounds [OF assms(1), of st]
  show nn: "list_all (\<lambda>w. 0 \<le> w) ws"
    using g(1) slab(2) assms(3) by (auto simp: ws_def list_all_length)
  have "sum_list ws \<le> sum_list (gross_values ls shipping st)"
    unfolding ws_def using slab g(1) assms(3) by (intro sum_members_le) auto
  then show "sum_list ws \<le> 2 ^ 32" using g(2) by linarith
  show "0 \<le> sum_list ws" using nn by (intro sum_list_nonneg) (auto simp: list_all_iff)
qed

definition policy_columns :: "string \<Rightarrow> string \<Rightarrow> int list \<Rightarrow> rates list \<Rightarrow> tax_columns" where
  "policy_columns rp m grosses rs =
     (if rp = ''line_half_up'' then line_columns m grosses rs else invoice_columns m grosses rs)"

lemma cols_length_fold:
  "cols_length n cols \<Longrightarrow> cols_length n (fold (slab_columns m grosses) slabs cols)"
  by (induction slabs arbitrary: cols) (auto simp: slab_columns_length)

lemma cols_length_policy:
  assumes "length grosses = length rs"
  shows "cols_length (length rs) (policy_columns rp m grosses rs)"
proof -
  let ?z = "replicate (length rs) (0::int)"
  have "cols_length (length rs) (?z, ?z, ?z, ?z)" by (simp add: cols_length_def)
  then have "cols_length (length rs) (invoice_columns m grosses rs)"
    unfolding invoice_columns_def Let_def by (rule cols_length_fold)
  moreover have "cols_length (length rs) (line_columns m grosses rs)"
    using assms by (simp add: cols_length_def line_columns_def Let_def)
  ultimately show ?thesis by (simp add: policy_columns_def)
qed

text \<open>A property of what one value yields, and of what one slab hands out, holds of every line.\<close>

lemma policy_columns_property:
  assumes "rp = ''line_half_up'' \<Longrightarrow> Q i (slab_tax (grosses ! i) (rs ! i) m)"
    and "\<And>slab k. slab \<in> set (group_slabs 0 rs []) \<Longrightarrow> k < length (snd slab) \<Longrightarrow>
           Q (snd slab ! k) (slab_part m grosses slab k)"
    and "i < length rs" and "length grosses = length rs"
  shows "Q i (cols_at (policy_columns rp m grosses rs) i)"
proof (cases "rp = ''line_half_up''")
  case True
  then show ?thesis using assms(1,3,4) by (simp add: policy_columns_def line_columns_at)
next
  case False
  have "Q i (cols_at (invoice_columns m grosses rs) i)"
    using assms(2) assms(3) by (rule invoice_columns_property)
  with False show ?thesis by (simp add: policy_columns_def)
qed

lemma calculate_known:
  "(\<exists>r. calculate ls shipping intra m st rp = Inr r) \<longleftrightarrow>
     m \<in> {''inclusive'', ''exclusive''} \<and> st \<in> {''not_taxed'', ''taxable_with_goods''}
     \<and> rp \<in> {''line_half_up'', ''invoice_half_up''}"
  by (auto simp: calculate_def Let_def case_prod_beta)

text \<open>The shape of a successful calculation.\<close>

lemma calculate_shape:
  assumes "calculate ls shipping intra m st rp = Inr r"
  defines "gs \<equiv> gross_values ls shipping st"
    and "cols \<equiv> policy_columns rp m (gross_values ls shipping st) (map (\<lambda>l. rates_of l intra) ls)"
    and "shipped \<equiv> fst (shipped_parts st shipping (map cl_value_paise ls))"
  shows "gr_lines r = map (line_result m ls shipped gs cols) [0..<length ls]"
    and "gr_shipping_untaxed_paise r = snd (shipped_parts st shipping (map cl_value_paise ls))"
    and "gr_taxable_paise r = sum_list (fst cols)"
    and "gr_cgst_paise r = sum_list (fst (snd cols))"
    and "gr_sgst_paise r = sum_list (fst (snd (snd cols)))"
    and "gr_igst_paise r = sum_list (snd (snd (snd cols)))"
    and "gr_round_off_paise r = sum_list (map lt_round_off_paise (gr_lines r))"
    and "gr_tax_paise r = gr_cgst_paise r + gr_sgst_paise r + gr_igst_paise r"
    and "gr_tax_added_paise r = (if m = ''exclusive'' then gr_tax_paise r else 0)"
    and "gr_tax_included_paise r = (if m = ''inclusive'' then gr_tax_paise r else 0)"
    and "m = ''inclusive'' \<or> m = ''exclusive''"
  using assms(1)
  unfolding calculate_def gs_def cols_def shipped_def policy_columns_def gross_values_def Let_def
  by (auto split: prod.splits if_splits)

lemma line_result_sums:
  fixes m :: string and shipped :: "int list"
  assumes "cols_length (length ls) cols" and "length gs = length ls"
  defines "lines \<equiv> map (line_result m ls shipped gs cols) [0..<length ls]"
  shows "map lt_gross_paise lines = gs"
    and "map lt_taxable_paise lines = fst cols"
    and "map lt_cgst_paise lines = fst (snd cols)"
    and "map lt_sgst_paise lines = fst (snd (snd cols))"
    and "map lt_igst_paise lines = snd (snd (snd cols))"
  using assms(1,2) unfolding lines_def cols_length_def
  by (auto simp: line_result_def comp_def map_nth split: prod.splits intro!: nth_equalityI)

text \<open>The lines of a successful calculation, column by column.\<close>

lemma calculate_lines:
  assumes "calculate ls shipping intra m st rp = Inr r"
  defines "cols \<equiv> policy_columns rp m (gross_values ls shipping st) (map (\<lambda>l. rates_of l intra) ls)"
  shows "length (gr_lines r) = length ls"
    and "map lt_gross_paise (gr_lines r) = gross_values ls shipping st"
    and "map lt_taxable_paise (gr_lines r) = fst cols"
    and "map lt_cgst_paise (gr_lines r) = fst (snd cols)"
    and "map lt_sgst_paise (gr_lines r) = fst (snd (snd cols))"
    and "map lt_igst_paise (gr_lines r) = snd (snd (snd cols))"
proof -
  have "cols_length (length ls) cols"
    using cols_length_policy [of "gross_values ls shipping st" "map (\<lambda>l. rates_of l intra) ls" rp m]
    by (simp add: cols_def)
  then show "length (gr_lines r) = length ls"
    "map lt_gross_paise (gr_lines r) = gross_values ls shipping st"
    "map lt_taxable_paise (gr_lines r) = fst cols"
    "map lt_cgst_paise (gr_lines r) = fst (snd cols)"
    "map lt_sgst_paise (gr_lines r) = fst (snd (snd cols))"
    "map lt_igst_paise (gr_lines r) = snd (snd (snd cols))"
    unfolding calculate_shape(1) [OF assms(1), folded cols_def]
    by (simp_all only: line_result_sums length_gross_values length_map length_upt diff_zero)
qed

lemma calculate_line_at:
  assumes "calculate ls shipping intra m st rp = Inr r" and "i < length ls"
  defines "cols \<equiv> policy_columns rp m (gross_values ls shipping st) (map (\<lambda>l. rates_of l intra) ls)"
    and "l \<equiv> gr_lines r ! i"
  shows "lt_gross_paise l = gross_values ls shipping st ! i"
    and "lt_taxable_paise l = fst (cols_at cols i)"
    and "lt_cgst_paise l = fst (snd (cols_at cols i))"
    and "lt_sgst_paise l = fst (snd (snd (cols_at cols i)))"
    and "lt_igst_paise l = snd (snd (snd (cols_at cols i)))"
    and "lt_round_off_paise l =
           (if m = ''inclusive'' then lt_gross_paise l - lt_taxable_paise l - lt_tax_paise l else 0)"
  unfolding l_def calculate_shape(1) [OF assms(1), folded cols_def] using assms(2)
  by (simp_all add: line_result_def cols_at_def lt_tax_paise_def split: prod.splits)

section \<open>Rounding error of one slab\<close>

text \<open>
  A rate as the master data stores it: \<open>Numeric(6, 3)\<close> between 0 and 100. The database also
  requires of a taxable rule that CGST and SGST add up to IGST.
\<close>

definition rate_ok :: "rat \<Rightarrow> bool" where
  "rate_ok r \<longleftrightarrow> 0 \<le> r \<and> r \<le> 100 \<and> r * 1000 \<in> \<int>"

definition line_rates_ok :: "calc_line \<Rightarrow> bool" where
  "line_rates_ok l \<longleftrightarrow> rate_ok (cl_cgst l) \<and> rate_ok (cl_sgst l) \<and> rate_ok (cl_igst l)
     \<and> cl_cgst l + cl_sgst l = cl_igst l"

lemma dec_ctx_thousandths:
  assumes "x * 10 ^ k \<in> \<int>" and "\<bar>x\<bar> * 10 ^ k < 10 ^ 28"
  shows "dec_ctx x = x"
proof -
  from assms(1) obtain n where n: "x * 10 ^ k = of_int n" by (auto elim: Ints_cases)
  have "\<bar>of_int n :: rat\<bar> = \<bar>x\<bar> * 10 ^ k" by (simp add: abs_mult flip: n)
  with assms(2) have "\<bar>of_int n :: rat\<bar> < of_int (10 ^ 28)" by simp
  then have "\<bar>n\<bar> < 10 ^ 28" by linarith
  with n show ?thesis by (rule dec_ctx_exact)
qed

lemma percent_of_near:
  assumes "rate_ok r" and "\<bar>v\<bar> \<le> 2 ^ 33"
  shows "\<bar>of_int (percent_of v r) - of_int v * r / 100\<bar> \<le> 1 / 2"
proof -
  have "rat_of_int \<bar>v\<bar> \<le> of_int (2 ^ 33)" using assms(2) by (simp only: of_int_le_iff)
  then have v: "\<bar>rat_of_int v\<bar> \<le> 2 ^ 33" by simp
  have r: "0 \<le> r" "r \<le> 100" "r * 1000 \<in> \<int>" using assms(1) by (simp_all add: rate_ok_def)
  have le: "\<bar>of_int v * r\<bar> \<le> 2 ^ 33 * 100"
    unfolding abs_mult using v r by (intro mult_mono) auto
  have "of_int v * r * 10 ^ 3 = of_int v * (r * 1000)" by simp
  then have i3: "of_int v * r * 10 ^ 3 \<in> \<int>" using Ints_mult [OF Ints_of_int r(3)] by metis
  have 1: "dec_mul (of_int v) r = of_int v * r"
    unfolding dec_mul_def using i3 le by (intro dec_ctx_thousandths [where k = 3]) auto
  have i5: "of_int v * r / 100 * 10 ^ 5 \<in> \<int>" using i3 by (simp add: mult.commute)
  have "\<bar>of_int v * r / 100\<bar> * 10 ^ 5 < 10 ^ 28" using le by simp
  with i5 have "dec_ctx (of_int v * r / 100) = of_int v * r / 100" by (rule dec_ctx_thousandths)
  then have "percent_of v r = round_half_up (of_int v * r / 100)"
    by (simp only: percent_of_def 1 dec_div_def half_up_def)
  then show ?thesis using round_half_up_error [of "of_int v * r / 100"] by (simp only:)
qed

lemma sum_rates_exact:
  assumes "rate_ok c" "rate_ok s" "rate_ok g"
  shows "sum_rates (c, s, g) = c + s + g"
proof -
  have d: "dec_ctx x = x" if "x * 1000 \<in> \<int>" "0 \<le> x" "x \<le> 300" for x
    using that by (intro dec_ctx_thousandths [where k = 3]) auto
  have "c * 1000 \<in> \<int>" "(c + s) * 1000 \<in> \<int>" "(c + s + g) * 1000 \<in> \<int>"
    using assms by (auto simp: rate_ok_def distrib_right)
  then show ?thesis
    using assms by (simp add: sum_rates_def dec_add_def d rate_ok_def)
qed

lemma taxable_near:
  assumes "0 \<le> v" "v \<le> 2 ^ 32" and "0 \<le> R" "R \<le> 100" "R * 1000 \<in> \<int>"
  defines "t \<equiv> half_up (dec_div (dec_mul (of_int v) 100) (dec_add 100 R))"
    and "q \<equiv> of_int v * 100 / (100 + R)"
  shows "\<bar>of_int t - q\<bar> \<le> 1 / 2 + 1 / 10 ^ 17" and "0 \<le> q" and "q \<le> 2 ^ 32"
proof -
  have "rat_of_int v \<le> of_int (2 ^ 32)" using assms(2) by (simp only: of_int_le_iff)
  then have v: "0 \<le> rat_of_int v" "rat_of_int v \<le> 2 ^ 32" using assms(1) by simp_all
  have 1: "dec_mul (of_int v) 100 = of_int v * 100"
    using dec_ctx_int [of "v * 100"] assms(1,2) by (simp add: dec_mul_def)
  have 2: "dec_add 100 R = 100 + R"
    unfolding dec_add_def using assms(3,4,5)
    by (intro dec_ctx_thousandths [where k = 3]) (auto simp: distrib_right)
  show q0: "0 \<le> q" unfolding q_def using v assms(3) by simp
  have "q \<le> of_int v" unfolding q_def using v assms(3) by (simp add: field_simps)
  then show q1: "q \<le> 2 ^ 32" using v by linarith
  have t: "t = round_half_up (dec_ctx q)"
    by (simp add: t_def 1 2 dec_div_def half_up_def q_def)
  have "\<bar>dec_ctx q - q\<bar> \<le> q / (2 * 10 ^ 27)" using dec_ctx_error [of q] q0 by simp
  also have "\<dots> \<le> 2 ^ 32 / (2 * 10 ^ 27)" using q1 by (intro divide_right_mono) auto
  also have "\<dots> \<le> 1 / 10 ^ 17" by simp
  finally show "\<bar>of_int t - q\<bar> \<le> 1 / 2 + 1 / 10 ^ 17"
    using round_half_up_error [of "dec_ctx q"] unfolding t by linarith
qed

text \<open>Inclusive pricing: what the rounding leaves over is at most one paisa.\<close>

lemma slab_tax_inclusive_round_off:
  assumes "rate_ok c" "rate_ok s" "rate_ok g" and "c + s + g \<le> 99" and "g = 0 \<or> c = 0 \<and> s = 0"
    and "0 \<le> v" "v \<le> 2 ^ 32" and "slab_tax v (c, s, g) ''inclusive'' = (t, pc, ps, pg)"
  shows "\<bar>v - t - pc - ps - pg\<bar> \<le> 1"
proof (cases "c + s + g = 0")
  case True
  then show ?thesis using assms by (simp add: slab_tax_def sum_rates_exact)
next
  case False
  define R where "R = c + s + g"
  have R: "0 \<le> R" "R \<le> 99" "R * 1000 \<in> \<int>" "sum_rates (c, s, g) = R" "R \<noteq> 0"
    using assms(1-4) False by (auto simp: R_def rate_ok_def distrib_right sum_rates_exact)
  define q where "q = of_int v * 100 / (100 + R)"
  have t: "t = half_up (dec_div (dec_mul (of_int v) 100) (dec_add 100 R))"
    and p: "pc = percent_of t c" "ps = percent_of t s" "pg = percent_of t g"
    using assms(8) R(4,5) by (auto simp: slab_tax_def Let_def)
  have near: "\<bar>of_int t - q\<bar> \<le> 1 / 2 + 1 / 10 ^ 17" "0 \<le> q" "q \<le> 2 ^ 32"
    using taxable_near [OF assms(6,7) R(1) _ R(3)] R(2) by (simp_all add: t q_def)
  moreover have "(1::rat) / 2 + 1 / 10 ^ 17 \<le> 1" and "(2::rat) ^ 32 = 4294967296" by simp_all
  ultimately have "\<bar>rat_of_int t\<bar> \<le> 8589934592" by linarith
  then have "\<bar>t\<bar> \<le> 8589934592" by linarith
  then have "\<bar>t\<bar> \<le> 2 ^ 33" by simp
  then have pe: "\<bar>of_int pc - of_int t * c / 100\<bar> \<le> (if c = 0 then 0 else 1 / 2)"
    "\<bar>of_int ps - of_int t * s / 100\<bar> \<le> (if s = 0 then 0 else 1 / 2)"
    "\<bar>of_int pg - of_int t * g / 100\<bar> \<le> (if g = 0 then 0 else 1 / 2)"
    using percent_of_near assms(1-3) by (simp_all add: p)
  then have sum: "\<bar>of_int (pc + ps + pg) - of_int t * R / 100\<bar> \<le> 1"
  proof -
    have "\<bar>of_int pc - of_int t * c / 100\<bar> + \<bar>of_int ps - of_int t * s / 100\<bar>
        + \<bar>of_int pg - of_int t * g / 100\<bar> \<le> 1"
      using pe assms(5) by (cases "c = 0"; cases "s = 0"; cases "g = 0") auto
    then show ?thesis unfolding R_def distrib_left add_divide_distrib of_int_add by linarith
  qed
  have v: "of_int v = q * (1 + R / 100)" using R(1) by (simp add: q_def field_simps)
  have "\<bar>(q - of_int t) * (1 + R / 100)\<bar> \<le> (1 / 2 + 1 / 10 ^ 17) * (1 + 99 / 100)"
    unfolding abs_mult using near R by (intro mult_mono) (auto simp: abs_minus_commute)
  moreover have "rat_of_int (v - t - pc - ps - pg) =
      (q - of_int t) * (1 + R / 100) - (of_int (pc + ps + pg) - of_int t * R / 100)"
    by (simp add: v algebra_simps add_divide_distrib diff_divide_distrib)
  moreover have "((1::rat) / 2 + 1 / 10 ^ 17) * (1 + 99 / 100) < 1" by simp
  ultimately have "\<bar>rat_of_int (v - t - pc - ps - pg)\<bar> < 2" using sum by linarith
  then show ?thesis by linarith
qed

section \<open>Properties of the calculation\<close>

text \<open>
  Claim C33. Largest-remainder allocation (\<open>_allocate\<close>) of a non-negative amount over non-negative
  weights that are not all zero: there is one part per weight, the parts add up to the amount
  exactly, no part is negative, each part is the floor of its exact proportional share or (only
  when that share is not whole) one more, and when the amount is at most the sum of the weights no
  part exceeds its weight. This holds for every amount and weight an Integer column can store,
  although the shares are computed in 28-digit decimal arithmetic.
\<close>

theorem allocate_exact:
  assumes "0 \<le> t" "int32 t" and "\<forall>w \<in> set ws. 0 \<le> w \<and> int32 w" and "length ws \<le> 10 ^ 8"
    and "0 < sum_list ws"
  shows "length (allocate t ws) = length ws \<and> sum_list (allocate t ws) = t
    \<and> (\<forall>i < length ws. 0 \<le> allocate t ws ! i
         \<and> t * ws ! i div sum_list ws \<le> allocate t ws ! i
         \<and> allocate t ws ! i \<le> t * ws ! i div sum_list ws
              + (if t * ws ! i mod sum_list ws = 0 then 0 else 1)
         \<and> (t \<le> sum_list ws \<longrightarrow> allocate t ws ! i \<le> ws ! i))"
proof -
  have "sum_list ws \<le> int (length ws) * 2 ^ 31"
    using assms(3) by (induction ws) (auto simp: int32_def)
  also have "\<dots> \<le> 10 ^ 8 * 2 ^ 31" using assms(4) by (intro mult_right_mono) auto
  finally have "t * sum_list ws \<le> 2 ^ 31 * (10 ^ 8 * 2 ^ 31)"
    using assms(1,2,5) by (intro mult_mono) (auto simp: int32_def)
  then have ok: "alloc_ok t ws" using assms by (simp add: alloc_ok_def list_all_iff)
  have "t * ws ! i div sum_list ws \<le> allocate t ws ! i
         \<and> allocate t ws ! i \<le> t * ws ! i div sum_list ws
              + (if t * ws ! i mod sum_list ws = 0 then 0 else 1)" if "i < length ws" for i
    using allocate_nth [OF ok that] by auto
  then show ?thesis
    using alloc.split_sum [OF ok] alloc.split_nonneg [OF ok] alloc.split_le [OF ok] by simp
qed

theorem allocate_exact_witness:
  "sum_list (allocate 100 [333, 333, 334]) = 100 \<and> (0::int) < sum_list [333, 333, 334]"
  using allocate_exact [of 100 "[333, 333, 334]"] by (simp add: int32_def)

text \<open>
  Nothing is lost when shipping is spread over the lines: whenever the goods have some
  value (or shipping is zero, or is not taxed with the goods), the gross amounts of the lines and
  the untaxed shipping add up to the value of the goods and the shipping charge.
\<close>

theorem calculate_conserves:
  assumes "calculate ls shipping intra m st rp = Inr r" and "amounts_ok ls shipping"
    and "0 < sum_list (map cl_value_paise ls) \<or> shipping = 0 \<or> st = ''not_taxed''"
  shows "sum_list (map lt_gross_paise (gr_lines r)) + gr_shipping_untaxed_paise r
           = sum_list (map cl_value_paise ls) + shipping"
proof -
  have "alloc_ok shipping (map cl_value_paise ls) \<or> st \<noteq> ''taxable_with_goods''"
    using assms(2,3) amounts_alloc_ok by auto
  from shipped_parts_sum [OF this] show ?thesis
    unfolding calculate_shape(2) [OF assms(1)] calculate_lines(2) [OF assms(1)] gross_values_def
    by (simp add: sum_list_map2_plus shipped_parts_lengths)
qed

theorem calculate_conserves_witness:
  "(let l = \<lparr>cl_key = 0, cl_value_paise = 1000, cl_treatment = ''taxable'', cl_cgst = 9, cl_sgst = 9, cl_igst = 18\<rparr>;
        r = calculate [l, l] 101 True ''exclusive'' ''taxable_with_goods'' ''line_half_up''
    in case r of Inl _ \<Rightarrow> False
       | Inr g \<Rightarrow> sum_list (map lt_gross_paise (gr_lines g)) + gr_shipping_untaxed_paise g = 2000 + 101)"
proof -
  let ?l = "\<lparr>cl_key = 0, cl_value_paise = 1000, cl_treatment = ''taxable'', cl_cgst = 9, cl_sgst = 9, cl_igst = 18\<rparr>"
  let ?c = "calculate [?l, ?l] 101 True ''exclusive'' ''taxable_with_goods'' ''line_half_up''"
  obtain g where g: "?c = Inr g" using calculate_known by blast
  have "sum_list (map lt_gross_paise (gr_lines g)) + gr_shipping_untaxed_paise g = 2000 + 101"
    using calculate_conserves [OF g] by (simp add: amounts_ok_def int32_def)
  with g show ?thesis by (simp add: Let_def)
qed

text \<open>
  Exclusive pricing: under either rounding policy the taxable value of every line is
  exactly what the customer pays for it before tax, nothing is rounded off, and all of the tax
  (and only the tax) is added to the price.
\<close>

theorem calculate_exclusive:
  assumes "calculate ls shipping intra ''exclusive'' st rp = Inr r" and "amounts_ok ls shipping"
  shows "(\<forall>l \<in> set (gr_lines r). lt_taxable_paise l = lt_gross_paise l \<and> lt_round_off_paise l = 0)
    \<and> gr_taxable_paise r = sum_list (map lt_gross_paise (gr_lines r))
    \<and> gr_round_off_paise r = 0 \<and> gr_tax_added_paise r = sum_list (map lt_tax_paise (gr_lines r))
    \<and> gr_tax_included_paise r = 0"
proof -
  let ?gs = "gross_values ls shipping st" and ?rs = "map (\<lambda>l. rates_of l intra) ls"
  have *: "fst (cols_at (policy_columns rp ''exclusive'' ?gs ?rs) i) = ?gs ! i" if "i < length ls" for i
  proof (rule policy_columns_property [where Q = "\<lambda>i p. fst p = ?gs ! i"])
    fix slab k
    assume slab: "slab \<in> set (group_slabs 0 ?rs [])" and k: "k < length (snd slab)"
    let ?ws = "map ((!) ?gs) (snd slab)"
    have "fst (slab_part ''exclusive'' ?gs slab k) = allocate (sum_list ?ws) ?ws ! k"
      by (simp add: slab_part_eq Let_def slab_tax_exclusive)
    also have "allocate (sum_list ?ws) ?ws = ?ws"
      using slab_weights_ok [OF assms(2) slab] by (intro allocate_self) simp_all
    finally show "fst (slab_part ''exclusive'' ?gs slab k) = ?gs ! (snd slab ! k)" using k by simp
  qed (use that in \<open>simp_all add: slab_tax_exclusive\<close>)
  have lines: "lt_taxable_paise l = lt_gross_paise l \<and> lt_round_off_paise l = 0" if "l \<in> set (gr_lines r)" for l
  proof -
    from that obtain i where i: "i < length ls" "l = gr_lines r ! i"
      using calculate_lines(1) [OF assms(1)] by (auto simp: in_set_conv_nth)
    show ?thesis
      using calculate_line_at [OF assms(1) i(1)] * [OF i(1)] i(2) by simp
  qed
  have "sum_list (map lt_taxable_paise (gr_lines r)) = sum_list (map lt_gross_paise (gr_lines r))"
    using lines by (intro arg_cong [where f = sum_list] map_cong) auto
  moreover have "sum_list (map lt_round_off_paise (gr_lines r)) = sum_list (map (\<lambda>_. 0) (gr_lines r))"
    using lines by (intro arg_cong [where f = sum_list] map_cong) auto
  moreover have "gr_tax_paise r = sum_list (map lt_tax_paise (gr_lines r))"
    using calculate_shape(4-6,8) [OF assms(1)] calculate_lines(4-6) [OF assms(1), symmetric]
    by (simp add: lt_tax_paise_def [abs_def] sum_list_addf)
  ultimately show ?thesis
    using calculate_shape(3,7,9,10) [OF assms(1)] calculate_lines(3) [OF assms(1), symmetric] lines
    by simp
qed

theorem calculate_exclusive_witness:
  "(let l = \<lparr>cl_key = 0, cl_value_paise = 999, cl_treatment = ''taxable'', cl_cgst = 9, cl_sgst = 9, cl_igst = 18\<rparr>;
        r = calculate [l, l] 100 True ''exclusive'' ''taxable_with_goods'' ''invoice_half_up''
    in case r of Inl _ \<Rightarrow> False
       | Inr g \<Rightarrow> \<forall>l \<in> set (gr_lines g). lt_taxable_paise l = lt_gross_paise l)"
proof -
  let ?l = "\<lparr>cl_key = 0, cl_value_paise = 999, cl_treatment = ''taxable'', cl_cgst = 9, cl_sgst = 9, cl_igst = 18\<rparr>"
  obtain g where g: "calculate [?l, ?l] 100 True ''exclusive'' ''taxable_with_goods'' ''invoice_half_up'' = Inr g"
    using calculate_known by blast
  have "amounts_ok [?l, ?l] 100" by (simp add: amounts_ok_def int32_def)
  then show ?thesis using calculate_exclusive [OF g] g by (simp add: Let_def)
qed



text \<open>
  Which component of GST a line bears: an intra-state sale bears no IGST and an
  inter-state sale neither CGST nor SGST; a line that is not taxable bears no tax at all; and equal
  CGST and SGST rates give equal CGST and SGST amounts, under both pricing modes and both rounding
  policies.
\<close>

theorem calculate_components:
  assumes "calculate ls shipping intra m st rp = Inr r" and "i < length ls"
  defines "l \<equiv> gr_lines r ! i"
  shows "(intra \<longrightarrow> lt_igst_paise l = 0) \<and> (\<not> intra \<longrightarrow> lt_cgst_paise l = 0 \<and> lt_sgst_paise l = 0)
    \<and> (cl_treatment (ls ! i) \<noteq> ''taxable'' \<longrightarrow> lt_tax_paise l = 0)
    \<and> (cl_cgst (ls ! i) = cl_sgst (ls ! i) \<longrightarrow> lt_cgst_paise l = lt_sgst_paise l)"
proof -
  let ?gs = "gross_values ls shipping st" and ?rs = "map (\<lambda>l. rates_of l intra) ls"
  define Q where "Q = (\<lambda>j (p :: int \<times> int \<times> int \<times> int). case ?rs ! j of (c, s, g) \<Rightarrow>
      (c = 0 \<longrightarrow> fst (snd p) = 0) \<and> (s = 0 \<longrightarrow> fst (snd (snd p)) = 0) \<and> (g = 0 \<longrightarrow> snd (snd (snd p)) = 0)
      \<and> (c = s \<longrightarrow> fst (snd p) = fst (snd (snd p))))"
  have base: "(c = 0 \<longrightarrow> fst (snd (slab_tax v (c, s, g) m)) = 0)
      \<and> (s = 0 \<longrightarrow> fst (snd (snd (slab_tax v (c, s, g) m))) = 0)
      \<and> (g = 0 \<longrightarrow> snd (snd (snd (slab_tax v (c, s, g) m))) = 0)
      \<and> (c = s \<longrightarrow> fst (snd (slab_tax v (c, s, g) m)) = fst (snd (snd (slab_tax v (c, s, g) m))))" for v c s g
    by (simp add: slab_tax_def Let_def)
  have "Q i (cols_at (policy_columns rp m ?gs ?rs) i)"
  proof (rule policy_columns_property)
    fix slab k
    assume slab: "slab \<in> set (group_slabs 0 ?rs [])" and k: "k < length (snd slab)"
    have "?rs ! (snd slab ! k) = fst slab"
      using slabs_ok_slab(2) [OF group_slabs_start slab] nth_mem [OF k] by blast
    then show "Q (snd slab ! k) (slab_part m ?gs slab k)"
      using base k by (cases "fst slab") (simp add: Q_def slab_part_eq Let_def)
  qed (use assms(2) base in \<open>auto simp: Q_def split: prod.split\<close>)
  then show ?thesis
    using calculate_line_at [OF assms(1,2)] assms(2)
    by (auto simp: Q_def l_def rates_of_def lt_tax_paise_def split: if_splits)
qed

theorem calculate_components_witness:
  "(let l = \<lparr>cl_key = 0, cl_value_paise = 999, cl_treatment = ''taxable'', cl_cgst = 9, cl_sgst = 9, cl_igst = 18\<rparr>;
        r = calculate [l] 0 True ''exclusive'' ''not_taxed'' ''invoice_half_up''
    in case r of Inl _ \<Rightarrow> False
       | Inr g \<Rightarrow> lt_igst_paise (gr_lines g ! 0) = 0 \<and> lt_cgst_paise (gr_lines g ! 0) = lt_sgst_paise (gr_lines g ! 0))"
proof -
  let ?l = "\<lparr>cl_key = 0, cl_value_paise = 999, cl_treatment = ''taxable'', cl_cgst = 9, cl_sgst = 9, cl_igst = 18\<rparr>"
  obtain g where g: "calculate [?l] 0 True ''exclusive'' ''not_taxed'' ''invoice_half_up'' = Inr g"
    using calculate_known by blast
  show ?thesis using calculate_components [OF g, of 0] g by (simp add: Let_def)
qed

text \<open>
  When every line is worth nothing (a coupon can take off the whole price) and shipping is
  taxed with the goods, the allocation has no weights to spread shipping over: the whole charge
  drops out of the calculation, appearing neither in any line's gross amount nor as untaxed shipping.
\<close>

theorem calculate_zero_goods_drops_shipping:
  assumes "calculate ls shipping intra m ''taxable_with_goods'' rp = Inr r"
    and "\<forall>l \<in> set ls. cl_value_paise l = 0" and "0 < shipping"
  shows "sum_list (map lt_gross_paise (gr_lines r)) + gr_shipping_untaxed_paise r = 0"
proof -
  have z: "map cl_value_paise ls = replicate (length ls) 0"
    using assms(2) by (auto intro: nth_equalityI)
  have "map2 (+) (replicate n 0) (replicate n 0) = replicate n (0::int)" for n
    by (induction n) auto
  then have "gross_values ls shipping ''taxable_with_goods'' = replicate (length ls) 0"
    using assms(3)
    by (simp add: gross_values_def shipped_parts_def z allocate_zero_weights sum_list_replicate)
  then show ?thesis
    using assms(3)
    by (simp add: calculate_shape(2) [OF assms(1)] calculate_lines(2) [OF assms(1)]
        shipped_parts_def sum_list_replicate)
qed

theorem calculate_zero_goods_drops_shipping_witness:
  "(let l = \<lparr>cl_key = 0, cl_value_paise = 0, cl_treatment = ''taxable'', cl_cgst = 9, cl_sgst = 9, cl_igst = 18\<rparr>;
        r = calculate [l] 5000 True ''exclusive'' ''taxable_with_goods'' ''line_half_up''
    in case r of Inl _ \<Rightarrow> False
       | Inr g \<Rightarrow> sum_list (map lt_gross_paise (gr_lines g)) + gr_shipping_untaxed_paise g = 0)"
proof -
  let ?l = "\<lparr>cl_key = 0, cl_value_paise = 0, cl_treatment = ''taxable'', cl_cgst = 9, cl_sgst = 9, cl_igst = 18\<rparr>"
  obtain g where g: "calculate [?l] 5000 True ''exclusive'' ''taxable_with_goods'' ''line_half_up'' = Inr g"
    using calculate_known by blast
  show ?thesis using calculate_zero_goods_drops_shipping [OF g] g by (simp add: Let_def)
qed

end
