(* ===== verification/Gst_States.thy ===== *)
theory Gst_States
  imports Decimal_Text
begin

text \<open>
  \<open>modules/tax/gst_states.py\<close>: the table of GST state codes and the tolerant reader of the state a
  customer typed. The theorem says that the reader never guesses (what it returns is an entry of
  the table reached by a listed spelling) and that every state is found by its name and its code.
\<close>

section \<open>Tables\<close>

record gst_state =
  gs_code :: string
  gs_name :: string

definition mk_state :: "string \<times> string \<Rightarrow> gst_state" where
  "mk_state p = \<lparr>gs_code = fst p, gs_name = snd p\<rparr>"

definition STATES :: "gst_state list" where
  "STATES = map mk_state
    [(''01'', ''Jammu and Kashmir''), (''02'', ''Himachal Pradesh''), (''03'', ''Punjab''),
     (''04'', ''Chandigarh''), (''05'', ''Uttarakhand''), (''06'', ''Haryana''), (''07'', ''Delhi''),
     (''08'', ''Rajasthan''), (''09'', ''Uttar Pradesh''), (''10'', ''Bihar''), (''11'', ''Sikkim''),
     (''12'', ''Arunachal Pradesh''), (''13'', ''Nagaland''), (''14'', ''Manipur''), (''15'', ''Mizoram''),
     (''16'', ''Tripura''), (''17'', ''Meghalaya''), (''18'', ''Assam''), (''19'', ''West Bengal''),
     (''20'', ''Jharkhand''), (''21'', ''Odisha''), (''22'', ''Chhattisgarh''), (''23'', ''Madhya Pradesh''),
     (''24'', ''Gujarat''), (''26'', ''Dadra and Nagar Haveli and Daman and Diu''), (''27'', ''Maharashtra''),
     (''29'', ''Karnataka''), (''30'', ''Goa''), (''31'', ''Lakshadweep''), (''32'', ''Kerala''),
     (''33'', ''Tamil Nadu''), (''34'', ''Puducherry''), (''35'', ''Andaman and Nicobar Islands''),
     (''36'', ''Telangana''), (''37'', ''Andhra Pradesh''), (''38'', ''Ladakh''), (''97'', ''Other Territory'')]"

definition BY_CODE :: "string \<Rightarrow> gst_state option" where
  "BY_CODE code = row gs_code code STATES"

definition ALIASES :: "(string \<times> string) list" where
  "ALIASES =
    [(''orissa'', ''21''), (''uttaranchal'', ''05''), (''pondicherry'', ''34''), (''new delhi'', ''07''),
     (''nct of delhi'', ''07''), (''nct delhi'', ''07''), (''delhi ncr'', ''07''), (''j and k'', ''01''),
     (''jammu kashmir'', ''01''), (''chattisgarh'', ''22''), (''telengana'', ''36''), (''tamilnadu'', ''33''),
     (''andaman nicobar'', ''35''), (''andaman nicobar islands'', ''35''), (''andaman and nicobar'', ''35''),
     (''dadra and nagar haveli'', ''26''), (''daman and diu'', ''26''), (''dadra nagar haveli'', ''26''),
     (''dnhdd'', ''26''), (''dnh and dd'', ''26''), (''andaman and nicobar islands'', ''35''),
     (''dadra and nagar haveli and daman and diu'', ''26''), (''other territory'', ''97'')]"

definition ABBREVIATIONS :: "(string \<times> string) list" where
  "ABBREVIATIONS =
    [(''an'', ''35''), (''ap'', ''37''), (''ar'', ''12''), (''as'', ''18''), (''br'', ''10''), (''ch'', ''04''),
     (''ct'', ''22''), (''cg'', ''22''), (''dn'', ''26''), (''dd'', ''26''), (''dh'', ''26''), (''dl'', ''07''),
     (''ga'', ''30''), (''gj'', ''24''), (''hr'', ''06''), (''hp'', ''02''), (''jk'', ''01''), (''jh'', ''20''),
     (''ka'', ''29''), (''kl'', ''32''), (''la'', ''38''), (''ld'', ''31''), (''mp'', ''23''), (''mh'', ''27''),
     (''mn'', ''14''), (''ml'', ''17''), (''mz'', ''15''), (''nl'', ''13''), (''or'', ''21''), (''od'', ''21''),
     (''py'', ''34''), (''pb'', ''03''), (''rj'', ''08''), (''sk'', ''11''), (''tn'', ''33''), (''ts'', ''36''),
     (''tg'', ''36''), (''tr'', ''16''), (''up'', ''09''), (''uk'', ''05''), (''ut'', ''05''), (''wb'', ''19'')]"

section \<open>Normalisation\<close>

text \<open>\<open>re.sub("[^a-z0-9 ]+", " ", text)\<close>: a run of other characters becomes one blank, which the next
  step (\<open>re.sub("\<backslash>s+", " ", text).strip()\<close>) merges with its neighbours; so both steps together are
  the words made of letters and digits, joined by single blanks.\<close>

definition word_char :: "char \<Rightarrow> bool" where
  "word_char c \<longleftrightarrow> (let n = char_code c in 97 \<le> n \<and> n \<le> 122 \<or> 48 \<le> n \<and> n \<le> 57)"

fun split_words :: "string \<Rightarrow> string \<Rightarrow> string list" where
  "split_words w [] = (if w = [] then [] else [w])"
| "split_words w (c # s) =
     (if word_char c then split_words (w @ [c]) s
      else if w = [] then split_words [] s else w # split_words [] s)"

fun join_words :: "string list \<Rightarrow> string" where
  "join_words [] = []"
| "join_words [w] = w"
| "join_words (w # v # ws) = w @ '' '' @ join_words (v # ws)"

definition replace_amp :: "string \<Rightarrow> string" where
  "replace_amp s = concat (map (\<lambda>c. if c = CHR ''&'' then '' and '' else [c]) s)"

definition drop_prefix_words :: "string list \<Rightarrow> string list" where
  "drop_prefix_words ws =
     (case ws of
        a # b # c # d # r \<Rightarrow>
          (if a = ''state'' \<and> b = ''of'' then c # d # r
           else if a = ''union'' \<and> b = ''territory'' \<and> c = ''of'' then d # r
           else if a = ''ut'' \<and> b = ''of'' then c # d # r
           else ws)
      | [a, b, c] \<Rightarrow> (if (a = ''state'' \<or> a = ''ut'') \<and> b = ''of'' then [c] else ws)
      | _ \<Rightarrow> ws)"

definition normalise :: "string \<Rightarrow> string" where
  "normalise t = join_words (drop_prefix_words (split_words [] (replace_amp (str_casefold t))))"

text \<open>The dictionary \<open>_BY_NORMALISED\<close>: names first, later updates win.\<close>

definition NORMALISED_NAMES :: "(string \<times> string) list" where
  "NORMALISED_NAMES = map (\<lambda>s. (normalise (gs_name s), gs_code s)) STATES"

definition BY_NORMALISED :: "string \<Rightarrow> string option" where
  "BY_NORMALISED key =
     map_of (rev (NORMALISED_NAMES @ ALIASES @ ABBREVIATIONS)) key"

definition resolve_state :: "string option \<Rightarrow> gst_state option" where
  "resolve_state t =
     (case t of
        None \<Rightarrow> None
      | Some s \<Rightarrow>
          (if s = [] then None
           else let key = normalise s in
             case BY_CODE key of
               Some st \<Rightarrow> Some st
             | None \<Rightarrow> (case BY_NORMALISED key of
                          None \<Rightarrow> None
                        | Some code \<Rightarrow> BY_CODE code)))"

section \<open>Properties\<close>

lemma BY_CODE_in: "BY_CODE c = Some s \<Longrightarrow> s \<in> set STATES \<and> gs_code s = c"
  unfolding BY_CODE_def by (rule row_SomeD)

lemma NORMALISED_NAMES_eq:
  "NORMALISED_NAMES =
     [(''jammu and kashmir'', ''01''), (''himachal pradesh'', ''02''), (''punjab'', ''03''),
      (''chandigarh'', ''04''), (''uttarakhand'', ''05''), (''haryana'', ''06''), (''delhi'',
      ''07''), (''rajasthan'', ''08''), (''uttar pradesh'', ''09''), (''bihar'', ''10''),
      (''sikkim'', ''11''), (''arunachal pradesh'', ''12''), (''nagaland'', ''13''), (''manipur'',
      ''14''), (''mizoram'', ''15''), (''tripura'', ''16''), (''meghalaya'', ''17''), (''assam'',
      ''18''), (''west bengal'', ''19''), (''jharkhand'', ''20''), (''odisha'', ''21''),
      (''chhattisgarh'', ''22''), (''madhya pradesh'', ''23''), (''gujarat'', ''24''), 
      (''dadra and nagar haveli and daman and diu'', ''26''), (''maharashtra'', ''27''), (''karnataka'', ''29''),
      (''goa'', ''30''), (''lakshadweep'', ''31''), (''kerala'', ''32''), (''tamil nadu'', ''33''),
      (''puducherry'', ''34''), (''andaman and nicobar islands'', ''35''), (''telangana'', ''36''),
      (''andhra pradesh'', ''37''), (''ladakh'', ''38''), (''other territory'', ''97'')]"
  by code_simp

lemma state_codes:
  "map gs_code STATES =
     [''01'', ''02'', ''03'', ''04'', ''05'', ''06'', ''07'', ''08'', ''09'', ''10'', ''11'', ''12'',
      ''13'', ''14'', ''15'', ''16'', ''17'', ''18'', ''19'', ''20'', ''21'', ''22'', ''23'', ''24'',
      ''26'', ''27'', ''29'', ''30'', ''31'', ''32'', ''33'', ''34'', ''35'', ''36'', ''37'', ''38'',
      ''97'']"
  by (simp add: STATES_def mk_state_def)

lemma BY_CODE_known: "BY_CODE c \<noteq> None \<longleftrightarrow> c \<in> set (map gs_code STATES)"
  unfolding BY_CODE_def by (simp add: row_None_iff del: not_None_eq)

lemma spelling_known_codes:
  "list_all (\<lambda>(key, code). key \<notin> set (map gs_code STATES) \<and> code \<in> set (map gs_code STATES) \<and> key \<noteq> [])
     (NORMALISED_NAMES @ ALIASES @ ABBREVIATIONS)"
  unfolding state_codes NORMALISED_NAMES_eq by code_simp

lemma spelling_map:
  "list_all (\<lambda>(key, code). BY_NORMALISED key = Some code) (NORMALISED_NAMES @ ALIASES @ ABBREVIATIONS)"
  unfolding BY_NORMALISED_def NORMALISED_NAMES_eq by code_simp

lemma spelling_codes:
  assumes "(key, code) \<in> set (NORMALISED_NAMES @ ALIASES @ ABBREVIATIONS)"
  shows "BY_NORMALISED key = Some code" "BY_CODE key = None" "BY_CODE code \<noteq> None" "key \<noteq> []"
  using bspec [OF spelling_map [unfolded list_all_iff] assms]
    bspec [OF spelling_known_codes [unfolded list_all_iff] assms] BY_CODE_known
  by (auto simp del: not_None_eq set_map)

lemma spellings_normal:
  "list_all (\<lambda>(key, code). normalise key = key) (ALIASES @ ABBREVIATIONS)"
  by code_simp

lemma codes_normal:
  "list_all (\<lambda>s. normalise (gs_code s) = gs_code s \<and> BY_CODE (gs_code s) = Some s
      \<and> gs_code s \<noteq> [] \<and> gs_name s \<noteq> []) STATES"
  by code_simp

lemma states_found:
  assumes "s \<in> set STATES"
  shows "resolve_state (Some (gs_name s)) = Some s" and "resolve_state (Some (gs_code s)) = Some s"
proof -
  have c: "normalise (gs_code s) = gs_code s" "BY_CODE (gs_code s) = Some s" "gs_code s \<noteq> []" "gs_name s \<noteq> []"
    using codes_normal assms by (auto simp: list_all_iff)
  have "(normalise (gs_name s), gs_code s) \<in> set NORMALISED_NAMES"
    using assms by (auto simp: NORMALISED_NAMES_def)
  then have n: "BY_NORMALISED (normalise (gs_name s)) = Some (gs_code s)" "BY_CODE (normalise (gs_name s)) = None"
    by (auto intro: spelling_codes)
  show "resolve_state (Some (gs_name s)) = Some s" "resolve_state (Some (gs_code s)) = Some s"
    using c n by (simp_all add: resolve_state_def Let_def)
qed

lemma spellings_found:
  assumes "(key, code) \<in> set (ALIASES @ ABBREVIATIONS)"
  shows "resolve_state (Some key) = BY_CODE code" and "BY_CODE code \<noteq> None"
proof -
  have "normalise key = key" using spellings_normal assms by (auto simp: list_all_iff)
  moreover have "(key, code) \<in> set (NORMALISED_NAMES @ ALIASES @ ABBREVIATIONS)" using assms by simp
  note spelling_codes [OF this]
  ultimately show "resolve_state (Some key) = BY_CODE code" "BY_CODE code \<noteq> None"
    by (auto simp: resolve_state_def Let_def)
qed

text \<open>
  The state reader never guesses: whatever it returns is an entry of the table whose code
  is what was typed or what a listed name, alias or abbreviation maps to; and every state is found
  by its name and by its code, every alias and abbreviation by its own code.
\<close>

theorem resolve_state_sound_complete:
  "(resolve_state t = Some s \<longrightarrow>
      (\<exists>txt. t = Some txt \<and> s \<in> set STATES
        \<and> (gs_code s = normalise txt \<or> BY_NORMALISED (normalise txt) = Some (gs_code s))))
   \<and> (s \<in> set STATES \<longrightarrow>
        resolve_state (Some (gs_name s)) = Some s \<and> resolve_state (Some (gs_code s)) = Some s)
   \<and> ((key, code) \<in> set (ALIASES @ ABBREVIATIONS) \<longrightarrow>
        resolve_state (Some key) = BY_CODE code \<and> BY_CODE code \<noteq> None)"
proof (intro conjI impI)
  assume "resolve_state t = Some s"
  then show "\<exists>txt. t = Some txt \<and> s \<in> set STATES
      \<and> (gs_code s = normalise txt \<or> BY_NORMALISED (normalise txt) = Some (gs_code s))"
    by (auto simp: resolve_state_def Let_def dest: BY_CODE_in split: option.splits if_splits)
next
  assume "s \<in> set STATES"
  then show "resolve_state (Some (gs_name s)) = Some s" "resolve_state (Some (gs_code s)) = Some s"
    by (fact states_found)+
next
  assume "(key, code) \<in> set (ALIASES @ ABBREVIATIONS)"
  then show "resolve_state (Some key) = BY_CODE code" "BY_CODE code \<noteq> None"
    by (fact spellings_found)+
qed

theorem resolve_state_sound_complete_witness:
  "resolve_state (Some (gs_name (mk_state (''33'', ''Tamil Nadu'')))) = Some (mk_state (''33'', ''Tamil Nadu''))
   \<and> resolve_state (Some ''tn'') = BY_CODE ''33''"
proof -
  have 1: "mk_state (''33'', ''Tamil Nadu'') \<in> set STATES" by (simp add: STATES_def)
  have 2: "(''tn'', ''33'') \<in> set (ALIASES @ ABBREVIATIONS)" by (simp add: ABBREVIATIONS_def)
  show ?thesis
    using resolve_state_sound_complete [of None "mk_state (''33'', ''Tamil Nadu'')" "''tn''" "''33''"] 1 2
    by blast
qed

end
