(* ===== verification/Tax_Engine.thy ===== *)
theory Tax_Engine
  imports Gst_Calc Gst_States
begin

text \<open>
  \<open>modules/tax/engine.py\<close> and the queries of \<open>tax_repository.py\<close> it uses: the tax master (its approved
  classifications, rules, registrations and settings), the readiness checks, and the three engines
  behind the one interface checkout calls. Dates are day numbers. The interface is the locale
  \<open>tax_contract\<close> (an engine raises or returns an amount that is not negative), interpreted on the
  three engines at once; the theorems say when the GST engine answers at all and what it charges.
\<close>

section \<open>Tax master\<close>

record tax_classification =
  tc_id :: int
  tc_kind :: string
  tc_code :: string
  tc_status :: string

record tax_rule =
  tr_id :: int
  tr_classification_id :: int
  tr_treatment :: string
  tr_cgst_rate :: rat
  tr_sgst_utgst_rate :: rat
  tr_igst_rate :: rat
  tr_effective_from :: int
  tr_effective_to :: "int option"
  tr_status :: string

record gst_registration =
  rg_id :: int
  rg_gstin :: string
  rg_legal_name :: string
  rg_state_code :: string
  rg_valid_from :: int
  rg_valid_to :: "int option"
  rg_status :: string

record tax_settings =
  ts_id :: int
  ts_pricing_mode :: string
  ts_place_of_supply_basis :: string
  ts_shipping_tax_treatment :: string
  ts_rounding_policy :: string
  ts_registration_id :: int
  ts_effective_from :: int
  ts_effective_to :: "int option"
  ts_status :: string

record tax_master =
  tm_classifications :: "tax_classification list"
  tm_rules :: "tax_rule list"
  tm_registrations :: "gst_registration list"
  tm_settings :: "tax_settings list"

text \<open>The half-open range \<open>[from, to)\<close> of the queries; no end means open-ended.\<close>

definition covers :: "int \<Rightarrow> int option \<Rightarrow> int \<Rightarrow> bool" where
  "covers from to as_of \<longleftrightarrow> from \<le> as_of \<and> (case to of None \<Rightarrow> True | Some t \<Rightarrow> as_of < t)"

definition get_registration :: "tax_master \<Rightarrow> int \<Rightarrow> gst_registration option" where
  "get_registration tm i = row rg_id i (tm_registrations tm)"

definition classification_statuses :: "tax_master \<Rightarrow> int \<Rightarrow> string option" where
  "classification_statuses tm cid = map_option tc_status (row tc_id cid (tm_classifications tm))"

definition approved_rules_covering :: "tax_master \<Rightarrow> int \<Rightarrow> int \<Rightarrow> tax_rule list" where
  "approved_rules_covering tm cid as_of =
     filter (\<lambda>r. tr_classification_id r = cid \<and> tr_status r = ''approved''
                 \<and> covers (tr_effective_from r) (tr_effective_to r) as_of) (tm_rules tm)"

definition approved_settings_covering :: "tax_master \<Rightarrow> int \<Rightarrow> tax_settings list" where
  "approved_settings_covering tm as_of =
     filter (\<lambda>s. ts_status s = ''approved'' \<and> covers (ts_effective_from s) (ts_effective_to s) as_of)
       (tm_settings tm)"

section \<open>Requests, results, errors\<close>

record tax_line =
  tl_product_id :: int
  tl_quantity :: int
  tl_unit_price_paise :: int
  tl_classification_id :: "int option"
  tl_discount_paise :: int

record tax_request =
  rq_lines :: "tax_line list"
  rq_subtotal_paise :: int
  rq_shipping_paise :: int
  rq_as_of :: int
  rq_delivery_state :: "string option"
  rq_delivery_country :: "string option"

record tax_blocker =
  tb_product_id :: "int option"
  tb_reason :: string

text \<open>
  The audit snapshot stored with an order. The entries of the source's dictionaries are grouped: a
  line of the GST snapshot keeps the request's line, the classification's kind and code, the rule's
  treatment and rates, and the computed \<open>line_tax\<close>; the totals are the \<open>gst_result\<close>.
\<close>

record flat_snapshot =
  fs_rate_percent :: rat
  fs_taxable_value_paise :: int
  fs_tax_paise :: int
  fs_lines :: "(int \<times> int option) list"

record gst_line_snapshot =
  gl_line :: tax_line
  gl_hsn_kind :: string
  gl_hsn_code :: string
  gl_treatment :: string
  gl_value_paise :: int
  gl_tax :: line_tax
  gl_rates :: "rat \<times> rat \<times> rat"

record gst_snapshot =
  gn_as_of :: int
  gn_settings :: tax_settings
  gn_seller :: gst_registration
  gn_place :: gst_state
  gn_intra_state :: bool
  gn_lines :: "gst_line_snapshot list"
  gn_shipping_paise :: int
  gn_shipping_taxed :: bool
  gn_totals :: gst_result

datatype tax_snapshot = FlatInterim flat_snapshot | GstCalculated gst_snapshot

definition gst_calculated :: "tax_snapshot \<Rightarrow> bool" where
  "gst_calculated s = (case s of FlatInterim _ \<Rightarrow> False | GstCalculated _ \<Rightarrow> True)"

record tax_result =
  tx_tax_paise :: int
  tx_snapshot :: tax_snapshot

datatype tax_error =
  TaxNotConfigured
| TaxEngineUnavailable
| DeliveryStateUnknown "string option"
| DeliveryCountryNotSupported
| TaxCalculationBlocked "tax_blocker list"
| TaxValueError
| TaxKeyError

text \<open>\<open>TaxResult.__post_init__\<close>: an engine's answer is checked when it is built.\<close>

definition mk_tax_result :: "int \<Rightarrow> tax_snapshot \<Rightarrow> (tax_error, tax_result) result" where
  "mk_tax_result t s =
     (if t < 0 then Inl TaxEngineUnavailable else Inr \<lparr>tx_tax_paise = t, tx_snapshot = s\<rparr>)"

section \<open>Readiness\<close>

definition KNOWN_TREATMENTS :: "string list" where
  "KNOWN_TREATMENTS = [''taxable'', ''exempt'', ''nil_rated'', ''non_gst'']"

definition blocker :: "int option \<Rightarrow> string \<Rightarrow> tax_blocker" where
  "blocker p r = \<lparr>tb_product_id = p, tb_reason = r\<rparr>"

definition evaluate_config :: "tax_master \<Rightarrow> int \<Rightarrow> tax_settings option \<times> tax_blocker list" where
  "evaluate_config tm as_of =
     (case approved_settings_covering tm as_of of
        [] \<Rightarrow> (None, [blocker None ''no_approved_tax_settings''])
      | [config] \<Rightarrow>
          (case get_registration tm (ts_registration_id config) of
             None \<Rightarrow> (Some config, [blocker None ''registration_not_approved''])
           | Some reg \<Rightarrow>
               if rg_status reg \<noteq> ''approved''
               then (Some config, [blocker None ''registration_not_approved''])
               else if \<not> covers (rg_valid_from reg) (rg_valid_to reg) as_of
               then (Some config, [blocker None ''registration_not_valid_on_date''])
               else (Some config, []))
      | _ \<Rightarrow> (None, [blocker None ''ambiguous_tax_settings'']))"

definition line_blockers :: "tax_master \<Rightarrow> int \<Rightarrow> tax_line \<Rightarrow> tax_blocker list" where
  "line_blockers tm as_of l =
     (let pid = Some (tl_product_id l) in
      case tl_classification_id l of
        None \<Rightarrow> [blocker pid ''missing_classification'']
      | Some cid \<Rightarrow>
          if classification_statuses tm cid \<noteq> Some ''approved''
          then [blocker pid ''unapproved_classification'']
          else (case approved_rules_covering tm cid as_of of
                  [] \<Rightarrow> [blocker pid ''no_applicable_rule'']
                | [r] \<Rightarrow> (if tr_treatment r \<in> set KNOWN_TREATMENTS then []
                          else [blocker pid ''unknown_treatment''])
                | _ \<Rightarrow> [blocker pid ''ambiguous_rule'']))"

definition evaluate_readiness :: "tax_master \<Rightarrow> tax_line list \<Rightarrow> int \<Rightarrow> tax_blocker list" where
  "evaluate_readiness tm ls as_of = concat (map (line_blockers tm as_of) ls)"

section \<open>Engines\<close>

datatype tax_engine = NotConfiguredTaxEngine | FlatInterimTaxEngine rat | GstTaxEngine

definition is_configured :: "tax_engine \<Rightarrow> bool" where
  "is_configured e = (case e of NotConfiguredTaxEngine \<Rightarrow> False | _ \<Rightarrow> True)"

definition flat_calculate :: "rat \<Rightarrow> tax_request \<Rightarrow> (tax_error, tax_result) result" where
  "flat_calculate rate rq =
     (let tax = round_half_up (dec_div (dec_mul (of_int (rq_subtotal_paise rq)) rate) 100)
      in mk_tax_result tax
           (FlatInterim \<lparr>fs_rate_percent = rate, fs_taxable_value_paise = rq_subtotal_paise rq,
              fs_tax_paise = tax,
              fs_lines = map (\<lambda>l. (tl_product_id l, tl_classification_id l)) (rq_lines rq)\<rparr>))"

text \<open>\<open>rules[line.classification_id][0]\<close>: a missing key raises.\<close>

definition rule_of_line :: "tax_master \<Rightarrow> int \<Rightarrow> tax_line \<Rightarrow> (tax_error, tax_rule) result" where
  "rule_of_line tm as_of l =
     (case tl_classification_id l of
        None \<Rightarrow> Inl TaxKeyError
      | Some cid \<Rightarrow> (case approved_rules_covering tm cid as_of of
                       [] \<Rightarrow> Inl TaxKeyError | r # _ \<Rightarrow> Inr r))"

definition calc_line_of :: "tax_rule \<Rightarrow> int \<Rightarrow> tax_line \<Rightarrow> calc_line" where
  "calc_line_of r key l =
     \<lparr>cl_key = key, cl_value_paise = tl_unit_price_paise l * tl_quantity l - tl_discount_paise l,
      cl_treatment = tr_treatment r, cl_cgst = tr_cgst_rate r, cl_sgst = tr_sgst_utgst_rate r,
      cl_igst = tr_igst_rate r\<rparr>"

definition line_snapshot ::
  "tax_master \<Rightarrow> int \<Rightarrow> tax_line \<times> calc_line \<times> line_tax \<Rightarrow> (tax_error, gst_line_snapshot) result" where
  "line_snapshot tm as_of p =
     (case p of (l, c, t) \<Rightarrow>
        rbind (rule_of_line tm as_of l) (\<lambda>r.
          case Option.bind (tl_classification_id l) (\<lambda>cid. row tc_id cid (tm_classifications tm)) of
            None \<Rightarrow> Inl TaxKeyError
          | Some cls \<Rightarrow> Inr \<lparr>gl_line = l, gl_hsn_kind = tc_kind cls, gl_hsn_code = tc_code cls,
                            gl_treatment = tr_treatment r, gl_value_paise = cl_value_paise c, gl_tax = t,
                            gl_rates = (tr_cgst_rate r, tr_sgst_utgst_rate r, tr_igst_rate r)\<rparr>))"

text \<open>The lines handed to the calculation: \<open>CalcLine(index, price * quantity - discount, ...)\<close>.\<close>

definition gst_calc_lines :: "tax_line list \<Rightarrow> tax_rule list \<Rightarrow> calc_line list" where
  "gst_calc_lines ls rules = map2 (\<lambda>(i, l) r. calc_line_of r i l) (enumerate_int ls) rules"

definition gst_charge ::
  "tax_master \<Rightarrow> tax_request \<Rightarrow> tax_settings \<Rightarrow> gst_registration \<Rightarrow> gst_state \<Rightarrow> (tax_error, tax_result) result" where
  "gst_charge tm rq cfg reg place =
     (let as_of = rq_as_of rq; intra = (gs_code place = rg_state_code reg) in
      rbind (rmap (rule_of_line tm as_of) (rq_lines rq)) (\<lambda>rules.
      let calc_lines = gst_calc_lines (rq_lines rq) rules in
      rbind (lift_err (\<lambda>_. TaxValueError)
               (calculate calc_lines (rq_shipping_paise rq) intra (ts_pricing_mode cfg)
                  (ts_shipping_tax_treatment cfg) (ts_rounding_policy cfg))) (\<lambda>res.
      rbind (rmap (line_snapshot tm as_of) (zip (rq_lines rq) (zip calc_lines (gr_lines res)))) (\<lambda>lines_out.
      mk_tax_result (gr_tax_added_paise res)
        (GstCalculated \<lparr>gn_as_of = as_of, gn_settings = cfg, gn_seller = reg, gn_place = place,
           gn_intra_state = intra, gn_lines = lines_out,
           gn_shipping_paise = rq_shipping_paise rq,
           gn_shipping_taxed = (rq_shipping_paise rq \<noteq> 0
              \<and> ts_shipping_tax_treatment cfg = ''taxable_with_goods''),
           gn_totals = res\<rparr>)))))"

definition gst_calculate :: "tax_master \<Rightarrow> tax_request \<Rightarrow> (tax_error, tax_result) result" where
  "gst_calculate tm rq =
     (let as_of = rq_as_of rq;
          (config, config_blockers) = evaluate_config tm as_of;
          blockers = config_blockers @ evaluate_readiness tm (rq_lines rq) as_of
      in if blockers \<noteq> [] then Inl (TaxCalculationBlocked blockers)
         else case config of None \<Rightarrow> Inl TaxKeyError | Some cfg \<Rightarrow>
           (case get_registration tm (ts_registration_id cfg) of None \<Rightarrow> Inl TaxKeyError | Some reg \<Rightarrow>
             if str_upper (case rq_delivery_country rq of None \<Rightarrow> '''' | Some c \<Rightarrow> c) \<noteq> ''IN''
             then Inl DeliveryCountryNotSupported
             else case resolve_state (rq_delivery_state rq) of
               None \<Rightarrow> Inl (DeliveryStateUnknown (rq_delivery_state rq))
             | Some place \<Rightarrow> gst_charge tm rq cfg reg place))"

definition engine_calculate :: "tax_engine \<Rightarrow> tax_master \<Rightarrow> tax_request \<Rightarrow> (tax_error, tax_result) result" where
  "engine_calculate e tm rq =
     (case e of
        NotConfiguredTaxEngine \<Rightarrow> Inl TaxNotConfigured
      | FlatInterimTaxEngine rate \<Rightarrow> flat_calculate rate rq
      | GstTaxEngine \<Rightarrow> gst_calculate tm rq)"

section \<open>The contract of an engine\<close>

text \<open>
  Checkout relies on one promise of whichever engine is configured: a result is never negative, so
  the order total is at least what is paid for goods and shipping.
\<close>

locale tax_contract =
  fixes calc :: "tax_request \<Rightarrow> (tax_error, tax_result) result"
  assumes nonneg: "calc rq = Inr r \<Longrightarrow> 0 \<le> tx_tax_paise r"
begin

lemma total_bounds:
  assumes "calc rq = Inr r" and "0 \<le> net" and "0 \<le> shipping"
  shows "0 \<le> net + shipping + tx_tax_paise r" and "net + shipping \<le> net + shipping + tx_tax_paise r"
  using nonneg [OF assms(1)] assms(2,3) by simp_all

end

lemma mk_tax_result_Inr:
  "mk_tax_result t s = Inr r \<longleftrightarrow> 0 \<le> t \<and> r = \<lparr>tx_tax_paise = t, tx_snapshot = s\<rparr>"
  by (auto simp: mk_tax_result_def)

lemma gst_charge_nonneg: "gst_charge tm rq cfg reg place = Inr r \<Longrightarrow> 0 \<le> tx_tax_paise r"
  by (auto simp: gst_charge_def Let_def res_simps mk_tax_result_Inr)

lemma gst_calculate_nonneg: "gst_calculate tm rq = Inr r \<Longrightarrow> 0 \<le> tx_tax_paise r"
  by (auto simp: gst_calculate_def Let_def case_prod_beta
      split: if_splits option.splits dest: gst_charge_nonneg)

interpretation engine: tax_contract "engine_calculate e tm" for e tm
proof
  fix rq r
  assume "engine_calculate e tm rq = Inr r"
  then show "0 \<le> tx_tax_paise r"
    by (cases e) (auto simp: engine_calculate_def flat_calculate_def Let_def mk_tax_result_Inr
        dest: gst_calculate_nonneg)
qed

section \<open>Readiness\<close>

definition config_ready :: "tax_master \<Rightarrow> int \<Rightarrow> tax_settings \<Rightarrow> gst_registration \<Rightarrow> bool" where
  "config_ready tm as_of cfg reg \<longleftrightarrow>
     approved_settings_covering tm as_of = [cfg]
     \<and> get_registration tm (ts_registration_id cfg) = Some reg
     \<and> rg_status reg = ''approved'' \<and> covers (rg_valid_from reg) (rg_valid_to reg) as_of"

definition line_ready :: "tax_master \<Rightarrow> int \<Rightarrow> tax_line \<Rightarrow> tax_rule \<Rightarrow> bool" where
  "line_ready tm as_of l r \<longleftrightarrow>
     (case tl_classification_id l of
        None \<Rightarrow> False
      | Some cid \<Rightarrow> classification_statuses tm cid = Some ''approved''
          \<and> approved_rules_covering tm cid as_of = [r] \<and> tr_treatment r \<in> set KNOWN_TREATMENTS)"

lemma evaluate_config_ready:
  "snd (evaluate_config tm as_of) = [] \<longleftrightarrow> (\<exists>cfg reg. config_ready tm as_of cfg reg)"
  by (auto simp: evaluate_config_def config_ready_def split: list.splits option.splits)

lemma evaluate_config_value:
  "config_ready tm as_of cfg reg \<Longrightarrow> evaluate_config tm as_of = (Some cfg, [])"
  by (simp add: evaluate_config_def config_ready_def)

lemma line_blockers_ready: "line_blockers tm as_of l = [] \<longleftrightarrow> (\<exists>r. line_ready tm as_of l r)"
  by (auto simp: line_blockers_def line_ready_def Let_def split: list.splits option.splits)

lemma evaluate_readiness_ready:
  "evaluate_readiness tm ls as_of = [] \<longleftrightarrow> (\<forall>l \<in> set ls. \<exists>r. line_ready tm as_of l r)"
  by (auto simp: evaluate_readiness_def line_blockers_ready)

lemma rule_of_line_ready: "line_ready tm as_of l r \<Longrightarrow> rule_of_line tm as_of l = Inr r"
  by (auto simp: line_ready_def rule_of_line_def split: option.splits)

lemma config_ready_unique:
  "config_ready tm as_of cfg reg \<Longrightarrow> config_ready tm as_of cfg' reg' \<Longrightarrow> cfg' = cfg \<and> reg' = reg"
  by (auto simp: config_ready_def)

lemma length_gst_calc_lines [simp]:
  "length rules = length ls \<Longrightarrow> length (gst_calc_lines ls rules) = length ls"
  by (simp add: gst_calc_lines_def)

lemma nth_gst_calc_lines:
  assumes "length rules = length ls" and "i < length ls"
  shows "gst_calc_lines ls rules ! i = calc_line_of (rules ! i) (int i) (ls ! i)"
  using assms by (simp add: gst_calc_lines_def)

lemma gst_calc_lines_values:
  assumes "length rules = length ls"
  shows "map cl_value_paise (gst_calc_lines ls rules)
    = map (\<lambda>l. tl_unit_price_paise l * tl_quantity l - tl_discount_paise l) ls"
  using assms by (intro nth_equalityI) (simp_all add: nth_gst_calc_lines calc_line_of_def)

lemma rmap_Inl: "rmap f xs = Inl e \<Longrightarrow> \<exists>x \<in> set xs. f x = Inl e"
  by (induction xs) (auto simp: res_simps)

lemma rmap_not_blocked:
  "rmap (rule_of_line tm as_of) ls \<noteq> Inl (TaxCalculationBlocked b)"
  "rmap (line_snapshot tm as_of) ps \<noteq> Inl (TaxCalculationBlocked b)"
  by (auto dest!: rmap_Inl simp: line_snapshot_def rule_of_line_def rbind_def
      split: option.splits list.splits sum.splits)

lemma gst_charge_not_blocked: "gst_charge tm rq cfg reg place \<noteq> Inl (TaxCalculationBlocked b)"
  by (auto simp: gst_charge_def Let_def res_simps mk_tax_result_def rmap_not_blocked split: if_splits)

lemma gst_calculate_blocked:
  "(\<exists>b. gst_calculate tm rq = Inl (TaxCalculationBlocked b)) \<longleftrightarrow>
     \<not> ((\<exists>cfg reg. config_ready tm (rq_as_of rq) cfg reg)
         \<and> (\<forall>l \<in> set (rq_lines rq). \<exists>r. line_ready tm (rq_as_of rq) l r))"
    (is "?blocked \<longleftrightarrow> \<not> ?ready")
proof
  assume ?blocked
  show "\<not> ?ready"
  proof
    assume r: ?ready
    then obtain cfg reg where c: "config_ready tm (rq_as_of rq) cfg reg" by blast
    have "evaluate_readiness tm (rq_lines rq) (rq_as_of rq) = []" using r by (simp add: evaluate_readiness_ready)
    with \<open>?blocked\<close> show False
      by (auto simp: gst_calculate_def Let_def evaluate_config_value [OF c] gst_charge_not_blocked
          split: option.splits if_splits)
  qed
next
  assume "\<not> ?ready"
  then have "snd (evaluate_config tm (rq_as_of rq)) @ evaluate_readiness tm (rq_lines rq) (rq_as_of rq) \<noteq> []"
    by (simp add: evaluate_config_ready evaluate_readiness_ready)
  then show ?blocked by (auto simp: gst_calculate_def Let_def case_prod_beta)
qed

lemma gst_calculate_Inr:
  assumes "gst_calculate tm rq = Inr res"
  obtains cfg reg place rules g where
    "config_ready tm (rq_as_of rq) cfg reg" "resolve_state (rq_delivery_state rq) = Some place"
    "list_all2 (line_ready tm (rq_as_of rq)) (rq_lines rq) rules"
    "calculate (gst_calc_lines (rq_lines rq) rules) (rq_shipping_paise rq) (gs_code place = rg_state_code reg)
       (ts_pricing_mode cfg) (ts_shipping_tax_treatment cfg) (ts_rounding_policy cfg) = Inr g"
    "tx_tax_paise res = gr_tax_added_paise g"
proof -
  let ?t = "rq_as_of rq"
  have "\<not> (\<exists>b. gst_calculate tm rq = Inl (TaxCalculationBlocked b))" using assms by simp
  then obtain cfg reg where c: "config_ready tm ?t cfg reg"
    and l: "\<forall>l \<in> set (rq_lines rq). \<exists>r. line_ready tm ?t l r"
    unfolding gst_calculate_blocked by blast
  have ev: "evaluate_readiness tm (rq_lines rq) ?t = []" using l by (simp add: evaluate_readiness_ready)
  have reg: "get_registration tm (ts_registration_id cfg) = Some reg" using c by (simp add: config_ready_def)
  obtain place where place: "resolve_state (rq_delivery_state rq) = Some place"
    and charge: "gst_charge tm rq cfg reg place = Inr res"
    using assms by (auto simp: gst_calculate_def Let_def evaluate_config_value [OF c] ev reg
        split: option.splits if_splits)
  then obtain rules g where rules: "rmap (rule_of_line tm ?t) (rq_lines rq) = Inr rules"
    and g: "calculate (gst_calc_lines (rq_lines rq) rules) (rq_shipping_paise rq) (gs_code place = rg_state_code reg)
       (ts_pricing_mode cfg) (ts_shipping_tax_treatment cfg) (ts_rounding_policy cfg) = Inr g"
       "tx_tax_paise res = gr_tax_added_paise g"
    by (auto simp: gst_charge_def Let_def res_simps mk_tax_result_Inr)
  have "list_all2 (line_ready tm ?t) (rq_lines rq) rules"
  proof (rule list_all2_all_nthI)
    show "length (rq_lines rq) = length rules" using length_rmap [OF rules] by simp
  next
    fix i
    assume i: "i < length (rq_lines rq)"
    then obtain r where "line_ready tm ?t (rq_lines rq ! i) r" using l nth_mem by blast
    with rmap_nth [OF rules i] show "line_ready tm ?t (rq_lines rq ! i) (rules ! i)"
      by (simp add: rule_of_line_ready)
  qed
  from that [OF c place this g] show ?thesis .
qed

section \<open>Properties\<close>

lemma calculate_added:
  assumes "calculate ls shipping intra m st rp = Inr g"
  shows "gr_tax_added_paise g = (if m = ''exclusive'' then gr_tax_paise g else 0)"
  using calculate_shape(8,9) [OF assms] by simp


text \<open>A small master: one approved configuration of a Maharashtra business, one class at 18 percent, prices
  including tax.\<close>

definition sample_tax_master :: tax_master where
  "sample_tax_master =
     \<lparr>tm_classifications = [\<lparr>tc_id = 1, tc_kind = ''hsn'', tc_code = ''6109'', tc_status = ''approved''\<rparr>],
      tm_rules = [\<lparr>tr_id = 1, tr_classification_id = 1, tr_treatment = ''taxable'', tr_cgst_rate = 9,
                   tr_sgst_utgst_rate = 9, tr_igst_rate = 18, tr_effective_from = 0,
                   tr_effective_to = None, tr_status = ''approved''\<rparr>],
      tm_registrations = [\<lparr>rg_id = 1, rg_gstin = ''27AAPFU0939F1ZV'', rg_legal_name = ''NovaCart'',
                           rg_state_code = ''27'', rg_valid_from = 0, rg_valid_to = None,
                           rg_status = ''approved''\<rparr>],
      tm_settings = [\<lparr>ts_id = 1, ts_pricing_mode = ''inclusive'', ts_place_of_supply_basis = ''delivery_state'',
                      ts_shipping_tax_treatment = ''not_taxed'', ts_rounding_policy = ''line_half_up'',
                      ts_registration_id = 1, ts_effective_from = 0, ts_effective_to = None,
                      ts_status = ''approved''\<rparr>]\<rparr>"

definition sample_tax_line :: tax_line where
  "sample_tax_line = \<lparr>tl_product_id = 7, tl_quantity = 2, tl_unit_price_paise = 500,
     tl_classification_id = Some 1, tl_discount_paise = 0\<rparr>"

definition sample_tax_request :: tax_request where
  "sample_tax_request =
     \<lparr>rq_lines = [sample_tax_line],
      rq_subtotal_paise = 1000, rq_shipping_paise = 50, rq_as_of = 20000,
      rq_delivery_state = Some ''Kerala'', rq_delivery_country = Some ''in''\<rparr>"

lemma sample_ready:
  "config_ready sample_tax_master 20000 (hd (tm_settings sample_tax_master)) (hd (tm_registrations sample_tax_master))"
  "line_ready sample_tax_master 20000 sample_tax_line (hd (tm_rules sample_tax_master))"
  by (simp_all add: config_ready_def line_ready_def sample_tax_master_def sample_tax_line_def
      approved_settings_covering_def get_registration_def covers_def classification_statuses_def
      approved_rules_covering_def KNOWN_TREATMENTS_def)

lemma sample_tax: "\<exists>res. gst_calculate sample_tax_master sample_tax_request = Inr res \<and> tx_tax_paise res = 0"
proof -
  let ?tm = sample_tax_master and ?rq = sample_tax_request
  let ?cfg = "hd (tm_settings ?tm)" and ?reg = "hd (tm_registrations ?tm)" and ?r = "hd (tm_rules ?tm)"
  have fields: "rq_as_of ?rq = 20000" "rq_lines ?rq = [sample_tax_line]" "rq_delivery_state ?rq = Some ''Kerala''"
    "rq_delivery_country ?rq = Some ''in''" "tl_classification_id sample_tax_line = Some 1"
    by (simp_all add: sample_tax_request_def sample_tax_line_def)
  have cfg: "ts_pricing_mode ?cfg = ''inclusive''" "ts_shipping_tax_treatment ?cfg = ''not_taxed''"
    "ts_rounding_policy ?cfg = ''line_half_up''" "\<exists>c. row tc_id 1 (tm_classifications ?tm) = Some c"
    by (simp_all add: sample_tax_master_def)
  have ready: "evaluate_readiness ?tm (rq_lines ?rq) 20000 = []"
    unfolding evaluate_readiness_ready fields(2) using sample_ready(2) by auto
  have reg: "get_registration ?tm (ts_registration_id ?cfg) = Some ?reg"
    using sample_ready(1) by (simp add: config_ready_def)
  have "mk_state (''32'', ''Kerala'') \<in> set STATES" by (simp add: STATES_def)
  from states_found(1) [OF this] have place: "resolve_state (Some ''Kerala'') = Some (mk_state (''32'', ''Kerala''))"
    by (simp add: mk_state_def)
  have up: "str_upper ''in'' = ''IN''" by code_simp
  have rule: "rule_of_line ?tm 20000 sample_tax_line = Inr ?r"
    by (rule rule_of_line_ready [OF sample_ready(2)])
  then have rules: "rmap (rule_of_line ?tm 20000) (rq_lines ?rq) = Inr [?r]" by (subst fields(2)) simp
  obtain g where g: "calculate (gst_calc_lines (rq_lines ?rq) [?r]) (rq_shipping_paise ?rq)
      (gs_code (mk_state (''32'', ''Kerala'')) = rg_state_code ?reg) ''inclusive'' ''not_taxed'' ''line_half_up'' = Inr g"
    using calculate_known by blast
  have "\<exists>ls. rmap (line_snapshot ?tm 20000)
      (zip (rq_lines ?rq) (zip (gst_calc_lines (rq_lines ?rq) [?r]) (gr_lines g))) = Inr ls"
    using cfg(4) rule fields(5)
    by (intro rmap_total) (subst fields(2), auto simp: line_snapshot_def dest!: set_zip_leftD)
  then show ?thesis
    using calculate_added [OF g] g cfg(1-3) rules
    by (auto simp: gst_calculate_def gst_charge_def Let_def fields evaluate_config_value [OF sample_ready(1)]
        ready [unfolded fields(2)] reg up place mk_tax_result_def)
qed


text \<open>
  The interim engine charges one percentage of the merchandise subtotal: for a rate with
  up to six decimals and 32-bit amounts the tax is within half a paisa of the exact percentage,
  is refused when negative, and is never marked as a GST calculation.
\<close>

theorem flat_engine_nearest:
  assumes "flat_calculate rate rq = Inr res" and "rate * 10 ^ 6 = of_int n" and "\<bar>n\<bar> < 10 ^ 12"
    and "int32 (rq_subtotal_paise rq)"
  shows "\<bar>of_int (tx_tax_paise res) - of_int (rq_subtotal_paise rq) * rate / 100\<bar> \<le> 1 / 2
    \<and> 0 \<le> tx_tax_paise res \<and> \<not> gst_calculated (tx_snapshot res)"
proof -
  define s where "s = rq_subtotal_paise rq"
  have "\<bar>s\<bar> \<le> 2 ^ 31" using assms(4) by (auto simp: s_def int32_def)
  then have "\<bar>s\<bar> * \<bar>n\<bar> \<le> 2 ^ 31 * 10 ^ 12" using assms(3) by (intro mult_mono) auto
  then have b: "\<bar>s * n\<bar> < 10 ^ 28" by (simp add: abs_mult)
  have m: "of_int s * rate * 10 ^ 6 = of_int (s * n)" using assms(2) by (simp add: mult.assoc)
  have 1: "dec_mul (of_int s) rate = of_int s * rate"
    unfolding dec_mul_def by (rule dec_ctx_exact [OF m b])
  have m2: "of_int s * rate / 100 * 10 ^ 8 = of_int (s * n)" using m by (simp add: mult.commute mult.left_commute)
  have 2: "dec_div (of_int s * rate) 100 = of_int s * rate / 100"
    unfolding dec_div_def by (rule dec_ctx_exact [OF m2 b])
  have t: "tx_tax_paise res = round_half_up (of_int s * rate / 100)" "0 \<le> tx_tax_paise res"
    "\<not> gst_calculated (tx_snapshot res)"
    using assms(1) by (auto simp: flat_calculate_def Let_def mk_tax_result_Inr 1 2 gst_calculated_def simp flip: s_def)
  show ?thesis using round_half_up_error [of "of_int s * rate / 100"] t by (simp flip: s_def)
qed

theorem flat_engine_nearest_witness:
  "\<exists>res. flat_calculate 18 sample_tax_request = Inr res
     \<and> \<bar>of_int (tx_tax_paise res) - rat_of_int 1000 * 18 / 100\<bar> \<le> 1 / 2"
proof -
  have s: "rq_subtotal_paise sample_tax_request = 1000" by (simp add: sample_tax_request_def)
  have "0 \<le> round_half_up (dec_div (dec_mul (of_int 1000) 18) 100)"
    unfolding dec_div_def dec_mul_def by (intro round_half_up_nonneg dec_ctx_nonneg divide_nonneg_nonneg) simp_all
  then obtain res where r: "flat_calculate 18 sample_tax_request = Inr res"
    by (simp add: flat_calculate_def mk_tax_result_def s Let_def)
  from flat_engine_nearest [OF r, of 18000000] s r show ?thesis by (auto simp: int32_def)
qed

end
