(* ===== verification/Shop_Data.thy ===== *)
theory Shop_Data
  imports Money Tax_Engine
begin

text \<open>
  The database of the shop: the enumerations of \<open>shared/enums\<close>, one record per ORM model with the
  columns the modelled operations read or write, and the record \<open>db\<close> of all tables. A table is the
  list of its rows in insertion order. Primary keys (UUIDs and serial numbers alike) are integers
  drawn from one counter \<open>d_next\<close>, so a fresh key never collides with an existing one. Times are
  integers (microseconds), dates are day numbers. Keys built by f-strings from fixed parts and ids
  (\<open>f"refund:{payment.id}:{n}"\<close>) are lists of their parts. JSON columns that nothing reads back are
  left out, and so are the details of audit rows.
\<close>

section \<open>Enumerations\<close>

datatype order_status = PENDING | PAID | FULFILLED | CANCELLED | REFUNDED

definition ALLOWED_TRANSITIONS :: "order_status \<Rightarrow> order_status list" where
  "ALLOWED_TRANSITIONS s =
     (case s of PENDING \<Rightarrow> [PAID, CANCELLED] | PAID \<Rightarrow> [FULFILLED, REFUNDED]
      | FULFILLED \<Rightarrow> [REFUNDED] | CANCELLED \<Rightarrow> [] | REFUNDED \<Rightarrow> [])"

datatype payment_status = PayPending | PaySucceeded | PayFailed | PayRefunded

datatype refund_status = RefRequested | RefPending | RefSucceeded | RefFailed | RefUncertain

definition ACTIVE_REFUND_STATUSES :: "refund_status list" where
  "ACTIVE_REFUND_STATUSES = [RefRequested, RefPending, RefSucceeded, RefUncertain]"

datatype product_status = Draft | Active | Archived

datatype reconciliation_kind =
  LATE_PAYMENT | UNMATCHED_PAYMENT | AMOUNT_MISMATCH | UNVERIFIABLE_PAYMENT | ORDER_MISMATCH
| CANCEL_UNCERTAIN | CANCEL_PAYMENT_SUCCEEDED | REFUND_UNCERTAIN | REFUND_MISMATCH | EXTERNAL_REFUND
| DISPUTE_OPENED | DISPUTE_LOST | UNMATCHED_DISPUTE | REFUND_BLOCKED_BY_DISPUTE | DISPUTE_DURING_REFUND

datatype key_part = KS string | KI int | KN

type_synonym key = "key_part list"

section \<open>Catalogue, cart, coupons\<close>

record product =
  p_id :: int
  p_name :: string
  p_sku :: string
  p_price_cents :: int
  p_stock :: int
  p_status :: product_status
  p_tax_classification_id :: "int option"
  p_option_count :: int

record variant =
  v_id :: int
  v_product_id :: int
  v_option_count :: int
  v_value1_id :: "int option"
  v_value2_id :: "int option"
  v_value3_id :: "int option"
  v_sku :: string
  v_price_override_cents :: "int option"
  v_stock :: int
  v_status :: string

record product_option =
  po_id :: int
  po_product_id :: int
  po_position :: int
  po_name :: string

record option_value =
  ov_id :: int
  ov_option_id :: int
  ov_value :: string

record stock_movement =
  sm_kind :: string
  sm_product_id :: int
  sm_variant_id :: "int option"
  sm_delta :: int
  sm_before_qty :: int
  sm_after_qty :: int
  sm_actor_user_id :: "int option"
  sm_reason :: "string option"
  sm_order_id :: "int option"

record cart =
  ct_id :: int
  ct_user_id :: "int option"
  ct_guest_token :: "string option"

record cart_item =
  ci_id :: int
  ci_cart_id :: int
  ci_product_id :: int
  ci_variant_id :: "int option"
  ci_quantity :: int
  ci_price_cents_snapshot :: int

record coupon =
  cp_id :: int
  cp_code :: string
  cp_name :: string
  cp_kind :: string
  cp_percent_off :: "rat option"
  cp_amount_off_cents :: "int option"
  cp_max_discount_cents :: "int option"
  cp_min_subtotal_cents :: int
  cp_starts_at :: "int option"
  cp_ends_at :: "int option"
  cp_max_uses_total :: "int option"
  cp_max_uses_per_customer :: "int option"
  cp_active :: bool

section \<open>Orders\<close>

record shipping_address =
  sa_recipient_name :: string
  sa_line1 :: string
  sa_line2 :: "string option"
  sa_city :: string
  sa_state :: string
  sa_postal_code :: string
  sa_country :: string

record address =
  ad_id :: int
  ad_user_id :: int
  ad_is_default :: bool
  ad_columns :: shipping_address

record shipping_snapshot =
  ss_flat_charge_paise :: "int option"
  ss_free_threshold_paise :: "int option"
  ss_threshold_basis :: "string option"
  ss_currency :: string
  ss_minor_unit_exponent :: nat
  ss_applied_paise :: int
  ss_free_shipping_applied :: bool
  ss_delivery_checked :: bool
  ss_delivery_policy :: string

record coupon_snapshot =
  cs_coupon :: coupon
  cs_goods_discount_cents :: int
  cs_shipping_discount_cents :: int

record order =
  o_id :: int
  o_user_id :: "int option"
  o_guest_token :: "string option"
  o_guest_email :: "string option"
  o_payment_token_hash :: "string option"
  o_cart_digest :: "string option"
  o_status :: order_status
  o_idempotency_key :: string
  o_request_hash :: "string option"
  o_subtotal_cents :: int
  o_paid_in_demo_mode :: bool
  o_discount_cents :: int
  o_coupon_id :: "int option"
  o_coupon_code :: "string option"
  o_coupon_snapshot :: "coupon_snapshot option"
  o_shipping_cents :: int
  o_tax_cents :: int
  o_total_cents :: int
  o_currency :: "string option"
  o_stock_released_at :: "int option"
  o_shipping_snapshot :: "shipping_snapshot option"
  o_tax_snapshot :: "tax_snapshot option"
  o_shipping_address :: "shipping_address option"
  o_created_at :: int

record variant_snapshot =
  vs_sku :: string
  vs_options :: "(string \<times> string) list"
  vs_price_overridden :: bool
  vs_product_price_cents :: int
  vs_override_price_cents :: "int option"

record order_item =
  oi_id :: int
  oi_order_id :: int
  oi_product_id :: int
  oi_product_name_snapshot :: string
  oi_price_cents_snapshot :: int
  oi_quantity :: int
  oi_variant_id :: "int option"
  oi_sku_snapshot :: string
  oi_variant_snapshot :: "variant_snapshot option"
  oi_restocked_quantity :: int
  oi_discount_cents :: int

definition line_total_cents :: "order_item \<Rightarrow> int" where
  "line_total_cents i = oi_price_cents_snapshot i * oi_quantity i"

record order_history =
  oh_order_id :: int
  oh_from_status :: order_status
  oh_to_status :: order_status
  oh_changed_by_user_id :: "int option"
  oh_reason :: "string option"
  oh_created_at :: int

record order_item_restock =
  ir_order_item_id :: int
  ir_event_key :: key
  ir_quantity :: int

section \<open>Payments\<close>

record payment =
  pm_id :: int
  pm_order_id :: int
  pm_provider :: string
  pm_provider_config_id :: "int option"
  pm_provider_reference :: "string option"
  pm_provider_payment_id :: string
  pm_status :: payment_status
  pm_amount_cents :: int
  pm_currency :: string
  pm_provider_refund_id :: "string option"
  pm_refunded_amount_cents :: "int option"

record refund =
  rf_id :: int
  rf_payment_id :: int
  rf_order_id :: int
  rf_amount_cents :: int
  rf_currency :: string
  rf_status :: refund_status
  rf_provider_refund_id :: "string option"
  rf_idempotency_key :: key
  rf_requested_by_user_id :: "int option"
  rf_attempts :: int
  rf_cancels_order :: bool
  rf_origin :: string
  rf_failure_reason :: "string option"

record reconciliation =
  rc_id :: int
  rc_kind :: reconciliation_kind
  rc_status :: string
  rc_payment_id :: "int option"
  rc_order_id :: "int option"
  rc_provider_payment_id :: "string option"
  rc_dedupe_key :: key
  rc_resolution :: "string option"
  rc_resolution_note :: "string option"
  rc_resolved_by_user_id :: "int option"
  rc_resolved_at :: "int option"

record dispute =
  dp_id :: int
  dp_provider :: string
  dp_provider_dispute_id :: string
  dp_payment_id :: int
  dp_order_id :: int
  dp_amount_cents :: int
  dp_currency :: string
  dp_status :: string
  dp_provider_status :: "string option"
  dp_reason :: "string option"
  dp_closed_at :: "int option"

record webhook_event =
  we_event_id :: string
  we_event_type :: string
  we_provider_payment_id :: string
  we_amount :: "int option"
  we_amount_received :: "int option"
  we_currency :: "string option"
  we_provider_refund_id :: "string option"
  we_refund_status :: "string option"
  we_provider_dispute_id :: "string option"
  we_dispute_status :: "string option"
  we_dispute_reason :: "string option"
  we_provider :: string
  we_provider_reference :: "string option"
  we_config_id :: "int option"

record processed_event =
  pe_key :: "string \<times> string"
  pe_event_type :: string
  pe_status :: string
  pe_attempts :: int
  pe_last_error :: "string option"
  pe_processed_at :: "int option"

record deferred_event =
  de_key :: "string \<times> string"
  de_event :: webhook_event
  de_status :: string
  de_attempts :: int
  de_next_attempt_at :: int
  de_expires_at :: int
  de_last_reason :: string
  de_resolved_at :: "int option"

section \<open>Documents, shipments, jobs, audit\<close>

text \<open>A calendar date (year, month, day).\<close>

type_synonym date = "int \<times> int \<times> int"

record business_profile =
  bp_trade_name :: string
  bp_address_line1 :: string
  bp_address_line2 :: "string option"
  bp_city :: string
  bp_state_code :: string
  bp_pincode :: string
  bp_email :: "string option"
  bp_phone :: "string option"
  bp_invoice_prefix :: string
  bp_footer :: "string option"
  bp_updated_by_user_id :: "int option"

text \<open>One printed line: the entries copied from the tax line are kept together as that line.\<close>

record document_row =
  dr_sr :: int
  dr_description :: string
  dr_sku :: string
  dr_quantity :: int
  dr_unit_price_paise :: int
  dr_tax :: gst_line_snapshot

record supplier =
  su_legal_name :: string
  su_trade_name :: string
  su_gstin :: string
  su_address :: "string \<times> string option \<times> string \<times> string \<times> string option \<times> string"
  su_email :: "string option"
  su_phone :: "string option"

record recipient =
  rp_email :: "string option"
  rp_address :: "shipping_address option"
  rp_state_code :: "string option"

record document =
  dc_type :: string
  dc_number :: string
  dc_date :: date
  dc_fiscal_year :: string
  dc_currency :: string
  dc_order_id :: int
  dc_supplier :: supplier
  dc_recipient :: recipient
  dc_place_of_supply :: gst_state
  dc_intra_state :: bool
  dc_settings :: tax_settings
  dc_lines :: "document_row list"
  dc_shipping :: "int \<times> bool \<times> int"
  dc_totals :: gst_result
  dc_goods_paise :: int
  dc_discount_paise :: int
  dc_shipping_paise :: int
  dc_grand_total_paise :: int
  dc_coupon :: "string option"
  dc_amount_in_words :: string
  dc_footer :: "string option"
  dc_against_invoice :: "(string \<times> date) option"

record invoice =
  iv_id :: int
  iv_order_id :: int
  iv_doc_type :: string
  iv_number :: string
  iv_fiscal_year :: string
  iv_sequence :: int
  iv_issued_on :: date
  iv_related_invoice_id :: "int option"
  iv_total_paise :: int
  iv_currency :: string
  iv_document :: document

record shipment =
  sh_id :: int
  sh_order_id :: int
  sh_carrier_name :: string
  sh_tracking_number :: "string option"
  sh_tracking_url :: "string option"
  sh_status :: string
  sh_shipped_at :: int
  sh_delivered_at :: "int option"
  sh_created_by_user_id :: int

record return_item =
  ri_id :: int
  ri_order_item_id :: int
  ri_quantity :: int
  ri_reason :: string
  ri_received_quantity :: "int option"
  ri_restock :: bool
  ri_restocked_quantity :: int
  ri_condition_note :: "string option"

text \<open>A return request with its items (the \<open>items\<close> relationship, in the order of their ids).\<close>

record return_request =
  rt_id :: int
  rt_order_id :: int
  rt_user_id :: int
  rt_status :: string
  rt_customer_comment :: "string option"
  rt_admin_note :: "string option"
  rt_rejection_reason :: "string option"
  rt_resolution :: "string option"
  rt_resolution_note :: "string option"
  rt_refund_id :: "int option"
  rt_requested_at :: int
  rt_decided_at :: "int option"
  rt_received_at :: "int option"
  rt_closed_at :: "int option"
  rt_handled_by_user_id :: "int option"
  rt_items :: "return_item list"

record job =
  jb_id :: int
  jb_type :: string
  jb_payload :: key
  jb_dedupe_key :: "key option"

record audit_row =
  au_actor_user_id :: "int option"
  au_action :: string
  au_target_type :: string
  au_target_id :: key

record db =
  d_next :: int
  d_products :: "product list"
  d_variants :: "variant list"
  d_options :: "product_option list"
  d_option_values :: "option_value list"
  d_stock_movements :: "stock_movement list"
  d_carts :: "cart list"
  d_cart_items :: "cart_item list"
  d_coupons :: "coupon list"
  d_addresses :: "address list"
  d_orders :: "order list"
  d_order_items :: "order_item list"
  d_order_history :: "order_history list"
  d_restocks :: "order_item_restock list"
  d_payments :: "payment list"
  d_refunds :: "refund list"
  d_reconciliations :: "reconciliation list"
  d_disputes :: "dispute list"
  d_processed_events :: "processed_event list"
  d_deferred_events :: "deferred_event list"
  d_invoices :: "invoice list"
  d_invoice_sequences :: "(string \<times> int) list"
  d_shipments :: "shipment list"
  d_returns :: "return_request list"
  d_jobs :: "job list"
  d_audit :: "audit_row list"
  d_store_currency :: "string option"
  d_tax :: tax_master
  d_business_profile :: "business_profile option"
  d_users :: "(int \<times> string) list"

section \<open>Errors\<close>

text \<open>Every exception the services raise; the database's own refusals carry the constraint's name.\<close>

datatype shop_error =
  OrderNotFound int
| InvalidStatusTransition order_status order_status
| OrderAccessForbidden
| IdempotencyKeyConflict
| PriceChanged "(int \<times> int \<times> int) list" int
| CheckoutNotConfigured
| ShippingAddressRequired
| GuestEmailRequired
| ProductTaxUnassigned "int list"
| StatusChangeNotAllowed
| CancellationNotAllowed order_status
| PaymentInProgress
| CancelAndRefundNotAllowed order_status
| EmptyCart
| DeliveryNotAvailable "string option"
| AddressNotFound int
| InsufficientStock int
| ProductUnavailable
| VariantRequired
| VariantUnavailable
| CartFull
| CartItemNotFound int
| CouponInvalid
| CouponMinimumNotMet int
| CouponLimitReached
| CouponNotApplicable
| CouponNotFound
| CouponCodeExists
| CouponInUse
| CouponSettingsInvalid
| StoreCurrencyNotConfigured
| MoneyError money_error
| TaxError tax_error
| OrderNotRefundable
| OrderCurrencyUnknown
| RefundAlreadyRequested bool
| PaymentInconsistent
| PaymentDisputed
| PartialRefundNotSupported
| ReconciliationNotOpen
| OrderNotPayable
| LivePaymentsDisabled
| BusinessProfileIncomplete
| InvoiceNotApplicable
| OrderNotShippable order_status
| ShipmentNotFound
| InvalidShipmentStatusChange string string
| DuplicateTracking
| ReturnNotFound
| ReturnsDisabled
| OrderNotShipped
| ReturnWindowClosed int
| NothingReturnable
| ReturnItemInvalid
| ReturnQuantityExceeded int
| ReturnState string string
| ReturnNotFull
| ReturnReceiptInvalid
| ProviderError
| PaymentProviderUnavailable string
| InvalidWebhookSignature
| InvalidWebhookPayload
| NotFound
| IntegrityError string
| KeyError
| IndexError
| RuntimeError
| ValueError
| TypeError

section \<open>Fresh keys and the audit log\<close>

definition fresh :: "db \<Rightarrow> int \<times> db" where
  "fresh d = (d_next d, d\<lparr>d_next := d_next d + 1\<rparr>)"

definition audit_log :: "int option \<Rightarrow> string \<Rightarrow> string \<Rightarrow> key \<Rightarrow> db \<Rightarrow> db" where
  "audit_log actor action target_type target d =
     d\<lparr>d_audit := d_audit d @ [\<lparr>au_actor_user_id = actor, au_action = action,
        au_target_type = target_type, au_target_id = target\<rparr>]\<rparr>"

lemma audit_log_frame [simp]:
  "d_products (audit_log a b c t d) = d_products d"
  "d_variants (audit_log a b c t d) = d_variants d"
  "d_stock_movements (audit_log a b c t d) = d_stock_movements d"
  "d_orders (audit_log a b c t d) = d_orders d"
  "d_order_items (audit_log a b c t d) = d_order_items d"
  "d_order_history (audit_log a b c t d) = d_order_history d"
  "d_restocks (audit_log a b c t d) = d_restocks d"
  "d_payments (audit_log a b c t d) = d_payments d"
  "d_refunds (audit_log a b c t d) = d_refunds d"
  "d_reconciliations (audit_log a b c t d) = d_reconciliations d"
  "d_disputes (audit_log a b c t d) = d_disputes d"
  "d_processed_events (audit_log a b c t d) = d_processed_events d"
  "d_invoices (audit_log a b c t d) = d_invoices d"
  "d_invoice_sequences (audit_log a b c t d) = d_invoice_sequences d"
  "d_business_profile (audit_log a b c t d) = d_business_profile d"
  "d_users (audit_log a b c t d) = d_users d"
  "d_deferred_events (audit_log a b c t d) = d_deferred_events d"
  "d_jobs (audit_log a b c t d) = d_jobs d"
  "d_next (audit_log a b c t d) = d_next d"
  "d_coupons (audit_log a b c t d) = d_coupons d"
  "d_shipments (audit_log a b c t d) = d_shipments d"
  "d_returns (audit_log a b c t d) = d_returns d"
  by (simp_all add: audit_log_def)

end
