(* ===== verification/Catalog.thy ===== *)
theory Catalog
  imports Shop_Data
begin

text \<open>
  The catalogue's stock: \<open>product_repository.py\<close> (lookups, row locks, the two stock updates),
  \<open>core/stock_context.py\<close>, the stock-ledger trigger of \<open>variant_guard.py\<close>, and the pure price and
  availability functions of \<open>product_view.py\<close>. A row lock returns the current rows; serialisation
  by locks is what lets an operation be modelled as one step. The interface \<open>stock_store\<close> (what an
  update does to a unit's stock) is interpreted on products and on variants.
\<close>

section \<open>Prices and availability\<close>

definition effective_price :: "variant \<Rightarrow> int \<Rightarrow> int" where
  "effective_price v base_price =
     (case v_price_override_cents v of Some p \<Rightarrow> p | None \<Rightarrow> base_price)"

definition availability :: "int \<Rightarrow> int \<Rightarrow> string" where
  "availability stock threshold =
     (if stock \<le> 0 then ''out_of_stock'' else if stock \<le> threshold then ''low_stock'' else ''in_stock'')"

definition RANK :: "string \<Rightarrow> int" where
  "RANK a = (if a = ''out_of_stock'' then 0 else if a = ''low_stock'' then 1 else 2)"

text \<open>\<open>max(..., key=_RANK.__getitem__, default="out_of_stock")\<close>: the first of the best.\<close>

definition best_availability :: "string list \<Rightarrow> string" where
  "best_availability as =
     (case as of [] \<Rightarrow> ''out_of_stock''
      | a # bs \<Rightarrow> foldl (\<lambda>m b. if RANK m < RANK b then b else m) a bs)"

record product_view =
  pv_has_variants :: bool
  pv_price_cents :: int
  pv_price_from_cents :: int
  pv_price_to_cents :: int
  pv_has_price_range :: bool
  pv_variant_count :: int
  pv_available :: bool
  pv_availability :: string
  pv_stock :: "int option"
  pv_base_price_cents :: "int option"

definition view_fields :: "product \<Rightarrow> variant list \<Rightarrow> bool \<Rightarrow> int \<Rightarrow> string \<Rightarrow> product_view" where
  "view_fields p vs is_admin threshold visibility =
     (let show_exact = (is_admin \<or> visibility = ''exact'');
          base = (if is_admin then Some (p_price_cents p) else None)
      in if p_option_count p = 0
         then \<lparr>pv_has_variants = False, pv_price_cents = p_price_cents p,
               pv_price_from_cents = p_price_cents p, pv_price_to_cents = p_price_cents p,
               pv_has_price_range = False, pv_variant_count = 0, pv_available = 0 < p_stock p,
               pv_availability = availability (p_stock p) threshold,
               pv_stock = (if show_exact then Some (p_stock p) else None), pv_base_price_cents = base\<rparr>
         else
           let active = filter (\<lambda>v. v_status v = ''active'') vs;
               prices = (case map (\<lambda>v. effective_price v (p_price_cents p)) active of
                           [] \<Rightarrow> [p_price_cents p] | ps \<Rightarrow> ps);
               best = best_availability (map (\<lambda>v. availability (v_stock v) threshold) active);
               counted = (if is_admin then vs else active);
               lo = Min (set prices); hi = Max (set prices)
           in \<lparr>pv_has_variants = True, pv_price_cents = lo, pv_price_from_cents = lo, pv_price_to_cents = hi,
               pv_has_price_range = (lo \<noteq> hi), pv_variant_count = int (length counted),
               pv_available = (best \<noteq> ''out_of_stock''), pv_availability = best,
               pv_stock = (if show_exact then Some (sum_list (map v_stock counted)) else None),
               pv_base_price_cents = base\<rparr>)"

section \<open>Lookups and row locks\<close>

definition get_product :: "int \<Rightarrow> db \<Rightarrow> product option" where
  "get_product i d = row p_id i (d_products d)"

definition get_variant :: "int \<Rightarrow> db \<Rightarrow> variant option" where
  "get_variant i d = row v_id i (d_variants d)"

text \<open>\<open>get_many_for_update\<close> returns the rows of the given ids in ascending id order; ids that do not
  exist are absent.\<close>

definition get_many_for_update :: "int list \<Rightarrow> db \<Rightarrow> product list" where
  "get_many_for_update ids d =
     List.map_filter (\<lambda>i. row p_id i (d_products d)) (sort (remdups ids))"

definition get_variants_for_update :: "int list \<Rightarrow> db \<Rightarrow> variant list" where
  "get_variants_for_update ids d =
     List.map_filter (\<lambda>i. row v_id i (d_variants d)) (sort (remdups ids))"

definition options_for :: "int list \<Rightarrow> db \<Rightarrow> product_option list" where
  "options_for pids d =
     sort_key (\<lambda>po. (po_product_id po, po_position po))
       (filter (\<lambda>po. po_product_id po \<in> set pids) (d_options d))"

definition tax_states :: "int list \<Rightarrow> db \<Rightarrow> int \<Rightarrow> string option" where
  "tax_states pids d i =
     (if i \<in> set pids
      then Option.bind (Option.bind (get_product i d) p_tax_classification_id)
             (\<lambda>c. map_option tc_status (row tc_id c (tm_classifications (d_tax d))))
      else None)"

section \<open>The stock ledger\<close>

record stock_ctx =
  sx_kind :: string
  sx_actor_user_id :: "int option"
  sx_reason :: "string option"
  sx_order_id :: "int option"

definition STOCK_KINDS :: "string list" where
  "STOCK_KINDS = [''initial'', ''sale'', ''restock'', ''admin_set'', ''admin_delta'', ''conversion'']"

text \<open>The context manager: an unknown kind is refused, the body runs with the context set.\<close>

definition stock_change ::
  "stock_ctx \<Rightarrow> (stock_ctx \<Rightarrow> db \<Rightarrow> (shop_error, db) result) \<Rightarrow> db \<Rightarrow> (shop_error, db) result" where
  "stock_change ctx body d = (if sx_kind ctx \<notin> set STOCK_KINDS then Inl ValueError else body ctx d)"

text \<open>\<open>stock_ledger_write\<close> on an UPDATE: the row written for a changed stock.\<close>

definition stock_ledger_write :: "stock_ctx \<Rightarrow> int \<Rightarrow> int option \<Rightarrow> int \<Rightarrow> int \<Rightarrow> stock_movement" where
  "stock_ledger_write ctx pid vid old new =
     \<lparr>sm_kind = (if sx_kind ctx = '''' then ''unspecified'' else sx_kind ctx),
      sm_product_id = pid, sm_variant_id = vid, sm_delta = new - old, sm_before_qty = old,
      sm_after_qty = new, sm_actor_user_id = sx_actor_user_id ctx, sm_reason = sx_reason ctx,
      sm_order_id = sx_order_id ctx\<rparr>"

section \<open>Stock updates\<close>

text \<open>\<open>{id: delta for id, delta in deltas.items() if delta}\<close>\<close>

definition nonzero :: "(int \<times> int) list \<Rightarrow> (int \<times> int) list" where
  "nonzero deltas = filter (\<lambda>(_, delta). delta \<noteq> 0) deltas"

definition product_checks :: "product \<Rightarrow> bool" where
  "product_checks p \<longleftrightarrow> 0 < p_price_cents p \<and> 0 \<le> p_stock p \<and> 0 \<le> p_option_count p
     \<and> p_option_count p \<le> 3 \<and> (p_option_count p = 0 \<or> p_stock p = 0)"

definition variant_checks :: "variant \<Rightarrow> bool" where
  "variant_checks v \<longleftrightarrow> 0 \<le> v_stock v
     \<and> (case v_price_override_cents v of None \<Rightarrow> True | Some p \<Rightarrow> 0 < p)"

definition move_product :: "(int \<times> int) list \<Rightarrow> product \<Rightarrow> product" where
  "move_product ds p = p\<lparr>p_stock := p_stock p + dict_get ds (p_id p)\<rparr>"

definition move_variant :: "(int \<times> int) list \<Rightarrow> variant \<Rightarrow> variant" where
  "move_variant ds v = v\<lparr>v_stock := v_stock v + dict_get ds (v_id v)\<rparr>"

definition adjust_stock_many ::
  "stock_ctx \<Rightarrow> product list \<Rightarrow> (int \<times> int) list \<Rightarrow> db \<Rightarrow> (shop_error, db) result" where
  "adjust_stock_many ctx products deltas0 d =
     (let deltas = nonzero deltas0;
          touched = filter (\<lambda>p. p_id p \<in> fst ` set deltas) (d_products d)
      in if deltas = [] then Inr d
         else if \<not> list_all (\<lambda>p. product_checks (move_product deltas p)) touched
         then Inl (IntegrityError ''ck_products_stock_non_negative'')
         else if \<not> list_all (\<lambda>(i, _). i \<in> p_id ` set products) deltas then Inl KeyError
         else Inr (d\<lparr>d_products := map (move_product deltas) (d_products d),
                     d_stock_movements := d_stock_movements d @
                       map (\<lambda>p. stock_ledger_write ctx (p_id p) None (p_stock p) (p_stock (move_product deltas p)))
                         touched\<rparr>))"

definition adjust_variant_stock_many ::
  "stock_ctx \<Rightarrow> variant list \<Rightarrow> (int \<times> int) list \<Rightarrow> db \<Rightarrow> (shop_error, db) result" where
  "adjust_variant_stock_many ctx variants deltas0 d =
     (let deltas = nonzero deltas0;
          touched = filter (\<lambda>v. v_id v \<in> fst ` set deltas) (d_variants d)
      in if deltas = [] then Inr d
         else if \<not> list_all (\<lambda>v. variant_checks (move_variant deltas v)) touched
         then Inl (IntegrityError ''ck_variants_stock_non_negative'')
         else if length touched \<noteq> length deltas then Inl RuntimeError
         else if \<not> list_all (\<lambda>(i, _). i \<in> v_id ` set variants) deltas then Inl KeyError
         else Inr (d\<lparr>d_variants := map (move_variant deltas) (d_variants d),
                     d_stock_movements := d_stock_movements d @
                       map (\<lambda>v. stock_ledger_write ctx (v_product_id v) (Some (v_id v)) (v_stock v)
                                  (v_stock (move_variant deltas v))) touched\<rparr>))"

section \<open>Stock of a unit, and the ledger invariant\<close>

text \<open>What is sold is a simple product or one variant.\<close>

datatype sold_unit = UnitP int | UnitV int

definition p_stock_of :: "db \<Rightarrow> int \<Rightarrow> int" where
  "p_stock_of d i = (case get_product i d of None \<Rightarrow> 0 | Some p \<Rightarrow> p_stock p)"

definition v_stock_of :: "db \<Rightarrow> int \<Rightarrow> int" where
  "v_stock_of d i = (case get_variant i d of None \<Rightarrow> 0 | Some v \<Rightarrow> v_stock v)"

definition unit_stock :: "db \<Rightarrow> sold_unit \<Rightarrow> int" where
  "unit_stock d u = (case u of UnitP i \<Rightarrow> p_stock_of d i | UnitV i \<Rightarrow> v_stock_of d i)"

definition movement_sum :: "stock_movement list \<Rightarrow> sold_unit \<Rightarrow> int" where
  "movement_sum ms u =
     (case u of
        UnitP i \<Rightarrow> sum_list (map sm_delta (filter (\<lambda>m. sm_product_id m = i \<and> sm_variant_id m = None) ms))
      | UnitV i \<Rightarrow> sum_list (map sm_delta (filter (\<lambda>m. sm_variant_id m = Some i) ms)))"

definition stock_ok :: "db \<Rightarrow> bool" where
  "stock_ok d \<longleftrightarrow> distinct (map p_id (d_products d)) \<and> distinct (map v_id (d_variants d))
     \<and> list_all product_checks (d_products d) \<and> list_all variant_checks (d_variants d)"

text \<open>The ledger explains the stock: every unit's stock is the sum of its movements, and every
  movement's quantities are consistent.\<close>

definition ledger_ok :: "db \<Rightarrow> bool" where
  "ledger_ok d \<longleftrightarrow>
     list_all (\<lambda>p. p_stock p = movement_sum (d_stock_movements d) (UnitP (p_id p))) (d_products d)
     \<and> list_all (\<lambda>v. v_stock v = movement_sum (d_stock_movements d) (UnitV (v_id v))) (d_variants d)
     \<and> list_all (\<lambda>m. sm_after_qty m = sm_before_qty m + sm_delta m) (d_stock_movements d)"

section \<open>What a stock update does\<close>

definition product_moves :: "stock_ctx \<Rightarrow> (int \<times> int) list \<Rightarrow> product list \<Rightarrow> stock_movement list" where
  "product_moves ctx ds ps =
     map (\<lambda>p. stock_ledger_write ctx (p_id p) None (p_stock p) (p_stock (move_product ds p)))
       (filter (\<lambda>p. dict_get ds (p_id p) \<noteq> 0) ps)"

definition variant_moves :: "stock_ctx \<Rightarrow> (int \<times> int) list \<Rightarrow> variant list \<Rightarrow> stock_movement list" where
  "variant_moves ctx ds vs =
     map (\<lambda>v. stock_ledger_write ctx (v_product_id v) (Some (v_id v)) (v_stock v) (v_stock (move_variant ds v)))
       (filter (\<lambda>v. dict_get ds (v_id v) \<noteq> 0) vs)"

lemma p_id_move [simp]: "p_id (move_product ds p) = p_id p"
  by (simp add: move_product_def)

lemma v_id_move [simp]: "v_id (move_variant ds v) = v_id v"
  by (simp add: move_variant_def)

lemma dict_nonzero_key:
  assumes "distinct (map fst ds)"
  shows "k \<in> fst ` set (nonzero ds) \<longleftrightarrow> dict_get ds k \<noteq> 0"
  using assms
proof (induction ds)
  case (Cons a ds)
  have "dict_get ds (fst a) = 0" using Cons.prems by (simp add: dict_get_absent)
  with Cons show ?case by (cases a) (auto simp: nonzero_def)
qed (simp add: nonzero_def)

lemma dict_all_zero:
  assumes "distinct (map fst ds)" and "nonzero ds = []"
  shows "dict_get ds k = 0"
  using dict_nonzero_key [OF assms(1), of k] assms(2) by simp

lemma move_product_zero: "dict_get ds (p_id p) = 0 \<Longrightarrow> move_product ds p = p"
  by (simp add: move_product_def)

lemma move_variant_zero: "dict_get ds (v_id v) = 0 \<Longrightarrow> move_variant ds v = v"
  by (simp add: move_variant_def)

lemma move_product_nonzero [simp]:
  "distinct (map fst ds) \<Longrightarrow> move_product (nonzero ds) = move_product ds"
  by (rule ext) (simp add: move_product_def nonzero_def)

lemma move_variant_nonzero [simp]:
  "distinct (map fst ds) \<Longrightarrow> move_variant (nonzero ds) = move_variant ds"
  by (rule ext) (simp add: move_variant_def nonzero_def)

lemma adjust_stock_many_Inr:
  assumes "adjust_stock_many ctx ps ds d = Inr d'" and "distinct (map fst ds)"
  shows "d' = d\<lparr>d_products := map (move_product ds) (d_products d),
                d_stock_movements := d_stock_movements d @ product_moves ctx ds (d_products d)\<rparr>"
    and "p \<in> set (d_products d) \<Longrightarrow> dict_get ds (p_id p) \<noteq> 0 \<Longrightarrow> product_checks (move_product ds p)"
proof -
  let ?nz = "nonzero ds"
  have key: "k \<in> fst ` set ?nz \<longleftrightarrow> dict_get ds k \<noteq> 0" for k by (rule dict_nonzero_key [OF assms(2)])
  have "d' = d\<lparr>d_products := map (move_product ds) (d_products d),
                d_stock_movements := d_stock_movements d @ product_moves ctx ds (d_products d)\<rparr>
    \<and> (p \<in> set (d_products d) \<longrightarrow> dict_get ds (p_id p) \<noteq> 0 \<longrightarrow> product_checks (move_product ds p))"
  proof (cases "?nz = []")
    case True
    then have z: "dict_get ds k = 0" for k by (rule dict_all_zero [OF assms(2)])
    have "map (move_product ds) (d_products d) = d_products d"
      by (rule map_idI) (simp add: move_product_zero z)
    with True z assms(1) show ?thesis by (simp add: adjust_stock_many_def product_moves_def)
  next
    case False
    with assms show ?thesis
      by (auto simp: adjust_stock_many_def Let_def product_moves_def list_all_iff key split: if_splits)
  qed
  then show "d' = d\<lparr>d_products := map (move_product ds) (d_products d),
                d_stock_movements := d_stock_movements d @ product_moves ctx ds (d_products d)\<rparr>"
    and "p \<in> set (d_products d) \<Longrightarrow> dict_get ds (p_id p) \<noteq> 0 \<Longrightarrow> product_checks (move_product ds p)"
    by blast+
qed

lemma adjust_variant_stock_many_Inr:
  assumes "adjust_variant_stock_many ctx vs ds d = Inr d'" and "distinct (map fst ds)"
  shows "d' = d\<lparr>d_variants := map (move_variant ds) (d_variants d),
                d_stock_movements := d_stock_movements d @ variant_moves ctx ds (d_variants d)\<rparr>"
    and "v \<in> set (d_variants d) \<Longrightarrow> dict_get ds (v_id v) \<noteq> 0 \<Longrightarrow> variant_checks (move_variant ds v)"
proof -
  let ?nz = "nonzero ds"
  have key: "k \<in> fst ` set ?nz \<longleftrightarrow> dict_get ds k \<noteq> 0" for k by (rule dict_nonzero_key [OF assms(2)])
  have "d' = d\<lparr>d_variants := map (move_variant ds) (d_variants d),
                d_stock_movements := d_stock_movements d @ variant_moves ctx ds (d_variants d)\<rparr>
    \<and> (v \<in> set (d_variants d) \<longrightarrow> dict_get ds (v_id v) \<noteq> 0 \<longrightarrow> variant_checks (move_variant ds v))"
  proof (cases "?nz = []")
    case True
    then have z: "dict_get ds k = 0" for k by (rule dict_all_zero [OF assms(2)])
    have "map (move_variant ds) (d_variants d) = d_variants d"
      by (rule map_idI) (simp add: move_variant_zero z)
    with True z assms(1) show ?thesis by (simp add: adjust_variant_stock_many_def variant_moves_def)
  next
    case False
    with assms show ?thesis
      by (auto simp: adjust_variant_stock_many_def Let_def variant_moves_def list_all_iff key split: if_splits)
  qed
  then show "d' = d\<lparr>d_variants := map (move_variant ds) (d_variants d),
                d_stock_movements := d_stock_movements d @ variant_moves ctx ds (d_variants d)\<rparr>"
    and "v \<in> set (d_variants d) \<Longrightarrow> dict_get ds (v_id v) \<noteq> 0 \<Longrightarrow> variant_checks (move_variant ds v)"
    by blast+
qed

text \<open>When an update is accepted.\<close>

lemma adjust_stock_many_accepts:
  assumes "distinct (map fst ds)"
    and "\<And>p. p \<in> set (d_products d) \<Longrightarrow> dict_get ds (p_id p) \<noteq> 0 \<Longrightarrow> product_checks (move_product ds p)"
    and "fst ` set ds \<subseteq> p_id ` set ps"
  shows "\<exists>d'. adjust_stock_many ctx ps ds d = Inr d'"
proof -
  have key: "k \<in> fst ` set (nonzero ds) \<longleftrightarrow> dict_get ds k \<noteq> 0" for k
    by (rule dict_nonzero_key [OF assms(1)])
  have "list_all (\<lambda>(i, _). i \<in> p_id ` set ps) (nonzero ds)"
    using assms(3) by (force simp: list_all_iff nonzero_def)
  moreover have "list_all (\<lambda>p. product_checks (move_product (nonzero ds) p))
      (filter (\<lambda>p. p_id p \<in> fst ` set (nonzero ds)) (d_products d))"
    using assms(1,2) by (simp add: list_all_iff key)
  ultimately show ?thesis by (simp add: adjust_stock_many_def Let_def)
qed

lemma adjust_variant_stock_many_accepts:
  assumes "distinct (map fst ds)" and "distinct (map v_id (d_variants d))"
    and "\<And>v. v \<in> set (d_variants d) \<Longrightarrow> dict_get ds (v_id v) \<noteq> 0 \<Longrightarrow> variant_checks (move_variant ds v)"
    and "fst ` set ds \<subseteq> v_id ` set vs" and "fst ` set ds \<subseteq> v_id ` set (d_variants d)"
  shows "\<exists>d'. adjust_variant_stock_many ctx vs ds d = Inr d'"
proof -
  let ?nz = "nonzero ds" and ?t = "filter (\<lambda>v. v_id v \<in> fst ` set (nonzero ds)) (d_variants d)"
  have key: "k \<in> fst ` set ?nz \<longleftrightarrow> dict_get ds k \<noteq> 0" for k by (rule dict_nonzero_key [OF assms(1)])
  have sub: "set ?nz \<subseteq> set ds" by (auto simp: nonzero_def)
  have "list_all (\<lambda>(i, _). i \<in> v_id ` set vs) ?nz" using assms(4) sub by (force simp: list_all_iff)
  moreover have "list_all (\<lambda>v. variant_checks (move_variant ?nz v)) ?t"
    using assms(1,3) by (simp add: list_all_iff key)
  moreover have "length ?t = length ?nz"
  proof -
    have "distinct (map v_id ?t)" using assms(2) by (rule distinct_map_filter)
    from distinct_card [OF this] have "length ?t = card (v_id ` set ?t)" by simp
    also have "v_id ` set ?t = fst ` set ?nz"
    proof
      show "fst ` set ?nz \<subseteq> v_id ` set ?t"
      proof
        fix k
        assume k: "k \<in> fst ` set ?nz"
        then have "k \<in> fst ` set ds" using image_mono [OF sub] by (rule subsetD [rotated])
        with assms(5) have "k \<in> v_id ` set (d_variants d)" by (rule subsetD)
        then obtain v where "v \<in> set (d_variants d)" "v_id v = k" by auto
        with k show "k \<in> v_id ` set ?t" by (intro image_eqI [of _ _ v]) simp_all
      qed
    qed auto
    also have "card (fst ` set ?nz) = length ?nz"
    proof -
      have "distinct (map fst ?nz)" unfolding nonzero_def using assms(1) by (rule distinct_map_filter)
      from distinct_card [OF this] show ?thesis by simp
    qed
    finally show ?thesis .
  qed
  ultimately show ?thesis by (simp add: adjust_variant_stock_many_def Let_def)
qed

section \<open>Moving the stock of units\<close>

text \<open>
  The block every stock-moving service runs: inside \<open>stock_change\<close>, one UPDATE of the products and,
  if there are variant deltas, one of the variants.
\<close>

definition move_units ::
  "stock_ctx \<Rightarrow> product list \<Rightarrow> (int \<times> int) list \<Rightarrow> variant list \<Rightarrow> (int \<times> int) list \<Rightarrow> db \<Rightarrow> (shop_error, db) result" where
  "move_units ctx products stock_deltas variants variant_deltas =
     stock_change ctx (\<lambda>ctx d.
       rbind (adjust_stock_many ctx products stock_deltas d) (\<lambda>d.
       if variant_deltas = [] then Inr d else adjust_variant_stock_many ctx variants variant_deltas d))"

definition unit_delta :: "(int \<times> int) list \<Rightarrow> (int \<times> int) list \<Rightarrow> sold_unit \<Rightarrow> int" where
  "unit_delta pds vds u = (case u of UnitP i \<Rightarrow> dict_get pds i | UnitV i \<Rightarrow> dict_get vds i)"

definition known_unit :: "db \<Rightarrow> sold_unit \<Rightarrow> bool" where
  "known_unit d u \<longleftrightarrow> (case u of UnitP i \<Rightarrow> get_product i d \<noteq> None | UnitV i \<Rightarrow> get_variant i d \<noteq> None)"

lemma move_units_Inr:
  assumes "move_units ctx ps pds vs vds d = Inr d'" and "distinct (map fst pds)" and "distinct (map fst vds)"
  shows "d' = d\<lparr>d_products := map (move_product pds) (d_products d),
                d_variants := map (move_variant vds) (d_variants d),
                d_stock_movements := d_stock_movements d @ product_moves ctx pds (d_products d)
                   @ variant_moves ctx vds (d_variants d)\<rparr>"
    and "\<And>p. p \<in> set (d_products d) \<Longrightarrow> dict_get pds (p_id p) \<noteq> 0 \<Longrightarrow> product_checks (move_product pds p)"
    and "\<And>v. v \<in> set (d_variants d) \<Longrightarrow> dict_get vds (v_id v) \<noteq> 0 \<Longrightarrow> variant_checks (move_variant vds v)"
proof -
  obtain d1 where 1: "adjust_stock_many ctx ps pds d = Inr d1"
    and 2: "(if vds = [] then Inr d1 else adjust_variant_stock_many ctx vs vds d1) = Inr d'"
    using assms(1) by (auto simp: move_units_def stock_change_def res_simps split: if_split_asm)
  note d1 = adjust_stock_many_Inr [OF 1 assms(2)]
  have v: "d_variants d1 = d_variants d" by (simp add: d1(1))
  show "\<And>p. p \<in> set (d_products d) \<Longrightarrow> dict_get pds (p_id p) \<noteq> 0 \<Longrightarrow> product_checks (move_product pds p)"
    by (rule d1(2))
  have "d' = d1\<lparr>d_variants := map (move_variant vds) (d_variants d1),
          d_stock_movements := d_stock_movements d1 @ variant_moves ctx vds (d_variants d1)\<rparr>
      \<and> (\<forall>v \<in> set (d_variants d1). dict_get vds (v_id v) \<noteq> 0 \<longrightarrow> variant_checks (move_variant vds v))"
  proof (cases "vds = []")
    case True
    have "map (move_variant []) (d_variants d1) = d_variants d1"
      by (rule map_idI) (simp add: move_variant_zero)
    with True 2 show ?thesis by (simp add: variant_moves_def)
  next
    case False
    with 2 have "adjust_variant_stock_many ctx vs vds d1 = Inr d'" by simp
    from adjust_variant_stock_many_Inr [OF this assms(3)] show ?thesis by blast
  qed
  then show "d' = d\<lparr>d_products := map (move_product pds) (d_products d),
                d_variants := map (move_variant vds) (d_variants d),
                d_stock_movements := d_stock_movements d @ product_moves ctx pds (d_products d)
                   @ variant_moves ctx vds (d_variants d)\<rparr>"
    and "\<And>v. v \<in> set (d_variants d) \<Longrightarrow> dict_get vds (v_id v) \<noteq> 0 \<Longrightarrow> variant_checks (move_variant vds v)"
    by (simp_all add: d1(1))
qed

lemma get_product_move: "row p_id i (map (move_product ds) t) = map_option (move_product ds) (row p_id i t)"
  by (simp add: row_map)

lemma get_variant_move: "row v_id i (map (move_variant ds) t) = map_option (move_variant ds) (row v_id i t)"
  by (simp add: row_map)

lemma move_units_unit_stock:
  assumes "move_units ctx ps pds vs vds d = Inr d'" and "distinct (map fst pds)" and "distinct (map fst vds)"
    and "known_unit d u"
  shows "unit_stock d' u = unit_stock d u + unit_delta pds vds u"
proof (cases u)
  case (UnitP i)
  with assms(4) obtain p where "get_product i d = Some p" by (auto simp: known_unit_def)
  moreover have "p_id p = i" using calculation row_SomeD unfolding get_product_def by fastforce
  ultimately show ?thesis
    unfolding move_units_Inr(1) [OF assms(1-3)] using UnitP
    by (simp add: unit_stock_def p_stock_of_def get_product_def get_product_move unit_delta_def move_product_def)
next
  case (UnitV i)
  with assms(4) obtain v where "get_variant i d = Some v" by (auto simp: known_unit_def)
  moreover have "v_id v = i" using calculation row_SomeD unfolding get_variant_def by fastforce
  ultimately show ?thesis
    unfolding move_units_Inr(1) [OF assms(1-3)] using UnitV
    by (simp add: unit_stock_def v_stock_of_def get_variant_def get_variant_move unit_delta_def move_variant_def)
qed

lemma move_units_known:
  assumes "move_units ctx ps pds vs vds d = Inr d'" and "distinct (map fst pds)" and "distinct (map fst vds)"
  shows "known_unit d' u = known_unit d u"
  unfolding move_units_Inr(1) [OF assms]
  by (cases u) (simp_all add: known_unit_def get_product_def get_variant_def get_product_move get_variant_move)

lemma move_units_stock_ok:
  assumes "move_units ctx ps pds vs vds d = Inr d'" and "distinct (map fst pds)" and "distinct (map fst vds)"
    and "stock_ok d"
  shows "stock_ok d'"
proof -
  have "product_checks (move_product pds p)" if "p \<in> set (d_products d)" for p
    using move_units_Inr(2) [OF assms(1-3) that] assms(4) that
    by (cases "dict_get pds (p_id p) = 0") (auto simp: move_product_zero stock_ok_def list_all_iff)
  moreover have "variant_checks (move_variant vds v)" if "v \<in> set (d_variants d)" for v
    using move_units_Inr(3) [OF assms(1-3) that] assms(4) that
    by (cases "dict_get vds (v_id v) = 0") (auto simp: move_variant_zero stock_ok_def list_all_iff)
  ultimately show ?thesis
    unfolding move_units_Inr(1) [OF assms(1-3)] using assms(4)
    by (simp add: stock_ok_def list_all_iff comp_def)
qed

section \<open>The ledger explains the stock\<close>

lemma movement_sum_append [simp]: "movement_sum (ms @ ns) u = movement_sum ms u + movement_sum ns u"
  by (cases u) (simp_all add: movement_sum_def)

lemma movement_sum_product_moves:
  "movement_sum (product_moves ctx ds ps) (UnitV i) = 0"
  "distinct (map p_id ps) \<Longrightarrow> p \<in> set ps \<Longrightarrow>
     movement_sum (product_moves ctx ds ps) (UnitP (p_id p)) = dict_get ds (p_id p)"
proof -
  show "movement_sum (product_moves ctx ds ps) (UnitV i) = 0"
    by (induction ps) (auto simp: movement_sum_def product_moves_def stock_ledger_write_def)
next
  have out: "movement_sum (product_moves ctx ds ps) (UnitP k) = 0" if "k \<notin> p_id ` set ps" for k ps
    using that by (induction ps) (auto simp: movement_sum_def product_moves_def stock_ledger_write_def)
  show "movement_sum (product_moves ctx ds ps) (UnitP (p_id p)) = dict_get ds (p_id p)"
    if "distinct (map p_id ps)" "p \<in> set ps" for p
    using that
  proof (induction ps)
    case (Cons a ps)
    have step: "movement_sum (product_moves ctx ds (a # ps)) (UnitP (p_id p))
        = (if p_id a = p_id p then dict_get ds (p_id a) else 0) + movement_sum (product_moves ctx ds ps) (UnitP (p_id p))"
      by (simp add: movement_sum_def product_moves_def stock_ledger_write_def move_product_def)
    show ?case
    proof (cases "p_id a = p_id p")
      case True
      with Cons.prems(1) have "movement_sum (product_moves ctx ds ps) (UnitP (p_id p)) = 0"
        by (intro out) simp
      with step True show ?thesis by simp
    next
      case False
      then have "p \<in> set ps" using Cons.prems(2) by auto
      with Cons False step show ?thesis by simp
    qed
  qed simp
qed

lemma movement_sum_variant_moves:
  "movement_sum (variant_moves ctx ds vs) (UnitP i) = 0"
  "distinct (map v_id vs) \<Longrightarrow> v \<in> set vs \<Longrightarrow>
     movement_sum (variant_moves ctx ds vs) (UnitV (v_id v)) = dict_get ds (v_id v)"
proof -
  show "movement_sum (variant_moves ctx ds vs) (UnitP i) = 0"
    by (induction vs) (auto simp: movement_sum_def variant_moves_def stock_ledger_write_def)
next
  have out: "movement_sum (variant_moves ctx ds vs) (UnitV k) = 0" if "k \<notin> v_id ` set vs" for k vs
    using that by (induction vs) (auto simp: movement_sum_def variant_moves_def stock_ledger_write_def)
  show "movement_sum (variant_moves ctx ds vs) (UnitV (v_id v)) = dict_get ds (v_id v)"
    if "distinct (map v_id vs)" "v \<in> set vs" for v
    using that
  proof (induction vs)
    case (Cons a vs)
    have step: "movement_sum (variant_moves ctx ds (a # vs)) (UnitV (v_id v))
        = (if v_id a = v_id v then dict_get ds (v_id a) else 0) + movement_sum (variant_moves ctx ds vs) (UnitV (v_id v))"
      by (simp add: movement_sum_def variant_moves_def stock_ledger_write_def move_variant_def)
    show ?case
    proof (cases "v_id a = v_id v")
      case True
      with Cons.prems(1) have "movement_sum (variant_moves ctx ds vs) (UnitV (v_id v)) = 0"
        by (intro out) simp
      with step True show ?thesis by simp
    next
      case False
      then have "v \<in> set vs" using Cons.prems(2) by auto
      with Cons False step show ?thesis by simp
    qed
  qed simp
qed

lemma moves_balanced:
  "m \<in> set (product_moves ctx ds ps) \<Longrightarrow> sm_after_qty m = sm_before_qty m + sm_delta m"
  "m \<in> set (variant_moves ctx ds vs) \<Longrightarrow> sm_after_qty m = sm_before_qty m + sm_delta m"
  by (auto simp: product_moves_def variant_moves_def stock_ledger_write_def)

lemma move_units_ledger_ok:
  assumes "move_units ctx ps pds vs vds d = Inr d'" and "distinct (map fst pds)" and "distinct (map fst vds)"
    and "stock_ok d" and "ledger_ok d"
  shows "ledger_ok d'"
proof -
  have dp: "distinct (map p_id (d_products d))" and dv: "distinct (map v_id (d_variants d))"
    using assms(4) by (simp_all add: stock_ok_def)
  have "p_stock (move_product pds p) = movement_sum (d_stock_movements d') (UnitP (p_id p))"
    if "p \<in> set (d_products d)" for p
    using that assms(5) movement_sum_product_moves(2) [OF dp that] movement_sum_variant_moves(1)
    unfolding move_units_Inr(1) [OF assms(1-3)]
    by (simp add: ledger_ok_def list_all_iff move_product_def)
  moreover have "v_stock (move_variant vds v) = movement_sum (d_stock_movements d') (UnitV (v_id v))"
    if "v \<in> set (d_variants d)" for v
    using that assms(5) movement_sum_variant_moves(2) [OF dv that] movement_sum_product_moves(1)
    unfolding move_units_Inr(1) [OF assms(1-3)]
    by (simp add: ledger_ok_def list_all_iff move_variant_def)
  moreover have "sm_after_qty m = sm_before_qty m + sm_delta m" if "m \<in> set (d_stock_movements d')" for m
    using that assms(5) moves_balanced unfolding move_units_Inr(1) [OF assms(1-3)]
    by (auto simp: ledger_ok_def list_all_iff)
  ultimately show ?thesis
    using move_units_Inr(1) [OF assms(1-3)] by (simp add: ledger_ok_def list_all_iff)
qed

section \<open>The contract of a stock store\<close>

locale stock_store =
  fixes stock :: "'d \<Rightarrow> 'u \<Rightarrow> int" and known :: "'d \<Rightarrow> 'u \<Rightarrow> bool" and ok :: "'d \<Rightarrow> bool"
    and move :: "'m \<Rightarrow> 'd \<Rightarrow> ('e, 'd) result" and delta :: "'m \<Rightarrow> 'u \<Rightarrow> int" and valid :: "'m \<Rightarrow> bool"
  assumes move_stock: "valid m \<Longrightarrow> move m d = Inr d' \<Longrightarrow> known d u \<Longrightarrow> stock d' u = stock d u + delta m u"
    and move_known: "valid m \<Longrightarrow> move m d = Inr d' \<Longrightarrow> known d' u = known d u"
    and move_ok: "valid m \<Longrightarrow> move m d = Inr d' \<Longrightarrow> ok d \<Longrightarrow> ok d'"
    and ok_nonneg: "ok d \<Longrightarrow> 0 \<le> stock d u"
begin

text \<open>No accepted movement takes more than there is.\<close>

lemma never_oversold:
  "valid m \<Longrightarrow> move m d = Inr d' \<Longrightarrow> ok d \<Longrightarrow> known d u \<Longrightarrow> - delta m u \<le> stock d u"
  using move_stock [of m d d' u] ok_nonneg [of d' u] move_ok [of m d d'] by linarith

text \<open>Two movements with opposite deltas cancel.\<close>

lemma undone:
  assumes "valid m" "valid n" "move m d = Inr d'" "move n d' = Inr d''" "known d u"
    and "delta n u = - delta m u"
  shows "stock d'' u = stock d u"
  using assms move_stock move_known by fastforce

text \<open>A sequence of accepted movements adds their deltas and keeps the invariant.\<close>

lemma run_stock:
  assumes "rfold move ms d = Inr d'" and "list_all valid ms" and "known d u" and "ok d"
  shows "stock d' u = stock d u + sum_list (map (\<lambda>m. delta m u) ms) \<and> known d' u \<and> ok d'"
  using assms
proof (induction ms arbitrary: d)
  case (Cons m ms)
  from Cons.prems(1) obtain d1 where m: "move m d = Inr d1" and r: "rfold move ms d1 = Inr d'"
    by (auto simp: res_simps)
  have v: "valid m" "list_all valid ms" using Cons.prems(2) by simp_all
  have "known d1 u" "ok d1" "stock d1 u = stock d u + delta m u"
    using move_known [OF v(1) m] move_ok [OF v(1) m] move_stock [OF v(1) m] Cons.prems(3,4) by simp_all
  with Cons.IH [OF r v(2)] show ?case by simp
qed simp

end

type_synonym stock_move = "stock_ctx \<times> product list \<times> (int \<times> int) list \<times> variant list \<times> (int \<times> int) list"

definition run_move :: "stock_move \<Rightarrow> db \<Rightarrow> (shop_error, db) result" where
  "run_move m = (case m of (ctx, ps, pds, vs, vds) \<Rightarrow> move_units ctx ps pds vs vds)"

definition move_delta :: "stock_move \<Rightarrow> sold_unit \<Rightarrow> int" where
  "move_delta m = (case m of (ctx, ps, pds, vs, vds) \<Rightarrow> unit_delta pds vds)"

definition move_valid :: "stock_move \<Rightarrow> bool" where
  "move_valid m = (case m of (ctx, ps, pds, vs, vds) \<Rightarrow> distinct (map fst pds) \<and> distinct (map fst vds))"

lemma stock_ok_nonneg: "stock_ok d \<Longrightarrow> 0 \<le> unit_stock d u"
proof (cases u)
  case (UnitP i)
  assume "stock_ok d"
  with UnitP show ?thesis
    by (auto simp: unit_stock_def p_stock_of_def get_product_def stock_ok_def list_all_iff product_checks_def
        dest!: row_SomeD split: option.splits)
next
  case (UnitV i)
  assume "stock_ok d"
  with UnitV show ?thesis
    by (auto simp: unit_stock_def v_stock_of_def get_variant_def stock_ok_def list_all_iff variant_checks_def
        dest!: row_SomeD split: option.splits)
qed

interpretation shop_stock: stock_store unit_stock known_unit "\<lambda>d. stock_ok d \<and> ledger_ok d"
  run_move move_delta move_valid
proof
  fix m d d' u
  assume m: "move_valid m" "run_move m d = Inr d'"
  obtain ctx ps pds vs vds where eq: "m = (ctx, ps, pds, vs, vds)" by (cases m)
  have *: "move_units ctx ps pds vs vds d = Inr d'" "distinct (map fst pds)" "distinct (map fst vds)"
    using m by (simp_all add: eq run_move_def move_valid_def)
  show "known_unit d u \<Longrightarrow> unit_stock d' u = unit_stock d u + move_delta m u"
    using move_units_unit_stock [OF *] by (simp add: eq move_delta_def)
  show "known_unit d' u = known_unit d u" by (rule move_units_known [OF *])
  show "stock_ok d \<and> ledger_ok d \<Longrightarrow> stock_ok d' \<and> ledger_ok d'"
    using move_units_stock_ok [OF *] move_units_ledger_ok [OF *] by simp
next
  fix d u
  assume "stock_ok d \<and> ledger_ok d"
  then show "0 \<le> unit_stock d u" using stock_ok_nonneg by blast
qed

section \<open>Properties\<close>

text \<open>
  Any sequence of stock movements that the database accepts (sales, restocks) moves the
  stock of every product and variant by exactly the sum of its deltas, never takes a unit below
  zero, and keeps the ledger an exact explanation of the stock: each unit's stock is the sum of its
  ledger rows.
\<close>

theorem stock_moves_exact:
  assumes "rfold run_move ms d = Inr d'" and "list_all move_valid ms" and "known_unit d u"
    and "stock_ok d" and "ledger_ok d"
  shows "unit_stock d' u = unit_stock d u + sum_list (map (\<lambda>m. move_delta m u) ms)
    \<and> 0 \<le> unit_stock d' u \<and> stock_ok d' \<and> ledger_ok d'"
  using shop_stock.run_stock [OF assms(1-3)] shop_stock.ok_nonneg [of d' u] assms(4,5) by blast

text \<open>A database with nothing in it, and one with a simple product and a product of one variant.\<close>

definition empty_db :: db where
  "empty_db = \<lparr>d_next = 100, d_products = [], d_variants = [], d_options = [], d_option_values = [],
     d_stock_movements = [], d_carts = [], d_cart_items = [], d_coupons = [], d_addresses = [],
     d_orders = [], d_order_items = [], d_order_history = [], d_restocks = [], d_payments = [],
     d_refunds = [], d_reconciliations = [], d_disputes = [], d_processed_events = [],
     d_deferred_events = [], d_invoices = [], d_invoice_sequences = [], d_shipments = [], d_returns = [], d_jobs = [],
     d_audit = [], d_store_currency = None,
     d_tax = \<lparr>tm_classifications = [], tm_rules = [], tm_registrations = [], tm_settings = []\<rparr>,
     d_business_profile = None, d_users = []\<rparr>"

definition sample_product :: "int \<Rightarrow> int \<Rightarrow> int \<Rightarrow> int \<Rightarrow> product" where
  "sample_product i price stock options =
     \<lparr>p_id = i, p_name = ''shirt'', p_sku = ''S'', p_price_cents = price, p_stock = stock, p_status = Active,
      p_tax_classification_id = None, p_option_count = options\<rparr>"

definition sample_variant :: "int \<Rightarrow> int \<Rightarrow> int \<Rightarrow> variant" where
  "sample_variant i pid stock =
     \<lparr>v_id = i, v_product_id = pid, v_option_count = 1, v_value1_id = Some 1, v_value2_id = None,
      v_value3_id = None, v_sku = ''V'', v_price_override_cents = Some 700, v_stock = stock, v_status = ''active''\<rparr>"

definition opening_row :: "int \<Rightarrow> int option \<Rightarrow> int \<Rightarrow> stock_movement" where
  "opening_row pid vid q =
     \<lparr>sm_kind = ''opening'', sm_product_id = pid, sm_variant_id = vid, sm_delta = q, sm_before_qty = 0,
      sm_after_qty = q, sm_actor_user_id = None, sm_reason = None, sm_order_id = None\<rparr>"

definition sample_shop :: db where
  "sample_shop = empty_db\<lparr>
     d_products := [sample_product 1 500 10 0, sample_product 2 600 0 1],
     d_variants := [sample_variant 5 2 4],
     d_stock_movements := [opening_row 1 None 10, opening_row 2 (Some 5) 4]\<rparr>"

definition sale_ctx :: stock_ctx where
  "sale_ctx = \<lparr>sx_kind = ''sale'', sx_actor_user_id = None, sx_reason = None, sx_order_id = Some 9\<rparr>"

lemma sample_shop_ok: "stock_ok sample_shop" "ledger_ok sample_shop" "known_unit sample_shop (UnitP 1)"
  "known_unit sample_shop (UnitV 5)"
  by (simp_all add: stock_ok_def ledger_ok_def sample_shop_def empty_db_def product_checks_def variant_checks_def
      sample_product_def sample_variant_def opening_row_def movement_sum_def known_unit_def get_product_def get_variant_def)

theorem stock_moves_exact_witness:
  "\<exists>d'. rfold run_move [(sale_ctx, d_products sample_shop, [(1, - 3)], d_variants sample_shop, [(5, - 4)])] sample_shop = Inr d'
      \<and> unit_stock d' (UnitP 1) = 7 \<and> ledger_ok d'"
proof -
  let ?m = "(sale_ctx, d_products sample_shop, [(1, - 3)], d_variants sample_shop, [(5, - 4)]) :: stock_move"
  have "case rfold run_move [?m] sample_shop of Inl _ \<Rightarrow> False | Inr _ \<Rightarrow> True" by code_simp
  then obtain d' where d': "rfold run_move [?m] sample_shop = Inr d'" by (auto split: sum.splits)
  have v: "list_all move_valid [?m]" by (simp add: move_valid_def)
  have "unit_stock sample_shop (UnitP 1) = 10" "move_delta ?m (UnitP 1) = - 3" by code_simp+
  with stock_moves_exact [OF d' v sample_shop_ok(3,1,2)] d' show ?thesis by auto
qed

lemma RANK_availability: "RANK (availability s t) = 0 \<longleftrightarrow> s \<le> 0"
  by (simp add: RANK_def availability_def)

lemma RANK_bounds: "0 \<le> RANK a \<and> (RANK a = 0 \<longleftrightarrow> a = ''out_of_stock'')"
  by (simp add: RANK_def)

lemma fold_best:
  "RANK (foldl (\<lambda>m b. if RANK m < RANK b then b else m) a bs) = 0 \<longleftrightarrow> (\<forall>x \<in> set (a # bs). RANK x = 0)"
proof (induction bs arbitrary: a)
  case (Cons b bs)
  have "RANK (if RANK a < RANK b then b else a) = 0 \<longleftrightarrow> RANK a = 0 \<and> RANK b = 0"
    using RANK_bounds [of a] RANK_bounds [of b] by (auto split: if_splits)
  with Cons [of "if RANK a < RANK b then b else a"] show ?case by auto
qed simp

lemma best_availability_out:
  "best_availability as = ''out_of_stock'' \<longleftrightarrow> (\<forall>a \<in> set as. a = ''out_of_stock'')"
proof (cases as)
  case (Cons a bs)
  have rank: "x = ''out_of_stock'' \<longleftrightarrow> RANK x = 0" for x using RANK_bounds [of x] by simp
  show ?thesis unfolding Cons rank using fold_best [of a bs] by (simp add: best_availability_def)
qed (simp add: best_availability_def)

text \<open>
  What a shopper sees is true: a product is shown as available exactly when a unit can be
  bought (its own stock, or that of some active variant), the price range contains the effective
  price of every active variant and is attained, and exact stock is shown only to administrators or
  under the \<open>exact\<close> setting.
\<close>

theorem view_fields_truthful:
  "(pv_available (view_fields p vs adm thr vis) \<longleftrightarrow>
      (if p_option_count p = 0 then 0 < p_stock p
       else (\<exists>v. v \<in> set vs \<and> v_status v = ''active'' \<and> 0 < v_stock v)))
   \<and> (p_option_count p \<noteq> 0 \<and> v \<in> set vs \<and> v_status v = ''active'' \<longrightarrow>
        pv_price_from_cents (view_fields p vs adm thr vis) \<le> effective_price v (p_price_cents p)
        \<and> effective_price v (p_price_cents p) \<le> pv_price_to_cents (view_fields p vs adm thr vis))
   \<and> (pv_stock (view_fields p vs adm thr vis) \<noteq> None \<longleftrightarrow> adm \<or> vis = ''exact'')"
proof (intro conjI impI)
  have out: "availability s thr = ''out_of_stock'' \<longleftrightarrow> s \<le> 0" for s by (simp add: availability_def)
  show "pv_available (view_fields p vs adm thr vis) \<longleftrightarrow>
      (if p_option_count p = 0 then 0 < p_stock p
       else (\<exists>v. v \<in> set vs \<and> v_status v = ''active'' \<and> 0 < v_stock v))"
    by (auto simp: view_fields_def Let_def best_availability_out out not_le)
next
  assume v: "p_option_count p \<noteq> 0 \<and> v \<in> set vs \<and> v_status v = ''active''"
  let ?ps = "map (\<lambda>v. effective_price v (p_price_cents p)) (filter (\<lambda>v. v_status v = ''active'') vs)"
  have mem: "effective_price v (p_price_cents p) \<in> set ?ps" using v by auto
  have ne: "(case ?ps of [] \<Rightarrow> [p_price_cents p] | q # qs \<Rightarrow> q # qs) = ?ps"
    using mem by (cases ?ps) auto
  have "pv_price_from_cents (view_fields p vs adm thr vis) = Min (set ?ps)"
    "pv_price_to_cents (view_fields p vs adm thr vis) = Max (set ?ps)"
    unfolding view_fields_def Let_def ne using v by simp_all
  with mem show "pv_price_from_cents (view_fields p vs adm thr vis) \<le> effective_price v (p_price_cents p)"
    and "effective_price v (p_price_cents p) \<le> pv_price_to_cents (view_fields p vs adm thr vis)"
    by simp_all
next
  show "pv_stock (view_fields p vs adm thr vis) \<noteq> None \<longleftrightarrow> adm \<or> vis = ''exact''"
    by (simp add: view_fields_def Let_def)
qed

theorem view_fields_truthful_witness:
  "pv_price_from_cents (view_fields (sample_product 2 600 0 1) [sample_variant 5 2 4] False 3 ''hidden'') \<le> 700
   \<and> pv_available (view_fields (sample_product 2 600 0 1) [sample_variant 5 2 4] False 3 ''hidden'')"
  using view_fields_truthful [of "sample_product 2 600 0 1" "[sample_variant 5 2 4]" False 3 "''hidden''" "sample_variant 5 2 4"]
  by (simp add: sample_product_def sample_variant_def effective_price_def)

end
