(* ===== verification/Coupons.thy ===== *)
theory Coupons
  imports Catalog
begin

text \<open>
  \<open>modules/coupons\<close>: the discount arithmetic (\<open>discount.py\<close>), when a coupon applies
  (\<open>coupon_service.py\<close>) and the administrator's operations. The number of uses is counted from the
  orders that are still alive. The shares of a discount come from the allocation of the GST
  calculation, so their exactness is the contract \<open>exact_split\<close>.
\<close>

section \<open>Discount arithmetic\<close>

record discount =
  ds_goods_cents :: int
  ds_shipping_cents :: int

definition no_discount :: discount where
  "no_discount = \<lparr>ds_goods_cents = 0, ds_shipping_cents = 0\<rparr>"

definition compute_discount ::
  "string \<Rightarrow> rat option \<Rightarrow> int option \<Rightarrow> int option \<Rightarrow> int \<Rightarrow> int \<Rightarrow> (shop_error, discount) result" where
  "compute_discount kind percent_off amount_off max_discount subtotal shipping =
     (if kind = ''percentage''
      then (case percent_off of
              None \<Rightarrow> Inl TypeError
            | Some pct \<Rightarrow>
                let raw = round_half_up (dec_div (dec_mul (of_int subtotal) pct) 100);
                    capped = (case max_discount of None \<Rightarrow> raw | Some m \<Rightarrow> min raw m)
                in Inr \<lparr>ds_goods_cents = min capped subtotal, ds_shipping_cents = 0\<rparr>)
      else if kind = ''fixed''
      then (case amount_off of
              None \<Rightarrow> Inl TypeError
            | Some a \<Rightarrow> Inr \<lparr>ds_goods_cents = min a subtotal, ds_shipping_cents = 0\<rparr>)
      else if kind = ''free_shipping''
      then Inr \<lparr>ds_goods_cents = 0, ds_shipping_cents = shipping\<rparr>
      else Inl ValueError)"

definition share_discount :: "int \<Rightarrow> int list \<Rightarrow> int list" where
  "share_discount discount_cents line_values = allocate discount_cents line_values"

section \<open>Finding and evaluating a coupon\<close>

definition ALIVE :: "order_status list" where
  "ALIVE = [PENDING, PAID, FULFILLED]"

definition normalise_code :: "string \<Rightarrow> string" where
  "normalise_code code = str_upper (str_strip code)"

definition find_by_code :: "string \<Rightarrow> db \<Rightarrow> coupon option" where
  "find_by_code code d = row cp_code (normalise_code code) (d_coupons d)"

definition uses :: "int \<Rightarrow> int option \<Rightarrow> string option \<Rightarrow> db \<Rightarrow> int" where
  "uses coupon_id user_id guest_email d =
     int (length (filter (\<lambda>ord.
        o_coupon_id ord = Some coupon_id \<and> o_status ord \<in> set ALIVE
        \<and> (case user_id of
             Some u \<Rightarrow> o_user_id ord = Some u
           | None \<Rightarrow> (case guest_email of
                        Some e \<Rightarrow> map_option str_lower (o_guest_email ord) = Some (str_lower e)
                      | None \<Rightarrow> True))) (d_orders d)))"

definition before_start :: "coupon \<Rightarrow> int \<Rightarrow> bool" where
  "before_start c now = (case cp_starts_at c of None \<Rightarrow> False | Some s \<Rightarrow> now < s)"

definition after_end :: "coupon \<Rightarrow> int \<Rightarrow> bool" where
  "after_end c now = (case cp_ends_at c of None \<Rightarrow> False | Some e \<Rightarrow> e \<le> now)"

definition status_of :: "coupon \<Rightarrow> int \<Rightarrow> int \<Rightarrow> string" where
  "status_of c used now =
     (if \<not> cp_active c then ''disabled''
      else if before_start c now then ''scheduled''
      else if after_end c now then ''expired''
      else if (case cp_max_uses_total c of None \<Rightarrow> False | Some m \<Rightarrow> m \<le> used) then ''exhausted''
      else ''active'')"

definition evaluate ::
  "coupon option \<Rightarrow> int \<Rightarrow> int \<Rightarrow> int option \<Rightarrow> string option \<Rightarrow> int \<Rightarrow> db \<Rightarrow> (shop_error, discount) result" where
  "evaluate coupon subtotal shipping user_id guest_email now d =
     (case coupon of
        None \<Rightarrow> Inl CouponInvalid
      | Some c \<Rightarrow>
          if \<not> cp_active c \<or> before_start c now \<or> after_end c now then Inl CouponInvalid
          else if subtotal < cp_min_subtotal_cents c
          then Inl (CouponMinimumNotMet (cp_min_subtotal_cents c))
          else if (case cp_max_uses_total c of None \<Rightarrow> False | Some m \<Rightarrow> m \<le> uses (cp_id c) None None d)
          then Inl CouponLimitReached
          else if (case cp_max_uses_per_customer c of
                     None \<Rightarrow> False
                   | Some m \<Rightarrow> (user_id \<noteq> None \<or> guest_email \<notin> {None, Some ''''})
                       \<and> m \<le> uses (cp_id c) user_id guest_email d)
          then Inl CouponLimitReached
          else
            rbind (compute_discount (cp_kind c) (cp_percent_off c) (cp_amount_off_cents c)
                     (cp_max_discount_cents c) subtotal shipping) (\<lambda>disc.
            if cp_kind c = ''free_shipping'' \<and> ds_shipping_cents disc = 0 then Inl CouponNotApplicable
            else if cp_kind c \<noteq> ''free_shipping'' \<and> ds_goods_cents disc = 0 then Inl CouponNotApplicable
            else Inr disc))"

definition snapshot_of :: "coupon \<Rightarrow> discount \<Rightarrow> coupon_snapshot" where
  "snapshot_of c disc =
     \<lparr>cs_coupon = c, cs_goods_discount_cents = ds_goods_cents disc,
      cs_shipping_discount_cents = ds_shipping_cents disc\<rparr>"

section \<open>Administration\<close>

definition valid_code :: "string \<Rightarrow> bool" where
  "valid_code s =
     (let alnum = (\<lambda>c. let n = char_code c in 65 \<le> n \<and> n \<le> 90 \<or> 48 \<le> n \<and> n \<le> 57) in
      3 \<le> length s \<and> length s \<le> 32 \<and> alnum (hd s)
      \<and> list_all (\<lambda>c. alnum c \<or> c = CHR ''_'' \<or> c = CHR ''-'') (tl s))"

text \<open>The CHECK constraints of the table.\<close>

definition value_check :: "string \<Rightarrow> rat option \<Rightarrow> int option \<Rightarrow> int option \<Rightarrow> bool" where
  "value_check kind pct amount cap \<longleftrightarrow>
     (kind = ''percentage'' \<and> (case pct of None \<Rightarrow> False | Some x \<Rightarrow> 1 / 100 \<le> x \<and> x \<le> 100) \<and> amount = None)
     \<or> (kind = ''fixed'' \<and> (case amount of None \<Rightarrow> False | Some a \<Rightarrow> 0 < a) \<and> pct = None \<and> cap = None)
     \<or> (kind = ''free_shipping'' \<and> pct = None \<and> amount = None \<and> cap = None)"

definition positive_or_null :: "int option \<Rightarrow> bool" where
  "positive_or_null x = (case x of None \<Rightarrow> True | Some n \<Rightarrow> 0 < n)"

definition coupon_checks :: "coupon \<Rightarrow> bool" where
  "coupon_checks c \<longleftrightarrow> valid_code (cp_code c)
     \<and> value_check (cp_kind c) (cp_percent_off c) (cp_amount_off_cents c) (cp_max_discount_cents c)
     \<and> positive_or_null (cp_max_discount_cents c) \<and> 0 \<le> cp_min_subtotal_cents c
     \<and> (case (cp_starts_at c, cp_ends_at c) of (Some s, Some e) \<Rightarrow> s < e | _ \<Rightarrow> True)
     \<and> positive_or_null (cp_max_uses_total c) \<and> positive_or_null (cp_max_uses_per_customer c)"

text \<open>\<open>validate_value_fields\<close> of the schema: an unknown kind falls into the last branch.\<close>

definition validate_value_fields :: "string option \<Rightarrow> rat option \<Rightarrow> int option \<Rightarrow> int option \<Rightarrow> bool" where
  "validate_value_fields kind pct amount cap =
     (if kind = Some ''percentage''
      then amount = None \<and> (case pct of None \<Rightarrow> False | Some x \<Rightarrow> 1 / 100 \<le> x \<and> x \<le> 100)
      else if kind = Some ''fixed''
      then (case amount of None \<Rightarrow> False | Some a \<Rightarrow> 0 < a) \<and> pct = None \<and> cap = None
      else pct = None \<and> amount = None \<and> cap = None)"

definition ever_used :: "int \<Rightarrow> db \<Rightarrow> bool" where
  "ever_used coupon_id d = list_ex (\<lambda>ord. o_coupon_id ord = Some coupon_id) (d_orders d)"

text \<open>The flush of an inserted or changed coupon row: NOT NULL and CHECK constraints, unique code.\<close>

definition coupon_create :: "coupon \<Rightarrow> int \<Rightarrow> db \<Rightarrow> (shop_error, coupon \<times> db) result" where
  "coupon_create payload admin d =
     (let (i, d1) = fresh d;
          c = payload\<lparr>cp_id := i, cp_code := normalise_code (cp_code payload)\<rparr>
      in if \<not> coupon_checks c then Inl (IntegrityError ''ck_coupons'')
         else if row cp_code (cp_code c) (d_coupons d1) \<noteq> None then Inl CouponCodeExists
         else Inr (c, audit_log (Some admin) ''coupon.created'' ''coupon'' [KI i]
                        (d1\<lparr>d_coupons := d_coupons d1 @ [c]\<rparr>)))"

text \<open>A PATCH body: \<open>None\<close> is a field that was not sent, \<open>Some None\<close> an explicit null.\<close>

record coupon_update =
  cu_name :: "string option option"
  cu_kind :: "string option option"
  cu_percent_off :: "rat option option"
  cu_amount_off_cents :: "int option option"
  cu_max_discount_cents :: "int option option"
  cu_min_subtotal_cents :: "int option option"
  cu_starts_at :: "int option option"
  cu_ends_at :: "int option option"
  cu_max_uses_total :: "int option option"
  cu_max_uses_per_customer :: "int option option"
  cu_active :: "bool option option"

definition merge :: "'a option option \<Rightarrow> 'a option \<Rightarrow> 'a option" where
  "merge sent old = (case sent of None \<Rightarrow> old | Some v \<Rightarrow> v)"

definition touches_value :: "coupon_update \<Rightarrow> bool" where
  "touches_value u \<longleftrightarrow> cu_kind u \<noteq> None \<or> cu_percent_off u \<noteq> None \<or> cu_amount_off_cents u \<noteq> None
     \<or> cu_max_discount_cents u \<noteq> None"

text \<open>The row as it would be flushed; \<open>None\<close> when a NOT NULL column was set to null.\<close>

definition apply_update :: "coupon_update \<Rightarrow> coupon \<Rightarrow> coupon option" where
  "apply_update u c =
     (case (merge (cu_name u) (Some (cp_name c)), merge (cu_kind u) (Some (cp_kind c)),
            merge (cu_min_subtotal_cents u) (Some (cp_min_subtotal_cents c)),
            merge (cu_active u) (Some (cp_active c))) of
        (Some name, Some kind, Some minimum, Some active) \<Rightarrow>
          Some (c\<lparr>cp_name := name, cp_kind := kind,
                  cp_percent_off := merge (cu_percent_off u) (cp_percent_off c),
                  cp_amount_off_cents := merge (cu_amount_off_cents u) (cp_amount_off_cents c),
                  cp_max_discount_cents := merge (cu_max_discount_cents u) (cp_max_discount_cents c),
                  cp_min_subtotal_cents := minimum,
                  cp_starts_at := merge (cu_starts_at u) (cp_starts_at c),
                  cp_ends_at := merge (cu_ends_at u) (cp_ends_at c),
                  cp_max_uses_total := merge (cu_max_uses_total u) (cp_max_uses_total c),
                  cp_max_uses_per_customer := merge (cu_max_uses_per_customer u) (cp_max_uses_per_customer c),
                  cp_active := active\<rparr>)
      | _ \<Rightarrow> None)"

definition coupon_update_op :: "int \<Rightarrow> coupon_update \<Rightarrow> int \<Rightarrow> db \<Rightarrow> (shop_error, coupon \<times> db) result" where
  "coupon_update_op coupon_id u admin d =
     (case row cp_id coupon_id (d_coupons d) of
        None \<Rightarrow> Inl CouponNotFound
      | Some c \<Rightarrow>
          if touches_value u \<and> ever_used coupon_id d then Inl CouponInUse
          else if \<not> validate_value_fields (merge (cu_kind u) (Some (cp_kind c)))
                 (merge (cu_percent_off u) (cp_percent_off c))
                 (merge (cu_amount_off_cents u) (cp_amount_off_cents c))
                 (merge (cu_max_discount_cents u) (cp_max_discount_cents c))
          then Inl CouponSettingsInvalid
          else (case apply_update u c of
                  None \<Rightarrow> Inl CouponSettingsInvalid
                | Some c' \<Rightarrow>
                    if \<not> coupon_checks c' then Inl CouponSettingsInvalid
                    else Inr (c', audit_log (Some admin) ''coupon.updated'' ''coupon'' [KI coupon_id]
                                    (d\<lparr>d_coupons := set_row cp_id c' (d_coupons d)\<rparr>))))"

definition coupon_delete :: "int \<Rightarrow> int \<Rightarrow> db \<Rightarrow> (shop_error, db) result" where
  "coupon_delete coupon_id admin d =
     (case row cp_id coupon_id (d_coupons d) of
        None \<Rightarrow> Inl CouponNotFound
      | Some c \<Rightarrow>
          if ever_used coupon_id d then Inl CouponInUse
          else Inr (audit_log (Some admin) ''coupon.deleted'' ''coupon'' [KI coupon_id]
                      (d\<lparr>d_coupons := filter (\<lambda>x. cp_id x \<noteq> coupon_id) (d_coupons d)\<rparr>)))"

definition coupon_get :: "int \<Rightarrow> db \<Rightarrow> (shop_error, coupon \<times> int) result" where
  "coupon_get coupon_id d =
     (case row cp_id coupon_id (d_coupons d) of
        None \<Rightarrow> Inl CouponNotFound
      | Some c \<Rightarrow> Inr (c, uses coupon_id None None d))"

definition redemptions :: "int \<Rightarrow> nat \<Rightarrow> nat \<Rightarrow> db \<Rightarrow> (shop_error, int \<times> order list) result" where
  "redemptions coupon_id offset limit d =
     (case row cp_id coupon_id (d_coupons d) of
        None \<Rightarrow> Inl CouponNotFound
      | Some c \<Rightarrow>
          let rows = filter (\<lambda>ord. o_coupon_id ord = Some coupon_id) (d_orders d)
          in Inr (int (length rows), take limit (drop offset (rev rows))))"

section \<open>Lemmas\<close>

text \<open>A percentage as the column holds it: two decimals.\<close>

definition percent_ok :: "coupon \<Rightarrow> bool" where
  "percent_ok c = (case cp_percent_off c of None \<Rightarrow> True | Some x \<Rightarrow> x * 100 \<in> \<int>)"

lemma percentage_exact:
  assumes "x * 100 \<in> \<int>" and "0 \<le> x" "x \<le> 100" and "0 \<le> s" and "int32 s"
  shows "dec_div (dec_mul (of_int s) x) 100 = of_int s * x / 100"
proof -
  obtain n where n: "x * 100 = of_int n" using assms(1) by (auto elim: Ints_cases)
  have "0 \<le> rat_of_int n" "rat_of_int n \<le> of_int 10000" using assms(2,3) by (auto simp flip: n)
  then have nb: "0 \<le> n" "n \<le> 10000" by linarith+
  have "s \<le> 2 ^ 31" using assms(5) by (simp add: int32_def)
  then have "s * n \<le> 2 ^ 31 * 10000" using assms(4) nb by (intro mult_mono) auto
  then have "\<bar>s * n\<bar> \<le> 2 ^ 31 * 10000" using assms(4) nb by (simp add: abs_mult)
  then have b: "\<bar>s * n\<bar> < 10 ^ 28" by simp
  have m: "of_int s * x * 10 ^ 2 = of_int (s * n)" using n by (simp add: mult.assoc)
  have 1: "dec_mul (of_int s) x = of_int s * x"
    unfolding dec_mul_def by (rule dec_ctx_exact [OF m b])
  have m2: "of_int s * x / 100 * 10 ^ 4 = of_int (s * n)" using m by (simp add: mult.commute mult.left_commute)
  show ?thesis unfolding 1 dec_div_def by (rule dec_ctx_exact [OF m2 b])
qed

lemma compute_discount_bounds:
  assumes "value_check kind pct amount cap" and "positive_or_null cap" and "0 \<le> subtotal" and "0 \<le> shipping"
  obtains disc where "compute_discount kind pct amount cap subtotal shipping = Inr disc"
    "0 \<le> ds_goods_cents disc" "ds_goods_cents disc \<le> subtotal"
    "0 \<le> ds_shipping_cents disc" "ds_shipping_cents disc \<le> shipping"
    "case cap of None \<Rightarrow> True | Some m \<Rightarrow> ds_goods_cents disc \<le> m"
    "ds_goods_cents disc = 0 \<or> ds_shipping_cents disc = 0"
    "kind = ''free_shipping'' \<longleftrightarrow> kind \<noteq> ''percentage'' \<and> kind \<noteq> ''fixed''"
proof -
  consider (pct) x where "kind = ''percentage''" "pct = Some x" "0 \<le> x"
    | (fixed) a where "kind = ''fixed''" "amount = Some a" "0 < a" "cap = None"
    | (free) "kind = ''free_shipping''" "cap = None"
    using assms(1) by (auto simp: value_check_def split: option.splits)
  then show ?thesis
  proof cases
    case pct
    have "0 \<le> round_half_up (dec_div (dec_mul (of_int subtotal) x) 100)"
      unfolding dec_div_def dec_mul_def using assms(3) pct(3)
      by (intro round_half_up_nonneg dec_ctx_nonneg divide_nonneg_nonneg mult_nonneg_nonneg) simp_all
    with pct assms(2-4) show ?thesis
      by (intro that) (auto simp: compute_discount_def Let_def positive_or_null_def split: option.splits)
  next
    case fixed
    with assms(3,4) show ?thesis by (intro that) (auto simp: compute_discount_def)
  next
    case free
    with assms(3,4) show ?thesis by (intro that) (auto simp: compute_discount_def)
  qed
qed

lemma evaluate_Inr:
  assumes "evaluate coupon subtotal shipping user email now d = Inr disc"
  obtains c where "coupon = Some c" "cp_active c" "\<not> before_start c now" "\<not> after_end c now"
    "cp_min_subtotal_cents c \<le> subtotal"
    "case cp_max_uses_total c of None \<Rightarrow> True | Some m \<Rightarrow> uses (cp_id c) None None d < m"
    "case cp_max_uses_per_customer c of None \<Rightarrow> True
       | Some m \<Rightarrow> (user = None \<and> email \<in> {None, Some ''''}) \<or> uses (cp_id c) user email d < m"
    "compute_discount (cp_kind c) (cp_percent_off c) (cp_amount_off_cents c) (cp_max_discount_cents c)
       subtotal shipping = Inr disc"
    "if cp_kind c = ''free_shipping'' then ds_shipping_cents disc \<noteq> 0 else ds_goods_cents disc \<noteq> 0"
proof -
  from assms obtain c where c: "coupon = Some c" by (auto simp: evaluate_def split: option.splits)
  show ?thesis
  proof (rule that [OF c])
    show "case cp_max_uses_total c of None \<Rightarrow> True | Some m \<Rightarrow> uses (cp_id c) None None d < m"
      using assms c by (auto simp: evaluate_def split: option.splits if_splits)
    show "case cp_max_uses_per_customer c of None \<Rightarrow> True
       | Some m \<Rightarrow> (user = None \<and> email \<in> {None, Some ''''}) \<or> uses (cp_id c) user email d < m"
      using assms c by (auto simp: evaluate_def split: option.splits if_splits)
  qed (use assms c in \<open>auto simp: evaluate_def res_simps split: option.splits if_splits\<close>)
qed

text \<open>The shares of a discount over the lines, by the contract of the allocation.\<close>

definition shares_ok :: "int \<Rightarrow> int list \<Rightarrow> bool" where
  "shares_ok amount values \<longleftrightarrow> 0 \<le> amount \<and> amount \<le> sum_list values \<and> list_all (\<lambda>v. 0 \<le> v) values
     \<and> int32 (sum_list values)"

lemma shares_ok_alloc: "shares_ok a vs \<Longrightarrow> alloc_ok a vs"
proof -
  assume s: "shares_ok a vs"
  have "sum_list vs \<le> 2 ^ 32" using s by (auto simp: shares_ok_def int32_def)
  moreover have "0 \<le> sum_list vs" using s by (auto simp: shares_ok_def)
  ultimately have "a * sum_list vs < 10 ^ 27"
    using s by (intro int32_product_bound) (auto simp: shares_ok_def)
  then show ?thesis using s by (auto simp: shares_ok_def alloc_ok_def)
qed

lemma share_discount_exact:
  assumes "shares_ok a vs"
  shows "sum_list (share_discount a vs) = a" and "length (share_discount a vs) = length vs"
    and "i < length vs \<Longrightarrow> 0 \<le> share_discount a vs ! i \<and> share_discount a vs ! i \<le> vs ! i"
  using alloc.split_sum [OF shares_ok_alloc [OF assms]] alloc.split_length [of a vs]
    alloc.split_nonneg [OF shares_ok_alloc [OF assms]] alloc.split_le [OF shares_ok_alloc [OF assms]] assms
  by (auto simp: share_discount_def shares_ok_def)

lemma validate_value_check:
  "value_check k p a m \<Longrightarrow> validate_value_fields (Some k) p a m"
  by (auto simp: value_check_def validate_value_fields_def)

section \<open>Properties\<close>

text \<open>
  Claim C40. A coupon that is accepted takes off at most what the goods cost and never a negative
  amount, respects its cap, waives at most the shipping charge and never discounts goods and
  shipping at once, was active with uses to spare; and for any line values that add up to the
  subtotal, its shares over the lines add up to it exactly, each between zero and the line's value.
\<close>

theorem accepted_coupon_bounded:
  assumes "evaluate (Some c) subtotal shipping user email now d = Inr disc" and "coupon_checks c"
    and "0 \<le> shipping" and "list_all (\<lambda>v. 0 \<le> v) values" and "sum_list values = subtotal" and "int32 subtotal"
  shows "0 \<le> ds_goods_cents disc \<and> ds_goods_cents disc \<le> subtotal
    \<and> 0 \<le> ds_shipping_cents disc \<and> ds_shipping_cents disc \<le> shipping
    \<and> (ds_goods_cents disc = 0 \<or> ds_shipping_cents disc = 0)
    \<and> (\<forall>m. cp_max_discount_cents c = Some m \<longrightarrow> ds_goods_cents disc \<le> m)
    \<and> status_of c (uses (cp_id c) None None d) now = ''active''
    \<and> sum_list (share_discount (ds_goods_cents disc) values) = ds_goods_cents disc
    \<and> (\<forall>i < length values. 0 \<le> share_discount (ds_goods_cents disc) values ! i
         \<and> share_discount (ds_goods_cents disc) values ! i \<le> values ! i)"
proof -
  have sub: "0 \<le> subtotal" using assms(4,5) by (auto simp: list_all_iff intro: sum_list_nonneg_int)
  from assms(1) show ?thesis
  proof (rule evaluate_Inr)
    fix c'
    assume c': "Some c = Some c'" "cp_active c'" "\<not> before_start c' now" "\<not> after_end c' now"
      "case cp_max_uses_total c' of None \<Rightarrow> True | Some m \<Rightarrow> uses (cp_id c') None None d < m"
      "compute_discount (cp_kind c') (cp_percent_off c') (cp_amount_off_cents c') (cp_max_discount_cents c')
         subtotal shipping = Inr disc"
    have vc: "value_check (cp_kind c) (cp_percent_off c) (cp_amount_off_cents c) (cp_max_discount_cents c)"
      "positive_or_null (cp_max_discount_cents c)"
      using assms(2) by (simp_all add: coupon_checks_def)
    have b: "0 \<le> ds_goods_cents disc" "ds_goods_cents disc \<le> subtotal"
      "0 \<le> ds_shipping_cents disc" "ds_shipping_cents disc \<le> shipping"
      "case cp_max_discount_cents c of None \<Rightarrow> True | Some m \<Rightarrow> ds_goods_cents disc \<le> m"
      "ds_goods_cents disc = 0 \<or> ds_shipping_cents disc = 0"
      using compute_discount_bounds [OF vc sub assms(3)] c'(1,6) by (metis Inr_inject option.inject)+
    have "status_of c (uses (cp_id c) None None d) now = ''active''"
      using c' by (auto simp: status_of_def split: option.splits)
    moreover have "shares_ok (ds_goods_cents disc) values"
      using b(1,2) assms(4-6) by (simp add: shares_ok_def)
    ultimately show ?thesis using b share_discount_exact by auto
  qed
qed

definition sample_coupon :: coupon where
  "sample_coupon =
     \<lparr>cp_id = 3, cp_code = ''SAVE10'', cp_name = ''ten'', cp_kind = ''fixed'', cp_percent_off = None,
      cp_amount_off_cents = Some 100, cp_max_discount_cents = None, cp_min_subtotal_cents = 500,
      cp_starts_at = None, cp_ends_at = Some 90, cp_max_uses_total = Some 1,
      cp_max_uses_per_customer = Some 1, cp_active = True\<rparr>"

lemma sample_coupon_checks: "coupon_checks sample_coupon"
  by code_simp

theorem accepted_coupon_bounded_witness:
  "\<exists>disc. evaluate (Some sample_coupon) 999 50 (Some 7) None 10 empty_db = Inr disc
     \<and> sum_list (share_discount (ds_goods_cents disc) [333, 666]) = ds_goods_cents disc"
proof -
  have "case evaluate (Some sample_coupon) 999 50 (Some 7) None 10 empty_db of Inl _ \<Rightarrow> False | Inr _ \<Rightarrow> True"
    by code_simp
  then obtain disc where e: "evaluate (Some sample_coupon) 999 50 (Some 7) None 10 empty_db = Inr disc"
    by (auto split: sum.splits)
  from accepted_coupon_bounded [OF e sample_coupon_checks, of "[333, 666]"] e show ?thesis
    by (simp add: int32_def)
qed

text \<open>
  Once any order carries a coupon, what the coupon gives can no longer change: a deletion
  is refused, and an update that is accepted leaves kind, percentage, amount and cap as they were
  (and the row valid). Updates never touch another coupon.
\<close>

theorem used_coupon_terms_frozen:
  assumes "row cp_id i (d_coupons d) = Some c" and "ever_used i d"
  shows "coupon_delete i admin d = Inl CouponInUse
    \<and> (\<forall>u c' d'. coupon_update_op i u admin d = Inr (c', d') \<longrightarrow>
         cp_kind c' = cp_kind c \<and> cp_percent_off c' = cp_percent_off c
         \<and> cp_amount_off_cents c' = cp_amount_off_cents c \<and> cp_max_discount_cents c' = cp_max_discount_cents c
         \<and> coupon_checks c' \<and> row cp_id i (d_coupons d') = Some c'
         \<and> (\<forall>j. j \<noteq> i \<longrightarrow> row cp_id j (d_coupons d') = row cp_id j (d_coupons d)))"
proof (intro conjI allI impI)
  show "coupon_delete i admin d = Inl CouponInUse" using assms by (simp add: coupon_delete_def)
next
  fix u c' d'
  assume upd: "coupon_update_op i u admin d = Inr (c', d')"
  have t: "\<not> touches_value u" and ap: "apply_update u c = Some c'" and ck: "coupon_checks c'"
    and d': "d_coupons d' = set_row cp_id c' (d_coupons d)"
    using upd assms by (auto simp: coupon_update_op_def split: if_splits option.splits)
  have ci: "cp_id c' = i"
    using ap row_SomeD [OF assms(1)] by (auto simp: apply_update_def split: option.splits)
  have same: "cp_kind c' = cp_kind c \<and> cp_percent_off c' = cp_percent_off c
      \<and> cp_amount_off_cents c' = cp_amount_off_cents c \<and> cp_max_discount_cents c' = cp_max_discount_cents c"
    using t ap by (auto simp: apply_update_def touches_value_def merge_def split: option.splits)
  then show "cp_kind c' = cp_kind c" "cp_percent_off c' = cp_percent_off c"
    "cp_amount_off_cents c' = cp_amount_off_cents c" "cp_max_discount_cents c' = cp_max_discount_cents c"
    by blast+
  show "coupon_checks c'" by (rule ck)
  show "row cp_id i (d_coupons d') = Some c'" unfolding d' using assms(1) ci by (rule row_set_row_same)
  show "row cp_id j (d_coupons d') = row cp_id j (d_coupons d)" if "j \<noteq> i" for j
    unfolding d' using that ci by simp
qed

text \<open>An order of registered customer 7, as the examples below use it.\<close>

definition sample_order :: "int \<Rightarrow> order_status \<Rightarrow> order" where
  "sample_order i st =
     \<lparr>o_id = i, o_user_id = Some 7, o_guest_token = None, o_guest_email = None, o_payment_token_hash = None,
      o_cart_digest = None, o_status = st, o_idempotency_key = ''k'', o_request_hash = None,
      o_subtotal_cents = 1000, o_paid_in_demo_mode = False, o_discount_cents = 100, o_coupon_id = Some 3,
      o_coupon_code = Some ''SAVE10'', o_coupon_snapshot = None, o_shipping_cents = 50, o_tax_cents = 0,
      o_total_cents = 950, o_currency = Some ''inr'', o_stock_released_at = None, o_shipping_snapshot = None,
      o_tax_snapshot = None, o_shipping_address = None, o_created_at = 0\<rparr>"

theorem used_coupon_terms_frozen_witness:
  "coupon_delete 3 1 (empty_db\<lparr>d_coupons := [sample_coupon], d_orders := [sample_order 9 PENDING]\<rparr>) = Inl CouponInUse"
proof -
  let ?d = "empty_db\<lparr>d_coupons := [sample_coupon], d_orders := [sample_order 9 PENDING]\<rparr>"
  have "row cp_id 3 (d_coupons ?d) = Some sample_coupon" "ever_used 3 ?d"
    by (simp_all add: sample_coupon_def sample_order_def ever_used_def)
  from used_coupon_terms_frozen [OF this] show ?thesis by blast
qed

end
