(* ===== verification/Cart.thy ===== *)
theory Cart
  imports Coupons "HOL-Library.Char_ord" "HOL-Library.List_Lexorder"
begin

text \<open>
  \<open>modules/cart\<close>: \<open>cart_repository.py\<close>, \<open>cart_service.py\<close>, the line state of \<open>cart_view.py\<close> and
  \<open>cart_digest.py\<close> (SHA-256 is a parameter \<open>sha\<close>). The lemmas say that every operation keeps the
  invariant of the two tables, what adding and merging do to the quantities, and that the text that is
  hashed identifies the contents of a cart.
\<close>

section \<open>Digest\<close>

definition show_int :: "int \<Rightarrow> string" where
  "show_int n = (if n < 0 then ''-'' @ show_nat (nat (- n)) else show_nat (nat n))"

definition id_or_zero :: "int option \<Rightarrow> int" where
  "id_or_zero v = (case v of None \<Rightarrow> 0 | Some i \<Rightarrow> i)"

type_synonym line_key = "int \<times> int \<times> int"

definition line_key :: "cart_item \<Rightarrow> line_key" where
  "line_key i = (ci_product_id i, id_or_zero (ci_variant_id i), ci_quantity i)"

definition line_text :: "line_key \<Rightarrow> string" where
  "line_text k = (case k of (p, v, q) \<Rightarrow> show_int p @ '':'' @ show_int v @ '':'' @ show_int q)"

fun join_bar :: "string list \<Rightarrow> string" where
  "join_bar [] = []"
| "join_bar [w] = w"
| "join_bar (w # v # ws) = w @ ''|'' @ join_bar (v # ws)"

definition digest_text :: "cart_item list \<Rightarrow> string" where
  "digest_text items = join_bar (sort (map (\<lambda>i. line_text (line_key i)) items))"

definition cart_digest :: "(string \<Rightarrow> string) \<Rightarrow> cart_item list \<Rightarrow> string" where
  "cart_digest sha items = sha (digest_text items)"

section \<open>Repository\<close>

definition items_of :: "int \<Rightarrow> db \<Rightarrow> cart_item list" where
  "items_of cart_id d = filter (\<lambda>i. ci_cart_id i = cart_id) (d_cart_items d)"

definition get_cart_by_user_id :: "int \<Rightarrow> db \<Rightarrow> cart option" where
  "get_cart_by_user_id user_id d = find (\<lambda>c. ct_user_id c = Some user_id) (d_carts d)"

definition get_cart_by_guest_token :: "string \<Rightarrow> db \<Rightarrow> cart option" where
  "get_cart_by_guest_token token d = find (\<lambda>c. ct_guest_token c = Some token) (d_carts d)"

definition get_or_create_cart :: "int option \<Rightarrow> string option \<Rightarrow> db \<Rightarrow> (shop_error, cart \<times> db) result" where
  "get_or_create_cart user_id guest_token d =
     (if user_id = None \<and> guest_token = None then Inl ValueError
      else case (case user_id of Some u \<Rightarrow> get_cart_by_user_id u d
                 | None \<Rightarrow> Option.bind guest_token (\<lambda>t. get_cart_by_guest_token t d)) of
             Some c \<Rightarrow> Inr (c, d)
           | None \<Rightarrow>
               if user_id \<noteq> None \<and> guest_token \<noteq> None then Inl (IntegrityError ''ck_carts_user_xor_guest'')
               else let (i, d1) = fresh d;
                        c = \<lparr>ct_id = i, ct_user_id = user_id, ct_guest_token = guest_token\<rparr>
                    in Inr (c, d1\<lparr>d_carts := d_carts d1 @ [c]\<rparr>))"

definition get_item_by_product :: "int \<Rightarrow> int \<Rightarrow> int option \<Rightarrow> db \<Rightarrow> cart_item option" where
  "get_item_by_product cart_id product_id variant_id d =
     find (\<lambda>i. ci_cart_id i = cart_id \<and> ci_product_id i = product_id \<and> ci_variant_id i = variant_id)
       (d_cart_items d)"

text \<open>The trigger \<open>enforce_line_variant_rule\<close>: options need a variant, no options allow none.\<close>

definition line_variant_rule :: "int \<Rightarrow> int option \<Rightarrow> db \<Rightarrow> bool" where
  "line_variant_rule product_id variant_id d =
     (case get_product product_id d of
        None \<Rightarrow> True
      | Some p \<Rightarrow> (0 < p_option_count p \<longrightarrow> variant_id \<noteq> None) \<and> (p_option_count p = 0 \<longrightarrow> variant_id = None))"

text \<open>Two lines of one cart clash when they sell the same simple product or the same variant.\<close>

definition same_line :: "cart_item \<Rightarrow> cart_item \<Rightarrow> bool" where
  "same_line i j \<longleftrightarrow> ci_cart_id i = ci_cart_id j
     \<and> (case (ci_variant_id i, ci_variant_id j) of
          (None, None) \<Rightarrow> ci_product_id i = ci_product_id j
        | (Some v, Some w) \<Rightarrow> v = w
        | _ \<Rightarrow> False)"

definition insert_cart_item :: "cart_item \<Rightarrow> db \<Rightarrow> (shop_error, db) result" where
  "insert_cart_item i d =
     (if ci_quantity i \<le> 0 then Inl (IntegrityError ''ck_cart_items_quantity_positive'')
      else if list_ex (same_line i) (d_cart_items d) then Inl (IntegrityError ''ux_cart_items_cart_product_simple'')
      else if \<not> line_variant_rule (ci_product_id i) (ci_variant_id i) d
      then Inl (IntegrityError ''enforce_line_variant_rule'')
      else Inr (d\<lparr>d_cart_items := d_cart_items d @ [i]\<rparr>))"

definition repo_add_item :: "int \<Rightarrow> int \<Rightarrow> int \<Rightarrow> int \<Rightarrow> int option \<Rightarrow> db \<Rightarrow> (shop_error, db) result" where
  "repo_add_item cart_id product_id quantity price_cents variant_id d =
     (let (i, d1) = fresh d in
      insert_cart_item \<lparr>ci_id = i, ci_cart_id = cart_id, ci_product_id = product_id, ci_variant_id = variant_id,
        ci_quantity = quantity, ci_price_cents_snapshot = price_cents\<rparr> d1)"

definition update_quantity :: "cart_item \<Rightarrow> int \<Rightarrow> db \<Rightarrow> (shop_error, db) result" where
  "update_quantity item quantity d =
     (if quantity \<le> 0 then Inl (IntegrityError ''ck_cart_items_quantity_positive'')
      else Inr (d\<lparr>d_cart_items := set_row ci_id (item\<lparr>ci_quantity := quantity\<rparr>) (d_cart_items d)\<rparr>))"

definition set_price_snapshot :: "cart_item \<Rightarrow> int \<Rightarrow> db \<Rightarrow> db" where
  "set_price_snapshot item price d =
     d\<lparr>d_cart_items := set_row ci_id (item\<lparr>ci_price_cents_snapshot := price\<rparr>) (d_cart_items d)\<rparr>"

definition repo_remove_item :: "cart_item \<Rightarrow> db \<Rightarrow> db" where
  "repo_remove_item item d = d\<lparr>d_cart_items := filter (\<lambda>i. ci_id i \<noteq> ci_id item) (d_cart_items d)\<rparr>"

definition clear :: "int \<Rightarrow> db \<Rightarrow> db" where
  "clear cart_id d = d\<lparr>d_cart_items := filter (\<lambda>i. ci_cart_id i \<noteq> cart_id) (d_cart_items d)\<rparr>"

definition delete_cart :: "int \<Rightarrow> db \<Rightarrow> db" where
  "delete_cart cart_id d =
     d\<lparr>d_carts := filter (\<lambda>c. ct_id c \<noteq> cart_id) (d_carts d),
       d_cart_items := filter (\<lambda>i. ci_cart_id i \<noteq> cart_id) (d_cart_items d)\<rparr>"

definition reassign_to_user :: "cart \<Rightarrow> int \<Rightarrow> db \<Rightarrow> (shop_error, db) result" where
  "reassign_to_user c user_id d =
     (if list_ex (\<lambda>x. ct_user_id x = Some user_id \<and> ct_id x \<noteq> ct_id c) (d_carts d)
      then Inl (IntegrityError ''uq_carts_user_id'')
      else Inr (d\<lparr>d_carts := set_row ct_id (c\<lparr>ct_user_id := Some user_id, ct_guest_token := None\<rparr>) (d_carts d)\<rparr>))"

text \<open>\<open>merge_items_into_cart\<close>: one line of the other cart at a time; \<open>by_line\<close> is keyed by product and variant.\<close>

definition merge_line :: "int \<Rightarrow> cart_item \<Rightarrow> db \<Rightarrow> (shop_error, db) result" where
  "merge_line cart_id source d =
     (case find (\<lambda>i. ci_product_id i = ci_product_id source \<and> ci_variant_id i = ci_variant_id source)
             (items_of cart_id d) of
        Some existing \<Rightarrow> update_quantity existing (ci_quantity existing + ci_quantity source) d
      | None \<Rightarrow> repo_add_item cart_id (ci_product_id source) (ci_quantity source)
                  (ci_price_cents_snapshot source) (ci_variant_id source) d)"

definition merge_items_into_cart :: "int \<Rightarrow> cart_item list \<Rightarrow> db \<Rightarrow> (shop_error, db) result" where
  "merge_items_into_cart cart_id incoming d = rfold (merge_line cart_id) incoming d"

section \<open>Service\<close>

definition MAX_CART_LINES :: nat where
  "MAX_CART_LINES = 50"

definition owns :: "cart \<Rightarrow> int option \<Rightarrow> string option \<Rightarrow> bool" where
  "owns c user_id guest_token =
     (case user_id of Some u \<Rightarrow> ct_user_id c = Some u | None \<Rightarrow> ct_guest_token c = guest_token)"

definition resolve_unit ::
  "int option \<Rightarrow> int option \<Rightarrow> int \<Rightarrow> db \<Rightarrow> (shop_error, product \<times> variant option \<times> int) result" where
  "resolve_unit product_id variant_id quantity d =
     (case variant_id of
        Some vid \<Rightarrow>
          (case get_variant vid d of
             None \<Rightarrow> Inl VariantUnavailable
           | Some v \<Rightarrow>
               if product_id \<noteq> None \<and> Some (v_product_id v) \<noteq> product_id then Inl VariantUnavailable
               else (case get_product (v_product_id v) d of
                       None \<Rightarrow> Inl VariantUnavailable
                     | Some p \<Rightarrow>
                         if p_status p \<noteq> Active \<or> v_status v \<noteq> ''active'' then Inl VariantUnavailable
                         else if v_stock v < quantity then Inl (InsufficientStock (v_stock v))
                         else Inr (p, Some v, effective_price v (p_price_cents p))))
      | None \<Rightarrow>
          (case Option.bind product_id (\<lambda>i. get_product i d) of
             None \<Rightarrow> Inl ProductUnavailable
           | Some p \<Rightarrow>
               if p_status p \<noteq> Active then Inl ProductUnavailable
               else if 0 < p_option_count p then Inl VariantRequired
               else if p_stock p < quantity then Inl (InsufficientStock (p_stock p))
               else Inr (p, None, p_price_cents p)))"

definition add_item ::
  "int option \<Rightarrow> string option \<Rightarrow> int option \<Rightarrow> int option \<Rightarrow> int \<Rightarrow> db \<Rightarrow> (shop_error, cart \<times> db) result" where
  "add_item user_id guest_token product_id variant_id quantity d =
     rbind (get_or_create_cart user_id guest_token d) (\<lambda>(c, d).
     rbind (resolve_unit product_id variant_id quantity d) (\<lambda>(p, v, price).
     let vid = map_option v_id v in
     rbind (case get_item_by_product (ct_id c) (p_id p) vid d of
              Some existing \<Rightarrow>
                let new_quantity = ci_quantity existing + quantity in
                rbind (resolve_unit (Some (p_id p)) vid new_quantity d) (\<lambda>_.
                update_quantity existing new_quantity d)
            | None \<Rightarrow>
                if MAX_CART_LINES \<le> length (items_of (ct_id c) d) then Inl CartFull
                else repo_add_item (ct_id c) (p_id p) quantity price vid d) (\<lambda>d.
     Inr (c, d))))"

definition cart_of_item :: "cart_item \<Rightarrow> db \<Rightarrow> cart option" where
  "cart_of_item i d = row ct_id (ci_cart_id i) (d_carts d)"

text \<open>\<open>item is None or not _owns(item.cart, ...)\<close>\<close>

definition own_item :: "int option \<Rightarrow> string option \<Rightarrow> int \<Rightarrow> db \<Rightarrow> (shop_error, cart_item) result" where
  "own_item user_id guest_token item_id d =
     (case row ci_id item_id (d_cart_items d) of
        None \<Rightarrow> Inl (CartItemNotFound item_id)
      | Some i \<Rightarrow>
          (case cart_of_item i d of
             None \<Rightarrow> Inl (CartItemNotFound item_id)
           | Some c \<Rightarrow> if owns c user_id guest_token then Inr i else Inl (CartItemNotFound item_id)))"

definition update_item_quantity ::
  "int option \<Rightarrow> string option \<Rightarrow> int \<Rightarrow> int \<Rightarrow> db \<Rightarrow> (shop_error, cart \<times> db) result" where
  "update_item_quantity user_id guest_token item_id quantity d =
     rbind (own_item user_id guest_token item_id d) (\<lambda>i.
     rbind (resolve_unit (Some (ci_product_id i)) (ci_variant_id i) quantity d) (\<lambda>_.
     rbind (update_quantity i quantity d) (\<lambda>d.
     get_or_create_cart user_id guest_token d)))"

definition remove_item :: "int option \<Rightarrow> string option \<Rightarrow> int \<Rightarrow> db \<Rightarrow> (shop_error, cart \<times> db) result" where
  "remove_item user_id guest_token item_id d =
     rbind (own_item user_id guest_token item_id d) (\<lambda>i.
     get_or_create_cart user_id guest_token (repo_remove_item i d))"

definition clear_cart :: "int option \<Rightarrow> string option \<Rightarrow> db \<Rightarrow> (shop_error, cart \<times> db) result" where
  "clear_cart user_id guest_token d =
     rbind (get_or_create_cart user_id guest_token d) (\<lambda>(c, d).
     get_or_create_cart user_id guest_token (clear (ct_id c) d))"

definition merge_guest_cart_into_user :: "int \<Rightarrow> string \<Rightarrow> db \<Rightarrow> (shop_error, db) result" where
  "merge_guest_cart_into_user user_id guest_token d =
     (case get_cart_by_guest_token guest_token d of
        None \<Rightarrow> Inr d
      | Some g \<Rightarrow>
          (case get_cart_by_user_id user_id d of
             None \<Rightarrow> reassign_to_user g user_id d
           | Some c \<Rightarrow>
               rbind (merge_items_into_cart (ct_id c) (items_of (ct_id g) d) d) (\<lambda>d.
               Inr (delete_cart (ct_id g) d))))"

section \<open>Line state shown with a cart\<close>

text \<open>\<open>line_state\<close>: current price, units in stock, and why the line cannot be bought now. The variant is
  attached by \<open>attach_variant_details\<close>, so a variant that no longer exists counts as a simple line.\<close>

definition line_state :: "cart_item \<Rightarrow> db \<Rightarrow> (int \<times> int \<times> string option) option" where
  "line_state i d =
     (case get_product (ci_product_id i) d of
        None \<Rightarrow> None
      | Some p \<Rightarrow>
          let v = Option.bind (ci_variant_id i) (\<lambda>vid. get_variant vid d);
              price = (case v of None \<Rightarrow> p_price_cents p | Some v \<Rightarrow> effective_price v (p_price_cents p));
              stock = (case v of None \<Rightarrow> p_stock p | Some v \<Rightarrow> v_stock v);
              bad = (p_status p \<noteq> Active \<or> (case v of None \<Rightarrow> False | Some v \<Rightarrow> v_status v \<noteq> ''active''))
          in Some (price, stock,
                   if bad then Some ''unavailable''
                   else if stock \<le> 0 then Some ''out_of_stock''
                   else if stock < ci_quantity i then Some ''insufficient_stock''
                   else None))"

section \<open>The digest text identifies the contents\<close>

definition int_char :: "char \<Rightarrow> bool" where
  "int_char c \<longleftrightarrow> is_digit c \<or> c = CHR ''-''"

lemma int_char_not: "int_char c \<Longrightarrow> c \<noteq> CHR '':'' \<and> c \<noteq> CHR ''|''"
  by (auto simp: int_char_def is_digit_def char_code_def)

lemma show_int_chars: "list_all int_char (show_int n)"
proof -
  have "list_all int_char (show_nat k)" for k
    using show_nat_digits [of k] by (simp add: list_all_iff int_char_def)
  then show ?thesis by (simp add: show_int_def int_char_def)
qed

lemma show_int_sep: "CHR '':'' \<notin> set (show_int n)" "CHR ''|'' \<notin> set (show_int n)"
  using show_int_chars [of n] int_char_not by (auto simp: list_all_iff)

lemma show_nat_inject [simp]: "show_nat m = show_nat n \<longleftrightarrow> m = n"
  by (metis read_show_nat)

lemma show_nat_no_minus: "show_nat k \<noteq> CHR ''-'' # s"
proof
  assume "show_nat k = CHR ''-'' # s"
  with show_nat_digits [of k] show False by (simp add: is_digit_def char_code_def)
qed

lemma show_int_inject [simp]: "show_int m = show_int n \<longleftrightarrow> m = n"
  using show_nat_no_minus [of "nat m"] show_nat_no_minus [of "nat n"]
  by (auto simp: show_int_def dest: sym)

lemma split_at_char:
  assumes "c \<notin> set a" "c \<notin> set b" "a @ c # x = b @ c # y"
  shows "a = b \<and> x = y"
proof -
  have tw: "takeWhile (\<lambda>d. d \<noteq> c) (s @ c # z) = s" if "c \<notin> set s" for s z
    using that by (induction s) auto
  from tw [OF assms(1), of x] tw [OF assms(2), of y] assms(3) show ?thesis by simp
qed

lemma line_text_inject [simp]: "line_text k = line_text l \<longleftrightarrow> k = l"
proof
  assume eq: "line_text k = line_text l"
  obtain p v q p' v' q' where kl: "k = (p, v, q)" "l = (p', v', q')" by (metis prod_cases3)
  from eq have "show_int p @ CHR '':'' # (show_int v @ CHR '':'' # show_int q)
      = show_int p' @ CHR '':'' # (show_int v' @ CHR '':'' # show_int q')"
    by (simp add: line_text_def kl)
  from split_at_char [OF show_int_sep(1) show_int_sep(1) this]
  have "p = p'" "show_int v @ CHR '':'' # show_int q = show_int v' @ CHR '':'' # show_int q'" by auto
  with split_at_char [OF show_int_sep(1) show_int_sep(1) this(2)] show "k = l" by (simp add: kl)
qed simp

lemma line_text_bar: "CHR ''|'' \<notin> set (line_text k)"
  by (cases k) (auto simp: line_text_def dest: show_int_sep(2) [THEN notE])

lemma line_text_nonempty: "line_text k \<noteq> []"
  by (cases k) (simp add: line_text_def)

lemma join_bar_inject:
  assumes "\<forall>w \<in> set ws. CHR ''|'' \<notin> set w \<and> w \<noteq> []" "\<forall>v \<in> set vs. CHR ''|'' \<notin> set v \<and> v \<noteq> []"
    and "join_bar ws = join_bar vs"
  shows "ws = vs"
  using assms
proof (induction ws arbitrary: vs rule: join_bar.induct)
  case 1
  then show ?case by (cases vs rule: join_bar.cases) auto
next
  case (2 w)
  show ?case
  proof (cases vs rule: join_bar.cases)
    case (3 v v' vs')
    with 2 have "CHR ''|'' \<in> set w" by simp
    with 2 show ?thesis by simp
  qed (use 2 in auto)
next
  case (3 w w' ws)
  note prems = "3.prems" and IH = "3.IH"
  consider (Nil) "vs = []" | (One) v where "vs = [v]" | (More) v v' vs' where "vs = v # v' # vs'"
    by (cases vs rule: join_bar.cases) auto
  then show ?case
  proof cases
    case Nil
    with prems show ?thesis by simp
  next
    case One
    with prems(3) have "v = w @ CHR ''|'' # join_bar (w' # ws)" by simp
    with prems(2) One show ?thesis by simp
  next
    case More
    have eq: "w @ CHR ''|'' # join_bar (w' # ws) = v @ CHR ''|'' # join_bar (v' # vs')"
      using prems(3) More by simp
    have "CHR ''|'' \<notin> set w" "CHR ''|'' \<notin> set v" using prems(1,2) More by auto
    from split_at_char [OF this eq] have wv: "w = v" "join_bar (w' # ws) = join_bar (v' # vs')" by auto
    have "w' # ws = v' # vs'"
    proof (rule IH [OF _ _ wv(2)])
      show "\<forall>w \<in> set (w' # ws). CHR ''|'' \<notin> set w \<and> w \<noteq> []" using prems(1) by simp
      show "\<forall>v \<in> set (v' # vs'). CHR ''|'' \<notin> set v \<and> v \<noteq> []" using prems(2) More by simp
    qed
    with wv(1) More show ?thesis by simp
  qed
qed

lemma sort_mset_eq: "sort xs = sort ys \<longleftrightarrow> mset xs = mset (ys :: 'a :: linorder list)"
  by (metis mset_sort sorted_list_of_multiset_mset)

lemma digest_text_eq:
  "digest_text is = digest_text js \<longleftrightarrow> mset (map line_key is) = mset (map line_key js)"
proof
  assume "digest_text is = digest_text js"
  then have "sort (map (\<lambda>i. line_text (line_key i)) is) = sort (map (\<lambda>i. line_text (line_key i)) js)"
    unfolding digest_text_def by (rule join_bar_inject [rotated 2]) (auto simp: line_text_bar line_text_nonempty)
  then have "image_mset line_text (mset (map line_key is)) = image_mset line_text (mset (map line_key js))"
    by (simp add: sort_mset_eq multiset.map_comp comp_def)
  then show "mset (map line_key is) = mset (map line_key js)"
    by (rule injD [OF multiset.inj_map, rotated]) (simp add: inj_def)
next
  assume "mset (map line_key is) = mset (map line_key js)"
  then have "image_mset line_text (mset (map line_key is)) = image_mset line_text (mset (map line_key js))" by simp
  then have "sort (map (\<lambda>i. line_text (line_key i)) is) = sort (map (\<lambda>i. line_text (line_key i)) js)"
    by (simp add: sort_mset_eq multiset.map_comp comp_def)
  then show "digest_text is = digest_text js" by (simp only: digest_text_def)
qed

section \<open>The invariant of carts\<close>

definition same_owner :: "cart \<Rightarrow> cart \<Rightarrow> bool" where
  "same_owner c c' \<longleftrightarrow> (ct_user_id c \<noteq> None \<and> ct_user_id c = ct_user_id c')
     \<or> (ct_guest_token c \<noteq> None \<and> ct_guest_token c = ct_guest_token c')"

definition carts_ok :: "cart list \<Rightarrow> int \<Rightarrow> bool" where
  "carts_ok cs n \<longleftrightarrow> distinct (map ct_id cs)
     \<and> (\<forall>c \<in> set cs. ct_id c < n \<and> (ct_user_id c = None) \<noteq> (ct_guest_token c = None))
     \<and> (\<forall>c \<in> set cs. \<forall>c' \<in> set cs. same_owner c c' \<longrightarrow> c = c')"

definition lines_ok :: "cart_item list \<Rightarrow> int set \<Rightarrow> int \<Rightarrow> bool" where
  "lines_ok is ids n \<longleftrightarrow> distinct (map ci_id is)
     \<and> (\<forall>i \<in> set is. ci_id i < n \<and> 0 < ci_quantity i \<and> ci_cart_id i \<in> ids)
     \<and> (\<forall>i \<in> set is. \<forall>j \<in> set is. same_line i j \<longrightarrow> i = j)"

definition cart_ok :: "db \<Rightarrow> bool" where
  "cart_ok d \<longleftrightarrow> carts_ok (d_carts d) (d_next d)
     \<and> lines_ok (d_cart_items d) (ct_id ` set (d_carts d)) (d_next d)"

lemma cart_okD:
  assumes "cart_ok d"
  shows "distinct (map ct_id (d_carts d))" "distinct (map ci_id (d_cart_items d))"
    "\<And>c. c \<in> set (d_carts d) \<Longrightarrow> ct_id c < d_next d"
    "\<And>c. c \<in> set (d_carts d) \<Longrightarrow> (ct_user_id c = None) \<noteq> (ct_guest_token c = None)"
    "\<And>i. i \<in> set (d_cart_items d) \<Longrightarrow> ci_id i < d_next d"
    "\<And>i. i \<in> set (d_cart_items d) \<Longrightarrow> 0 < ci_quantity i"
    "\<And>i. i \<in> set (d_cart_items d) \<Longrightarrow> ci_cart_id i \<in> ct_id ` set (d_carts d)"
    "\<And>i j. i \<in> set (d_cart_items d) \<Longrightarrow> j \<in> set (d_cart_items d) \<Longrightarrow> same_line i j \<Longrightarrow> i = j"
  using assms by (simp_all add: cart_ok_def carts_ok_def lines_ok_def)

lemma carts_ok_filter: "carts_ok cs n \<Longrightarrow> carts_ok (filter P cs) n"
  by (simp add: carts_ok_def distinct_map_filter)

lemma lines_ok_filter:
  "lines_ok is ids n \<Longrightarrow> (\<And>i. i \<in> set is \<Longrightarrow> P i \<Longrightarrow> ci_cart_id i \<in> ids') \<Longrightarrow> lines_ok (filter P is) ids' n"
  by (simp add: lines_ok_def distinct_map_filter)

lemma find_SomeD: "find P xs = Some x \<Longrightarrow> x \<in> set xs \<and> P x"
  by (auto simp: find_Some_iff in_set_conv_nth)

lemma find_NoneD: "find P xs = None \<Longrightarrow> x \<in> set xs \<Longrightarrow> \<not> P x"
  by (auto simp: find_None_iff)

lemma fresh_simps [simp]: "fst (fresh d) = d_next d" "snd (fresh d) = d\<lparr>d_next := d_next d + 1\<rparr>"
  by (simp_all add: fresh_def)

lemma get_or_create_cart_cases:
  assumes "get_or_create_cart user guest d = Inr (c, d')"
  obtains (found) "d' = d" "c \<in> set (d_carts d)"
      "ct_user_id c = user \<and> user \<noteq> None \<or> user = None \<and> ct_guest_token c = guest \<and> guest \<noteq> None"
  | (created) "c = \<lparr>ct_id = d_next d, ct_user_id = user, ct_guest_token = guest\<rparr>"
      "d' = d\<lparr>d_next := d_next d + 1, d_carts := d_carts d @ [c]\<rparr>"
      "(user = None) \<noteq> (guest = None)"
      "\<And>x. x \<in> set (d_carts d) \<Longrightarrow> user \<noteq> None \<Longrightarrow> ct_user_id x \<noteq> user"
      "\<And>x. x \<in> set (d_carts d) \<Longrightarrow> guest \<noteq> None \<Longrightarrow> ct_guest_token x \<noteq> guest"
proof (cases user)
  case (Some u)
  show ?thesis
  proof (cases "get_cart_by_user_id u d")
    case None
    with assms Some show ?thesis
      by (intro created) (auto simp: get_or_create_cart_def fresh_def Let_def get_cart_by_user_id_def
          split: if_splits dest: find_NoneD)
  next
    case (Some c')
    with assms \<open>user = Some u\<close> show ?thesis
      by (intro found) (auto simp: get_or_create_cart_def get_cart_by_user_id_def dest: find_SomeD)
  qed
next
  case None
  with assms obtain t where t: "guest = Some t" by (auto simp: get_or_create_cart_def split: if_splits)
  show ?thesis
  proof (cases "get_cart_by_guest_token t d")
    case None
    with assms \<open>user = None\<close> t show ?thesis
      by (intro created) (auto simp: get_or_create_cart_def fresh_def Let_def get_cart_by_guest_token_def
          split: if_splits dest: find_NoneD)
  next
    case (Some c')
    with assms \<open>user = None\<close> t show ?thesis
      by (intro found) (auto simp: get_or_create_cart_def get_cart_by_guest_token_def dest: find_SomeD)
  qed
qed

lemma get_or_create_cart_ok:
  assumes "get_or_create_cart user guest d = Inr (c, d')" and "cart_ok d"
  shows "cart_ok d' \<and> c \<in> set (d_carts d') \<and> d_cart_items d' = d_cart_items d \<and> owns c user guest"
  using assms(1)
proof (cases rule: get_or_create_cart_cases)
  case found
  with assms(2) show ?thesis by (auto simp: owns_def split: option.splits)
next
  case created
  have new: "d_next d \<notin> ct_id ` set (d_carts d)" using cart_okD(3) [OF assms(2)] by fastforce
  have "cart_ok d'"
    unfolding cart_ok_def created(2) using assms(2) new created(3-5)
    by (auto simp: cart_ok_def carts_ok_def lines_ok_def created(1) same_owner_def intro: less_imp_le)
  then show ?thesis by (simp add: created(1,2) owns_def split: option.splits)
qed

text \<open>Changing the rows of lines in place, or keeping only some of them, keeps the invariant.\<close>

lemma same_line_sym: "same_line i j \<Longrightarrow> same_line j i"
  by (auto simp: same_line_def split: option.splits)

lemma cart_ok_filter_items:
  "cart_ok d \<Longrightarrow> cart_ok (d\<lparr>d_cart_items := filter P (d_cart_items d)\<rparr>)"
  by (auto simp: cart_ok_def intro!: lines_ok_filter dest: cart_okD(7) [unfolded cart_ok_def, OF conjI])

lemma cart_ok_set_item:
  assumes "cart_ok d" and "i \<in> set (d_cart_items d)" and "0 < ci_quantity i'"
    and "ci_id i' = ci_id i" "ci_cart_id i' = ci_cart_id i" "ci_product_id i' = ci_product_id i"
    "ci_variant_id i' = ci_variant_id i"
  shows "cart_ok (d\<lparr>d_cart_items := set_row ci_id i' (d_cart_items d)\<rparr>)"
proof -
  note ok = cart_okD [OF assms(1)]
  have same: "same_line i' j = same_line i j" for j
    unfolding same_line_def assms(5-7) by (rule refl)
  have new: "j \<in> set (set_row ci_id i' (d_cart_items d)) \<Longrightarrow> j = i' \<or> (j \<in> set (d_cart_items d) \<and> j \<noteq> i)" for j
    using set_set_rowD [of j ci_id i'] assms(4) by auto
  have "j = k" if "j \<in> set (set_row ci_id i' (d_cart_items d))" "k \<in> set (set_row ci_id i' (d_cart_items d))"
    "same_line j k" for j k
    using new [OF that(1)] new [OF that(2)] that(3) ok(8) [OF assms(2)] ok(8) same same_line_sym
    by metis
  moreover have "ci_id j < d_next d \<and> 0 < ci_quantity j \<and> ci_cart_id j \<in> ct_id ` set (d_carts d)"
    if "j \<in> set (set_row ci_id i' (d_cart_items d))" for j
    using new [OF that] ok(5-7) assms(2-5) by auto
  ultimately show ?thesis using assms(1) by (simp add: cart_ok_def lines_ok_def)
qed

lemma update_quantity_ok:
  assumes "update_quantity i q d = Inr d'" and "cart_ok d" and "i \<in> set (d_cart_items d)"
  shows "cart_ok d'"
  using assms cart_ok_set_item [OF assms(2,3), of "i\<lparr>ci_quantity := q\<rparr>"]
  by (auto simp: update_quantity_def split: if_splits)

lemma set_price_snapshot_ok:
  assumes "cart_ok d" and "i \<in> set (d_cart_items d)"
  shows "cart_ok (set_price_snapshot i q d)"
  using cart_ok_set_item [OF assms, of "i\<lparr>ci_price_cents_snapshot := q\<rparr>"] cart_okD(6) [OF assms]
  by (simp add: set_price_snapshot_def)

lemma repo_add_item_ok:
  assumes "repo_add_item cid pid q price vid d = Inr d'" and "cart_ok d" and "cid \<in> ct_id ` set (d_carts d)"
  shows "cart_ok d'"
proof -
  let ?i = "\<lparr>ci_id = d_next d, ci_cart_id = cid, ci_product_id = pid, ci_variant_id = vid,
     ci_quantity = q, ci_price_cents_snapshot = price\<rparr>"
  note ok = cart_okD [OF assms(2)]
  have ins: "0 < q" "\<not> list_ex (same_line ?i) (d_cart_items d)"
    "d' = d\<lparr>d_next := d_next d + 1, d_cart_items := d_cart_items d @ [?i]\<rparr>"
    using assms(1) by (auto simp: repo_add_item_def fresh_def insert_cart_item_def Let_def split: if_splits)
  have no: "\<not> same_line ?i j" "\<not> same_line j ?i" if "j \<in> set (d_cart_items d)" for j
    using ins(2) that same_line_sym by (auto simp: list_ex_iff)
  have "d_next d \<notin> ci_id ` set (d_cart_items d)" using ok(5) by fastforce
  then show ?thesis
    unfolding cart_ok_def ins(3) using assms(2,3) ins(1) no ok(3,5)
    by (auto simp: cart_ok_def lines_ok_def carts_ok_def intro: less_imp_le)
qed

lemma merge_line_ok:
  assumes "merge_line cid src d = Inr d'" and "cart_ok d" and "cid \<in> ct_id ` set (d_carts d)"
  shows "cart_ok d' \<and> d_carts d' = d_carts d"
proof (cases "find (\<lambda>i. ci_product_id i = ci_product_id src \<and> ci_variant_id i = ci_variant_id src) (items_of cid d)")
  case None
  with assms repo_add_item_ok show ?thesis
    by (auto simp: merge_line_def repo_add_item_def insert_cart_item_def fresh_def Let_def split: if_splits)
next
  case (Some i)
  then have "i \<in> set (d_cart_items d)" by (auto simp: items_of_def dest!: find_SomeD)
  with Some assms update_quantity_ok show ?thesis
    by (auto simp: merge_line_def update_quantity_def split: if_splits)
qed

lemma merge_items_ok:
  assumes "merge_items_into_cart cid incoming d = Inr d'" and "cart_ok d" and "cid \<in> ct_id ` set (d_carts d)"
  shows "cart_ok d' \<and> d_carts d' = d_carts d"
  using assms(1) unfolding merge_items_into_cart_def
proof (rule rfold_invariant [where P = "\<lambda>s. cart_ok s \<and> d_carts s = d_carts d"])
  fix x s s'
  assume "cart_ok s \<and> d_carts s = d_carts d" and "merge_line cid x s = Inr s'"
  with merge_line_ok [of cid x s s'] assms(3) show "cart_ok s' \<and> d_carts s' = d_carts d" by simp
qed (use assms(2) in simp)

lemma delete_cart_ok: "cart_ok d \<Longrightarrow> cart_ok (delete_cart cid d)"
  unfolding cart_ok_def delete_cart_def
  by (auto intro!: carts_ok_filter lines_ok_filter dest: cart_okD(7) [unfolded cart_ok_def, OF conjI])

lemma clear_ok: "cart_ok d \<Longrightarrow> cart_ok (clear cid d)"
  unfolding clear_def by (rule cart_ok_filter_items)

lemma reassign_ok:
  assumes "reassign_to_user c u d = Inr d'" and "cart_ok d" and "c \<in> set (d_carts d)"
  shows "cart_ok d'"
proof -
  let ?c = "c\<lparr>ct_user_id := Some u, ct_guest_token := None\<rparr>"
  have no: "x \<in> set (d_carts d) \<Longrightarrow> ct_user_id x = Some u \<Longrightarrow> ct_id x = ct_id c" for x
    using assms(1) by (auto simp: reassign_to_user_def list_ex_iff split: if_splits)
  have d': "d' = d\<lparr>d_carts := set_row ct_id ?c (d_carts d)\<rparr>"
    using assms(1) by (auto simp: reassign_to_user_def split: if_splits)
  have new: "x \<in> set (d_carts d') \<Longrightarrow> x = ?c \<or> (x \<in> set (d_carts d) \<and> ct_id x \<noteq> ct_id c)" for x
    using set_set_rowD [of x ct_id ?c] by (auto simp: d')
  have ids: "ct_id ` set (d_carts d') = ct_id ` set (d_carts d)"
    unfolding d' by (simp flip: set_map)
  have "x = y" if "x \<in> set (d_carts d')" "y \<in> set (d_carts d')"
    "same_owner x y" for x y
    using new [OF that(1)] new [OF that(2)] that(3) no assms(2)
    by (auto simp: cart_ok_def carts_ok_def) (auto simp: same_owner_def)
  moreover have "ct_id x < d_next d \<and> (ct_user_id x = None) \<noteq> (ct_guest_token x = None)" if "x \<in> set (d_carts d')" for x
    using new [OF that] cart_okD(3,4) [OF assms(2)] assms(3) by auto
  ultimately show ?thesis
    using assms(2) ids by (simp add: cart_ok_def carts_ok_def d')
qed

section \<open>Cart operations as steps\<close>

inductive cart_step :: "db \<Rightarrow> db \<Rightarrow> bool" where
  step_get: "get_or_create_cart user guest d = Inr (c, d') \<Longrightarrow> cart_step d d'"
| step_add: "add_item user guest pid vid q d = Inr (c, d') \<Longrightarrow> cart_step d d'"
| step_update: "update_item_quantity user guest item q d = Inr (c, d') \<Longrightarrow> cart_step d d'"
| step_remove: "remove_item user guest item d = Inr (c, d') \<Longrightarrow> cart_step d d'"
| step_clear: "clear_cart user guest d = Inr (c, d') \<Longrightarrow> cart_step d d'"
| step_merge: "merge_guest_cart_into_user u token d = Inr d' \<Longrightarrow> cart_step d d'"

inductive_cases cart_stepE: "cart_step d d'"

text \<open>What no cart operation touches.\<close>

definition shop_frame :: "db \<Rightarrow> db \<Rightarrow> bool" where
  "shop_frame d d' \<longleftrightarrow> d_next d \<le> d_next d' \<and>
     d' = d\<lparr>d_next := d_next d', d_carts := d_carts d', d_cart_items := d_cart_items d'\<rparr>"

lemma shop_frame_refl [simp]: "shop_frame d d"
  by (simp add: shop_frame_def)

lemma shop_frame_trans: "shop_frame d d1 \<Longrightarrow> shop_frame d1 d2 \<Longrightarrow> shop_frame d d2"
  unfolding shop_frame_def by (cases d; cases d1; cases d2) simp

lemma repo_frames:
  "get_or_create_cart user guest d = Inr (c, d') \<Longrightarrow> shop_frame d d'"
  "repo_add_item cid pid q price vid d = Inr d' \<Longrightarrow> shop_frame d d'"
  "update_quantity i q d = Inr d' \<Longrightarrow> shop_frame d d'"
  "shop_frame d (repo_remove_item i d)" "shop_frame d (clear cid d)" "shop_frame d (delete_cart cid d)"
  "reassign_to_user ca u d = Inr d' \<Longrightarrow> shop_frame d d'"
  by (auto simp: shop_frame_def get_or_create_cart_def repo_add_item_def insert_cart_item_def fresh_def Let_def
      update_quantity_def repo_remove_item_def clear_def delete_cart_def reassign_to_user_def
      split: if_splits option.splits)

lemma merge_items_frame: "merge_items_into_cart cid incoming d = Inr d' \<Longrightarrow> shop_frame d d'"
  unfolding merge_items_into_cart_def
proof (erule rfold_invariant [where P = "shop_frame d"])
  fix x s s'
  assume "shop_frame d s" and "merge_line cid x s = Inr s'"
  then show "shop_frame d s'"
    by (auto simp: merge_line_def split: option.splits intro: shop_frame_trans repo_frames(2,3))
qed simp

lemma get_item_in: "get_item_by_product cid pid vid d = Some i \<Longrightarrow> i \<in> set (d_cart_items d)
   \<and> ci_cart_id i = cid \<and> ci_product_id i = pid \<and> ci_variant_id i = vid"
  by (auto simp: get_item_by_product_def dest!: find_SomeD)

lemma own_item_in: "own_item user guest item d = Inr i \<Longrightarrow> i \<in> set (d_cart_items d) \<and> ci_id i = item"
  by (auto simp: own_item_def split: option.splits if_splits dest: row_SomeD)

lemma add_item_cases:
  assumes "add_item user guest pid vid q d = Inr (c, d')"
  obtains d1 p v price where "get_or_create_cart user guest d = Inr (c, d1)"
    "resolve_unit pid vid q d1 = Inr (p, v, price)"
    "(\<exists>i. get_item_by_product (ct_id c) (p_id p) (map_option v_id v) d1 = Some i
        \<and> (\<exists>r. resolve_unit (Some (p_id p)) (map_option v_id v) (ci_quantity i + q) d1 = Inr r)
        \<and> update_quantity i (ci_quantity i + q) d1 = Inr d')
     \<or> (get_item_by_product (ct_id c) (p_id p) (map_option v_id v) d1 = None
        \<and> length (items_of (ct_id c) d1) < MAX_CART_LINES
        \<and> repo_add_item (ct_id c) (p_id p) q price (map_option v_id v) d1 = Inr d')"
  using assms by (auto simp: add_item_def res_simps Let_def split: option.splits if_splits) blast+

lemma add_item_ok:
  assumes "add_item user guest pid vid q d = Inr (c, d')" and "cart_ok d"
  shows "cart_ok d' \<and> shop_frame d d'"
  using assms(1)
proof (rule add_item_cases)
  fix d1 p v price
  assume c: "get_or_create_cart user guest d = Inr (c, d1)"
    and "(\<exists>i. get_item_by_product (ct_id c) (p_id p) (map_option v_id v) d1 = Some i
        \<and> (\<exists>r. resolve_unit (Some (p_id p)) (map_option v_id v) (ci_quantity i + q) d1 = Inr r)
        \<and> update_quantity i (ci_quantity i + q) d1 = Inr d')
     \<or> (get_item_by_product (ct_id c) (p_id p) (map_option v_id v) d1 = None
        \<and> length (items_of (ct_id c) d1) < MAX_CART_LINES
        \<and> repo_add_item (ct_id c) (p_id p) q price (map_option v_id v) d1 = Inr d')"
  moreover have "cart_ok d1" "c \<in> set (d_carts d1)" using get_or_create_cart_ok [OF c assms(2)] by simp_all
  ultimately show ?thesis
    using repo_frames(1) [OF c] update_quantity_ok repo_add_item_ok get_item_in
    by (auto intro: shop_frame_trans repo_frames(2,3))
qed

lemma cart_step_ok:
  assumes "cart_step d d'" and "cart_ok d"
  shows "cart_ok d' \<and> shop_frame d d'"
  using assms(1)
proof (cases rule: cart_step.cases)
  case (step_get user guest c)
  then show ?thesis using get_or_create_cart_ok assms(2) repo_frames(1) by blast
next
  case (step_add user guest pid vid q c)
  then show ?thesis using add_item_ok assms(2) by blast
next
  case (step_update user guest item q c)
  then obtain i d1 where "own_item user guest item d = Inr i" "update_quantity i q d = Inr d1"
    "get_or_create_cart user guest d1 = Inr (c, d')"
    by (auto simp: update_item_quantity_def res_simps)
  then show ?thesis
    using own_item_in update_quantity_ok [of i q d d1] get_or_create_cart_ok [of user guest d1 c d'] assms(2)
      repo_frames(1) [of user guest d1 c d'] repo_frames(3) [of i q d d1] shop_frame_trans by blast
next
  case (step_remove user guest item c)
  then obtain i where "get_or_create_cart user guest (repo_remove_item i d) = Inr (c, d')"
    by (auto simp: remove_item_def res_simps)
  moreover have "cart_ok (repo_remove_item i d)"
    unfolding repo_remove_item_def by (rule cart_ok_filter_items [OF assms(2)])
  ultimately show ?thesis
    using get_or_create_cart_ok repo_frames(1,4) shop_frame_trans by blast
next
  case (step_clear user guest c)
  then obtain c1 d1 where 1: "get_or_create_cart user guest d = Inr (c1, d1)"
    and 2: "get_or_create_cart user guest (clear (ct_id c1) d1) = Inr (c, d')"
    by (auto simp: clear_cart_def res_simps)
  have "cart_ok (clear (ct_id c1) d1)" using get_or_create_cart_ok [OF 1 assms(2)] clear_ok by blast
  with get_or_create_cart_ok [OF 2] have "cart_ok d'" by blast
  moreover have "shop_frame d d'"
    by (rule shop_frame_trans [OF repo_frames(1) [OF 1] shop_frame_trans [OF repo_frames(5) repo_frames(1) [OF 2]]])
  ultimately show ?thesis by blast
next
  case (step_merge u token)
  show ?thesis
  proof (cases "get_cart_by_guest_token token d")
    case None
    with step_merge assms(2) show ?thesis by (simp add: merge_guest_cart_into_user_def)
  next
    case (Some g)
    then have g: "g \<in> set (d_carts d)" by (auto simp: get_cart_by_guest_token_def dest: find_SomeD)
    show ?thesis
    proof (cases "get_cart_by_user_id u d")
      case None
      with step_merge Some have "reassign_to_user g u d = Inr d'" by (simp add: merge_guest_cart_into_user_def)
      with g assms(2) reassign_ok repo_frames(7) show ?thesis by blast
    next
      case (Some c)
      then have c: "ct_id c \<in> ct_id ` set (d_carts d)" by (auto simp: get_cart_by_user_id_def dest: find_SomeD)
      from Some step_merge \<open>get_cart_by_guest_token token d = Some g\<close>
      obtain d1 where "merge_items_into_cart (ct_id c) (items_of (ct_id g) d) d = Inr d1"
        "d' = delete_cart (ct_id g) d1"
        by (auto simp: merge_guest_cart_into_user_def res_simps)
      then show ?thesis
        using merge_items_ok [OF _ assms(2) c] merge_items_frame delete_cart_ok repo_frames(6) shop_frame_trans
        by blast
    qed
  qed
qed

section \<open>Quantities\<close>

definition line_qty :: "int \<Rightarrow> int \<Rightarrow> int option \<Rightarrow> db \<Rightarrow> int" where
  "line_qty cid p v d = sum_list (map ci_quantity
     (filter (\<lambda>i. ci_cart_id i = cid \<and> ci_product_id i = p \<and> ci_variant_id i = v) (d_cart_items d)))"

definition qty_at :: "int \<Rightarrow> int \<Rightarrow> int option \<Rightarrow> cart_item \<Rightarrow> int" where
  "qty_at cid p v i =
     (if ci_cart_id i = cid \<and> ci_product_id i = p \<and> ci_variant_id i = v then ci_quantity i else 0)"

lemma line_qty_alt: "line_qty cid p v d = sum_list (map (qty_at cid p v) (d_cart_items d))"
  by (simp add: line_qty_def sum_list_filter_eq qty_at_def [abs_def])

lemma update_quantity_qty:
  assumes "update_quantity i q d = Inr d'" and "cart_ok d" and "i \<in> set (d_cart_items d)"
  shows "line_qty cid p v d' = line_qty cid p v d - qty_at cid p v i + qty_at cid p v (i\<lparr>ci_quantity := q\<rparr>)"
proof -
  have "row ci_id (ci_id (i\<lparr>ci_quantity := q\<rparr>)) (d_cart_items d) = Some i"
    using row_in_distinct [OF cart_okD(2) [OF assms(2)] assms(3)] by simp
  from sum_list_set_row [OF cart_okD(2) [OF assms(2)] this] show ?thesis
    using assms(1) by (auto simp: update_quantity_def line_qty_alt split: if_splits)
qed

lemma repo_add_item_qty:
  assumes "repo_add_item cid' pid q price vid d = Inr d'"
  shows "line_qty cid p v d' = line_qty cid p v d + (if cid' = cid \<and> pid = p \<and> vid = v then q else 0)"
  using assms by (auto simp: repo_add_item_def insert_cart_item_def fresh_def Let_def line_qty_alt qty_at_def
      split: if_splits)

lemma merge_line_qty:
  assumes "merge_line cid src d = Inr d'" and "cart_ok d"
  shows "line_qty c p v d' = line_qty c p v d
    + (if c = cid \<and> ci_product_id src = p \<and> ci_variant_id src = v then ci_quantity src else 0)"
proof (cases "find (\<lambda>i. ci_product_id i = ci_product_id src \<and> ci_variant_id i = ci_variant_id src) (items_of cid d)")
  case None
  with assms(1) repo_add_item_qty [of cid "ci_product_id src" "ci_quantity src" _ "ci_variant_id src" d d'] show ?thesis
    by (auto simp: merge_line_def)
next
  case (Some i)
  then have i: "i \<in> set (d_cart_items d)" "ci_cart_id i = cid" "ci_product_id i = ci_product_id src"
    "ci_variant_id i = ci_variant_id src"
    by (auto simp: items_of_def dest!: find_SomeD)
  from Some assms(1) have "update_quantity i (ci_quantity i + ci_quantity src) d = Inr d'"
    by (simp add: merge_line_def)
  from update_quantity_qty [OF this assms(2) i(1)] i(2-4) show ?thesis by (auto simp: qty_at_def)
qed

lemma merge_items_qty:
  assumes "rfold (merge_line cid) incoming d = Inr d'" and "cart_ok d" and "cid \<in> ct_id ` set (d_carts d)"
  shows "line_qty c p v d' = line_qty c p v d + (if c = cid then sum_list (map ci_quantity
      (filter (\<lambda>i. ci_product_id i = p \<and> ci_variant_id i = v) incoming)) else 0)"
  using assms
proof (induction incoming arbitrary: d)
  case (Cons x xs)
  from Cons.prems(1) obtain d1 where m: "merge_line cid x d = Inr d1" and r: "rfold (merge_line cid) xs d1 = Inr d'"
    by (auto simp: res_simps)
  have "cart_ok d1" "cid \<in> ct_id ` set (d_carts d1)"
    using merge_line_ok [OF m Cons.prems(2,3)] Cons.prems(3) by simp_all
  from Cons.IH [OF r this] merge_line_qty [OF m Cons.prems(2), of c p v] show ?case by auto
qed simp

lemma qty_at_other: "ci_cart_id i \<noteq> c \<Longrightarrow> qty_at c p v i = 0"
  by (simp add: qty_at_def)

lemma distinct_singleton: "distinct xs \<Longrightarrow> set xs = {a} \<Longrightarrow> xs = [a]"
  by (cases xs) (auto simp: subset_singleton_iff)

lemma delete_cart_qty:
  "line_qty c p v (delete_cart cid d) = (if c = cid then 0 else line_qty c p v d)"
proof -
  have "sum_list (map (qty_at c p v) (filter (\<lambda>i. ci_cart_id i \<noteq> cid) ls))
    = (if c = cid then 0 else sum_list (map (qty_at c p v) ls))" for ls
    by (induction ls) (auto simp: qty_at_other)
  then show ?thesis by (simp add: line_qty_alt delete_cart_def)
qed

lemma line_qty_single:
  assumes "cart_ok d" and "i \<in> set (d_cart_items d)"
  shows "line_qty (ci_cart_id i) (ci_product_id i) (ci_variant_id i) d = ci_quantity i"
proof -
  let ?f = "filter (\<lambda>j. ci_cart_id j = ci_cart_id i \<and> ci_product_id j = ci_product_id i
    \<and> ci_variant_id j = ci_variant_id i) (d_cart_items d)"
  have "j = i" if "j \<in> set ?f" for j
  proof -
    have "same_line j i" using that by (simp add: same_line_def split: option.split)
    with that assms(2) show ?thesis by (intro cart_okD(8) [OF assms(1)]) auto
  qed
  then have "set ?f = {i}" using assms(2) by auto
  moreover have "distinct ?f" using cart_okD(2) [OF assms(1)] by (simp add: distinct_map)
  ultimately have "?f = [i]" by (intro distinct_singleton)
  then show ?thesis by (simp add: line_qty_def)
qed

lemma line_qty_none:
  "get_item_by_product cid p v d = None \<Longrightarrow> line_qty cid p v d = 0"
  by (simp add: get_item_by_product_def find_None_iff line_qty_def filter_empty_conv)

lemma shop_frame_fields:
  "shop_frame d d' \<Longrightarrow> d_products d' = d_products d \<and> d_variants d' = d_variants d"
  unfolding shop_frame_def by (metis db.select_convs(2,3) db.surjective db.update_convs(1,7,8))

lemma resolve_unit_frame:
  "shop_frame d d' \<Longrightarrow> resolve_unit p v q d' = resolve_unit p v q d"
  unfolding resolve_unit_def get_product_def get_variant_def by (simp only: shop_frame_fields)

text \<open>The units available to a resolved line.\<close>

definition units_in_stock :: "product \<Rightarrow> variant option \<Rightarrow> int" where
  "units_in_stock p v = (case v of None \<Rightarrow> p_stock p | Some v \<Rightarrow> v_stock v)"

lemma resolve_unit_stock:
  "resolve_unit pid vid q d = Inr (p, v, price) \<Longrightarrow> q \<le> units_in_stock p v"
  by (auto simp: resolve_unit_def units_in_stock_def split: option.splits if_splits)

lemma resolve_unit_again:
  assumes "resolve_unit pid vid q d = Inr (p, v, price)"
    and "resolve_unit (Some (p_id p)) (map_option v_id v) q' d = Inr r"
  shows "r = (p, v, price)"
proof -
  have pv: "(case v of None \<Rightarrow> get_product (p_id p) d = Some p
      | Some v' \<Rightarrow> get_variant (v_id v') d = Some v' \<and> get_product (v_product_id v') d = Some p)
    \<and> price = (case v of None \<Rightarrow> p_price_cents p | Some v' \<Rightarrow> effective_price v' (p_price_cents p))"
    using assms(1) by (auto simp: resolve_unit_def get_product_def get_variant_def bind_eq_Some_conv
        split: option.splits if_splits dest: row_SomeD)
  then show ?thesis
    using assms(2) by (auto simp: resolve_unit_def split: option.splits if_splits)
qed

lemma update_quantity_length:
  "update_quantity i q d = Inr d' \<Longrightarrow> i \<in> set (d_cart_items d) \<Longrightarrow> cart_ok d \<Longrightarrow>
     length (items_of c d') = length (items_of c d)"
proof -
  assume a: "update_quantity i q d = Inr d'" "i \<in> set (d_cart_items d)" "cart_ok d"
  then have d': "d_cart_items d' = set_row ci_id (i\<lparr>ci_quantity := q\<rparr>) (d_cart_items d)"
    by (auto simp: update_quantity_def split: if_splits)
  have same: "ci_cart_id j = ci_cart_id i" if "j \<in> set (d_cart_items d)" "ci_id j = ci_id i" for j
    using that a(2) cart_okD(2) [OF a(3)] by (auto simp: distinct_map dest: inj_onD)
  have "map ci_cart_id (d_cart_items d') = map ci_cart_id (d_cart_items d)"
    unfolding d' set_row_def using same by auto
  moreover have "length (items_of c x) = length (filter (\<lambda>k. k = c) (map ci_cart_id (d_cart_items x)))" for x
    by (simp add: items_of_def filter_map comp_def)
  ultimately show ?thesis by (simp only:)
qed

text \<open>The pairs of product and variant a cart has lines for.\<close>

definition line_pair :: "cart_item \<Rightarrow> int \<times> int option" where
  "line_pair i = (ci_product_id i, ci_variant_id i)"

definition line_pairs :: "int \<Rightarrow> db \<Rightarrow> (int \<times> int option) set" where
  "line_pairs c d = line_pair ` set (items_of c d)"

lemma line_pairs_qty:
  assumes "cart_ok d"
  shows "(p, v) \<in> line_pairs c d \<longleftrightarrow> 0 < line_qty c p v d"
proof
  assume "(p, v) \<in> line_pairs c d"
  then obtain i where "i \<in> set (d_cart_items d)" "ci_cart_id i = c" "ci_product_id i = p" "ci_variant_id i = v"
    by (auto simp: line_pairs_def line_pair_def items_of_def)
  with line_qty_single [OF assms, of i] cart_okD(6) [OF assms, of i] show "0 < line_qty c p v d" by simp
next
  assume pos: "0 < line_qty c p v d"
  have "\<exists>i \<in> set (d_cart_items d). ci_cart_id i = c \<and> ci_product_id i = p \<and> ci_variant_id i = v"
  proof (rule ccontr)
    assume "\<not> ?thesis"
    then have "line_qty c p v d = 0" by (simp add: line_qty_def filter_empty_conv)
    with pos show False by simp
  qed
  then show "(p, v) \<in> line_pairs c d" by (force simp: line_pairs_def line_pair_def items_of_def)
qed

lemma length_items_card:
  assumes "cart_ok d"
  shows "length (items_of c d) = card (line_pairs c d)"
proof -
  have "distinct (items_of c d)" using cart_okD(2) [OF assms] by (simp add: items_of_def distinct_map)
  moreover have "inj_on line_pair (set (items_of c d))"
  proof (rule inj_onI)
    fix i j
    assume ij: "i \<in> set (items_of c d)" "j \<in> set (items_of c d)" "line_pair i = line_pair j"
    then have "same_line i j" by (simp add: items_of_def line_pair_def same_line_def split: option.split)
    with ij show "i = j" by (intro cart_okD(8) [OF assms]) (simp_all add: items_of_def)
  qed
  ultimately show ?thesis unfolding line_pairs_def by (simp only: card_image distinct_card)
qed

lemma find_unique:
  assumes "x \<in> set xs" and "P x" and "\<And>y. y \<in> set xs \<Longrightarrow> P y \<Longrightarrow> y = x"
  shows "find P xs = Some x"
proof (cases "find P xs")
  case None
  with assms(1,2) show ?thesis by (simp add: find_None_iff)
next
  case (Some y)
  then have "y = x" using find_SomeD [OF Some] by (intro assms(3)) auto
  with Some show ?thesis by simp
qed

lemma cart_by_user_unique:
  assumes "cart_ok d" and "c \<in> set (d_carts d)" and "ct_user_id c = Some u"
  shows "get_cart_by_user_id u d = Some c"
  unfolding get_cart_by_user_id_def
  using assms by (intro find_unique) (auto simp: cart_ok_def carts_ok_def same_owner_def)

lemma cart_by_token_unique:
  assumes "cart_ok d" and "c \<in> set (d_carts d)" and "ct_guest_token c = Some t" "y \<in> set (d_carts d)"
    "ct_guest_token y = Some t"
  shows "y = c"
  using assms by (auto simp: cart_ok_def carts_ok_def same_owner_def)

text \<open>The user's quantities after a merge, in both of its branches.\<close>

definition user_qty :: "int \<Rightarrow> int \<Rightarrow> int option \<Rightarrow> db \<Rightarrow> int" where
  "user_qty u p v d = (case get_cart_by_user_id u d of None \<Rightarrow> 0 | Some c \<Rightarrow> line_qty (ct_id c) p v d)"

lemma merge_reassign:
  assumes "reassign_to_user g u d = Inr d'" and "cart_ok d" and "get_cart_by_guest_token t d = Some g"
    and "get_cart_by_user_id u d = None"
  shows "get_cart_by_guest_token t d' = None \<and> user_qty u p v d' = user_qty u p v d + line_qty (ct_id g) p v d"
proof -
  let ?g = "g\<lparr>ct_user_id := Some u, ct_guest_token := None\<rparr>"
  have g: "g \<in> set (d_carts d)" "ct_guest_token g = Some t"
    using assms(3) by (auto simp: get_cart_by_guest_token_def dest: find_SomeD)
  have d': "d' = d\<lparr>d_carts := set_row ct_id ?g (d_carts d)\<rparr>"
    using assms(1) by (auto simp: reassign_to_user_def split: if_splits)
  have "ct_guest_token x \<noteq> Some t" if "x \<in> set (d_carts d')" for x
    using set_set_rowD [of x ct_id ?g "d_carts d"] that cart_by_token_unique [OF assms(2) g, of x] by (auto simp: d')
  then have no: "get_cart_by_guest_token t d' = None" by (auto simp: get_cart_by_guest_token_def find_None_iff)
  have "?g \<in> set (d_carts d')" using g(1) by (force simp: d' set_row_def)
  from cart_by_user_unique [OF reassign_ok [OF assms(1,2) g(1)] this]
  have "get_cart_by_user_id u d' = Some ?g" by simp
  with no assms(4) show ?thesis by (simp add: user_qty_def line_qty_def d')
qed

lemma merge_both:
  assumes "merge_items_into_cart (ct_id c) (items_of (ct_id g) d) d = Inr d1" and "d' = delete_cart (ct_id g) d1"
    and "cart_ok d" and "get_cart_by_guest_token t d = Some g" and "get_cart_by_user_id u d = Some c"
  shows "get_cart_by_guest_token t d' = None \<and> get_cart_by_user_id u d' = Some c
    \<and> user_qty u p v d' = user_qty u p v d + line_qty (ct_id g) p v d"
proof -
  have g: "g \<in> set (d_carts d)" "ct_guest_token g = Some t"
    using assms(4) by (auto simp: get_cart_by_guest_token_def dest: find_SomeD)
  have c: "c \<in> set (d_carts d)" "ct_user_id c = Some u"
    using assms(5) by (auto simp: get_cart_by_user_id_def dest: find_SomeD)
  have "c \<noteq> g" using cart_okD(4) [OF assms(3) c(1)] c(2) g(2) by auto
  then have ids: "ct_id c \<noteq> ct_id g" using c(1) g(1) cart_okD(1) [OF assms(3)] by (auto simp: distinct_map dest: inj_onD)
  have cid: "ct_id c \<in> ct_id ` set (d_carts d)" using c(1) by blast
  note ok1 = merge_items_ok [OF assms(1,3) cid]
  have cs: "d_carts d' = filter (\<lambda>x. ct_id x \<noteq> ct_id g) (d_carts d)"
    using ok1 by (simp add: assms(2) delete_cart_def)
  have no: "get_cart_by_guest_token t d' = None"
    using cart_by_token_unique [OF assms(3) g] by (auto simp: get_cart_by_guest_token_def find_None_iff cs)
  have "get_cart_by_user_id u d' = Some c"
    using delete_cart_ok [of d1 "ct_id g"] ok1 c ids by (intro cart_by_user_unique) (auto simp: assms(2) delete_cart_def)
  moreover have "sum_list (map ci_quantity (filter (\<lambda>i. ci_product_id i = p \<and> ci_variant_id i = v) (items_of (ct_id g) d)))
    = line_qty (ct_id g) p v d"
    by (simp add: items_of_def line_qty_def conj_ac)
  ultimately show ?thesis
    using no ids assms(5) merge_items_qty [OF assms(1) [unfolded merge_items_into_cart_def] assms(3) cid, of "ct_id c" p v]
    by (simp add: user_qty_def assms(2) delete_cart_qty)
qed

section \<open>Properties\<close>

text \<open>
  Whatever sequence of cart operations runs, by whichever customers and guests, the cart
  tables stay well formed: one cart per identity, each of a user or of a guest but not both, every
  line with a positive quantity in an existing cart, at most one line per simple product or variant
  in a cart. No cart operation changes stock, prices, orders or any other table.
\<close>

theorem carts_well_formed:
  assumes "cart_step\<^sup>*\<^sup>* d d'" and "cart_ok d"
  shows "cart_ok d' \<and> shop_frame d d'"
  using assms
proof (induction rule: rtranclp_induct)
  case (step d1 d2)
  then show ?case using cart_step_ok [OF step.hyps(2)] shop_frame_trans by blast
qed simp

definition cart_line :: "int \<Rightarrow> int \<Rightarrow> int \<Rightarrow> int option \<Rightarrow> int \<Rightarrow> cart_item" where
  "cart_line i c p v q = \<lparr>ci_id = i, ci_cart_id = c, ci_product_id = p, ci_variant_id = v, ci_quantity = q,
     ci_price_cents_snapshot = 500\<rparr>"

text \<open>The sample shop with a user's cart (two of product 1) and a guest's (one more of it, and a variant).\<close>

definition sample_carts :: db where
  "sample_carts = sample_shop\<lparr>
     d_carts := [\<lparr>ct_id = 20, ct_user_id = Some 7, ct_guest_token = None\<rparr>,
                 \<lparr>ct_id = 21, ct_user_id = None, ct_guest_token = Some ''tok''\<rparr>],
     d_cart_items := [cart_line 30 20 1 None 2, cart_line 31 21 1 None 1, cart_line 32 21 2 (Some 5) 3]\<rparr>"

lemma sample_carts_ok: "cart_ok sample_carts"
  by (simp add: cart_ok_def carts_ok_def lines_ok_def same_owner_def same_line_def sample_carts_def sample_shop_def
      empty_db_def cart_line_def)

theorem carts_well_formed_witness:
  "\<exists>d'. cart_step\<^sup>*\<^sup>* sample_carts d' \<and> d' \<noteq> sample_carts \<and> cart_ok d' \<and> shop_frame sample_carts d'"
proof -
  let ?d = "snd (projr (clear_cart (Some 7) None sample_carts))"
  have "case clear_cart (Some 7) None sample_carts of Inl _ \<Rightarrow> False | Inr _ \<Rightarrow> True" by code_simp
  then obtain c where "clear_cart (Some 7) None sample_carts = Inr (c, ?d)"
    by (auto split: sum.splits)
  then have "cart_step\<^sup>*\<^sup>* sample_carts ?d" by (intro r_into_rtranclp step_clear)
  moreover have "length (d_cart_items ?d) \<noteq> length (d_cart_items sample_carts)" by code_simp
  then have "?d \<noteq> sample_carts" by metis
  ultimately show ?thesis using carts_well_formed [OF _ sample_carts_ok] by blast
qed

text \<open>
  Adding to a cart either fails or leaves a line for exactly the requested product or
  variant whose quantity has grown by the requested amount and does not exceed the units in stock;
  the line belongs to the caller's cart, and a new line is only made while the cart has fewer than
  fifty.
\<close>

theorem add_item_exact:
  assumes "add_item user guest pid vid q d = Inr (c, d')" and "cart_ok d"
  shows "\<exists>p v price. resolve_unit pid vid q d = Inr (p, v, price)
      \<and> line_qty (ct_id c) (p_id p) (map_option v_id v) d' = line_qty (ct_id c) (p_id p) (map_option v_id v) d + q
      \<and> line_qty (ct_id c) (p_id p) (map_option v_id v) d' \<le> units_in_stock p v
      \<and> owns c user guest
      \<and> length (items_of (ct_id c) d') \<le> max (length (items_of (ct_id c) d)) MAX_CART_LINES"
  using assms(1)
proof (rule add_item_cases)
  fix d1 p v price
  assume c: "get_or_create_cart user guest d = Inr (c, d1)"
    and r: "resolve_unit pid vid q d1 = Inr (p, v, price)"
    and b: "(\<exists>i. get_item_by_product (ct_id c) (p_id p) (map_option v_id v) d1 = Some i
        \<and> (\<exists>r. resolve_unit (Some (p_id p)) (map_option v_id v) (ci_quantity i + q) d1 = Inr r)
        \<and> update_quantity i (ci_quantity i + q) d1 = Inr d')
     \<or> (get_item_by_product (ct_id c) (p_id p) (map_option v_id v) d1 = None
        \<and> length (items_of (ct_id c) d1) < MAX_CART_LINES
        \<and> repo_add_item (ct_id c) (p_id p) q price (map_option v_id v) d1 = Inr d')"
  let ?v = "map_option v_id v"
  have ok: "cart_ok d1" "d_cart_items d1 = d_cart_items d" "owns c user guest"
    using get_or_create_cart_ok [OF c assms(2)] by simp_all
  have same: "line_qty (ct_id c) (p_id p) ?v d = line_qty (ct_id c) (p_id p) ?v d1"
    "items_of (ct_id c) d = items_of (ct_id c) d1"
    by (simp_all add: line_qty_def items_of_def ok(2))
  have "line_qty (ct_id c) (p_id p) ?v d' = line_qty (ct_id c) (p_id p) ?v d + q
      \<and> line_qty (ct_id c) (p_id p) ?v d' \<le> units_in_stock p v
      \<and> length (items_of (ct_id c) d') \<le> max (length (items_of (ct_id c) d)) MAX_CART_LINES"
    using b
  proof (elim disjE exE conjE)
    fix i s
    assume i: "get_item_by_product (ct_id c) (p_id p) ?v d1 = Some i"
      and s: "resolve_unit (Some (p_id p)) ?v (ci_quantity i + q) d1 = Inr s"
      and u: "update_quantity i (ci_quantity i + q) d1 = Inr d'"
    note i' = get_item_in [OF i]
    have "ci_quantity i + q \<le> units_in_stock p v"
      using resolve_unit_stock s unfolding resolve_unit_again [OF r s] by blast
    moreover have "line_qty (ct_id c) (p_id p) ?v d1 = ci_quantity i"
      using line_qty_single [OF ok(1), of i] i' by simp
    ultimately show ?thesis
      using update_quantity_qty [OF u ok(1), of "ct_id c" "p_id p" ?v] i' update_quantity_length [OF u _ ok(1)]
      by (simp add: same qty_at_def)
  next
    assume n: "get_item_by_product (ct_id c) (p_id p) ?v d1 = None"
      and l: "length (items_of (ct_id c) d1) < MAX_CART_LINES"
      and a: "repo_add_item (ct_id c) (p_id p) q price ?v d1 = Inr d'"
    have "length (items_of (ct_id c) d') = length (items_of (ct_id c) d1) + 1"
      using a by (auto simp: repo_add_item_def insert_cart_item_def fresh_def Let_def items_of_def split: if_splits)
    with repo_add_item_qty [OF a, of "ct_id c" "p_id p" ?v] line_qty_none [OF n] resolve_unit_stock [OF r] l
    show ?thesis by (simp add: same)
  qed
  with r ok(3) resolve_unit_frame [OF repo_frames(1) [OF c]] show ?thesis by auto
qed

text \<open>
  Logging in merges the guest's cart into the user's and loses nothing: for every product
  and variant the user's quantity afterwards is the sum of both carts' quantities, and the guest cart
  is gone. The merged cart has one line for every product or variant of either cart, however many
  that makes: the limit of fifty lines that adding an item enforces is not applied.
\<close>

theorem merge_conserves_quantities:
  assumes "merge_guest_cart_into_user u t d = Inr d'" and "cart_ok d" and "get_cart_by_guest_token t d = Some g"
  shows "get_cart_by_guest_token t d' = None \<and> user_qty u p v d' = user_qty u p v d + line_qty (ct_id g) p v d
    \<and> (get_cart_by_user_id u d = Some c \<longrightarrow>
         length (items_of (ct_id c) d') = card (line_pairs (ct_id c) d \<union> line_pairs (ct_id g) d))"
proof (cases "get_cart_by_user_id u d")
  case None
  with assms merge_reassign show ?thesis by (simp add: merge_guest_cart_into_user_def)
next
  case (Some c')
  with assms obtain d1 where m: "merge_items_into_cart (ct_id c') (items_of (ct_id g) d) d = Inr d1"
    "d' = delete_cart (ct_id g) d1"
    by (auto simp: merge_guest_cart_into_user_def res_simps)
  note q = merge_both [OF m assms(2,3) Some]
  have ok': "cart_ok d'" using cart_step_ok [OF step_merge [OF assms(1)] assms(2)] by simp
  have nn: "0 \<le> line_qty x a b d" for x a b
    using cart_okD(6) [OF assms(2)] unfolding line_qty_def by (intro sum_list_nonneg_int) (auto intro: less_imp_le)
  have qq: "line_qty (ct_id c') a b d' = line_qty (ct_id c') a b d + line_qty (ct_id g) a b d" for a b
    using merge_both [OF m assms(2,3) Some, of a b] Some by (auto simp: user_qty_def)
  have "pv \<in> line_pairs (ct_id c') d' \<longleftrightarrow> pv \<in> line_pairs (ct_id c') d \<union> line_pairs (ct_id g) d" for pv
    using qq [of "fst pv" "snd pv"] nn [of "ct_id c'" "fst pv" "snd pv"] nn [of "ct_id g" "fst pv" "snd pv"]
      line_pairs_qty [OF ok', of "fst pv" "snd pv"] line_pairs_qty [OF assms(2), of "fst pv" "snd pv"]
    by simp linarith
  then have "line_pairs (ct_id c') d' = line_pairs (ct_id c') d \<union> line_pairs (ct_id g) d" by blast
  with q length_items_card [OF ok'] Some show ?thesis by auto
qed

text \<open>
  The cart digest that the checkout stores with an order identifies the contents of the
  cart: unless SHA-256 collides on the two texts, two carts have the same digest exactly when they
  hold the same lines (product, variant, quantity), in whatever order.
\<close>

theorem cart_digest_identifies:
  assumes "sha (digest_text xs) = sha (digest_text ys) \<Longrightarrow> digest_text xs = digest_text ys"
  shows "cart_digest sha xs = cart_digest sha ys \<longleftrightarrow> mset (map line_key xs) = mset (map line_key ys)"
  using assms digest_text_eq [of xs ys] by (auto simp: cart_digest_def)

theorem cart_digest_identifies_witness:
  "cart_digest (\<lambda>s. s) [cart_line 1 1 1 None 2, cart_line 2 1 2 (Some 5) 1]
     = cart_digest (\<lambda>s. s) [cart_line 3 9 2 (Some 5) 1, cart_line 4 9 1 None 2]
   \<and> cart_digest (\<lambda>s. s) [cart_line 1 1 1 None 2] \<noteq> cart_digest (\<lambda>s. s) [cart_line 1 1 12 None 2]"
  using cart_digest_identifies [of "\<lambda>s. s" "[cart_line 1 1 1 None 2, cart_line 2 1 2 (Some 5) 1]"
      "[cart_line 3 9 2 (Some 5) 1, cart_line 4 9 1 None 2]"]
    cart_digest_identifies [of "\<lambda>s. s" "[cart_line 1 1 1 None 2]" "[cart_line 1 1 12 None 2]"]
  by (simp add: cart_line_def line_key_def id_or_zero_def)

theorem merge_conserves_quantities_witness:
  "\<exists>d'. merge_guest_cart_into_user 7 ''tok'' sample_carts = Inr d' \<and> user_qty 7 1 None d' = 3
     \<and> user_qty 7 2 (Some 5) d' = 3 \<and> get_cart_by_guest_token ''tok'' d' = None"
proof -
  let ?g = "\<lparr>ct_id = 21, ct_user_id = None, ct_guest_token = Some ''tok''\<rparr> :: cart"
  have "case merge_guest_cart_into_user 7 ''tok'' sample_carts of Inl _ \<Rightarrow> False | Inr _ \<Rightarrow> True" by code_simp
  then obtain d' where d': "merge_guest_cart_into_user 7 ''tok'' sample_carts = Inr d'" by (auto split: sum.splits)
  have g: "get_cart_by_guest_token ''tok'' sample_carts = Some ?g" by code_simp
  have "user_qty 7 1 None sample_carts + line_qty 21 1 None sample_carts = 3"
    "user_qty 7 2 (Some 5) sample_carts + line_qty 21 2 (Some 5) sample_carts = 3" by code_simp+
  with merge_conserves_quantities [OF d' sample_carts_ok g, of 1 None] d'
    merge_conserves_quantities [OF d' sample_carts_ok g, of 2 "Some 5"] show ?thesis by auto
qed

theorem add_item_exact_witness:
  "\<exists>c d'. add_item (Some 7) None (Some 1) None 4 sample_carts = Inr (c, d') \<and> line_qty (ct_id c) 1 None d' \<le> 10"
proof -
  have "case add_item (Some 7) None (Some 1) None 4 sample_carts of Inl _ \<Rightarrow> False | Inr _ \<Rightarrow> True" by code_simp
  then obtain c d' where d': "add_item (Some 7) None (Some 1) None 4 sample_carts = Inr (c, d')"
    by (auto split: sum.splits)
  have "resolve_unit (Some 1) None 4 sample_carts = Inr (sample_product 1 500 10 0, None, 500)" by code_simp
  with add_item_exact [OF d' sample_carts_ok] d' show ?thesis
    by (auto simp: sample_product_def units_in_stock_def)
qed

end
