(* ===== verification/Checkout.thy ===== *)
theory Checkout
  imports Cart
begin

text \<open>
  \<open>modules/orders\<close>: \<open>order_service.py\<close> (checkout, quote, guest payment tokens, access), \<open>shipping.py\<close>,
  \<open>eligibility.py\<close>, the parts of \<open>order_repository.py\<close> they use, and the store currency of
  \<open>store_repository.py\<close>. The body of \<open>checkout\<close> is split where its comments split it: \<open>replay\<close> (the
  idempotency key was used before), \<open>price_cart\<close> (locked rows, stock check, current prices), \<open>settle\<close>
  (shipping, coupon, tax) and \<open>place_order\<close> (stock, order, empty cart). An exception rolls the request
  back, so an \<open>Inl\<close> stands for an unchanged database; the price-change answer is returned by the router
  so that the refreshed cart is committed, hence the outcome \<open>PricesChanged\<close>.
\<close>

section \<open>Configuration of the service\<close>

record delivery_decision =
  dd_deliverable :: bool
  dd_checked :: bool
  dd_policy :: string
  dd_reason :: "string option"

record config =
  cf_flat_shipping_cents :: "int option"
  cf_free_shipping_threshold_cents :: "int option"
  cf_free_shipping_threshold_basis :: "string option"
  cf_require_tax_classification :: bool
  cf_tax_engine :: tax_engine
  cf_currency :: "string option"
  cf_store_repository :: bool
  cf_default_store_currency :: string
  cf_address_repository :: bool
  cf_delivery_eligibility :: "shipping_address option \<Rightarrow> delivery_decision"
  cf_pending_order_timeout_minutes :: int

definition NoServiceabilityCheck :: "shipping_address option \<Rightarrow> delivery_decision" where
  "NoServiceabilityCheck address =
     \<lparr>dd_deliverable = True, dd_checked = False, dd_policy = ''none'', dd_reason = None\<rparr>"

definition choose_engine :: "tax_engine option \<Rightarrow> rat option \<Rightarrow> tax_engine" where
  "choose_engine tax_engine tax_rate_percent =
     (case tax_engine of Some e \<Rightarrow> e
      | None \<Rightarrow> (case tax_rate_percent of Some r \<Rightarrow> FlatInterimTaxEngine r | None \<Rightarrow> NotConfiguredTaxEngine))"

text \<open>A threshold of None or 0 is disabled.\<close>

definition threshold_of :: "config \<Rightarrow> int option" where
  "threshold_of cfg = (if cf_free_shipping_threshold_cents cfg = Some 0 then None
                       else cf_free_shipping_threshold_cents cfg)"

definition assert_pricing_configured :: "config \<Rightarrow> (shop_error, unit) result" where
  "assert_pricing_configured cfg =
     (if cf_flat_shipping_cents cfg = None \<or> \<not> is_configured (cf_tax_engine cfg) then Inl CheckoutNotConfigured
      else if threshold_of cfg \<noteq> None \<and> cf_free_shipping_threshold_basis cfg = None then Inl CheckoutNotConfigured
      else Inr ())"

section \<open>Store currency\<close>

definition effective_currency :: "string \<Rightarrow> db \<Rightarrow> string option \<times> bool" where
  "effective_currency default_code d =
     (case d_store_currency d of
        Some c \<Rightarrow> (Some c, True)
      | None \<Rightarrow> if d_orders d \<noteq> [] then (None, False) else (Some default_code, False))"

definition initialize_currency :: "string \<Rightarrow> db \<Rightarrow> bool \<times> db" where
  "initialize_currency code d =
     (case d_store_currency d of
        Some _ \<Rightarrow> (False, d)
      | None \<Rightarrow> (True, d\<lparr>d_store_currency := Some code\<rparr>))"

definition get_or_initialize_currency :: "string \<Rightarrow> db \<Rightarrow> string option \<times> db" where
  "get_or_initialize_currency default_code d =
     (case effective_currency default_code d of
        (None, _) \<Rightarrow> (None, d)
      | (Some c, True) \<Rightarrow> (Some c, d)
      | (Some c, False) \<Rightarrow>
          let d1 = snd (initialize_currency c d)
          in (Some (case d_store_currency d1 of Some s \<Rightarrow> if s = '''' then c else s | None \<Rightarrow> c), d1))"

definition resolve_currency :: "config \<Rightarrow> db \<Rightarrow> (shop_error, currency \<times> db) result" where
  "resolve_currency cfg d =
     (let (code, d1) = (if cf_currency cfg = None \<and> cf_store_repository cfg
                        then get_or_initialize_currency (cf_default_store_currency cfg) d
                        else (cf_currency cfg, d))
      in case code of
           None \<Rightarrow> Inl StoreCurrencyNotConfigured
         | Some c \<Rightarrow> rbind (lift_err MoneyError (get_currency c)) (\<lambda>cur. Inr (cur, d1)))"

section \<open>Shipping\<close>

definition shipping_snapshot_of :: "config \<Rightarrow> int \<Rightarrow> currency \<Rightarrow> delivery_decision \<Rightarrow> shipping_snapshot" where
  "shipping_snapshot_of cfg shipping_cents cur delivery =
     \<lparr>ss_flat_charge_paise = cf_flat_shipping_cents cfg,
      ss_free_threshold_paise = threshold_of cfg,
      ss_threshold_basis = cf_free_shipping_threshold_basis cfg,
      ss_currency = cur_code cur,
      ss_minor_unit_exponent = cur_exponent cur,
      ss_applied_paise = shipping_cents,
      ss_free_shipping_applied = (threshold_of cfg \<noteq> None \<and> shipping_cents = 0
         \<and> cf_flat_shipping_cents cfg \<notin> {None, Some 0}),
      ss_delivery_checked = dd_checked delivery,
      ss_delivery_policy = dd_policy delivery\<rparr>"

definition calculate_shipping :: "config \<Rightarrow> int \<Rightarrow> (shop_error, int) result" where
  "calculate_shipping cfg subtotal_cents =
     rbind (assert_pricing_configured cfg) (\<lambda>_.
     case threshold_of cfg of
       Some t \<Rightarrow> if t \<le> subtotal_cents then Inr 0
                 else (case cf_flat_shipping_cents cfg of Some f \<Rightarrow> Inr f | None \<Rightarrow> Inl CheckoutNotConfigured)
     | None \<Rightarrow> (case cf_flat_shipping_cents cfg of Some f \<Rightarrow> Inr f | None \<Rightarrow> Inl CheckoutNotConfigured))"

definition address_get_by_id :: "int \<Rightarrow> db \<Rightarrow> address option" where
  "address_get_by_id i d = row ad_id i (d_addresses d)"

definition get_default_for_user :: "int \<Rightarrow> db \<Rightarrow> address option" where
  "get_default_for_user user_id d = find (\<lambda>a. ad_user_id a = user_id \<and> ad_is_default a) (d_addresses d)"

text \<open>\<open>_resolve_shipping_snapshot\<close>; the empty dictionary of columns is \<open>None\<close>.\<close>

definition resolve_shipping_snapshot ::
  "config \<Rightarrow> int option \<Rightarrow> int option \<Rightarrow> shipping_address option \<Rightarrow> db \<Rightarrow> (shop_error, shipping_address option) result" where
  "resolve_shipping_snapshot cfg user_id address_id shipping_address d =
     (case shipping_address of
        Some a \<Rightarrow> Inr (Some a)
      | None \<Rightarrow>
          (case user_id of
             None \<Rightarrow> Inl ShippingAddressRequired
           | Some u \<Rightarrow>
               (case address_id of
                  Some i \<Rightarrow>
                    if \<not> cf_address_repository cfg then Inl ShippingAddressRequired
                    else (case address_get_by_id i d of
                            None \<Rightarrow> Inl (AddressNotFound i)
                          | Some a \<Rightarrow> if ad_user_id a \<noteq> u then Inl (AddressNotFound i) else Inr (Some (ad_columns a)))
                | None \<Rightarrow>
                    if cf_address_repository cfg then Inr (map_option ad_columns (get_default_for_user u d))
                    else Inr None)))"

section \<open>Fingerprint of a request\<close>

text \<open>\<open>json.dumps\<close> with sorted keys and no spaces; non-ASCII characters are escaped.\<close>

definition hex_digit :: "int \<Rightarrow> char" where
  "hex_digit n = (if n < 10 then char_of (nat (48 + n)) else char_of (nat (87 + n)))"

definition json_char :: "char \<Rightarrow> string" where
  "json_char c =
     (let n = char_code c; bs = [char_of (92 :: nat)] in
      if n = 34 \<or> n = 92 then bs @ [c]
      else if n = 10 then bs @ ''n'' else if n = 13 then bs @ ''r'' else if n = 9 then bs @ ''t''
      else if n = 12 then bs @ ''f'' else if n = 8 then bs @ ''b''
      else if 32 \<le> n \<and> n \<le> 126 then [c]
      else bs @ ''u00'' @ [hex_digit (n div 16), hex_digit (n mod 16)])"

definition json_string :: "string \<Rightarrow> string" where
  "json_string s = [char_of (34 :: nat)] @ concat (map json_char s) @ [char_of (34 :: nat)]"

definition json_option :: "('a \<Rightarrow> string) \<Rightarrow> 'a option \<Rightarrow> string" where
  "json_option f v = (case v of None \<Rightarrow> ''null'' | Some x \<Rightarrow> f x)"

fun join_comma :: "string list \<Rightarrow> string" where
  "join_comma [] = []"
| "join_comma [w] = w"
| "join_comma (w # v # ws) = w @ '','' @ join_comma (v # ws)"

definition json_object :: "(string \<times> string) list \<Rightarrow> string" where
  "json_object kvs = ''{'' @ join_comma (map (\<lambda>(k, v). json_string k @ '':'' @ v) kvs) @ ''}''"

definition json_address :: "shipping_address \<Rightarrow> string" where
  "json_address a = json_object
     [(''city'', json_string (sa_city a)), (''country'', json_string (sa_country a)),
      (''line1'', json_string (sa_line1 a)), (''line2'', json_option json_string (sa_line2 a)),
      (''postal_code'', json_string (sa_postal_code a)),
      (''recipient_name'', json_string (sa_recipient_name a)), (''state'', json_string (sa_state a))]"

definition truthy :: "string option \<Rightarrow> bool" where
  "truthy s = (case s of None \<Rightarrow> False | Some t \<Rightarrow> t \<noteq> '''')"

definition request_fingerprint ::
  "(string \<Rightarrow> string) \<Rightarrow> int option \<Rightarrow> shipping_address option \<Rightarrow> string option \<Rightarrow> string option \<Rightarrow> string" where
  "request_fingerprint sha address_id shipping_address guest_email coupon_code =
     sha (json_object
       ([(''address_id'', json_option show_int address_id)]
        @ (if truthy coupon_code then [(''coupon_code'', json_option json_string coupon_code)] else [])
        @ [(''guest_email'', json_option json_string guest_email),
           (''shipping_address'', json_option json_address shipping_address)]))"

section \<open>Order repository\<close>

text \<open>Scoped to the identity; the unique constraints leave at most one match for a given identity.\<close>

definition get_by_idempotency_key :: "string \<Rightarrow> int option \<Rightarrow> string option \<Rightarrow> db \<Rightarrow> order option" where
  "get_by_idempotency_key key user_id guest_token d =
     find (\<lambda>ord. o_idempotency_key ord = key
               \<and> (case user_id of
                    Some u \<Rightarrow> o_user_id ord = Some u
                  | None \<Rightarrow> o_guest_token ord = guest_token)) (d_orders d)"

definition get_order_by_id :: "int \<Rightarrow> db \<Rightarrow> order option" where
  "get_order_by_id i d = row o_id i (d_orders d)"

definition get_by_guest_token :: "int \<Rightarrow> string \<Rightarrow> db \<Rightarrow> order option" where
  "get_by_guest_token i token d = find (\<lambda>ord. o_id ord = i \<and> o_guest_token ord = Some token) (d_orders d)"

definition list_stale_pending_order_ids :: "int \<Rightarrow> db \<Rightarrow> int list" where
  "list_stale_pending_order_ids older_than d =
     map o_id (filter (\<lambda>ord. o_status ord = PENDING \<and> o_created_at ord < older_than) (d_orders d))"

definition list_for_user :: "int \<Rightarrow> nat \<Rightarrow> nat \<Rightarrow> db \<Rightarrow> order list \<times> int" where
  "list_for_user user_id offset limit d =
     (let rows = filter (\<lambda>ord. o_user_id ord = Some user_id) (d_orders d)
      in (take limit (drop offset (rev (sort_key o_created_at rows))), int (length rows)))"

definition list_all_orders :: "nat \<Rightarrow> nat \<Rightarrow> order_status option \<Rightarrow> db \<Rightarrow> order list \<times> int" where
  "list_all_orders offset limit status d =
     (let rows = filter (\<lambda>ord. case status of None \<Rightarrow> True | Some s \<Rightarrow> o_status ord = s) (d_orders d)
      in (take limit (drop offset (rev (sort_key o_created_at rows))), int (length rows)))"

definition order_items_of :: "int \<Rightarrow> db \<Rightarrow> order_item list" where
  "order_items_of order_id d = filter (\<lambda>i. oi_order_id i = order_id) (d_order_items d)"

text \<open>The constraints of the tables \<open>orders\<close> and \<open>order_items\<close> on a new row.\<close>

definition order_checks :: "order \<Rightarrow> db \<Rightarrow> bool" where
  "order_checks ord d \<longleftrightarrow>
     list_all int32 [o_subtotal_cents ord, o_discount_cents ord, o_shipping_cents ord, o_tax_cents ord, o_total_cents ord]
     \<and> 0 \<le> o_discount_cents ord \<and> o_discount_cents ord \<le> o_subtotal_cents ord
     \<and> (o_coupon_id ord = None) = (o_coupon_code ord = None)
     \<and> (o_coupon_id ord \<noteq> None \<or> o_discount_cents ord = 0)
     \<and> ((o_user_id ord \<noteq> None \<and> o_guest_token ord = None \<and> o_guest_email ord = None)
        \<or> (o_user_id ord = None \<and> o_guest_token ord \<noteq> None \<and> o_guest_email ord \<noteq> None))
     \<and> \<not> list_ex (\<lambda>x. o_idempotency_key x = o_idempotency_key ord
          \<and> (o_user_id ord \<noteq> None \<and> o_user_id x = o_user_id ord
             \<or> o_guest_token ord \<noteq> None \<and> o_guest_token x = o_guest_token ord)) (d_orders d)"

definition order_item_checks :: "order_item \<Rightarrow> db \<Rightarrow> bool" where
  "order_item_checks i d \<longleftrightarrow>
     0 < oi_quantity i \<and> int32 (line_total_cents i)
     \<and> 0 \<le> oi_discount_cents i \<and> oi_discount_cents i \<le> line_total_cents i
     \<and> line_variant_rule (oi_product_id i) (oi_variant_id i) d
     \<and> (case oi_variant_id i of
          None \<Rightarrow> True
        | Some v \<Rightarrow> list_ex (\<lambda>x. v_id x = v \<and> v_product_id x = oi_product_id i) (d_variants d))"

text \<open>One entry of \<open>order_items_data\<close>.\<close>

record order_line =
  ln_product_id :: int
  ln_product_name_snapshot :: string
  ln_sku_snapshot :: string
  ln_price_cents_snapshot :: int
  ln_quantity :: int
  ln_variant_id :: "int option"
  ln_variant_snapshot :: "variant_snapshot option"
  ln_discount_cents :: int

definition insert_order_item :: "int \<Rightarrow> order_line \<Rightarrow> db \<Rightarrow> (shop_error, db) result" where
  "insert_order_item order_id l d =
     (let (i, d1) = fresh d;
          r = \<lparr>oi_id = i, oi_order_id = order_id, oi_product_id = ln_product_id l,
               oi_product_name_snapshot = ln_product_name_snapshot l,
               oi_price_cents_snapshot = ln_price_cents_snapshot l, oi_quantity = ln_quantity l,
               oi_variant_id = ln_variant_id l, oi_sku_snapshot = ln_sku_snapshot l,
               oi_variant_snapshot = ln_variant_snapshot l, oi_restocked_quantity = 0,
               oi_discount_cents = ln_discount_cents l\<rparr>
      in if \<not> order_item_checks r d1 then Inl (IntegrityError ''order_items'')
         else Inr (d1\<lparr>d_order_items := d_order_items d1 @ [r]\<rparr>))"

definition create_order :: "order \<Rightarrow> order_line list \<Rightarrow> int \<Rightarrow> db \<Rightarrow> (shop_error, db) result" where
  "create_order ord items now d =
     (if \<not> order_checks ord d then Inl (IntegrityError ''orders'')
      else rbind (rfold (insert_order_item (o_id ord)) items (d\<lparr>d_orders := d_orders d @ [ord]\<rparr>)) (\<lambda>d.
           Inr (d\<lparr>d_order_history := d_order_history d @
             [\<lparr>oh_order_id = o_id ord, oh_from_status = PENDING, oh_to_status = PENDING,
               oh_changed_by_user_id = None, oh_reason = None, oh_created_at = now\<rparr>]\<rparr>)))"

section \<open>Pricing the cart\<close>

text \<open>What is charged for goods, as the tax calculation sees a line.\<close>

record tax_input =
  ti_product_id :: int
  ti_quantity :: int
  ti_price_cents :: int
  ti_discount_cents :: int

definition MINUTE :: int where
  "MINUTE = 60 * 1000000"

text \<open>\<open>datetime.now(timezone(timedelta(hours=5, minutes=30))).date()\<close> as a day number.\<close>

definition india_today :: "int \<Rightarrow> int" where
  "india_today now = (now + 330 * MINUTE) div (24 * 60 * MINUTE)"

definition calculate_tax ::
  "config \<Rightarrow> tax_input list \<Rightarrow> product list \<Rightarrow> int \<Rightarrow> int \<Rightarrow> shipping_address option \<Rightarrow> int \<Rightarrow> db
     \<Rightarrow> (shop_error, tax_result) result" where
  "calculate_tax cfg items products subtotal_cents shipping_cents columns now d =
     rbind (rmap (\<lambda>i. case row p_id (ti_product_id i) products of
                        None \<Rightarrow> Inl KeyError
                      | Some p \<Rightarrow> Inr \<lparr>tl_product_id = ti_product_id i, tl_quantity = ti_quantity i,
                                       tl_unit_price_paise = ti_price_cents i,
                                       tl_classification_id = p_tax_classification_id p,
                                       tl_discount_paise = ti_discount_cents i\<rparr>) items) (\<lambda>lines.
     lift_err TaxError (engine_calculate (cf_tax_engine cfg) (d_tax d)
       \<lparr>rq_lines = lines, rq_subtotal_paise = subtotal_cents, rq_shipping_paise = shipping_cents,
        rq_as_of = india_today now, rq_delivery_state = map_option sa_state columns,
        rq_delivery_country = map_option sa_country columns\<rparr>))"

definition option_labels :: "int list \<Rightarrow> db \<Rightarrow> int \<Rightarrow> (string \<times> string) option" where
  "option_labels product_ids d =
     map_of (rev (concat (map (\<lambda>opt.
        map (\<lambda>v. (ov_id v, (po_name opt, ov_value v)))
          (filter (\<lambda>v. ov_option_id v = po_id opt) (d_option_values d))) (options_for product_ids d))))"

definition variant_snapshot_of :: "(int \<Rightarrow> (string \<times> string) option) \<Rightarrow> product \<Rightarrow> variant \<Rightarrow> variant_snapshot" where
  "variant_snapshot_of labels p v =
     \<lparr>vs_sku = v_sku v,
      vs_options = List.map_filter (\<lambda>i. Option.bind i labels)
        (py_take (v_option_count v) [v_value1_id v, v_value2_id v, v_value3_id v]),
      vs_price_overridden = (v_price_override_cents v \<noteq> None),
      vs_product_price_cents = p_price_cents p,
      vs_override_price_cents = v_price_override_cents v\<rparr>"

text \<open>The rows checkout has locked.\<close>

record locked =
  lk_products :: "product list"
  lk_variants :: "variant list"
  lk_labels :: "int \<Rightarrow> (string \<times> string) option"

text \<open>The unit a cart line buys: its stock, its current price and the order line made from it.\<close>

definition resolve_line ::
  "locked \<Rightarrow> cart_item \<Rightarrow> (shop_error, sold_unit \<times> int \<times> int \<times> order_line) result" where
  "resolve_line lk i =
     (case ci_variant_id i of
        Some vid \<Rightarrow>
          (case (row p_id (ci_product_id i) (lk_products lk), row v_id vid (lk_variants lk)) of
             (Some p, Some v) \<Rightarrow>
               if v_product_id v \<noteq> p_id p \<or> p_status p \<noteq> Active \<or> v_status v \<noteq> ''active'' then Inl VariantUnavailable
               else let price = effective_price v (p_price_cents p)
                    in Inr (UnitV (v_id v), v_stock v, price,
                        \<lparr>ln_product_id = p_id p, ln_product_name_snapshot = p_name p, ln_sku_snapshot = v_sku v,
                         ln_price_cents_snapshot = price, ln_quantity = ci_quantity i,
                         ln_variant_id = Some (v_id v),
                         ln_variant_snapshot = Some (variant_snapshot_of (lk_labels lk) p v),
                         ln_discount_cents = 0\<rparr>)
           | _ \<Rightarrow> Inl VariantUnavailable)
      | None \<Rightarrow>
          (case row p_id (ci_product_id i) (lk_products lk) of
             None \<Rightarrow> Inl ProductUnavailable
           | Some p \<Rightarrow>
               if p_status p \<noteq> Active then Inl ProductUnavailable
               else if 0 < p_option_count p then Inl VariantRequired
               else Inr (UnitP (p_id p), p_stock p, p_price_cents p,
                     \<lparr>ln_product_id = p_id p, ln_product_name_snapshot = p_name p, ln_sku_snapshot = p_sku p,
                      ln_price_cents_snapshot = p_price_cents p, ln_quantity = ci_quantity i,
                      ln_variant_id = None, ln_variant_snapshot = None, ln_discount_cents = 0\<rparr>)))"

text \<open>The variables of the loop over the cart's lines.\<close>

record pricing =
  pr_remaining :: "sold_unit \<Rightarrow> int option"
  pr_stock_deltas :: "(int \<times> int) list"
  pr_variant_deltas :: "(int \<times> int) list"
  pr_price_changes :: "(cart_item \<times> int) list"
  pr_subtotal_cents :: int
  pr_lines :: "order_line list"

definition no_pricing :: pricing where
  "no_pricing = \<lparr>pr_remaining = (\<lambda>_. None), pr_stock_deltas = [], pr_variant_deltas = [],
     pr_price_changes = [], pr_subtotal_cents = 0, pr_lines = []\<rparr>"

definition price_line :: "locked \<Rightarrow> cart_item \<Rightarrow> pricing \<Rightarrow> (shop_error, pricing) result" where
  "price_line lk i st =
     rbind (resolve_line lk i) (\<lambda>(u, stock, price, line).
     let available = (case pr_remaining st u of Some a \<Rightarrow> a | None \<Rightarrow> stock);
         q = ci_quantity i
     in if available < q then Inl (InsufficientStock available)
        else Inr (st\<lparr>pr_remaining := (pr_remaining st)(u \<mapsto> available - q),
               pr_stock_deltas := (case u of UnitP k \<Rightarrow> dict_add k (- q) (pr_stock_deltas st) | UnitV _ \<Rightarrow> pr_stock_deltas st),
               pr_variant_deltas := (case u of UnitV k \<Rightarrow> dict_add k (- q) (pr_variant_deltas st) | UnitP _ \<Rightarrow> pr_variant_deltas st),
               pr_price_changes := pr_price_changes st
                 @ (if ci_price_cents_snapshot i \<noteq> price then [(i, price)] else []),
               pr_subtotal_cents := pr_subtotal_cents st + price * q,
               pr_lines := pr_lines st @ [line]\<rparr>))"

definition sorted_items :: "cart_item list \<Rightarrow> cart_item list" where
  "sorted_items items = sort_key (\<lambda>i. (ci_product_id i, id_or_zero (ci_variant_id i))) items"

definition lock_rows :: "cart_item list \<Rightarrow> db \<Rightarrow> locked" where
  "lock_rows items d =
     (let variant_line_ids = List.map_filter ci_variant_id items in
      \<lparr>lk_products = get_many_for_update (map ci_product_id items) d,
       lk_variants = (if variant_line_ids = [] then [] else get_variants_for_update variant_line_ids d),
       lk_labels = (if variant_line_ids = [] then (\<lambda>_. None)
                    else option_labels (sort (remdups (map ci_product_id (filter (\<lambda>i. ci_variant_id i \<noteq> None) items)))) d)\<rparr>)"

definition untaxed :: "config \<Rightarrow> locked \<Rightarrow> db \<Rightarrow> int list" where
  "untaxed cfg lk d =
     (if cf_require_tax_classification cfg
      then let pids = map p_id (lk_products lk)
           in filter (\<lambda>pid. tax_states pids d pid \<noteq> Some ''approved'') pids
      else [])"

definition price_cart :: "config \<Rightarrow> cart_item list \<Rightarrow> db \<Rightarrow> (shop_error, locked \<times> pricing) result" where
  "price_cart cfg items d =
     (let lk = lock_rows items d in
      if untaxed cfg lk d \<noteq> [] then Inl (ProductTaxUnassigned (untaxed cfg lk d))
      else rbind (rfold (price_line lk) items no_pricing) (\<lambda>st. Inr (lk, st)))"

definition refresh_prices :: "(cart_item \<times> int) list \<Rightarrow> db \<Rightarrow> db" where
  "refresh_prices changes d = fold (\<lambda>(i, price). set_price_snapshot i price) changes d"

section \<open>Shipping, coupon and tax of an order\<close>

record totals =
  tt_shipping_cents :: int
  tt_discount :: discount
  tt_coupon :: "coupon option"
  tt_lines :: "order_line list"
  tt_tax :: tax_result
  tt_total_cents :: int

definition line_value :: "order_line \<Rightarrow> int" where
  "line_value l = ln_price_cents_snapshot l * ln_quantity l"

definition tax_input_of :: "order_line \<Rightarrow> tax_input" where
  "tax_input_of l = \<lparr>ti_product_id = ln_product_id l, ti_quantity = ln_quantity l,
     ti_price_cents = ln_price_cents_snapshot l, ti_discount_cents = ln_discount_cents l\<rparr>"

text \<open>Shipping, discount, coupon and the lines with their shares of the discount.\<close>

definition apply_coupon ::
  "config \<Rightarrow> int option \<Rightarrow> string option \<Rightarrow> string option \<Rightarrow> int \<Rightarrow> order_line list \<Rightarrow> int \<Rightarrow> db
     \<Rightarrow> (shop_error, int \<times> discount \<times> coupon option \<times> order_line list) result" where
  "apply_coupon cfg user_id guest_email coupon_code subtotal_cents lines now d =
     rbind (calculate_shipping cfg subtotal_cents) (\<lambda>shipping_cents.
     if \<not> truthy coupon_code then Inr (shipping_cents, no_discount, None, lines)
     else
       let coupon = Option.bind coupon_code (\<lambda>c. find_by_code c d) in
       rbind (evaluate coupon subtotal_cents shipping_cents user_id guest_email now d) (\<lambda>disc.
       if ds_goods_cents disc \<noteq> 0
       then rbind (calculate_shipping cfg (subtotal_cents - ds_goods_cents disc)) (\<lambda>shipping_cents.
            let shares = share_discount (ds_goods_cents disc) (map line_value lines)
            in if length lines \<noteq> length shares then Inl ValueError
               else Inr (shipping_cents, disc, coupon,
                         map (\<lambda>(l, s). l\<lparr>ln_discount_cents := s\<rparr>) (zip lines shares)))
       else Inr (0, disc, coupon, lines)))"

definition settle ::
  "config \<Rightarrow> int option \<Rightarrow> string option \<Rightarrow> string option \<Rightarrow> shipping_address option \<Rightarrow> product list \<Rightarrow> int
     \<Rightarrow> order_line list \<Rightarrow> int \<Rightarrow> db \<Rightarrow> (shop_error, totals) result" where
  "settle cfg user_id guest_email coupon_code columns products subtotal_cents lines now d =
     rbind (apply_coupon cfg user_id guest_email coupon_code subtotal_cents lines now d)
       (\<lambda>(shipping_cents, disc, coupon, lines).
     let net_subtotal_cents = subtotal_cents - ds_goods_cents disc in
     rbind (calculate_tax cfg (map tax_input_of lines) products net_subtotal_cents shipping_cents columns now d)
       (\<lambda>tax.
     Inr \<lparr>tt_shipping_cents = shipping_cents, tt_discount = disc, tt_coupon = coupon, tt_lines = lines, tt_tax = tax,
          tt_total_cents = net_subtotal_cents + shipping_cents + tx_tax_paise tax\<rparr>))"

section \<open>Checkout\<close>

record checkout_request =
  cr_user_id :: "int option"
  cr_guest_token :: "string option"
  cr_guest_email :: "string option"
  cr_idempotency_key :: string
  cr_address_id :: "int option"
  cr_shipping_address :: "shipping_address option"
  cr_coupon_code :: "string option"

datatype outcome =
  Placed order db
| PricesChanged "(cart_item \<times> int) list" int db

definition is_guest :: "checkout_request \<Rightarrow> bool" where
  "is_guest rq = (cr_user_id rq = None)"

text \<open>\<open>guest_email if is_guest else None\<close>\<close>

definition guest_email_of :: "checkout_request \<Rightarrow> string option" where
  "guest_email_of rq = (if is_guest rq then cr_guest_email rq else None)"

definition fingerprint_of :: "(string \<Rightarrow> string) \<Rightarrow> checkout_request \<Rightarrow> string" where
  "fingerprint_of sha rq =
     request_fingerprint sha (cr_address_id rq) (cr_shipping_address rq) (guest_email_of rq) (cr_coupon_code rq)"

definition existing_order :: "checkout_request \<Rightarrow> db \<Rightarrow> order option" where
  "existing_order rq d =
     (if is_guest rq then get_by_idempotency_key (cr_idempotency_key rq) None (cr_guest_token rq) d
      else get_by_idempotency_key (cr_idempotency_key rq) (cr_user_id rq) None d)"

definition replay ::
  "(string \<Rightarrow> string) \<Rightarrow> checkout_request \<Rightarrow> order \<Rightarrow> db \<Rightarrow> (shop_error, outcome) result" where
  "replay sha rq existing d =
     (if o_request_hash existing \<noteq> None \<and> o_request_hash existing \<noteq> Some (fingerprint_of sha rq)
      then Inl IdempotencyKeyConflict
      else case o_cart_digest existing of
             None \<Rightarrow> Inr (Placed existing d)
           | Some digest \<Rightarrow>
               rbind (get_or_create_cart (cr_user_id rq) (cr_guest_token rq) d) (\<lambda>(waiting, d).
               let items = items_of (ct_id waiting) d in
               if items \<noteq> [] \<and> cart_digest sha items \<noteq> digest then Inl IdempotencyKeyConflict
               else Inr (Placed existing d)))"

definition order_of ::
  "(string \<Rightarrow> string) \<Rightarrow> config \<Rightarrow> checkout_request \<Rightarrow> int \<Rightarrow> string \<Rightarrow> currency \<Rightarrow> delivery_decision
     \<Rightarrow> shipping_address option \<Rightarrow> int \<Rightarrow> totals \<Rightarrow> int \<Rightarrow> order" where
  "order_of sha cfg rq order_id digest cur delivery columns subtotal_cents tt now =
     \<lparr>o_id = order_id, o_user_id = cr_user_id rq,
      o_guest_token = (if is_guest rq then cr_guest_token rq else None),
      o_guest_email = guest_email_of rq, o_payment_token_hash = None, o_cart_digest = Some digest,
      o_status = PENDING, o_idempotency_key = cr_idempotency_key rq,
      o_request_hash = Some (fingerprint_of sha rq), o_subtotal_cents = subtotal_cents,
      o_paid_in_demo_mode = False, o_discount_cents = ds_goods_cents (tt_discount tt),
      o_coupon_id = map_option cp_id (tt_coupon tt), o_coupon_code = map_option cp_code (tt_coupon tt),
      o_coupon_snapshot = map_option (\<lambda>c. snapshot_of c (tt_discount tt)) (tt_coupon tt),
      o_shipping_cents = tt_shipping_cents tt, o_tax_cents = tx_tax_paise (tt_tax tt),
      o_total_cents = tt_total_cents tt, o_currency = Some (cur_code cur), o_stock_released_at = None,
      o_shipping_snapshot = Some (shipping_snapshot_of cfg (tt_shipping_cents tt) cur delivery),
      o_tax_snapshot = Some (tx_snapshot (tt_tax tt)), o_shipping_address = columns, o_created_at = now\<rparr>"

definition place_order ::
  "int \<Rightarrow> locked \<Rightarrow> pricing \<Rightarrow> order \<Rightarrow> order_line list \<Rightarrow> int \<Rightarrow> db \<Rightarrow> (shop_error, outcome) result" where
  "place_order cart_id lk st ord lines now d =
     rbind (move_units \<lparr>sx_kind = ''sale'', sx_actor_user_id = None, sx_reason = None, sx_order_id = Some (o_id ord)\<rparr>
              (lk_products lk) (pr_stock_deltas st) (lk_variants lk) (pr_variant_deltas st) d) (\<lambda>d.
     rbind (create_order ord lines now d) (\<lambda>d.
     Inr (Placed ord (clear cart_id d))))"

definition checkout ::
  "(string \<Rightarrow> string) \<Rightarrow> config \<Rightarrow> checkout_request \<Rightarrow> int \<Rightarrow> db \<Rightarrow> (shop_error, outcome) result" where
  "checkout sha cfg rq now d =
     (if is_guest rq \<and> \<not> truthy (cr_guest_email rq) then Inl GuestEmailRequired
      else case existing_order rq d of
        Some existing \<Rightarrow> replay sha rq existing d
      | None \<Rightarrow>
          rbind (assert_pricing_configured cfg) (\<lambda>_.
          rbind (resolve_currency cfg d) (\<lambda>(cur, d).
          rbind (resolve_shipping_snapshot cfg (cr_user_id rq) (cr_address_id rq) (cr_shipping_address rq) d) (\<lambda>columns.
          let delivery = cf_delivery_eligibility cfg columns in
          if \<not> dd_deliverable delivery then Inl (DeliveryNotAvailable (dd_reason delivery))
          else
            rbind (get_or_create_cart (cr_user_id rq) (cr_guest_token rq) d) (\<lambda>(cart, d).
            let items = items_of (ct_id cart) d in
            if items = [] then Inl EmptyCart
            else
              let digest = cart_digest sha items; (order_id, d) = fresh d; sorted = sorted_items items in
              rbind (price_cart cfg sorted d) (\<lambda>(lk, st).
              if pr_price_changes st \<noteq> []
              then Inr (PricesChanged (pr_price_changes st) (pr_subtotal_cents st)
                          (refresh_prices (pr_price_changes st) d))
              else
                rbind (settle cfg (cr_user_id rq) (guest_email_of rq) (cr_coupon_code rq) columns (lk_products lk)
                         (pr_subtotal_cents st) (pr_lines st) now d) (\<lambda>tt.
                place_order (ct_id cart) lk st
                  (order_of sha cfg rq order_id digest cur delivery columns (pr_subtotal_cents st) tt now)
                  (tt_lines tt) now d)))))))"

section \<open>Guest payment tokens and access\<close>

definition issue_guest_payment_token ::
  "(string \<Rightarrow> string) \<Rightarrow> string \<Rightarrow> order \<Rightarrow> db \<Rightarrow> string option \<times> db" where
  "issue_guest_payment_token sha token ord d =
     (if o_user_id ord \<noteq> None \<or> o_status ord \<noteq> PENDING then (None, d)
      else (Some token, d\<lparr>d_orders := set_row o_id (ord\<lparr>o_payment_token_hash := Some (sha token)\<rparr>) (d_orders d)\<rparr>))"

definition authorize_guest_payment ::
  "(string \<Rightarrow> string) \<Rightarrow> config \<Rightarrow> int \<Rightarrow> string \<Rightarrow> int \<Rightarrow> db \<Rightarrow> (shop_error, order) result" where
  "authorize_guest_payment sha cfg order_id token now d =
     (case get_order_by_id order_id d of
        None \<Rightarrow> Inl (OrderNotFound order_id)
      | Some ord \<Rightarrow>
          if o_user_id ord \<noteq> None \<or> \<not> truthy (o_payment_token_hash ord) then Inl (OrderNotFound order_id)
          else if Some (sha token) \<noteq> o_payment_token_hash ord then Inl (OrderNotFound order_id)
          else if cf_pending_order_timeout_minutes cfg * MINUTE < now - o_created_at ord then Inl (OrderNotFound order_id)
          else Inr ord)"

definition get_guest_order :: "int \<Rightarrow> string \<Rightarrow> db \<Rightarrow> (shop_error, order) result" where
  "get_guest_order order_id token d =
     (case get_by_guest_token order_id token d of None \<Rightarrow> Inl (OrderNotFound order_id) | Some ord \<Rightarrow> Inr ord)"

definition get_order :: "int \<Rightarrow> int \<Rightarrow> bool \<Rightarrow> db \<Rightarrow> (shop_error, order) result" where
  "get_order order_id user_id is_admin d =
     (case get_order_by_id order_id d of
        None \<Rightarrow> Inl (OrderNotFound order_id)
      | Some ord \<Rightarrow> if \<not> is_admin \<and> o_user_id ord \<noteq> Some user_id then Inl OrderAccessForbidden else Inr ord)"

definition lock_order_for_update :: "int \<Rightarrow> db \<Rightarrow> (shop_error, order) result" where
  "lock_order_for_update order_id d =
     (case get_order_by_id order_id d of None \<Rightarrow> Inl (OrderNotFound order_id) | Some ord \<Rightarrow> Inr ord)"

section \<open>Quote\<close>

record quote_tax =
  qx_status :: string
  qx_engine :: string
  qx_added_cents :: "int option"
  qx_reason :: "string option"

record quote_line =
  ql_item_id :: int
  ql_line_total_cents :: int
  ql_discount_cents :: int

record cart_quote =
  q_currency :: string
  q_minor_unit_exponent :: nat
  q_lines :: "quote_line list"
  q_subtotal_cents :: int
  q_discount_cents :: int
  q_coupon_code :: "string option"
  q_shipping_cents :: "int option"
  q_shipping_reason :: "string option"
  q_tax :: quote_tax
  q_total_cents :: "int option"
  q_blocking :: "(int \<times> string) list"
  q_price_changed :: bool
  q_requires_address :: bool

definition engine_name :: "tax_engine \<Rightarrow> string" where
  "engine_name e = (case e of GstTaxEngine \<Rightarrow> ''gst'' | FlatInterimTaxEngine _ \<Rightarrow> ''flat_interim''
                    | NotConfiguredTaxEngine \<Rightarrow> ''not_configured'')"

definition snapshot_engine :: "tax_snapshot \<Rightarrow> string" where
  "snapshot_engine s = (case s of FlatInterim _ \<Rightarrow> ''flat_interim'' | GstCalculated _ \<Rightarrow> ''gst'')"

definition mk_quote_tax :: "config \<Rightarrow> int option \<Rightarrow> string option \<Rightarrow> quote_tax" where
  "mk_quote_tax cfg added reason =
     \<lparr>qx_status = (if is_configured (cf_tax_engine cfg) then ''live'' else ''not_active''),
      qx_engine = engine_name (cf_tax_engine cfg), qx_added_cents = added, qx_reason = reason\<rparr>"

definition quote_currency :: "config \<Rightarrow> db \<Rightarrow> (shop_error, currency) result" where
  "quote_currency cfg d =
     (case (if cf_currency cfg = None \<and> cf_store_repository cfg
            then fst (effective_currency (cf_default_store_currency cfg) d) else cf_currency cfg) of
        None \<Rightarrow> Inl StoreCurrencyNotConfigured
      | Some c \<Rightarrow> lift_err MoneyError (get_currency c))"

text \<open>Shipping (None while not configured), discount, coupon and the shares of the lines.\<close>

definition quote_coupon ::
  "config \<Rightarrow> int option \<Rightarrow> string option \<Rightarrow> string option \<Rightarrow> int list \<Rightarrow> int \<Rightarrow> db
     \<Rightarrow> (shop_error, int option \<times> discount \<times> coupon option \<times> int list) result" where
  "quote_coupon cfg user_id guest_email coupon_code values now d =
     (let subtotal_cents = sum_list values;
          shipping_cents = (case calculate_shipping cfg subtotal_cents of Inr s \<Rightarrow> Some s | Inl _ \<Rightarrow> None);
          no_shares = replicate (length values) 0
      in if \<not> truthy coupon_code then Inr (shipping_cents, no_discount, None, no_shares)
         else
           let coupon = Option.bind coupon_code (\<lambda>c. find_by_code c d) in
           rbind (evaluate coupon subtotal_cents (case shipping_cents of Some s \<Rightarrow> s | None \<Rightarrow> 0)
                    user_id guest_email now d) (\<lambda>disc.
           if ds_goods_cents disc \<noteq> 0
           then rbind (case shipping_cents of
                         None \<Rightarrow> Inr None
                       | Some _ \<Rightarrow> rbind (calculate_shipping cfg (subtotal_cents - ds_goods_cents disc)) (\<lambda>s. Inr (Some s)))
                  (\<lambda>shipping_cents.
                Inr (shipping_cents, disc, coupon, share_discount (ds_goods_cents disc) values))
           else Inr (map_option (\<lambda>_. 0) shipping_cents, disc, coupon, no_shares)))"

definition quote_columns ::
  "config \<Rightarrow> int option \<Rightarrow> int option \<Rightarrow> shipping_address option \<Rightarrow> db \<Rightarrow> (shop_error, shipping_address option) result" where
  "quote_columns cfg user_id address_id shipping_address d =
     (if shipping_address \<noteq> None \<or> address_id \<noteq> None \<or> user_id \<noteq> None
      then resolve_shipping_snapshot cfg user_id address_id shipping_address d
      else Inr None)"

definition quote_tax_of ::
  "config \<Rightarrow> tax_input list \<Rightarrow> product list \<Rightarrow> int \<Rightarrow> int option \<Rightarrow> shipping_address option \<Rightarrow> int \<Rightarrow> db
     \<Rightarrow> (shop_error, quote_tax \<times> bool) result" where
  "quote_tax_of cfg lines products net_subtotal_cents shipping_cents columns now d =
     (if \<not> is_configured (cf_tax_engine cfg) then Inr (mk_quote_tax cfg None (Some ''not_configured''), False)
      else if cf_tax_engine cfg = GstTaxEngine \<and> \<not> truthy (map_option sa_state columns)
      then Inr (mk_quote_tax cfg None (Some ''address_required''), True)
      else case shipping_cents of
             None \<Rightarrow> Inr (mk_quote_tax cfg None (Some ''not_configured''), False)
           | Some s \<Rightarrow>
               rbind (calculate_tax cfg lines products net_subtotal_cents s columns now d) (\<lambda>r.
               Inr ((mk_quote_tax cfg (Some (tx_tax_paise r)) None)\<lparr>qx_engine := snapshot_engine (tx_snapshot r)\<rparr>, False)))"

definition quote ::
  "config \<Rightarrow> cart \<Rightarrow> int option \<Rightarrow> string option \<Rightarrow> int option \<Rightarrow> shipping_address option \<Rightarrow> string option \<Rightarrow> int \<Rightarrow> db
     \<Rightarrow> (shop_error, cart_quote) result" where
  "quote cfg c user_id guest_email address_id shipping_address coupon_code now d =
     rbind (quote_currency cfg d) (\<lambda>cur.
     let items = sorted_items (items_of (ct_id c) d) in
     if items = []
     then Inr \<lparr>q_currency = cur_code cur, q_minor_unit_exponent = cur_exponent cur, q_lines = [], q_subtotal_cents = 0,
               q_discount_cents = 0, q_coupon_code = None, q_shipping_cents = None,
               q_shipping_reason = Some ''cart_empty'', q_tax = mk_quote_tax cfg None (Some ''cart_empty''),
               q_total_cents = None, q_blocking = [], q_price_changed = False, q_requires_address = False\<rparr>
     else
       rbind (rmap (\<lambda>i. case line_state i d of None \<Rightarrow> Inl TypeError | Some s \<Rightarrow> Inr s) items) (\<lambda>states.
       let prices = map fst states;
           blocking = List.map_filter (\<lambda>(i, s). map_option (\<lambda>r. (ci_id i, r)) (snd (snd s))) (zip items states);
           price_changed = list_ex (\<lambda>(i, p). ci_price_cents_snapshot i \<noteq> p) (zip items prices);
           values = map (\<lambda>(p, i). p * ci_quantity i) (zip prices items);
           subtotal_cents = sum_list values;
           shipping_reason = (case calculate_shipping cfg subtotal_cents of Inr _ \<Rightarrow> None | Inl _ \<Rightarrow> Some ''not_configured'')
       in
       rbind (quote_coupon cfg user_id (if user_id = None then guest_email else None) coupon_code values now d)
         (\<lambda>(shipping_cents, disc, coupon, shares).
       let net_subtotal_cents = subtotal_cents - ds_goods_cents disc in
       rbind (quote_columns cfg user_id address_id shipping_address d) (\<lambda>columns.
       let delivery = cf_delivery_eligibility cfg columns in
       if columns \<noteq> None \<and> \<not> dd_deliverable delivery then Inl (DeliveryNotAvailable (dd_reason delivery))
       else
         let lines_for_tax = map (\<lambda>(i, p, s). \<lparr>ti_product_id = ci_product_id i, ti_quantity = ci_quantity i,
               ti_price_cents = p, ti_discount_cents = s\<rparr>) (zip items (zip prices shares)) in
         rbind (quote_tax_of cfg lines_for_tax (d_products d) net_subtotal_cents shipping_cents columns now d)
           (\<lambda>(tax, requires_address).
         Inr \<lparr>q_currency = cur_code cur, q_minor_unit_exponent = cur_exponent cur,
              q_lines = map (\<lambda>(i, v, s). \<lparr>ql_item_id = ci_id i, ql_line_total_cents = v, ql_discount_cents = s\<rparr>)
                          (zip items (zip values shares)),
              q_subtotal_cents = subtotal_cents, q_discount_cents = ds_goods_cents disc,
              q_coupon_code = map_option cp_code coupon, q_shipping_cents = shipping_cents,
              q_shipping_reason = shipping_reason, q_tax = tax,
              q_total_cents = (case (shipping_cents, qx_added_cents tax) of
                                 (Some s, Some t) \<Rightarrow> Some (net_subtotal_cents + s + t) | _ \<Rightarrow> None),
              q_blocking = blocking, q_price_changed = price_changed, q_requires_address = requires_address\<rparr>)))))"

section \<open>What the pricing loop computes\<close>

definition unit_of_line :: "order_line \<Rightarrow> sold_unit" where
  "unit_of_line l = (case ln_variant_id l of None \<Rightarrow> UnitP (ln_product_id l) | Some v \<Rightarrow> UnitV v)"

definition sold_qty :: "order_line list \<Rightarrow> sold_unit \<Rightarrow> int" where
  "sold_qty ls u = sum_list (map ln_quantity (filter (\<lambda>l. unit_of_line l = u) ls))"

lemma resolve_line_Inr:
  assumes "resolve_line lk i = Inr (u, stock, price, l)"
  shows "unit_of_line l = u" "ln_price_cents_snapshot l = price" "ln_quantity l = ci_quantity i"
    "ln_discount_cents l = 0" "ln_product_id l = ci_product_id i" "ln_variant_id l = ci_variant_id i"
  using assms by (auto simp: resolve_line_def unit_of_line_def Let_def split: option.splits if_splits dest: row_SomeD)

definition pricing_ok :: "pricing \<Rightarrow> bool" where
  "pricing_ok st \<longleftrightarrow> distinct (map fst (pr_stock_deltas st)) \<and> distinct (map fst (pr_variant_deltas st))
     \<and> pr_subtotal_cents st = sum_list (map line_value (pr_lines st))
     \<and> (\<forall>u. unit_delta (pr_stock_deltas st) (pr_variant_deltas st) u = - sold_qty (pr_lines st) u)
     \<and> list_all (\<lambda>l. ln_discount_cents l = 0) (pr_lines st)"

lemma pricing_ok_empty: "pricing_ok no_pricing"
  by (simp add: pricing_ok_def no_pricing_def sold_qty_def unit_delta_def split: sold_unit.split)

lemma price_line_Inr:
  assumes "price_line lk i st = Inr st'"
  obtains u stock price l where "resolve_line lk i = Inr (u, stock, price, l)"
    "ci_quantity i \<le> (case pr_remaining st u of Some a \<Rightarrow> a | None \<Rightarrow> stock)"
    "st' = st\<lparr>pr_remaining := (pr_remaining st)(u \<mapsto> (case pr_remaining st u of Some a \<Rightarrow> a | None \<Rightarrow> stock) - ci_quantity i),
       pr_stock_deltas := (case u of UnitP k \<Rightarrow> dict_add k (- ci_quantity i) (pr_stock_deltas st) | UnitV _ \<Rightarrow> pr_stock_deltas st),
       pr_variant_deltas := (case u of UnitV k \<Rightarrow> dict_add k (- ci_quantity i) (pr_variant_deltas st) | UnitP _ \<Rightarrow> pr_variant_deltas st),
       pr_price_changes := pr_price_changes st @ (if ci_price_cents_snapshot i \<noteq> price then [(i, price)] else []),
       pr_subtotal_cents := pr_subtotal_cents st + price * ci_quantity i,
       pr_lines := pr_lines st @ [l]\<rparr>"
  using assms by (auto simp: price_line_def res_simps Let_def not_less split: if_splits)

lemma price_line_ok:
  assumes "price_line lk i st = Inr st'" and "pricing_ok st"
  shows "pricing_ok st'"
  using assms(1)
proof (rule price_line_Inr)
  fix u stock price l
  assume r: "resolve_line lk i = Inr (u, stock, price, l)"
    and st': "st' = st\<lparr>pr_remaining := (pr_remaining st)(u \<mapsto> (case pr_remaining st u of Some a \<Rightarrow> a | None \<Rightarrow> stock) - ci_quantity i),
       pr_stock_deltas := (case u of UnitP k \<Rightarrow> dict_add k (- ci_quantity i) (pr_stock_deltas st) | UnitV _ \<Rightarrow> pr_stock_deltas st),
       pr_variant_deltas := (case u of UnitV k \<Rightarrow> dict_add k (- ci_quantity i) (pr_variant_deltas st) | UnitP _ \<Rightarrow> pr_variant_deltas st),
       pr_price_changes := pr_price_changes st @ (if ci_price_cents_snapshot i \<noteq> price then [(i, price)] else []),
       pr_subtotal_cents := pr_subtotal_cents st + price * ci_quantity i,
       pr_lines := pr_lines st @ [l]\<rparr>"
  note l = resolve_line_Inr [OF r]
  have "unit_delta (pr_stock_deltas st') (pr_variant_deltas st') w = - sold_qty (pr_lines st') w" for w
  proof -
    have "unit_delta (pr_stock_deltas st') (pr_variant_deltas st') w
        = unit_delta (pr_stock_deltas st) (pr_variant_deltas st) w - (if w = u then ci_quantity i else 0)"
      by (cases u; cases w) (auto simp: st' unit_delta_def)
    also have "\<dots> = - sold_qty (pr_lines st) w - (if w = u then ci_quantity i else 0)"
      using assms(2) by (simp add: pricing_ok_def)
    also have "\<dots> = - sold_qty (pr_lines st') w" by (auto simp: st' sold_qty_def l)
    finally show ?thesis .
  qed
  then show ?thesis
    using assms(2) by (auto simp: pricing_ok_def st' l line_value_def dict_add_distinct split: sold_unit.split)
qed

text \<open>The lines of the order are the cart's lines, resolved, in order.\<close>

definition line_at :: "locked \<Rightarrow> cart_item \<Rightarrow> order_line" where
  "line_at lk i = snd (snd (snd (projr (resolve_line lk i))))"

lemma rfold_price_lines:
  assumes "rfold (price_line lk) items st = Inr st'"
  shows "list_all (\<lambda>i. \<exists>r. resolve_line lk i = Inr r) items
    \<and> pr_lines st' = pr_lines st @ map (line_at lk) items
    \<and> pr_price_changes st' = pr_price_changes st
        @ map (\<lambda>i. (i, ln_price_cents_snapshot (line_at lk i)))
            (filter (\<lambda>i. ci_price_cents_snapshot i \<noteq> ln_price_cents_snapshot (line_at lk i)) items)"
  using assms
proof (induction items arbitrary: st)
  case (Cons i items)
  from Cons.prems obtain st1 where 1: "price_line lk i st = Inr st1" and r: "rfold (price_line lk) items st1 = Inr st'"
    by (auto simp: res_simps)
  from 1 show ?case
  proof (rule price_line_Inr)
    fix u stock price l
    assume rl: "resolve_line lk i = Inr (u, stock, price, l)"
      and st1: "st1 = st\<lparr>pr_remaining := (pr_remaining st)(u \<mapsto> (case pr_remaining st u of Some a \<Rightarrow> a | None \<Rightarrow> stock) - ci_quantity i),
       pr_stock_deltas := (case u of UnitP k \<Rightarrow> dict_add k (- ci_quantity i) (pr_stock_deltas st) | UnitV _ \<Rightarrow> pr_stock_deltas st),
       pr_variant_deltas := (case u of UnitV k \<Rightarrow> dict_add k (- ci_quantity i) (pr_variant_deltas st) | UnitP _ \<Rightarrow> pr_variant_deltas st),
       pr_price_changes := pr_price_changes st @ (if ci_price_cents_snapshot i \<noteq> price then [(i, price)] else []),
       pr_subtotal_cents := pr_subtotal_cents st + price * ci_quantity i,
       pr_lines := pr_lines st @ [l]\<rparr>"
    have "line_at lk i = l" "ln_price_cents_snapshot l = price"
      using rl resolve_line_Inr [OF rl] by (simp_all add: line_at_def)
    with Cons.IH [OF r] rl show ?thesis by (simp add: st1)
  qed
qed simp

lemma price_cart_Inr:
  assumes "price_cart cfg items d = Inr (lk, st)"
  shows "lk = lock_rows items d" "pricing_ok st" "pr_lines st = map (line_at lk) items"
    "list_all (\<lambda>i. \<exists>r. resolve_line lk i = Inr r) items"
    "pr_price_changes st = map (\<lambda>i. (i, ln_price_cents_snapshot (line_at lk i)))
       (filter (\<lambda>i. ci_price_cents_snapshot i \<noteq> ln_price_cents_snapshot (line_at lk i)) items)"
proof -
  have r: "rfold (price_line lk) items no_pricing = Inr st" and lk: "lk = lock_rows items d"
    using assms by (auto simp: price_cart_def Let_def res_simps split: if_splits)
  show "lk = lock_rows items d" by (rule lk)
  show "pricing_ok st"
    using r pricing_ok_empty price_line_ok by (rule rfold_invariant)
  from rfold_price_lines [OF r]
  show "pr_lines st = map (line_at lk) items" "list_all (\<lambda>i. \<exists>r. resolve_line lk i = Inr r) items"
    "pr_price_changes st = map (\<lambda>i. (i, ln_price_cents_snapshot (line_at lk i)))
       (filter (\<lambda>i. ci_price_cents_snapshot i \<noteq> ln_price_cents_snapshot (line_at lk i)) items)"
    by (simp_all add: no_pricing_def)
qed

section \<open>What creating an order writes\<close>

definition line_of_row :: "order_item \<Rightarrow> order_line" where
  "line_of_row i = \<lparr>ln_product_id = oi_product_id i, ln_product_name_snapshot = oi_product_name_snapshot i,
     ln_sku_snapshot = oi_sku_snapshot i, ln_price_cents_snapshot = oi_price_cents_snapshot i,
     ln_quantity = oi_quantity i, ln_variant_id = oi_variant_id i, ln_variant_snapshot = oi_variant_snapshot i,
     ln_discount_cents = oi_discount_cents i\<rparr>"

text \<open>The rows added for an order: in order, owned by it, new ids, no line restocked.\<close>

definition new_rows :: "int \<Rightarrow> int \<Rightarrow> int \<Rightarrow> order_item list \<Rightarrow> bool" where
  "new_rows oid lo hi rows \<longleftrightarrow> lo \<le> hi \<and> distinct (map oi_id rows)
     \<and> list_all (\<lambda>r. oi_order_id r = oid \<and> lo \<le> oi_id r \<and> oi_id r < hi \<and> oi_restocked_quantity r = 0
          \<and> 0 < oi_quantity r \<and> 0 \<le> oi_discount_cents r \<and> oi_discount_cents r \<le> line_total_cents r) rows"

lemma insert_items:
  assumes "rfold (insert_order_item oid) ls d = Inr d'"
  shows "\<exists>rows. new_rows oid (d_next d) (d_next d') rows \<and> map line_of_row rows = ls
    \<and> d' = d\<lparr>d_next := d_next d', d_order_items := d_order_items d @ rows\<rparr>"
  using assms
proof (induction ls arbitrary: d)
  case Nil
  then show ?case by (intro exI [of _ "[]"]) (simp add: new_rows_def)
next
  case (Cons l ls)
  let ?r = "\<lparr>oi_id = d_next d, oi_order_id = oid, oi_product_id = ln_product_id l,
     oi_product_name_snapshot = ln_product_name_snapshot l, oi_price_cents_snapshot = ln_price_cents_snapshot l,
     oi_quantity = ln_quantity l, oi_variant_id = ln_variant_id l, oi_sku_snapshot = ln_sku_snapshot l,
     oi_variant_snapshot = ln_variant_snapshot l, oi_restocked_quantity = 0, oi_discount_cents = ln_discount_cents l\<rparr>"
  let ?d = "d\<lparr>d_next := d_next d + 1, d_order_items := d_order_items d @ [?r]\<rparr>"
  from Cons.prems obtain d1 where 1: "insert_order_item oid l d = Inr d1" and r1: "rfold (insert_order_item oid) ls d1 = Inr d'"
    by (auto simp: res_simps)
  from 1 have ck: "order_item_checks ?r (d\<lparr>d_next := d_next d + 1\<rparr>)" and d1: "d1 = ?d"
    by (auto simp: insert_order_item_def fresh_def Let_def split: if_splits)
  note r = r1 [unfolded d1]
  from Cons.IH [OF r] obtain rows where rows: "new_rows oid (d_next d + 1) (d_next d') rows" "map line_of_row rows = ls"
    "d' = ?d\<lparr>d_next := d_next d', d_order_items := d_order_items ?d @ rows\<rparr>"
    by auto
  have "new_rows oid (d_next d) (d_next d') (?r # rows)"
    using rows(1) ck by (fastforce simp: new_rows_def order_item_checks_def list_all_iff)
  moreover have "map line_of_row (?r # rows) = l # ls" using rows(2) by (simp add: line_of_row_def)
  ultimately show ?case using rows(3) by (intro exI [of _ "?r # rows"]) simp
qed

lemma create_order_Inr:
  assumes "create_order ord ls now d = Inr d'"
  obtains rows h where "order_checks ord d" "new_rows (o_id ord) (d_next d) (d_next d') rows" "map line_of_row rows = ls"
    "d' = d\<lparr>d_next := d_next d', d_orders := d_orders d @ [ord], d_order_items := d_order_items d @ rows,
            d_order_history := d_order_history d @ [h]\<rparr>"
proof -
  let ?d = "d\<lparr>d_orders := d_orders d @ [ord]\<rparr>"
  from assms obtain d1 where ck: "order_checks ord d" and r: "rfold (insert_order_item (o_id ord)) ls ?d = Inr d1"
    and d': "d' = d1\<lparr>d_order_history := d_order_history d1 @
             [\<lparr>oh_order_id = o_id ord, oh_from_status = PENDING, oh_to_status = PENDING,
               oh_changed_by_user_id = None, oh_reason = None, oh_created_at = now\<rparr>]\<rparr>"
    by (auto simp: create_order_def res_simps split: if_splits)
  from insert_items [OF r] obtain rows where rows: "new_rows (o_id ord) (d_next d) (d_next d1) rows"
    "map line_of_row rows = ls" "d1 = ?d\<lparr>d_next := d_next d1, d_order_items := d_order_items ?d @ rows\<rparr>"
    by auto
  show ?thesis
  proof (rule that [OF ck _ rows(2)])
    show "new_rows (o_id ord) (d_next d) (d_next d') rows" using rows(1) by (simp add: d')
    show "d' = d\<lparr>d_next := d_next d', d_orders := d_orders d @ [ord], d_order_items := d_order_items d @ rows,
            d_order_history := d_order_history d @ [\<lparr>oh_order_id = o_id ord, oh_from_status = PENDING,
               oh_to_status = PENDING, oh_changed_by_user_id = None, oh_reason = None, oh_created_at = now\<rparr>]\<rparr>"
      unfolding d' by (subst (1 2) rows(3)) simp
  qed
qed

section \<open>The order book\<close>

text \<open>The figures of an order add up over its lines.\<close>

definition order_sound :: "order \<Rightarrow> order_item list \<Rightarrow> bool" where
  "order_sound ord rows \<longleftrightarrow>
     o_subtotal_cents ord = sum_list (map line_total_cents rows)
     \<and> o_discount_cents ord = sum_list (map oi_discount_cents rows)
     \<and> o_total_cents ord = o_subtotal_cents ord - o_discount_cents ord + o_shipping_cents ord + o_tax_cents ord
     \<and> 0 \<le> o_discount_cents ord \<and> o_discount_cents ord \<le> o_subtotal_cents ord \<and> 0 \<le> o_tax_cents ord
     \<and> list_all (\<lambda>r. 0 < oi_quantity r \<and> 0 \<le> oi_discount_cents r \<and> oi_discount_cents r \<le> line_total_cents r) rows"

definition orders_ok :: "db \<Rightarrow> bool" where
  "orders_ok d \<longleftrightarrow> distinct (map o_id (d_orders d)) \<and> distinct (map oi_id (d_order_items d))
     \<and> (\<forall>ord \<in> set (d_orders d). o_id ord < d_next d \<and> order_sound ord (order_items_of (o_id ord) d))
     \<and> (\<forall>i \<in> set (d_order_items d). oi_id i < d_next d \<and> oi_order_id i \<in> o_id ` set (d_orders d))"

lemma orders_okD:
  assumes "orders_ok d"
  shows "distinct (map o_id (d_orders d))" "distinct (map oi_id (d_order_items d))"
    "\<And>ord. ord \<in> set (d_orders d) \<Longrightarrow> o_id ord < d_next d"
    "\<And>ord. ord \<in> set (d_orders d) \<Longrightarrow> order_sound ord (order_items_of (o_id ord) d)"
    "\<And>i. i \<in> set (d_order_items d) \<Longrightarrow> oi_id i < d_next d"
    "\<And>i. i \<in> set (d_order_items d) \<Longrightarrow> oi_order_id i \<in> o_id ` set (d_orders d)"
  using assms by (auto simp: orders_ok_def)

lemma no_items_yet:
  assumes "orders_ok d" and "d_next d \<le> oid"
  shows "order_items_of oid d = []"
proof -
  have "oi_order_id i \<noteq> oid" if "i \<in> set (d_order_items d)" for i
    using orders_okD(3,6) [OF assms(1)] that assms(2) by fastforce
  then show ?thesis by (simp add: order_items_of_def filter_empty_conv)
qed

lemma orders_ok_add:
  assumes "orders_ok d" and "d_next d \<le> o_id ord" "o_id ord < d_next d'" and "new_rows (o_id ord) (d_next d) (d_next d') rows"
    and "order_sound ord rows"
    and "d_orders d' = d_orders d @ [ord]" "d_order_items d' = d_order_items d @ rows"
  shows "orders_ok d'" and "order_items_of (o_id ord) d' = rows"
proof -
  note ok = orders_okD [OF assms(1)]
  have mine: "filter (\<lambda>i. oi_order_id i = o_id ord) rows = rows"
    using assms(4) by (auto simp: new_rows_def list_all_iff intro!: filter_True)
  show new: "order_items_of (o_id ord) d' = rows"
    using no_items_yet [OF assms(1,2)] mine by (simp add: order_items_of_def assms(7))
  have old: "order_items_of (o_id x) d' = order_items_of (o_id x) d" if "x \<in> set (d_orders d)" for x
  proof -
    have "o_id x \<noteq> o_id ord" using ok(3) [OF that] assms(2) by simp
    then have "filter (\<lambda>i. oi_order_id i = o_id x) rows = []"
      using assms(4) by (auto simp: new_rows_def list_all_iff filter_empty_conv)
    then show ?thesis by (simp add: order_items_of_def assms(7))
  qed
  have "o_id ord \<notin> o_id ` set (d_orders d)" using ok(3) assms(2) by fastforce
  moreover have "oi_id ` set (d_order_items d) \<inter> oi_id ` set rows = {}"
    using ok(5) assms(4) by (fastforce simp: new_rows_def list_all_iff)
  moreover have "distinct (map oi_id rows)" "d_next d \<le> d_next d'" using assms(4) by (simp_all add: new_rows_def)
  moreover have "oi_id r < d_next d' \<and> oi_order_id r = o_id ord" if "r \<in> set rows" for r
    using assms(4) that by (auto simp: new_rows_def list_all_iff)
  ultimately show "orders_ok d'"
    unfolding orders_ok_def using ok old new assms(3,5) by (fastforce simp: assms(6,7))
qed

section \<open>Settling\<close>

lemma calculate_tax_nonneg:
  "calculate_tax cfg items ps sub sh cols now d = Inr r \<Longrightarrow> 0 \<le> tx_tax_paise r"
  by (auto simp: calculate_tax_def res_simps dest: engine.nonneg)

lemma apply_coupon_lines:
  assumes "apply_coupon cfg user email code sub ls now d = Inr (sh, disc, cp, ls')"
  shows "(ls' = ls \<and> ds_goods_cents disc = 0)
    \<or> (length (share_discount (ds_goods_cents disc) (map line_value ls)) = length ls
       \<and> ls' = map (\<lambda>(l, s). l\<lparr>ln_discount_cents := s\<rparr>) (zip ls (share_discount (ds_goods_cents disc) (map line_value ls))))"
  using assms by (auto simp: apply_coupon_def res_simps Let_def no_discount_def split: if_splits)

lemma discounted_lines:
  assumes "length ss = length ls"
  shows "map line_value (map (\<lambda>(l, s). l\<lparr>ln_discount_cents := s\<rparr>) (zip ls ss)) = map line_value ls"
    "map ln_discount_cents (map (\<lambda>(l, s). l\<lparr>ln_discount_cents := s\<rparr>) (zip ls ss)) = ss"
    "map (\<lambda>l. (unit_of_line l, ln_quantity l)) (map (\<lambda>(l, s). l\<lparr>ln_discount_cents := s\<rparr>) (zip ls ss))
       = map (\<lambda>l. (unit_of_line l, ln_quantity l)) ls"
    "map (\<lambda>l. (ln_product_id l, ln_variant_id l, ln_quantity l)) (map (\<lambda>(l, s). l\<lparr>ln_discount_cents := s\<rparr>) (zip ls ss))
       = map (\<lambda>l. (ln_product_id l, ln_variant_id l, ln_quantity l)) ls"
  using assms by (induction ls ss rule: list_induct2') (auto simp: line_value_def unit_of_line_def split: option.split)

lemma sold_qty_cong:
  "map (\<lambda>l. (unit_of_line l, ln_quantity l)) ls = map (\<lambda>l. (unit_of_line l, ln_quantity l)) ks \<Longrightarrow> sold_qty ls u = sold_qty ks u"
proof -
  have "sold_qty xs u = sum_list (map snd (filter (\<lambda>p. fst p = u) (map (\<lambda>l. (unit_of_line l, ln_quantity l)) xs)))" for xs
    by (simp add: sold_qty_def filter_map comp_def)
  then show "map (\<lambda>l. (unit_of_line l, ln_quantity l)) ls = map (\<lambda>l. (unit_of_line l, ln_quantity l)) ks \<Longrightarrow> sold_qty ls u = sold_qty ks u"
    by (simp only:)
qed

lemma settle_Inr:
  assumes "settle cfg user email code cols ps sub ls now d = Inr tt" and "list_all (\<lambda>l. ln_discount_cents l = 0) ls"
    and "sub = sum_list (map line_value ls)"
  shows "tt_total_cents tt = sub - ds_goods_cents (tt_discount tt) + tt_shipping_cents tt + tx_tax_paise (tt_tax tt)"
    and "0 \<le> tx_tax_paise (tt_tax tt)"
    and "map line_value (tt_lines tt) = map line_value ls"
    and "sold_qty (tt_lines tt) u = sold_qty ls u"
    and "map (\<lambda>l. (ln_product_id l, ln_variant_id l, ln_quantity l)) (tt_lines tt)
       = map (\<lambda>l. (ln_product_id l, ln_variant_id l, ln_quantity l)) ls"
    and "shares_ok (ds_goods_cents (tt_discount tt)) (map line_value ls) \<Longrightarrow>
       sum_list (map ln_discount_cents (tt_lines tt)) = ds_goods_cents (tt_discount tt)"
proof -
  obtain sh disc cp ls' where ac: "apply_coupon cfg user email code sub ls now d = Inr (sh, disc, cp, ls')"
    and tx: "calculate_tax cfg (map tax_input_of ls') ps (sub - ds_goods_cents disc) sh cols now d = Inr (tt_tax tt)"
    and tt: "tt = \<lparr>tt_shipping_cents = sh, tt_discount = disc, tt_coupon = cp, tt_lines = ls', tt_tax = tt_tax tt,
          tt_total_cents = sub - ds_goods_cents disc + sh + tx_tax_paise (tt_tax tt)\<rparr>"
    using assms(1) by (auto simp: settle_def res_simps Let_def)
  have f: "tt_shipping_cents tt = sh" "tt_discount tt = disc" "tt_lines tt = ls'"
    "tt_total_cents tt = sub - ds_goods_cents disc + sh + tx_tax_paise (tt_tax tt)"
    by (subst tt, simp)+
  show "tt_total_cents tt = sub - ds_goods_cents (tt_discount tt) + tt_shipping_cents tt + tx_tax_paise (tt_tax tt)"
    by (simp only: f)
  show "0 \<le> tx_tax_paise (tt_tax tt)" by (rule calculate_tax_nonneg [OF tx])
  let ?ss = "share_discount (ds_goods_cents disc) (map line_value ls)"
  consider (none) "ls' = ls" "ds_goods_cents disc = 0"
    | (some) "length ?ss = length ls" "ls' = map (\<lambda>(l, s). l\<lparr>ln_discount_cents := s\<rparr>) (zip ls ?ss)"
    using apply_coupon_lines [OF ac] by blast
  then have "map line_value ls' = map line_value ls \<and> sold_qty ls' u = sold_qty ls u
    \<and> map (\<lambda>l. (ln_product_id l, ln_variant_id l, ln_quantity l)) ls' = map (\<lambda>l. (ln_product_id l, ln_variant_id l, ln_quantity l)) ls
    \<and> (shares_ok (ds_goods_cents disc) (map line_value ls) \<longrightarrow> sum_list (map ln_discount_cents ls') = ds_goods_cents disc)"
  proof cases
    case none
    have "sum_list (map ln_discount_cents ls) = 0" using assms(2) by (induction ls) auto
    with none show ?thesis by simp
  next
    case some
    then show ?thesis
      using discounted_lines [OF some(1)] sold_qty_cong [OF discounted_lines(3) [OF some(1)]] share_discount_exact(1)
      by (simp only: some(2)) blast
  qed
  then show "map line_value (tt_lines tt) = map line_value ls" "sold_qty (tt_lines tt) u = sold_qty ls u"
    "map (\<lambda>l. (ln_product_id l, ln_variant_id l, ln_quantity l)) (tt_lines tt)
       = map (\<lambda>l. (ln_product_id l, ln_variant_id l, ln_quantity l)) ls"
    "shares_ok (ds_goods_cents (tt_discount tt)) (map line_value ls) \<Longrightarrow>
       sum_list (map ln_discount_cents (tt_lines tt)) = ds_goods_cents (tt_discount tt)"
    unfolding f by blast+
qed

section \<open>The branches of checkout\<close>

lemma resolve_currency_frame:
  assumes "resolve_currency cfg d = Inr (cur, d')"
  shows "d' = d\<lparr>d_store_currency := d_store_currency d'\<rparr>"
proof -
  have "snd (get_or_initialize_currency c d) = d\<lparr>d_store_currency := d_store_currency (snd (get_or_initialize_currency c d))\<rparr>" for c
    by (auto simp: get_or_initialize_currency_def initialize_currency_def effective_currency_def Let_def split: option.splits)
  then show ?thesis
    using assms by (auto simp: resolve_currency_def Let_def res_simps case_prod_beta split: if_splits option.splits)
qed

lemma checkout_new:
  assumes "checkout sha cfg rq now d = Inr out" and "existing_order rq d = None"
  obtains cur d1 columns c d2 lk st where
    "assert_pricing_configured cfg = Inr ()"
    "resolve_currency cfg d = Inr (cur, d1)"
    "resolve_shipping_snapshot cfg (cr_user_id rq) (cr_address_id rq) (cr_shipping_address rq) d1 = Inr columns"
    "dd_deliverable (cf_delivery_eligibility cfg columns)"
    "get_or_create_cart (cr_user_id rq) (cr_guest_token rq) d1 = Inr (c, d2)"
    "items_of (ct_id c) d2 \<noteq> []"
    "price_cart cfg (sorted_items (items_of (ct_id c) d2)) (d2\<lparr>d_next := d_next d2 + 1\<rparr>) = Inr (lk, st)"
    "(pr_price_changes st \<noteq> [] \<and> out = PricesChanged (pr_price_changes st) (pr_subtotal_cents st)
         (refresh_prices (pr_price_changes st) (d2\<lparr>d_next := d_next d2 + 1\<rparr>)))
     \<or> (pr_price_changes st = [] \<and> (\<exists>tt.
         settle cfg (cr_user_id rq) (guest_email_of rq) (cr_coupon_code rq) columns (lk_products lk)
           (pr_subtotal_cents st) (pr_lines st) now (d2\<lparr>d_next := d_next d2 + 1\<rparr>) = Inr tt
         \<and> place_order (ct_id c) lk st
             (order_of sha cfg rq (d_next d2) (cart_digest sha (items_of (ct_id c) d2)) cur
                (cf_delivery_eligibility cfg columns) columns (pr_subtotal_cents st) tt now)
             (tt_lines tt) now (d2\<lparr>d_next := d_next d2 + 1\<rparr>) = Inr out))"
proof -
  have items: "items_of x (y\<lparr>d_next := n\<rparr>) = items_of x y" for x y n by (simp add: items_of_def)
  obtain cur d1 columns c d2 where a: "assert_pricing_configured cfg = Inr ()"
    "resolve_currency cfg d = Inr (cur, d1)"
    "resolve_shipping_snapshot cfg (cr_user_id rq) (cr_address_id rq) (cr_shipping_address rq) d1 = Inr columns"
    "dd_deliverable (cf_delivery_eligibility cfg columns)"
    "get_or_create_cart (cr_user_id rq) (cr_guest_token rq) d1 = Inr (c, d2)"
    "items_of (ct_id c) d2 \<noteq> []"
    using assms by (auto simp: checkout_def res_simps Let_def split: if_splits)
  from assms a obtain lk st where p: "price_cart cfg (sorted_items (items_of (ct_id c) d2)) (d2\<lparr>d_next := d_next d2 + 1\<rparr>) = Inr (lk, st)"
    by (auto simp: checkout_def res_simps Let_def fresh_def split: if_splits)
  have "(if pr_price_changes st \<noteq> []
      then Inr (PricesChanged (pr_price_changes st) (pr_subtotal_cents st)
                  (refresh_prices (pr_price_changes st) (d2\<lparr>d_next := d_next d2 + 1\<rparr>)))
      else rbind (settle cfg (cr_user_id rq) (guest_email_of rq) (cr_coupon_code rq) columns (lk_products lk)
                    (pr_subtotal_cents st) (pr_lines st) now (d2\<lparr>d_next := d_next d2 + 1\<rparr>)) (\<lambda>tt.
           place_order (ct_id c) lk st
             (order_of sha cfg rq (d_next d2) (cart_digest sha (items_of (ct_id c) d2)) cur
                (cf_delivery_eligibility cfg columns) columns (pr_subtotal_cents st) tt now)
             (tt_lines tt) now (d2\<lparr>d_next := d_next d2 + 1\<rparr>))) = Inr out"
    using assms a p by (auto simp: checkout_def Let_def fresh_def simp del: not_None_eq split: if_splits)
  then have "(pr_price_changes st \<noteq> [] \<and> out = PricesChanged (pr_price_changes st) (pr_subtotal_cents st)
         (refresh_prices (pr_price_changes st) (d2\<lparr>d_next := d_next d2 + 1\<rparr>)))
     \<or> (pr_price_changes st = [] \<and> (\<exists>tt.
         settle cfg (cr_user_id rq) (guest_email_of rq) (cr_coupon_code rq) columns (lk_products lk)
           (pr_subtotal_cents st) (pr_lines st) now (d2\<lparr>d_next := d_next d2 + 1\<rparr>) = Inr tt
         \<and> place_order (ct_id c) lk st
             (order_of sha cfg rq (d_next d2) (cart_digest sha (items_of (ct_id c) d2)) cur
                (cf_delivery_eligibility cfg columns) columns (pr_subtotal_cents st) tt now)
             (tt_lines tt) now (d2\<lparr>d_next := d_next d2 + 1\<rparr>) = Inr out))"
    by (simp add: res_simps split: if_splits)
  with that a p show ?thesis by blast
qed

lemma place_order_Inr:
  assumes "place_order cid lk st ord ls now d = Inr out" and "pricing_ok st"
  obtains d4 rows h n where
    "move_units \<lparr>sx_kind = ''sale'', sx_actor_user_id = None, sx_reason = None, sx_order_id = Some (o_id ord)\<rparr>
       (lk_products lk) (pr_stock_deltas st) (lk_variants lk) (pr_variant_deltas st) d = Inr d4"
    "order_checks ord d4" "new_rows (o_id ord) (d_next d) n rows" "map line_of_row rows = ls"
    "out = Placed ord (clear cid (d4\<lparr>d_next := n, d_orders := d_orders d @ [ord],
        d_order_items := d_order_items d @ rows, d_order_history := d_order_history d @ [h]\<rparr>))"
proof -
  from assms(1) obtain d4 d5 where m: "move_units \<lparr>sx_kind = ''sale'', sx_actor_user_id = None, sx_reason = None,
       sx_order_id = Some (o_id ord)\<rparr>
       (lk_products lk) (pr_stock_deltas st) (lk_variants lk) (pr_variant_deltas st) d = Inr d4"
    and c: "create_order ord ls now d4 = Inr d5" and out: "out = Placed ord (clear cid d5)"
    by (auto simp: place_order_def res_simps)
  have dd: "distinct (map fst (pr_stock_deltas st))" "distinct (map fst (pr_variant_deltas st))"
    using assms(2) by (simp_all add: pricing_ok_def)
  note d4 = move_units_Inr(1) [OF m dd]
  have fr: "d_next d4 = d_next d" "d_orders d4 = d_orders d" "d_order_items d4 = d_order_items d"
    "d_order_history d4 = d_order_history d"
    by (simp_all add: d4)
  from c show ?thesis
  proof (rule create_order_Inr)
    fix rows h
    assume "order_checks ord d4" "new_rows (o_id ord) (d_next d4) (d_next d5) rows" "map line_of_row rows = ls"
      "d5 = d4\<lparr>d_next := d_next d5, d_orders := d_orders d4 @ [ord], d_order_items := d_order_items d4 @ rows,
            d_order_history := d_order_history d4 @ [h]\<rparr>"
    with that [OF m, of "d_next d5" rows h] show ?thesis by (simp add: out fr)
  qed
qed

section \<open>What a placed order means for the tables\<close>

lemma stock_cong:
  assumes "d_products d' = d_products d" "d_variants d' = d_variants d" "d_stock_movements d' = d_stock_movements d"
  shows "unit_stock d' u = unit_stock d u" "known_unit d' u = known_unit d u"
    "stock_ok d' = stock_ok d" "ledger_ok d' = ledger_ok d"
  using assms by (simp_all add: unit_stock_def p_stock_of_def v_stock_of_def known_unit_def get_product_def get_variant_def
      stock_ok_def ledger_ok_def split: sold_unit.split)

lemma cart_ok_cong:
  "cart_ok d \<Longrightarrow> d_carts d' = d_carts d \<Longrightarrow> d_cart_items d' = d_cart_items d \<Longrightarrow> d_next d \<le> d_next d' \<Longrightarrow> cart_ok d'"
  by (fastforce simp: cart_ok_def carts_ok_def lines_ok_def)

lemma orders_ok_cong:
  "orders_ok d \<Longrightarrow> d_orders d' = d_orders d \<Longrightarrow> d_order_items d' = d_order_items d \<Longrightarrow> d_next d \<le> d_next d' \<Longrightarrow> orders_ok d'"
  by (fastforce simp: orders_ok_def order_items_of_def)

lemma line_total_row: "line_total_cents r = line_value (line_of_row r)"
  by (simp add: line_total_cents_def line_value_def line_of_row_def)

lemma placed_sound:
  assumes "settle cfg user email code cols ps (pr_subtotal_cents st) (pr_lines st) now d = Inr tt" and "pricing_ok st"
    and "new_rows oid lo hi rows" "map line_of_row rows = tt_lines tt"
    and "order_checks (order_of sha cfg rq oid digest cur dl cols (pr_subtotal_cents st) tt now) d4"
  shows "order_sound (order_of sha cfg rq oid digest cur dl cols (pr_subtotal_cents st) tt now) rows"
proof -
  have z: "list_all (\<lambda>l. ln_discount_cents l = 0) (pr_lines st)"
    and sub: "pr_subtotal_cents st = sum_list (map line_value (pr_lines st))"
    using assms(2) by (simp_all add: pricing_ok_def)
  note tt = settle_Inr [OF assms(1) z sub]
  have vals: "map line_total_cents rows = map line_value (pr_lines st)"
    using tt(3) by (simp add: line_total_row [abs_def] comp_def flip: assms(4))
  have b: "0 \<le> ds_goods_cents (tt_discount tt)" "ds_goods_cents (tt_discount tt) \<le> pr_subtotal_cents st"
    "int32 (pr_subtotal_cents st)"
    using assms(5) by (simp_all add: order_checks_def order_of_def)
  have "list_all (\<lambda>v. 0 \<le> v) (map line_total_cents rows)"
    using assms(3) by (auto simp: new_rows_def list_all_iff)
  then have "shares_ok (ds_goods_cents (tt_discount tt)) (map line_value (pr_lines st))"
    using b sub by (simp add: shares_ok_def vals)
  from tt(6) [OF this] have "sum_list (map oi_discount_cents rows) = ds_goods_cents (tt_discount tt)"
    by (simp add: line_of_row_def comp_def flip: assms(4))
  then show ?thesis
    using tt(1,2) b sub vals assms(3) by (auto simp: order_sound_def order_of_def new_rows_def list_all_iff)
qed

text \<open>Everything a placed order went through, in the state before the stock moved.\<close>

definition line_facts :: "order_line \<Rightarrow> int \<times> int option \<times> int" where
  "line_facts l = (ln_product_id l, ln_variant_id l, ln_quantity l)"

definition item_facts :: "cart_item \<Rightarrow> int \<times> int option \<times> int" where
  "item_facts i = (ci_product_id i, ci_variant_id i, ci_quantity i)"

lemma line_facts_at: "resolve_line lk i = Inr r \<Longrightarrow> line_facts (line_at lk i) = item_facts i"
  using resolve_line_Inr [of lk i "fst r" "fst (snd r)" "fst (snd (snd r))" "snd (snd (snd r))"]
  by (simp add: line_facts_def item_facts_def line_at_def)

lemma checkout_placed:
  assumes "checkout sha cfg rq now d = Inr (Placed ord d')" and "existing_order rq d = None"
    and "cart_ok d" and "orders_ok d"
  obtains c d3 d4 and lk :: locked and st tt rows n h columns where
    "cart_ok d3" "c \<in> set (d_carts d3)" "owns c (cr_user_id rq) (cr_guest_token rq)" "d_cart_items d3 = d_cart_items d"
    "d3 = d\<lparr>d_next := d_next d3, d_carts := d_carts d3, d_store_currency := d_store_currency d3\<rparr>" "d_next d < d_next d3"
    "pricing_ok st" "map line_facts (pr_lines st) = map item_facts (sorted_items (items_of (ct_id c) d))"
    "move_units \<lparr>sx_kind = ''sale'', sx_actor_user_id = None, sx_reason = None, sx_order_id = Some (o_id ord)\<rparr>
       (lk_products lk) (pr_stock_deltas st) (lk_variants lk) (pr_variant_deltas st) d3 = Inr d4"
    "settle cfg (cr_user_id rq) (guest_email_of rq) (cr_coupon_code rq) columns (lk_products lk)
       (pr_subtotal_cents st) (pr_lines st) now d3 = Inr tt"
    "order_checks ord d4" "order_sound ord rows" "new_rows (o_id ord) (d_next d3) n rows" "map line_of_row rows = tt_lines tt"
    "d_next d \<le> o_id ord" "o_id ord < d_next d3"
    "d' = clear (ct_id c) (d4\<lparr>d_next := n, d_orders := d_orders d @ [ord], d_order_items := d_order_items d @ rows,
        d_order_history := d_order_history d @ [h]\<rparr>)"
    "ord = order_of sha cfg rq (o_id ord) (cart_digest sha (items_of (ct_id c) d)) (projr (quote_currency cfg d))
             (cf_delivery_eligibility cfg columns) columns (pr_subtotal_cents st) tt now"
  using assms(1,2)
proof (rule checkout_new)
  fix cur and d1 :: db and columns c and d2 :: db and lk and st :: pricing
  let ?d3 = "d2\<lparr>d_next := d_next d2 + 1\<rparr>"
  assume rc: "resolve_currency cfg d = Inr (cur, d1)"
    and gc: "get_or_create_cart (cr_user_id rq) (cr_guest_token rq) d1 = Inr (c, d2)"
    and pc: "price_cart cfg (sorted_items (items_of (ct_id c) d2)) ?d3 = Inr (lk, st)"
    and out: "(pr_price_changes st \<noteq> [] \<and> Placed ord d' = PricesChanged (pr_price_changes st) (pr_subtotal_cents st)
         (refresh_prices (pr_price_changes st) ?d3))
     \<or> (pr_price_changes st = [] \<and> (\<exists>tt.
         settle cfg (cr_user_id rq) (guest_email_of rq) (cr_coupon_code rq) columns (lk_products lk)
           (pr_subtotal_cents st) (pr_lines st) now ?d3 = Inr tt
         \<and> place_order (ct_id c) lk st
             (order_of sha cfg rq (d_next d2) (cart_digest sha (items_of (ct_id c) d2)) cur
                (cf_delivery_eligibility cfg columns) columns (pr_subtotal_cents st) tt now)
             (tt_lines tt) now ?d3 = Inr (Placed ord d')))"
  from out obtain tt where
    se: "settle cfg (cr_user_id rq) (guest_email_of rq) (cr_coupon_code rq) columns (lk_products lk)
           (pr_subtotal_cents st) (pr_lines st) now ?d3 = Inr tt"
    and po: "place_order (ct_id c) lk st
             (order_of sha cfg rq (d_next d2) (cart_digest sha (items_of (ct_id c) d2)) cur
                (cf_delivery_eligibility cfg columns) columns (pr_subtotal_cents st) tt now)
             (tt_lines tt) now ?d3 = Inr (Placed ord d')"
    by auto
  obtain x where d1: "d1 = d\<lparr>d_store_currency := x\<rparr>" using resolve_currency_frame [OF rc] by blast
  have c1: "cart_ok d1" using assms(3) by (rule cart_ok_cong) (simp_all add: d1)
  note g = get_or_create_cart_ok [OF gc c1]
  have n2: "d_next d1 \<le> d_next d2"
    using gc by (auto simp: get_or_create_cart_def Let_def fresh_def split: if_splits option.splits)
  obtain m cs where d2: "d2 = d1\<lparr>d_next := m, d_carts := cs\<rparr>"
  proof (rule that)
    have "d_cart_items d2 = d_cart_items d1" using g by simp
    with repo_frames(1) [OF gc] show "d2 = d1\<lparr>d_next := d_next d2, d_carts := d_carts d2\<rparr>"
      unfolding shop_frame_def by (cases d1; cases d2) simp
  qed
  have cur: "projr (quote_currency cfg d) = cur"
    using rc by (auto simp: resolve_currency_def quote_currency_def get_or_initialize_currency_def effective_currency_def
        initialize_currency_def Let_def res_simps split: if_splits option.splits)
  have itm: "d_cart_items d2 = d_cart_items d" by (simp add: d1 d2)
  then have io: "items_of x d2 = items_of x d" for x by (simp add: items_of_def)
  note p = price_cart_Inr [OF pc]
  have facts: "map line_facts (pr_lines st) = map item_facts (sorted_items (items_of (ct_id c) d))"
    using p(3,4) line_facts_at by (auto simp: io list_all_iff)
  let ?o = "order_of sha cfg rq (d_next d2) (cart_digest sha (items_of (ct_id c) d2)) cur
                (cf_delivery_eligibility cfg columns) columns (pr_subtotal_cents st) tt now"
  have ord: "ord = ?o" using po by (auto simp: place_order_def res_simps)
  have oid: "o_id ord = d_next d2" by (simp add: ord order_of_def)
  have nd: "d_next d1 = d_next d" by (simp add: d1)
  from po p(2) show thesis
  proof (rule place_order_Inr)
    fix d4 rows h n
    assume mv: "move_units \<lparr>sx_kind = ''sale'', sx_actor_user_id = None, sx_reason = None, sx_order_id = Some (o_id ?o)\<rparr>
       (lk_products lk) (pr_stock_deltas st) (lk_variants lk) (pr_variant_deltas st) ?d3 = Inr d4"
      and oc: "order_checks ?o d4" and nr: "new_rows (o_id ?o) (d_next ?d3) n rows" and lr: "map line_of_row rows = tt_lines tt"
      and o: "Placed ord d' = Placed ?o (clear (ct_id c) (d4\<lparr>d_next := n, d_orders := d_orders ?d3 @ [?o],
        d_order_items := d_order_items ?d3 @ rows, d_order_history := d_order_history ?d3 @ [h]\<rparr>))"
    have old: "d_orders d2 = d_orders d" "d_order_items d2 = d_order_items d" "d_order_history d2 = d_order_history d"
      by (simp_all add: d1 d2)
    show thesis
    proof (rule that [of ?d3 c st lk d4 columns tt rows n h])
      show "cart_ok ?d3" by (rule cart_ok_cong [of d2]) (use g in simp_all)
      show "c \<in> set (d_carts ?d3)" "owns c (cr_user_id rq) (cr_guest_token rq)" using g by simp_all
      show "d_cart_items ?d3 = d_cart_items d" using itm by simp
      show "?d3 = d\<lparr>d_next := d_next ?d3, d_carts := d_carts ?d3, d_store_currency := d_store_currency ?d3\<rparr>"
        by (simp add: d1 d2)
      show "order_sound ord rows" unfolding ord
        by (rule placed_sound [OF se p(2) _ lr oc]) (use nr in \<open>simp add: order_of_def\<close>)
      show "d' = clear (ct_id c) (d4\<lparr>d_next := n, d_orders := d_orders d @ [ord], d_order_items := d_order_items d @ rows,
        d_order_history := d_order_history d @ [h]\<rparr>)"
        using o old by (simp add: ord)
      show "ord = order_of sha cfg rq (o_id ord) (cart_digest sha (items_of (ct_id c) d)) (projr (quote_currency cfg d))
             (cf_delivery_eligibility cfg columns) columns (pr_subtotal_cents st) tt now"
        unfolding oid using ord by (simp add: cur io)
    qed (use p(2) facts mv se oc nr lr n2 nd oid in \<open>simp_all add: ord\<close>)
  qed
qed

section \<open>Properties\<close>

lemma checkout_books:
  assumes "checkout sha cfg rq now d = Inr (Placed ord d')" and "existing_order rq d = None"
    and "stock_ok d" "ledger_ok d" "cart_ok d" "orders_ok d"
  obtains rows where "stock_ok d'" "ledger_ok d'" "cart_ok d'" "orders_ok d'"
    "d_orders d' = d_orders d @ [ord]" "d_order_items d' = d_order_items d @ rows"
    "new_rows (o_id ord) (d_next d) (d_next d') rows" "d_next d \<le> o_id ord" "o_id ord < d_next d'"
    "o_status ord = PENDING" "o_stock_released_at ord = None" "order_items_of (o_id ord) d' = rows"
    "\<And>u. known_unit d' u = known_unit d u"
    "\<And>u. known_unit d u \<Longrightarrow> unit_stock d' u = unit_stock d u - sold_qty (map line_of_row rows) u"
    "d_payments d' = d_payments d" "d_refunds d' = d_refunds d" "d_restocks d' = d_restocks d" "d_disputes d' = d_disputes d"
    "d_reconciliations d' = d_reconciliations d" "d_processed_events d' = d_processed_events d"
    "d_deferred_events d' = d_deferred_events d" "d_jobs d' = d_jobs d" "d_returns d' = d_returns d"
    "d_shipments d' = d_shipments d" "d_next d \<le> d_next d'"
  using assms(1,2,5,6)
proof (rule checkout_placed)
  fix c d3 d4 lk st tt rows n h columns
  assume c3: "cart_ok d3" and d3: "d3 = d\<lparr>d_next := d_next d3, d_carts := d_carts d3, d_store_currency := d_store_currency d3\<rparr>"
    and st: "pricing_ok st"
    and mv: "move_units \<lparr>sx_kind = ''sale'', sx_actor_user_id = None, sx_reason = None, sx_order_id = Some (o_id ord)\<rparr>
       (lk_products lk) (pr_stock_deltas st) (lk_variants lk) (pr_variant_deltas st) d3 = Inr d4"
    and se: "settle cfg (cr_user_id rq) (guest_email_of rq) (cr_coupon_code rq) columns (lk_products lk)
       (pr_subtotal_cents st) (pr_lines st) now d3 = Inr tt"
    and os: "order_sound ord rows" and nr: "new_rows (o_id ord) (d_next d3) n rows" and lr: "map line_of_row rows = tt_lines tt"
    and oid: "d_next d \<le> o_id ord" "o_id ord < d_next d3"
    and d': "d' = clear (ct_id c) (d4\<lparr>d_next := n, d_orders := d_orders d @ [ord], d_order_items := d_order_items d @ rows,
        d_order_history := d_order_history d @ [h]\<rparr>)"
    and ord: "ord = order_of sha cfg rq (o_id ord) (cart_digest sha (items_of (ct_id c) d)) (projr (quote_currency cfg d))
             (cf_delivery_eligibility cfg columns) columns (pr_subtotal_cents st) tt now"
  have dd: "distinct (map fst (pr_stock_deltas st))" "distinct (map fst (pr_variant_deltas st))"
    using st by (simp_all add: pricing_ok_def)
  note d4 = move_units_Inr(1) [OF mv dd]
  obtain m cs x where d3': "d3 = d\<lparr>d_next := m, d_carts := cs, d_store_currency := x\<rparr>" using d3 by blast
  have s3: "unit_stock d3 w = unit_stock d w" "known_unit d3 w = known_unit d w" "stock_ok d3 = stock_ok d" "ledger_ok d3 = ledger_ok d" for w
    by (rule stock_cong; simp add: d3')+
  have s': "unit_stock d' w = unit_stock d4 w" "known_unit d' w = known_unit d4 w" "stock_ok d' = stock_ok d4" "ledger_ok d' = ledger_ok d4" for w
    by (rule stock_cong; simp add: d' clear_def)+
  have tables: "d_orders d' = d_orders d @ [ord]" "d_order_items d' = d_order_items d @ rows" "d_next d' = n"
    by (simp_all add: d' clear_def)
  have lo: "new_rows (o_id ord) (d_next d) (d_next d') rows" "o_id ord < d_next d'"
    using nr oid tables by (auto simp: new_rows_def list_all_iff)
  note ok = orders_ok_add [OF assms(6) oid(1) lo(2,1) os tables(1,2)]
  have "cart_ok d4" by (rule cart_ok_cong [OF c3]) (simp_all add: d4)
  then have "cart_ok (clear (ct_id c) d4)" by (rule clear_ok)
  then have "cart_ok d'" by (rule cart_ok_cong) (use nr in \<open>simp_all add: d' clear_def d4 new_rows_def\<close>)
  have "stock_ok d'" "ledger_ok d'"
    using move_units_stock_ok [OF mv dd] move_units_ledger_ok [OF mv dd] assms(3,4) by (simp_all add: s3 s')
  have st0: "o_status ord = PENDING" "o_stock_released_at ord = None" by (subst ord, simp add: order_of_def)+
  have q: "unit_stock d' u = unit_stock d u - sold_qty (map line_of_row rows) u" if "known_unit d u" for u
  proof -
    have "sold_qty (tt_lines tt) u = sold_qty (pr_lines st) u"
      using st by (intro settle_Inr(4) [OF se]) (simp_all add: pricing_ok_def)
    with move_units_unit_stock [OF mv dd, of u] that st show ?thesis by (simp add: s3 s' lr pricing_ok_def)
  qed
  have k: "known_unit d' u = known_unit d u" for u using move_units_known [OF mv dd, of u] by (simp add: s3 s')
  have fr: "d_payments d' = d_payments d" "d_refunds d' = d_refunds d" "d_restocks d' = d_restocks d" "d_disputes d' = d_disputes d"
    "d_reconciliations d' = d_reconciliations d" "d_processed_events d' = d_processed_events d"
    "d_deferred_events d' = d_deferred_events d" "d_jobs d' = d_jobs d" "d_returns d' = d_returns d"
    "d_shipments d' = d_shipments d"
    by (simp_all add: d' clear_def d4 d3')
  have later: "d_next d \<le> d_next d'" using lo(1) by (simp add: new_rows_def)
  show thesis
    by (rule that [OF \<open>stock_ok d'\<close> \<open>ledger_ok d'\<close> \<open>cart_ok d'\<close> ok(1) tables(1,2) lo(1) oid(1) lo(2) st0 ok(2) k q fr later])
qed

text \<open>
  Claim C1. A checkout that places a new order keeps every invariant of the shop (stock never
  negative, the ledger explains the stock, carts and orders well formed), appends exactly that order,
  pending, and takes from every product's or variant's stock exactly the quantity the order's lines
  sell of it.
\<close>

theorem checkout_sells_exactly:
  assumes "checkout sha cfg rq now d = Inr (Placed ord d')" and "existing_order rq d = None"
    and "stock_ok d" "ledger_ok d" "cart_ok d" "orders_ok d"
  shows "stock_ok d' \<and> ledger_ok d' \<and> cart_ok d' \<and> orders_ok d'
    \<and> d_orders d' = d_orders d @ [ord] \<and> o_status ord = PENDING
    \<and> (known_unit d u \<longrightarrow> 0 \<le> unit_stock d' u
         \<and> unit_stock d' u = unit_stock d u - sold_qty (map line_of_row (order_items_of (o_id ord) d')) u)"
  using assms
proof (rule checkout_books)
  fix rows
  assume b: "stock_ok d'" "ledger_ok d'" "cart_ok d'" "orders_ok d'" "d_orders d' = d_orders d @ [ord]" "o_status ord = PENDING"
    "order_items_of (o_id ord) d' = rows"
    and q: "\<And>u. known_unit d u \<Longrightarrow> unit_stock d' u = unit_stock d u - sold_qty (map line_of_row rows) u"
  from b(1-6) q [of u] stock_ok_nonneg [OF b(1), of u] show ?thesis unfolding b(7) by blast
qed


text \<open>A configured shop, and the checkout of user 7 with the cart of the sample shop.\<close>

definition sample_config :: config where
  "sample_config = \<lparr>cf_flat_shipping_cents = Some 50, cf_free_shipping_threshold_cents = Some 5000,
     cf_free_shipping_threshold_basis = Some ''subtotal'', cf_require_tax_classification = False,
     cf_tax_engine = FlatInterimTaxEngine 0, cf_currency = None, cf_store_repository = True,
     cf_default_store_currency = ''inr'', cf_address_repository = True,
     cf_delivery_eligibility = NoServiceabilityCheck, cf_pending_order_timeout_minutes = 30\<rparr>"

definition sample_checkout :: "string option \<Rightarrow> checkout_request" where
  "sample_checkout code = \<lparr>cr_user_id = Some 7, cr_guest_token = None, cr_guest_email = None,
     cr_idempotency_key = ''k1'', cr_address_id = None, cr_shipping_address = None, cr_coupon_code = code\<rparr>"

definition is_placed :: "(shop_error, outcome) result \<Rightarrow> bool" where
  "is_placed r = (case r of Inr (Placed _ _) \<Rightarrow> True | _ \<Rightarrow> False)"

lemma is_placedE: "is_placed r \<Longrightarrow> (\<And>ord d. r = Inr (Placed ord d) \<Longrightarrow> P) \<Longrightarrow> P"
  by (auto simp: is_placed_def split: sum.splits outcome.splits)

lemma sample_placed: "is_placed (checkout (\<lambda>s. ''h'') sample_config (sample_checkout None) 0 sample_carts)"
  by code_simp

lemma sample_first_use: "existing_order (sample_checkout code) sample_carts = None"
  by (simp add: existing_order_def sample_checkout_def is_guest_def get_by_idempotency_key_def sample_carts_def sample_shop_def
      empty_db_def)

lemma sample_carts_tables: "stock_ok sample_carts" "ledger_ok sample_carts" "orders_ok sample_carts"
  "known_unit sample_carts (UnitP 1)"
proof -
  have "stock_ok sample_carts = stock_ok sample_shop" "ledger_ok sample_carts = ledger_ok sample_shop"
    "known_unit sample_carts (UnitP 1) = known_unit sample_shop (UnitP 1)"
    by (rule stock_cong; simp add: sample_carts_def)+
  with sample_shop_ok show "stock_ok sample_carts" "ledger_ok sample_carts" "known_unit sample_carts (UnitP 1)" by simp_all
  show "orders_ok sample_carts" by (simp add: orders_ok_def sample_carts_def sample_shop_def empty_db_def)
qed

theorem checkout_sells_exactly_witness:
  "\<exists>ord d'. checkout (\<lambda>s. ''h'') sample_config (sample_checkout None) 0 sample_carts = Inr (Placed ord d')
     \<and> unit_stock d' (UnitP 1) = unit_stock sample_carts (UnitP 1)
         - sold_qty (map line_of_row (order_items_of (o_id ord) d')) (UnitP 1)
     \<and> ledger_ok d' \<and> orders_ok d'"
proof (rule is_placedE [OF sample_placed])
  fix ord d'
  assume c: "checkout (\<lambda>s. ''h'') sample_config (sample_checkout None) 0 sample_carts = Inr (Placed ord d')"
  from checkout_sells_exactly [OF c sample_first_use sample_carts_tables(1,2) sample_carts_ok sample_carts_tables(3), of "UnitP 1"]
    c sample_carts_tables(4) show ?thesis by blast
qed


end
