(* ===== verification/Checkout_Guarantees.thy ===== *)
theory Checkout_Guarantees
  imports Checkout
begin

text \<open>
  What checkout promises beyond a single order: a repeated request is answered with the order it
  already made, a coupon is never used beyond its limits, a price change touches nothing but the
  cart's remembered prices and is asked about once, a quote equals the order it announces, and a
  guest's payment token opens exactly one order.
\<close>

section \<open>The caller's cart is found again\<close>

lemma get_or_create_again:
  assumes "cart_ok d" and "c \<in> set (d_carts d)" and "owns c user guest" and "user \<noteq> None \<or> guest \<noteq> None"
  shows "get_or_create_cart user guest d = Inr (c, d)"
proof (cases user)
  case (Some u)
  with assms have "get_cart_by_user_id u d = Some c" by (intro cart_by_user_unique) (simp_all add: owns_def)
  with Some show ?thesis by (simp add: get_or_create_cart_def)
next
  case None
  with assms obtain t where t: "guest = Some t" "ct_guest_token c = Some t" by (auto simp: owns_def)
  have "get_cart_by_guest_token t d = Some c"
    unfolding get_cart_by_guest_token_def
  proof (rule find_unique [OF assms(2)])
    show "y = c" if "y \<in> set (d_carts d)" "ct_guest_token y = Some t" for y
      by (rule cart_by_token_unique [OF assms(1,2) t(2) that])
  qed (rule t(2))
  with None t(1) show ?thesis by (simp add: get_or_create_cart_def)
qed

lemma find_append_None: "find P xs = None \<Longrightarrow> P y \<Longrightarrow> find P (xs @ [y]) = Some y"
  by (induction xs) (auto split: if_splits)

lemma order_of_fields [simp]:
  "o_id (order_of sha cfg rq i dg cur dl cols sub tt now) = i"
  "o_user_id (order_of sha cfg rq i dg cur dl cols sub tt now) = cr_user_id rq"
  "o_guest_token (order_of sha cfg rq i dg cur dl cols sub tt now) = (if is_guest rq then cr_guest_token rq else None)"
  "o_guest_email (order_of sha cfg rq i dg cur dl cols sub tt now) = guest_email_of rq"
  "o_idempotency_key (order_of sha cfg rq i dg cur dl cols sub tt now) = cr_idempotency_key rq"
  "o_request_hash (order_of sha cfg rq i dg cur dl cols sub tt now) = Some (fingerprint_of sha rq)"
  "o_cart_digest (order_of sha cfg rq i dg cur dl cols sub tt now) = Some dg"
  "o_status (order_of sha cfg rq i dg cur dl cols sub tt now) = PENDING"
  "o_coupon_id (order_of sha cfg rq i dg cur dl cols sub tt now) = map_option cp_id (tt_coupon tt)"
  "o_subtotal_cents (order_of sha cfg rq i dg cur dl cols sub tt now) = sub"
  "o_discount_cents (order_of sha cfg rq i dg cur dl cols sub tt now) = ds_goods_cents (tt_discount tt)"
  "o_shipping_cents (order_of sha cfg rq i dg cur dl cols sub tt now) = tt_shipping_cents tt"
  "o_tax_cents (order_of sha cfg rq i dg cur dl cols sub tt now) = tx_tax_paise (tt_tax tt)"
  "o_total_cents (order_of sha cfg rq i dg cur dl cols sub tt now) = tt_total_cents tt"
  "o_currency (order_of sha cfg rq i dg cur dl cols sub tt now) = Some (cur_code cur)"
  by (simp_all add: order_of_def)

lemma existing_after:
  assumes "existing_order rq d = None" and "d_orders d' = d_orders d @ [order_of sha cfg rq i dg cur dl cols sub tt now]"
  shows "existing_order rq d' = Some (order_of sha cfg rq i dg cur dl cols sub tt now)"
proof (cases "cr_user_id rq")
  case None
  with assms show ?thesis
    by (auto simp: existing_order_def is_guest_def get_by_idempotency_key_def intro!: find_append_None)
next
  case (Some u)
  with assms show ?thesis
    by (auto simp: existing_order_def is_guest_def get_by_idempotency_key_def intro!: find_append_None)
qed

lemma checkout_guest_email:
  assumes "checkout sha cfg rq now d = Inr out"
  shows "is_guest rq \<longrightarrow> truthy (cr_guest_email rq)"
proof (rule ccontr)
  assume "\<not> ?thesis"
  then have "checkout sha cfg rq now d = Inl GuestEmailRequired" by (simp add: checkout_def)
  with assms show False by simp
qed

section \<open>Idempotency\<close>


text \<open>
  A key that was used before never makes a second order. The answer is the existing order,
  and nothing but an empty cart row for the caller may be new; or, when the request differs from the
  one that made the order (address, guest email, coupon) or the caller's cart now holds something
  else, the request is refused.
\<close>

theorem used_key_never_orders_again:
  assumes "existing_order rq d = Some old" and "cart_ok d"
  shows "(checkout sha cfg rq now d = Inr out \<longrightarrow> (\<exists>d'. out = Placed old d' \<and> shop_frame d d' \<and> d_cart_items d' = d_cart_items d))
    \<and> (o_request_hash old \<notin> {None, Some (fingerprint_of sha rq)} \<and> (is_guest rq \<longrightarrow> truthy (cr_guest_email rq)) \<longrightarrow>
         checkout sha cfg rq now d = Inl IdempotencyKeyConflict)"
proof (intro conjI impI)
  assume "checkout sha cfg rq now d = Inr out"
  then have r: "replay sha rq old d = Inr out" using assms(1) by (auto simp: checkout_def split: if_splits)
  show "\<exists>d'. out = Placed old d' \<and> shop_frame d d' \<and> d_cart_items d' = d_cart_items d"
  proof (cases "o_cart_digest old")
    case None
    with r show ?thesis by (auto simp: replay_def split: if_splits)
  next
    case (Some dg)
    with r obtain c d' where "get_or_create_cart (cr_user_id rq) (cr_guest_token rq) d = Inr (c, d')" "out = Placed old d'"
      by (auto simp: replay_def res_simps Let_def split: if_splits)
    with get_or_create_cart_ok [OF _ assms(2)] repo_frames(1) show ?thesis by blast
  qed
next
  assume "o_request_hash old \<notin> {None, Some (fingerprint_of sha rq)} \<and> (is_guest rq \<longrightarrow> truthy (cr_guest_email rq))"
  with assms(1) show "checkout sha cfg rq now d = Inl IdempotencyKeyConflict"
    by (auto simp: checkout_def replay_def)
qed

section \<open>Coupon limits\<close>

lemma uses_snoc:
  "uses k user email (d\<lparr>d_orders := ords @ [ord]\<rparr>) = uses k user email (d\<lparr>d_orders := ords\<rparr>)
     + (if o_coupon_id ord = Some k \<and> o_status ord \<in> set ALIVE
           \<and> (case user of Some u \<Rightarrow> o_user_id ord = Some u
              | None \<Rightarrow> (case email of Some e \<Rightarrow> map_option str_lower (o_guest_email ord) = Some (str_lower e) | None \<Rightarrow> True))
        then 1 else 0)"
  unfolding uses_def by (cases user; cases email) auto

lemma uses_orders: "d_orders d' = d_orders d \<Longrightarrow> uses k user email d' = uses k user email d"
  by (simp add: uses_def)

lemma settle_coupon:
  assumes "settle cfg user email code cols ps sub ls now d = Inr tt" and "tt_coupon tt = Some c"
  obtains sh disc where "evaluate (Some c) sub sh user email now d = Inr disc" "c \<in> set (d_coupons d)"
proof -
  obtain sh disc where e: "evaluate (Option.bind code (\<lambda>c. find_by_code c d)) sub sh user email now d = Inr disc"
    "Option.bind code (\<lambda>c. find_by_code c d) = Some c"
    using assms by (auto simp: settle_def apply_coupon_def res_simps Let_def split: if_splits)
  moreover have "c \<in> set (d_coupons d)"
    using e(2) by (auto simp: find_by_code_def bind_eq_Some_conv dest: row_SomeD)
  ultimately show ?thesis using that by auto
qed

text \<open>
  Claim C30. A coupon is never used beyond its limits: after an order with a coupon was placed, the
  living orders that carry the coupon number at most its total limit, and those of this customer
  (account, or guest email regardless of case) at most its limit per customer.
\<close>

theorem coupon_limits_hold:
  assumes "checkout sha cfg rq now d = Inr (Placed ord d')" and "existing_order rq d = None"
    and "cart_ok d" "orders_ok d" and "o_coupon_id ord = Some k"
  shows "\<exists>c. c \<in> set (d_coupons d) \<and> cp_id c = k
    \<and> (\<forall>m. cp_max_uses_total c = Some m \<longrightarrow> uses k None None d' \<le> m)
    \<and> (\<forall>m. cp_max_uses_per_customer c = Some m \<longrightarrow> uses k (cr_user_id rq) (guest_email_of rq) d' \<le> m)"
  using assms(1-4)
proof (rule checkout_placed)
  fix c d3 d4 lk st tt rows n h columns
  assume d3: "d3 = d\<lparr>d_next := d_next d3, d_carts := d_carts d3, d_store_currency := d_store_currency d3\<rparr>"
    and se: "settle cfg (cr_user_id rq) (guest_email_of rq) (cr_coupon_code rq) columns (lk_products lk)
       (pr_subtotal_cents st) (pr_lines st) now d3 = Inr tt"
    and d': "d' = clear (ct_id c) (d4\<lparr>d_next := n, d_orders := d_orders d @ [ord], d_order_items := d_order_items d @ rows,
        d_order_history := d_order_history d @ [h]\<rparr>)"
    and ord: "ord = order_of sha cfg rq (o_id ord) (cart_digest sha (items_of (ct_id c) d)) (projr (quote_currency cfg d))
             (cf_delivery_eligibility cfg columns) columns (pr_subtotal_cents st) tt now"
  obtain m cs x where d3': "d3 = d\<lparr>d_next := m, d_carts := cs, d_store_currency := x\<rparr>" using d3 by blast
  have "o_coupon_id ord = map_option cp_id (tt_coupon tt)" by (subst ord) simp
  with assms(5) obtain cp where cp: "tt_coupon tt = Some cp" "cp_id cp = k" by auto
  have u3: "uses j us em d3 = uses j us em d" for j us em by (rule uses_orders) (simp add: d3')
  have u': "uses k us em d' = uses k us em d + (if (case us of Some u \<Rightarrow> cr_user_id rq = Some u
      | None \<Rightarrow> (case em of Some e \<Rightarrow> map_option str_lower (guest_email_of rq) = Some (str_lower e) | None \<Rightarrow> True)) then 1 else 0)"
    for us em
  proof -
    have "uses k us em d' = uses k us em (d\<lparr>d_orders := d_orders d @ [ord]\<rparr>)" by (rule uses_orders) (simp add: d' clear_def)
    moreover have "o_status ord = PENDING" "o_user_id ord = cr_user_id rq" "o_guest_email ord = guest_email_of rq"
      by (subst ord, simp)+
    ultimately show ?thesis using assms(5) uses_snoc [where k = k and user = us and email = em and d = d and ords = "d_orders d" and ord = ord]
      by (cases us; cases em) (simp_all add: ALIVE_def)
  qed
  have em: "cr_user_id rq \<noteq> None \<or> guest_email_of rq \<notin> {None, Some ''''}"
    using checkout_guest_email [OF assms(1)]
    by (auto simp: guest_email_of_def is_guest_def truthy_def split: if_splits option.splits)
  from se cp(1) show ?thesis
  proof (rule settle_coupon)
    fix sh disc
    assume ev: "evaluate (Some cp) (pr_subtotal_cents st) sh (cr_user_id rq) (guest_email_of rq) now d3 = Inr disc"
      and mem: "cp \<in> set (d_coupons d3)"
    from ev have lim: "(\<forall>m. cp_max_uses_total cp = Some m \<longrightarrow> uses k None None d < m)
      \<and> (\<forall>m. cp_max_uses_per_customer cp = Some m \<longrightarrow> uses k (cr_user_id rq) (guest_email_of rq) d < m)"
      by (rule evaluate_Inr) (use em cp(2) in \<open>auto simp: u3\<close>)
    then show ?thesis using mem cp(2) by (intro exI [of _ cp]) (auto simp: d3' u' split: option.splits)
  qed
qed

section \<open>Guest payment tokens\<close>

text \<open>
  A guest's payment token opens exactly the order it was issued for, and only until the
  payment window closes: after it is issued the holder is authorised; any other token is not, nor the
  one issued before it (as long as SHA-256 does not collide on the two tokens), and no token opens a
  registered customer's order.
\<close>

theorem guest_token_opens_one_order:
  assumes "issue_guest_payment_token sha token ord d = (Some token, d')" and "row o_id (o_id ord) (d_orders d) = Some ord"
    and "sha token \<noteq> ''''" and "sha other = sha token \<Longrightarrow> other = token"
  shows "authorize_guest_payment sha cfg (o_id ord) other now d' =
      (if other = token \<and> now - o_created_at ord \<le> cf_pending_order_timeout_minutes cfg * MINUTE
       then Inr (ord\<lparr>o_payment_token_hash := Some (sha token)\<rparr>) else Inl (OrderNotFound (o_id ord)))
    \<and> (get_order_by_id i d' = Some x \<and> o_user_id x \<noteq> None \<longrightarrow>
         authorize_guest_payment sha cfg i other now d' = Inl (OrderNotFound i))"
proof -
  let ?o = "ord\<lparr>o_payment_token_hash := Some (sha token)\<rparr>"
  have d': "d' = d\<lparr>d_orders := set_row o_id ?o (d_orders d)\<rparr>" and g: "o_user_id ord = None"
    using assms(1) by (auto simp: issue_guest_payment_token_def split: if_splits)
  have "get_order_by_id (o_id ord) d' = Some ?o"
    unfolding get_order_by_id_def d' using row_set_row_same [OF assms(2), of ?o] by simp
  with g assms(3,4) show ?thesis by (auto simp: authorize_guest_payment_def truthy_def)
qed

section \<open>Price changes\<close>

lemma sort_key_map:
  assumes "\<And>x. f (g x) = f x"
  shows "sort_key f (map g xs) = map g (sort_key f xs)"
proof -
  have "insort_key f (g x) (map g ys) = map g (insort_key f x ys)" for x ys
    by (induction ys) (auto simp: assms)
  then show ?thesis by (induction xs) auto
qed

definition repriced :: "(cart_item \<Rightarrow> int) \<Rightarrow> cart_item \<Rightarrow> cart_item" where
  "repriced g i = i\<lparr>ci_price_cents_snapshot := g i\<rparr>"

lemma repriced_fields [simp]:
  "ci_id (repriced g i) = ci_id i" "ci_cart_id (repriced g i) = ci_cart_id i"
  "ci_product_id (repriced g i) = ci_product_id i" "ci_variant_id (repriced g i) = ci_variant_id i"
  "ci_quantity (repriced g i) = ci_quantity i" "ci_price_cents_snapshot (repriced g i) = g i"
  by (simp_all add: repriced_def)

lemma refresh_rows:
  assumes "distinct (map ci_id xs)"
  shows "refresh_prices (map (\<lambda>i. (i, g i)) xs) d
    = d\<lparr>d_cart_items := map (\<lambda>j. case row ci_id (ci_id j) xs of None \<Rightarrow> j | Some i \<Rightarrow> repriced g i) (d_cart_items d)\<rparr>"
  using assms
proof (induction xs arbitrary: d)
  case Nil
  then show ?case by (simp add: refresh_prices_def)
next
  case (Cons x xs)
  have "row ci_id (ci_id x) xs = None" using Cons.prems by (simp add: row_None_iff)
  then have "map (\<lambda>j. case row ci_id (ci_id j) xs of None \<Rightarrow> j | Some i \<Rightarrow> repriced g i) (set_row ci_id (repriced g x) t)
    = map (\<lambda>j. case row ci_id (ci_id j) (x # xs) of None \<Rightarrow> j | Some i \<Rightarrow> repriced g i) t" for t
    by (auto simp: set_row_def)
  with Cons.IH [of "set_price_snapshot x (g x) d"] Cons.prems show ?case
    by (simp add: refresh_prices_def set_price_snapshot_def repriced_def [symmetric])
qed

lemma refresh_cart:
  assumes "cart_ok d" and "items = items_of c d" and "mset srt = mset items"
    and "changes = map (\<lambda>i. (i, g i)) (filter (\<lambda>i. ci_price_cents_snapshot i \<noteq> g i) srt)"
  shows "refresh_prices changes d
    = d\<lparr>d_cart_items := map (\<lambda>j. if ci_cart_id j = c then repriced g j else j) (d_cart_items d)\<rparr>"
proof -
  let ?xs = "filter (\<lambda>i. ci_price_cents_snapshot i \<noteq> g i) srt"
  have sub: "set srt = {i \<in> set (d_cart_items d). ci_cart_id i = c}"
    using mset_eq_setD [OF assms(3)] by (auto simp: assms(2) items_of_def)
  have "distinct (map ci_id items)" unfolding assms(2) items_of_def
    by (rule distinct_map_filter) (rule cart_okD(2) [OF assms(1)])
  moreover have "mset (map ci_id srt) = mset (map ci_id items)" using assms(3) by simp
  ultimately have dist: "distinct (map ci_id ?xs)"
    by (intro distinct_map_filter) (metis mset_eq_imp_distinct_iff)
  have "(case row ci_id (ci_id j) ?xs of None \<Rightarrow> j | Some i \<Rightarrow> repriced g i) = (if ci_cart_id j = c then repriced g j else j)"
    if j: "j \<in> set (d_cart_items d)" for j
  proof (cases "row ci_id (ci_id j) ?xs")
    case None
    then have "j \<notin> set ?xs" by (auto simp: row_None_iff)
    with j have "ci_cart_id j = c \<longrightarrow> ci_price_cents_snapshot j = g j" by (auto simp: sub)
    with None show ?thesis by (auto simp: repriced_def)
  next
    case (Some i)
    then have i: "i \<in> set ?xs" "ci_id i = ci_id j" by (auto dest: row_SomeD)
    then have "i = j" using cart_okD(2) [OF assms(1)] j sub by (auto simp: distinct_map dest: inj_onD)
    with Some i sub show ?thesis by auto
  qed
  then have "map (\<lambda>j. case row ci_id (ci_id j) ?xs of None \<Rightarrow> j | Some i \<Rightarrow> repriced g i) (d_cart_items d)
    = map (\<lambda>j. if ci_cart_id j = c then repriced g j else j) (d_cart_items d)" by (rule map_cong [OF refl])
  with refresh_rows [OF dist] show ?thesis by (simp only: assms(4))
qed

text \<open>Prices do not depend on what the cart remembered.\<close>

lemma lock_rows_repriced:
  assumes "d_products d' = d_products d" "d_variants d' = d_variants d" "d_options d' = d_options d"
    "d_option_values d' = d_option_values d"
  shows "lock_rows (map (repriced g) items) d' = lock_rows items d"
proof -
  have "List.map_filter ci_variant_id (map (repriced g) items) = List.map_filter ci_variant_id items"
    by (induction items) (simp_all add: List.map_filter_simps split: option.split)
  moreover have "map ci_product_id (map (repriced g) items) = map ci_product_id items" by simp
  moreover have "map ci_product_id (filter (\<lambda>i. ci_variant_id i \<noteq> None) (map (repriced g) items))
      = map ci_product_id (filter (\<lambda>i. ci_variant_id i \<noteq> None) items)"
    by (induction items) auto
  ultimately show ?thesis
    unfolding lock_rows_def Let_def get_many_for_update_def get_variants_for_update_def option_labels_def options_for_def
    by (simp only: assms)
qed

lemma line_at_repriced: "line_at lk (repriced g i) = line_at lk i"
  unfolding line_at_def resolve_line_def repriced_fields by (rule refl)

lemma repriced_no_changes:
  assumes "price_cart cfg (map (repriced (\<lambda>i. ln_price_cents_snapshot (line_at lk i))) items) d' = Inr (lk', st')"
    and "lk = lock_rows items d" and "d_products d' = d_products d" "d_variants d' = d_variants d"
    "d_options d' = d_options d" "d_option_values d' = d_option_values d"
  shows "pr_price_changes st' = []"
proof -
  note p = price_cart_Inr [OF assms(1)]
  have "lk' = lk" using p(1) lock_rows_repriced [OF assms(3-6)] assms(2) by simp
  then show ?thesis using p(5) by (auto simp: line_at_repriced filter_empty_conv)
qed

text \<open>What a price-change answer leaves as it was.\<close>

definition only_carts_changed :: "db \<Rightarrow> db \<Rightarrow> bool" where
  "only_carts_changed d d' \<longleftrightarrow> d' = d\<lparr>d_next := d_next d', d_carts := d_carts d', d_cart_items := d_cart_items d',
     d_store_currency := d_store_currency d'\<rparr>"

lemma same_line_repriced [simp]:
  "same_line (repriced g i) j = same_line i j" "same_line i (repriced g j) = same_line i j"
  unfolding same_line_def repriced_fields by (rule refl)+

lemma lines_ok_repriced:
  assumes "lines_ok is ids n"
  shows "lines_ok (map (\<lambda>j. if ci_cart_id j = c then repriced g j else j) is) ids n"
proof -
  define f where "f = (\<lambda>j. if ci_cart_id j = c then repriced g j else j)"
  have f: "ci_id (f j) = ci_id j" "ci_quantity (f j) = ci_quantity j" "ci_cart_id (f j) = ci_cart_id j"
    "same_line (f i) (f j) = same_line i j" for i j
    by (auto simp: f_def)
  have "map ci_id (map f is) = map ci_id is" using f(1) by auto
  then have "lines_ok (map f is) ids n" using assms f unfolding lines_ok_def by (auto simp del: map_map)
  then show ?thesis by (simp add: f_def)
qed

lemma price_change_state:
  assumes "checkout sha cfg rq now d = Inr (PricesChanged ch sub d')" and "cart_ok d"
  obtains c n cs x lk where "existing_order rq d = None" "c \<in> set cs" "owns c (cr_user_id rq) (cr_guest_token rq)"
    "cr_user_id rq \<noteq> None \<or> cr_guest_token rq \<noteq> None"
    "d' = d\<lparr>d_next := n, d_carts := cs, d_store_currency := x,
       d_cart_items := map (\<lambda>j. if ci_cart_id j = ct_id c then repriced (\<lambda>i. ln_price_cents_snapshot (line_at lk i)) j else j) (d_cart_items d)\<rparr>"
    "cart_ok d'" "lk = lock_rows (sorted_items (items_of (ct_id c) d)) d" "d_next d \<le> n"
proof -
  have ex: "existing_order rq d = None"
  proof (rule ccontr)
    assume "existing_order rq d \<noteq> None"
    then obtain old where "existing_order rq d = Some old" by blast
    with assms(1) have "replay sha rq old d = Inr (PricesChanged ch sub d')" by (simp add: checkout_def split: if_splits)
    then show False by (auto simp: replay_def res_simps Let_def split: if_splits option.splits)
  qed
  from assms(1) ex show ?thesis
  proof (rule checkout_new)
    fix cur and d1 :: db and columns c and d2 :: db and lk and st :: pricing
    let ?d3 = "d2\<lparr>d_next := d_next d2 + 1\<rparr>"
    let ?g = "\<lambda>i. ln_price_cents_snapshot (line_at lk i)"
    assume rc: "resolve_currency cfg d = Inr (cur, d1)"
      and gc: "get_or_create_cart (cr_user_id rq) (cr_guest_token rq) d1 = Inr (c, d2)"
      and pc: "price_cart cfg (sorted_items (items_of (ct_id c) d2)) ?d3 = Inr (lk, st)"
      and out: "(pr_price_changes st \<noteq> [] \<and> PricesChanged ch sub d' = PricesChanged (pr_price_changes st) (pr_subtotal_cents st)
         (refresh_prices (pr_price_changes st) ?d3)) \<or> (pr_price_changes st = [] \<and> (\<exists>tt.
         settle cfg (cr_user_id rq) (guest_email_of rq) (cr_coupon_code rq) columns (lk_products lk)
           (pr_subtotal_cents st) (pr_lines st) now ?d3 = Inr tt
         \<and> place_order (ct_id c) lk st
             (order_of sha cfg rq (d_next d2) (cart_digest sha (items_of (ct_id c) d2)) cur
                (cf_delivery_eligibility cfg columns) columns (pr_subtotal_cents st) tt now)
             (tt_lines tt) now ?d3 = Inr (PricesChanged ch sub d')))"
    obtain x where d1: "d1 = d\<lparr>d_store_currency := x\<rparr>" using resolve_currency_frame [OF rc] by blast
    have c1: "cart_ok d1" by (rule cart_ok_cong [OF assms(2)]) (simp_all add: d1)
    note g = get_or_create_cart_ok [OF gc c1]
    obtain m cs where d2: "d2 = d1\<lparr>d_next := m, d_carts := cs\<rparr>" and m: "d_next d1 \<le> m"
    proof (rule that)
      show "d_next d1 \<le> d_next d2" using repo_frames(1) [OF gc] by (simp add: shop_frame_def)
      have "d_cart_items d2 = d_cart_items d1" using g by simp
      with repo_frames(1) [OF gc] show "d2 = d1\<lparr>d_next := d_next d2, d_carts := d_carts d2\<rparr>"
        unfolding shop_frame_def by (cases d1; cases d2) simp
    qed
    have id: "cr_user_id rq \<noteq> None \<or> cr_guest_token rq \<noteq> None"
      using gc by (auto simp: get_or_create_cart_def split: if_splits)
    have io: "items_of (ct_id c) ?d3 = items_of (ct_id c) d" "items_of (ct_id c) d2 = items_of (ct_id c) d"
      by (simp_all add: items_of_def d1 d2)
    note p = price_cart_Inr [OF pc]
    have ok3: "cart_ok ?d3" by (rule cart_ok_cong [of d2]) (use g in simp_all)
    have d': "d' = refresh_prices (pr_price_changes st) ?d3"
      using out by (auto simp: place_order_def res_simps)
    have ms: "mset (sorted_items (items_of (ct_id c) d2)) = mset (items_of (ct_id c) ?d3)"
      by (simp add: sorted_items_def io)
    have fin: "d' = ?d3\<lparr>d_cart_items := map (\<lambda>j. if ci_cart_id j = ct_id c then repriced ?g j else j) (d_cart_items ?d3)\<rparr>"
      unfolding d' by (rule refresh_cart [OF ok3 refl ms p(5)])
    have lines: "lines_ok (map (\<lambda>j. if ci_cart_id j = ct_id c then repriced ?g j else j) (d_cart_items ?d3))
        (ct_id ` set (d_carts ?d3)) (d_next ?d3)"
      by (rule lines_ok_repriced) (use ok3 in \<open>simp only: cart_ok_def\<close>)
    have ok': "cart_ok d'" using ok3 lines by (simp add: cart_ok_def fin)
    show ?thesis
    proof (rule that [OF ex _ _ id _ ok'])
      show "d_next d \<le> m + 1" using m by (simp add: d1)
      show "c \<in> set cs" using g by (simp add: d2)
      show "owns c (cr_user_id rq) (cr_guest_token rq)" using g by simp
      show "d' = d\<lparr>d_next := m + 1, d_carts := cs, d_store_currency := x, d_cart_items :=
          map (\<lambda>j. if ci_cart_id j = ct_id c then repriced ?g j else j) (d_cart_items d)\<rparr>"
        by (simp add: fin d1 d2)
      show "lk = lock_rows (sorted_items (items_of (ct_id c) d)) d"
        using p(1) unfolding io(2)
        by (simp add: lock_rows_def Let_def get_many_for_update_def get_variants_for_update_def option_labels_def options_for_def d1 d2)
    qed
  qed
qed

lemma items_of_repriced:
  "items_of c (d\<lparr>d_cart_items := map (\<lambda>j. if ci_cart_id j = c then repriced g j else j) xs\<rparr>)
     = map (repriced g) (items_of c (d\<lparr>d_cart_items := xs\<rparr>))"
proof -
  have "filter (\<lambda>i. ci_cart_id i = c) (map (\<lambda>j. if ci_cart_id j = c then repriced g j else j) xs)
      = map (repriced g) (filter (\<lambda>i. ci_cart_id i = c) xs)"
    by (induction xs) auto
  then show ?thesis by (simp add: items_of_def)
qed

lemma sorted_items_repriced: "sorted_items (map (repriced g) xs) = map (repriced g) (sorted_items xs)"
  unfolding sorted_items_def by (rule sort_key_map) simp

lemma place_order_Placed: "place_order cid lk st ord ls now d = Inr out \<Longrightarrow> \<exists>d'. out = Placed ord d'"
  by (auto simp: place_order_def res_simps)


section \<open>Quote\<close>

lemma row_map_filter:
  "row key i (List.map_filter (\<lambda>j. row key j t) is) = (if i \<in> set is then row key i t else None)"
proof (induction "is")
  case (Cons j js)
  show ?case
  proof (cases "row key j t")
    case (Some a)
    then have "key a = j" by (auto dest: row_SomeD)
    with Cons Some show ?thesis by (cases "j = i") (simp_all add: List.map_filter_simps)
  qed (use Cons in \<open>auto simp: List.map_filter_simps\<close>)
qed (simp add: List.map_filter_simps)

lemma row_locked:
  "i \<in> set ids \<Longrightarrow> row p_id i (get_many_for_update ids d) = row p_id i (d_products d)"
  "i \<in> set ids \<Longrightarrow> row v_id i (get_variants_for_update ids d) = row v_id i (d_variants d)"
  by (simp_all add: get_many_for_update_def get_variants_for_update_def row_map_filter)

lemma lock_rows_product:
  "i \<in> set items \<Longrightarrow> row p_id (ci_product_id i) (lk_products (lock_rows items d)) = row p_id (ci_product_id i) (d_products d)"
  by (simp add: lock_rows_def Let_def row_locked)

lemma lock_rows_variant:
  assumes "i \<in> set items" and "ci_variant_id i = Some v"
  shows "row v_id v (lk_variants (lock_rows items d)) = row v_id v (d_variants d)"
proof -
  have "v \<in> set (List.map_filter ci_variant_id items)" using assms by (force simp: List.map_filter_def)
  then have ne: "List.map_filter ci_variant_id items \<noteq> []" by auto
  show ?thesis using \<open>v \<in> _\<close> ne by (simp add: lock_rows_def Let_def row_locked)
qed

text \<open>The stock a locked unit has, and what the loop has left of it.\<close>

definition lk_stock :: "locked \<Rightarrow> sold_unit \<Rightarrow> int" where
  "lk_stock lk u = (case u of
      UnitP k \<Rightarrow> (case row p_id k (lk_products lk) of None \<Rightarrow> 0 | Some p \<Rightarrow> p_stock p)
    | UnitV k \<Rightarrow> (case row v_id k (lk_variants lk) of None \<Rightarrow> 0 | Some v \<Rightarrow> v_stock v))"

lemma row_self: "row key k t = Some r \<Longrightarrow> row key (key r) t = Some r"
  by (auto dest: row_SomeD)

lemma resolve_line_stock: "resolve_line lk i = Inr (u, stock, price, l) \<Longrightarrow> stock = lk_stock lk u"
  by (auto simp: resolve_line_def lk_stock_def Let_def row_self split: option.splits if_splits)

definition remaining_ok :: "locked \<Rightarrow> pricing \<Rightarrow> bool" where
  "remaining_ok lk st \<longleftrightarrow> (\<forall>u a. pr_remaining st u = Some a \<longrightarrow> a \<le> lk_stock lk u)"

lemma price_lines_enough:
  assumes "rfold (price_line lk) items st = Inr st'" and "list_all (\<lambda>i. 0 < ci_quantity i) items" and "remaining_ok lk st"
  shows "list_all (\<lambda>i. \<exists>u price l. resolve_line lk i = Inr (u, lk_stock lk u, price, l) \<and> ci_quantity i \<le> lk_stock lk u) items"
  using assms
proof (induction items arbitrary: st)
  case (Cons i items)
  from Cons.prems(1) obtain st1 where 1: "price_line lk i st = Inr st1" and r: "rfold (price_line lk) items st1 = Inr st'"
    by (auto simp: res_simps)
  from 1 obtain u stock price l where rl: "resolve_line lk i = Inr (u, stock, price, l)"
    and q: "ci_quantity i \<le> (case pr_remaining st u of Some a \<Rightarrow> a | None \<Rightarrow> stock)"
    and rem: "pr_remaining st1 = (pr_remaining st)(u \<mapsto> (case pr_remaining st u of Some a \<Rightarrow> a | None \<Rightarrow> stock) - ci_quantity i)"
    by (rule price_line_Inr) simp
  have le: "(case pr_remaining st u of Some a \<Rightarrow> a | None \<Rightarrow> stock) \<le> lk_stock lk u"
    using Cons.prems(3) resolve_line_stock [OF rl] by (auto simp: remaining_ok_def split: option.split)
  then have "remaining_ok lk st1" using Cons.prems(2,3) by (auto simp: remaining_ok_def rem)
  with Cons.IH [OF r] Cons.prems(2) rl resolve_line_stock [OF rl] q le show ?case by auto
qed simp

text \<open>A line that checkout accepts is shown with the same price and nothing that blocks it.\<close>

lemma line_state_resolved:
  assumes "resolve_line (lock_rows items d) i = Inr (u, stock, price, l)" and "i \<in> set items"
    and "0 < ci_quantity i" and "ci_quantity i \<le> stock"
  shows "line_state i d = Some (price, stock, None)"
proof (cases "ci_variant_id i")
  case None
  with assms lock_rows_product [OF assms(2), of d] show ?thesis
    by (auto simp: resolve_line_def line_state_def get_product_def Let_def split: option.splits if_splits)
next
  case (Some v)
  with assms lock_rows_product [OF assms(2), of d] lock_rows_variant [OF assms(2) Some, of d] show ?thesis
    by (auto simp: resolve_line_def line_state_def get_product_def get_variant_def Let_def
        split: option.splits if_splits)
qed

lemma quote_states:
  assumes "price_cart cfg items d = Inr (lk, st)" and "list_all (\<lambda>i. 0 < ci_quantity i) items"
  obtains states where "rmap (\<lambda>i. case line_state i d of None \<Rightarrow> Inl TypeError | Some s \<Rightarrow> Inr s) items = Inr states"
    "map fst states = map ln_price_cents_snapshot (pr_lines st)" "list_all (\<lambda>s. snd (snd s) = None) states"
proof -
  have r: "rfold (price_line lk) items no_pricing = Inr st" and lk: "lk = lock_rows items d"
    using assms(1) by (auto simp: price_cart_def Let_def res_simps split: if_splits)
  note p = price_cart_Inr [OF assms(1)]
  let ?f = "\<lambda>i. case line_state i d of None \<Rightarrow> Inl TypeError | Some s \<Rightarrow> Inr s"
  have f: "\<exists>stock. ?f i = Inr (ln_price_cents_snapshot (line_at lk i), stock, None)" if i: "i \<in> set items" for i
  proof -
    have "remaining_ok lk no_pricing" by (simp add: remaining_ok_def no_pricing_def)
    from price_lines_enough [OF r assms(2) this] i obtain u price l where
      u: "resolve_line lk i = Inr (u, lk_stock lk u, price, l)" "ci_quantity i \<le> lk_stock lk u"
      by (auto simp: list_all_iff)
    have "line_state i d = Some (price, lk_stock lk u, None)"
      using line_state_resolved [OF u(1) [unfolded lk] i] u(2) assms(2) i by (simp add: list_all_iff lk)
    then show ?thesis using u(1) resolve_line_Inr(2) [OF u(1)] by (simp add: line_at_def)
  qed
  then obtain states where s: "rmap ?f items = Inr states" using rmap_total [of items ?f] by blast
  have nth: "\<exists>stock. states ! k = (ln_price_cents_snapshot (line_at lk (items ! k)), stock, None)" if "k < length items" for k
    using rmap_nth [OF s that] f [of "items ! k"] that by auto
  show ?thesis
  proof (rule that [OF s])
    show "map fst states = map ln_price_cents_snapshot (pr_lines st)"
      using nth length_rmap [OF s] by (intro nth_equalityI) (force simp: p(3))+
    show "list_all (\<lambda>s. snd (snd s) = None) states"
      using nth length_rmap [OF s] by (force simp: list_all_length)
  qed
qed

lemma quote_coupon_eq:
  assumes "apply_coupon cfg user email code sub ls now d = Inr (sh, disc, cp, ls')"
    and "sub = sum_list (map line_value ls)" and "list_all (\<lambda>l. ln_discount_cents l = 0) ls"
  obtains shares where "quote_coupon cfg user email code (map line_value ls) now d = Inr (Some sh, disc, cp, shares)"
    "length shares = length ls" "ls' = map (\<lambda>(l, s). l\<lparr>ln_discount_cents := s\<rparr>) (zip ls shares)"
proof -
  have zero: "ls = map (\<lambda>(l, s). l\<lparr>ln_discount_cents := s\<rparr>) (zip ls (replicate (length ls) 0))"
    using assms(3) by (induction ls) auto
  obtain s0 where s0: "calculate_shipping cfg sub = Inr s0" using assms(1) by (auto simp: apply_coupon_def res_simps)
  show ?thesis
  proof (cases "truthy code")
    case False
    with assms(1) s0 have "sh = s0" "disc = no_discount" "cp = None" "ls' = ls" by (auto simp: apply_coupon_def)
    with False s0 zero assms(2) show ?thesis
      by (intro that [of "replicate (length ls) 0"]) (simp_all add: quote_coupon_def Let_def)
  next
    case True
    let ?cp = "Option.bind code (\<lambda>c. find_by_code c d)"
    obtain dc where ev: "evaluate ?cp sub s0 user email now d = Inr dc"
      using assms(1) s0 True by (auto simp: apply_coupon_def res_simps Let_def)
    show ?thesis
    proof (cases "ds_goods_cents dc = 0")
      case z: True
      with assms(1) s0 True ev have "sh = 0" "disc = dc" "cp = ?cp" "ls' = ls" by (auto simp: apply_coupon_def)
      with True s0 ev z zero assms(2) show ?thesis
        by (intro that [of "replicate (length ls) 0"]) (simp_all add: quote_coupon_def Let_def)
    next
      case nz: False
      let ?ss = "share_discount (ds_goods_cents dc) (map line_value ls)"
      from assms(1) s0 True ev nz have "calculate_shipping cfg (sub - ds_goods_cents dc) = Inr sh" "disc = dc" "cp = ?cp"
        "length ?ss = length ls" "ls' = map (\<lambda>(l, s). l\<lparr>ln_discount_cents := s\<rparr>) (zip ls ?ss)"
        by (auto simp: apply_coupon_def res_simps Let_def split: if_splits)
      with True s0 ev nz assms(2) show ?thesis
        by (intro that [of ?ss]) (simp_all add: quote_coupon_def Let_def)
    qed
  qed
qed

lemma rmap_cong: "(\<And>x. x \<in> set xs \<Longrightarrow> f x = g x) \<Longrightarrow> rmap f xs = rmap g xs"
  by (induction xs) auto

lemma calculate_tax_cong:
  assumes "\<And>i. i \<in> set is \<Longrightarrow> row p_id (ti_product_id i) ps = row p_id (ti_product_id i) qs" and "d_tax d' = d_tax d"
  shows "calculate_tax cfg is ps sub sh cols now d' = calculate_tax cfg is qs sub sh cols now d"
proof -
  let ?f = "\<lambda>t i. case row p_id (ti_product_id i) t of None \<Rightarrow> Inl KeyError
      | Some p \<Rightarrow> Inr \<lparr>tl_product_id = ti_product_id i, tl_quantity = ti_quantity i, tl_unit_price_paise = ti_price_cents i,
          tl_classification_id = p_tax_classification_id p, tl_discount_paise = ti_discount_cents i\<rparr>"
  have "rmap (?f ps) is = rmap (?f qs) is" by (rule rmap_cong) (simp add: assms(1))
  then show ?thesis unfolding calculate_tax_def by (simp only: assms(2))
qed

lemma apply_coupon_cong:
  "d_coupons d' = d_coupons d \<Longrightarrow> d_orders d' = d_orders d \<Longrightarrow>
     apply_coupon cfg user email code sub ls now d' = apply_coupon cfg user email code sub ls now d"
  unfolding apply_coupon_def evaluate_def find_by_code_def uses_def by (simp only:)

text \<open>The GST engine answers only for an address whose state it knows.\<close>

lemma gst_needs_state:
  assumes "calculate_tax cfg is ps sub sh cols now d = Inr r" and "cf_tax_engine cfg = GstTaxEngine"
  shows "truthy (map_option sa_state cols)"
proof -
  obtain rq where "gst_calculate (d_tax d) rq = Inr r" "rq_delivery_state rq = map_option sa_state cols"
    using assms by (auto simp: calculate_tax_def engine_calculate_def res_simps)
  then have "resolve_state (map_option sa_state cols) \<noteq> None"
    by (auto simp: gst_calculate_def Let_def split: prod.splits if_splits option.splits)
  then show ?thesis by (auto simp: resolve_state_def truthy_def split: option.splits)
qed

lemma quote_tax_eq:
  assumes "calculate_tax cfg is ps sub sh cols now d = Inr r" and "assert_pricing_configured cfg = Inr ()"
  shows "\<exists>t. quote_tax_of cfg is ps sub (Some sh) cols now d = Inr (t, False) \<and> qx_added_cents t = Some (tx_tax_paise r)"
proof -
  have "is_configured (cf_tax_engine cfg)" using assms(2) by (auto simp: assert_pricing_configured_def split: if_splits)
  then show ?thesis
    using assms(1) gst_needs_state [OF assms(1)] by (auto simp: quote_tax_of_def mk_quote_tax_def)
qed

lemma quote_columns_eq:
  assumes "resolve_shipping_snapshot cfg user aid ship d = Inr cols"
  shows "quote_columns cfg user aid ship d = Inr cols"
  using assms by (cases user) (auto simp: quote_columns_def resolve_shipping_snapshot_def)

lemma tax_inputs_eq:
  assumes "length ls = length items" and "length shares = length items"
    and "\<And>k. k < length items \<Longrightarrow> ln_product_id (ls ! k) = ci_product_id (items ! k) \<and> ln_quantity (ls ! k) = ci_quantity (items ! k)"
  shows "map (\<lambda>(i, p, s). \<lparr>ti_product_id = ci_product_id i, ti_quantity = ci_quantity i, ti_price_cents = p, ti_discount_cents = s\<rparr>)
       (zip items (zip (map ln_price_cents_snapshot ls) shares))
    = map tax_input_of (map (\<lambda>(l, s). l\<lparr>ln_discount_cents := s\<rparr>) (zip ls shares))"
  using assms by (intro nth_equalityI) (auto simp: tax_input_of_def)

lemma quote_values_eq:
  assumes "length ls = length items"
    and "\<And>k. k < length items \<Longrightarrow> ln_quantity (ls ! k) = ci_quantity (items ! k)"
  shows "map (\<lambda>(p, i). p * ci_quantity i) (zip (map ln_price_cents_snapshot ls) items) = map line_value ls"
  using assms by (intro nth_equalityI) (auto simp: line_value_def)

lemma get_or_create_store:
  assumes "get_or_create_cart user guest (d\<lparr>d_store_currency := x\<rparr>) = Inr (c, d2)" and "get_or_create_cart user guest d = Inr (c', e)"
  shows "c' = c"
  using assms by (auto simp: get_or_create_cart_def get_cart_by_user_id_def get_cart_by_guest_token_def fresh_def Let_def
      split: if_splits option.splits)

lemma quote_from_parts:
  assumes "quote_currency cfg d = Inr cur" and "items = sorted_items (items_of (ct_id c) d)" "items \<noteq> []"
    and "rmap (\<lambda>i. case line_state i d of None \<Rightarrow> Inl TypeError | Some s \<Rightarrow> Inr s) items = Inr states"
    and "map fst states = map ln_price_cents_snapshot ls" "list_all (\<lambda>s. snd (snd s) = None) states"
    and "map (\<lambda>(p, i). p * ci_quantity i) (zip (map ln_price_cents_snapshot ls) items) = map line_value ls"
    and "list_all (\<lambda>(i, p). ci_price_cents_snapshot i = p) (zip items (map ln_price_cents_snapshot ls))"
    and "quote_coupon cfg user (if user = None then email else None) code (map line_value ls) now d = Inr (Some sh, disc, cp, shares)"
    and "quote_columns cfg user aid ship d = Inr cols" "dd_deliverable (cf_delivery_eligibility cfg cols)"
    and "map (\<lambda>(i, p, s). \<lparr>ti_product_id = ci_product_id i, ti_quantity = ci_quantity i, ti_price_cents = p, ti_discount_cents = s\<rparr>)
       (zip items (zip (map ln_price_cents_snapshot ls) shares)) = tis"
    and "quote_tax_of cfg tis (d_products d) (sum_list (map line_value ls) - ds_goods_cents disc) (Some sh) cols now d = Inr (t, False)"
    and "qx_added_cents t = Some tax"
  shows "\<exists>q. quote cfg c user email aid ship code now d = Inr q
    \<and> q_total_cents q = Some (sum_list (map line_value ls) - ds_goods_cents disc + sh + tax)
    \<and> q_subtotal_cents q = sum_list (map line_value ls) \<and> q_discount_cents q = ds_goods_cents disc
    \<and> q_shipping_cents q = Some sh \<and> qx_added_cents (q_tax q) = Some tax \<and> q_currency q = cur_code cur
    \<and> q_blocking q = [] \<and> \<not> q_price_changed q \<and> \<not> q_requires_address q"
proof -
  have bl: "List.map_filter (\<lambda>(i, s). map_option (\<lambda>r. (ci_id i, r)) (snd (snd s))) (zip items states) = []"
    using assms(6) by (auto simp: List.map_filter_def filter_empty_conv list_all_iff dest!: set_zip_rightD)
  have pc: "\<not> list_ex (\<lambda>(i, p). ci_price_cents_snapshot i \<noteq> p) (zip items (map ln_price_cents_snapshot ls))"
    using assms(8) by (auto simp: list_ex_iff list_all_iff)
  show ?thesis
    unfolding quote_def assms(1) rbind_simps assms(2) [symmetric] Let_def if_not_P [OF assms(3)] assms(4) assms(5) assms(7)
      assms(9) prod.case assms(10) assms(12) bl
    using assms(11,13,14) pc by simp
qed

lemma settle_cong:
  assumes "d_coupons d' = d_coupons d" "d_orders d' = d_orders d" "d_tax d' = d_tax d"
  shows "settle cfg user email code cols ps sub ls now d' = settle cfg user email code cols ps sub ls now d"
  unfolding settle_def apply_coupon_cong [OF assms(1,2)] calculate_tax_cong [OF refl assms(3)] by (rule refl)

lemma quote_of_settled:
  assumes cfg: "assert_pricing_configured cfg = Inr ()" and cur: "quote_currency cfg d = Inr cur"
    and items: "items = sorted_items (items_of (ct_id c) d)" "items \<noteq> []" "list_all (\<lambda>i. 0 < ci_quantity i) items"
    and pc: "price_cart cfg items d = Inr (lk, st)" and noch: "pr_price_changes st = []"
    and se: "settle cfg user (if user = None then email else None) code cols (lk_products lk)
       (pr_subtotal_cents st) (pr_lines st) now d = Inr tt"
    and cols: "quote_columns cfg user aid ship d = Inr cols" "dd_deliverable (cf_delivery_eligibility cfg cols)"
  shows "\<exists>q. quote cfg c user email aid ship code now d = Inr q \<and> q_total_cents q = Some (tt_total_cents tt)
    \<and> q_subtotal_cents q = pr_subtotal_cents st \<and> q_discount_cents q = ds_goods_cents (tt_discount tt)
    \<and> q_shipping_cents q = Some (tt_shipping_cents tt) \<and> qx_added_cents (q_tax q) = Some (tx_tax_paise (tt_tax tt))
    \<and> q_currency q = cur_code cur \<and> q_blocking q = [] \<and> \<not> q_price_changed q \<and> \<not> q_requires_address q"
proof -
  let ?ls = "pr_lines st"
  note p = price_cart_Inr [OF pc]
  have sub: "pr_subtotal_cents st = sum_list (map line_value ?ls)" and z: "list_all (\<lambda>l. ln_discount_cents l = 0) ?ls"
    using p(2) by (simp_all add: pricing_ok_def)
  have len: "length ?ls = length items" by (simp add: p(3))
  have at: "ln_product_id (?ls ! k) = ci_product_id (items ! k) \<and> ln_quantity (?ls ! k) = ci_quantity (items ! k)"
    if k: "k < length items" for k
  proof -
    obtain r where "resolve_line lk (items ! k) = Inr r" using p(4) k unfolding list_all_length by blast
    from line_facts_at [OF this] k show ?thesis by (simp add: p(3) line_facts_def item_facts_def)
  qed
  obtain sh disc cp ls' where ac: "apply_coupon cfg user (if user = None then email else None) code (pr_subtotal_cents st) ?ls now d
      = Inr (sh, disc, cp, ls')"
    and tx: "calculate_tax cfg (map tax_input_of ls') (lk_products lk) (pr_subtotal_cents st - ds_goods_cents disc) sh cols now d = Inr (tt_tax tt)"
    and tt: "tt_shipping_cents tt = sh" "tt_discount tt = disc"
      "tt_total_cents tt = pr_subtotal_cents st - ds_goods_cents disc + sh + tx_tax_paise (tt_tax tt)"
    using se by (auto simp: settle_def res_simps Let_def)
  obtain shares where qc: "quote_coupon cfg user (if user = None then email else None) code (map line_value ?ls) now d
      = Inr (Some sh, disc, cp, shares)" and sl: "length shares = length ?ls"
    and ls': "ls' = map (\<lambda>(l, s). l\<lparr>ln_discount_cents := s\<rparr>) (zip ?ls shares)"
    by (rule quote_coupon_eq [OF ac sub z])
  have tis: "map (\<lambda>(i, p, s). \<lparr>ti_product_id = ci_product_id i, ti_quantity = ci_quantity i, ti_price_cents = p, ti_discount_cents = s\<rparr>)
       (zip items (zip (map ln_price_cents_snapshot ?ls) shares)) = map tax_input_of ls'"
    unfolding ls' using len sl at by (intro tax_inputs_eq) auto
  have "row p_id (ti_product_id i) (d_products d) = row p_id (ti_product_id i) (lk_products lk)"
    if i: "i \<in> set (map tax_input_of ls')" for i
  proof -
    obtain k where "k < length items" "ti_product_id i = ci_product_id (items ! k)"
      using i at len sl by (auto simp: ls' tax_input_of_def in_set_conv_nth)
    then show ?thesis using lock_rows_product [of "items ! k" items d] by (simp add: p(1))
  qed
  from calculate_tax_cong [of "map tax_input_of ls'", OF this refl] tx
  have "calculate_tax cfg (map tax_input_of ls') (d_products d) (pr_subtotal_cents st - ds_goods_cents disc) sh cols now d = Inr (tt_tax tt)"
    by simp
  from quote_tax_eq [OF this cfg] obtain t where
    t: "quote_tax_of cfg (map tax_input_of ls') (d_products d) (sum_list (map line_value ?ls) - ds_goods_cents disc) (Some sh) cols now d = Inr (t, False)"
      "qx_added_cents t = Some (tx_tax_paise (tt_tax tt))"
    by (auto simp: sub)
  have same: "list_all (\<lambda>(i, p). ci_price_cents_snapshot i = p) (zip items (map ln_price_cents_snapshot ?ls))"
    using noch unfolding p(5) by (auto simp: p(3) list_all_iff filter_empty_conv set_zip)
  obtain states where s: "rmap (\<lambda>i. case line_state i d of None \<Rightarrow> Inl TypeError | Some s \<Rightarrow> Inr s) items = Inr states"
    "map fst states = map ln_price_cents_snapshot ?ls" "list_all (\<lambda>s. snd (snd s) = None) states"
    by (rule quote_states [OF pc items(3)])
  have vals: "map (\<lambda>(p, i). p * ci_quantity i) (zip (map ln_price_cents_snapshot ?ls) items) = map line_value ?ls"
    using at by (intro quote_values_eq [OF len]) blast
  from quote_from_parts [OF cur items(1,2) s vals same qc cols tis t] show ?thesis
    by (simp add: tt sub)
qed

text \<open>
  Claim C28. A quote is what checkout charges: whenever checkout places a new order, a quote asked for
  in the same state with the same address and coupon answers, with the same subtotal, discount,
  shipping, tax, total and currency as the order, no line reported as blocked, no price change and no
  address missing.
\<close>

theorem quote_announces_checkout:
  assumes "checkout sha cfg rq now d = Inr (Placed ord d')" and "existing_order rq d = None" and "cart_ok d"
    and "get_or_create_cart (cr_user_id rq) (cr_guest_token rq) d = Inr (c, e)"
  shows "\<exists>q. quote cfg c (cr_user_id rq) (cr_guest_email rq) (cr_address_id rq) (cr_shipping_address rq) (cr_coupon_code rq) now d = Inr q
    \<and> q_total_cents q = Some (o_total_cents ord) \<and> q_subtotal_cents q = o_subtotal_cents ord
    \<and> q_discount_cents q = o_discount_cents ord \<and> q_shipping_cents q = Some (o_shipping_cents ord)
    \<and> qx_added_cents (q_tax q) = Some (o_tax_cents ord) \<and> o_currency ord = Some (q_currency q)
    \<and> q_blocking q = [] \<and> \<not> q_price_changed q \<and> \<not> q_requires_address q"
  using assms(1,2)
proof (rule checkout_new)
  fix cur and d1 :: db and columns c' and d2 :: db and lk and st :: pricing
  let ?d3 = "d2\<lparr>d_next := d_next d2 + 1\<rparr>"
  assume cfg: "assert_pricing_configured cfg = Inr ()" and rc: "resolve_currency cfg d = Inr (cur, d1)"
    and rs: "resolve_shipping_snapshot cfg (cr_user_id rq) (cr_address_id rq) (cr_shipping_address rq) d1 = Inr columns"
    and dl: "dd_deliverable (cf_delivery_eligibility cfg columns)"
    and gc: "get_or_create_cart (cr_user_id rq) (cr_guest_token rq) d1 = Inr (c', d2)"
    and ne: "items_of (ct_id c') d2 \<noteq> []"
    and pc: "price_cart cfg (sorted_items (items_of (ct_id c') d2)) ?d3 = Inr (lk, st)"
    and out: "(pr_price_changes st \<noteq> [] \<and> Placed ord d' = PricesChanged (pr_price_changes st) (pr_subtotal_cents st)
         (refresh_prices (pr_price_changes st) ?d3)) \<or> (pr_price_changes st = [] \<and> (\<exists>tt.
         settle cfg (cr_user_id rq) (guest_email_of rq) (cr_coupon_code rq) columns (lk_products lk)
           (pr_subtotal_cents st) (pr_lines st) now ?d3 = Inr tt
         \<and> place_order (ct_id c') lk st
             (order_of sha cfg rq (d_next d2) (cart_digest sha (items_of (ct_id c') d2)) cur
                (cf_delivery_eligibility cfg columns) columns (pr_subtotal_cents st) tt now)
             (tt_lines tt) now ?d3 = Inr (Placed ord d')))"
  obtain x where d1: "d1 = d\<lparr>d_store_currency := x\<rparr>" using resolve_currency_frame [OF rc] by blast
  have "c' = c" using get_or_create_store gc assms(4) unfolding d1 by metis
  note gok = get_or_create_cart_ok [OF gc cart_ok_cong [OF assms(3)]]
  have d2: "\<exists>m cs. d2 = d1\<lparr>d_next := m, d_carts := cs\<rparr>"
  proof (intro exI)
    have "d_cart_items d2 = d_cart_items d1" using gok by (simp add: d1)
    with repo_frames(1) [OF gc] show "d2 = d1\<lparr>d_next := d_next d2, d_carts := d_carts d2\<rparr>"
      unfolding shop_frame_def by (cases d1; cases d2) simp
  qed
  then obtain m cs where d2: "d2 = d1\<lparr>d_next := m, d_carts := cs\<rparr>" by blast
  let ?items = "sorted_items (items_of (ct_id c) d)"
  have io: "items_of (ct_id c') d2 = items_of (ct_id c) d" by (simp add: items_of_def d1 d2 \<open>c' = c\<close>)
  have ne': "?items \<noteq> []" using ne io by (simp add: sorted_items_def) (metis length_0_conv length_sort)
  have lkd: "lock_rows ?items ?d3 = lock_rows ?items d"
    by (simp add: lock_rows_def Let_def get_many_for_update_def get_variants_for_update_def option_labels_def options_for_def d1 d2)
  have pc': "price_cart cfg ?items d = Inr (lk, st)"
    using pc unfolding io price_cart_def Let_def lkd
    by (simp add: untaxed_def tax_states_def get_product_def d1 d2 cong: if_cong)
  note p = price_cart_Inr [OF pc']
  from out obtain tt where noch: "pr_price_changes st = []"
    and se: "settle cfg (cr_user_id rq) (guest_email_of rq) (cr_coupon_code rq) columns (lk_products lk)
           (pr_subtotal_cents st) (pr_lines st) now ?d3 = Inr tt"
    and po: "place_order (ct_id c') lk st
             (order_of sha cfg rq (d_next d2) (cart_digest sha (items_of (ct_id c') d2)) cur
                (cf_delivery_eligibility cfg columns) columns (pr_subtotal_cents st) tt now)
             (tt_lines tt) now ?d3 = Inr (Placed ord d')"
    by auto
  have ord: "ord = order_of sha cfg rq (d_next d2) (cart_digest sha (items_of (ct_id c') d2)) cur
                (cf_delivery_eligibility cfg columns) columns (pr_subtotal_cents st) tt now"
    using place_order_Placed [OF po] by simp
  have cur: "quote_currency cfg d = Inr cur"
    using rc by (auto simp: resolve_currency_def quote_currency_def get_or_initialize_currency_def effective_currency_def
        initialize_currency_def Let_def res_simps split: if_splits option.splits)
  have qty: "list_all (\<lambda>i. 0 < ci_quantity i) ?items"
    using cart_okD(6) [OF assms(3)] by (auto simp: list_all_iff sorted_items_def items_of_def)
  have em: "guest_email_of rq = (if cr_user_id rq = None then cr_guest_email rq else None)"
    by (simp add: guest_email_of_def is_guest_def)
  have se': "settle cfg (cr_user_id rq) (guest_email_of rq) (cr_coupon_code rq) columns (lk_products lk)
       (pr_subtotal_cents st) (pr_lines st) now d = Inr tt"
    using se settle_cong [of ?d3 d] by (simp add: d1 d2)
  have ad: "d_addresses d1 = d_addresses d" by (simp add: d1)
  have "resolve_shipping_snapshot cfg (cr_user_id rq) (cr_address_id rq) (cr_shipping_address rq) d = Inr columns"
    using rs unfolding resolve_shipping_snapshot_def address_get_by_id_def get_default_for_user_def ad .
  note qc = quote_columns_eq [OF this]
  have f: "o_total_cents ord = tt_total_cents tt" "o_subtotal_cents ord = pr_subtotal_cents st"
    "o_discount_cents ord = ds_goods_cents (tt_discount tt)" "o_shipping_cents ord = tt_shipping_cents tt"
    "o_tax_cents ord = tx_tax_paise (tt_tax tt)" "o_currency ord = Some (cur_code cur)"
    by (simp_all add: ord)
  from quote_of_settled [OF cfg cur refl ne' qty pc' noch se' [unfolded em] qc dl] show ?thesis
    unfolding f by auto
qed

section \<open>Examples\<close>


text \<open>The same shop after user 7 has ordered with the key \<open>k1\<close>.\<close>

definition sample_used :: db where
  "sample_used = sample_carts\<lparr>d_orders := [(sample_order 9 PENDING)\<lparr>o_idempotency_key := ''k1'', o_request_hash := Some ''x''\<rparr>]\<rparr>"

theorem used_key_never_orders_again_witness:
  "checkout (\<lambda>s. ''h'') sample_config (sample_checkout None) 0 sample_used = Inl IdempotencyKeyConflict"
proof -
  let ?o = "(sample_order 9 PENDING)\<lparr>o_idempotency_key := ''k1'', o_request_hash := Some ''x''\<rparr>"
  have ex: "existing_order (sample_checkout None) sample_used = Some ?o"
    by (simp add: existing_order_def sample_checkout_def is_guest_def get_by_idempotency_key_def sample_used_def sample_order_def)
  have ok: "cart_ok sample_used"
    by (rule cart_ok_cong [OF sample_carts_ok]) (simp_all add: sample_used_def)
  have "o_request_hash ?o \<notin> {None, Some (fingerprint_of (\<lambda>s. ''h'') (sample_checkout None))}"
    "\<not> is_guest (sample_checkout None)"
    by (simp_all add: fingerprint_of_def request_fingerprint_def is_guest_def sample_checkout_def)
  with used_key_never_orders_again [OF ex ok, of "\<lambda>s. ''h''" sample_config 0] show ?thesis by blast
qed

text \<open>A coupon for free shipping that may be used once.\<close>

definition sample_coupon_shop :: db where
  "sample_coupon_shop = sample_carts\<lparr>d_coupons := [sample_coupon\<lparr>cp_kind := ''free_shipping'', cp_amount_off_cents := None\<rparr>]\<rparr>"

theorem coupon_limits_hold_witness:
  "\<exists>ord d'. checkout (\<lambda>s. ''h'') sample_config (sample_checkout (Some ''save10'')) 0 sample_coupon_shop = Inr (Placed ord d')
     \<and> uses 3 None None d' \<le> 1"
proof -
  let ?r = "checkout (\<lambda>s. ''h'') sample_config (sample_checkout (Some ''save10'')) 0 sample_coupon_shop"
  have "case ?r of Inr (Placed ord _) \<Rightarrow> o_coupon_id ord = Some 3 | _ \<Rightarrow> False" by code_simp
  then obtain ord d' where c: "?r = Inr (Placed ord d')" and k: "o_coupon_id ord = Some 3"
    by (auto split: sum.splits outcome.splits)
  have ex: "existing_order (sample_checkout (Some ''save10'')) sample_coupon_shop = None"
    by (simp add: existing_order_def sample_checkout_def is_guest_def get_by_idempotency_key_def sample_coupon_shop_def
        sample_carts_def sample_shop_def empty_db_def)
  have ok: "cart_ok sample_coupon_shop" "orders_ok sample_coupon_shop"
    by (rule cart_ok_cong [OF sample_carts_ok] orders_ok_cong [OF sample_carts_tables(3)]; simp add: sample_coupon_shop_def)+
  from coupon_limits_hold [OF c ex ok k] obtain cp where "cp \<in> set (d_coupons sample_coupon_shop)"
    "\<forall>m. cp_max_uses_total cp = Some m \<longrightarrow> uses 3 None None d' \<le> m" by blast
  then have "uses 3 None None d' \<le> 1" by (auto simp: sample_coupon_shop_def sample_coupon_def)
  with c show ?thesis by blast
qed

theorem guest_token_opens_one_order_witness:
  "authorize_guest_payment (\<lambda>s. ''#'' @ s) sample_config 9 ''good'' 5
       (snd (issue_guest_payment_token (\<lambda>s. ''#'' @ s) ''good'' ((sample_order 9 PENDING)\<lparr>o_user_id := None\<rparr>)
          (empty_db\<lparr>d_orders := [(sample_order 9 PENDING)\<lparr>o_user_id := None\<rparr>]\<rparr>))) \<noteq> Inl (OrderNotFound 9)
   \<and> authorize_guest_payment (\<lambda>s. ''#'' @ s) sample_config 9 ''bad'' 5
       (snd (issue_guest_payment_token (\<lambda>s. ''#'' @ s) ''good'' ((sample_order 9 PENDING)\<lparr>o_user_id := None\<rparr>)
          (empty_db\<lparr>d_orders := [(sample_order 9 PENDING)\<lparr>o_user_id := None\<rparr>]\<rparr>))) = Inl (OrderNotFound 9)"
proof -
  let ?sha = "\<lambda>s. ''#'' @ s" and ?o = "(sample_order 9 PENDING)\<lparr>o_user_id := None\<rparr>"
  let ?d = "empty_db\<lparr>d_orders := [?o]\<rparr>"
  let ?d' = "snd (issue_guest_payment_token ?sha ''good'' ?o ?d)"
  have i: "issue_guest_payment_token ?sha ''good'' ?o ?d = (Some ''good'', ?d')"
    by (simp add: issue_guest_payment_token_def sample_order_def)
  have r: "row o_id (o_id ?o) (d_orders ?d) = Some ?o" by simp
  have o: "o_id ?o = 9" "o_created_at ?o = 0" by (simp_all add: sample_order_def)
  have t: "cf_pending_order_timeout_minutes sample_config * MINUTE = 1800000000"
    by (simp add: sample_config_def MINUTE_def)
  from guest_token_opens_one_order [OF i r, of "''good''" sample_config 5]
    guest_token_opens_one_order [OF i r, of "''bad''" sample_config 5]
  show ?thesis by (simp add: o t)
qed

text \<open>The same shop after the price of product 1 went from 500 to 650.\<close>

definition sample_repriced :: db where
  "sample_repriced = sample_carts\<lparr>d_products := [sample_product 1 650 10 0, sample_product 2 600 0 1]\<rparr>"


theorem quote_announces_checkout_witness:
  "\<exists>ord d' c e q. checkout (\<lambda>s. ''h'') sample_config (sample_checkout None) 0 sample_carts = Inr (Placed ord d')
     \<and> get_or_create_cart (Some 7) None sample_carts = Inr (c, e)
     \<and> quote sample_config c (Some 7) None None None None 0 sample_carts = Inr q
     \<and> q_total_cents q = Some (o_total_cents ord)"
proof (rule is_placedE [OF sample_placed])
  fix ord d'
  assume c: "checkout (\<lambda>s. ''h'') sample_config (sample_checkout None) 0 sample_carts = Inr (Placed ord d')"
  have "case get_or_create_cart (Some 7) None sample_carts of Inl _ \<Rightarrow> False | Inr _ \<Rightarrow> True" by code_simp
  then obtain ct e where g: "get_or_create_cart (Some 7) None sample_carts = Inr (ct, e)" by (auto split: sum.splits)
  have rq: "cr_user_id (sample_checkout None) = Some 7" "cr_guest_token (sample_checkout None) = None"
    "cr_guest_email (sample_checkout None) = None" "cr_address_id (sample_checkout None) = None"
    "cr_shipping_address (sample_checkout None) = None" "cr_coupon_code (sample_checkout None) = None"
    by (simp_all add: sample_checkout_def)
  from quote_announces_checkout [OF c sample_first_use sample_carts_ok, unfolded rq, OF g] c g show ?thesis by blast
qed

end
