(* ===== verification/Invoices.thy ===== *)
theory Invoices
  imports Catalog
begin

text \<open>
  \<open>modules/invoices\<close>: an amount in words (\<open>words.py\<close>), and the tax invoices and credit notes of
  \<open>invoice_service.py\<close> with the constraints of their table. The day in India is a parameter
  \<open>today\<close>. The locale \<open>document_series\<close> states what a numbered series promises; it is interpreted on
  the sequence table and the issued documents.
\<close>

section \<open>Amounts in words\<close>

text \<open>Python's \<open>xs[i]\<close> on a tuple: a negative index counts from the end, outside it raises.\<close>

definition py_index :: "'a list \<Rightarrow> int \<Rightarrow> (shop_error, 'a) result" where
  "py_index xs i =
     (if 0 \<le> i \<and> i < int (length xs) then Inr (xs ! nat i)
      else if i < 0 \<and> - int (length xs) \<le> i then Inr (xs ! nat (int (length xs) + i))
      else Inl IndexError)"

definition ONES :: "string list" where
  "ONES = ['''', ''One'', ''Two'', ''Three'', ''Four'', ''Five'', ''Six'', ''Seven'', ''Eight'', ''Nine'', ''Ten'',
     ''Eleven'', ''Twelve'', ''Thirteen'', ''Fourteen'', ''Fifteen'', ''Sixteen'', ''Seventeen'', ''Eighteen'', ''Nineteen'']"

definition TENS :: "string list" where
  "TENS = ['''', '''', ''Twenty'', ''Thirty'', ''Forty'', ''Fifty'', ''Sixty'', ''Seventy'', ''Eighty'', ''Ninety'']"

definition below_hundred :: "int \<Rightarrow> (shop_error, string) result" where
  "below_hundred n =
     (if n < 20 then py_index ONES n
      else rbind (py_index TENS (n div 10)) (\<lambda>tens.
           if n mod 10 \<noteq> 0 then rbind (py_index ONES (n mod 10)) (\<lambda>ones. Inr (tens @ '' '' @ ones)) else Inr tens))"

fun words_joined :: "string list \<Rightarrow> string" where
  "words_joined [] = ''''"
| "words_joined [w] = w"
| "words_joined (w # ws) = w @ '' '' @ words_joined ws"

definition below_thousand :: "int \<Rightarrow> (shop_error, string) result" where
  "below_thousand n =
     rbind (if 100 \<le> n then rbind (py_index ONES (n div 100)) (\<lambda>h. Inr ([h @ '' Hundred''], n mod 100)) else Inr ([], n))
       (\<lambda>(parts, rest).
          if rest \<noteq> 0 then rbind (below_hundred rest) (\<lambda>w. Inr (words_joined (parts @ [w]))) else Inr (words_joined parts))"

definition SCALES :: "(string \<times> int) list" where
  "SCALES = [(''Crore'', 10000000), (''Lakh'', 100000), (''Thousand'', 1000)]"

definition scale_step :: "string \<times> int \<Rightarrow> string list \<times> int \<Rightarrow> (shop_error, string list \<times> int) result" where
  "scale_step sc st =
     (let (name, size) = sc; (parts, n) = st in
      if size \<le> n
      then rbind (if size > 1000 \<or> n div size < 100 then below_hundred (n div size) else below_thousand (n div size))
             (\<lambda>w. Inr (parts @ [w @ '' '' @ name], n mod size))
      else Inr (parts, n))"

definition number_in_words :: "int \<Rightarrow> (shop_error, string) result" where
  "number_in_words n =
     (if n = 0 then Inr ''Zero''
      else rbind (rfold scale_step SCALES ([], n)) (\<lambda>(parts, rest).
           if rest \<noteq> 0 then rbind (below_thousand rest) (\<lambda>w. Inr (words_joined (parts @ [w]))) else Inr (words_joined parts)))"

definition amount_in_words :: "int \<Rightarrow> string \<Rightarrow> (shop_error, string) result" where
  "amount_in_words paise cur =
     (let rupees = paise div 100; paisa = paise mod 100 in
      if str_upper cur \<noteq> ''INR'' then Inr ''''
      else rbind (number_in_words rupees) (\<lambda>r.
           if paisa \<noteq> 0
           then rbind (number_in_words paisa) (\<lambda>p. Inr (''Rupees '' @ r @ '' and '' @ p @ '' Paise'' @ '' Only''))
           else Inr (''Rupees '' @ r @ '' Only'')))"

section \<open>Numbers of documents\<close>

text \<open>\<open>str(n)\<close> of an integer.\<close>

function show_digits :: "int \<Rightarrow> string" where
  "show_digits n = (if n < 10 then [digit_char (nat n)] else show_digits (n div 10) @ [digit_char (nat (n mod 10))])"
  by pat_completeness auto

termination
  by (relation "measure nat") auto

declare show_digits.simps [simp del]

definition str_int :: "int \<Rightarrow> string" where
  "str_int n = (if n < 0 then ''-'' @ show_digits (- n) else show_digits n)"

definition fiscal_year :: "date \<Rightarrow> string" where
  "fiscal_year day =
     (let (y, m, _) = day; start = (if 4 \<le> m then y else y - 1)
      in str_int start @ ''-'' @ drop 2 (str_int (start + 1)))"

text \<open>\<open>f"{n:06d}"\<close> for a number that is not negative.\<close>

definition pad6 :: "int \<Rightarrow> string" where
  "pad6 n = (let s = str_int n in replicate (6 - length s) (CHR ''0'') @ s)"

definition format_number :: "string \<Rightarrow> string \<Rightarrow> int \<Rightarrow> string" where
  "format_number prefix fy sequence =
     prefix @ take 2 (drop 2 fy) @ take 2 (drop 5 fy) @ ''/'' @ pad6 sequence"

definition CREDIT_NOTE_PREFIX :: string where
  "CREDIT_NOTE_PREFIX = ''CN''"

definition is_gst_order :: "order \<Rightarrow> bool" where
  "is_gst_order ord = (case o_tax_snapshot ord of None \<Rightarrow> False | Some snap \<Rightarrow> gst_calculated snap)"

definition get_profile :: "db \<Rightarrow> business_profile option" where
  "get_profile d = d_business_profile d"

definition invoice_for :: "int \<Rightarrow> string \<Rightarrow> db \<Rightarrow> invoice option" where
  "invoice_for oid doc_type d = find (\<lambda>i. iv_order_id i = oid \<and> iv_doc_type i = doc_type) (d_invoices d)"

text \<open>The upsert of the series' row: 1 for a new series, otherwise the last value plus one.\<close>

definition next_sequence :: "string \<Rightarrow> db \<Rightarrow> int \<times> db" where
  "next_sequence series d =
     (let n = dict_get (d_invoice_sequences d) series + 1
      in (n, d\<lparr>d_invoice_sequences := dict_add series 1 (d_invoice_sequences d)\<rparr>))"

definition series_of :: "string \<Rightarrow> string \<Rightarrow> string" where
  "series_of doc_type fy = (if doc_type = ''invoice'' then ''INV'' else ''CN'') @ '':'' @ fy"

section \<open>The document\<close>

definition truthy_text :: "string option \<Rightarrow> bool" where
  "truthy_text t = (case t of None \<Rightarrow> False | Some s \<Rightarrow> s \<noteq> '''')"

definition recipient_email :: "order \<Rightarrow> db \<Rightarrow> string option" where
  "recipient_email ord d =
     (if truthy_text (o_guest_email ord) then o_guest_email ord
      else Option.bind (o_user_id ord) (\<lambda>u. map_of (d_users d) u))"

definition supplier_address ::
  "business_profile \<Rightarrow> string \<times> string option \<times> string \<times> string \<times> string option \<times> string" where
  "supplier_address p =
     (bp_address_line1 p, bp_address_line2 p, bp_city p, bp_state_code p,
      map_option gs_name (BY_CODE (bp_state_code p)), bp_pincode p)"

fun join_slash :: "string list \<Rightarrow> string" where
  "join_slash [] = ''''"
| "join_slash [w] = w"
| "join_slash (w # ws) = w @ '' / '' @ join_slash ws"

definition options_label :: "order_item \<Rightarrow> string" where
  "options_label item =
     (let options = (case oi_variant_snapshot item of None \<Rightarrow> [] | Some s \<Rightarrow> vs_options s)
      in if options = [] then ''''
         else '' ('' @ join_slash (map (\<lambda>(n, v). n @ '': '' @ v) options) @ '')'')"

definition document_row_of :: "int \<times> order_item \<times> gst_line_snapshot \<Rightarrow> (shop_error, document_row) result" where
  "document_row_of r =
     (let (number_in_list, item, tax) = r in
      if oi_product_id item \<noteq> tl_product_id (gl_line tax) \<or> oi_quantity item \<noteq> tl_quantity (gl_line tax)
      then Inl RuntimeError
      else Inr \<lparr>dr_sr = number_in_list, dr_description = oi_product_name_snapshot item @ options_label item,
                dr_sku = oi_sku_snapshot item, dr_quantity = oi_quantity item,
                dr_unit_price_paise = oi_price_cents_snapshot item, dr_tax = tax\<rparr>)"

text \<open>
  \<open>_build_document\<close>. Both callers have checked that the order's tax comes from the GST engine; a
  snapshot of the other engine lacks the entries read here.
\<close>

definition build_document ::
  "order \<Rightarrow> business_profile \<Rightarrow> string \<Rightarrow> string \<Rightarrow> date \<Rightarrow> string \<Rightarrow> invoice option \<Rightarrow> db \<Rightarrow> (shop_error, document) result" where
  "build_document ord profile doc_type number issued_on fy related d =
     (case o_tax_snapshot ord of
        None \<Rightarrow> Inl TypeError
      | Some (FlatInterim _) \<Rightarrow> Inl KeyError
      | Some (GstCalculated snap) \<Rightarrow>
          let items = sort_key oi_id (filter (\<lambda>i. oi_order_id i = o_id ord) (d_order_items d));
              lines = gn_lines snap;
              cur = (case o_currency ord of None \<Rightarrow> ''inr'' | Some c \<Rightarrow> c)
          in if length items \<noteq> length lines then Inl RuntimeError
             else
               rbind (rmap document_row_of (map (\<lambda>(i, item, tax). (i + 1, item, tax)) (enumerate_int (zip items lines)))) (\<lambda>rows.
               rbind (amount_in_words (o_total_cents ord) cur) (\<lambda>in_words.
               Inr \<lparr>dc_type = (if doc_type = ''invoice'' then ''tax_invoice'' else ''credit_note''),
                    dc_number = number, dc_date = issued_on, dc_fiscal_year = fy, dc_currency = str_upper cur,
                    dc_order_id = o_id ord,
                    dc_supplier = \<lparr>su_legal_name = rg_legal_name (gn_seller snap), su_trade_name = bp_trade_name profile,
                      su_gstin = rg_gstin (gn_seller snap), su_address = supplier_address profile,
                      su_email = bp_email profile, su_phone = bp_phone profile\<rparr>,
                    dc_recipient = \<lparr>rp_email = recipient_email ord d, rp_address = o_shipping_address ord,
                      rp_state_code = map_option gs_code (resolve_state (map_option sa_state (o_shipping_address ord)))\<rparr>,
                    dc_place_of_supply = gn_place snap, dc_intra_state = gn_intra_state snap,
                    dc_settings = gn_settings snap, dc_lines = rows,
                    dc_shipping = (o_shipping_cents ord, gn_shipping_taxed snap, gr_shipping_untaxed_paise (gn_totals snap)),
                    dc_totals = gn_totals snap, dc_goods_paise = o_subtotal_cents ord,
                    dc_discount_paise = o_discount_cents ord, dc_shipping_paise = o_shipping_cents ord,
                    dc_grand_total_paise = o_total_cents ord,
                    dc_coupon = (if truthy_text (o_coupon_code ord) then o_coupon_code ord else None),
                    dc_amount_in_words = in_words, dc_footer = bp_footer profile,
                    dc_against_invoice = map_option (\<lambda>i. (iv_number i, dc_date (iv_document i))) related\<rparr>)))"

section \<open>Issuing\<close>

definition insert_invoice :: "invoice \<Rightarrow> db \<Rightarrow> (shop_error, db) result" where
  "insert_invoice doc d =
     rbind (guard (iv_number doc \<notin> iv_number ` set (d_invoices d)) (IntegrityError ''uq_invoices_number'')) (\<lambda>_.
     rbind (guard (invoice_for (iv_order_id doc) (iv_doc_type doc) d = None)
              (IntegrityError ''uq_invoices_order_doc_type'')) (\<lambda>_.
     rbind (guard (iv_doc_type doc \<in> {''invoice'', ''credit_note''}) (IntegrityError ''ck_invoices_doc_type'')) (\<lambda>_.
     rbind (guard ((iv_doc_type doc = ''credit_note'') = (iv_related_invoice_id doc \<noteq> None))
              (IntegrityError ''ck_invoices_credit_note_reference'')) (\<lambda>_.
     rbind (guard (0 \<le> iv_total_paise doc) (IntegrityError ''ck_invoices_total'')) (\<lambda>_.
     rbind (guard (length (iv_number doc) \<le> 16) (IntegrityError ''ck_invoices_number_length'')) (\<lambda>_.
     Inr (d\<lparr>d_invoices := d_invoices d @ [doc]\<rparr>)))))))"

definition issue_document :: "date \<Rightarrow> order \<Rightarrow> string \<Rightarrow> invoice option \<Rightarrow> db \<Rightarrow> (shop_error, invoice \<times> db) result" where
  "issue_document today ord doc_type related d =
     (case get_profile d of
        None \<Rightarrow> Inl BusinessProfileIncomplete
      | Some profile \<Rightarrow>
          let fy = fiscal_year today;
              prefix = (if doc_type = ''invoice'' then bp_invoice_prefix profile else CREDIT_NOTE_PREFIX);
              (sequence, d1) = next_sequence (series_of doc_type fy) d;
              number = format_number prefix fy sequence
          in rbind (build_document ord profile doc_type number today fy related d1) (\<lambda>document.
             let (i, d2) = fresh d1;
                 doc = \<lparr>iv_id = i, iv_order_id = o_id ord, iv_doc_type = doc_type, iv_number = number,
                        iv_fiscal_year = fy, iv_sequence = sequence, iv_issued_on = today,
                        iv_related_invoice_id = map_option iv_id related, iv_total_paise = o_total_cents ord,
                        iv_currency = str_upper (case o_currency ord of None \<Rightarrow> ''inr'' | Some c \<Rightarrow> c),
                        iv_document = document\<rparr>
             in rbind (insert_invoice doc d2) (\<lambda>d3. Inr (doc, d3))))"

definition issue_invoice :: "date \<Rightarrow> bool \<Rightarrow> order \<Rightarrow> db \<Rightarrow> (shop_error, invoice option \<times> db) result" where
  "issue_invoice today explicit ord d =
     (case invoice_for (o_id ord) ''invoice'' d of
        Some existing \<Rightarrow> Inr (Some existing, d)
      | None \<Rightarrow>
          if o_paid_in_demo_mode ord then (if explicit then Inl InvoiceNotApplicable else Inr (None, d))
          else if \<not> is_gst_order ord then (if explicit then Inl InvoiceNotApplicable else Inr (None, d))
          else if o_status ord \<notin> {PAID, FULFILLED} then Inl InvoiceNotApplicable
          else rbind (issue_document today ord ''invoice'' None d) (\<lambda>(doc, d'). Inr (Some doc, d')))"

definition issue_credit_note :: "date \<Rightarrow> order \<Rightarrow> db \<Rightarrow> (shop_error, invoice option \<times> db) result" where
  "issue_credit_note today ord d =
     (case invoice_for (o_id ord) ''invoice'' d of
        None \<Rightarrow> Inr (None, d)
      | Some doc \<Rightarrow>
          (case invoice_for (o_id ord) ''credit_note'' d of
             Some existing \<Rightarrow> Inr (Some existing, d)
           | None \<Rightarrow> rbind (issue_document today ord ''credit_note'' (Some doc) d) (\<lambda>(cn, d'). Inr (Some cn, d'))))"

text \<open>The administrator's request for an invoice, and the business profile.\<close>

definition issue_order_invoice :: "date \<Rightarrow> int \<Rightarrow> int \<Rightarrow> db \<Rightarrow> (shop_error, invoice \<times> db) result" where
  "issue_order_invoice today admin oid d =
     (case row o_id oid (d_orders d) of
        None \<Rightarrow> Inl (OrderNotFound oid)
      | Some ord \<Rightarrow>
          let existing = invoice_for (o_id ord) ''invoice'' d in
          rbind (issue_invoice today True ord d) (\<lambda>(doc, d1).
          case doc of
            None \<Rightarrow> Inl TypeError
          | Some doc \<Rightarrow>
              Inr (doc, if existing \<noteq> None then d1
                        else audit_log (Some admin) ''invoice.issued'' ''order'' [KI (o_id ord)] d1)))"

definition prefix_char :: "char \<Rightarrow> bool" where
  "prefix_char c \<longleftrightarrow> is_digit c \<or> (65 \<le> char_code c \<and> char_code c \<le> 90)"

definition length_within :: "nat \<Rightarrow> nat \<Rightarrow> string \<Rightarrow> bool" where
  "length_within lo hi s \<longleftrightarrow> lo \<le> length s \<and> length s \<le> hi"

definition at_most :: "nat \<Rightarrow> string option \<Rightarrow> bool" where
  "at_most hi t = (case t of None \<Rightarrow> True | Some s \<Rightarrow> length s \<le> hi)"

definition profile_valid :: "business_profile \<Rightarrow> bool" where
  "profile_valid p \<longleftrightarrow>
     length_within 1 200 (bp_trade_name p) \<and> length_within 1 255 (bp_address_line1 p)
     \<and> at_most 255 (bp_address_line2 p) \<and> length_within 1 100 (bp_city p) \<and> at_most 255 (bp_email p)
     \<and> at_most 30 (bp_phone p) \<and> at_most 500 (bp_footer p) \<and>
     bp_invoice_prefix p \<noteq> [] \<and> length (bp_invoice_prefix p) \<le> 5 \<and> list_all prefix_char (bp_invoice_prefix p)
     \<and> length (bp_pincode p) = 6 \<and> list_all is_digit (bp_pincode p)
     \<and> length (bp_state_code p) = 2 \<and> list_all is_digit (bp_state_code p) \<and> BY_CODE (bp_state_code p) \<noteq> None"

definition write_business_profile :: "business_profile \<Rightarrow> int \<Rightarrow> db \<Rightarrow> (shop_error, db) result" where
  "write_business_profile values admin d =
     (if \<not> profile_valid values then Inl ValueError
      else Inr (audit_log (Some admin) ''business_profile.updated'' ''business_profile'' [KI 1]
             (d\<lparr>d_business_profile := Some (values\<lparr>bp_updated_by_user_id := Some admin\<rparr>)\<rparr>)))"

section \<open>Reading the words back\<close>

text \<open>
  A reader of the words, as a person reads the printed amount: unit words add, \<open>Hundred\<close> multiplies
  what came before it in the group, \<open>Thousand\<close>, \<open>Lakh\<close> and \<open>Crore\<close> close a group.
\<close>

fun split_words :: "string \<Rightarrow> string list" where
  "split_words [] = [[]]"
| "split_words (c # s) =
     (if c = CHR '' '' then [] # split_words s
      else case split_words s of [] \<Rightarrow> [[c]] | w # ws \<Rightarrow> (c # w) # ws)"

fun position :: "string \<Rightarrow> string list \<Rightarrow> int \<Rightarrow> int" where
  "position w [] k = 0"
| "position w (x # xs) k = (if x = w then k else position w xs (k + 1))"

definition word_value :: "string \<Rightarrow> int" where
  "word_value w = position w ONES 0 + 10 * position w TENS 0"

definition group_step :: "int \<Rightarrow> string \<Rightarrow> int" where
  "group_step c w = (if w = ''Hundred'' then 100 * c else c + word_value w)"

definition read_step :: "int \<times> int \<Rightarrow> string \<Rightarrow> int \<times> int" where
  "read_step st w =
     (case map_of SCALES w of Some k \<Rightarrow> (fst st + snd st * k, 0) | None \<Rightarrow> (fst st, group_step (snd st) w))"

definition read_words :: "string list \<Rightarrow> int" where
  "read_words ws = (let (total, c) = foldl read_step (0, 0) ws in total + c)"

definition read_amount :: "string \<Rightarrow> int" where
  "read_amount s =
     (let ws = drop 1 (split_words s);
          rupees = takeWhile (\<lambda>w. w \<noteq> ''and'' \<and> w \<noteq> ''Only'') ws;
          paise = takeWhile (\<lambda>w. w \<noteq> ''Paise'') (drop 1 (dropWhile (\<lambda>w. w \<noteq> ''and'') ws))
      in 100 * read_words rupees + read_words paise)"

lemma split_words_not_Nil [simp]: "split_words s \<noteq> []"
  by (induction s) (auto split: list.splits)

lemma split_words_join [simp]: "split_words (a @ CHR '' '' # b) = split_words a @ split_words b"
  by (induction a) (auto split: list.splits)

definition unit_word :: "string \<Rightarrow> bool" where
  "unit_word w \<longleftrightarrow> map_of SCALES w = None \<and> w \<noteq> ''Hundred'' \<and> w \<noteq> ''and'' \<and> w \<noteq> ''Only'' \<and> w \<noteq> ''Paise''"

definition hundred_ok :: "int \<Rightarrow> bool" where
  "hundred_ok n = (case below_hundred n of Inl _ \<Rightarrow> False
     | Inr s \<Rightarrow> list_all unit_word (split_words s) \<and> sum_list (map word_value (split_words s)) = n)"

lemma below_hundred_table: "list_all hundred_ok [0..99]"
  by code_simp

lemma below_hundred_words:
  assumes "0 \<le> n" and "n < 100"
  obtains s where "below_hundred n = Inr s" and "list_all unit_word (split_words s)"
    and "sum_list (map word_value (split_words s)) = n"
proof -
  have "hundred_ok n" using below_hundred_table assms by (simp add: list_all_iff)
  with that show ?thesis by (auto simp: hundred_ok_def split: sum.splits)
qed

lemma group_units:
  "list_all unit_word ws \<Longrightarrow> foldl group_step c ws = c + sum_list (map word_value ws)"
  by (induction ws arbitrary: c) (auto simp: group_step_def unit_word_def)

lemma read_group:
  "list_all (\<lambda>w. map_of SCALES w = None) ws \<Longrightarrow> foldl read_step (a, c) ws = (a, foldl group_step c ws)"
  by (induction ws arbitrary: c) (auto simp: read_step_def)

lemma unit_words_read:
  assumes "list_all unit_word ws"
  shows "foldl read_step (a, c) ws = (a, c + sum_list (map word_value ws))"
proof -
  have "list_all (\<lambda>w. map_of SCALES w = None) ws" using assms by (auto simp: unit_word_def list_all_iff)
  from read_group [OF this] group_units [OF assms] show ?thesis by simp
qed

text \<open>A group of words for a number below a thousand.\<close>

definition plain_word :: "string \<Rightarrow> bool" where
  "plain_word w \<longleftrightarrow> w \<noteq> ''and'' \<and> w \<noteq> ''Only'' \<and> w \<noteq> ''Paise''"

definition group_of :: "int \<Rightarrow> string list \<Rightarrow> bool" where
  "group_of n ws \<longleftrightarrow> list_all plain_word ws \<and> list_all (\<lambda>w. map_of SCALES w = None) ws \<and> foldl group_step 0 ws = n"

lemma unit_group: "list_all unit_word ws \<Longrightarrow> group_of (sum_list (map word_value ws)) ws"
  using group_units [of ws 0] by (auto simp: group_of_def plain_word_def unit_word_def list_all_iff)

lemma below_hundred_group:
  assumes "0 \<le> n" and "n < 100"
  obtains s where "below_hundred n = Inr s" and "group_of n (split_words s)"
  using below_hundred_words [OF assms] unit_group by metis

lemma ones_word:
  assumes "0 \<le> n" and "n < 20"
  obtains s where "py_index ONES n = Inr s" and "list_all unit_word (split_words s)"
    and "sum_list (map word_value (split_words s)) = n"
proof -
  have "n < 100" using assms(2) by simp
  from below_hundred_words [OF assms(1) this] assms(2) that show ?thesis by (auto simp: below_hundred_def)
qed

lemma below_thousand_group:
  assumes "0 < n" and "n < 1000"
  obtains s where "below_thousand n = Inr s" and "group_of n (split_words s)"
proof (cases "n < 100")
  case True
  obtain s where s: "below_hundred n = Inr s" "group_of n (split_words s)"
    using below_hundred_group [of n] True assms by auto
  with True assms that show ?thesis by (simp add: below_thousand_def)
next
  case False
  have "0 \<le> n div 100" "n div 100 < 20" using assms by auto
  then obtain h where h: "py_index ONES (n div 100) = Inr h" "list_all unit_word (split_words h)"
    "sum_list (map word_value (split_words h)) = n div 100" by (rule ones_word)
  have "0 \<le> n mod 100" "n mod 100 < 100" by simp_all
  then obtain r where r: "below_hundred (n mod 100) = Inr r" "list_all unit_word (split_words r)"
    "sum_list (map word_value (split_words r)) = n mod 100" by (rule below_hundred_words)
  have hun: "split_words ''Hundred'' = [''Hundred'']" "map_of SCALES ''Hundred'' = None" "plain_word ''Hundred''"
    by code_simp+
  let ?hw = "split_words h @ [''Hundred'']"
  have base: "foldl group_step 0 ?hw = 100 * (n div 100)"
    using group_units [OF h(2), of 0] h(3) by (simp add: group_step_def)
  have *: "100 * (n div 100) + n mod 100 = n" by simp
  show ?thesis
  proof (cases "n mod 100 = 0")
    case True
    have "below_thousand n = Inr (h @ CHR '' '' # ''Hundred'')"
      using h True False by (simp add: below_thousand_def)
    moreover have "group_of n (split_words (h @ CHR '' '' # ''Hundred''))"
      using h(2) hun base True * unfolding split_words_join
      by (auto simp: group_of_def unit_word_def plain_word_def list_all_iff)
    ultimately show ?thesis by (rule that)
  next
    case rest: False
    have "below_thousand n = Inr (h @ CHR '' '' # (''Hundred'' @ CHR '' '' # r))"
      using h r rest False by (simp add: below_thousand_def)
    moreover have "group_of n (split_words (h @ CHR '' '' # (''Hundred'' @ CHR '' '' # r)))"
      unfolding split_words_join hun(1)
      using h(2) hun r(2) base group_units [OF r(2), of "100 * (n div 100)"] r(3) *
      by (auto simp: group_of_def unit_word_def plain_word_def list_all_iff)
    ultimately show ?thesis by (rule that)
  qed
qed

lemma join_words_snoc: "parts \<noteq> [] \<Longrightarrow> words_joined (parts @ [w]) = words_joined parts @ CHR '' '' # w"
proof (induction parts rule: words_joined.induct)
  case (3 v w ws)
  then show ?case by (cases ws) simp_all
qed simp_all

lemma split_join_words: "parts \<noteq> [] \<Longrightarrow> split_words (words_joined parts) = concat (map split_words parts)"
proof (induction parts rule: rev_induct)
  case (snoc w parts)
  then show ?case by (cases "parts = []") (simp_all add: join_words_snoc)
qed simp

definition tells :: "int \<Rightarrow> string list \<Rightarrow> bool" where
  "tells n parts \<longleftrightarrow> list_all plain_word (concat (map split_words parts))
     \<and> (\<forall>a. foldl read_step (a, 0) (concat (map split_words parts)) = (a + n, 0))"

lemma tells_Nil [simp]: "tells 0 []"
  by (simp add: tells_def)

lemma tells_append: "tells m ps \<Longrightarrow> tells n qs \<Longrightarrow> tells (m + n) (ps @ qs)"
  by (simp add: tells_def add.assoc)

lemma scale_step_words:
  assumes "(name, k) \<in> set SCALES" and "0 \<le> n" and "n < 100 * k"
  shows "\<exists>ps. scale_step (name, k) (parts, n) = Inr (parts @ ps, n mod k) \<and> tells (k * (n div k)) ps"
proof (cases "k \<le> n")
  case False
  with assms show ?thesis by (auto simp: scale_step_def SCALES_def)
next
  case True
  have k: "0 < k" using assms(1) by (auto simp: SCALES_def)
  have "0 \<le> n div k" "n div k < 100" using k assms by (auto simp: SCALES_def pos_imp_zdiv_nonneg_iff)
  then obtain w where w: "below_hundred (n div k) = Inr w" "group_of (n div k) (split_words w)"
    by (rule below_hundred_group)
  have name: "split_words name = [name]" "map_of SCALES name = Some k" "plain_word name"
    using assms(1) by (auto simp: SCALES_def plain_word_def)
  have "tells (k * (n div k)) [w @ CHR '' '' # name]"
    using w(2) name by (auto simp: tells_def group_of_def read_group read_step_def)
  with True \<open>n div k < 100\<close> w(1) show ?thesis by (auto simp: scale_step_def)
qed

lemma number_in_words_reads:
  assumes "0 \<le> n" and "n < 1000000000"
  obtains s where "number_in_words n = Inr s" and "read_words (split_words s) = n" and "list_all plain_word (split_words s)"
proof (cases "n = 0")
  case True
  have "read_words (split_words ''Zero'') = 0" "list_all plain_word (split_words ''Zero'')" by code_simp+
  with True that show ?thesis by (simp add: number_in_words_def)
next
  case False
  define n1 where "n1 = n mod 10000000"
  define n2 where "n2 = n1 mod 100000"
  define n3 where "n3 = n2 mod 1000"
  obtain p1 where p1: "scale_step (''Crore'', 10000000) ([], n) = Inr (p1, n1)" "tells (10000000 * (n div 10000000)) p1"
    using scale_step_words [of "''Crore''" 10000000 n "[]"] assms by (auto simp: SCALES_def n1_def)
  obtain p2 where p2: "scale_step (''Lakh'', 100000) (p1, n1) = Inr (p1 @ p2, n2)" "tells (100000 * (n1 div 100000)) p2"
    using scale_step_words [of "''Lakh''" 100000 n1 p1] by (auto simp: SCALES_def n1_def n2_def)
  obtain p3 where p3: "scale_step (''Thousand'', 1000) (p1 @ p2, n2) = Inr ((p1 @ p2) @ p3, n3)" "tells (1000 * (n2 div 1000)) p3"
    using scale_step_words [of "''Thousand''" 1000 n2 "p1 @ p2"] by (auto simp: SCALES_def n2_def n3_def)
  define ps where "ps = p1 @ p2 @ p3"
  have loop: "rfold scale_step SCALES ([], n) = Inr (ps, n3)"
    using p1(1) p2(1) p3(1) by (simp add: SCALES_def ps_def)
  have told: "tells (n - n3) ps"
  proof -
    have "10000000 * (n div 10000000) = n - n1" "100000 * (n1 div 100000) = n1 - n2" "1000 * (n2 div 1000) = n2 - n3"
      by (simp_all add: n1_def n2_def n3_def minus_mod_eq_mult_div)
    then have "10000000 * (n div 10000000) + (100000 * (n1 div 100000) + 1000 * (n2 div 1000)) = n - n3" by linarith
    with tells_append [OF p1(2) tells_append [OF p2(2) p3(2)]] show ?thesis by (simp add: ps_def)
  qed
  show ?thesis
  proof (cases "n3 = 0")
    case True
    with told \<open>n \<noteq> 0\<close> have "ps \<noteq> []" by (auto simp: tells_def)
    from True loop \<open>n \<noteq> 0\<close> have "number_in_words n = Inr (words_joined ps)" by (simp add: number_in_words_def)
    moreover have "read_words (split_words (words_joined ps)) = n" "list_all plain_word (split_words (words_joined ps))"
      using told True by (simp_all add: read_words_def split_join_words [OF \<open>ps \<noteq> []\<close>] tells_def)
    ultimately show ?thesis by (rule that)
  next
    case rest: False
    have "0 < n3" "n3 < 1000" using rest assms(1) by (auto simp: n3_def n2_def n1_def order_less_le)
    then obtain w where w: "below_thousand n3 = Inr w" "group_of n3 (split_words w)" by (rule below_thousand_group)
    from loop rest w(1) \<open>n \<noteq> 0\<close> have "number_in_words n = Inr (words_joined (ps @ [w]))" by (simp add: number_in_words_def)
    moreover have "split_words (words_joined (ps @ [w])) = concat (map split_words ps) @ split_words w"
      by (simp add: split_join_words)
    ultimately show ?thesis
      using told w(2) that by (auto simp: read_words_def tells_def group_of_def read_group)
  qed
qed

text \<open>
  Claim C34 (roundtrip). The amount printed in words on an invoice says the amount: for every amount
  below one hundred crore rupees (every value the 32-bit total column can hold is far below it) the
  function raises no error and reading the words back gives exactly the number of paise. Two
  different amounts are never printed alike.
\<close>

theorem amount_in_words_reads_back:
  assumes "0 \<le> p" and "p < 100000000000"
  shows "\<exists>s. amount_in_words p ''inr'' = Inr s \<and> read_amount s = p"
proof -
  have "0 \<le> p div 100" "p div 100 < 1000000000" using assms by auto
  then obtain r where r: "number_in_words (p div 100) = Inr r" "read_words (split_words r) = p div 100"
    "list_all plain_word (split_words r)" by (rule number_in_words_reads)
  have "0 \<le> p mod 100" "p mod 100 < 1000000000" by (auto intro: order_less_trans [of _ 100])
  then obtain q where q: "number_in_words (p mod 100) = Inr q" "read_words (split_words q) = p mod 100"
    "list_all plain_word (split_words q)" by (rule number_in_words_reads)
  have inr: "str_upper ''inr'' = ''INR''" by code_simp
  have sp: "split_words ''Rupees'' = [''Rupees'']" "split_words ''and'' = [''and'']" "split_words ''Only'' = [''Only'']"
    "split_words ''Paise'' = [''Paise'']" by code_simp+
  have none: "read_words [] = 0" by (simp add: read_words_def)
  have tw: "takeWhile (\<lambda>w. w \<noteq> ''and'' \<and> w \<noteq> ''Only'') (ws @ v # vs) = ws"
      "dropWhile (\<lambda>w. w \<noteq> ''and'') (ws @ v # vs) = (if v = ''and'' then v # vs else dropWhile (\<lambda>w. w \<noteq> ''and'') vs)"
    if "list_all plain_word ws" "v = ''and'' \<or> v = ''Only''" for ws v vs
    using that by (induction ws) (auto simp: plain_word_def)
  have tp: "takeWhile (\<lambda>w. w \<noteq> ''Paise'') (ws @ ''Paise'' # vs) = ws" if "list_all plain_word ws" for ws vs
    using that by (induction ws) (auto simp: plain_word_def)
  show ?thesis
  proof (cases "p mod 100 = 0")
    case True
    have "amount_in_words p ''inr'' = Inr (''Rupees'' @ CHR '' '' # (r @ CHR '' '' # ''Only''))"
      using r(1) True inr by (simp add: amount_in_words_def)
    moreover have "read_amount (''Rupees'' @ CHR '' '' # (r @ CHR '' '' # ''Only'')) = p"
      unfolding read_amount_def split_words_join sp using r(2) True
      by (simp add: tw [OF r(3)] none minus_mod_eq_mult_div [symmetric])
    ultimately show ?thesis by blast
  next
    case False
    let ?s = "''Rupees'' @ CHR '' '' # (r @ CHR '' '' # (''and'' @ CHR '' '' # (q @ CHR '' '' # (''Paise'' @ CHR '' '' # ''Only''))))"
    have "amount_in_words p ''inr'' = Inr ?s" using r(1) q(1) False inr by (simp add: amount_in_words_def)
    moreover have "read_amount ?s = p"
      unfolding read_amount_def split_words_join sp using r(2) q(2)
      by (simp add: tw [OF r(3)] tp [OF q(3)])
    ultimately show ?thesis by blast
  qed
qed

theorem amount_in_words_reads_back_witness:
  "\<exists>s. amount_in_words 2147483647 ''inr'' = Inr s \<and> read_amount s = 2147483647"
  by (rule amount_in_words_reads_back) simp_all

section \<open>Consecutive numbers\<close>

text \<open>
  What a numbered series promises: an operation that succeeds either touches no series or appends to
  one series the number after its last. Then the numbers of every series are 1, 2, 3, ... in the
  order of issue, whatever was asked for and whatever was refused in between.
\<close>

locale document_series =
  fixes numbers :: "'d \<Rightarrow> 's \<Rightarrow> int list"
    and last_number :: "'d \<Rightarrow> 's \<Rightarrow> int"
    and run :: "'r \<Rightarrow> 'd \<Rightarrow> ('e, 'd) result"
  assumes run_numbers: "run r d = Inr d' \<Longrightarrow>
      (\<forall>s. numbers d' s = numbers d s \<and> last_number d' s = last_number d s)
      \<or> (\<exists>s0. \<forall>s. numbers d' s = numbers d s @ (if s = s0 then [last_number d s + 1] else [])
              \<and> last_number d' s = last_number d s + (if s = s0 then 1 else 0))"
begin

definition gapless :: "'d \<Rightarrow> bool" where
  "gapless d \<longleftrightarrow> (\<forall>s. 0 \<le> last_number d s \<and> numbers d s = [1..last_number d s])"

lemma run_gapless:
  assumes "run r d = Inr d'" and "gapless d"
  shows "gapless d'"
  using run_numbers [OF assms(1)]
proof
  assume "\<forall>s. numbers d' s = numbers d s \<and> last_number d' s = last_number d s"
  with assms(2) show ?thesis by (simp add: gapless_def)
next
  assume "\<exists>s0. \<forall>s. numbers d' s = numbers d s @ (if s = s0 then [last_number d s + 1] else [])
              \<and> last_number d' s = last_number d s + (if s = s0 then 1 else 0)"
  then obtain s0 where s0: "\<forall>s. numbers d' s = numbers d s @ (if s = s0 then [last_number d s + 1] else [])
              \<and> last_number d' s = last_number d s + (if s = s0 then 1 else 0)" by blast
  show ?thesis unfolding gapless_def
  proof
    fix s
    have "numbers d s = [1..last_number d s]" "0 \<le> last_number d s" using assms(2) by (simp_all add: gapless_def)
    moreover from this have "[1..last_number d s + 1] = [1..last_number d s] @ [last_number d s + 1]"
      using upto_rec2 [of 1 "last_number d s + 1"] by simp
    ultimately show "0 \<le> last_number d' s \<and> numbers d' s = [1..last_number d' s]"
      using s0 by (cases "s = s0") simp_all
  qed
qed

lemma runs_gapless: "rfold run rs d = Inr d' \<Longrightarrow> gapless d \<Longrightarrow> gapless d'"
  by (erule rfold_invariant) (auto intro: run_gapless)

end

definition series_numbers :: "db \<Rightarrow> string \<Rightarrow> int list" where
  "series_numbers d s =
     map iv_sequence (filter (\<lambda>i. series_of (iv_doc_type i) (iv_fiscal_year i) = s) (d_invoices d))"

definition last_value :: "db \<Rightarrow> string \<Rightarrow> int" where
  "last_value d s = dict_get (d_invoice_sequences d) s"

lemma insert_invoice_Inr:
  "insert_invoice doc d = Inr d' \<longleftrightarrow> d' = d\<lparr>d_invoices := d_invoices d @ [doc]\<rparr>
     \<and> iv_number doc \<notin> iv_number ` set (d_invoices d) \<and> invoice_for (iv_order_id doc) (iv_doc_type doc) d = None
     \<and> iv_doc_type doc \<in> {''invoice'', ''credit_note''}
     \<and> (iv_doc_type doc = ''credit_note'') = (iv_related_invoice_id doc \<noteq> None)
     \<and> 0 \<le> iv_total_paise doc \<and> length (iv_number doc) \<le> 16"
  by (auto simp: insert_invoice_def res_simps)

lemma build_document_Inr:
  assumes "build_document ord profile t number today fy related d = Inr doc"
  shows "dc_number doc = number \<and> dc_grand_total_paise doc = o_total_cents ord \<and> dc_order_id doc = o_id ord"
proof -
  obtain snap where snap: "o_tax_snapshot ord = Some (GstCalculated snap)"
    using assms by (auto simp: build_document_def split: option.splits tax_snapshot.splits)
  show ?thesis using assms unfolding build_document_def snap
    by (auto simp: Let_def res_simps split: if_split_asm)
qed

lemma issue_document_Inr:
  assumes "issue_document today ord t related d = Inr (doc, d')"
  shows "\<exists>profile. d_business_profile d = Some profile
      \<and> d' = d\<lparr>d_next := d_next d + 1,
               d_invoice_sequences := dict_add (series_of t (fiscal_year today)) 1 (d_invoice_sequences d),
               d_invoices := d_invoices d @ [doc]\<rparr>
      \<and> iv_id doc = d_next d \<and> iv_order_id doc = o_id ord \<and> iv_doc_type doc = t \<and> iv_fiscal_year doc = fiscal_year today
      \<and> iv_sequence doc = last_value d (series_of t (fiscal_year today)) + 1
      \<and> iv_number doc = format_number (if t = ''invoice'' then bp_invoice_prefix profile else CREDIT_NOTE_PREFIX)
                          (fiscal_year today) (iv_sequence doc)
      \<and> iv_total_paise doc = o_total_cents ord \<and> iv_related_invoice_id doc = map_option iv_id related
      \<and> iv_number doc \<notin> iv_number ` set (d_invoices d) \<and> length (iv_number doc) \<le> 16
      \<and> invoice_for (o_id ord) t d = None \<and> dc_number (iv_document doc) = iv_number doc
      \<and> dc_grand_total_paise (iv_document doc) = o_total_cents ord \<and> dc_order_id (iv_document doc) = o_id ord"
proof -
  obtain profile where p: "d_business_profile d = Some profile"
    using assms by (auto simp: issue_document_def get_profile_def split: option.splits)
  let ?fy = "fiscal_year today" and ?s = "series_of t (fiscal_year today)"
  let ?d1 = "d\<lparr>d_invoice_sequences := dict_add ?s 1 (d_invoice_sequences d)\<rparr>"
  let ?n = "format_number (if t = ''invoice'' then bp_invoice_prefix profile else CREDIT_NOTE_PREFIX) ?fy (last_value d ?s + 1)"
  obtain dc where dc: "build_document ord profile t ?n today ?fy related ?d1 = Inr dc"
    and doc: "doc = \<lparr>iv_id = d_next d, iv_order_id = o_id ord, iv_doc_type = t, iv_number = ?n,
                        iv_fiscal_year = ?fy, iv_sequence = last_value d ?s + 1, iv_issued_on = today,
                        iv_related_invoice_id = map_option iv_id related, iv_total_paise = o_total_cents ord,
                        iv_currency = str_upper (case o_currency ord of None \<Rightarrow> ''inr'' | Some c \<Rightarrow> c),
                        iv_document = dc\<rparr>"
    and ins: "insert_invoice doc (?d1\<lparr>d_next := d_next d + 1\<rparr>) = Inr d'"
    using assms unfolding issue_document_def get_profile_def p
    by (simp add: next_sequence_def Let_def fresh_def last_value_def res_simps) blast
  from ins p doc build_document_Inr [OF dc] show ?thesis by (simp add: insert_invoice_Inr invoice_for_def)
qed

text \<open>The requests that reach the documents: they name an order, and the order's row is read first.\<close>

datatype document_request =
  IssueInvoice date bool int
| IssueCreditNote date int
| WriteProfile business_profile int

definition run_document :: "document_request \<Rightarrow> db \<Rightarrow> (shop_error, db) result" where
  "run_document r d =
     (case r of
        IssueInvoice today explicit oid \<Rightarrow>
          (case row o_id oid (d_orders d) of None \<Rightarrow> Inl (OrderNotFound oid)
           | Some ord \<Rightarrow> rbind (issue_invoice today explicit ord d) (\<lambda>(_, d'). Inr d'))
      | IssueCreditNote today oid \<Rightarrow>
          (case row o_id oid (d_orders d) of None \<Rightarrow> Inl (OrderNotFound oid)
           | Some ord \<Rightarrow> rbind (issue_credit_note today ord d) (\<lambda>(_, d'). Inr d'))
      | WriteProfile p admin \<Rightarrow> write_business_profile p admin d)"

lemma issue_invoice_new:
  "issue_invoice today explicit ord d = Inr (r, d') \<Longrightarrow>
     d' = d \<and> r = invoice_for (o_id ord) ''invoice'' d
     \<or> (\<exists>doc. r = Some doc \<and> issue_document today ord ''invoice'' None d = Inr (doc, d')
              \<and> is_gst_order ord \<and> \<not> o_paid_in_demo_mode ord)"
  by (auto simp: issue_invoice_def res_simps split: option.splits if_splits)

lemma issue_credit_note_new:
  "issue_credit_note today ord d = Inr (r, d') \<Longrightarrow>
     d' = d \<and> r = invoice_for (o_id ord) ''credit_note'' d
     \<or> d' = d \<and> r = None
     \<or> (\<exists>doc doc0. r = Some doc \<and> invoice_for (o_id ord) ''invoice'' d = Some doc0
              \<and> issue_document today ord ''credit_note'' (Some doc0) d = Inr (doc, d'))"
  by (auto simp: issue_credit_note_def res_simps split: option.splits if_splits)

text \<open>One request either leaves the documents alone or issues exactly one.\<close>

lemma run_document_cases:
  assumes "run_document r d = Inr d'"
  obtains (none) "d_invoices d' = d_invoices d" "d_invoice_sequences d' = d_invoice_sequences d"
    | (one) today ord t related doc where "issue_document today ord t related d = Inr (doc, d')"
proof (cases r)
  case (IssueInvoice today explicit oid)
  then obtain ord x where "issue_invoice today explicit ord d = Inr (x, d')"
    using assms by (auto simp: run_document_def res_simps split: option.splits)
  from issue_invoice_new [OF this] none one show ?thesis by blast
next
  case (IssueCreditNote today oid)
  then obtain ord x where "issue_credit_note today ord d = Inr (x, d')"
    using assms by (auto simp: run_document_def res_simps split: option.splits)
  from issue_credit_note_new [OF this] none one show ?thesis by blast
next
  case (WriteProfile p admin)
  with assms none show ?thesis by (auto simp: run_document_def write_business_profile_def split: if_splits)
qed

interpretation tax_documents: document_series series_numbers last_value run_document
proof
  fix r d d'
  assume "run_document r d = Inr d'"
  then show "(\<forall>s. series_numbers d' s = series_numbers d s \<and> last_value d' s = last_value d s)
      \<or> (\<exists>s0. \<forall>s. series_numbers d' s = series_numbers d s @ (if s = s0 then [last_value d s + 1] else [])
              \<and> last_value d' s = last_value d s + (if s = s0 then 1 else 0))"
  proof (cases rule: run_document_cases)
    case none
    then show ?thesis by (simp add: series_numbers_def last_value_def)
  next
    case (one today ord t related doc)
    have "series_numbers d' s = series_numbers d s @ (if s = series_of t (fiscal_year today) then [last_value d s + 1] else [])
          \<and> last_value d' s = last_value d s + (if s = series_of t (fiscal_year today) then 1 else 0)" for s
      using issue_document_Inr [OF one] by (auto simp: series_numbers_def last_value_def)
    then show ?thesis by blast
  qed
qed

definition documents_ok :: "db \<Rightarrow> bool" where
  "documents_ok d \<longleftrightarrow> (\<forall>s. 0 \<le> last_value d s \<and> series_numbers d s = [1..last_value d s])
     \<and> distinct (map iv_number (d_invoices d))
     \<and> distinct (map (\<lambda>i. (iv_order_id i, iv_doc_type i)) (d_invoices d))
     \<and> (\<forall>i \<in> set (d_invoices d). length (iv_number i) \<le> 16)"

lemma issue_document_ok:
  assumes "issue_document today ord t related d = Inr (doc, d')" and "documents_ok d"
  shows "documents_ok d'"
proof -
  note i = issue_document_Inr [OF assms(1)]
  then have d': "d_invoices d' = d_invoices d @ [doc]" by auto
  have none: "find (\<lambda>i. iv_order_id i = o_id ord \<and> iv_doc_type i = t) (d_invoices d) = None"
    using i by (auto simp: invoice_for_def)
  have "series_numbers d' s = series_numbers d s @ (if s = series_of t (fiscal_year today) then [last_value d s + 1] else [])"
    "last_value d' s = last_value d s + (if s = series_of t (fiscal_year today) then 1 else 0)" for s
    using i by (auto simp: series_numbers_def last_value_def)
  moreover have "[1..k + 1] = [1..k] @ [k + 1]" if "0 \<le> k" for k :: int
    using upto_rec2 [of 1 "k + 1"] that by simp
  ultimately have "\<forall>s. 0 \<le> last_value d' s \<and> series_numbers d' s = [1..last_value d' s]"
    using assms(2) by (auto simp: documents_ok_def)
  moreover have "(iv_order_id doc, iv_doc_type doc) \<notin> (\<lambda>i. (iv_order_id i, iv_doc_type i)) ` set (d_invoices d)"
    using none i by (auto simp: find_None_iff)
  moreover have "iv_number doc \<notin> iv_number ` set (d_invoices d)" "length (iv_number doc) \<le> 16" using i by auto
  ultimately show ?thesis using assms(2) unfolding documents_ok_def d' by simp
qed

lemma run_document_ok:
  assumes "run_document r d = Inr d'" and "documents_ok d"
  shows "documents_ok d' \<and> take (length (d_invoices d)) (d_invoices d') = d_invoices d"
  using assms(1)
proof (cases rule: run_document_cases)
  case none
  with assms(2) show ?thesis by (simp add: documents_ok_def series_numbers_def last_value_def)
next
  case (one today ord t related doc)
  from issue_document_ok [OF one assms(2)] issue_document_Inr [OF one] show ?thesis by auto
qed

text \<open>
  Claim C26 (invariant). Whatever invoices, credit notes and profile changes are asked for, in
  whatever order, the documents stay a lawful register: the numbers of each series (document type
  and financial year) are 1, 2, 3, ... with no gap in the order of issue; no number is used twice; an
  order has at most one invoice and one credit note; no number is longer than 16 characters; and
  what was issued before is still there unchanged, at the same place.
\<close>

theorem tax_documents_consecutive:
  assumes "rfold run_document rs d = Inr d'" and "documents_ok d"
  shows "series_numbers d' s = [1..last_value d' s] \<and> distinct (map iv_number (d_invoices d'))
    \<and> distinct (map (\<lambda>i. (iv_order_id i, iv_doc_type i)) (d_invoices d'))
    \<and> list_all (\<lambda>i. length (iv_number i) \<le> 16) (d_invoices d')
    \<and> take (length (d_invoices d)) (d_invoices d') = d_invoices d"
proof -
  have g: "tax_documents.gapless d" using assms(2) by (simp add: tax_documents.gapless_def documents_ok_def)
  have "documents_ok d' \<and> take (length (d_invoices d)) (d_invoices d') = d_invoices d"
  proof (rule rfold_invariant [OF assms(1),
        where P = "\<lambda>e. documents_ok e \<and> take (length (d_invoices d)) (d_invoices e) = d_invoices d"])
    show "documents_ok d \<and> take (length (d_invoices d)) (d_invoices d) = d_invoices d" using assms(2) by simp
  next
    fix r e e'
    assume e: "documents_ok e \<and> take (length (d_invoices d)) (d_invoices e) = d_invoices d" and "run_document r e = Inr e'"
    then have e': "documents_ok e'" "take (length (d_invoices e)) (d_invoices e') = d_invoices e"
      using run_document_ok by blast+
    have "length (d_invoices d) \<le> length (d_invoices e)" using e by (metis length_take min.cobounded1)
    then have "take (length (d_invoices d)) (d_invoices e') = take (length (d_invoices d)) (take (length (d_invoices e)) (d_invoices e'))"
      by (simp add: min_absorb1)
    with e e' show "documents_ok e' \<and> take (length (d_invoices d)) (d_invoices e') = d_invoices d" by simp
  qed
  with tax_documents.runs_gapless [OF assms(1) g] show ?thesis
    by (simp add: documents_ok_def tax_documents.gapless_def list_all_iff)
qed

text \<open>
  A flaw of the numbering: the administrator may choose \<open>CN\<close> as the invoice prefix
  (it passes the schema and the table's check), but \<open>CN\<close> is the fixed prefix of credit notes. When
  the two series stand at the same number, an invoice takes the number the next credit note would
  get, and the credit note of that financial year is then refused by the unique constraint. Since a
  confirmed refund issues the credit note in its own transaction, the confirmation is refused too.
\<close>

theorem credit_note_prefix_collides:
  assumes "rfold run_document [WriteProfile p admin, IssueInvoice today explicit oid] d = Inr d'"
    and "bp_invoice_prefix p = CREDIT_NOTE_PREFIX" and "d_invoices d' \<noteq> d_invoices d"
    and "last_value d (series_of ''invoice'' (fiscal_year today)) = last_value d (series_of ''credit_note'' (fiscal_year today))"
    and "invoice_for oid ''credit_note'' d = None" and "fiscal_year later = fiscal_year today"
  shows "\<exists>e. run_document (IssueCreditNote later oid) d' = Inl e"
proof -
  let ?fy = "fiscal_year today"
  obtain d1 where 1: "write_business_profile p admin d = Inr d1" and 2: "run_document (IssueInvoice today explicit oid) d1 = Inr d'"
    using assms(1) by (auto simp: run_document_def res_simps)
  have d1: "d_invoices d1 = d_invoices d" "d_invoice_sequences d1 = d_invoice_sequences d" "d_orders d1 = d_orders d"
    "\<exists>q. d_business_profile d1 = Some q \<and> bp_invoice_prefix q = ''CN''"
    using 1 assms(2) by (auto simp: write_business_profile_def audit_log_def CREDIT_NOTE_PREFIX_def split: if_splits)
  obtain ord x where ord: "row o_id oid (d_orders d1) = Some ord" "issue_invoice today explicit ord d1 = Inr (x, d')"
    using 2 by (auto simp: run_document_def res_simps split: option.splits)
  have "d' \<noteq> d1" using assms(3) d1(1) by auto
  then obtain doc where doc: "issue_document today ord ''invoice'' None d1 = Inr (doc, d')"
    using issue_invoice_new [OF ord(2)] by blast
  note i = issue_document_Inr [OF doc]
  have oid: "o_id ord = oid" using row_SomeD [OF ord(1)] by simp
  have num: "iv_number doc = format_number ''CN'' ?fy (last_value d (series_of ''credit_note'' ?fy) + 1)"
    using i d1 assms(4) by (auto simp: last_value_def)
  have d': "d_invoices d' = d_invoices d @ [doc]" "d_orders d' = d_orders d1"
    "last_value d' (series_of ''credit_note'' ?fy) = last_value d (series_of ''credit_note'' ?fy)"
    "iv_order_id doc = oid" "iv_doc_type doc = ''invoice''"
    using i d1 oid by (auto simp: last_value_def series_of_def)
  have "\<exists>e. issue_credit_note later ord d' = Inl e"
  proof (cases "issue_credit_note later ord d'")
    case (Inr r)
    have cn: "invoice_for (o_id ord) ''credit_note'' d' = None"
      using assms(5) d' oid by (auto simp: invoice_for_def find_None_iff)
    have "invoice_for (o_id ord) ''invoice'' d' \<noteq> None"
      using d' oid by (auto simp: invoice_for_def find_None_iff)
    with Inr cn obtain cd doc0 d'' where "issue_document later ord ''credit_note'' (Some doc0) d' = Inr (cd, d'')"
      by (auto simp: issue_credit_note_def res_simps split: option.splits)
    note c = issue_document_Inr [OF this]
    then have "iv_number cd = iv_number doc" using num d'(3) assms(6) by (auto simp: CREDIT_NOTE_PREFIX_def)
    with c d'(1) show ?thesis by auto
  qed simp
  then show ?thesis using ord(1) d'(2) by (auto simp: run_document_def)
qed

text \<open>A paid order of one taxed line, and a profile.\<close>

definition sample_profile :: "string \<Rightarrow> business_profile" where
  "sample_profile prefix =
     \<lparr>bp_trade_name = ''Shop'', bp_address_line1 = ''1 Road'', bp_address_line2 = None, bp_city = ''Delhi'',
      bp_state_code = ''07'', bp_pincode = ''110001'', bp_email = None, bp_phone = None,
      bp_invoice_prefix = prefix, bp_footer = None, bp_updated_by_user_id = None\<rparr>"

definition sample_tax_line :: gst_line_snapshot where
  "sample_tax_line =
     \<lparr>gl_line = \<lparr>tl_product_id = 1, tl_quantity = 2, tl_unit_price_paise = 500, tl_classification_id = Some 1, tl_discount_paise = 0\<rparr>,
      gl_hsn_kind = ''hsn'', gl_hsn_code = ''6109'', gl_treatment = ''exempt'', gl_value_paise = 1000,
      gl_tax = \<lparr>lt_key = 0, lt_shipping_paise = 0, lt_gross_paise = 1000, lt_taxable_paise = 1000, lt_cgst_paise = 0,
                lt_sgst_paise = 0, lt_igst_paise = 0, lt_round_off_paise = 0\<rparr>, gl_rates = (0, 0, 0)\<rparr>"

definition sample_gst_snapshot :: gst_snapshot where
  "sample_gst_snapshot =
     \<lparr>gn_as_of = 0,
      gn_settings = \<lparr>ts_id = 1, ts_pricing_mode = ''exclusive'', ts_place_of_supply_basis = ''shipping_address'',
        ts_shipping_tax_treatment = ''not_taxed'', ts_rounding_policy = ''per_line'', ts_registration_id = 1,
        ts_effective_from = 0, ts_effective_to = None, ts_status = ''approved''\<rparr>,
      gn_seller = \<lparr>rg_id = 1, rg_gstin = ''07AAAAA0000A1Z5'', rg_legal_name = ''Shop Ltd'', rg_state_code = ''07'',
        rg_valid_from = 0, rg_valid_to = None, rg_status = ''approved''\<rparr>,
      gn_place = \<lparr>gs_code = ''07'', gs_name = ''Delhi''\<rparr>, gn_intra_state = True, gn_lines = [sample_tax_line],
      gn_shipping_paise = 0, gn_shipping_taxed = False,
      gn_totals = \<lparr>gr_lines = [gl_tax sample_tax_line], gr_shipping_untaxed_paise = 0, gr_taxable_paise = 1000,
        gr_cgst_paise = 0, gr_sgst_paise = 0, gr_igst_paise = 0, gr_round_off_paise = 0, gr_tax_paise = 0,
        gr_tax_added_paise = 0, gr_tax_included_paise = 0\<rparr>\<rparr>"

definition sample_paid_order :: "order_status \<Rightarrow> tax_snapshot option \<Rightarrow> order" where
  "sample_paid_order status tax =
     \<lparr>o_id = 9, o_user_id = Some 7, o_guest_token = None, o_guest_email = None, o_payment_token_hash = None,
      o_cart_digest = None, o_status = status, o_idempotency_key = ''k'', o_request_hash = None,
      o_subtotal_cents = 1000, o_paid_in_demo_mode = False, o_discount_cents = 0, o_coupon_id = None,
      o_coupon_code = None, o_coupon_snapshot = None, o_shipping_cents = 0, o_tax_cents = 0, o_total_cents = 1000,
      o_currency = Some ''inr'', o_stock_released_at = None, o_shipping_snapshot = None,
      o_tax_snapshot = tax, o_shipping_address = None, o_created_at = 0\<rparr>"

definition sample_sold_item :: order_item where
  "sample_sold_item =
     \<lparr>oi_id = 10, oi_order_id = 9, oi_product_id = 1, oi_product_name_snapshot = ''shirt'', oi_price_cents_snapshot = 500,
      oi_quantity = 2, oi_variant_id = None, oi_sku_snapshot = ''S'', oi_variant_snapshot = None,
      oi_restocked_quantity = 0, oi_discount_cents = 0\<rparr>"

definition sample_books :: db where
  "sample_books = empty_db\<lparr>d_orders := [sample_paid_order PAID (Some (GstCalculated sample_gst_snapshot))],
     d_order_items := [sample_sold_item]\<rparr>"

lemma sample_books_ok: "documents_ok sample_books"
  by (simp add: documents_ok_def sample_books_def empty_db_def last_value_def series_numbers_def)

theorem tax_documents_consecutive_witness:
  "\<exists>d'. rfold run_document [WriteProfile (sample_profile ''INV'') 3, IssueInvoice (2026, 5, 1) False 9,
            IssueInvoice (2026, 5, 2) False 9, IssueCreditNote (2026, 6, 1) 9] sample_books = Inr d'
      \<and> map iv_number (d_invoices d') = [''INV2627/000001'', ''CN2627/000001'']
      \<and> series_numbers d' ''CN:2026-27'' = [1..last_value d' ''CN:2026-27'']"
proof -
  let ?rs = "[WriteProfile (sample_profile ''INV'') 3, IssueInvoice (2026, 5, 1) False 9,
            IssueInvoice (2026, 5, 2) False 9, IssueCreditNote (2026, 6, 1) 9]"
  have "case rfold run_document ?rs sample_books of Inl _ \<Rightarrow> False
      | Inr d' \<Rightarrow> map iv_number (d_invoices d') = [''INV2627/000001'', ''CN2627/000001'']" by code_simp
  then obtain d' where d': "rfold run_document ?rs sample_books = Inr d'"
    "map iv_number (d_invoices d') = [''INV2627/000001'', ''CN2627/000001'']" by (auto split: sum.splits)
  from tax_documents_consecutive [OF d'(1) sample_books_ok] d' show ?thesis by auto
qed

theorem credit_note_prefix_collides_witness:
  "\<exists>d' e. rfold run_document [WriteProfile (sample_profile ''CN'') 3, IssueInvoice (2026, 5, 1) False 9] sample_books = Inr d'
      \<and> run_document (IssueCreditNote (2026, 6, 1) 9) d' = Inl e"
proof -
  let ?rs = "[WriteProfile (sample_profile ''CN'') 3, IssueInvoice (2026, 5, 1) False 9]"
  have "case rfold run_document ?rs sample_books of Inl _ \<Rightarrow> False
      | Inr d' \<Rightarrow> d_invoices d' \<noteq> []" by code_simp
  then obtain d' where d': "rfold run_document ?rs sample_books = Inr d'" "d_invoices d' \<noteq> []"
    by (auto split: sum.splits)
  have "bp_invoice_prefix (sample_profile ''CN'') = CREDIT_NOTE_PREFIX" "d_invoices sample_books = []"
    "last_value sample_books s = 0" "invoice_for 9 ''credit_note'' sample_books = None" for s
    by (simp_all add: sample_profile_def CREDIT_NOTE_PREFIX_def sample_books_def empty_db_def last_value_def invoice_for_def)
  moreover have "fiscal_year (2026, 6, 1) = fiscal_year (2026, 5, 1)" by code_simp
  ultimately have "\<exists>e. run_document (IssueCreditNote (2026, 6, 1) 9) d' = Inl e"
    using credit_note_prefix_collides [OF d'(1), where later = "(2026, 6, 1)"] d'(2) by metis
  with d' show ?thesis by blast
qed

end
