(* ===== verification/Lifecycle.thy ===== *)
theory Lifecycle
  imports Checkout_Guarantees Invoices
begin

text \<open>
  \<open>payments/services/lifecycle_service.py\<close>: everything that changes an order after checkout, with the
  repositories it calls and the triggers of \<open>lifecycle_guard.py\<close> and \<open>provider_guard.py\<close>. An object
  that is changed and flushed is a record that is written back with its row's trigger and
  constraints. The payment provider is a parameter; an operation that talks to it between two
  transactions takes a function \<open>meanwhile\<close> for what other requests commit in that time.
\<close>

section \<open>Rows and their triggers\<close>

record clock =
  ck_now :: int
  ck_today :: date

definition payments_of :: "int \<Rightarrow> db \<Rightarrow> payment list" where
  "payments_of oid d = filter (\<lambda>p. pm_order_id p = oid) (d_payments d)"

definition orders_lifecycle_guard :: "order \<Rightarrow> order \<Rightarrow> db \<Rightarrow> (shop_error, unit) result" where
  "orders_lifecycle_guard old new d =
     rbind (guard (o_stock_released_at old = None \<or> o_stock_released_at new = o_stock_released_at old)
              (IntegrityError ''stock release cannot be repeated or undone'')) (\<lambda>_.
     if o_status new = o_status old then Inr ()
     else
       rbind (guard ((o_status old = PENDING \<and> o_status new \<in> {PAID, CANCELLED})
                     \<or> (o_status old = PAID \<and> o_status new \<in> {FULFILLED, REFUNDED})
                     \<or> (o_status old = FULFILLED \<and> o_status new = REFUNDED))
                (IntegrityError ''an order cannot change status'')) (\<lambda>_.
       rbind (guard (o_status new \<noteq> PAID
                     \<or> list_ex (\<lambda>p. pm_order_id p = o_id new \<and> pm_status p = PaySucceeded) (d_payments d))
                (IntegrityError ''an order cannot become paid without a succeeded payment'')) (\<lambda>_.
       rbind (guard (o_status new \<noteq> REFUNDED
                     \<or> list_ex (\<lambda>r. rf_order_id r = o_id new \<and> rf_status r = RefSucceeded) (d_refunds d))
                (IntegrityError ''an order cannot become refunded without a succeeded refund'')) (\<lambda>_.
       guard (o_status new \<noteq> CANCELLED \<or> o_stock_released_at new \<noteq> None)
         (IntegrityError ''an order cannot be cancelled before its stock is released'')))))"

text \<open>The UPDATE of an order's row.\<close>

definition flush_order :: "order \<Rightarrow> db \<Rightarrow> (shop_error, db) result" where
  "flush_order new d =
     (case row o_id (o_id new) (d_orders d) of
        None \<Rightarrow> Inl RuntimeError
      | Some old \<Rightarrow> rbind (orders_lifecycle_guard old new d) (\<lambda>_. Inr (d\<lparr>d_orders := set_row o_id new (d_orders d)\<rparr>)))"

definition update_status ::
  "order \<Rightarrow> order_status \<Rightarrow> int option \<Rightarrow> string option \<Rightarrow> int \<Rightarrow> db \<Rightarrow> (shop_error, order \<times> db) result" where
  "update_status ord new_status changed_by reason now d =
     (let new = ord\<lparr>o_status := new_status\<rparr> in
      rbind (flush_order new d) (\<lambda>d.
      Inr (new, d\<lparr>d_order_history := d_order_history d @
             [\<lparr>oh_order_id = o_id ord, oh_from_status = o_status ord, oh_to_status = new_status,
               oh_changed_by_user_id = changed_by, oh_reason = reason, oh_created_at = now\<rparr>]\<rparr>)))"

definition currency_format :: "string \<Rightarrow> bool" where
  "currency_format c \<longleftrightarrow> length c = 3 \<and> list_all (\<lambda>x. 97 \<le> char_code x \<and> char_code x \<le> 122) c"

text \<open>The constraints of \<open>payments\<close>: the partial unique index and the checks.\<close>

definition payment_checks :: "payment \<Rightarrow> db \<Rightarrow> bool" where
  "payment_checks pm d \<longleftrightarrow> 0 < pm_amount_cents pm \<and> int32 (pm_amount_cents pm) \<and> currency_format (pm_currency pm)
     \<and> \<not> list_ex (\<lambda>p. pm_id p \<noteq> pm_id pm \<and> pm_provider_payment_id p = pm_provider_payment_id pm) (d_payments d)
     \<and> (pm_status pm \<noteq> PayPending
        \<or> \<not> list_ex (\<lambda>p. pm_id p \<noteq> pm_id pm \<and> pm_order_id p = pm_order_id pm \<and> pm_status p = PayPending) (d_payments d))"

definition flush_payment :: "payment \<Rightarrow> db \<Rightarrow> (shop_error, db) result" where
  "flush_payment pm d =
     (if \<not> payment_checks pm d then Inl (IntegrityError ''payments'')
      else Inr (d\<lparr>d_payments := set_row pm_id pm (d_payments d)\<rparr>))"

definition refunds_guard :: "refund \<Rightarrow> refund \<Rightarrow> (shop_error, unit) result" where
  "refunds_guard old new =
     rbind (guard (rf_payment_id new = rf_payment_id old \<and> rf_order_id new = rf_order_id old
                   \<and> rf_amount_cents new = rf_amount_cents old \<and> rf_currency new = rf_currency old
                   \<and> rf_idempotency_key new = rf_idempotency_key old)
              (IntegrityError ''what a refund is for cannot be changed after it is created'')) (\<lambda>_.
     guard (rf_status old \<notin> {RefSucceeded, RefFailed} \<or> rf_status new = rf_status old)
       (IntegrityError ''a refund is final''))"

definition committed_refunds :: "int \<Rightarrow> refund list \<Rightarrow> int" where
  "committed_refunds pid rs =
     sum_list (map rf_amount_cents (filter (\<lambda>r. rf_payment_id r = pid \<and> rf_status r \<in> set ACTIVE_REFUND_STATUSES) rs))"

text \<open>A payment that does not exist leaves the amount NULL, and the comparison with NULL refuses nothing.\<close>

definition refunds_cumulative_guard :: "refund \<Rightarrow> db \<Rightarrow> (shop_error, unit) result" where
  "refunds_cumulative_guard new d =
     (if rf_status new \<notin> set ACTIVE_REFUND_STATUSES then Inr ()
      else (case row pm_id (rf_payment_id new) (d_payments d) of
              None \<Rightarrow> Inr ()
            | Some pm \<Rightarrow>
                guard (committed_refunds (rf_payment_id new) (filter (\<lambda>r. rf_id r \<noteq> rf_id new) (d_refunds d))
                         + rf_amount_cents new \<le> pm_amount_cents pm)
                  (IntegrityError ''refunds of a payment cannot exceed the payment amount'')))"

definition in_flight :: "refund \<Rightarrow> bool" where
  "in_flight r \<longleftrightarrow> rf_origin r = ''requested'' \<and> rf_status r \<in> {RefRequested, RefPending, RefUncertain}"

definition refund_checks :: "refund \<Rightarrow> db \<Rightarrow> bool" where
  "refund_checks r d \<longleftrightarrow> 0 < rf_amount_cents r \<and> int32 (rf_amount_cents r) \<and> currency_format (rf_currency r)
     \<and> rf_origin r \<in> {''requested'', ''provider''}
     \<and> \<not> list_ex (\<lambda>x. rf_id x \<noteq> rf_id r \<and> rf_idempotency_key x = rf_idempotency_key r) (d_refunds d)
     \<and> (\<not> in_flight r \<or> \<not> list_ex (\<lambda>x. rf_id x \<noteq> rf_id r \<and> rf_payment_id x = rf_payment_id r \<and> in_flight x) (d_refunds d))
     \<and> row pm_id (rf_payment_id r) (d_payments d) \<noteq> None \<and> row o_id (rf_order_id r) (d_orders d) \<noteq> None"

definition create_refund :: "refund \<Rightarrow> db \<Rightarrow> (shop_error, db) result" where
  "create_refund r d =
     rbind (refunds_cumulative_guard r d) (\<lambda>_.
     if \<not> refund_checks r d then Inl (IntegrityError ''refunds'') else Inr (d\<lparr>d_refunds := d_refunds d @ [r]\<rparr>))"

definition save_refund :: "refund \<Rightarrow> db \<Rightarrow> (shop_error, db) result" where
  "save_refund r d =
     (case row rf_id (rf_id r) (d_refunds d) of
        None \<Rightarrow> Inl RuntimeError
      | Some old \<Rightarrow>
          rbind (refunds_cumulative_guard r d) (\<lambda>_.
          rbind (refunds_guard old r) (\<lambda>_.
          if \<not> refund_checks r d then Inl (IntegrityError ''refunds'')
          else Inr (d\<lparr>d_refunds := set_row rf_id r (d_refunds d)\<rparr>))))"

definition DISPUTE_STATUSES :: "string list" where
  "DISPUTE_STATUSES = [''open'', ''under_review'', ''won'', ''lost'', ''closed'']"

definition terminal_dispute :: "string \<Rightarrow> bool" where
  "terminal_dispute s \<longleftrightarrow> s \<in> set [''won'', ''lost'', ''closed'']"

definition disputes_guard :: "dispute \<Rightarrow> dispute \<Rightarrow> (shop_error, unit) result" where
  "disputes_guard old new =
     rbind (guard (dp_payment_id new = dp_payment_id old \<and> dp_amount_cents new = dp_amount_cents old
                   \<and> dp_currency new = dp_currency old \<and> dp_provider new = dp_provider old
                   \<and> dp_provider_dispute_id new = dp_provider_dispute_id old)
              (IntegrityError ''what a dispute is about cannot be changed'')) (\<lambda>_.
     guard (\<not> terminal_dispute (dp_status old) \<or> dp_status new = dp_status old)
       (IntegrityError ''a dispute is final''))"

definition dispute_checks :: "dispute \<Rightarrow> db \<Rightarrow> bool" where
  "dispute_checks x d \<longleftrightarrow> dp_status x \<in> set DISPUTE_STATUSES \<and> currency_format (dp_currency x)
     \<and> \<not> list_ex (\<lambda>y. dp_id y \<noteq> dp_id x \<and> dp_provider y = dp_provider x
                       \<and> dp_provider_dispute_id y = dp_provider_dispute_id x) (d_disputes d)"

definition create_dispute :: "dispute \<Rightarrow> db \<Rightarrow> (shop_error, db) result" where
  "create_dispute x d =
     (if \<not> dispute_checks x d then Inl (IntegrityError ''disputes'') else Inr (d\<lparr>d_disputes := d_disputes d @ [x]\<rparr>))"

definition save_dispute :: "dispute \<Rightarrow> db \<Rightarrow> (shop_error, db) result" where
  "save_dispute x d =
     (case row dp_id (dp_id x) (d_disputes d) of
        None \<Rightarrow> Inl RuntimeError
      | Some old \<Rightarrow>
          rbind (disputes_guard old x) (\<lambda>_.
          if \<not> dispute_checks x d then Inl (IntegrityError ''disputes'')
          else Inr (d\<lparr>d_disputes := set_row dp_id x (d_disputes d)\<rparr>)))"

section \<open>Repositories\<close>

definition list_for_order :: "int \<Rightarrow> db \<Rightarrow> payment list" where
  "list_for_order oid d = rev (payments_of oid d)"

definition get_payment :: "int \<Rightarrow> db \<Rightarrow> payment option" where
  "get_payment i d = row pm_id i (d_payments d)"

definition get_by_provider_payment_id :: "string \<Rightarrow> string option \<Rightarrow> db \<Rightarrow> payment option" where
  "get_by_provider_payment_id ppid provider d =
     find (\<lambda>p. pm_provider_payment_id p = ppid \<and> (case provider of None \<Rightarrow> True | Some n \<Rightarrow> pm_provider p = n)) (d_payments d)"

definition get_by_provider_reference :: "string \<Rightarrow> string \<Rightarrow> db \<Rightarrow> payment option" where
  "get_by_provider_reference reference provider d =
     find (\<lambda>p. pm_provider_reference p = Some reference \<and> pm_provider p = provider) (d_payments d)"

definition update_payment_status :: "payment \<Rightarrow> payment_status \<Rightarrow> db \<Rightarrow> (shop_error, payment \<times> db) result" where
  "update_payment_status pm status d =
     (let new = pm\<lparr>pm_status := status\<rparr> in rbind (flush_payment new d) (\<lambda>d. Inr (new, d)))"

definition add_refunded_amount ::
  "payment \<Rightarrow> string option \<Rightarrow> int \<Rightarrow> db \<Rightarrow> (shop_error, payment \<times> db) result" where
  "add_refunded_amount pm provider_refund_id amount d =
     (let paid_back = (case pm_refunded_amount_cents pm of None \<Rightarrow> 0 | Some a \<Rightarrow> a) + amount;
          pm1 = pm\<lparr>pm_refunded_amount_cents := Some paid_back\<rparr>;
          pm2 = (if truthy_text provider_refund_id then pm1\<lparr>pm_provider_refund_id := provider_refund_id\<rparr> else pm1);
          pm3 = (if pm_amount_cents pm \<le> paid_back then pm2\<lparr>pm_status := PayRefunded\<rparr> else pm2)
      in rbind (flush_payment pm3 d) (\<lambda>d. Inr (pm3, d)))"

definition get_refund :: "int \<Rightarrow> db \<Rightarrow> refund option" where
  "get_refund i d = row rf_id i (d_refunds d)"

definition get_by_provider_refund_id :: "string \<Rightarrow> db \<Rightarrow> refund option" where
  "get_by_provider_refund_id prid d = find (\<lambda>r. rf_provider_refund_id r = Some prid) (d_refunds d)"

definition get_active_for_payment :: "int \<Rightarrow> db \<Rightarrow> refund option" where
  "get_active_for_payment pid d = find (\<lambda>r. rf_payment_id r = pid \<and> in_flight r) (d_refunds d)"

definition has_submitted_refund :: "int \<Rightarrow> db \<Rightarrow> bool" where
  "has_submitted_refund pid d =
     list_ex (\<lambda>r. rf_payment_id r = pid \<and> (rf_status r \<in> {RefPending, RefUncertain, RefSucceeded}
                    \<or> (rf_status r = RefRequested \<and> 0 < rf_attempts r))) (d_refunds d)"

definition has_cancelling_refund :: "int \<Rightarrow> db \<Rightarrow> bool" where
  "has_cancelling_refund oid d =
     list_ex (\<lambda>r. rf_order_id r = oid \<and> rf_cancels_order r \<and> rf_status r \<in> {RefRequested, RefPending, RefUncertain}) (d_refunds d)"

definition committed_amount :: "int \<Rightarrow> db \<Rightarrow> int" where
  "committed_amount pid d = committed_refunds pid (d_refunds d)"

definition count_for_payment :: "int \<Rightarrow> db \<Rightarrow> int" where
  "count_for_payment pid d = int (length (filter (\<lambda>r. rf_payment_id r = pid) (d_refunds d)))"

definition get_dispute :: "string \<Rightarrow> string \<Rightarrow> db \<Rightarrow> dispute option" where
  "get_dispute provider pdid d =
     find (\<lambda>x. dp_provider x = provider \<and> dp_provider_dispute_id x = pdid) (d_disputes d)"

definition has_open_dispute :: "int \<Rightarrow> db \<Rightarrow> bool" where
  "has_open_dispute pid d =
     list_ex (\<lambda>x. dp_payment_id x = pid \<and> dp_status x \<in> set [''open'', ''under_review'']) (d_disputes d)"

text \<open>One record per \<open>dedupe_key\<close>: a conflicting insert does nothing.\<close>

definition record_reconciliation ::
  "reconciliation_kind \<Rightarrow> key \<Rightarrow> int option \<Rightarrow> int option \<Rightarrow> string option \<Rightarrow> db \<Rightarrow> bool \<times> db" where
  "record_reconciliation kind dedupe_key payment_id order_id provider_payment_id d =
     (if dedupe_key \<in> rc_dedupe_key ` set (d_reconciliations d) then (False, d)
      else let (i, d1) = fresh d in
        (True, d1\<lparr>d_reconciliations := d_reconciliations d1 @
           [\<lparr>rc_id = i, rc_kind = kind, rc_status = ''open'', rc_payment_id = payment_id, rc_order_id = order_id,
             rc_provider_payment_id = provider_payment_id, rc_dedupe_key = dedupe_key, rc_resolution = None,
             rc_resolution_note = None, rc_resolved_by_user_id = None, rc_resolved_at = None\<rparr>]\<rparr>))"

definition resolve_by_dedupe_key :: "key \<Rightarrow> string \<Rightarrow> int \<Rightarrow> db \<Rightarrow> db" where
  "resolve_by_dedupe_key dedupe_key note now d =
     d\<lparr>d_reconciliations := map (\<lambda>r. if rc_dedupe_key r = dedupe_key \<and> rc_status r = ''open''
         then r\<lparr>rc_status := ''resolved'', rc_resolution := Some ''no_action_needed'', rc_resolution_note := Some note,
                rc_resolved_at := Some now\<rparr> else r) (d_reconciliations d)\<rparr>"

definition enqueue :: "string \<Rightarrow> key \<Rightarrow> key option \<Rightarrow> db \<Rightarrow> db" where
  "enqueue job_type payload dedupe_key d =
     (if dedupe_key \<noteq> None \<and> dedupe_key \<in> jb_dedupe_key ` set (d_jobs d) then d
      else let (i, d1) = fresh d in
        d1\<lparr>d_jobs := d_jobs d1 @ [\<lparr>jb_id = i, jb_type = job_type, jb_payload = payload, jb_dedupe_key = dedupe_key\<rparr>]\<rparr>)"

section \<open>Small helpers of the service\<close>

definition kind_name :: "reconciliation_kind \<Rightarrow> string" where
  "kind_name k = (case k of
       LATE_PAYMENT \<Rightarrow> ''late_payment'' | UNMATCHED_PAYMENT \<Rightarrow> ''unmatched_payment'' | AMOUNT_MISMATCH \<Rightarrow> ''amount_mismatch''
     | UNVERIFIABLE_PAYMENT \<Rightarrow> ''unverifiable_payment'' | ORDER_MISMATCH \<Rightarrow> ''order_mismatch''
     | CANCEL_UNCERTAIN \<Rightarrow> ''cancel_uncertain'' | CANCEL_PAYMENT_SUCCEEDED \<Rightarrow> ''cancel_payment_succeeded''
     | REFUND_UNCERTAIN \<Rightarrow> ''refund_uncertain'' | REFUND_MISMATCH \<Rightarrow> ''refund_mismatch'' | EXTERNAL_REFUND \<Rightarrow> ''external_refund''
     | DISPUTE_OPENED \<Rightarrow> ''dispute_opened'' | DISPUTE_LOST \<Rightarrow> ''dispute_lost'' | UNMATCHED_DISPUTE \<Rightarrow> ''unmatched_dispute''
     | REFUND_BLOCKED_BY_DISPUTE \<Rightarrow> ''refund_blocked_by_dispute'' | DISPUTE_DURING_REFUND \<Rightarrow> ''dispute_during_refund'')"

text \<open>\<open>a or b\<close> on optional values.\<close>

definition or_else :: "'a option \<Rightarrow> 'a option \<Rightarrow> 'a option" where
  "or_else a b = (case a of None \<Rightarrow> b | Some x \<Rightarrow> Some x)"

definition reconcile ::
  "reconciliation_kind \<Rightarrow> key \<Rightarrow> payment option \<Rightarrow> int option \<Rightarrow> string option \<Rightarrow> db \<Rightarrow> db" where
  "reconcile kind dedupe_key pm order_id provider_payment_id d =
     (let (recorded, d1) = record_reconciliation kind dedupe_key (map_option pm_id pm)
            (or_else order_id (map_option pm_order_id pm))
            (if truthy_text provider_payment_id then provider_payment_id else map_option pm_provider_payment_id pm) d
      in if recorded then audit_log None (''reconciliation.'' @ kind_name kind) ''payment_reconciliation'' dedupe_key d1 else d1)"

section \<open>Payment confirmation and fulfilment\<close>

text \<open>The flag set after the status was flushed is written by the commit.\<close>

definition mark_paid :: "order \<Rightarrow> payment \<Rightarrow> clock \<Rightarrow> db \<Rightarrow> (shop_error, bool \<times> db) result" where
  "mark_paid ord pm ck d =
     (if o_status ord \<noteq> PENDING then Inr (False, d)
      else rbind (update_status ord PAID None (Some ''payment confirmed by the payment provider'') (ck_now ck) d) (\<lambda>(ord, d).
           rbind (flush_order (ord\<lparr>o_paid_in_demo_mode := (pm_provider pm = ''demo'')\<rparr>) d) (\<lambda>d.
           Inr (True, audit_log None ''order.paid'' ''order'' [KI (o_id ord)] d))))"

definition fulfil_order :: "int \<Rightarrow> int \<Rightarrow> clock \<Rightarrow> db \<Rightarrow> (shop_error, order \<times> db) result" where
  "fulfil_order oid admin ck d =
     rbind (lock_order_for_update oid d) (\<lambda>ord.
     if o_status ord = FULFILLED then Inr (ord, d)
     else if o_status ord \<noteq> PAID then Inl (InvalidStatusTransition (o_status ord) FULFILLED)
     else if has_cancelling_refund (o_id ord) d then Inl StatusChangeNotAllowed
     else rbind (update_status ord FULFILLED (Some admin) (Some ''marked fulfilled by an administrator'') (ck_now ck) d) (\<lambda>(ord, d).
          rbind (issue_invoice (ck_today ck) False ord d) (\<lambda>(_, d).
          Inr (ord, audit_log (Some admin) ''order.fulfilled'' ''order'' [KI (o_id ord)] d))))"

section \<open>Releasing the reserved stock\<close>

definition add_restock_event :: "int \<times> key \<times> int \<Rightarrow> int list \<times> db \<Rightarrow> (shop_error, int list \<times> db) result" where
  "add_restock_event e st =
     (let (i, k, q) = e; (recorded, d) = st in
      if list_ex (\<lambda>r. ir_order_item_id r = i \<and> ir_event_key r = k) (d_restocks d) then Inr (recorded, d)
      else if q \<le> 0 then Inl (IntegrityError ''ck_order_item_restocks_quantity'')
      else (case row oi_id i (d_order_items d) of
              None \<Rightarrow> Inl (IntegrityError ''order_item_restocks_order_item_id_fkey'')
            | Some item \<Rightarrow>
                if oi_quantity item < oi_restocked_quantity item + q
                then Inl (IntegrityError ''ck_order_items_restocked_within_quantity'')
                else Inr (recorded @ [i],
                       d\<lparr>d_restocks := d_restocks d @ [\<lparr>ir_order_item_id = i, ir_event_key = k, ir_quantity = q\<rparr>],
                         d_order_items := set_row oi_id
                            (item\<lparr>oi_restocked_quantity := oi_restocked_quantity item + q\<rparr>) (d_order_items d)\<rparr>)))"

definition record_restock_events :: "(int \<times> key \<times> int) list \<Rightarrow> db \<Rightarrow> (shop_error, int list \<times> db) result" where
  "record_restock_events events d = rfold add_restock_event events ([], d)"

definition ORDER_RELEASE :: key where
  "ORDER_RELEASE = [KS ''order-release'']"

text \<open>The first loop of \<open>_restock_once\<close>: the lines with something left to put back.\<close>

fun pending_restock :: "product list \<Rightarrow> order_item list \<Rightarrow> (shop_error, (order_item \<times> int \<times> product option) list) result" where
  "pending_restock locked [] = Inr []"
| "pending_restock locked (item # items) =
     (let remaining = oi_quantity item - oi_restocked_quantity item;
          product = row p_id (oi_product_id item) locked
      in if remaining \<le> 0 then pending_restock locked items
         else if oi_variant_id item = None \<and> (case product of None \<Rightarrow> False | Some p \<Rightarrow> 0 < p_option_count p)
         then Inl RuntimeError
         else rbind (pending_restock locked items) (\<lambda>rest. Inr ((item, remaining, product) # rest)))"

text \<open>The second loop: what goes back to products and to variants.\<close>

definition restock_line ::
  "variant list \<Rightarrow> int list \<Rightarrow> order_item \<times> int \<times> product option
     \<Rightarrow> (int \<times> int) list \<times> (int \<times> int) list \<Rightarrow> (int \<times> int) list \<times> (int \<times> int) list" where
  "restock_line locked_variants recorded l acc =
     (let (item, remaining, product) = l; (restock, variant_restock) = acc in
      if oi_id item \<notin> set recorded then (restock, variant_restock)
      else (case oi_variant_id item of
              Some v \<Rightarrow> if row v_id v locked_variants \<noteq> None
                        then (restock, dict_add v remaining variant_restock) else (restock, variant_restock)
            | None \<Rightarrow> if product \<noteq> None then (dict_add (oi_product_id item) remaining restock, variant_restock)
                      else (restock, variant_restock)))"

definition restock_ctx :: "int \<Rightarrow> stock_ctx" where
  "restock_ctx oid = \<lparr>sx_kind = ''restock'', sx_actor_user_id = None, sx_reason = None, sx_order_id = Some oid\<rparr>"

definition restock_once :: "order \<Rightarrow> int \<Rightarrow> db \<Rightarrow> (shop_error, bool \<times> order \<times> db) result" where
  "restock_once ord now d =
     (if o_stock_released_at ord \<noteq> None then Inr (False, ord, d)
      else
        let items = order_items_of (o_id ord) d;
            locked = get_many_for_update (map oi_product_id items) d;
            variant_ids = List.map_filter oi_variant_id items;
            locked_variants = (if variant_ids = [] then [] else get_variants_for_update variant_ids d)
        in rbind (pending_restock locked items) (\<lambda>pending.
           rbind (record_restock_events (map (\<lambda>(item, remaining, _). (oi_id item, ORDER_RELEASE, remaining)) pending) d) (\<lambda>(recorded, d).
           let (restock, variant_restock) = fold (restock_line locked_variants recorded) pending ([], []) in
           rbind (move_units (restock_ctx (o_id ord)) locked restock locked_variants variant_restock d) (\<lambda>d.
           Inr (True, ord\<lparr>o_stock_released_at := Some now\<rparr>, d)))))"

definition release_stock_and_cancel :: "order \<Rightarrow> int option \<Rightarrow> string \<Rightarrow> int \<Rightarrow> db \<Rightarrow> (shop_error, order \<times> db) result" where
  "release_stock_and_cancel ord actor reason now d =
     rbind (restock_once ord now d) (\<lambda>(_, ord, d). update_status ord CANCELLED actor (Some reason) now d)"

section \<open>Cancellation and expiry\<close>

text \<open>What the model needs of a payment provider; \<open>None\<close> is \<open>PaymentProviderError\<close> (outcome unknown).\<close>

record provider =
  pv_name :: string
  pv_supports_cancel :: bool
  pv_cancel :: "string \<Rightarrow> key \<Rightarrow> string option"
  pv_retrieve :: "string \<Rightarrow> (string \<times> string) option"
  pv_create :: "int \<Rightarrow> string \<Rightarrow> key \<Rightarrow> (string \<times> string) option"
  pv_refund :: "string \<Rightarrow> int \<Rightarrow> string \<Rightarrow> key \<Rightarrow> (string \<times> int \<times> string \<times> string option) option"

type_synonym resolver = "(int \<Rightarrow> provider option) \<times> provider"

definition provider_for :: "resolver \<Rightarrow> int option \<Rightarrow> provider" where
  "provider_for rv config_id =
     (case Option.bind config_id (fst rv) of Some p \<Rightarrow> p | None \<Rightarrow> snd rv)"

datatype cancel_plan = AlreadyCancelled order | ToCancel order "(int \<times> string \<times> int option) list"

definition cancel_begin :: "int \<Rightarrow> db \<Rightarrow> (shop_error, cancel_plan) result" where
  "cancel_begin oid d =
     rbind (lock_order_for_update oid d) (\<lambda>ord.
     if o_status ord = CANCELLED then Inr (AlreadyCancelled ord)
     else if o_status ord \<noteq> PENDING then Inl (CancellationNotAllowed (o_status ord))
     else let payments = list_for_order (o_id ord) d in
       if list_ex (\<lambda>p. pm_status p = PaySucceeded) payments then Inl PaymentInProgress
       else Inr (ToCancel ord (map (\<lambda>p. (pm_id p, pm_provider_payment_id p, pm_provider_config_id p))
                                 (filter (\<lambda>p. pm_status p \<noteq> PayRefunded) payments))))"

text \<open>The provider calls: \<open>(uncertain, completed)\<close> over the open intents.\<close>

definition cancel_intent :: "resolver \<Rightarrow> int \<times> string \<times> int option \<Rightarrow> string list \<times> bool \<Rightarrow> string list \<times> bool" where
  "cancel_intent rv i acc =
     (let (payment_id, ppid, config_id) = i; (uncertain, completed) = acc; pv = provider_for rv config_id in
      if \<not> pv_supports_cancel pv then (uncertain, completed)
      else (case pv_cancel pv ppid [KS ''cancel'', KI payment_id] of
              None \<Rightarrow> (uncertain @ [ppid], completed)
            | Some status \<Rightarrow>
                if status = ''succeeded'' then (uncertain, True)
                else if status \<noteq> ''canceled'' then (uncertain @ [ppid], completed)
                else (uncertain, completed)))"

definition cancel_intents :: "resolver \<Rightarrow> (int \<times> string \<times> int option) list \<Rightarrow> string list \<times> bool" where
  "cancel_intents rv to_cancel = fold (cancel_intent rv) to_cancel ([], False)"

definition fail_pending :: "payment \<Rightarrow> db \<Rightarrow> (shop_error, db) result" where
  "fail_pending p d =
     (if pm_status p = PayPending then rbind (update_payment_status p PayFailed d) (\<lambda>(_, d). Inr d) else Inr d)"

definition cancel_finish :: "int \<Rightarrow> int option \<Rightarrow> string \<Rightarrow> clock \<Rightarrow> db \<Rightarrow> (shop_error, string \<times> order \<times> db) result" where
  "cancel_finish oid actor reason ck d =
     rbind (lock_order_for_update oid d) (\<lambda>ord.
     if o_status ord = CANCELLED then Inr (''already_cancelled'', ord, d)
     else if o_status ord \<noteq> PENDING then Inr (''payment_in_progress'', ord, d)
     else let payments = list_for_order (o_id ord) d in
       if list_ex (\<lambda>p. pm_status p = PaySucceeded) payments then Inr (''payment_in_progress'', ord, d)
       else rbind (rfold fail_pending payments d) (\<lambda>d.
            rbind (release_stock_and_cancel ord actor reason (ck_now ck) d) (\<lambda>(ord, d).
            Inr (''cancelled'', ord, audit_log actor ''order.cancelled'' ''order'' [KI (o_id ord)] d))))"

definition cancel_order ::
  "resolver \<Rightarrow> (db \<Rightarrow> db) \<Rightarrow> int \<Rightarrow> int option \<Rightarrow> string \<Rightarrow> clock \<Rightarrow> db \<Rightarrow> (shop_error, string \<times> order \<times> db) result" where
  "cancel_order rv meanwhile oid actor reason ck d =
     rbind (cancel_begin oid d) (\<lambda>plan.
     case plan of
       AlreadyCancelled ord \<Rightarrow> Inr (''already_cancelled'', ord, d)
     | ToCancel ord to_cancel \<Rightarrow>
         let (uncertain, completed) = cancel_intents rv to_cancel; d = meanwhile d in
         if completed
         then Inr (''payment_in_progress'', ord,
                   reconcile CANCEL_PAYMENT_SUCCEEDED [KS ''cancel_payment_succeeded'', KI oid] None (Some oid) None d)
         else if uncertain \<noteq> []
         then Inr (''uncertain'', ord, reconcile CANCEL_UNCERTAIN [KS ''cancel_uncertain'', KI oid] None (Some oid) None d)
         else cancel_finish oid actor reason ck d)"

section \<open>Refunds\<close>

definition refundable_payment :: "order \<Rightarrow> int option \<Rightarrow> payment list \<Rightarrow> (shop_error, payment) result" where
  "refundable_payment ord payment_id payments =
     rbind (case payment_id of
              None \<Rightarrow> if o_status ord \<notin> {PAID, FULFILLED} then Inl OrderNotRefundable
                      else Inr (find (\<lambda>p. pm_status p = PaySucceeded) payments)
            | Some pid \<Rightarrow> Inr (case find (\<lambda>p. pm_id p = pid) payments of
                                 None \<Rightarrow> None
                               | Some p \<Rightarrow> if pm_status p \<noteq> PaySucceeded then None else Some p))
       (\<lambda>p. case p of None \<Rightarrow> Inl OrderNotRefundable | Some p \<Rightarrow> Inr p)"

definition request_refund ::
  "int \<Rightarrow> int \<Rightarrow> int option \<Rightarrow> bool \<Rightarrow> db \<Rightarrow> (shop_error, refund \<times> bool \<times> db) result" where
  "request_refund oid requested_by payment_id cancels_order d =
     rbind (lock_order_for_update oid d) (\<lambda>ord.
     rbind (guard (o_currency ord \<noteq> None) OrderCurrencyUnknown) (\<lambda>_.
     rbind (guard (\<not> cancels_order \<or> o_status ord = PAID) (CancelAndRefundNotAllowed (o_status ord))) (\<lambda>_.
     rbind (refundable_payment ord payment_id (list_for_order (o_id ord) d)) (\<lambda>pm.
     case get_active_for_payment (pm_id pm) d of
       Some existing \<Rightarrow>
         if rf_cancels_order existing \<noteq> cancels_order then Inl (RefundAlreadyRequested (rf_cancels_order existing))
         else Inr (existing, False, d)
     | None \<Rightarrow>
         rbind (guard (o_currency ord = None \<or> o_currency ord = Some (pm_currency pm)) PaymentInconsistent) (\<lambda>_.
         rbind (guard (\<not> has_open_dispute (pm_id pm) d) PaymentDisputed) (\<lambda>_.
         let committed = committed_amount (pm_id pm) d in
         if pm_amount_cents pm \<le> committed then Inl OrderNotRefundable
         else if 0 < committed then Inl PartialRefundNotSupported
         else rbind (lift_err MoneyError (to_stripe_amount (PyInt (pm_amount_cents pm)) (pm_currency pm))) (\<lambda>amount.
              let attempt_number = count_for_payment (pm_id pm) d;
                  (i, d1) = fresh d;
                  r = \<lparr>rf_id = i, rf_payment_id = pm_id pm, rf_order_id = o_id ord, rf_amount_cents = amount,
                       rf_currency = pm_currency pm, rf_status = RefRequested, rf_provider_refund_id = None,
                       rf_idempotency_key = [KS ''refund'', KI (pm_id pm), KI attempt_number],
                       rf_requested_by_user_id = Some requested_by, rf_attempts = 0, rf_cancels_order = cancels_order,
                       rf_origin = ''requested'', rf_failure_reason = None\<rparr>
              in rbind (create_refund r d1) (\<lambda>d2.
                 let d3 = enqueue ''execute_refund'' [KI i] (Some [KS ''execute-refund'', KI i]) d2;
                     d4 = audit_log (Some requested_by) ''refund.requested'' ''refund'' [KI i] d3;
                     d5 = (if cancels_order
                           then audit_log (Some requested_by) ''order.cancel_refund_requested'' ''order'' [KI (o_id ord)] d4 else d4)
                 in Inr (r, True, d5)))))))))"

record refund_attempt =
  ra_refund_id :: int
  ra_provider_payment_id :: string
  ra_provider_config_id :: "int option"
  ra_amount :: int
  ra_currency :: string
  ra_idempotency_key :: key

text \<open>\<open>get_spec(payment.provider).refund_needs_provider_reference\<close>: of the registered providers, Razorpay.\<close>

definition refund_needs_provider_reference :: "string \<Rightarrow> bool" where
  "refund_needs_provider_reference provider \<longleftrightarrow> provider = ''razorpay''"

definition refund_target :: "payment \<Rightarrow> string" where
  "refund_target pm =
     (if refund_needs_provider_reference (pm_provider pm) \<and> truthy_text (pm_provider_reference pm)
      then the (pm_provider_reference pm) else pm_provider_payment_id pm)"

definition begin_refund_attempt :: "int \<Rightarrow> db \<Rightarrow> (shop_error, refund_attempt option \<times> db) result" where
  "begin_refund_attempt rid d =
     (case get_refund rid d of
        None \<Rightarrow> Inr (None, d)
      | Some r \<Rightarrow>
          if rf_status r \<noteq> RefRequested then Inr (None, d)
          else (case get_payment (rf_payment_id r) d of
             None \<Rightarrow> Inl TypeError
           | Some pm \<Rightarrow>
               if has_open_dispute (pm_id pm) d \<and> rf_attempts r = 0
               then rbind (save_refund (r\<lparr>rf_status := RefFailed,
                             rf_failure_reason := Some ''not submitted: a dispute is open on this payment''\<rparr>) d) (\<lambda>d.
                    let d1 = reconcile REFUND_BLOCKED_BY_DISPUTE [KS ''refund_blocked_by_dispute'', KI (rf_id r)] (Some pm) None None d
                    in Inr (None, audit_log None ''refund.blocked_by_dispute'' ''refund'' [KI (rf_id r)] d1))
               else
                 let d1 = (if has_open_dispute (pm_id pm) d
                           then reconcile DISPUTE_DURING_REFUND [KS ''dispute_during_refund'', KI (rf_id r)] (Some pm) None None d
                           else d)
                 in rbind (save_refund (r\<lparr>rf_attempts := rf_attempts r + 1\<rparr>) d1) (\<lambda>d2.
                    rbind (lift_err MoneyError (to_stripe_amount (PyInt (rf_amount_cents r)) (rf_currency r))) (\<lambda>amount.
                    Inr (Some \<lparr>ra_refund_id = rf_id r, ra_provider_payment_id = refund_target pm,
                               ra_provider_config_id = pm_provider_config_id pm, ra_amount = amount,
                               ra_currency = rf_currency r, ra_idempotency_key = rf_idempotency_key r\<rparr>, d2)))))"

text \<open>\<open>redact\<close> removes secrets from the provider's message before it is stored.\<close>

definition record_refund_attempt_failed ::
  "(string \<Rightarrow> string) \<Rightarrow> int \<Rightarrow> int \<Rightarrow> string \<Rightarrow> db \<Rightarrow> (shop_error, string \<times> db) result" where
  "record_refund_attempt_failed redact max_attempts rid error d =
     (case get_refund rid d of
        None \<Rightarrow> Inr (''stale'', d)
      | Some r \<Rightarrow>
          if rf_status r \<noteq> RefRequested then Inr (''stale'', d)
          else if rf_attempts r < max_attempts then Inr (''retry'', d)
          else rbind (save_refund (r\<lparr>rf_status := RefUncertain, rf_failure_reason := Some (take 500 (redact error))\<rparr>) d) (\<lambda>d.
               let d1 = reconcile REFUND_UNCERTAIN [KS ''refund_uncertain'', KI (rf_id r)] None (Some (rf_order_id r)) None d
               in Inr (''uncertain'', audit_log None ''refund.uncertain'' ''refund'' [KI (rf_id r)] d1)))"

definition amount_or :: "int option \<Rightarrow> int \<Rightarrow> int" where
  "amount_or amount b = (case amount of None \<Rightarrow> b | Some a \<Rightarrow> if a = 0 then b else a)"

definition confirm_refund ::
  "refund \<Rightarrow> string option \<Rightarrow> int option \<Rightarrow> clock \<Rightarrow> db \<Rightarrow> (shop_error, db) result" where
  "confirm_refund r provider_refund_id amount ck d =
     rbind (lock_order_for_update (rf_order_id r) d) (\<lambda>ord.
     case get_payment (rf_payment_id r) d of
       None \<Rightarrow> Inl TypeError
     | Some pm0 \<Rightarrow>
         rbind (add_refunded_amount pm0 provider_refund_id (amount_or amount (rf_amount_cents r)) d) (\<lambda>(pm, d).
         let d1 = (if has_open_dispute (pm_id pm) d
                   then reconcile DISPUTE_DURING_REFUND [KS ''dispute_during_refund'', KI (rf_id r)] (Some pm) None None d else d);
             fully_refunded = (pm_amount_cents pm \<le> (case pm_refunded_amount_cents pm of None \<Rightarrow> 0 | Some a \<Rightarrow> a))
         in rbind (if rf_origin r = ''requested'' \<and> fully_refunded \<and> o_status ord \<in> {PAID, FULFILLED}
                   then let was_fulfilled = (o_status ord = FULFILLED) in
                     rbind (update_status ord REFUNDED None (Some ''refund confirmed by the payment provider'') (ck_now ck) d1) (\<lambda>(ord, d).
                     rbind (issue_credit_note (ck_today ck) ord d) (\<lambda>(_, d).
                     if rf_cancels_order r \<and> \<not> was_fulfilled
                     then rbind (restock_once ord (ck_now ck) d) (\<lambda>(_, ord, d). flush_order ord d)
                     else Inr d))
                   else Inr d1) (\<lambda>d.
            Inr (audit_log None ''refund.succeeded'' ''refund'' [KI (rf_id r)] d))))"

definition apply_refund_state ::
  "refund \<Rightarrow> string option \<Rightarrow> int option \<Rightarrow> string option \<Rightarrow> string option \<Rightarrow> clock \<Rightarrow> db \<Rightarrow> (shop_error, db) result" where
  "apply_refund_state r status amount currency provider_refund_id ck d =
     (let d1 = (if (amount \<noteq> None \<and> amount \<noteq> Some (rf_amount_cents r)) \<or> (currency \<noteq> None \<and> currency \<noteq> Some (rf_currency r))
                then audit_log None ''payment.refund_mismatch'' ''refund'' [KI (rf_id r)]
                       (reconcile REFUND_MISMATCH [KS ''refund_mismatch'', KI (rf_id r)] None (Some (rf_order_id r)) None d)
                else d);
          r1 = (if truthy_text provider_refund_id \<and> rf_provider_refund_id r = None
                then r\<lparr>rf_provider_refund_id := provider_refund_id\<rparr> else r)
      in if rf_status r1 \<in> {RefSucceeded, RefFailed} then save_refund r1 d1
         else if status = Some ''succeeded''
         then let r2 = r1\<lparr>rf_status := RefSucceeded\<rparr> in
              rbind (save_refund r2 d1) (\<lambda>d.
              confirm_refund r2 (if truthy_text provider_refund_id then provider_refund_id else rf_provider_refund_id r2) amount ck d)
         else if status = Some ''failed'' \<or> status = Some ''canceled''
         then rbind (save_refund (r1\<lparr>rf_status := RefFailed,
                       rf_failure_reason := Some (''provider reported '' @ [CHR 0x27] @ (case status of None \<Rightarrow> [] | Some t \<Rightarrow> t) @ [CHR 0x27])\<rparr>) d1) (\<lambda>d.
              Inr (audit_log None ''refund.failed'' ''refund'' [KI (rf_id r1)] d))
         else save_refund (if rf_status r1 = RefRequested then r1\<lparr>rf_status := RefPending\<rparr> else r1) d1)"

definition finish_refund :: "int \<Rightarrow> string \<times> int \<times> string \<times> string option \<Rightarrow> clock \<Rightarrow> db \<Rightarrow> (shop_error, db) result" where
  "finish_refund rid result ck d =
     (let (prid, amount, status, currency) = result in
      case get_refund rid d of
        None \<Rightarrow> Inr d
      | Some r \<Rightarrow> apply_refund_state r (Some status) (Some amount) currency (Some prid) ck d)"

section \<open>Administrators\<close>

definition admin_change_status :: "int \<Rightarrow> order_status \<Rightarrow> int \<Rightarrow> clock \<Rightarrow> db \<Rightarrow> (shop_error, order \<times> db) result" where
  "admin_change_status oid new_status admin ck d =
     (if new_status = FULFILLED then fulfil_order oid admin ck d else Inl StatusChangeNotAllowed)"

definition save_reconciliation :: "reconciliation \<Rightarrow> db \<Rightarrow> (shop_error, db) result" where
  "save_reconciliation rc d =
     (if rc_status rc = ''open'' \<or> (rc_resolved_at rc \<noteq> None \<and> rc_resolution rc \<noteq> None
           \<and> (case rc_resolution_note rc of None \<Rightarrow> False | Some n \<Rightarrow> btrim n \<noteq> []))
      then Inr (d\<lparr>d_reconciliations := set_row rc_id rc (d_reconciliations d)\<rparr>)
      else Inl (IntegrityError ''ck_reconciliations_resolved_fields''))"

definition open_reconciliation :: "int \<Rightarrow> db \<Rightarrow> (shop_error, reconciliation) result" where
  "open_reconciliation rid d =
     (case row rc_id rid (d_reconciliations d) of
        None \<Rightarrow> Inl ReconciliationNotOpen
      | Some rc \<Rightarrow> if rc_status rc \<noteq> ''open'' then Inl ReconciliationNotOpen else Inr rc)"

definition resolved :: "string \<Rightarrow> string \<Rightarrow> int \<Rightarrow> int \<Rightarrow> reconciliation \<Rightarrow> reconciliation" where
  "resolved resolution note admin now rc =
     rc\<lparr>rc_status := ''resolved'', rc_resolution := Some resolution, rc_resolution_note := Some note,
        rc_resolved_by_user_id := Some admin, rc_resolved_at := Some now\<rparr>"

definition resolve_reconciliation ::
  "int \<Rightarrow> int \<Rightarrow> string \<Rightarrow> string \<Rightarrow> clock \<Rightarrow> db \<Rightarrow> (shop_error, reconciliation \<times> db) result" where
  "resolve_reconciliation rid admin resolution note ck d =
     rbind (open_reconciliation rid d) (\<lambda>rc.
     let rc1 = resolved resolution (str_strip note) admin (ck_now ck) rc in
     rbind (save_reconciliation rc1 d) (\<lambda>d.
     Inr (rc1, audit_log (Some admin) ''reconciliation.resolved'' ''payment_reconciliation'' [KI (rc_id rc)] d)))"

definition refund_from_reconciliation ::
  "int \<Rightarrow> int \<Rightarrow> clock \<Rightarrow> db \<Rightarrow> (shop_error, reconciliation \<times> refund \<times> db) result" where
  "refund_from_reconciliation rid admin ck d =
     rbind (open_reconciliation rid d) (\<lambda>rc.
     case (rc_payment_id rc, rc_order_id rc) of
       (Some pid, Some oid) \<Rightarrow>
         rbind (request_refund oid admin (Some pid) False d) (\<lambda>(r, _, d).
         let rc1 = resolved ''refund_requested'' (''Refund '' @ str_int (rf_id r) @ '' requested by an administrator'') admin (ck_now ck) rc in
         rbind (save_reconciliation rc1 d) (\<lambda>d.
         Inr (rc1, r, audit_log (Some admin) ''reconciliation.resolved'' ''payment_reconciliation'' [KI (rc_id rc)] d)))
     | _ \<Rightarrow> Inl OrderNotRefundable)"

section \<open>Refunds made at the provider, and disputes\<close>

definition record_external_refund ::
  "payment \<Rightarrow> string \<Rightarrow> int option \<Rightarrow> string option \<Rightarrow> db \<Rightarrow> (shop_error, bool \<times> db) result" where
  "record_external_refund pm prid amount currency d =
     (if get_by_provider_refund_id prid d \<noteq> None then Inr (False, d)
      else case amount of
        None \<Rightarrow> Inr (False, reconcile REFUND_MISMATCH [KS ''external_refund_invalid'', KS prid] (Some pm) None None d)
      | Some a \<Rightarrow>
          if a \<le> 0 \<or> currency \<noteq> Some (pm_currency pm)
          then Inr (False, reconcile REFUND_MISMATCH [KS ''external_refund_invalid'', KS prid] (Some pm) None None d)
          else
            let (i, d1) = fresh d;
                r = \<lparr>rf_id = i, rf_payment_id = pm_id pm, rf_order_id = pm_order_id pm, rf_amount_cents = a,
                     rf_currency = pm_currency pm, rf_status = RefSucceeded, rf_provider_refund_id = Some prid,
                     rf_idempotency_key = [KS ''provider'', KS prid], rf_requested_by_user_id = None, rf_attempts = 0,
                     rf_cancels_order = False, rf_origin = ''provider'', rf_failure_reason = None\<rparr>
            in (case create_refund r d1 of
                  Inl _ \<Rightarrow> Inr (False, reconcile REFUND_MISMATCH [KS ''external_refund_exceeds'', KS prid] (Some pm) None None d)
                | Inr d2 \<Rightarrow>
                    rbind (add_refunded_amount pm (Some prid) a d2) (\<lambda>(pm1, d3).
                    let d4 = reconcile EXTERNAL_REFUND [KS ''external_refund'', KS prid] (Some pm1) None None d3
                    in Inr (True, audit_log None ''refund.external_recorded'' ''payment'' [KI (pm_id pm)] d4))))"

definition DISPUTE_STATUS_MAP :: "(string \<times> string) list" where
  "DISPUTE_STATUS_MAP =
     [(''needs_response'', ''open''), (''warning_needs_response'', ''open''), (''under_review'', ''under_review''),
      (''warning_under_review'', ''under_review''), (''won'', ''won''), (''lost'', ''lost''), (''warning_closed'', ''closed'')]"

definition mapped_status :: "string option \<Rightarrow> string" where
  "mapped_status s =
     (case map_of DISPUTE_STATUS_MAP (case s of None \<Rightarrow> '''' | Some t \<Rightarrow> t) of None \<Rightarrow> ''open'' | Some m \<Rightarrow> m)"

definition dispute_settled :: "string \<Rightarrow> dispute \<Rightarrow> payment \<Rightarrow> db \<Rightarrow> db" where
  "dispute_settled mapped x pm d =
     (if mapped = ''lost''
      then audit_log None ''dispute.lost'' ''dispute'' [KI (dp_id x)]
             (reconcile DISPUTE_LOST [KS ''dispute_lost'', KI (dp_id x)] (Some pm) None None d)
      else if mapped = ''won'' \<or> mapped = ''closed''
      then audit_log None (''dispute.'' @ mapped) ''dispute'' [KI (dp_id x)] d
      else d)"

definition open_new_dispute :: "webhook_event \<Rightarrow> string \<Rightarrow> payment \<Rightarrow> clock \<Rightarrow> db \<Rightarrow> (shop_error, dispute \<times> db) result" where
  "open_new_dispute ev pdid pm ck d =
     (let mapped = mapped_status (we_dispute_status ev);
          terminal = terminal_dispute mapped;
          (i, d1) = fresh d;
          x = \<lparr>dp_id = i, dp_provider = we_provider ev, dp_provider_dispute_id = pdid, dp_payment_id = pm_id pm,
               dp_order_id = pm_order_id pm, dp_amount_cents = amount_or (we_amount ev) (pm_amount_cents pm),
               dp_currency = (if truthy_text (we_currency ev) then the (we_currency ev) else pm_currency pm),
               dp_status = mapped, dp_provider_status = we_dispute_status ev, dp_reason = we_dispute_reason ev,
               dp_closed_at = (if terminal then Some (ck_now ck) else None)\<rparr>
      in rbind (create_dispute x d1) (\<lambda>d2.
         let d3 = audit_log None ''dispute.opened'' ''dispute'' [KI i] d2;
             d4 = (if \<not> terminal \<and> has_submitted_refund (pm_id pm) d3
                   then reconcile DISPUTE_DURING_REFUND [KS ''dispute_during_refund'', KS ''dispute'', KI i] (Some pm) None None d3
                   else d3);
             d5 = (if \<not> terminal then reconcile DISPUTE_OPENED [KS ''dispute_opened'', KI i] (Some pm) None None d4 else d4)
         in Inr (x, d5)))"

definition apply_dispute_event :: "webhook_event \<Rightarrow> clock \<Rightarrow> db \<Rightarrow> (shop_error, db) result" where
  "apply_dispute_event ev ck d =
     (let pm = (if we_provider_payment_id ev \<noteq> [] then get_by_provider_payment_id (we_provider_payment_id ev) (Some (we_provider ev)) d
                else None) in
      case (pm, if truthy_text (we_provider_dispute_id ev) then we_provider_dispute_id ev else None) of
        (Some pm, Some pdid) \<Rightarrow>
          let mapped = mapped_status (we_dispute_status ev) in
          (case get_dispute (we_provider ev) pdid d of
             None \<Rightarrow> rbind (open_new_dispute ev pdid pm ck d) (\<lambda>(x, d). Inr (dispute_settled mapped x pm d))
           | Some x \<Rightarrow>
               if terminal_dispute (dp_status x) \<or> mapped = dp_status x then Inr d
               else
                 let x1 = x\<lparr>dp_status := mapped, dp_provider_status := we_dispute_status ev,
                            dp_closed_at := (if terminal_dispute mapped then Some (ck_now ck) else dp_closed_at x)\<rparr>
                 in rbind (save_dispute x1 d) (\<lambda>d.
                    Inr (dispute_settled mapped x1 pm
                           (audit_log None ''dispute.status_changed'' ''dispute'' [KI (dp_id x)] d))))
      | (_, pdid) \<Rightarrow>
          Inr (reconcile UNMATCHED_DISPUTE [KS ''unmatched_dispute'', KS (case pdid of None \<Rightarrow> we_event_id ev | Some i \<Rightarrow> i)]
                 None None (if we_provider_payment_id ev \<noteq> [] then Some (we_provider_payment_id ev) else None) d))"

end
