(* ===== verification/Payments.thy ===== *)
theory Payments
  imports Lifecycle
begin

text \<open>
  \<open>payments/services/payment_service.py\<close> (starting a payment, webhook events), the provider choice of
  \<open>provider_resolver.py\<close>, the failure record of \<open>webhook_recovery.py\<close> and the jobs of \<open>payments/jobs.py\<close>.
  Adapters, signature checks and the clock are parameters. Where a request commits before it raises,
  the definition returns its error together with the database it leaves.
\<close>

section \<open>Configuration and provider choice\<close>

record provider_config =
  pc_id :: int
  pc_provider :: string
  pc_mode :: string
  pc_status :: string
  pc_credentials_status :: string
  pc_currencies :: "string list"
  pc_is_preferred :: bool

record pay_env =
  pe_stripe_secret_key :: string
  pe_enabled_currencies :: "string list"
  pe_live_enabled :: bool
  pe_live_active :: bool
  pe_configs :: "provider_config list"
  pe_build :: "provider_config \<Rightarrow> provider"
  pe_default :: provider
  pe_recovery_interval_seconds :: int
  pe_recovery_window_minutes :: int
  pe_recovery_max_attempts :: int
  pe_shop :: config
  pe_refund_max_attempts :: int

definition verified_codes :: "string list" where
  "verified_codes = map cur_code (filter cur_payment_verified CURRENCIES)"

text \<open>\<open>spec.currencies\<close> of the registry.\<close>

definition spec_currencies :: "string \<Rightarrow> string list" where
  "spec_currencies provider = (if provider = ''razorpay'' then [''inr''] else verified_codes)"

definition live_payments_active :: "pay_env \<Rightarrow> bool" where
  "live_payments_active env \<longleftrightarrow> pe_live_enabled env \<and> pe_live_active env"

definition select_for_new_payment :: "pay_env \<Rightarrow> string \<Rightarrow> (shop_error, provider \<times> provider_config) result" where
  "select_for_new_payment env cur =
     (case find pc_is_preferred (pe_configs env) of
        None \<Rightarrow> Inl (PaymentProviderUnavailable ''no_payment_provider_selected'')
      | Some c \<Rightarrow>
          if pc_status c \<noteq> ''enabled'' then Inl (PaymentProviderUnavailable ''provider_disabled'')
          else if pc_credentials_status c \<noteq> ''valid'' then Inl (PaymentProviderUnavailable ''provider_credentials_not_valid'')
          else if str_lower cur \<notin> set (pc_currencies c) \<inter> set (spec_currencies (pc_provider c))
          then Inl (PaymentProviderUnavailable ''provider_currency_not_supported'')
          else if pc_mode c = ''live'' \<and> \<not> live_payments_active env
          then Inl (PaymentProviderUnavailable ''provider_mode_not_allowed'')
          else if pc_provider c = ''demo'' \<and> live_payments_active env
          then Inl (PaymentProviderUnavailable ''provider_mode_not_allowed'')
          else Inr (pe_build env c, c))"

definition resolver_of :: "pay_env \<Rightarrow> resolver" where
  "resolver_of env = (\<lambda>i. map_option (pe_build env) (row pc_id i (pe_configs env)), pe_default env)"

definition select_provider :: "pay_env \<Rightarrow> string \<Rightarrow> (shop_error, provider \<times> provider_config option) result" where
  "select_provider env cur =
     (if pe_configs env \<noteq> [] then rbind (select_for_new_payment env cur) (\<lambda>(p, c). Inr (p, Some c))
      else Inr (pe_default env, None))"

definition starts_with :: "string \<Rightarrow> string \<Rightarrow> bool" where
  "starts_with p s \<longleftrightarrow> take (length p) s = p"

definition assert_live_payments_allowed :: "pay_env \<Rightarrow> (shop_error, unit) result" where
  "assert_live_payments_allowed env =
     guard (\<not> (starts_with ''sk_live_'' (pe_stripe_secret_key env) \<or> starts_with ''rk_live_'' (pe_stripe_secret_key env)))
       LivePaymentsDisabled"

definition supports_currency :: "string \<Rightarrow> bool" where
  "supports_currency code \<longleftrightarrow> str_lower (str_strip code) \<in> set verified_codes"

definition assert_currency_payable :: "pay_env \<Rightarrow> string \<Rightarrow> (shop_error, currency) result" where
  "assert_currency_payable env code =
     rbind (lift_err MoneyError (get_currency code)) (\<lambda>c.
     if \<not> supports_currency (cur_code c) then Inl (MoneyError (CurrencyNotPayable (cur_code c) ''payment_currency_not_verified''))
     else if cur_code c \<notin> set (pe_enabled_currencies env)
     then Inl (MoneyError (CurrencyNotPayable (cur_code c) ''payment_currency_not_enabled''))
     else Inr c)"

section \<open>Review records\<close>

text \<open>\<open>a or b\<close> of a payment's id and a provider's id, as a part of a key.\<close>

definition id_part :: "int option \<Rightarrow> string option \<Rightarrow> key_part" where
  "id_part pid ppid = (case pid of Some i \<Rightarrow> KI i | None \<Rightarrow> (case ppid of Some s \<Rightarrow> KS s | None \<Rightarrow> KN))"

definition flag_for_review ::
  "string \<Rightarrow> int option \<Rightarrow> reconciliation_kind \<Rightarrow> int option \<Rightarrow> string option \<Rightarrow> string option \<Rightarrow> key option \<Rightarrow> db \<Rightarrow> db" where
  "flag_for_review action pid kind oid ppid detail_ppid dedupe d =
     (let d1 = audit_log None action ''payment'' [case pid of Some i \<Rightarrow> KI i | None \<Rightarrow> KN] d;
          k = (case dedupe of Some k \<Rightarrow> k | None \<Rightarrow> [KS (kind_name kind), id_part pid ppid])
      in reconcile kind k (Option.bind pid (\<lambda>i. get_payment i d1)) oid
           (if truthy_text ppid then ppid else detail_ppid) d1)"

section \<open>Starting a payment\<close>

definition assert_order_payable :: "order \<Rightarrow> (shop_error, unit) result" where
  "assert_order_payable ord = guard (o_status ord = PENDING) OrderNotPayable"

record payment_plan =
  pp_currency :: string
  pp_stripe_amount :: int
  pp_total :: int
  pp_reuse :: "payment option"
  pp_provider :: provider
  pp_config_id :: "int option"
  pp_key :: key

definition plan_payment :: "pay_env \<Rightarrow> int \<Rightarrow> db \<Rightarrow> (shop_error, payment_plan) result" where
  "plan_payment env oid d =
     rbind (lock_order_for_update oid d) (\<lambda>ord.
     rbind (assert_order_payable ord) (\<lambda>_.
     case o_currency ord of
       None \<Rightarrow> Inl OrderNotPayable
     | Some cur \<Rightarrow>
         rbind (select_provider env cur) (\<lambda>(pv, config).
         rbind (if config = None then assert_currency_payable env cur else lift_err MoneyError (get_currency cur)) (\<lambda>c.
         rbind (lift_err MoneyError (to_stripe_amount (PyInt (o_total_cents ord)) (cur_code c))) (\<lambda>stripe_amount.
         let existing = list_for_order (o_id ord) d in
         if list_ex (\<lambda>p. pm_status p = PaySucceeded) existing then Inl OrderNotPayable
         else
           let reusable = find (\<lambda>p. pm_status p \<in> {PayPending, PayFailed}) existing in
           if (case reusable of None \<Rightarrow> False
               | Some p \<Rightarrow> pm_currency p \<noteq> cur_code c \<or> pm_amount_cents p \<noteq> o_total_cents ord)
           then Inl PaymentInconsistent
           else Inr \<lparr>pp_currency = cur_code c, pp_stripe_amount = stripe_amount, pp_total = o_total_cents ord,
                     pp_reuse = reusable, pp_provider = pv, pp_config_id = map_option pc_id config,
                     pp_key = [KS ''order'', KI (o_id ord), KS ''intent'', KI (int (length existing))]\<rparr>)))))"

definition OPEN_INTENT_STATUSES :: "string list" where
  "OPEN_INTENT_STATUSES =
     [''requires_payment_method'', ''requires_confirmation'', ''requires_action'', ''processing'', ''requires_capture'']"

type_synonym 'a reply = "(shop_error, 'a) result \<times> db"

text \<open>Retiring an intent nobody was given: flagged for a human where the provider cannot say it is cancelled.\<close>

definition cancel_orphan_intent :: "provider \<Rightarrow> string \<Rightarrow> int \<Rightarrow> db \<Rightarrow> db" where
  "cancel_orphan_intent pv ppid oid d =
     (let flagged = flag_for_review ''payment.orphan_intent'' None CANCEL_UNCERTAIN (Some oid) (Some ppid) (Some ppid) None d in
      if \<not> pv_supports_cancel pv then flagged
      else (case pv_cancel pv ppid [KS ''cancel-orphan'', KS ppid] of None \<Rightarrow> flagged | Some _ \<Rightarrow> d))"

definition insert_payment :: "payment \<Rightarrow> db \<Rightarrow> (shop_error, db) result" where
  "insert_payment pm d =
     (if \<not> payment_checks pm d \<or> row o_id (pm_order_id pm) (d_orders d) = None then Inl (IntegrityError ''payments'')
      else Inr (d\<lparr>d_payments := d_payments d @ [pm]\<rparr>))"

definition new_payment :: "payment_plan \<Rightarrow> int \<Rightarrow> string \<Rightarrow> int \<Rightarrow> payment" where
  "new_payment plan oid ppid i =
     \<lparr>pm_id = i, pm_order_id = oid, pm_provider = pv_name (pp_provider plan), pm_provider_config_id = pp_config_id plan,
      pm_provider_reference = None, pm_provider_payment_id = ppid, pm_status = PayPending,
      pm_amount_cents = pp_total plan, pm_currency = pp_currency plan, pm_provider_refund_id = None,
      pm_refunded_amount_cents = None\<rparr>"

definition record_new_payment :: "pay_env \<Rightarrow> int \<Rightarrow> payment_plan \<Rightarrow> string \<times> string \<Rightarrow> db \<Rightarrow> (payment \<times> string) reply" where
  "record_new_payment env oid plan intent d =
     (let (ppid, secret) = intent in
      case lock_order_for_update oid d of
        Inl e \<Rightarrow> (Inl e, d)
      | Inr ord \<Rightarrow>
          if o_status ord \<noteq> PENDING \<or> list_ex (\<lambda>p. pm_status p = PaySucceeded) (list_for_order oid d)
          then (Inl OrderNotPayable, cancel_orphan_intent (pp_provider plan) ppid oid d)
          else (case get_by_provider_payment_id ppid (Some (pv_name (pp_provider plan))) d of
             Some existing \<Rightarrow> (Inr (existing, secret), d)
           | None \<Rightarrow>
               (case find (\<lambda>p. pm_status p = PayPending) (list_for_order oid d) of
                  Some winner \<Rightarrow>
                    let d1 = cancel_orphan_intent (pp_provider plan) ppid oid d;
                        wp = provider_for (resolver_of env) (pm_provider_config_id winner)
                    in (case pv_retrieve wp (pm_provider_payment_id winner) of
                          None \<Rightarrow> (Inl ProviderError, d1)
                        | Some (status, wsecret) \<Rightarrow>
                            if status \<notin> set OPEN_INTENT_STATUSES then (Inl OrderNotPayable, d1)
                            else (Inr (winner, wsecret), d1))
                | None \<Rightarrow>
                    let (i, d1) = fresh d; pm = new_payment plan oid ppid i in
                    (case insert_payment pm d1 of Inl e \<Rightarrow> (Inl e, d) | Inr d2 \<Rightarrow> (Inr (pm, secret), d2)))))"

definition create_new_payment :: "pay_env \<Rightarrow> (db \<Rightarrow> db) \<Rightarrow> int \<Rightarrow> payment_plan \<Rightarrow> db \<Rightarrow> (payment \<times> string) reply" where
  "create_new_payment env meanwhile oid plan d =
     (case pv_create (pp_provider plan) (pp_stripe_amount plan) (pp_currency plan) (pp_key plan) of
        None \<Rightarrow> (Inl ProviderError, d)
      | Some intent \<Rightarrow> record_new_payment env oid plan intent (meanwhile d))"

text \<open>The continuation of an existing payment: \<open>Inr None\<close> is ``its intent is dead, create a fresh one''.\<close>

definition reuse_payment :: "int \<Rightarrow> payment \<Rightarrow> string \<times> string \<Rightarrow> db \<Rightarrow> (shop_error, (payment \<times> string) option \<times> db) result" where
  "reuse_payment oid reusable0 intent d =
     (let (status, secret) = intent in
      rbind (lock_order_for_update oid d) (\<lambda>ord.
      rbind (assert_order_payable ord) (\<lambda>_.
      case get_payment (pm_id reusable0) d of
        None \<Rightarrow> Inl TypeError
      | Some reusable \<Rightarrow>
          if status = ''succeeded''
          then rbind (if pm_status reusable \<noteq> PaySucceeded then rbind (update_payment_status reusable PaySucceeded d) (\<lambda>(_, d). Inr d)
                      else Inr d) (\<lambda>_. Inl OrderNotPayable)
          else if status \<in> set OPEN_INTENT_STATUSES
          then (if pm_status reusable \<noteq> PayPending
                then rbind (update_payment_status reusable PayPending d) (\<lambda>(p, d). Inr (Some (p, secret), d))
                else Inr (Some (reusable, secret), d))
          else (if pm_status reusable \<noteq> PayFailed
                then rbind (update_payment_status reusable PayFailed d) (\<lambda>(_, d). Inr (None, d))
                else Inr (None, d)))))"

text \<open>\<open>who\<close>: a signed-in user, or a guest with the capability of the order.\<close>

definition authorize_payment ::
  "(string \<Rightarrow> string) \<Rightarrow> config \<Rightarrow> int \<Rightarrow> int + string \<Rightarrow> int \<Rightarrow> db \<Rightarrow> (shop_error, order) result" where
  "authorize_payment sha cfg oid who now d =
     (case who of Inl user \<Rightarrow> get_order oid user False d | Inr token \<Rightarrow> authorize_guest_payment sha cfg oid token now d)"

definition create_payment_for_order ::
  "(string \<Rightarrow> string) \<Rightarrow> pay_env \<Rightarrow> (db \<Rightarrow> db) \<Rightarrow> (db \<Rightarrow> db) \<Rightarrow> int \<Rightarrow> int + string \<Rightarrow> int \<Rightarrow> db \<Rightarrow> (payment \<times> string) reply" where
  "create_payment_for_order sha env meanwhile1 meanwhile2 oid who now d =
     (case rbind (assert_live_payments_allowed env) (\<lambda>_. rbind (authorize_payment sha (pe_shop env) oid who now d) (\<lambda>ord. plan_payment env (o_id ord) d)) of
        Inl e \<Rightarrow> (Inl e, d)
      | Inr plan \<Rightarrow>
          (case pp_reuse plan of
             None \<Rightarrow> create_new_payment env meanwhile2 oid plan d
           | Some reusable \<Rightarrow>
               (case pv_retrieve (provider_for (resolver_of env) (pm_provider_config_id reusable)) (pm_provider_payment_id reusable) of
                  None \<Rightarrow> (Inl ProviderError, d)
                | Some intent \<Rightarrow>
                    let d1 = meanwhile1 d in
                    (case reuse_payment oid reusable intent d1 of
                       Inl e \<Rightarrow> (Inl e, d1)
                     | Inr (Some r, d2) \<Rightarrow> (Inr r, d2)
                     | Inr (None, d2) \<Rightarrow> create_new_payment env meanwhile2 oid plan d2))))"

section \<open>Webhook events\<close>

datatype verdict = Verified webhook_event | BadSignature | BadPayload

text \<open>
  \<open>_verify_webhook\<close>: the stored secrets of the named provider in turn (each verifier carries the id of
  its configuration), or the environment's provider when there is none.
\<close>

fun try_verifiers :: "string \<Rightarrow> (int \<times> (string \<Rightarrow> string \<Rightarrow> verdict)) list \<Rightarrow> string \<Rightarrow> string \<Rightarrow> (shop_error, webhook_event) result" where
  "try_verifiers name [] payload signature = Inl InvalidWebhookSignature"
| "try_verifiers name ((cid, check) # vs) payload signature =
     (case check payload signature of
        BadSignature \<Rightarrow> try_verifiers name vs payload signature
      | BadPayload \<Rightarrow> Inl InvalidWebhookPayload
      | Verified ev \<Rightarrow> Inr (ev\<lparr>we_provider := name, we_config_id := Some cid\<rparr>))"

definition verify_webhook ::
  "pay_env \<Rightarrow> (string \<Rightarrow> (int \<times> (string \<Rightarrow> string \<Rightarrow> verdict)) list) \<Rightarrow> (string \<Rightarrow> string \<Rightarrow> verdict)
     \<Rightarrow> string option \<Rightarrow> string \<Rightarrow> string \<Rightarrow> (shop_error, webhook_event) result" where
  "verify_webhook env verifiers default_check provider_name payload signature =
     (let name = (if truthy_text provider_name then the provider_name else pv_name (pe_default env)) in
      if list_ex (\<lambda>c. pc_provider c = name) (pe_configs env) then try_verifiers name (verifiers name) payload signature
      else if name \<noteq> pv_name (pe_default env) then Inl NotFound
      else (case default_check payload signature of
              Verified ev \<Rightarrow> Inr ev | BadSignature \<Rightarrow> Inl InvalidWebhookSignature | BadPayload \<Rightarrow> Inl InvalidWebhookPayload))"

definition event_key :: "webhook_event \<Rightarrow> string \<times> string" where
  "event_key ev = (we_provider ev, we_event_id ev)"

definition claim_webhook_event :: "webhook_event \<Rightarrow> db \<Rightarrow> bool \<times> db" where
  "claim_webhook_event ev d =
     (case row pe_key (event_key ev) (d_processed_events d) of
        None \<Rightarrow> (True, d\<lparr>d_processed_events := d_processed_events d @
                  [\<lparr>pe_key = event_key ev, pe_event_type = we_event_type ev, pe_status = ''processing'', pe_attempts = 1,
                    pe_last_error = None, pe_processed_at = None\<rparr>]\<rparr>)
      | Some r \<Rightarrow>
          if pe_status r = ''failed''
          then (True, d\<lparr>d_processed_events := set_row pe_key
                  (r\<lparr>pe_status := ''processing'', pe_event_type := we_event_type ev, pe_attempts := pe_attempts r + 1\<rparr>)
                  (d_processed_events d)\<rparr>)
          else (False, d))"

definition finish_webhook_event :: "webhook_event \<Rightarrow> string \<Rightarrow> int \<Rightarrow> db \<Rightarrow> db" where
  "finish_webhook_event ev status now d =
     (case row pe_key (event_key ev) (d_processed_events d) of
        None \<Rightarrow> d
      | Some r \<Rightarrow> d\<lparr>d_processed_events := set_row pe_key
                    (r\<lparr>pe_status := status, pe_last_error := None, pe_processed_at := Some now\<rparr>) (d_processed_events d)\<rparr>)"

text \<open>The table of deferred events has no column for the second reference nor for the configuration.\<close>

definition stored_event :: "webhook_event \<Rightarrow> webhook_event" where
  "stored_event ev = ev\<lparr>we_provider_reference := None, we_config_id := None\<rparr>"

definition SECOND :: int where
  "SECOND = 1000000"

definition defer_event :: "pay_env \<Rightarrow> webhook_event \<Rightarrow> string \<Rightarrow> int \<Rightarrow> db \<Rightarrow> db" where
  "defer_event env ev reason now d =
     (if we_provider_payment_id ev = [] then d
      else if pe_recovery_interval_seconds env \<le> 0 then d
      else if event_key ev \<in> de_key ` set (d_deferred_events d) then d
      else d\<lparr>d_deferred_events := d_deferred_events d @
             [\<lparr>de_key = event_key ev, de_event = stored_event ev, de_status = ''pending'', de_attempts = 0,
               de_next_attempt_at = now + max (pe_recovery_interval_seconds env) 1 * SECOND,
               de_expires_at = now + pe_recovery_window_minutes env * MINUTE,
               de_last_reason = take 300 reason, de_resolved_at = None\<rparr>]\<rparr>)"

definition defer_if_payment_unknown :: "pay_env \<Rightarrow> webhook_event \<Rightarrow> string \<Rightarrow> int \<Rightarrow> db \<Rightarrow> db" where
  "defer_if_payment_unknown env ev reason now d =
     (if we_provider_payment_id ev \<noteq> []
         \<and> get_by_provider_payment_id (we_provider_payment_id ev) (Some (we_provider ev)) d = None
      then defer_event env ev reason now d else d)"

definition event_matches_payment :: "webhook_event \<Rightarrow> payment \<Rightarrow> db \<Rightarrow> bool \<times> db" where
  "event_matches_payment ev pm d =
     (let ppid = Some (we_provider_payment_id ev); pid = Some (pm_id pm) in
      if we_config_id ev \<noteq> None \<and> pm_provider_config_id pm \<noteq> None \<and> pm_provider_config_id pm \<noteq> we_config_id ev
      then (False, flag_for_review ''payment.config_mismatch'' pid ORDER_MISMATCH None None ppid None d)
      else if we_amount ev = None \<or> we_currency ev = None
      then (False, flag_for_review ''payment.unverifiable_success'' pid UNVERIFIABLE_PAYMENT None None ppid None d)
      else
        let expected = (case to_stripe_amount (PyInt (pm_amount_cents pm)) (pm_currency pm) of Inl _ \<Rightarrow> None | Inr a \<Rightarrow> Some a);
            received_ok = (we_amount_received ev = None \<or> we_amount_received ev = expected)
        in if expected = None \<or> we_amount ev \<noteq> expected \<or> \<not> received_ok \<or> we_currency ev \<noteq> Some (pm_currency pm)
           then (False, flag_for_review ''payment.amount_mismatch'' pid AMOUNT_MISMATCH None None ppid None d)
           else (case get_order_by_id (pm_order_id pm) d of
                   Some ord \<Rightarrow>
                     if o_total_cents ord \<noteq> pm_amount_cents pm \<or> (o_currency ord \<noteq> None \<and> o_currency ord \<noteq> Some (pm_currency pm))
                     then (False, flag_for_review ''payment.order_mismatch'' pid ORDER_MISMATCH None None ppid None d)
                     else (True, d)
                 | None \<Rightarrow> (True, d)))"

text \<open>The payment is recorded as received; a changed reference is written with it.\<close>

definition receive_payment :: "webhook_event \<Rightarrow> payment \<Rightarrow> db \<Rightarrow> (shop_error, payment \<times> db) result" where
  "receive_payment ev pm d =
     (let pm1 = (if truthy_text (we_provider_reference ev) \<and> pm_provider_reference pm = None
                 then pm\<lparr>pm_provider_reference := we_provider_reference ev\<rparr> else pm)
      in if pm_status pm1 \<noteq> PaySucceeded then update_payment_status pm1 PaySucceeded d
         else if pm1 \<noteq> pm then rbind (flush_payment pm1 d) (\<lambda>d. Inr (pm1, d))
         else Inr (pm1, d))"

definition handle_payment_succeeded :: "pay_env \<Rightarrow> webhook_event \<Rightarrow> clock \<Rightarrow> db \<Rightarrow> (shop_error, db) result" where
  "handle_payment_succeeded env ev ck d =
     (let ppid = we_provider_payment_id ev in
      case get_by_provider_payment_id ppid (Some (we_provider ev)) d of
        None \<Rightarrow> Inr (defer_event env ev ''no payment record for this provider payment id yet'' (ck_now ck)
                  (flag_for_review ''payment.unmatched_success'' None UNMATCHED_PAYMENT None (Some ppid) (Some ppid) None d))
      | Some pm0 \<Rightarrow>
          let (matches, d1) = event_matches_payment ev pm0 d in
          if \<not> matches then Inr d1
          else rbind (receive_payment ev pm0 d1) (\<lambda>(pm, d2).
            case get_order_by_id (pm_order_id pm) d2 of
              None \<Rightarrow> Inr (flag_for_review ''payment.order_missing'' (Some (pm_id pm)) ORDER_MISMATCH None None None None d2)
            | Some ord \<Rightarrow>
                if o_status ord \<noteq> PENDING
                then Inr (flag_for_review ''payment.late_unreconciled'' (Some (pm_id pm)) LATE_PAYMENT None None (Some ppid) None d2)
                else rbind (mark_paid ord pm ck d2) (\<lambda>(marked, d3).
                     Inr (if marked then enqueue ''send_order_confirmation'' [KI (o_id ord)] (Some [KS ''order-confirmation'', KI (o_id ord)]) d3
                          else d3))))"

definition handle_payment_failed :: "string \<Rightarrow> string option \<Rightarrow> db \<Rightarrow> (shop_error, db) result" where
  "handle_payment_failed ppid provider d =
     (case get_by_provider_payment_id ppid provider d of
        None \<Rightarrow> Inr d
      | Some pm \<Rightarrow> if pm_status pm = PaySucceeded then Inr d
                   else rbind (update_payment_status pm PayFailed d) (\<lambda>(_, d). Inr d))"

text \<open>The refund an event is about, and the provider's payment id it is then handled under.\<close>

definition find_refund :: "webhook_event \<Rightarrow> db \<Rightarrow> refund option \<times> string" where
  "find_refund ev d =
     (let ppid = we_provider_payment_id ev;
          by_id = (if truthy_text (we_provider_refund_id ev) then get_by_provider_refund_id (the (we_provider_refund_id ev)) d else None);
          by_payment = (if by_id = None \<and> ppid \<noteq> []
                        then Option.bind (get_by_provider_payment_id ppid (Some (we_provider ev)) d)
                               (\<lambda>pm. get_active_for_payment (pm_id pm) d)
                        else by_id)
      in if by_payment = None \<and> ppid = [] \<and> truthy_text (we_provider_reference ev)
         then (case get_by_provider_reference (the (we_provider_reference ev)) (we_provider ev) d of
                 None \<Rightarrow> (None, ppid)
               | Some pm \<Rightarrow> (get_active_for_payment (pm_id pm) d, pm_provider_payment_id pm))
         else (by_payment, ppid))"

definition unknown_refund :: "pay_env \<Rightarrow> webhook_event \<Rightarrow> string \<Rightarrow> int \<Rightarrow> db \<Rightarrow> db" where
  "unknown_refund env ev ppid now d =
     (let ev1 = ev\<lparr>we_provider_payment_id := ppid\<rparr>;
          d1 = defer_if_payment_unknown env ev1 ''refund event for a payment we have no record of yet'' now d
      in flag_for_review ''payment.unknown_refund'' None REFUND_MISMATCH None (Some ppid) (Some ppid)
           (Some [KS ''unknown_refund'', case we_provider_refund_id ev of None \<Rightarrow> KN | Some i \<Rightarrow> KS i]) d1)"

definition handle_refund_event :: "pay_env \<Rightarrow> webhook_event \<Rightarrow> clock \<Rightarrow> db \<Rightarrow> (shop_error, db) result" where
  "handle_refund_event env ev ck d =
     (let (found, ppid) = find_refund ev d in
      case found of
        Some r \<Rightarrow>
          (case get_refund (rf_id r) d of
             None \<Rightarrow> Inl TypeError
           | Some locked \<Rightarrow> apply_refund_state locked (we_refund_status ev) (we_amount ev) (we_currency ev) (we_provider_refund_id ev) ck d)
      | None \<Rightarrow>
          if we_refund_status ev = Some ''succeeded'' \<and> ppid \<noteq> []
          then (case get_by_provider_payment_id ppid (Some (we_provider ev)) d of
                  Some pm \<Rightarrow>
                    if truthy_text (we_provider_refund_id ev)
                    then rbind (record_external_refund pm (the (we_provider_refund_id ev)) (we_amount ev) (we_currency ev) d) (\<lambda>(_, d). Inr d)
                    else Inr (unknown_refund env ev ppid (ck_now ck) d)
                | None \<Rightarrow> Inr (unknown_refund env ev ppid (ck_now ck) d))
          else Inr (unknown_refund env ev ppid (ck_now ck) d))"

definition handle_dispute_event :: "pay_env \<Rightarrow> webhook_event \<Rightarrow> clock \<Rightarrow> db \<Rightarrow> (shop_error, db) result" where
  "handle_dispute_event env ev ck d =
     rbind (apply_dispute_event ev ck d) (\<lambda>d.
     Inr (defer_if_payment_unknown env ev ''dispute event for a payment we have no record of yet'' (ck_now ck) d))"

definition SUCCEEDED_EVENT :: string where
  "SUCCEEDED_EVENT = ''payment_intent.succeeded''"

definition FAILED_EVENT :: string where
  "FAILED_EVENT = ''payment_intent.payment_failed''"

definition dispatch_event :: "pay_env \<Rightarrow> webhook_event \<Rightarrow> clock \<Rightarrow> db \<Rightarrow> (shop_error, bool \<times> db) result" where
  "dispatch_event env ev ck d =
     (if we_event_type ev = SUCCEEDED_EVENT then rbind (handle_payment_succeeded env ev ck d) (\<lambda>d. Inr (True, d))
      else if we_event_type ev = FAILED_EVENT
      then rbind (handle_payment_failed (we_provider_payment_id ev) (Some (we_provider ev)) d) (\<lambda>d. Inr (True, d))
      else if starts_with ''refund.'' (we_event_type ev) then rbind (handle_refund_event env ev ck d) (\<lambda>d. Inr (True, d))
      else if starts_with ''charge.dispute.'' (we_event_type ev) then rbind (handle_dispute_event env ev ck d) (\<lambda>d. Inr (True, d))
      else Inr (False, d))"

definition process_webhook_event :: "pay_env \<Rightarrow> webhook_event \<Rightarrow> clock \<Rightarrow> db \<Rightarrow> (shop_error, db) result" where
  "process_webhook_event env ev ck d =
     (let (claimed, d1) = claim_webhook_event ev d in
      if \<not> claimed then Inr d1
      else rbind (dispatch_event env ev ck d1) (\<lambda>(handled, d2).
           Inr (finish_webhook_event ev (if handled then ''processed'' else ''ignored'') (ck_now ck) d2)))"

definition record_failed_event :: "webhook_event \<Rightarrow> string \<Rightarrow> db \<Rightarrow> db" where
  "record_failed_event ev message d =
     (case row pe_key (event_key ev) (d_processed_events d) of
        None \<Rightarrow> d\<lparr>d_processed_events := d_processed_events d @
                  [\<lparr>pe_key = event_key ev, pe_event_type = we_event_type ev, pe_status = ''failed'', pe_attempts = 1,
                    pe_last_error = Some message, pe_processed_at = None\<rparr>]\<rparr>
      | Some r \<Rightarrow>
          if pe_status r = ''failed''
          then d\<lparr>d_processed_events := set_row pe_key (r\<lparr>pe_status := ''failed'', pe_attempts := pe_attempts r + 1,
                    pe_last_error := Some message\<rparr>) (d_processed_events d)\<rparr>
          else d)"

text \<open>
  One delivery of a verified event: what it did, or, when handling raised, the rolled-back database
  with the failure recorded in a transaction of its own.
\<close>

definition handle_webhook :: "pay_env \<Rightarrow> (shop_error \<Rightarrow> string) \<Rightarrow> webhook_event \<Rightarrow> clock \<Rightarrow> db \<Rightarrow> unit reply" where
  "handle_webhook env message ev ck d =
     (case process_webhook_event env ev ck d of
        Inr d' \<Rightarrow> (Inr (), d')
      | Inl e \<Rightarrow> (Inl e, record_failed_event ev (take 500 (message e)) d))"

section \<open>Jobs\<close>

definition apply_deferred_event :: "pay_env \<Rightarrow> webhook_event \<Rightarrow> clock \<Rightarrow> db \<Rightarrow> (shop_error, db) result" where
  "apply_deferred_event env ev ck d =
     (if we_event_type ev = SUCCEEDED_EVENT then handle_payment_succeeded env ev ck d
      else if starts_with ''refund.'' (we_event_type ev) then handle_refund_event env ev ck d
      else if starts_with ''charge.dispute.'' (we_event_type ev) then apply_dispute_event ev ck d
      else Inr d)"

definition save_deferred :: "deferred_event \<Rightarrow> db \<Rightarrow> db" where
  "save_deferred r d = d\<lparr>d_deferred_events := set_row de_key r (d_deferred_events d)\<rparr>"

definition claim_due_deferred :: "int \<Rightarrow> nat \<Rightarrow> db \<Rightarrow> deferred_event list" where
  "claim_due_deferred now limit d =
     take limit (sort_key de_next_attempt_at
       (filter (\<lambda>r. de_status r = ''pending'' \<and> de_next_attempt_at r \<le> now) (d_deferred_events d)))"

definition part_of :: "string option \<Rightarrow> key_part" where
  "part_of t = (case t of None \<Rightarrow> KN | Some s \<Rightarrow> KS s)"

definition RECOVERED_NOTE :: string where
  "RECOVERED_NOTE = ''Recovered automatically: the payment record appeared and the event was applied''"

definition reprocess_one :: "pay_env \<Rightarrow> (shop_error \<Rightarrow> string) \<Rightarrow> clock \<Rightarrow> deferred_event \<Rightarrow> db \<Rightarrow> db" where
  "reprocess_one env message ck r d =
     (let now = ck_now ck; ev = de_event r;
          later = now + max (pe_recovery_interval_seconds env) 1 * SECOND;
          r1 = r\<lparr>de_attempts := de_attempts r + 1\<rparr>
      in if get_by_provider_payment_id (we_provider_payment_id ev) (Some (we_provider ev)) d = None
         then (if pe_recovery_max_attempts env \<le> de_attempts r1 \<or> de_expires_at r \<le> now
               then audit_log None ''webhook.deferred_event_expired'' ''webhook_event'' [KS (we_event_id ev)]
                      (save_deferred (r1\<lparr>de_status := ''expired'', de_resolved_at := Some now,
                         de_last_reason := ''gave up: the payment record never appeared within the recovery bounds''\<rparr>) d)
               else save_deferred (r1\<lparr>de_next_attempt_at := later\<rparr>) d)
         else (case apply_deferred_event env ev ck d of
                 Inr d1 \<Rightarrow>
                   let d2 = save_deferred (r1\<lparr>de_status := ''recovered'', de_resolved_at := Some now,
                              de_last_reason := ''applied once the payment record appeared''\<rparr>) d1;
                       d3 = fold (\<lambda>k. resolve_by_dedupe_key k RECOVERED_NOTE now)
                              [[KS ''unmatched_payment'', KS (we_provider_payment_id ev)],
                               [KS ''unknown_refund'', part_of (we_provider_refund_id ev)],
                               [KS ''unmatched_dispute'', part_of (we_provider_dispute_id ev)]] d2
                   in audit_log None ''webhook.deferred_event_recovered'' ''webhook_event'' [KS (we_event_id ev)] d3
               | Inl e \<Rightarrow>
                   let r2 = r1\<lparr>de_last_reason := take 300 (message e)\<rparr> in
                   if pe_recovery_max_attempts env \<le> de_attempts r2
                   then save_deferred (r2\<lparr>de_status := ''expired'', de_resolved_at := Some now\<rparr>) d
                   else save_deferred (r2\<lparr>de_next_attempt_at := later\<rparr>) d))"

definition reprocess_deferred_events :: "pay_env \<Rightarrow> (shop_error \<Rightarrow> string) \<Rightarrow> clock \<Rightarrow> db \<Rightarrow> db" where
  "reprocess_deferred_events env message ck d =
     fold (reprocess_one env message ck) (claim_due_deferred (ck_now ck) 50 d) d"

definition order_cutoff :: "pay_env \<Rightarrow> int \<Rightarrow> int" where
  "order_cutoff env now = now - cf_pending_order_timeout_minutes (pe_shop env) * MINUTE"

definition sweep_stale_orders :: "pay_env \<Rightarrow> int \<Rightarrow> db \<Rightarrow> db" where
  "sweep_stale_orders env now d =
     (let bucket = now div (3600 * SECOND) in
      fold (\<lambda>oid. enqueue ''expire_order'' [KI oid] (Some [KS ''expire-order'', KI oid, KI bucket]))
        (list_stale_pending_order_ids (order_cutoff env now) d) d)"

definition expire_order :: "pay_env \<Rightarrow> (db \<Rightarrow> db) \<Rightarrow> int \<Rightarrow> clock \<Rightarrow> db \<Rightarrow> unit reply" where
  "expire_order env meanwhile oid ck d =
     (case get_order_by_id oid d of
        None \<Rightarrow> (Inr (), d)
      | Some ord \<Rightarrow>
          if o_status ord \<noteq> PENDING \<or> order_cutoff env (ck_now ck) \<le> o_created_at ord then (Inr (), d)
          else (case cancel_order (resolver_of env) meanwhile oid None ''unpaid order expired'' ck d of
                  Inl e \<Rightarrow> (Inl e, meanwhile d)
                | Inr (outcome, _, d') \<Rightarrow> (if outcome = ''uncertain'' then Inl RuntimeError else Inr (), d')))"

definition execute_refund ::
  "pay_env \<Rightarrow> (string \<Rightarrow> string) \<Rightarrow> (db \<Rightarrow> db) \<Rightarrow> string \<Rightarrow> int \<Rightarrow> clock \<Rightarrow> db \<Rightarrow> unit reply" where
  "execute_refund env redact meanwhile error rid ck d =
     (case begin_refund_attempt rid d of
        Inl e \<Rightarrow> (Inl e, d)
      | Inr (None, d1) \<Rightarrow> (Inr (), d1)
      | Inr (Some a, d1) \<Rightarrow>
          let d2 = meanwhile d1 in
          (case pv_refund (provider_for (resolver_of env) (ra_provider_config_id a)) (ra_provider_payment_id a) (ra_amount a)
                  (ra_currency a) (ra_idempotency_key a) of
             None \<Rightarrow>
               (case record_refund_attempt_failed redact (pe_refund_max_attempts env) rid error d2 of
                  Inl e \<Rightarrow> (Inl e, d2)
                | Inr (outcome, d3) \<Rightarrow> (if outcome = ''retry'' then Inl ProviderError else Inr (), d3))
           | Some result \<Rightarrow>
               (case finish_refund rid result ck d2 of Inl e \<Rightarrow> (Inl e, d2) | Inr d3 \<Rightarrow> (Inr (), d3))))"

end
