(* ===== verification/Shipments.thy ===== *)
theory Shipments
  imports Payments
begin

text \<open>
  Recording parcels against orders (\<open>shipments/services/shipment_service.py\<close>, its repository, the
  constraints of \<open>order_shipments\<close> and the validation of carrier names and tracking numbers).
\<close>

section \<open>Validation\<close>

definition is_alnum :: "char \<Rightarrow> bool" where
  "is_alnum c \<longleftrightarrow> (let n = char_code c in 48 \<le> n \<and> n \<le> 57 \<or> 65 \<le> n \<and> n \<le> 90 \<or> 97 \<le> n \<and> n \<le> 122)"

definition control_char :: "char \<Rightarrow> bool" where
  "control_char c \<longleftrightarrow> (let n = char_code c in n \<le> 31 \<or> n = 127)"

text \<open>\<open>re.sub(r"\s+", " ", value)\<close>: every run of white space becomes one blank.\<close>

fun squeeze :: "string \<Rightarrow> string" where
  "squeeze [] = []"
| "squeeze [c] = (if is_space c then '' '' else [c])"
| "squeeze (c # d # s) = (if is_space c then (if is_space d then squeeze (d # s) else CHR '' '' # squeeze (d # s)) else c # squeeze (d # s))"

text \<open>A first character and between \<open>lo\<close> and \<open>hi\<close> further ones (the two patterns are of this form).\<close>

definition word_shape :: "(char \<Rightarrow> bool) \<Rightarrow> (char \<Rightarrow> bool) \<Rightarrow> nat \<Rightarrow> nat \<Rightarrow> string \<Rightarrow> bool" where
  "word_shape first rest lo hi s \<longleftrightarrow>
     (case s of [] \<Rightarrow> False | c # cs \<Rightarrow> first c \<and> list_all rest cs \<and> lo \<le> length cs \<and> length cs \<le> hi)"

definition carrier_name :: "string \<Rightarrow> (shop_error, string) result" where
  "carrier_name value =
     (let cleaned = str_strip (squeeze value) in
      if list_ex control_char value \<or>
         \<not> word_shape is_alnum (\<lambda>c. is_alnum c \<or> c \<in> set '' .&'' \<or> char_code c = 39 \<or> c \<in> set ''()/-'') 1 59 cleaned
      then Inl ValueError else Inr cleaned)"

definition tracking_number :: "string \<Rightarrow> (shop_error, string) result" where
  "tracking_number value =
     (let cleaned = str_strip value in
      if word_shape is_alnum (\<lambda>c. is_alnum c \<or> c \<in> set ''._/-'') 2 63 cleaned then Inr cleaned else Inl ValueError)"

section \<open>The table\<close>

text \<open>The CHECK constraints and the unique tracking index; a row is not compared with itself.\<close>

definition shipment_checks :: "shipment \<Rightarrow> db \<Rightarrow> bool" where
  "shipment_checks s d \<longleftrightarrow>
     sh_status s \<in> {''shipped'', ''delivered''} \<and> (sh_status s = ''delivered'' \<longleftrightarrow> sh_delivered_at s \<noteq> None)
     \<and> (sh_tracking_number s = None \<or>
        \<not> list_ex (\<lambda>x. sh_id x \<noteq> sh_id s \<and> sh_order_id x = sh_order_id s \<and> sh_carrier_name x = sh_carrier_name s
              \<and> sh_tracking_number x = sh_tracking_number s) (d_shipments d))"

definition get_shipment :: "int \<Rightarrow> int \<Rightarrow> db \<Rightarrow> shipment option" where
  "get_shipment oid sid d = find (\<lambda>s. sh_id s = sid \<and> sh_order_id s = oid) (d_shipments d)"

text \<open>Both writes run in a savepoint and report every refusal of the database as a duplicate.\<close>

definition add_shipment :: "shipment \<Rightarrow> db \<Rightarrow> (shop_error, db) result" where
  "add_shipment s d = (if shipment_checks s d then Inr (d\<lparr>d_shipments := d_shipments d @ [s]\<rparr>) else Inl DuplicateTracking)"

definition save_shipment :: "shipment \<Rightarrow> db \<Rightarrow> (shop_error, db) result" where
  "save_shipment s d =
     (if shipment_checks s d then Inr (d\<lparr>d_shipments := set_row sh_id s (d_shipments d)\<rparr>) else Inl DuplicateTracking)"

definition remove_shipment :: "shipment \<Rightarrow> db \<Rightarrow> db" where
  "remove_shipment s d = d\<lparr>d_shipments := filter (\<lambda>x. sh_id x \<noteq> sh_id s) (d_shipments d)\<rparr>"

section \<open>The service\<close>

record shipment_create =
  sc_carrier_name :: string
  sc_tracking_number :: "string option"
  sc_tracking_url :: "string option"
  sc_fulfill_order :: bool

text \<open>A change: \<open>None\<close> is a field that was not sent, \<open>Some None\<close> one that was cleared.\<close>

record shipment_update =
  sp_carrier_name :: "string option"
  sp_tracking_number :: "string option option"
  sp_tracking_url :: "string option option"
  sp_status :: "string option"

definition SHIPPABLE :: "order_status list" where
  "SHIPPABLE = [PAID, FULFILLED]"

definition new_shipment :: "int \<Rightarrow> int \<Rightarrow> shipment_create \<Rightarrow> int \<Rightarrow> int \<Rightarrow> shipment" where
  "new_shipment i oid payload admin now =
     \<lparr>sh_id = i, sh_order_id = oid, sh_carrier_name = sc_carrier_name payload, sh_tracking_number = sc_tracking_number payload,
      sh_tracking_url = sc_tracking_url payload, sh_status = ''shipped'', sh_shipped_at = now, sh_delivered_at = None,
      sh_created_by_user_id = admin\<rparr>"

text \<open>The part of \<open>create\<close> that fulfils the order on request.\<close>

definition fulfil_with_shipment :: "bool \<Rightarrow> order \<Rightarrow> int \<Rightarrow> clock \<Rightarrow> db \<Rightarrow> (shop_error, db) result" where
  "fulfil_with_shipment wanted ord admin ck d =
     (if wanted \<and> o_status ord = PAID then
        if FULFILLED \<notin> set (ALLOWED_TRANSITIONS (o_status ord)) then Inl (InvalidStatusTransition (o_status ord) FULFILLED)
        else rbind (update_status ord FULFILLED (Some admin) None (ck_now ck) d) (\<lambda>(ord, d).
             rbind (issue_invoice (ck_today ck) False ord d) (\<lambda>(_, d). Inr d))
      else Inr d)"

definition create_shipment :: "int \<Rightarrow> shipment_create \<Rightarrow> int \<Rightarrow> clock \<Rightarrow> db \<Rightarrow> (shop_error, shipment \<times> db) result" where
  "create_shipment oid payload admin ck d =
     rbind (lock_order_for_update oid d) (\<lambda>ord.
     if o_status ord \<notin> set SHIPPABLE then Inl (OrderNotShippable (o_status ord))
     else let (i, d) = fresh d; shipment = new_shipment i (o_id ord) payload admin (ck_now ck) in
       rbind (add_shipment shipment d) (\<lambda>d.
       rbind (fulfil_with_shipment (sc_fulfill_order payload) ord admin ck d) (\<lambda>d.
       Inr (shipment, audit_log (Some admin) ''shipment.created'' ''order'' [KI (o_id ord)] d))))"

definition edited_shipment :: "shipment_update \<Rightarrow> shipment \<Rightarrow> shipment" where
  "edited_shipment payload s =
     s\<lparr>sh_carrier_name := (case sp_carrier_name payload of None \<Rightarrow> sh_carrier_name s | Some v \<Rightarrow> v),
       sh_tracking_number := (case sp_tracking_number payload of None \<Rightarrow> sh_tracking_number s | Some v \<Rightarrow> v),
       sh_tracking_url := (case sp_tracking_url payload of None \<Rightarrow> sh_tracking_url s | Some v \<Rightarrow> v)\<rparr>"

definition update_shipment ::
  "int \<Rightarrow> int \<Rightarrow> shipment_update \<Rightarrow> int \<Rightarrow> int \<Rightarrow> db \<Rightarrow> (shop_error, shipment \<times> db) result" where
  "update_shipment oid sid payload admin now d =
     rbind (lock_order_for_update oid d) (\<lambda>_.
     case get_shipment oid sid d of
       None \<Rightarrow> Inl ShipmentNotFound
     | Some s0 \<Rightarrow>
         let s1 = edited_shipment payload s0 in
         rbind (case sp_status payload of
                  None \<Rightarrow> Inr s1
                | Some st \<Rightarrow> if st = sh_status s1 then Inr s1
                             else if (sh_status s1, st) \<noteq> (''shipped'', ''delivered'')
                             then Inl (InvalidShipmentStatusChange (sh_status s1) st)
                             else Inr (s1\<lparr>sh_status := ''delivered'', sh_delivered_at := Some now\<rparr>)) (\<lambda>s.
         rbind (save_shipment s d) (\<lambda>d.
         Inr (s, audit_log (Some admin) ''shipment.updated'' ''order'' [KI oid] d))))"

definition delete_shipment :: "int \<Rightarrow> int \<Rightarrow> int \<Rightarrow> db \<Rightarrow> (shop_error, db) result" where
  "delete_shipment oid sid admin d =
     rbind (lock_order_for_update oid d) (\<lambda>_.
     case get_shipment oid sid d of
       None \<Rightarrow> Inl ShipmentNotFound
     | Some s \<Rightarrow> Inr (audit_log (Some admin) ''shipment.deleted'' ''order'' [KI oid] (remove_shipment s d)))"

end
