(* ===== verification/Returns.thy ===== *)
theory Returns
  imports Shipments
begin

text \<open>
  Customer returns (\<open>returns/services/return_service.py\<close>, the request bodies of
  \<open>returns/schemas/returns.py\<close> with their validators, the endpoints of \<open>returns/api/router.py\<close>, and the
  constraints of the two tables): who may return what and until when, the administrator's handling,
  goods put back in stock, and the refund of an order that came back whole.
\<close>

section \<open>Tables\<close>

definition RETURN_STATUSES :: "string list" where
  "RETURN_STATUSES = [''requested'', ''approved'', ''rejected'', ''received'', ''closed'', ''cancelled'']"

definition RETURN_REASONS :: "string list" where
  "RETURN_REASONS = [''damaged'', ''defective'', ''wrong_item'', ''not_as_described'', ''size_or_fit'', ''changed_mind'', ''other'']"

definition RESOLUTIONS :: "string list" where
  "RESOLUTIONS = [''refunded'', ''refunded_outside'', ''replacement_sent'', ''no_refund'']"

definition OPEN :: "string list" where
  "OPEN = [''requested'', ''approved'']"

definition COUNTED :: "string list" where
  "COUNTED = [''requested'', ''approved'', ''received'', ''closed'']"

definition return_item_checks :: "return_item \<Rightarrow> bool" where
  "return_item_checks i \<longleftrightarrow> 0 < ri_quantity i \<and> ri_reason i \<in> set RETURN_REASONS
     \<and> (case ri_received_quantity i of None \<Rightarrow> True | Some q \<Rightarrow> 0 \<le> q \<and> q \<le> ri_quantity i)
     \<and> 0 \<le> ri_restocked_quantity i
     \<and> ri_restocked_quantity i \<le> (case ri_received_quantity i of None \<Rightarrow> 0 | Some q \<Rightarrow> q)"

definition return_checks :: "return_request \<Rightarrow> bool" where
  "return_checks r \<longleftrightarrow> rt_status r \<in> set RETURN_STATUSES
     \<and> (case rt_resolution r of None \<Rightarrow> True | Some x \<Rightarrow> x \<in> set RESOLUTIONS)
     \<and> (rt_status r \<noteq> ''rejected'' \<or> (case rt_rejection_reason r of None \<Rightarrow> False | Some x \<Rightarrow> 3 \<le> length (btrim x)))
     \<and> (rt_status r \<noteq> ''closed'' \<or> rt_resolution r \<noteq> None)
     \<and> (case rt_customer_comment r of None \<Rightarrow> True | Some x \<Rightarrow> length x \<le> 1000)
     \<and> distinct (map ri_order_item_id (rt_items r)) \<and> list_all return_item_checks (rt_items r)"

definition insert_return :: "return_request \<Rightarrow> db \<Rightarrow> (shop_error, db) result" where
  "insert_return r d =
     (if return_checks r then Inr (d\<lparr>d_returns := d_returns d @ [r]\<rparr>) else Inl (IntegrityError ''return_requests''))"

definition flush_return :: "return_request \<Rightarrow> db \<Rightarrow> (shop_error, db) result" where
  "flush_return r d =
     (if return_checks r then Inr (d\<lparr>d_returns := set_row rt_id r (d_returns d)\<rparr>) else Inl (IntegrityError ''return_requests''))"

section \<open>Request bodies\<close>

definition return_control_char :: "char \<Rightarrow> bool" where
  "return_control_char c \<longleftrightarrow>
     (let n = char_code c in n \<le> 8 \<or> n = 11 \<or> n = 12 \<or> 14 \<le> n \<and> n \<le> 31 \<or> n = 127)"

definition clean_text :: "string option \<Rightarrow> string option" where
  "clean_text v =
     (case v of None \<Rightarrow> None
      | Some s \<Rightarrow> let t = str_strip (filter (\<lambda>c. \<not> return_control_char c) s) in if t = [] then None else Some t)"

record return_line =
  rl_order_item_id :: int
  rl_quantity :: int
  rl_reason :: string

record return_create =
  rq_items :: "return_line list"
  rq_comment :: "string option"

definition ReturnCreate :: "return_line list \<Rightarrow> string option \<Rightarrow> (shop_error, return_create) result" where
  "ReturnCreate items comment =
     (if items \<noteq> [] \<and> length items \<le> 50
         \<and> list_all (\<lambda>i. 0 < rl_order_item_id i \<and> 0 < rl_quantity i \<and> rl_quantity i \<le> 1000 \<and> rl_reason i \<in> set RETURN_REASONS) items
         \<and> (case comment of None \<Rightarrow> True | Some c \<Rightarrow> length c \<le> 1000)
         \<and> distinct (map rl_order_item_id items)
      then Inr \<lparr>rq_items = items, rq_comment = clean_text comment\<rparr> else Inl ValueError)"

definition ReturnApprove :: "string option \<Rightarrow> (shop_error, string option) result" where
  "ReturnApprove note =
     (if (case note of None \<Rightarrow> True | Some c \<Rightarrow> length c \<le> 1000) then Inr (clean_text note) else Inl ValueError)"

text \<open>The length bounds are checked on what was sent, the cleaning comes after them.\<close>

definition bounded_note :: "nat \<Rightarrow> nat \<Rightarrow> string \<Rightarrow> (shop_error, string) result" where
  "bounded_note lo hi s =
     (if lo \<le> length s \<and> length s \<le> hi then Inr (case clean_text (Some s) of None \<Rightarrow> '''' | Some t \<Rightarrow> t) else Inl ValueError)"

definition ReturnReject :: "string \<Rightarrow> (shop_error, string) result" where
  "ReturnReject = bounded_note 3 300"

record receive_item =
  rv_order_item_id :: int
  rv_received_quantity :: int
  rv_restock :: bool
  rv_condition_note :: "string option"

definition ReturnReceive :: "receive_item list \<Rightarrow> (shop_error, receive_item list) result" where
  "ReturnReceive items =
     (if items \<noteq> [] \<and> length items \<le> 50
         \<and> list_all (\<lambda>i. 0 < rv_order_item_id i \<and> 0 \<le> rv_received_quantity i
              \<and> (case rv_condition_note i of None \<Rightarrow> True | Some c \<Rightarrow> length c \<le> 500)) items
      then Inr (map (\<lambda>i. i\<lparr>rv_condition_note := clean_text (rv_condition_note i)\<rparr>) items) else Inl ValueError)"

definition ReturnClose :: "string \<Rightarrow> string \<Rightarrow> (shop_error, string \<times> string) result" where
  "ReturnClose resolution note =
     (if resolution \<in> {''refunded_outside'', ''replacement_sent'', ''no_refund''}
      then rbind (bounded_note 3 1000 note) (\<lambda>n. Inr (resolution, n)) else Inl ValueError)"

section \<open>Eligibility\<close>

definition DAY :: int where
  "DAY = 86400 * SECOND"

definition max_of :: "int list \<Rightarrow> int option" where
  "max_of xs = (case xs of [] \<Rightarrow> None | x # ys \<Rightarrow> Some (fold max ys x))"

definition window_start :: "order \<Rightarrow> db \<Rightarrow> int" where
  "window_start ord d =
     (case max_of (List.map_filter sh_delivered_at (filter (\<lambda>s. sh_order_id s = o_id ord) (d_shipments d))) of
        Some delivered \<Rightarrow> delivered
      | None \<Rightarrow>
          (case max_of (map oh_created_at (filter (\<lambda>h. oh_order_id h = o_id ord \<and> oh_to_status h = FULFILLED) (d_order_history d))) of
             Some shipped \<Rightarrow> shipped
           | None \<Rightarrow> o_created_at ord))"

definition items_of_returns :: "int \<Rightarrow> string list \<Rightarrow> return_request list \<Rightarrow> return_item list" where
  "items_of_returns oid statuses rs = concat (map rt_items (filter (\<lambda>r. rt_order_id r = oid \<and> rt_status r \<in> set statuses) rs))"

definition used :: "int \<Rightarrow> db \<Rightarrow> int \<Rightarrow> int" where
  "used oid d i = sum_list (map ri_quantity (filter (\<lambda>x. ri_order_item_id x = i) (items_of_returns oid COUNTED (d_returns d))))"

record eligibility_item =
  ei_order_item_id :: int
  ei_product_name :: string
  ei_sku :: string
  ei_options :: "(string \<times> string) list"
  ei_purchased :: int
  ei_returnable :: int

record eligibility_read =
  el_eligible :: bool
  el_reason_code :: "string option"
  el_window_days :: int
  el_window_ends_at :: "int option"
  el_items :: "eligibility_item list"

definition item_options :: "order_item \<Rightarrow> (string \<times> string) list" where
  "item_options i = (case oi_variant_snapshot i of None \<Rightarrow> [] | Some v \<Rightarrow> vs_options v)"

definition return_code :: "shop_error \<Rightarrow> string" where
  "return_code e =
     (case e of ReturnsDisabled \<Rightarrow> ''returns_disabled'' | OrderNotShipped \<Rightarrow> ''order_not_shipped''
      | ReturnWindowClosed _ \<Rightarrow> ''return_window_closed'' | NothingReturnable \<Rightarrow> ''nothing_returnable'' | _ \<Rightarrow> '''')"

definition eligibility_items :: "order \<Rightarrow> db \<Rightarrow> eligibility_item list" where
  "eligibility_items ord d =
     map (\<lambda>i. \<lparr>ei_order_item_id = oi_id i, ei_product_name = oi_product_name_snapshot i, ei_sku = oi_sku_snapshot i,
               ei_options = item_options i, ei_purchased = oi_quantity i,
               ei_returnable = max (oi_quantity i - used (o_id ord) d (oi_id i)) 0\<rparr>) (order_items_of (o_id ord) d)"

definition eligibility :: "int \<Rightarrow> order \<Rightarrow> int \<Rightarrow> db \<Rightarrow> eligibility_read" where
  "eligibility window ord now d =
     (let items = eligibility_items ord d;
          (ends, reason) =
            (if window = 0 then (None, Some ReturnsDisabled)
             else if o_status ord \<noteq> FULFILLED then (None, Some OrderNotShipped)
             else let ends = window_start ord d + window * DAY in
               (Some ends, if ends < now then Some (ReturnWindowClosed window)
                           else if \<not> list_ex (\<lambda>i. ei_returnable i \<noteq> 0) items then Some NothingReturnable
                           else None))
      in \<lparr>el_eligible = (reason = None), el_reason_code = map_option return_code reason, el_window_days = window,
          el_window_ends_at = ends, el_items = items\<rparr>)"

definition order_eligibility :: "int \<Rightarrow> int \<Rightarrow> int \<Rightarrow> int \<Rightarrow> db \<Rightarrow> (shop_error, eligibility_read) result" where
  "order_eligibility window user oid now d =
     (case get_order_by_id oid d of
        None \<Rightarrow> Inl (OrderNotFound oid)
      | Some ord \<Rightarrow> if o_user_id ord \<noteq> Some user then Inl (OrderNotFound oid) else Inr (eligibility window ord now d))"

section \<open>What is shown\<close>

record return_item_read =
  ii_id :: int
  ii_order_item_id :: int
  ii_product_name :: string
  ii_sku :: string
  ii_options :: "(string \<times> string) list"
  ii_quantity :: int
  ii_reason :: string
  ii_received_quantity :: "int option"
  ii_restock :: bool
  ii_restocked_quantity :: int
  ii_condition_note :: "string option"

record return_read =
  rr_id :: int
  rr_order_id :: int
  rr_status :: string
  rr_customer_comment :: "string option"
  rr_rejection_reason :: "string option"
  rr_resolution :: "string option"
  rr_refund :: "(int \<times> refund_status) option"
  rr_requested_at :: int
  rr_decided_at :: "int option"
  rr_received_at :: "int option"
  rr_closed_at :: "int option"
  rr_items :: "return_item_read list"
  rr_admin_note :: "string option"
  rr_resolution_note :: "string option"
  rr_user_id :: "int option"

definition read_item :: "bool \<Rightarrow> db \<Rightarrow> return_item \<Rightarrow> (shop_error, return_item_read) result" where
  "read_item admin d i =
     (case row oi_id (ri_order_item_id i) (d_order_items d) of
        None \<Rightarrow> Inl KeyError
      | Some l \<Rightarrow> Inr \<lparr>ii_id = ri_id i, ii_order_item_id = ri_order_item_id i, ii_product_name = oi_product_name_snapshot l,
                      ii_sku = oi_sku_snapshot l, ii_options = item_options l, ii_quantity = ri_quantity i, ii_reason = ri_reason i,
                      ii_received_quantity = ri_received_quantity i, ii_restock = ri_restock i,
                      ii_restocked_quantity = ri_restocked_quantity i,
                      ii_condition_note = (if admin then ri_condition_note i else None)\<rparr>)"

text \<open>The administrator's remarks and the customer's id are left out for a customer.\<close>

definition read_return :: "bool \<Rightarrow> db \<Rightarrow> return_request \<Rightarrow> (shop_error, return_read) result" where
  "read_return admin d r =
     rbind (rmap (read_item admin d) (rt_items r)) (\<lambda>items.
     Inr \<lparr>rr_id = rt_id r, rr_order_id = rt_order_id r, rr_status = rt_status r, rr_customer_comment = rt_customer_comment r,
          rr_rejection_reason = rt_rejection_reason r, rr_resolution = rt_resolution r,
          rr_refund = (case rt_refund_id r of None \<Rightarrow> None
                       | Some i \<Rightarrow> map_option (\<lambda>f. (rf_id f, rf_status f)) (row rf_id i (d_refunds d))),
          rr_requested_at = rt_requested_at r, rr_decided_at = rt_decided_at r, rr_received_at = rt_received_at r,
          rr_closed_at = rt_closed_at r, rr_items = items, rr_admin_note = (if admin then rt_admin_note r else None),
          rr_resolution_note = (if admin then rt_resolution_note r else None),
          rr_user_id = (if admin then Some (rt_user_id r) else None)\<rparr>)"

definition get_return :: "int \<Rightarrow> db \<Rightarrow> (shop_error, return_request) result" where
  "get_return i d = (case row rt_id i (d_returns d) of None \<Rightarrow> Inl ReturnNotFound | Some r \<Rightarrow> Inr r)"

definition log_return :: "int \<Rightarrow> string \<Rightarrow> return_request \<Rightarrow> db \<Rightarrow> db" where
  "log_return actor action r = audit_log (Some actor) (''return.'' @ action) ''return'' [KI (rt_id r)]"

text \<open>The common end of every operation: write the row, log it, show it.\<close>

definition finish_return ::
  "int \<Rightarrow> string \<Rightarrow> bool \<Rightarrow> return_request \<Rightarrow> db \<Rightarrow> (shop_error, return_read \<times> db) result" where
  "finish_return actor action admin r d =
     rbind (flush_return r d) (\<lambda>d.
     let d = log_return actor action r d in
     rbind (read_return admin d r) (\<lambda>x. Inr (x, d)))"

section \<open>The customer\<close>

definition check_line :: "eligibility_item list \<Rightarrow> return_line \<Rightarrow> (shop_error, unit) result" where
  "check_line items l =
     (case row ei_order_item_id (rl_order_item_id l) items of
        None \<Rightarrow> Inl ReturnItemInvalid
      | Some e \<Rightarrow> guard (\<not> ei_returnable e < rl_quantity l) (ReturnQuantityExceeded (ei_returnable e)))"

fun number_items :: "int \<Rightarrow> return_line list \<Rightarrow> return_item list" where
  "number_items n [] = []"
| "number_items n (l # ls) =
     \<lparr>ri_id = n, ri_order_item_id = rl_order_item_id l, ri_quantity = rl_quantity l, ri_reason = rl_reason l,
      ri_received_quantity = None, ri_restock = False, ri_restocked_quantity = 0, ri_condition_note = None\<rparr> # number_items (n + 1) ls"

definition create_return ::
  "int \<Rightarrow> int \<Rightarrow> int \<Rightarrow> return_create \<Rightarrow> int \<Rightarrow> db \<Rightarrow> (shop_error, return_read \<times> db) result" where
  "create_return window user oid payload now d =
     rbind (lock_order_for_update oid d) (\<lambda>ord.
     if o_user_id ord \<noteq> Some user then Inl (OrderNotFound oid)
     else let state = eligibility window ord now d in
     if \<not> el_eligible state then
       (if el_reason_code state = Some ''returns_disabled'' then Inl ReturnsDisabled
        else if el_reason_code state = Some ''order_not_shipped'' then Inl OrderNotShipped
        else if el_reason_code state = Some ''nothing_returnable'' then Inl NothingReturnable
        else Inl (ReturnWindowClosed (el_window_days state)))
     else rbind (rmap (check_line (el_items state)) (rq_items payload)) (\<lambda>_.
       let i = d_next d;
           ret = \<lparr>rt_id = i, rt_order_id = o_id ord, rt_user_id = user, rt_status = ''requested'',
                  rt_customer_comment = rq_comment payload, rt_admin_note = None, rt_rejection_reason = None,
                  rt_resolution = None, rt_resolution_note = None, rt_refund_id = None, rt_requested_at = now,
                  rt_decided_at = None, rt_received_at = None, rt_closed_at = None, rt_handled_by_user_id = None,
                  rt_items = number_items (i + 1) (rq_items payload)\<rparr>
       in rbind (insert_return ret (d\<lparr>d_next := i + 1 + int (length (rq_items payload))\<rparr>)) (\<lambda>d.
          let d = log_return user ''requested'' ret d in
          rbind (read_return False d ret) (\<lambda>x. Inr (x, d)))))"

definition page_of :: "int \<Rightarrow> int \<Rightarrow> return_request list \<Rightarrow> return_request list" where
  "page_of offset limit rs = take (nat limit) (drop (nat offset) (sort_key (\<lambda>r. - rt_requested_at r) rs))"

definition my_returns :: "int \<Rightarrow> int \<Rightarrow> int \<Rightarrow> int option \<Rightarrow> db \<Rightarrow> (shop_error, int \<times> return_read list) result" where
  "my_returns user offset limit oid d =
     (let rows = filter (\<lambda>r. rt_user_id r = user \<and> (oid = None \<or> oid = Some (rt_order_id r))) (d_returns d) in
      rbind (rmap (read_return False d) (page_of offset limit rows)) (\<lambda>xs. Inr (int (length rows), xs)))"

definition get_mine :: "int \<Rightarrow> int \<Rightarrow> db \<Rightarrow> (shop_error, return_read) result" where
  "get_mine user i d =
     rbind (get_return i d) (\<lambda>r. if rt_user_id r \<noteq> user then Inl ReturnNotFound else read_return False d r)"

definition cancel_return :: "int \<Rightarrow> int \<Rightarrow> int \<Rightarrow> db \<Rightarrow> (shop_error, return_read \<times> db) result" where
  "cancel_return user i now d =
     rbind (get_return i d) (\<lambda>r.
     if rt_user_id r \<noteq> user then Inl ReturnNotFound
     else if rt_status r \<notin> set OPEN then Inl (ReturnState (rt_status r) ''cancelled'')
     else finish_return user ''cancelled'' False (r\<lparr>rt_status := ''cancelled'', rt_closed_at := Some now\<rparr>) d)"

section \<open>The administrator\<close>

text \<open>Dates are compared by their day number, \<open>func.date\<close> of a time is the day it falls on.\<close>

definition admin_list ::
  "string option \<Rightarrow> int option \<Rightarrow> int option \<Rightarrow> int option \<Rightarrow> int \<Rightarrow> int \<Rightarrow> db \<Rightarrow> (shop_error, int \<times> return_read list) result" where
  "admin_list status oid from_date to_date offset limit d =
     (let rows = filter (\<lambda>r. (status = None \<or> status = Some [] \<or> status = Some (rt_status r)) \<and> (oid = None \<or> oid = Some (rt_order_id r))
            \<and> (case from_date of None \<Rightarrow> True | Some x \<Rightarrow> x \<le> rt_requested_at r div DAY)
            \<and> (case to_date of None \<Rightarrow> True | Some x \<Rightarrow> rt_requested_at r div DAY \<le> x)) (d_returns d) in
      rbind (rmap (read_return True d) (page_of offset limit rows)) (\<lambda>xs. Inr (int (length rows), xs)))"

definition admin_get :: "int \<Rightarrow> db \<Rightarrow> (shop_error, return_read) result" where
  "admin_get i d = rbind (get_return i d) (read_return True d)"

definition approve_return :: "int \<Rightarrow> int \<Rightarrow> string option \<Rightarrow> int \<Rightarrow> db \<Rightarrow> (shop_error, return_read \<times> db) result" where
  "approve_return i admin note now d =
     rbind (get_return i d) (\<lambda>r.
     if rt_status r \<noteq> ''requested'' then Inl (ReturnState (rt_status r) ''approved'')
     else finish_return admin ''approved'' True
       (r\<lparr>rt_status := ''approved'', rt_decided_at := Some now, rt_admin_note := note, rt_handled_by_user_id := Some admin\<rparr>) d)"

definition reject_return :: "int \<Rightarrow> int \<Rightarrow> string \<Rightarrow> int \<Rightarrow> db \<Rightarrow> (shop_error, return_read \<times> db) result" where
  "reject_return i admin reason now d =
     rbind (get_return i d) (\<lambda>r.
     if rt_status r \<noteq> ''requested'' then Inl (ReturnState (rt_status r) ''rejected'')
     else finish_return admin ''rejected'' True
       (r\<lparr>rt_status := ''rejected'', rt_decided_at := Some now, rt_rejection_reason := Some reason, rt_handled_by_user_id := Some admin\<rparr>) d)"

section \<open>Receiving the goods\<close>

definition check_receipt :: "return_item list \<Rightarrow> receive_item \<Rightarrow> (shop_error, unit) result" where
  "check_receipt items e =
     (case row ri_order_item_id (rv_order_item_id e) items of
        None \<Rightarrow> Inl KeyError
      | Some i \<Rightarrow> if ri_quantity i < rv_received_quantity e then Inl ReturnReceiptInvalid
                  else if rv_restock e \<and> rv_received_quantity e = 0 then Inl ReturnReceiptInvalid else Inr ())"

text \<open>What the administrator entered, on the items of the return.\<close>

definition received_item :: "receive_item list \<Rightarrow> return_item \<Rightarrow> return_item" where
  "received_item given i =
     (case row rv_order_item_id (ri_order_item_id i) given of
        None \<Rightarrow> i
      | Some e \<Rightarrow> i\<lparr>ri_received_quantity := Some (rv_received_quantity e), ri_restock := rv_restock e,
                    ri_condition_note := rv_condition_note e\<rparr>)"

definition arrived :: "return_item \<Rightarrow> int" where
  "arrived i = (case ri_received_quantity i of None \<Rightarrow> 0 | Some q \<Rightarrow> q)"

definition return_key :: "return_request \<Rightarrow> key" where
  "return_key r = [KS ''return'', KI (rt_id r)]"

definition return_ctx :: "order \<Rightarrow> return_request \<Rightarrow> int \<Rightarrow> stock_ctx" where
  "return_ctx ord r admin =
     \<lparr>sx_kind = ''restock'', sx_actor_user_id = Some admin, sx_reason = Some (''customer return '' @ show_int (rt_id r)),
      sx_order_id = Some (o_id ord)\<rparr>"

definition to_restock :: "return_item \<Rightarrow> bool" where
  "to_restock i \<longleftrightarrow> ri_restock i \<and> 0 < arrived i"

definition mark_restocked :: "int list \<Rightarrow> return_item \<Rightarrow> return_item" where
  "mark_restocked recorded i =
     (if to_restock i \<and> ri_order_item_id i \<in> set recorded then i\<lparr>ri_restocked_quantity := arrived i\<rparr> else i)"

definition line_of_item :: "order_item list \<Rightarrow> return_item \<Rightarrow> (shop_error, order_item \<times> int) result" where
  "line_of_item lines i =
     (case row oi_id (ri_order_item_id i) lines of None \<Rightarrow> Inl KeyError | Some l \<Rightarrow> Inr (l, arrived i))"

definition restock_return ::
  "order \<Rightarrow> return_request \<Rightarrow> int \<Rightarrow> db \<Rightarrow> (shop_error, return_request \<times> db) result" where
  "restock_return ord ret admin d =
     (let todo = filter to_restock (rt_items ret) in
      if todo = [] then Inr (ret, d)
      else rbind (rmap (line_of_item (order_items_of (o_id ord) d)) todo) (\<lambda>found.
        let locked = get_many_for_update (map (\<lambda>(l, _). oi_product_id l) found) d;
            variant_ids = List.map_filter (\<lambda>(l, _). oi_variant_id l) found;
            locked_variants = (if variant_ids = [] then [] else get_variants_for_update variant_ids d)
        in rbind (case record_restock_events (map (\<lambda>i. (ri_order_item_id i, return_key ret, arrived i)) todo) d of
                    Inl (IntegrityError _) \<Rightarrow> Inl ReturnReceiptInvalid
                  | r \<Rightarrow> r) (\<lambda>(recorded, d).
           let (stock_back, variant_back) =
                 fold (restock_line locked_variants recorded) (map (\<lambda>(l, q). (l, q, row p_id (oi_product_id l) locked)) found) ([], [])
           in rbind (move_units (return_ctx ord ret admin) locked stock_back locked_variants variant_back d) (\<lambda>d.
              Inr (ret\<lparr>rt_items := map (mark_restocked recorded) (rt_items ret)\<rparr>, d)))))"

definition receive_return :: "int \<Rightarrow> int \<Rightarrow> receive_item list \<Rightarrow> int \<Rightarrow> db \<Rightarrow> (shop_error, return_read \<times> db) result" where
  "receive_return i admin payload now d =
     rbind (get_return i d) (\<lambda>ret.
     if rt_status ret \<noteq> ''approved'' then Inl (ReturnState (rt_status ret) ''marked as received'')
     else if \<not> distinct (map rv_order_item_id payload)
             \<or> set (map rv_order_item_id payload) \<noteq> set (map ri_order_item_id (rt_items ret))
     then Inl ReturnReceiptInvalid
     else rbind (rmap (check_receipt (rt_items ret)) payload) (\<lambda>_.
       rbind (lock_order_for_update (rt_order_id ret) d) (\<lambda>ord.
       rbind (restock_return ord (ret\<lparr>rt_items := map (received_item payload) (rt_items ret)\<rparr>) admin d) (\<lambda>(ret, d).
       finish_return admin ''received'' True
         (ret\<lparr>rt_status := ''received'', rt_received_at := Some now, rt_handled_by_user_id := Some admin\<rparr>) d))))"

section \<open>Closing\<close>

definition came_back :: "int \<Rightarrow> db \<Rightarrow> int \<Rightarrow> int" where
  "came_back oid d i = sum_list (map arrived (filter (\<lambda>x. ri_order_item_id x = i) (items_of_returns oid [''received'', ''closed''] (d_returns d))))"

definition refund_return :: "int \<Rightarrow> int \<Rightarrow> int \<Rightarrow> db \<Rightarrow> (shop_error, return_read \<times> db) result" where
  "refund_return i admin now d =
     rbind (get_return i d) (\<lambda>ret.
     if rt_status ret \<noteq> ''received'' then Inl (ReturnState (rt_status ret) ''refunded'')
     else rbind (lock_order_for_update (rt_order_id ret) d) (\<lambda>ord.
       if list_ex (\<lambda>l. came_back (o_id ord) d (oi_id l) < oi_quantity l) (order_items_of (o_id ord) d) then Inl ReturnNotFull
       else rbind (request_refund (o_id ord) admin None False d) (\<lambda>(refund, _, d).
         finish_return admin ''refund_requested'' True
           (ret\<lparr>rt_status := ''closed'', rt_resolution := Some ''refunded'', rt_refund_id := Some (rf_id refund),
                rt_closed_at := Some now, rt_handled_by_user_id := Some admin\<rparr>) d)))"

definition close_return :: "int \<Rightarrow> int \<Rightarrow> string \<Rightarrow> string \<Rightarrow> int \<Rightarrow> db \<Rightarrow> (shop_error, return_read \<times> db) result" where
  "close_return i admin resolution note now d =
     rbind (get_return i d) (\<lambda>ret.
     if rt_status ret \<notin> {''approved'', ''received''} then Inl (ReturnState (rt_status ret) ''closed'')
     else finish_return admin ''closed'' True
       (ret\<lparr>rt_status := ''closed'', rt_resolution := Some resolution, rt_resolution_note := Some note,
            rt_closed_at := Some now, rt_handled_by_user_id := Some admin\<rparr>) d)"

section \<open>Endpoints\<close>

text \<open>Every endpoint that changes a return: the body is validated, then the service runs.\<close>

datatype return_request_call =
  RequestReturn int int "return_line list" "string option"
| CancelReturn int int
| ApproveReturn int int "string option"
| RejectReturn int int string
| ReceiveReturn int int "receive_item list"
| RefundReturn int int
| CloseReturn int int string string

fun run_return :: "int \<Rightarrow> return_request_call \<Rightarrow> int \<Rightarrow> db \<Rightarrow> (shop_error, return_read \<times> db) result" where
  "run_return window (RequestReturn user oid items comment) now d =
     rbind (ReturnCreate items comment) (\<lambda>payload. create_return window user oid payload now d)"
| "run_return window (CancelReturn user i) now d = cancel_return user i now d"
| "run_return window (ApproveReturn i admin note) now d =
     rbind (ReturnApprove note) (\<lambda>note. approve_return i admin note now d)"
| "run_return window (RejectReturn i admin reason) now d =
     rbind (ReturnReject reason) (\<lambda>reason. reject_return i admin reason now d)"
| "run_return window (ReceiveReturn i admin items) now d =
     rbind (ReturnReceive items) (\<lambda>items. receive_return i admin items now d)"
| "run_return window (RefundReturn i admin) now d = refund_return i admin now d"
| "run_return window (CloseReturn i admin resolution note) now d =
     rbind (ReturnClose resolution note) (\<lambda>(resolution, note). close_return i admin resolution note now d)"

end
