(* ===== verification/Restock.thy ===== *)
theory Restock
  imports Returns
begin

text \<open>
  What releasing an order's stock does (\<open>_restock_once\<close>): every line of the order is fully restocked
  and exactly what was still out goes back to the units it came from. The invariant \<open>restocks_ok\<close>
  keeps the per-line counters truthful; \<open>reserved\<close> is the quantity of a unit that is out with orders.
\<close>

definition unit_of_item :: "order_item \<Rightarrow> sold_unit" where
  "unit_of_item i = (case oi_variant_id i of None \<Rightarrow> UnitP (oi_product_id i) | Some v \<Rightarrow> UnitV v)"

definition outstanding :: "order_item \<Rightarrow> int" where
  "outstanding i = oi_quantity i - oi_restocked_quantity i"

definition reserved :: "db \<Rightarrow> sold_unit \<Rightarrow> int" where
  "reserved d u = sum_list (map (\<lambda>i. if unit_of_item i = u then outstanding i else 0) (d_order_items d))"

definition restocks_ok :: "db \<Rightarrow> bool" where
  "restocks_ok d \<longleftrightarrow>
     (\<forall>i \<in> set (d_order_items d). 0 \<le> oi_restocked_quantity i \<and> oi_restocked_quantity i \<le> oi_quantity i)
     \<and> (\<forall>r \<in> set (d_restocks d). ir_event_key r = ORDER_RELEASE \<longrightarrow>
          (\<forall>i \<in> set (d_order_items d). oi_id i = ir_order_item_id r \<longrightarrow> outstanding i = 0))
     \<and> (\<forall>r \<in> set (d_restocks d). ir_order_item_id r \<in> oi_id ` set (d_order_items d))"

definition put_back :: "order_item \<Rightarrow> order_item" where
  "put_back i = i\<lparr>oi_restocked_quantity := oi_quantity i\<rparr>"

lemma put_back_fields [simp]:
  "oi_id (put_back i) = oi_id i" "oi_order_id (put_back i) = oi_order_id i" "unit_of_item (put_back i) = unit_of_item i"
  "outstanding (put_back i) = 0" "oi_quantity (put_back i) = oi_quantity i"
  "oi_restocked_quantity (put_back i) = oi_quantity i" "line_total_cents (put_back i) = line_total_cents i"
  "oi_discount_cents (put_back i) = oi_discount_cents i"
  by (simp_all add: put_back_def unit_of_item_def outstanding_def line_total_cents_def split: option.split)

definition mark_back :: "int set \<Rightarrow> order_item list \<Rightarrow> order_item list" where
  "mark_back ids = map (\<lambda>i. if oi_id i \<in> ids then put_back i else i)"

lemma mark_back_keys [simp]: "map oi_id (mark_back ids t) = map oi_id t"
  by (simp add: mark_back_def)

lemma mark_back_nothing [simp]: "mark_back {} t = t"
  by (simp add: mark_back_def)

lemma mark_back_row:
  assumes "distinct (map oi_id t)" and "i \<in> set t"
  shows "set_row oi_id (i\<lparr>oi_restocked_quantity := oi_restocked_quantity i + outstanding i\<rparr>) t = mark_back {oi_id i} t"
proof -
  have eq: "i\<lparr>oi_restocked_quantity := oi_restocked_quantity i + outstanding i\<rparr> = put_back i"
    by (simp add: put_back_def outstanding_def)
  show ?thesis unfolding eq set_row_def mark_back_def
  proof (rule map_cong [OF refl])
    fix j
    assume j: "j \<in> set t"
    show "(if oi_id j = oi_id (put_back i) then put_back i else j) = (if oi_id j \<in> {oi_id i} then put_back j else j)"
    proof (cases "oi_id j = oi_id i")
      case True
      have "Some j = Some i" using row_in_distinct [OF assms(1) j] row_in_distinct [OF assms] unfolding True by (simp only:)
      then have "j = i" by (rule option.inject [THEN iffD1])
      then show ?thesis by simp
    qed simp
  qed
qed

lemma mark_back_twice: "mark_back A (mark_back B t) = mark_back (A \<union> B) t"
proof -
  have "put_back (put_back i) = put_back i" for i by (simp add: put_back_def)
  then show ?thesis by (auto simp: mark_back_def)
qed

type_synonym restock_entry = "order_item \<times> int \<times> product option"

definition entry_event :: "restock_entry \<Rightarrow> int \<times> key \<times> int" where
  "entry_event e = (oi_id (fst e), ORDER_RELEASE, fst (snd e))"

definition due :: "restock_entry \<Rightarrow> db \<Rightarrow> bool" where
  "due e d \<longleftrightarrow> fst e \<in> set (d_order_items d) \<and> fst (snd e) = outstanding (fst e) \<and> 0 < outstanding (fst e)
     \<and> \<not> list_ex (\<lambda>r. ir_order_item_id r = oi_id (fst e) \<and> ir_event_key r = ORDER_RELEASE) (d_restocks d)"

lemma add_restock_event_due:
  assumes "due e d" and "distinct (map oi_id (d_order_items d))"
  shows "add_restock_event (entry_event e) (recorded, d) = Inr (recorded @ [oi_id (fst e)],
     d\<lparr>d_restocks := d_restocks d @ [\<lparr>ir_order_item_id = oi_id (fst e), ir_event_key = ORDER_RELEASE, ir_quantity = fst (snd e)\<rparr>],
       d_order_items := mark_back {oi_id (fst e)} (d_order_items d)\<rparr>)"
proof -
  have i: "fst e \<in> set (d_order_items d)" and q: "fst (snd e) = outstanding (fst e)" "0 < outstanding (fst e)"
    and n: "\<not> list_ex (\<lambda>r. ir_order_item_id r = oi_id (fst e) \<and> ir_event_key r = ORDER_RELEASE) (d_restocks d)"
    using assms(1) by (simp_all add: due_def)
  have "row oi_id (oi_id (fst e)) (d_order_items d) = Some (fst e)" using assms(2) i by (rule row_in_distinct)
  moreover have "\<not> oi_quantity (fst e) < oi_restocked_quantity (fst e) + outstanding (fst e)" by (simp add: outstanding_def)
  ultimately show ?thesis
    using n q mark_back_row [OF assms(2) i] by (simp add: add_restock_event_def entry_event_def)
qed

lemma record_due_events:
  assumes "\<forall>e \<in> set es. due e d" and "distinct (map (\<lambda>e. oi_id (fst e)) es)" and "distinct (map oi_id (d_order_items d))"
  shows "\<exists>rs. rfold add_restock_event (map entry_event es) (recorded, d) = Inr (recorded @ map (\<lambda>e. oi_id (fst e)) es,
     d\<lparr>d_restocks := d_restocks d @ rs, d_order_items := mark_back ((\<lambda>e. oi_id (fst e)) ` set es) (d_order_items d)\<rparr>)
     \<and> map ir_order_item_id rs = map (\<lambda>e. oi_id (fst e)) es \<and> (\<forall>r \<in> set rs. ir_event_key r = ORDER_RELEASE)"
  using assms
proof (induction es arbitrary: recorded d)
  case Nil
  show ?case by (rule exI [of _ "[]"]) simp
next
  case (Cons e es)
  let ?r = "\<lparr>ir_order_item_id = oi_id (fst e), ir_event_key = ORDER_RELEASE, ir_quantity = fst (snd e)\<rparr>"
  let ?d = "d\<lparr>d_restocks := d_restocks d @ [?r], d_order_items := mark_back {oi_id (fst e)} (d_order_items d)\<rparr>"
  have step: "add_restock_event (entry_event e) (recorded, d) = Inr (recorded @ [oi_id (fst e)], ?d)"
    using Cons.prems by (intro add_restock_event_due) simp_all
  have still: "due e' ?d" if "e' \<in> set es" for e'
  proof -
    have "due e' d" using Cons.prems(1) that by simp
    have "oi_id (fst e') \<in> (\<lambda>e. oi_id (fst e)) ` set es" using that by (rule imageI)
    moreover have "oi_id (fst e) \<notin> (\<lambda>e. oi_id (fst e)) ` set es" using Cons.prems(2) by simp
    ultimately have ne: "oi_id (fst e') \<noteq> oi_id (fst e)" by metis
    have "fst e' \<in> set (mark_back {oi_id (fst e)} (d_order_items d))"
      unfolding mark_back_def set_map
      by (rule image_eqI [of _ _ "fst e'"]) (use \<open>due e' d\<close> ne in \<open>simp_all add: due_def\<close>)
    with \<open>due e' d\<close> ne show ?thesis by (simp add: due_def)
  qed
  from Cons.IH [of ?d "recorded @ [oi_id (fst e)]"] still Cons.prems obtain rs where
    rs: "rfold add_restock_event (map entry_event es) (recorded @ [oi_id (fst e)], ?d)
        = Inr ((recorded @ [oi_id (fst e)]) @ map (\<lambda>e. oi_id (fst e)) es,
     ?d\<lparr>d_restocks := d_restocks ?d @ rs, d_order_items := mark_back ((\<lambda>e. oi_id (fst e)) ` set es) (d_order_items ?d)\<rparr>)"
    "map ir_order_item_id rs = map (\<lambda>e. oi_id (fst e)) es" "\<forall>r \<in> set rs. ir_event_key r = ORDER_RELEASE"
    by auto
  then show ?case using step
    by (intro exI [of _ "?r # rs"]) (simp add: mark_back_twice Un_commute)
qed

text \<open>The lines with something left, and the two dictionaries.\<close>

lemma pending_restock_Inr:
  "pending_restock locked items = Inr es \<Longrightarrow>
     es = map (\<lambda>i. (i, outstanding i, row p_id (oi_product_id i) locked)) (filter (\<lambda>i. 0 < outstanding i) items)"
  by (induction items arbitrary: es) (auto simp: outstanding_def Let_def res_simps split: if_splits)

definition to_product :: "int list \<Rightarrow> restock_entry \<Rightarrow> int \<Rightarrow> int" where
  "to_product recorded e k =
     (if oi_id (fst e) \<in> set recorded \<and> oi_variant_id (fst e) = None \<and> snd (snd e) \<noteq> None \<and> oi_product_id (fst e) = k
      then fst (snd e) else 0)"

definition to_variant :: "variant list \<Rightarrow> int list \<Rightarrow> restock_entry \<Rightarrow> int \<Rightarrow> int" where
  "to_variant vs recorded e k =
     (if oi_id (fst e) \<in> set recorded \<and> oi_variant_id (fst e) = Some k \<and> row v_id k vs \<noteq> None then fst (snd e) else 0)"

lemma fold_restock_lines:
  assumes "fold (restock_line vs recorded) es (a, b) = (a', b')" and "distinct (map fst a)" and "distinct (map fst b)"
  shows "distinct (map fst a') \<and> distinct (map fst b')
    \<and> dict_get a' k = dict_get a k + sum_list (map (\<lambda>e. to_product recorded e k) es)
    \<and> dict_get b' k = dict_get b k + sum_list (map (\<lambda>e. to_variant vs recorded e k) es)"
  using assms
proof (induction es arbitrary: a b)
  case (Cons e es)
  obtain a1 b1 where s: "restock_line vs recorded e (a, b) = (a1, b1)" by fastforce
  have 1: "distinct (map fst a1) \<and> distinct (map fst b1) \<and> dict_get a1 k = dict_get a k + to_product recorded e k
      \<and> dict_get b1 k = dict_get b k + to_variant vs recorded e k"
    using s Cons.prems
    by (cases e) (auto simp: restock_line_def to_product_def to_variant_def dict_add_distinct split: option.splits if_splits)
  from Cons.IH [of a1 b1] Cons.prems s 1 show ?case by simp
qed simp

definition entries_of :: "product list \<Rightarrow> (order_item \<times> int) list \<Rightarrow> restock_entry list" where
  "entries_of ps = map (\<lambda>(l, q). (l, q, row p_id (oi_product_id l) ps))"

text \<open>What the two dictionaries add up to: the quantities of the recorded lines, unit by unit.\<close>

definition moved_back :: "int list \<Rightarrow> (order_item \<times> int) list \<Rightarrow> sold_unit \<Rightarrow> int" where
  "moved_back recorded ls u = sum_list (map (\<lambda>(l, q). if oi_id l \<in> set recorded \<and> unit_of_item l = u then q else 0) ls)"

lemma restock_delta:
  assumes "fold (restock_line vs recorded) (entries_of ps ls) ([], []) = (pds, vds)" and "known_unit d u"
    and "\<And>l q. (l, q) \<in> set ls \<Longrightarrow> row p_id (oi_product_id l) ps = get_product (oi_product_id l) d"
    and "\<And>l q v. (l, q) \<in> set ls \<Longrightarrow> oi_variant_id l = Some v \<Longrightarrow> row v_id v vs = get_variant v d"
  shows "distinct (map fst pds)" "distinct (map fst vds)" "unit_delta pds vds u = moved_back recorded ls u"
proof -
  note folded = fold_restock_lines [OF assms(1), simplified]
  show "distinct (map fst pds)" "distinct (map fst vds)" using folded by blast+
  show "unit_delta pds vds u = moved_back recorded ls u"
  proof (cases u)
    case (UnitP k)
    have "map (\<lambda>e. to_product recorded e k) (entries_of ps ls)
        = map (\<lambda>(l, q). if oi_id l \<in> set recorded \<and> unit_of_item l = u then q else 0) ls"
      unfolding entries_of_def map_map
      by (rule map_cong [OF refl])
        (use assms(2,3) UnitP in \<open>auto simp: to_product_def unit_of_item_def known_unit_def split: option.splits\<close>)
    with folded [of k] UnitP show ?thesis by (simp add: unit_delta_def moved_back_def)
  next
    case (UnitV k)
    have "map (\<lambda>e. to_variant vs recorded e k) (entries_of ps ls)
        = map (\<lambda>(l, q). if oi_id l \<in> set recorded \<and> unit_of_item l = u then q else 0) ls"
      unfolding entries_of_def map_map
      by (rule map_cong [OF refl])
        (use assms(2,4) UnitV in \<open>auto simp: to_variant_def unit_of_item_def known_unit_def split: option.splits\<close>)
    with folded [of k] UnitV show ?thesis by (simp add: unit_delta_def moved_back_def)
  qed
qed

lemma key_in_filter:
  assumes "distinct (map key t)" and "i \<in> set t"
  shows "key i \<in> key ` set (filter P t) \<longleftrightarrow> P i"
proof
  assume "key i \<in> key ` set (filter P t)"
  then obtain j where j: "j \<in> set t" "P j" "key j = key i" by auto
  have "Some j = Some i" using row_in_distinct [OF assms(1) j(1)] row_in_distinct [OF assms] unfolding j(3) by (simp only:)
  with j(2) show "P i" by simp
next
  assume "P i"
  with assms(2) show "key i \<in> key ` set (filter P t)" by (intro imageI) simp
qed

definition to_release :: "int \<Rightarrow> order_item \<Rightarrow> bool" where
  "to_release oid i \<longleftrightarrow> oi_order_id i = oid \<and> 0 < outstanding i"

definition release_lines :: "int \<Rightarrow> order_item list \<Rightarrow> order_item list" where
  "release_lines oid = map (\<lambda>i. if to_release oid i then put_back i else i)"

lemma mark_back_release:
  "distinct (map oi_id t) \<Longrightarrow> mark_back (oi_id ` set (filter (to_release oid) t)) t = release_lines oid t"
  unfolding mark_back_def release_lines_def by (rule map_cong [OF refl]) (simp only: key_in_filter)

lemma restock_once_Inr:
  assumes "restock_once ord now d = Inr (b, ord', d')" and "o_stock_released_at ord = None"
    and "restocks_ok d" and "orders_ok d"
  obtains pds vds rs ps vs where "b" "ord' = ord\<lparr>o_stock_released_at := Some now\<rparr>"
    "distinct (map fst pds)" "distinct (map fst vds)"
    "move_units (restock_ctx (o_id ord)) ps pds vs vds
       (d\<lparr>d_restocks := d_restocks d @ rs, d_order_items := release_lines (o_id ord) (d_order_items d)\<rparr>) = Inr d'"
    "\<And>u. known_unit d u \<Longrightarrow> unit_delta pds vds u =
       sum_list (map (\<lambda>i. if unit_of_item i = u then outstanding i else 0) (filter (to_release (o_id ord)) (d_order_items d)))"
    "\<forall>r \<in> set rs. ir_order_item_id r \<in> oi_id ` set (filter (to_release (o_id ord)) (d_order_items d))"
proof -
  let ?t = "d_order_items d" and ?items = "order_items_of (o_id ord) d"
  let ?rel = "filter (to_release (o_id ord)) ?t"
  let ?locked = "get_many_for_update (map oi_product_id ?items) d"
  let ?vids = "List.map_filter oi_variant_id ?items"
  let ?lv = "if ?vids = [] then [] else get_variants_for_update ?vids d"
  obtain es recorded d1 where es: "pending_restock ?locked ?items = Inr es"
    and ev: "record_restock_events (map (\<lambda>(item, remaining, _). (oi_id item, ORDER_RELEASE, remaining)) es) d = Inr (recorded, d1)"
    and rest: "(let (restock, variant_restock) = fold (restock_line ?lv recorded) es ([], []) in
           rbind (move_units (restock_ctx (o_id ord)) ?locked restock ?lv variant_restock d1) (\<lambda>d.
           Inr (True, ord\<lparr>o_stock_released_at := Some now\<rparr>, d))) = Inr (b, ord', d')"
    using assms(1,2) by (auto simp: restock_once_def Let_def res_simps)
  obtain pds vds where fo: "fold (restock_line ?lv recorded) es ([], []) = (pds, vds)" by fastforce
  have mv: "move_units (restock_ctx (o_id ord)) ?locked pds ?lv vds d1 = Inr d'" and b: "b" "ord' = ord\<lparr>o_stock_released_at := Some now\<rparr>"
    using rest unfolding fo by (auto simp: res_simps)
  have dist: "distinct (map oi_id ?t)" using orders_okD(2) [OF assms(4)] .
  have es': "es = map (\<lambda>i. (i, outstanding i, row p_id (oi_product_id i) ?locked)) ?rel"
  proof -
    have "filter (\<lambda>i. 0 < outstanding i) ?items = ?rel"
      unfolding order_items_of_def filter_filter by (rule filter_cong [OF refl]) (auto simp: to_release_def)
    with pending_restock_Inr [OF es] show ?thesis by (simp only:)
  qed
  have ids: "map (\<lambda>e. oi_id (fst e)) es = map oi_id ?rel" by (simp add: es' comp_def)
  have no_event: "\<not> list_ex (\<lambda>r. ir_order_item_id r = oi_id i \<and> ir_event_key r = ORDER_RELEASE) (d_restocks d)"
    if "i \<in> set ?t" "0 < outstanding i" for i
    using assms(3) that by (fastforce simp: restocks_ok_def list_ex_iff)
  have "\<forall>e \<in> set es. due e d" using no_event by (auto simp: es' due_def to_release_def)
  moreover have "distinct (map (\<lambda>e. oi_id (fst e)) es)" unfolding ids using dist by (rule distinct_map_filter)
  ultimately obtain rs where rs: "rfold add_restock_event (map entry_event es) ([], d) = Inr (map (\<lambda>e. oi_id (fst e)) es,
     d\<lparr>d_restocks := d_restocks d @ rs, d_order_items := mark_back ((\<lambda>e. oi_id (fst e)) ` set es) ?t\<rparr>)"
    "map ir_order_item_id rs = map (\<lambda>e. oi_id (fst e)) es"
    using record_due_events [of es d "[]"] dist by auto
  have m: "map (\<lambda>(item, remaining, _). (oi_id item, ORDER_RELEASE, remaining)) es = map entry_event es"
    by (simp add: es' entry_event_def)
  have k: "(\<lambda>e. oi_id (fst e)) ` set es = oi_id ` set ?rel" unfolding set_map [symmetric] ids ..
  have "recorded = map oi_id ?rel
      \<and> d1 = d\<lparr>d_restocks := d_restocks d @ rs, d_order_items := release_lines (o_id ord) ?t\<rparr>"
    using ev rs(1) unfolding record_restock_events_def m k ids mark_back_release [OF dist] by (simp only: sum.inject prod.inject)
  then have rd: "recorded = map oi_id ?rel"
    "d1 = d\<lparr>d_restocks := d_restocks d @ rs, d_order_items := release_lines (o_id ord) ?t\<rparr>" by blast+
  let ?ls = "map (\<lambda>i. (i, outstanding i)) ?rel"
  have fo': "fold (restock_line ?lv recorded) (entries_of ?locked ?ls) ([], []) = (pds, vds)"
    using fo unfolding es' entries_of_def by (simp add: comp_def)
  have in_locked: "row p_id (oi_product_id i) ?locked = get_product (oi_product_id i) d" if "(i, q) \<in> set ?ls" for i q
  proof -
    have "oi_product_id i \<in> set (map oi_product_id ?items)" using that by (auto simp: order_items_of_def to_release_def)
    then show ?thesis by (simp add: row_locked get_product_def)
  qed
  have in_variants: "row v_id v ?lv = get_variant v d" if "(i, q) \<in> set ?ls" "oi_variant_id i = Some v" for i q v
  proof -
    have "v \<in> set ?vids" using that by (force simp: order_items_of_def to_release_def List.map_filter_def)
    then have "?vids \<noteq> []" "row v_id v (get_variants_for_update ?vids d) = row v_id v (d_variants d)" by (auto simp: row_locked)
    then show ?thesis by (simp add: get_variant_def)
  qed
  have delta: "unit_delta pds vds u = sum_list (map (\<lambda>i. if unit_of_item i = u then outstanding i else 0) ?rel)"
    if "known_unit d u" for u
  proof -
    have "moved_back recorded ?ls u = sum_list (map (\<lambda>i. if unit_of_item i = u then outstanding i else 0) ?rel)"
      unfolding moved_back_def by (rule arg_cong [of _ _ sum_list]) (auto simp: rd)
    with restock_delta(3) [OF fo' that] in_locked in_variants show ?thesis by simp
  qed
  have "\<forall>r \<in> set rs. ir_order_item_id r \<in> oi_id ` set ?rel"
    using arg_cong [OF rs(2), of set] unfolding ids by force
  moreover have "distinct (map fst pds)" "distinct (map fst vds)" using fold_restock_lines [OF fo] by auto
  ultimately show ?thesis using that [OF b _ _ mv [unfolded rd(2)] delta] by blast
qed

lemma outstanding_nonneg: "restocks_ok d \<Longrightarrow> i \<in> set (d_order_items d) \<Longrightarrow> 0 \<le> outstanding i"
  by (simp add: restocks_ok_def outstanding_def)

lemma reserved_release:
  "sum_list (map (\<lambda>i. if unit_of_item i = u then outstanding i else 0) (release_lines oid t))
   + sum_list (map (\<lambda>i. if unit_of_item i = u then outstanding i else 0) (filter (to_release oid) t))
   = sum_list (map (\<lambda>i. if unit_of_item i = u then outstanding i else 0) t)"
  by (induction t) (auto simp: release_lines_def)

section \<open>Releasing an order's stock keeps the books\<close>

definition fully_back :: "int \<Rightarrow> db \<Rightarrow> bool" where
  "fully_back oid d \<longleftrightarrow> (\<forall>i \<in> set (d_order_items d). oi_order_id i = oid \<longrightarrow> outstanding i = 0)"

definition total_units :: "db \<Rightarrow> sold_unit \<Rightarrow> int" where
  "total_units d u = unit_stock d u + reserved d u"

lemma release_keys [simp]: "map oi_id (release_lines oid t) = map oi_id t"
  by (simp add: release_lines_def)

lemma release_keys_set [simp]: "oi_id ` set (release_lines oid t) = oi_id ` set t"
  by (metis release_keys set_map)

lemma release_in:
  "i \<in> set (release_lines oid t) \<longleftrightarrow> (\<exists>j \<in> set t. i = (if to_release oid j then put_back j else j))"
  by (auto simp: release_lines_def)

lemma filter_release:
  "filter (\<lambda>i. oi_order_id i = x) (release_lines oid t) = release_lines oid (filter (\<lambda>i. oi_order_id i = x) t)"
  by (induction t) (auto simp: release_lines_def)

lemma order_sound_release: "order_sound ord (release_lines oid rows) = order_sound ord rows"
proof -
  have "map line_total_cents (release_lines oid rows) = map line_total_cents rows"
    "map oi_discount_cents (release_lines oid rows) = map oi_discount_cents rows"
    by (simp_all add: release_lines_def)
  moreover have "list_all P (release_lines oid rows) = list_all P rows" if "\<And>i. P (put_back i) = P i" for P
    using that by (induction rows) (simp_all add: release_lines_def)
  ultimately show ?thesis by (simp add: order_sound_def)
qed

lemma orders_ok_release:
  assumes "orders_ok d" and "d_orders d' = d_orders d" and "d_order_items d' = release_lines oid (d_order_items d)"
    and "d_next d' = d_next d"
  shows "orders_ok d'"
proof -
  have "oi_id i < d_next d \<and> oi_order_id i \<in> o_id ` set (d_orders d)" if "i \<in> set (release_lines oid (d_order_items d))" for i
    using that orders_okD(5,6) [OF assms(1)] by (auto simp: release_in)
  moreover have "order_sound ord (order_items_of (o_id ord) d')" if "ord \<in> set (d_orders d)" for ord
    using orders_okD(4) [OF assms(1) that] by (simp add: order_items_of_def assms(3) filter_release order_sound_release)
  ultimately show ?thesis using orders_okD(1-3) [OF assms(1)] by (simp add: orders_ok_def assms(2-4))
qed

lemma restocks_ok_release:
  assumes "restocks_ok d" and "orders_ok d" and "d_order_items d' = release_lines oid (d_order_items d)"
    and "d_restocks d' = d_restocks d @ rs"
    and "\<forall>r \<in> set rs. ir_order_item_id r \<in> oi_id ` set (filter (to_release oid) (d_order_items d))"
  shows "restocks_ok d'"
proof -
  note dist = orders_okD(2) [OF assms(2)]
  have keys: "oi_id ` set (d_order_items d') = oi_id ` set (d_order_items d)"
    by (simp add: assms(3))
  have "0 \<le> oi_restocked_quantity i \<and> oi_restocked_quantity i \<le> oi_quantity i" if "i \<in> set (d_order_items d')" for i
    using that assms(1) by (fastforce simp: assms(3) release_in restocks_ok_def to_release_def)
  moreover have "outstanding i = 0"
    if r: "r \<in> set (d_restocks d')" "ir_event_key r = ORDER_RELEASE" and i: "i \<in> set (d_order_items d')" "oi_id i = ir_order_item_id r" for r i
  proof -
    obtain j where j: "j \<in> set (d_order_items d)" "i = (if to_release oid j then put_back j else j)"
      using i(1) by (auto simp: assms(3) release_in)
    then have ij: "oi_id j = ir_order_item_id r" using i(2) by (auto split: if_splits)
    show ?thesis
    proof (cases "r \<in> set (d_restocks d)")
      case True
      with assms(1) r(2) j(1) ij have "outstanding j = 0" by (simp add: restocks_ok_def)
      with j(2) show ?thesis by simp
    next
      case False
      with r(1) assms(4,5) ij have "oi_id j \<in> oi_id ` set (filter (to_release oid) (d_order_items d))" by simp
      then have "to_release oid j" using key_in_filter [OF dist j(1)] by blast
      with j(2) show ?thesis by simp
    qed
  qed
  moreover have "ir_order_item_id r \<in> oi_id ` set (d_order_items d')" if "r \<in> set (d_restocks d')" for r
    unfolding keys using that assms(1,5) by (auto simp: assms(4) restocks_ok_def)
  ultimately show ?thesis by (simp add: restocks_ok_def)
qed

text \<open>The tables a release writes; every line keeps its owner and its quantity.\<close>

abbreviation line_facts :: "order_item list \<Rightarrow> (int \<times> int \<times> int) list" where
  "line_facts \<equiv> map (\<lambda>i. (oi_id i, oi_order_id i, oi_quantity i))"

lemma line_facts_release: "line_facts (release_lines oid t) = line_facts t"
  by (simp add: release_lines_def)

definition stock_write :: "db \<Rightarrow> db \<Rightarrow> bool" where
  "stock_write d d' \<longleftrightarrow> d' = d\<lparr>d_products := d_products d', d_variants := d_variants d',
     d_stock_movements := d_stock_movements d', d_restocks := d_restocks d', d_order_items := d_order_items d'\<rparr>
     \<and> line_facts (d_order_items d') = line_facts (d_order_items d)"

lemma stock_writeE:
  assumes "stock_write d d'"
  obtains ps vs ms rs ii where
    "d' = d\<lparr>d_products := ps, d_variants := vs, d_stock_movements := ms, d_restocks := rs, d_order_items := ii\<rparr>"
    "line_facts ii = line_facts (d_order_items d)"
proof -
  from assms have 1: "d' = d\<lparr>d_products := d_products d', d_variants := d_variants d', d_stock_movements := d_stock_movements d',
      d_restocks := d_restocks d', d_order_items := d_order_items d'\<rparr>"
    and 2: "line_facts (d_order_items d') = line_facts (d_order_items d)" unfolding stock_write_def by blast+
  show ?thesis by (rule that [OF 1 2])
qed

lemma restock_once_effect:
  assumes "restock_once ord now d = Inr (b, ord', d')" and "restocks_ok d" "orders_ok d" "stock_ok d" "ledger_ok d"
    and "o_stock_released_at ord \<noteq> None \<Longrightarrow> fully_back (o_id ord) d"
  shows "stock_ok d'" "ledger_ok d'" "orders_ok d'" "restocks_ok d'" "fully_back (o_id ord) d'"
    and "\<And>oid. fully_back oid d \<Longrightarrow> fully_back oid d'"
    and "\<And>u. known_unit d' u = known_unit d u" and "\<And>u. known_unit d u \<Longrightarrow> total_units d' u = total_units d u"
    and "stock_write d d'"
    and "ord' = ord\<lparr>o_stock_released_at := (case o_stock_released_at ord of None \<Rightarrow> Some now | Some t \<Rightarrow> Some t)\<rparr>"
proof -
  have "stock_ok d' \<and> ledger_ok d' \<and> orders_ok d' \<and> restocks_ok d' \<and> fully_back (o_id ord) d'
    \<and> (\<forall>oid. fully_back oid d \<longrightarrow> fully_back oid d') \<and> (\<forall>u. known_unit d' u = known_unit d u)
    \<and> (\<forall>u. known_unit d u \<longrightarrow> total_units d' u = total_units d u) \<and> stock_write d d'
    \<and> ord' = ord\<lparr>o_stock_released_at := (case o_stock_released_at ord of None \<Rightarrow> Some now | Some t \<Rightarrow> Some t)\<rparr>"
  proof (cases "o_stock_released_at ord")
    case (Some t)
    then have "d' = d" "ord' = ord" using assms(1) by (simp_all add: restock_once_def)
    moreover have "stock_write d d" unfolding stock_write_def by simp
    moreover have "ord\<lparr>o_stock_released_at := Some t\<rparr> = ord" using Some by (cases ord) simp
    ultimately show ?thesis using assms(2-6) Some by simp
  next
    case None
    obtain pds vds rs ps vs where b: "b" "ord' = ord\<lparr>o_stock_released_at := Some now\<rparr>"
      and dd: "distinct (map fst pds)" "distinct (map fst vds)"
      and mv: "move_units (restock_ctx (o_id ord)) ps pds vs vds
       (d\<lparr>d_restocks := d_restocks d @ rs, d_order_items := release_lines (o_id ord) (d_order_items d)\<rparr>) = Inr d'"
      and delta: "\<And>u. known_unit d u \<Longrightarrow> unit_delta pds vds u =
       sum_list (map (\<lambda>i. if unit_of_item i = u then outstanding i else 0) (filter (to_release (o_id ord)) (d_order_items d)))"
      and rs: "\<forall>r \<in> set rs. ir_order_item_id r \<in> oi_id ` set (filter (to_release (o_id ord)) (d_order_items d))"
      by (rule restock_once_Inr [OF assms(1) None assms(2,3)]) (rule that)
    let ?d1 = "d\<lparr>d_restocks := d_restocks d @ rs, d_order_items := release_lines (o_id ord) (d_order_items d)\<rparr>"
    have c: "unit_stock ?d1 u = unit_stock d u" "known_unit ?d1 u = known_unit d u" "stock_ok ?d1 = stock_ok d" "ledger_ok ?d1 = ledger_ok d" for u
      by (rule stock_cong; simp)+
    note d' = move_units_Inr(1) [OF mv dd]
    have it: "d_order_items d' = release_lines (o_id ord) (d_order_items d)" "d_restocks d' = d_restocks d @ rs"
      "d_orders d' = d_orders d" "d_next d' = d_next d" by (simp_all add: d')
    have "stock_ok d'" by (rule move_units_stock_ok [OF mv dd]) (simp add: c assms(4))
    moreover have "ledger_ok d'" by (rule move_units_ledger_ok [OF mv dd]) (simp_all add: c assms(4,5))
    moreover have "orders_ok d'" by (rule orders_ok_release [OF assms(3) it(3,1,4)])
    moreover have "restocks_ok d'" by (rule restocks_ok_release [OF assms(2,3) it(1,2) rs])
    moreover have "fully_back (o_id ord) d'"
      using outstanding_nonneg [OF assms(2)] unfolding fully_back_def it(1)
      by (force simp: release_in to_release_def)
    moreover have "fully_back oid d \<longrightarrow> fully_back oid d'" for oid
      unfolding fully_back_def it(1) by (auto simp: release_in)
    moreover have "known_unit d' u = known_unit d u" for u using move_units_known [OF mv dd] c(2) by simp
    moreover have "total_units d' u = total_units d u" if ku: "known_unit d u" for u
      using move_units_unit_stock [OF mv dd, of u] c(1,2) delta [OF ku] ku reserved_release [of u "o_id ord" "d_order_items d"]
      by (simp add: total_units_def reserved_def it(1))
    moreover have "stock_write d d'" unfolding stock_write_def it(1) line_facts_release by (simp add: d')
    ultimately show ?thesis using b None by simp
  qed
  then show "stock_ok d'" "ledger_ok d'" "orders_ok d'" "restocks_ok d'" "fully_back (o_id ord) d'"
    and "\<And>oid. fully_back oid d \<Longrightarrow> fully_back oid d'"
    and "\<And>u. known_unit d' u = known_unit d u" and "\<And>u. known_unit d u \<Longrightarrow> total_units d' u = total_units d u"
    and "stock_write d d'"
    and "ord' = ord\<lparr>o_stock_released_at := (case o_stock_released_at ord of None \<Rightarrow> Some now | Some t \<Rightarrow> Some t)\<rparr>"
    by blast+
qed

end
