(* ===== verification/Return_Restock.thy ===== *)
theory Return_Restock
  imports Restock
begin

text \<open>
  What putting returned goods back in stock does (\<open>_restock\<close> of the return service): each recorded
  line is credited once, never beyond what was bought, and exactly the credited units reappear on
  the shelf. Lines of an order whose stock was already released cannot be credited again.
\<close>

section \<open>One event\<close>

definition recount :: "(order_item \<Rightarrow> int) \<Rightarrow> order_item list \<Rightarrow> order_item list" where
  "recount f = map (\<lambda>i. i\<lparr>oi_restocked_quantity := f i\<rparr>)"

lemma recount_fields [simp]:
  "unit_of_item (i\<lparr>oi_restocked_quantity := q\<rparr>) = unit_of_item i" "line_total_cents (i\<lparr>oi_restocked_quantity := q\<rparr>) = line_total_cents i"
  by (simp_all add: unit_of_item_def line_total_cents_def split: option.split)

lemma recount_keys [simp]: "map oi_id (recount f t) = map oi_id t"
  by (simp add: recount_def comp_def)

lemma line_facts_recount [simp]: "line_facts (recount f t) = line_facts t"
  by (simp add: recount_def comp_def)

lemma recount_keys_set [simp]: "oi_id ` set (recount f t) = oi_id ` set t"
  by (metis recount_keys set_map)

lemma recount_same [simp]: "recount oi_restocked_quantity t = t"
  by (simp add: recount_def map_idI)

lemma recount_recount: "recount f (recount g t) = recount (\<lambda>i. f (i\<lparr>oi_restocked_quantity := g i\<rparr>)) t"
  by (simp add: recount_def)

lemma filter_recount:
  "filter (\<lambda>i. oi_order_id i = x) (recount f t) = recount f (filter (\<lambda>i. oi_order_id i = x) t)"
  by (induction t) (auto simp: recount_def)

lemma order_sound_recount [simp]: "order_sound ord (recount f rows) = order_sound ord rows"
  by (simp add: order_sound_def recount_def list_all_length comp_def)

lemma orders_ok_recount:
  assumes "orders_ok d" and "d_orders d' = d_orders d" and "d_order_items d' = recount f (d_order_items d)" and "d_next d' = d_next d"
  shows "orders_ok d'"
proof -
  have "oi_id i < d_next d \<and> oi_order_id i \<in> o_id ` set (d_orders d)" if "i \<in> set (recount f (d_order_items d))" for i
    using that orders_okD(5,6) [OF assms(1)] by (auto simp: recount_def)
  moreover have "order_sound ord (order_items_of (o_id ord) d')" if "ord \<in> set (d_orders d)" for ord
    using orders_okD(4) [OF assms(1) that] by (simp add: order_items_of_def assms(3) filter_recount)
  ultimately show ?thesis using orders_okD(1-3) [OF assms(1)] by (simp add: orders_ok_def assms(2-4))
qed

text \<open>The row of one line with \<open>q\<close> more units back.\<close>

definition credit :: "int \<Rightarrow> order_item \<Rightarrow> order_item" where
  "credit q i = i\<lparr>oi_restocked_quantity := oi_restocked_quantity i + q\<rparr>"

lemma credit_fields [simp]:
  "oi_id (credit q i) = oi_id i" "oi_order_id (credit q i) = oi_order_id i" "oi_quantity (credit q i) = oi_quantity i"
  "unit_of_item (credit q i) = unit_of_item i" "outstanding (credit q i) = outstanding i - q"
  "oi_restocked_quantity (credit q i) = oi_restocked_quantity i + q"
  by (simp_all add: credit_def outstanding_def)

lemma credit_row:
  assumes "distinct (map oi_id t)" and "row oi_id (oi_id i) t = Some i"
  shows "set_row oi_id (credit q i) t = recount (\<lambda>j. oi_restocked_quantity j + (if oi_id j = oi_id i then q else 0)) t"
  unfolding set_row_def recount_def
proof (rule map_cong [OF refl])
  fix j
  assume "j \<in> set t"
  then have "oi_id j = oi_id i \<Longrightarrow> j = i" using row_in_distinct [OF assms(1)] assms(2) by fastforce
  then show "(if oi_id j = oi_id (credit q i) then credit q i else j)
      = j\<lparr>oi_restocked_quantity := oi_restocked_quantity j + (if oi_id j = oi_id i then q else 0)\<rparr>"
    by (cases "oi_id j = oi_id i") (simp_all add: credit_def)
qed

lemma add_event_cases:
  assumes "add_restock_event (i, k, q) (recorded, d) = Inr (recorded', d')"
  obtains (old) "recorded' = recorded" "d' = d"
    | (new) item rs where "row oi_id i (d_order_items d) = Some item" "0 < q" "q \<le> outstanding item" "recorded' = recorded @ [i]"
      "map ir_order_item_id rs = [i]" "map ir_event_key rs = [k]"
      "d' = d\<lparr>d_restocks := d_restocks d @ rs, d_order_items := set_row oi_id (credit q item) (d_order_items d)\<rparr>"
proof (cases "list_ex (\<lambda>r. ir_order_item_id r = i \<and> ir_event_key r = k) (d_restocks d)")
  case True
  with assms that(1) show ?thesis by (simp add: add_restock_event_def)
next
  case False
  with assms obtain item where "row oi_id i (d_order_items d) = Some item" "0 < q" "\<not> oi_quantity item < oi_restocked_quantity item + q"
    "recorded' = recorded @ [i]"
    "d' = d\<lparr>d_restocks := d_restocks d @ [\<lparr>ir_order_item_id = i, ir_event_key = k, ir_quantity = q\<rparr>],
       d_order_items := set_row oi_id (item\<lparr>oi_restocked_quantity := oi_restocked_quantity item + q\<rparr>) (d_order_items d)\<rparr>"
    by (auto simp: add_restock_event_def not_le split: if_splits option.splits)
  then show ?thesis
    by (intro that(2) [of item "[\<lparr>ir_order_item_id = i, ir_event_key = k, ir_quantity = q\<rparr>]"]) (simp_all add: credit_def outstanding_def)
qed

lemma restocks_ok_credit:
  assumes "restocks_ok d" and "orders_ok d" and "row oi_id i (d_order_items d) = Some item" and "0 < q" and "q \<le> outstanding item"
    and "map ir_order_item_id rs = [i]" and "map ir_event_key rs = [k]" and "k \<noteq> ORDER_RELEASE"
  shows "restocks_ok (d\<lparr>d_restocks := d_restocks d @ rs, d_order_items := set_row oi_id (credit q item) (d_order_items d)\<rparr>)"
proof -
  have item: "item \<in> set (d_order_items d)" "oi_id item = i" using row_SomeD [OF assms(3)] by simp_all
  have rs: "\<forall>r \<in> set rs. ir_order_item_id r = i \<and> ir_event_key r = k" using assms(6,7) by (cases rs) auto
  have "0 \<le> oi_restocked_quantity j \<and> oi_restocked_quantity j \<le> oi_quantity j"
    if "j \<in> set (set_row oi_id (credit q item) (d_order_items d))" for j
    using set_set_rowD [OF that] assms(1,4,5) item by (auto simp: restocks_ok_def outstanding_def)
  moreover have "outstanding j = 0"
    if r: "r \<in> set (d_restocks d)" "ir_event_key r = ORDER_RELEASE"
      and j: "j \<in> set (set_row oi_id (credit q item) (d_order_items d))" "oi_id j = ir_order_item_id r" for r j
  proof -
    have "outstanding x = 0" if "x \<in> set (d_order_items d)" "oi_id x = ir_order_item_id r" for x
      using assms(1) r that by (simp add: restocks_ok_def)
    with set_set_rowD [OF j(1)] j(2) item assms(4,5) show ?thesis by force
  qed
  moreover have "ir_order_item_id r \<in> oi_id ` set (set_row oi_id (credit q item) (d_order_items d))" if "r \<in> set (d_restocks d @ rs)" for r
  proof -
    have "ir_order_item_id r \<in> oi_id ` set (d_order_items d)" using that assms(1) rs item by (auto simp: restocks_ok_def)
    then show ?thesis by (metis keys_set_row set_map)
  qed
  ultimately show ?thesis
    using assms(8) rs unfolding restocks_ok_def by auto
qed

lemma fully_back_credit:
  assumes "row oi_id i (d_order_items d) = Some item" and "0 < q" and "q \<le> outstanding item" and "fully_back oid d"
  shows "fully_back oid (d\<lparr>d_restocks := rs, d_order_items := set_row oi_id (credit q item) (d_order_items d)\<rparr>)"
  using assms row_SomeD [OF assms(1)] by (fastforce simp: fully_back_def dest: set_set_rowD)

lemma reserved_credit:
  assumes "orders_ok d" and "row oi_id i (d_order_items d) = Some item"
  shows "reserved (d\<lparr>d_restocks := rs, d_order_items := set_row oi_id (credit q item) (d_order_items d)\<rparr>) u
    = reserved d u - (if unit_of_item item = u then q else 0)"
proof -
  have "row oi_id (oi_id (credit q item)) (d_order_items d) = Some item" using assms(2) row_SomeD [OF assms(2)] by simp
  from sum_list_set_row [OF orders_okD(2) [OF assms(1)] this, of "\<lambda>i. if unit_of_item i = u then outstanding i else 0"]
  show ?thesis by (simp add: reserved_def)
qed

section \<open>All events of a return\<close>

definition events_of :: "key \<Rightarrow> (order_item \<times> int) list \<Rightarrow> (int \<times> key \<times> int) list" where
  "events_of k = map (\<lambda>(l, q). (oi_id l, k, q))"

definition lines_known :: "(order_item \<times> int) list \<Rightarrow> db \<Rightarrow> bool" where
  "lines_known ls d \<longleftrightarrow> (\<forall>(l, q) \<in> set ls. \<exists>j. row oi_id (oi_id l) (d_order_items d) = Some j \<and> unit_of_item j = unit_of_item l)"

lemma moved_back_Cons:
  "moved_back recorded ((l, q) # ls) u = (if oi_id l \<in> set recorded \<and> unit_of_item l = u then q else 0) + moved_back recorded ls u"
  by (simp add: moved_back_def)

lemma moved_back_extra:
  "i \<notin> (\<lambda>(l, q). oi_id l) ` set ls \<Longrightarrow> moved_back (i # recorded) ls u = moved_back recorded ls u"
  unfolding moved_back_def by (rule arg_cong [of _ _ sum_list]) force

lemma record_events_effect:
  assumes "rfold add_restock_event (events_of k ls) (recorded, d) = Inr (recorded', d')"
    and "restocks_ok d" and "orders_ok d" and "k \<noteq> ORDER_RELEASE" and "lines_known ls d" and "distinct (map (\<lambda>(l, q). oi_id l) ls)"
  shows "\<exists>ids rs f. recorded' = recorded @ ids \<and> set ids \<subseteq> (\<lambda>(l, q). oi_id l) ` set ls
    \<and> d' = d\<lparr>d_restocks := rs, d_order_items := recount f (d_order_items d)\<rparr>
    \<and> restocks_ok d' \<and> (\<forall>oid. fully_back oid d \<longrightarrow> fully_back oid d')
    \<and> (\<forall>u. reserved d' u + moved_back ids ls u = reserved d u)"
  using assms
proof (induction ls arbitrary: recorded d)
  case Nil
  then have "recorded' = recorded" "d' = d" by (simp_all add: events_of_def)
  moreover have "d = d\<lparr>d_restocks := d_restocks d, d_order_items := recount oi_restocked_quantity (d_order_items d)\<rparr>" by simp
  ultimately show ?case using Nil.prems(2)
    by (intro exI [of _ "[]"] exI [of _ "d_restocks d"] exI [of _ oi_restocked_quantity]) (auto simp: moved_back_def simp del: recount_same)
next
  case (Cons e ls)
  obtain l q where e: "e = (l, q)" by fastforce
  obtain recorded1 d1 where ev: "add_restock_event (oi_id l, k, q) (recorded, d) = Inr (recorded1, d1)"
    and rest: "rfold add_restock_event (events_of k ls) (recorded1, d1) = Inr (recorded', d')"
    using Cons.prems(1) by (auto simp: e events_of_def res_simps)
  have fresh_id: "oi_id l \<notin> (\<lambda>(l, q). oi_id l) ` set ls" and dist: "distinct (map (\<lambda>(l, q). oi_id l) ls)"
    using Cons.prems(6) by (simp_all add: e)
  have known: "lines_known ls d" using Cons.prems(5) by (simp add: lines_known_def)
  from ev show ?case
  proof (cases rule: add_event_cases)
    case old
    with Cons.IH [OF rest [unfolded old] Cons.prems(2-4) known dist] obtain ids rs f where
      i: "recorded' = recorded @ ids" "set ids \<subseteq> (\<lambda>(l, q). oi_id l) ` set ls"
        "d' = d\<lparr>d_restocks := rs, d_order_items := recount f (d_order_items d)\<rparr>" "restocks_ok d'"
        "\<forall>oid. fully_back oid d \<longrightarrow> fully_back oid d'" "\<forall>u. reserved d' u + moved_back ids ls u = reserved d u" by blast
    have "oi_id l \<notin> set ids" using i(2) fresh_id by blast
    then have "\<forall>u. reserved d' u + moved_back ids (e # ls) u = reserved d u" using i(6) by (simp add: e moved_back_Cons)
    with i show ?thesis by (intro exI [of _ ids] exI [of _ rs] exI [of _ f]) auto
  next
    case (new item rs1)
    have item: "oi_id item = oi_id l" using row_SomeD [OF new(1)] by simp
    have ui: "unit_of_item item = unit_of_item l" using Cons.prems(5) new(1) by (auto simp: e lines_known_def)
    let ?g = "\<lambda>j. oi_restocked_quantity j + (if oi_id j = oi_id item then q else 0)"
    have rc: "d_order_items d1 = recount ?g (d_order_items d)"
      using credit_row [OF orders_okD(2) [OF Cons.prems(3)], of item q] new(1) item by (simp add: new(7))
    have d1: "restocks_ok d1" "orders_ok d1" "lines_known ls d1"
    proof -
      show "restocks_ok d1" unfolding new(7) by (rule restocks_ok_credit [OF Cons.prems(2,3) new(1-3,5,6) Cons.prems(4)])
      show "orders_ok d1" by (rule orders_ok_recount [OF Cons.prems(3) _ rc]) (simp_all add: new(7))
      have r: "row oi_id i (d_order_items d1) = map_option (\<lambda>j. j\<lparr>oi_restocked_quantity := ?g j\<rparr>) (row oi_id i (d_order_items d))" for i
        unfolding rc recount_def by (rule row_map) simp
      show "lines_known ls d1"
        unfolding lines_known_def
      proof clarify
        fix a b
        assume "(a, b) \<in> set ls"
        with known obtain j where "row oi_id (oi_id a) (d_order_items d) = Some j" "unit_of_item j = unit_of_item a"
          unfolding lines_known_def by blast
        then show "\<exists>j. row oi_id (oi_id a) (d_order_items d1) = Some j \<and> unit_of_item j = unit_of_item a" by (simp add: r)
      qed
    qed
    from Cons.IH [OF rest d1(1,2) Cons.prems(4) d1(3) dist] obtain ids rs f where
      i: "recorded' = recorded1 @ ids" "set ids \<subseteq> (\<lambda>(l, q). oi_id l) ` set ls"
        "d' = d1\<lparr>d_restocks := rs, d_order_items := recount f (d_order_items d1)\<rparr>" "restocks_ok d'"
        "\<forall>oid. fully_back oid d1 \<longrightarrow> fully_back oid d'" "\<forall>u. reserved d' u + moved_back ids ls u = reserved d1 u" by blast
    have "reserved d' u + moved_back (oi_id l # ids) (e # ls) u = reserved d u" for u
      using spec [OF i(6), of u] reserved_credit [OF Cons.prems(3) new(1), where rs = "d_restocks d @ rs1" and q = q and u = u]
      by (simp add: e moved_back_Cons moved_back_extra [OF fresh_id] new(7) ui split: if_splits)
    moreover have "fully_back oid d \<longrightarrow> fully_back oid d'" for oid
      using i(5) fully_back_credit [OF new(1-3)] by (simp add: new(7))
    moreover have "d' = d\<lparr>d_restocks := rs, d_order_items := recount (\<lambda>i. f (i\<lparr>oi_restocked_quantity := ?g i\<rparr>)) (d_order_items d)\<rparr>"
      unfolding i(3) rc recount_recount by (simp add: new(7))
    moreover have "recorded' = recorded @ oi_id l # ids" "set (oi_id l # ids) \<subseteq> (\<lambda>(l, q). oi_id l) ` set (e # ls)"
      using i(1,2) new(4) by (auto simp: e)
    ultimately show ?thesis using i(4) by blast
  qed
qed

section \<open>Putting a return back in stock\<close>

lemma rmap_line_of_item:
  assumes "rmap (line_of_item lines) is = Inr ls"
  shows "map (\<lambda>(l, q). oi_id l) ls = map ri_order_item_id is" and "map (\<lambda>(l, q). q) ls = map arrived is"
    and "\<And>l q. (l, q) \<in> set ls \<Longrightarrow> l \<in> set lines"
proof -
  have "map (\<lambda>(l, q). oi_id l) ls = map ri_order_item_id is \<and> map (\<lambda>(l, q). q) ls = map arrived is \<and> (\<forall>(l, q) \<in> set ls. l \<in> set lines)"
    using assms
    by (induction "is" arbitrary: ls) (auto simp: line_of_item_def res_simps split: option.splits dest!: row_SomeD)
  then show "map (\<lambda>(l, q). oi_id l) ls = map ri_order_item_id is" "map (\<lambda>(l, q). q) ls = map arrived is"
    "\<And>l q. (l, q) \<in> set ls \<Longrightarrow> l \<in> set lines" by blast+
qed

lemma events_of_return:
  assumes "rmap (line_of_item lines) is = Inr ls"
  shows "map (\<lambda>i. (ri_order_item_id i, k, arrived i)) is = events_of k ls"
  using assms
  by (induction "is" arbitrary: ls) (auto simp: line_of_item_def events_of_def res_simps split: option.splits dest!: row_SomeD)

lemma restock_return_Inr:
  assumes "restock_return ord ret admin d = Inr (ret', d')" and "filter to_restock (rt_items ret) \<noteq> []"
  obtains ls lv ps recorded d1 pds vds where "rmap (line_of_item (order_items_of (o_id ord) d)) (filter to_restock (rt_items ret)) = Inr ls"
    "ps = get_many_for_update (map (\<lambda>(l, _). oi_product_id l) ls) d"
    "lv = (if List.map_filter (\<lambda>(l, _). oi_variant_id l) ls = [] then [] else get_variants_for_update (List.map_filter (\<lambda>(l, _). oi_variant_id l) ls) d)"
    "rfold add_restock_event (events_of (return_key ret) ls) ([], d) = Inr (recorded, d1)"
    "fold (restock_line lv recorded) (entries_of ps ls) ([], []) = (pds, vds)"
    "move_units (return_ctx ord ret admin) ps pds lv vds d1 = Inr d'"
    "ret' = ret\<lparr>rt_items := map (mark_restocked recorded) (rt_items ret)\<rparr>"
proof -
  let ?todo = "filter to_restock (rt_items ret)"
  obtain ls where ls: "rmap (line_of_item (order_items_of (o_id ord) d)) ?todo = Inr ls"
    using assms by (auto simp: restock_return_def Let_def res_simps)
  let ?ps = "get_many_for_update (map (\<lambda>(l, _). oi_product_id l) ls) d"
  let ?vids = "List.map_filter (\<lambda>(l, _). oi_variant_id l) ls"
  let ?lv = "if ?vids = [] then [] else get_variants_for_update ?vids d"
  obtain recorded d1 where ev: "record_restock_events (map (\<lambda>i. (ri_order_item_id i, return_key ret, arrived i)) ?todo) d = Inr (recorded, d1)"
    and rest: "(let (stock_back, variant_back) = fold (restock_line ?lv recorded) (entries_of ?ps ls) ([], []) in
      rbind (move_units (return_ctx ord ret admin) ?ps stock_back ?lv variant_back d1) (\<lambda>d.
      Inr (ret\<lparr>rt_items := map (mark_restocked recorded) (rt_items ret)\<rparr>, d))) = Inr (ret', d')"
    using assms ls unfolding restock_return_def Let_def entries_of_def
    by (auto simp: res_simps split: sum.splits shop_error.splits)
  obtain pds vds where fo: "fold (restock_line ?lv recorded) (entries_of ?ps ls) ([], []) = (pds, vds)" by fastforce
  show ?thesis
  proof (rule that [OF ls refl refl _ fo])
    show "rfold add_restock_event (events_of (return_key ret) ls) ([], d) = Inr (recorded, d1)"
      using ev unfolding record_restock_events_def events_of_return [OF ls] .
  qed (use rest fo in \<open>auto simp: res_simps\<close>)
qed

lemma return_key_not_release: "return_key ret \<noteq> ORDER_RELEASE"
  by (simp add: return_key_def ORDER_RELEASE_def)

lemma restock_return_effect:
  assumes "restock_return ord ret admin d = Inr (ret', d')" and "distinct (map ri_order_item_id (rt_items ret))"
    and "restocks_ok d" "orders_ok d" "stock_ok d" "ledger_ok d"
  shows "\<exists>recorded ls ps vs ms rs f. ret' = ret\<lparr>rt_items := map (mark_restocked recorded) (rt_items ret)\<rparr>
    \<and> rmap (line_of_item (order_items_of (o_id ord) d)) (filter to_restock (rt_items ret)) = Inr ls
    \<and> d' = d\<lparr>d_products := ps, d_variants := vs, d_stock_movements := ms, d_restocks := rs, d_order_items := recount f (d_order_items d)\<rparr>
    \<and> stock_ok d' \<and> ledger_ok d' \<and> orders_ok d' \<and> restocks_ok d' \<and> (\<forall>oid. fully_back oid d \<longrightarrow> fully_back oid d')
    \<and> (\<forall>u. known_unit d' u = known_unit d u)
    \<and> (\<forall>u. known_unit d u \<longrightarrow> unit_stock d' u = unit_stock d u + moved_back recorded ls u)
    \<and> (\<forall>u. reserved d' u + moved_back recorded ls u = reserved d u)"
proof (cases "filter to_restock (rt_items ret) = []")
  case True
  then have "ret' = ret" "d' = d" using assms(1) by (simp_all add: restock_return_def)
  moreover have "map (mark_restocked []) (rt_items ret) = rt_items ret" by (simp add: mark_restocked_def map_idI)
  moreover have "d = d\<lparr>d_products := d_products d, d_variants := d_variants d, d_stock_movements := d_stock_movements d,
      d_restocks := d_restocks d, d_order_items := recount oi_restocked_quantity (d_order_items d)\<rparr>" by simp
  ultimately show ?thesis using assms(3-6) True
    by (intro exI [of _ "[]"] exI [of _ "d_products d"] exI [of _ "d_variants d"] exI [of _ "d_stock_movements d"]
        exI [of _ "d_restocks d"] exI [of _ oi_restocked_quantity]) (simp add: moved_back_def)
next
  case False
  with assms(1) show ?thesis
  proof (rule restock_return_Inr)
    fix ls :: "(order_item \<times> int) list" and lv ps recorded d1 pds vds
    let ?vids = "List.map_filter (\<lambda>(l, _). oi_variant_id l) ls"
    assume ls: "rmap (line_of_item (order_items_of (o_id ord) d)) (filter to_restock (rt_items ret)) = Inr ls"
      and ps: "ps = get_many_for_update (map (\<lambda>(l, _). oi_product_id l) ls) d"
      and lv: "lv = (if ?vids = [] then [] else get_variants_for_update ?vids d)"
      and ev: "rfold add_restock_event (events_of (return_key ret) ls) ([], d) = Inr (recorded, d1)"
      and fo: "fold (restock_line lv recorded) (entries_of ps ls) ([], []) = (pds, vds)"
      and mv: "move_units (return_ctx ord ret admin) ps pds lv vds d1 = Inr d'"
      and ret': "ret' = ret\<lparr>rt_items := map (mark_restocked recorded) (rt_items ret)\<rparr>"
    note li = rmap_line_of_item [OF ls]
    have "lines_known ls d"
      using row_in_distinct [OF orders_okD(2) [OF assms(4)]] li(3) by (auto simp: lines_known_def order_items_of_def)
    moreover have "distinct (map (\<lambda>(l, q). oi_id l) ls)" unfolding li(1) using assms(2) by (rule distinct_map_filter)
    ultimately obtain rs f where d1: "d1 = d\<lparr>d_restocks := rs, d_order_items := recount f (d_order_items d)\<rparr>" "restocks_ok d1"
      "\<forall>oid. fully_back oid d \<longrightarrow> fully_back oid d1" "\<forall>u. reserved d1 u + moved_back recorded ls u = reserved d u"
      using record_events_effect [OF ev assms(3,4) return_key_not_release] by auto
    have dd: "distinct (map fst pds)" "distinct (map fst vds)" using fold_restock_lines [OF fo] by auto
    note d' = move_units_Inr(1) [OF mv dd]
    have c: "unit_stock d1 u = unit_stock d u" "known_unit d1 u = known_unit d u" "stock_ok d1 = stock_ok d" "ledger_ok d1 = ledger_ok d" for u
      by (rule stock_cong; simp add: d1(1))+
    have delta: "unit_delta pds vds u = moved_back recorded ls u" if "known_unit d u" for u
      using fo that
    proof (rule restock_delta(3))
      show "row p_id (oi_product_id l) ps = get_product (oi_product_id l) d" if "(l, q) \<in> set ls" for l q
      proof -
        have "oi_product_id l \<in> set (map (\<lambda>(l, _). oi_product_id l) ls)" using that by force
        then show ?thesis unfolding ps by (simp only: row_locked get_product_def)
      qed
      show "row v_id v lv = get_variant v d" if "(l, q) \<in> set ls" "oi_variant_id l = Some v" for l q v
      proof -
        have "v \<in> set ?vids" using that by (force simp: List.map_filter_def)
        then show ?thesis unfolding lv by (auto simp: row_locked get_variant_def)
      qed
    qed
    have it: "d_order_items d' = recount f (d_order_items d)" "d_restocks d' = rs" by (simp_all add: d' d1(1))
    have "restocks_ok d'" using d1(2) by (simp add: restocks_ok_def it d1(1))
    moreover have "orders_ok d'" by (rule orders_ok_recount [OF assms(4) _ it(1)]) (simp_all add: d' d1(1))
    moreover have "stock_ok d'" by (rule move_units_stock_ok [OF mv dd]) (simp add: c assms(5))
    moreover have "ledger_ok d'" by (rule move_units_ledger_ok [OF mv dd]) (simp_all add: c assms(5,6))
    moreover have "\<forall>oid. fully_back oid d \<longrightarrow> fully_back oid d'" using d1(3) by (simp add: fully_back_def it d1(1))
    moreover have "known_unit d' u = known_unit d u" for u using move_units_known [OF mv dd] c(2) by simp
    moreover have "unit_stock d' u = unit_stock d u + moved_back recorded ls u" if "known_unit d u" for u
      using move_units_unit_stock [OF mv dd, of u] c(1,2) delta that by simp
    moreover have "reserved d' u + moved_back recorded ls u = reserved d u" for u
      using d1(4) by (simp add: reserved_def it d1(1))
    moreover have "d' = d\<lparr>d_products := d_products d', d_variants := d_variants d', d_stock_movements := d_stock_movements d',
        d_restocks := rs, d_order_items := recount f (d_order_items d)\<rparr>" by (simp add: d' d1(1))
    ultimately show ?thesis using ret' ls by blast
  qed
qed

end
