(* ===== verification/Writes.thy ===== *)
theory Writes
  imports Return_Restock
begin

text \<open>
  The guarded writes every service is made of, as a step relation \<open>db_write\<close>: one update of an order,
  payment, refund or dispute row under its triggers and constraints, one release of an order's
  stock, one placed order, or bookkeeping that touches none of these tables. The invariant
  \<open>shop_ok\<close> is kept by each of them. The locale \<open>write_invariant\<close> carries a property of the writes to
  everything built from them.
\<close>

section \<open>Invariants\<close>

definition order_ok :: "order \<Rightarrow> db \<Rightarrow> bool" where
  "order_ok ord d \<longleftrightarrow>
     (o_status ord = CANCELLED \<longrightarrow> o_stock_released_at ord \<noteq> None)
     \<and> (o_stock_released_at ord \<noteq> None \<longrightarrow> o_status ord \<in> {CANCELLED, REFUNDED} \<and> fully_back (o_id ord) d)
     \<and> (o_status ord = REFUNDED \<longrightarrow> (\<exists>r \<in> set (d_refunds d). rf_order_id r = o_id ord \<and> rf_status r = RefSucceeded))"

definition lifecycle_ok :: "db \<Rightarrow> bool" where
  "lifecycle_ok d \<longleftrightarrow> (\<forall>ord \<in> set (d_orders d). order_ok ord d)"

definition refunds_ok :: "db \<Rightarrow> bool" where
  "refunds_ok d \<longleftrightarrow> distinct (map pm_id (d_payments d)) \<and> distinct (map rf_id (d_refunds d))
     \<and> (\<forall>p \<in> set (d_payments d). pm_id p < d_next d \<and> committed_refunds (pm_id p) (d_refunds d) \<le> pm_amount_cents p)
     \<and> (\<forall>r \<in> set (d_refunds d). rf_id r < d_next d \<and> 0 < rf_amount_cents r \<and> rf_payment_id r \<in> pm_id ` set (d_payments d))"

definition disputes_ok :: "db \<Rightarrow> bool" where
  "disputes_ok d \<longleftrightarrow> distinct (map dp_id (d_disputes d)) \<and> (\<forall>x \<in> set (d_disputes d). dp_id x < d_next d)
     \<and> distinct (map (\<lambda>x. (dp_provider x, dp_provider_dispute_id x)) (d_disputes d))"

definition dedupe_ok :: "db \<Rightarrow> bool" where
  "dedupe_ok d \<longleftrightarrow> distinct (map rc_dedupe_key (d_reconciliations d)) \<and> distinct (map rc_id (d_reconciliations d))
     \<and> (\<forall>r \<in> set (d_reconciliations d). rc_id r < d_next d)
     \<and> distinct (filter (\<lambda>k. k \<noteq> None) (map jb_dedupe_key (d_jobs d)))
     \<and> distinct (map pe_key (d_processed_events d)) \<and> distinct (map de_key (d_deferred_events d))"

text \<open>Nothing is entered as received before the goods arrive; a line is never claimed by more returns than were bought of it.\<close>

definition untouched :: "return_request \<Rightarrow> bool" where
  "untouched r \<longleftrightarrow> (\<forall>x \<in> set (rt_items r). ri_received_quantity x = None \<and> ri_restocked_quantity x = 0)"

definition returns_ok :: "db \<Rightarrow> bool" where
  "returns_ok d \<longleftrightarrow> distinct (map rt_id (d_returns d))
     \<and> (\<forall>r \<in> set (d_returns d). rt_id r < d_next d \<and> return_checks r \<and> (\<forall>x \<in> set (rt_items r). ri_order_item_id x < d_next d)
          \<and> (rt_status r \<in> set OPEN \<longrightarrow> untouched r))
     \<and> (\<forall>i \<in> set (d_order_items d). used (oi_order_id i) d (oi_id i) \<le> oi_quantity i)"

definition shop_ok :: "db \<Rightarrow> bool" where
  "shop_ok d \<longleftrightarrow> stock_ok d \<and> ledger_ok d \<and> cart_ok d \<and> orders_ok d \<and> restocks_ok d \<and> lifecycle_ok d
     \<and> refunds_ok d \<and> disputes_ok d \<and> dedupe_ok d \<and> returns_ok d"

lemma shop_okD:
  assumes "shop_ok d"
  shows "stock_ok d" "ledger_ok d" "cart_ok d" "orders_ok d" "restocks_ok d" "lifecycle_ok d" "refunds_ok d" "disputes_ok d" "dedupe_ok d"
    "returns_ok d"
  using assms by (simp_all add: shop_ok_def)

section \<open>The writes\<close>

definition order_change :: "order \<Rightarrow> order \<Rightarrow> bool" where
  "order_change old new \<longleftrightarrow> new = old\<lparr>o_status := o_status new, o_stock_released_at := o_stock_released_at new,
     o_paid_in_demo_mode := o_paid_in_demo_mode new\<rparr>"

definition payment_change :: "payment \<Rightarrow> payment \<Rightarrow> bool" where
  "payment_change old new \<longleftrightarrow> pm_id new = pm_id old \<and> pm_order_id new = pm_order_id old
     \<and> pm_amount_cents new = pm_amount_cents old \<and> pm_currency new = pm_currency old"

text \<open>The life of a return request; who asked for what never changes.\<close>

definition return_transitions :: "string \<Rightarrow> string list" where
  "return_transitions s =
     (if s = ''requested'' then [''approved'', ''rejected'', ''cancelled'']
      else if s = ''approved'' then [''received'', ''closed'', ''cancelled'']
      else if s = ''received'' then [''closed''] else [])"

definition asked_for :: "return_request \<Rightarrow> (int \<times> int \<times> int \<times> string) list" where
  "asked_for r = map (\<lambda>i. (ri_id i, ri_order_item_id i, ri_quantity i, ri_reason i)) (rt_items r)"

definition return_change :: "return_request \<Rightarrow> return_request \<Rightarrow> bool" where
  "return_change old new \<longleftrightarrow> rt_id new = rt_id old \<and> rt_order_id new = rt_order_id old \<and> rt_user_id new = rt_user_id old
     \<and> rt_requested_at new = rt_requested_at old \<and> rt_customer_comment new = rt_customer_comment old \<and> asked_for new = asked_for old
     \<and> rt_status new \<in> set (return_transitions (rt_status old)) \<and> (rt_status new \<in> set OPEN \<longrightarrow> rt_items new = rt_items old)"

definition shipments_ok :: "db \<Rightarrow> bool" where
  "shipments_ok d \<longleftrightarrow> distinct (map sh_id (d_shipments d))
     \<and> (\<forall>s \<in> set (d_shipments d). sh_id s < d_next d \<and> shipment_checks s d)"

definition claims_bought :: "return_request \<Rightarrow> db \<Rightarrow> bool" where
  "claims_bought r d \<longleftrightarrow> (\<forall>x \<in> set (rt_items r). \<exists>l \<in> set (order_items_of (rt_order_id r) d).
     oi_id l = ri_order_item_id x \<and> used (rt_order_id r) d (oi_id l) + ri_quantity x \<le> oi_quantity l)"

text \<open>A webhook event once settled is not forgotten: only a failed one may be taken up again. No deferred event is dropped.\<close>

definition settled :: "string \<times> string \<Rightarrow> db \<Rightarrow> bool" where
  "settled k d \<longleftrightarrow> (\<exists>r. row pe_key k (d_processed_events d) = Some r \<and> pe_status r \<noteq> ''failed'')"

text \<open>Everything outside the tables of orders, stock, payments, refunds, disputes and returns.\<close>

definition bookkeeping :: "db \<Rightarrow> db \<Rightarrow> bool" where
  "bookkeeping d d' \<longleftrightarrow> d_products d' = d_products d \<and> d_variants d' = d_variants d \<and> d_stock_movements d' = d_stock_movements d
     \<and> d_orders d' = d_orders d \<and> d_order_items d' = d_order_items d \<and> d_restocks d' = d_restocks d
     \<and> d_payments d' = d_payments d \<and> d_refunds d' = d_refunds d \<and> d_disputes d' = d_disputes d \<and> d_returns d' = d_returns d
     \<and> d_next d \<le> d_next d' \<and> (cart_ok d \<longrightarrow> cart_ok d') \<and> (shipments_ok d \<longrightarrow> shipments_ok d') \<and> (dedupe_ok d \<longrightarrow> dedupe_ok d')
     \<and> (\<forall>k. settled k d \<longrightarrow> settled k d') \<and> de_key ` set (d_deferred_events d) \<subseteq> de_key ` set (d_deferred_events d')"

inductive db_write :: "db \<Rightarrow> db \<Rightarrow> bool" where
  order: "row o_id (o_id new) (d_orders d) = Some old \<Longrightarrow> order_change old new \<Longrightarrow> flush_order new d = Inr d'
    \<Longrightarrow> o_stock_released_at new = o_stock_released_at old \<or> fully_back (o_id new) d \<and> o_status new \<in> {CANCELLED, REFUNDED}
    \<Longrightarrow> db_write d d'"
| payment: "row pm_id (pm_id new) (d_payments d) = Some old \<Longrightarrow> payment_change old new \<Longrightarrow> flush_payment new d = Inr d' \<Longrightarrow> db_write d d'"
| new_payment: "insert_payment pm (snd (fresh d)) = Inr d' \<Longrightarrow> pm_id pm = d_next d \<Longrightarrow> db_write d d'"
| refund: "save_refund r d = Inr d' \<Longrightarrow> db_write d d'"
| new_refund: "create_refund r (snd (fresh d)) = Inr d' \<Longrightarrow> rf_id r = d_next d \<Longrightarrow> db_write d d'"
| dispute: "save_dispute x d = Inr d' \<Longrightarrow> db_write d d'"
| new_dispute: "create_dispute x (snd (fresh d)) = Inr d' \<Longrightarrow> dp_id x = d_next d \<Longrightarrow> db_write d d'"
| release: "row o_id (o_id ord) (d_orders d) = Some ord \<Longrightarrow> restock_once ord now d = Inr (b, ord', d') \<Longrightarrow> db_write d d'"
| placed: "checkout sha cfg rq now d = Inr (Placed ord d') \<Longrightarrow> existing_order rq d = None \<Longrightarrow> db_write d d'"
| new_return: "return_checks ret \<Longrightarrow> rt_id ret = d_next d \<Longrightarrow> rt_status ret = ''requested'' \<Longrightarrow> untouched ret \<Longrightarrow> claims_bought ret d
    \<Longrightarrow> d' = d\<lparr>d_next := n, d_returns := d_returns d @ [ret]\<rparr> \<Longrightarrow> d_next d < n \<Longrightarrow> db_write d d'"
| return_row: "row rt_id (rt_id new) (d_returns d) = Some old \<Longrightarrow> return_change old new \<Longrightarrow> flush_return new d = Inr d' \<Longrightarrow> db_write d d'"
| restocked: "restock_return ord ret admin d = Inr (ret', d') \<Longrightarrow> distinct (map ri_order_item_id (rt_items ret)) \<Longrightarrow> db_write d d'"
| other: "bookkeeping d d' \<Longrightarrow> db_write d d'"

section \<open>Each write keeps the invariant\<close>

lemma row_unique:
  assumes "distinct (map key t)" and "row key k t = Some old" and "x \<in> set t" and "key x = k"
  shows "x = old"
  using row_in_distinct [OF assms(1,3)] assms(2,4) by simp

lemma cart_ok_next: "cart_ok d \<Longrightarrow> d_carts d' = d_carts d \<Longrightarrow> d_cart_items d' = d_cart_items d \<Longrightarrow> d_next d \<le> d_next d' \<Longrightarrow> cart_ok d'"
  by (rule cart_ok_cong)

lemma dedupe_ok_next:
  "dedupe_ok d \<Longrightarrow> d_reconciliations d' = d_reconciliations d \<Longrightarrow> d_jobs d' = d_jobs d
    \<Longrightarrow> d_processed_events d' = d_processed_events d \<Longrightarrow> d_deferred_events d' = d_deferred_events d
    \<Longrightarrow> d_next d \<le> d_next d' \<Longrightarrow> dedupe_ok d'"
  by (fastforce simp: dedupe_ok_def)

lemma restocks_ok_cong: "d_order_items d' = d_order_items d \<Longrightarrow> d_restocks d' = d_restocks d \<Longrightarrow> restocks_ok d' = restocks_ok d"
  by (simp add: restocks_ok_def)

lemma fully_back_cong: "d_order_items d' = d_order_items d \<Longrightarrow> fully_back oid d' = fully_back oid d"
  by (simp add: fully_back_def)

lemma order_ok_cong: "d_order_items d' = d_order_items d \<Longrightarrow> d_refunds d' = d_refunds d \<Longrightarrow> order_ok ord d' = order_ok ord d"
  by (simp add: order_ok_def fully_back_def)

lemma lifecycle_ok_cong:
  "d_orders d' = d_orders d \<Longrightarrow> d_order_items d' = d_order_items d \<Longrightarrow> d_refunds d' = d_refunds d \<Longrightarrow> lifecycle_ok d' = lifecycle_ok d"
  by (simp add: lifecycle_ok_def order_ok_def fully_back_def)

lemma refunds_ok_next:
  "refunds_ok d \<Longrightarrow> d_payments d' = d_payments d \<Longrightarrow> d_refunds d' = d_refunds d \<Longrightarrow> d_next d \<le> d_next d' \<Longrightarrow> refunds_ok d'"
  by (fastforce simp: refunds_ok_def)

lemma disputes_ok_next: "disputes_ok d \<Longrightarrow> d_disputes d' = d_disputes d \<Longrightarrow> d_next d \<le> d_next d' \<Longrightarrow> disputes_ok d'"
  by (fastforce simp: disputes_ok_def)

text \<open>The returns stay sound while the lines keep their owners and quantities.\<close>

lemma used_cong: "d_returns d' = d_returns d \<Longrightarrow> used oid d' i = used oid d i"
  by (simp add: used_def)

lemma returns_ok_next:
  assumes "returns_ok d" and "d_returns d' = d_returns d" and "line_facts (d_order_items d') = line_facts (d_order_items d)"
    and "d_next d \<le> d_next d'"
  shows "returns_ok d'"
proof -
  have "used (oi_order_id i) d (oi_id i) \<le> oi_quantity i" if i: "i \<in> set (d_order_items d')" for i
  proof -
    have "(oi_id i, oi_order_id i, oi_quantity i) \<in> set (line_facts (d_order_items d))" unfolding assms(3) [symmetric] using i by force
    then show ?thesis using assms(1) by (auto simp: returns_ok_def)
  qed
  then show ?thesis using assms(1,4) used_cong [OF assms(2)] by (fastforce simp: returns_ok_def assms(2))
qed

lemma shipments_ok_next:
  "shipments_ok d \<Longrightarrow> d_shipments d' = d_shipments d \<Longrightarrow> d_next d \<le> d_next d' \<Longrightarrow> shipments_ok d'"
  by (fastforce simp: shipments_ok_def shipment_checks_def)

lemma bookkeeping_shop_ok:
  assumes "bookkeeping d d'" and "shop_ok d"
  shows "shop_ok d'"
proof -
  note ok = shop_okD [OF assms(2)]
  have f: "d_products d' = d_products d" "d_variants d' = d_variants d" "d_stock_movements d' = d_stock_movements d"
    "d_orders d' = d_orders d" "d_order_items d' = d_order_items d" "d_restocks d' = d_restocks d"
    "d_payments d' = d_payments d" "d_refunds d' = d_refunds d" "d_disputes d' = d_disputes d" "d_next d \<le> d_next d'"
    "cart_ok d'" "dedupe_ok d'" "d_returns d' = d_returns d"
    using assms ok by (simp_all add: bookkeeping_def)
  have "returns_ok d'" by (rule returns_ok_next [OF ok(10) f(13)]) (simp_all add: f)
  then show ?thesis unfolding shop_ok_def
    using ok f(11,12) stock_cong(3,4) [OF f(1-3)] orders_ok_cong [OF ok(4) f(4,5,10)] restocks_ok_cong [OF f(5,6)]
      lifecycle_ok_cong [OF f(4,5,8)] refunds_ok_next [OF ok(7) f(7,8,10)] disputes_ok_next [OF ok(8) f(9,10)] by blast
qed

lemma flush_order_Inr:
  "flush_order new d = Inr d' \<Longrightarrow> row o_id (o_id new) (d_orders d) = Some old \<Longrightarrow>
     d' = d\<lparr>d_orders := set_row o_id new (d_orders d)\<rparr> \<and> orders_lifecycle_guard old new d = Inr ()"
  by (auto simp: flush_order_def res_simps)

lemma guard_allowed:
  assumes "orders_lifecycle_guard old new d = Inr ()"
  shows "o_status new = o_status old \<or> o_status new \<in> set (ALLOWED_TRANSITIONS (o_status old))"
    and "o_stock_released_at old = None \<or> o_stock_released_at new = o_stock_released_at old"
    and "o_status new \<noteq> o_status old \<Longrightarrow> o_status new = PAID \<Longrightarrow> list_ex (\<lambda>p. pm_order_id p = o_id new \<and> pm_status p = PaySucceeded) (d_payments d)"
    and "o_status new \<noteq> o_status old \<Longrightarrow> o_status new = REFUNDED \<Longrightarrow> list_ex (\<lambda>r. rf_order_id r = o_id new \<and> rf_status r = RefSucceeded) (d_refunds d)"
    and "o_status new \<noteq> o_status old \<Longrightarrow> o_status new = CANCELLED \<Longrightarrow> o_stock_released_at new \<noteq> None"
  using assms by (auto simp: orders_lifecycle_guard_def res_simps ALLOWED_TRANSITIONS_def split: if_splits order_status.splits)

lemma order_sound_change: "order_change old new \<Longrightarrow> order_sound new rows = order_sound old rows"
  unfolding order_change_def order_sound_def by (cases new; cases old) simp

lemma order_change_id: "order_change old new \<Longrightarrow> o_id new = o_id old"
  unfolding order_change_def by (cases new; cases old) simp

lemma keys_set_row_set [simp]: "key ` set (set_row key r t) = key ` set t"
  by (metis keys_set_row set_map)

lemma orders_ok_order:
  assumes "orders_ok d" and "row o_id (o_id new) (d_orders d) = Some old" and "order_change old new"
  shows "orders_ok (d\<lparr>d_orders := set_row o_id new (d_orders d)\<rparr>)"
proof -
  have old: "old \<in> set (d_orders d)" using row_SomeD [OF assms(2)] by simp
  have "o_id x < d_next d \<and> order_sound x (order_items_of (o_id x) d)" if "x \<in> set (set_row o_id new (d_orders d))" for x
    using set_set_rowD [OF that] orders_okD(3,4) [OF assms(1)] old order_sound_change [OF assms(3)] order_change_id [OF assms(3)] by auto
  with assms(1) show ?thesis by (simp add: orders_ok_def order_items_of_def)
qed

lemma write_order_ok:
  assumes "row o_id (o_id new) (d_orders d) = Some old" and "order_change old new" and "flush_order new d = Inr d'"
    and "o_stock_released_at new = o_stock_released_at old \<or> fully_back (o_id new) d \<and> o_status new \<in> {CANCELLED, REFUNDED}"
    and "shop_ok d"
  shows "shop_ok d'"
proof -
  note ok = shop_okD [OF assms(5)]
  have d': "d' = d\<lparr>d_orders := set_row o_id new (d_orders d)\<rparr>" and g: "orders_lifecycle_guard old new d = Inr ()"
    using flush_order_Inr [OF assms(3,1)] by simp_all
  note ga = guard_allowed [OF g]
  have old: "old \<in> set (d_orders d)" using row_SomeD [OF assms(1)] by simp
  then have oo: "order_ok old d" using ok(6) by (simp add: lifecycle_ok_def)
  have "order_ok new d"
    using oo ga assms(4) order_change_id [OF assms(2)]
    unfolding order_ok_def by (cases "o_status old") (auto simp: ALLOWED_TRANSITIONS_def list_ex_iff)
  then have "lifecycle_ok d'"
    using ok(6) unfolding lifecycle_ok_def d' by (auto dest!: set_set_rowD simp: order_ok_def fully_back_def)
  moreover have "orders_ok d'" unfolding d' by (rule orders_ok_order [OF ok(4) assms(1,2)])
  moreover have "stock_ok d' = stock_ok d" "ledger_ok d' = ledger_ok d" by (rule stock_cong; simp add: d')+
  moreover have "cart_ok d'" by (rule cart_ok_next [OF ok(3)]) (simp_all add: d')
  moreover have "dedupe_ok d'" by (rule dedupe_ok_next [OF ok(9)]) (simp_all add: d')
  moreover have "refunds_ok d'" by (rule refunds_ok_next [OF ok(7)]) (simp_all add: d')
  moreover have "disputes_ok d'" by (rule disputes_ok_next [OF ok(8)]) (simp_all add: d')
  moreover have "restocks_ok d' = restocks_ok d" by (rule restocks_ok_cong) (simp_all add: d')
  moreover have "returns_ok d'" by (rule returns_ok_next [OF ok(10)]) (simp_all add: d')
  ultimately show ?thesis using ok by (simp add: shop_ok_def)
qed

text \<open>A write that leaves orders and stock alone: what remains is refunds and disputes.\<close>

lemma money_write_ok:
  assumes "shop_ok d" and "d' = d\<lparr>d_next := n, d_payments := ps, d_refunds := rs, d_disputes := xs\<rparr>" and "d_next d \<le> n"
    and "refunds_ok d'" and "disputes_ok d'"
    and "\<And>r. r \<in> set (d_refunds d) \<Longrightarrow> rf_status r = RefSucceeded \<Longrightarrow> \<exists>r' \<in> set rs. rf_order_id r' = rf_order_id r \<and> rf_status r' = RefSucceeded"
  shows "shop_ok d'"
proof -
  note ok = shop_okD [OF assms(1)]
  have "order_ok ord d'" if "ord \<in> set (d_orders d)" for ord
  proof -
    have "order_ok ord d" using ok(6) that by (simp add: lifecycle_ok_def)
    then show ?thesis using assms(6) by (fastforce simp: order_ok_def fully_back_def assms(2))
  qed
  then have "lifecycle_ok d'" by (simp add: lifecycle_ok_def assms(2))
  moreover have "orders_ok d'" by (rule orders_ok_cong [OF ok(4)]) (simp_all add: assms(2,3))
  moreover have "stock_ok d' = stock_ok d" "ledger_ok d' = ledger_ok d" by (rule stock_cong; simp add: assms(2))+
  moreover have "cart_ok d'" by (rule cart_ok_next [OF ok(3)]) (simp_all add: assms(2,3))
  moreover have "dedupe_ok d'" by (rule dedupe_ok_next [OF ok(9)]) (simp_all add: assms(2,3))
  moreover have "restocks_ok d' = restocks_ok d" by (rule restocks_ok_cong) (simp_all add: assms(2))
  moreover have "returns_ok d'" by (rule returns_ok_next [OF ok(10)]) (simp_all add: assms(2,3))
  ultimately show ?thesis using ok assms(4,5) by (simp add: shop_ok_def)
qed

lemma committed_absent: "(\<And>r. r \<in> set rs \<Longrightarrow> rf_payment_id r \<noteq> pid) \<Longrightarrow> committed_refunds pid rs = 0"
  by (induction rs) (auto simp: committed_refunds_def)

lemma committed_append: "committed_refunds pid (rs @ qs) = committed_refunds pid rs + committed_refunds pid qs"
  by (simp add: committed_refunds_def)

lemma committed_Cons:
  "committed_refunds pid (r # rs) =
     (if rf_payment_id r = pid \<and> rf_status r \<in> set ACTIVE_REFUND_STATUSES then rf_amount_cents r else 0) + committed_refunds pid rs"
  by (simp add: committed_refunds_def)

text \<open>The committed sum splits into one refund and the others.\<close>

definition refund_share :: "int \<Rightarrow> refund \<Rightarrow> int" where
  "refund_share pid r = (if rf_payment_id r = pid \<and> rf_status r \<in> set ACTIVE_REFUND_STATUSES then rf_amount_cents r else 0)"

lemma committed_sum: "committed_refunds pid rs = sum_list (map (refund_share pid) rs)"
  by (induction rs) (simp_all add: committed_refunds_def refund_share_def)

lemma committed_split:
  assumes "distinct (map rf_id rs)" and "row rf_id (rf_id r) rs = Some old"
  shows "committed_refunds pid rs = committed_refunds pid (filter (\<lambda>x. rf_id x \<noteq> rf_id r) rs) + refund_share pid old"
  using assms
proof (induction rs)
  case (Cons a rs)
  show ?case
  proof (cases "rf_id a = rf_id r")
    case True
    with Cons.prems(1) have "rf_id r \<notin> rf_id ` set rs" by simp
    then have "filter (\<lambda>x. rf_id x \<noteq> rf_id r) rs = rs" by (intro filter_True) (metis imageI)
    with True Cons.prems show ?thesis by (simp add: committed_Cons refund_share_def)
  next
    case False
    with Cons show ?thesis by (simp add: committed_Cons)
  qed
qed simp

lemma committed_set_row:
  assumes "distinct (map rf_id rs)" and "row rf_id (rf_id r) rs = Some old"
  shows "committed_refunds pid (set_row rf_id r rs) = committed_refunds pid (filter (\<lambda>x. rf_id x \<noteq> rf_id r) rs) + refund_share pid r"
proof -
  have "committed_refunds pid (set_row rf_id r rs) = committed_refunds pid rs - refund_share pid old + refund_share pid r"
    unfolding committed_sum using assms by (rule sum_list_set_row)
  with committed_split [OF assms, of pid] show ?thesis by simp
qed

lemma save_refund_Inr:
  assumes "save_refund r d = Inr d'"
  obtains old where "row rf_id (rf_id r) (d_refunds d) = Some old" "d' = d\<lparr>d_refunds := set_row rf_id r (d_refunds d)\<rparr>"
    "refunds_cumulative_guard r d = Inr ()" "refunds_guard old r = Inr ()" "refund_checks r d"
  using assms by (auto simp: save_refund_def res_simps split: option.splits if_splits)

lemma create_refund_Inr:
  "create_refund r d = Inr d' \<longleftrightarrow> d' = d\<lparr>d_refunds := d_refunds d @ [r]\<rparr> \<and> refunds_cumulative_guard r d = Inr () \<and> refund_checks r d"
  by (auto simp: create_refund_def res_simps)

lemma refunds_ok_payment:
  assumes "refunds_ok d" and "row pm_id (pm_id new) (d_payments d) = Some old" and "payment_change old new"
  shows "refunds_ok (d\<lparr>d_payments := set_row pm_id new (d_payments d)\<rparr>)"
proof -
  have old: "old \<in> set (d_payments d)" using row_SomeD [OF assms(2)] by simp
  have "pm_id p < d_next d \<and> committed_refunds (pm_id p) (d_refunds d) \<le> pm_amount_cents p"
    if "p \<in> set (set_row pm_id new (d_payments d))" for p
    using set_set_rowD [OF that] assms(1,3) old by (auto simp: refunds_ok_def payment_change_def)
  with assms(1) show ?thesis by (simp add: refunds_ok_def)
qed

lemma refunds_ok_save:
  assumes "refunds_ok d" and "row rf_id (rf_id r) (d_refunds d) = Some old" and "refunds_cumulative_guard r d = Inr ()"
    and "refunds_guard old r = Inr ()" and "refund_checks r d"
  shows "refunds_ok (d\<lparr>d_refunds := set_row rf_id r (d_refunds d)\<rparr>)"
proof -
  let ?rs = "set_row rf_id r (d_refunds d)"
  have dist: "distinct (map rf_id (d_refunds d))" "distinct (map pm_id (d_payments d))" using assms(1) by (simp_all add: refunds_ok_def)
  have old: "old \<in> set (d_refunds d)" "rf_id old = rf_id r" using row_SomeD [OF assms(2)] by simp_all
  have same: "rf_payment_id r = rf_payment_id old" "rf_amount_cents r = rf_amount_cents old"
    using assms(4) by (simp_all add: refunds_guard_def res_simps)
  have "committed_refunds (pm_id p) ?rs \<le> pm_amount_cents p" if p: "p \<in> set (d_payments d)" for p
  proof (cases "pm_id p = rf_payment_id r \<and> rf_status r \<in> set ACTIVE_REFUND_STATUSES")
    case True
    then have "row pm_id (rf_payment_id r) (d_payments d) = Some p" using row_in_distinct [OF dist(2) p] by simp
    with True assms(3) have "committed_refunds (rf_payment_id r) (filter (\<lambda>x. rf_id x \<noteq> rf_id r) (d_refunds d)) + rf_amount_cents r
        \<le> pm_amount_cents p" by (simp add: refunds_cumulative_guard_def)
    with True show ?thesis by (simp add: committed_set_row [OF dist(1) assms(2)] refund_share_def)
  next
    case False
    then have "refund_share (pm_id p) r = 0" by (auto simp: refund_share_def)
    moreover have "0 \<le> refund_share (pm_id p) old" using assms(1) old(1) by (auto simp: refund_share_def refunds_ok_def)
    moreover have "committed_refunds (pm_id p) (d_refunds d) \<le> pm_amount_cents p" using assms(1) p by (simp add: refunds_ok_def)
    ultimately show ?thesis
      using committed_split [OF dist(1) assms(2), of "pm_id p"] by (simp add: committed_set_row [OF dist(1) assms(2)])
  qed
  moreover have "rf_id x < d_next d \<and> 0 < rf_amount_cents x \<and> rf_payment_id x \<in> pm_id ` set (d_payments d)" if "x \<in> set ?rs" for x
    using set_set_rowD [OF that] assms(1) old same by (auto simp: refunds_ok_def)
  ultimately show ?thesis using assms(1) by (simp add: refunds_ok_def)
qed

lemma refunds_ok_create:
  assumes "refunds_ok d" and "refunds_cumulative_guard r (d\<lparr>d_next := d_next d + 1\<rparr>) = Inr ()"
    and "refund_checks r (d\<lparr>d_next := d_next d + 1\<rparr>)" and "rf_id r = d_next d"
  shows "refunds_ok (d\<lparr>d_next := d_next d + 1, d_refunds := d_refunds d @ [r]\<rparr>)"
proof -
  have new: "rf_id x \<noteq> rf_id r" if "x \<in> set (d_refunds d)" for x using assms(1,4) that by (fastforce simp: refunds_ok_def)
  then have all: "filter (\<lambda>x. rf_id x \<noteq> rf_id r) (d_refunds d) = d_refunds d" by (auto intro!: filter_True)
  have dist: "distinct (map pm_id (d_payments d))" using assms(1) by (simp add: refunds_ok_def)
  have "committed_refunds (pm_id p) (d_refunds d @ [r]) \<le> pm_amount_cents p" if p: "p \<in> set (d_payments d)" for p
  proof (cases "pm_id p = rf_payment_id r \<and> rf_status r \<in> set ACTIVE_REFUND_STATUSES")
    case True
    then have "row pm_id (rf_payment_id r) (d_payments d) = Some p" using row_in_distinct [OF dist p] by simp
    with True assms(2) all show ?thesis by (simp add: refunds_cumulative_guard_def committed_append committed_refunds_def)
  next
    case False
    with assms(1) p show ?thesis by (auto simp: committed_append committed_refunds_def refunds_ok_def)
  qed
  moreover have "0 < rf_amount_cents r" "rf_payment_id r \<in> pm_id ` set (d_payments d)"
    using assms(3) by (auto simp: refund_checks_def row_None_iff)
  moreover have "rf_id r \<notin> rf_id ` set (d_refunds d)" using new by fastforce
  ultimately show ?thesis using assms(1,4) by (fastforce simp: refunds_ok_def)
qed

lemma write_refund_ok:
  assumes "save_refund r d = Inr d'" and "shop_ok d"
  shows "shop_ok d'"
  using assms(1)
proof (rule save_refund_Inr)
  fix old
  assume old: "row rf_id (rf_id r) (d_refunds d) = Some old" and d': "d' = d\<lparr>d_refunds := set_row rf_id r (d_refunds d)\<rparr>"
    and g: "refunds_cumulative_guard r d = Inr ()" "refunds_guard old r = Inr ()" "refund_checks r d"
  note ok = shop_okD [OF assms(2)]
  have "refunds_ok d'" unfolding d' by (rule refunds_ok_save [OF ok(7) old g])
  moreover have "disputes_ok d'" by (rule disputes_ok_next [OF ok(8)]) (simp_all add: d')
  moreover have "\<exists>r' \<in> set (set_row rf_id r (d_refunds d)). rf_order_id r' = rf_order_id x \<and> rf_status r' = RefSucceeded"
    if x: "x \<in> set (d_refunds d)" "rf_status x = RefSucceeded" for x
  proof (cases "rf_id x = rf_id r")
    case True
    then have "x = old" using ok(7) by (intro row_unique [OF _ old x(1)]) (simp_all add: refunds_ok_def)
    moreover have "r \<in> set (set_row rf_id r (d_refunds d))" using x(1) True by (force simp: set_row_def)
    ultimately show ?thesis using g(2) x(2) by (auto simp: refunds_guard_def res_simps)
  next
    case False
    then have "x \<in> set (set_row rf_id r (d_refunds d))" using x(1) by (force simp: set_row_def)
    with x(2) show ?thesis by blast
  qed
  ultimately show ?thesis
    by (intro money_write_ok [OF assms(2), where n = "d_next d" and ps = "d_payments d" and xs = "d_disputes d"]) (simp_all add: d')
qed

lemma write_new_refund_ok:
  assumes "create_refund r (snd (fresh d)) = Inr d'" and "rf_id r = d_next d" and "shop_ok d"
  shows "shop_ok d'"
proof -
  note ok = shop_okD [OF assms(3)]
  have d': "d' = d\<lparr>d_next := d_next d + 1, d_refunds := d_refunds d @ [r]\<rparr>"
    and g: "refunds_cumulative_guard r (d\<lparr>d_next := d_next d + 1\<rparr>) = Inr ()" "refund_checks r (d\<lparr>d_next := d_next d + 1\<rparr>)"
    using assms(1) by (simp_all add: create_refund_Inr fresh_def)
  have "refunds_ok d'" unfolding d' by (rule refunds_ok_create [OF ok(7) g assms(2)])
  moreover have "disputes_ok d'" by (rule disputes_ok_next [OF ok(8)]) (simp_all add: d')
  ultimately show ?thesis
    by (intro money_write_ok [OF assms(3), where n = "d_next d + 1" and ps = "d_payments d" and xs = "d_disputes d"]) (auto simp: d')
qed

lemma write_payment_ok:
  assumes "row pm_id (pm_id new) (d_payments d) = Some old" and "payment_change old new" and "flush_payment new d = Inr d'"
    and "shop_ok d"
  shows "shop_ok d'"
proof -
  note ok = shop_okD [OF assms(4)]
  have d': "d' = d\<lparr>d_payments := set_row pm_id new (d_payments d)\<rparr>" using assms(3) by (simp add: flush_payment_def split: if_splits)
  have "refunds_ok d'" unfolding d' by (rule refunds_ok_payment [OF ok(7) assms(1,2)])
  moreover have "disputes_ok d'" by (rule disputes_ok_next [OF ok(8)]) (simp_all add: d')
  ultimately show ?thesis
    by (intro money_write_ok [OF assms(4), where n = "d_next d" and rs = "d_refunds d" and xs = "d_disputes d"]) (auto simp: d')
qed

lemma write_new_payment_ok:
  assumes "insert_payment pm (snd (fresh d)) = Inr d'" and "pm_id pm = d_next d" and "shop_ok d"
  shows "shop_ok d'"
proof -
  note ok = shop_okD [OF assms(3)]
  have d': "d' = d\<lparr>d_next := d_next d + 1, d_payments := d_payments d @ [pm]\<rparr>" and pos: "0 < pm_amount_cents pm"
    using assms(1) by (auto simp: insert_payment_def fresh_def payment_checks_def split: if_splits)
  have "rf_payment_id r \<noteq> pm_id pm" if "r \<in> set (d_refunds d)" for r
    using ok(7) that assms(2) by (fastforce simp: refunds_ok_def)
  then have "committed_refunds (pm_id pm) (d_refunds d) = 0" by (rule committed_absent)
  moreover have "pm_id pm \<notin> pm_id ` set (d_payments d)" using ok(7) assms(2) by (fastforce simp: refunds_ok_def)
  ultimately have "refunds_ok d'" using ok(7) assms(2) pos unfolding d' by (fastforce simp: refunds_ok_def)
  moreover have "disputes_ok d'" by (rule disputes_ok_next [OF ok(8)]) (simp_all add: d')
  ultimately show ?thesis
    by (intro money_write_ok [OF assms(3), where n = "d_next d + 1" and rs = "d_refunds d" and xs = "d_disputes d"]) (auto simp: d')
qed

lemma write_new_dispute_ok:
  assumes "create_dispute x (snd (fresh d)) = Inr d'" and "dp_id x = d_next d" and "shop_ok d"
  shows "shop_ok d'"
proof -
  note ok = shop_okD [OF assms(3)]
  have d': "d' = d\<lparr>d_next := d_next d + 1, d_disputes := d_disputes d @ [x]\<rparr>" and c: "dispute_checks x (d\<lparr>d_next := d_next d + 1\<rparr>)"
    using assms(1) by (auto simp: create_dispute_def fresh_def split: if_splits)
  have new: "dp_id y < dp_id x" if "y \<in> set (d_disputes d)" for y using ok(8) that assms(2) by (simp add: disputes_ok_def)
  then have "dp_id x \<notin> dp_id ` set (d_disputes d)" by force
  moreover have "(dp_provider x, dp_provider_dispute_id x) \<notin> (\<lambda>y. (dp_provider y, dp_provider_dispute_id y)) ` set (d_disputes d)"
    using c new by (fastforce simp: dispute_checks_def list_ex_iff)
  ultimately have "disputes_ok d'" using ok(8) assms(2) unfolding d' by (auto simp: disputes_ok_def)
  moreover have "refunds_ok d'" by (rule refunds_ok_next [OF ok(7)]) (simp_all add: d')
  ultimately show ?thesis
    by (intro money_write_ok [OF assms(3), where n = "d_next d + 1" and rs = "d_refunds d" and ps = "d_payments d"]) (auto simp: d')
qed

lemma write_dispute_ok:
  assumes "save_dispute x d = Inr d'" and "shop_ok d"
  shows "shop_ok d'"
proof -
  note ok = shop_okD [OF assms(2)]
  obtain old where old: "row dp_id (dp_id x) (d_disputes d) = Some old" and g: "disputes_guard old x = Inr ()"
    and d': "d' = d\<lparr>d_disputes := set_row dp_id x (d_disputes d)\<rparr>"
    using assms(1) by (auto simp: save_dispute_def res_simps split: option.splits if_splits)
  have o: "old \<in> set (d_disputes d)" "dp_id old = dp_id x" using row_SomeD [OF old] by simp_all
  have dist: "distinct (map dp_id (d_disputes d))" using ok(8) by (simp add: disputes_ok_def)
  have "map (\<lambda>y. (dp_provider y, dp_provider_dispute_id y)) (set_row dp_id x (d_disputes d))
      = map (\<lambda>y. (dp_provider y, dp_provider_dispute_id y)) (d_disputes d)"
  proof -
    have "y = old" if "y \<in> set (d_disputes d)" "dp_id y = dp_id x" for y
      by (rule row_unique [OF dist old that])
    then show ?thesis using g by (auto simp: set_row_def disputes_guard_def res_simps)
  qed
  moreover have "dp_id y < d_next d" if "y \<in> set (set_row dp_id x (d_disputes d))" for y
    using set_set_rowD [OF that] ok(8) o by (auto simp: disputes_ok_def)
  ultimately have "disputes_ok d'" using ok(8) unfolding d' by (simp add: disputes_ok_def)
  moreover have "refunds_ok d'" by (rule refunds_ok_next [OF ok(7)]) (simp_all add: d')
  ultimately show ?thesis
    by (intro money_write_ok [OF assms(2), where n = "d_next d" and rs = "d_refunds d" and ps = "d_payments d"]) (auto simp: d')
qed

text \<open>A write of the stock tables: what remains is that nothing that was back goes out again.\<close>

lemma stock_write_ok:
  assumes "shop_ok d" and "stock_write d d'" and "stock_ok d'" and "ledger_ok d'" and "orders_ok d'" and "restocks_ok d'"
    and "\<And>oid. fully_back oid d \<Longrightarrow> fully_back oid d'"
  shows "shop_ok d'"
  using assms(2)
proof (rule stock_writeE)
  fix ps vs ms rs ii
  assume d': "d' = d\<lparr>d_products := ps, d_variants := vs, d_stock_movements := ms, d_restocks := rs, d_order_items := ii\<rparr>"
    and lf: "line_facts ii = line_facts (d_order_items d)"
  note ok = shop_okD [OF assms(1)]
  have "order_ok x d'" if "x \<in> set (d_orders d)" for x
  proof -
    have "order_ok x d" using ok(6) that by (simp add: lifecycle_ok_def)
    then show ?thesis using assms(7) [of "o_id x"] by (auto simp: order_ok_def d')
  qed
  then have "lifecycle_ok d'" by (simp add: lifecycle_ok_def d')
  moreover have "cart_ok d'" by (rule cart_ok_next [OF ok(3)]) (simp_all add: d')
  moreover have "dedupe_ok d'" by (rule dedupe_ok_next [OF ok(9)]) (simp_all add: d')
  moreover have "refunds_ok d'" by (rule refunds_ok_next [OF ok(7)]) (simp_all add: d')
  moreover have "disputes_ok d'" by (rule disputes_ok_next [OF ok(8)]) (simp_all add: d')
  moreover have "returns_ok d'" by (rule returns_ok_next [OF ok(10)]) (simp_all add: d' lf)
  ultimately show ?thesis using assms(3-6) by (simp add: shop_ok_def)
qed

lemma write_release_ok:
  assumes "row o_id (o_id ord) (d_orders d) = Some ord" and "restock_once ord now d = Inr (b, ord', d')" and "shop_ok d"
  shows "shop_ok d'" and "\<And>u. known_unit d' u = known_unit d u" and "\<And>u. known_unit d u \<Longrightarrow> total_units d' u = total_units d u"
    and "stock_write d d'"
proof -
  note ok = shop_okD [OF assms(3)]
  have "order_ok ord d" using ok(6) row_SomeD [OF assms(1)] by (simp add: lifecycle_ok_def)
  then have fb: "o_stock_released_at ord \<noteq> None \<Longrightarrow> fully_back (o_id ord) d" by (simp add: order_ok_def)
  note e = restock_once_effect [OF assms(2) ok(5,4,1,2) fb]
  show "shop_ok d'" by (rule stock_write_ok [OF assms(3) e(9,1-4,6)])
  show "\<And>u. known_unit d' u = known_unit d u" and "\<And>u. known_unit d u \<Longrightarrow> total_units d' u = total_units d u" and "stock_write d d'"
    using e(7-9) by blast+
qed

lemma write_restocked_ok:
  assumes "restock_return ord ret admin d = Inr (ret', d')" and "distinct (map ri_order_item_id (rt_items ret))" and "shop_ok d"
  shows "shop_ok d'" and "\<And>u. known_unit d' u = known_unit d u" and "\<And>u. known_unit d u \<Longrightarrow> total_units d' u = total_units d u"
    and "stock_write d d'"
proof -
  note ok = shop_okD [OF assms(3)]
  obtain recorded ls ps vs ms rs f where
    d': "d' = d\<lparr>d_products := ps, d_variants := vs, d_stock_movements := ms, d_restocks := rs, d_order_items := recount f (d_order_items d)\<rparr>"
    and b: "stock_ok d'" "ledger_ok d'" "orders_ok d'" "restocks_ok d'" "\<forall>oid. fully_back oid d \<longrightarrow> fully_back oid d'"
    and k: "\<forall>u. known_unit d' u = known_unit d u"
    and u: "\<forall>u. known_unit d u \<longrightarrow> unit_stock d' u = unit_stock d u + moved_back recorded ls u"
    and r: "\<forall>u. reserved d' u + moved_back recorded ls u = reserved d u"
    using restock_return_effect [OF assms(1,2) ok(5,4,1,2)] by blast
  show sw: "stock_write d d'" unfolding stock_write_def by (simp add: d')
  show "shop_ok d'" by (rule stock_write_ok [OF assms(3) sw b(1-4)]) (use b(5) in blast)
  show "\<And>u. known_unit d' u = known_unit d u" using k by blast
  show "\<And>u. known_unit d u \<Longrightarrow> total_units d' u = total_units d u"
    using u r unfolding total_units_def by (metis add.assoc add.commute)
qed

section \<open>Returns\<close>

definition claim_on :: "int \<Rightarrow> int \<Rightarrow> return_request \<Rightarrow> int" where
  "claim_on oid i r = (if rt_order_id r = oid \<and> rt_status r \<in> set COUNTED
     then sum_list (map ri_quantity (filter (\<lambda>x. ri_order_item_id x = i) (rt_items r))) else 0)"

lemma used_sum: "used oid d i = sum_list (map (claim_on oid i) (d_returns d))"
proof -
  have "sum_list (map ri_quantity (filter (\<lambda>x. ri_order_item_id x = i) (items_of_returns oid COUNTED rs))) = sum_list (map (claim_on oid i) rs)" for rs
    by (induction rs) (simp_all add: items_of_returns_def claim_on_def)
  then show ?thesis by (simp add: used_def)
qed

lemma claim_of_one:
  assumes "distinct (map ri_order_item_id xs)" and "x \<in> set xs"
  shows "sum_list (map ri_quantity (filter (\<lambda>y. ri_order_item_id y = ri_order_item_id x) xs)) = ri_quantity x"
proof -
  have "filter (\<lambda>y. ri_order_item_id y = ri_order_item_id x) xs = [x]"
    using assms by (induction xs) (auto simp: filter_empty_conv rev_image_eqI)
  then show ?thesis by simp
qed

lemma return_table_ok:
  assumes "shop_ok d" and "d' = d\<lparr>d_next := n, d_returns := rs\<rparr>" and "d_next d \<le> n" and "returns_ok d'"
  shows "shop_ok d'"
proof -
  note ok = shop_okD [OF assms(1)]
  have "orders_ok d'" by (rule orders_ok_cong [OF ok(4)]) (simp_all add: assms(2,3))
  moreover have "stock_ok d' = stock_ok d" "ledger_ok d' = ledger_ok d" by (rule stock_cong; simp add: assms(2))+
  moreover have "cart_ok d'" by (rule cart_ok_next [OF ok(3)]) (simp_all add: assms(2,3))
  moreover have "dedupe_ok d'" by (rule dedupe_ok_next [OF ok(9)]) (simp_all add: assms(2,3))
  moreover have "refunds_ok d'" by (rule refunds_ok_next [OF ok(7)]) (simp_all add: assms(2,3))
  moreover have "disputes_ok d'" by (rule disputes_ok_next [OF ok(8)]) (simp_all add: assms(2,3))
  moreover have "restocks_ok d' = restocks_ok d" by (rule restocks_ok_cong) (simp_all add: assms(2))
  moreover have "lifecycle_ok d' = lifecycle_ok d" by (rule lifecycle_ok_cong) (simp_all add: assms(2))
  ultimately show ?thesis using ok assms(4) by (simp add: shop_ok_def)
qed

lemma write_new_return_ok:
  assumes "return_checks ret" and "rt_id ret = d_next d" and "claims_bought ret d" and "untouched ret"
    and "d' = d\<lparr>d_next := n, d_returns := d_returns d @ [ret]\<rparr>" and "d_next d < n" and "shop_ok d"
  shows "shop_ok d'"
proof -
  note ok = shop_okD [OF assms(7)]
  have dist: "distinct (map ri_order_item_id (rt_items ret))" using assms(1) by (simp add: return_checks_def)
  have known: "ri_order_item_id x < d_next d" if "x \<in> set (rt_items ret)" for x
    using assms(3) that orders_okD(5) [OF ok(4)] by (force simp: claims_bought_def order_items_of_def)
  have "used (oi_order_id i) d' (oi_id i) \<le> oi_quantity i" if i: "i \<in> set (d_order_items d)" for i
  proof -
    have base: "used (oi_order_id i) d (oi_id i) \<le> oi_quantity i" using ok(10) i by (simp add: returns_ok_def)
    have split: "used (oi_order_id i) d' (oi_id i) = used (oi_order_id i) d (oi_id i) + claim_on (oi_order_id i) (oi_id i) ret"
      by (simp add: used_sum assms(5))
    show ?thesis
    proof (cases "rt_order_id ret = oi_order_id i \<and> oi_id i \<in> ri_order_item_id ` set (rt_items ret)")
      case True
      then obtain x where x: "x \<in> set (rt_items ret)" "ri_order_item_id x = oi_id i" "rt_order_id ret = oi_order_id i" by auto
      obtain l where l: "l \<in> set (d_order_items d)" "oi_id l = oi_id i"
        "used (oi_order_id i) d (oi_id l) + ri_quantity x \<le> oi_quantity l"
        using assms(3) x by (fastforce simp: claims_bought_def order_items_of_def)
      have "l = i" using row_in_distinct [OF orders_okD(2) [OF ok(4)]] l(1,2) i by (metis option.inject)
      moreover have "claim_on (oi_order_id i) (oi_id i) ret \<le> ri_quantity x"
        using claim_of_one [OF dist x(1)] assms(1) x by (auto simp: claim_on_def return_checks_def list_all_iff return_item_checks_def)
      ultimately show ?thesis using l(3) split by simp
    next
      case False
      then have "rt_order_id ret \<noteq> oi_order_id i \<or> filter (\<lambda>x. ri_order_item_id x = oi_id i) (rt_items ret) = []"
        by (force simp: filter_empty_conv)
      then have "claim_on (oi_order_id i) (oi_id i) ret = 0" by (auto simp: claim_on_def)
      with base split show ?thesis by simp
    qed
  qed
  moreover have "rt_id ret \<notin> rt_id ` set (d_returns d)" using ok(10) assms(2) by (fastforce simp: returns_ok_def)
  ultimately have "returns_ok d'"
    using ok(10) assms(1,2,4,6) known unfolding returns_ok_def by (fastforce simp: assms(5))
  with assms(6) show ?thesis by (intro return_table_ok [OF assms(7,5)]) simp_all
qed

lemma claim_on_change:
  assumes "return_change old new" and "return_checks old"
  shows "claim_on oid i new \<le> claim_on oid i old"
proof -
  have "rt_status old \<in> set COUNTED" using assms(1) by (auto simp: return_change_def return_transitions_def COUNTED_def split: if_splits)
  moreover have "sum_list (map ri_quantity (filter (\<lambda>x. ri_order_item_id x = i) (rt_items r)))
      = sum_list (map (\<lambda>(_, l, q, _). if l = i then q else 0) (asked_for r))" for r
    unfolding asked_for_def by (induction "rt_items r" arbitrary: r) (simp_all add: comp_def sum_list_filter_eq)
  moreover have "0 \<le> sum_list (map ri_quantity (filter (\<lambda>x. ri_order_item_id x = i) (rt_items old)))"
    using assms(2) by (intro sum_list_nonneg) (auto simp: return_checks_def return_item_checks_def list_all_iff)
  ultimately show ?thesis using assms(1) by (simp add: claim_on_def return_change_def)
qed

lemma write_return_row_ok:
  assumes "row rt_id (rt_id new) (d_returns d) = Some old" and "return_change old new" and "flush_return new d = Inr d'" and "shop_ok d"
  shows "shop_ok d'" and "d' = d\<lparr>d_returns := set_row rt_id new (d_returns d)\<rparr>"
proof -
  note ok = shop_okD [OF assms(4)]
  show d': "d' = d\<lparr>d_returns := set_row rt_id new (d_returns d)\<rparr>" using assms(3) by (simp add: flush_return_def split: if_splits)
  have old: "old \<in> set (d_returns d)" and dist: "distinct (map rt_id (d_returns d))"
    using row_SomeD [OF assms(1)] ok(10) by (simp_all add: returns_ok_def)
  then have co: "return_checks old" "rt_id old < d_next d" "\<forall>x \<in> set (rt_items old). ri_order_item_id x < d_next d"
    using ok(10) by (simp_all add: returns_ok_def)
  have "used oid d' i \<le> used oid d i" for oid i
    using sum_list_set_row [OF dist assms(1), of "claim_on oid i"] claim_on_change [OF assms(2) co(1), of oid i]
    by (simp add: used_sum d')
  then have "used (oi_order_id i) d' (oi_id i) \<le> oi_quantity i" if "i \<in> set (d_order_items d)" for i
    using ok(10) that order_trans by (fastforce simp: returns_ok_def)
  moreover have "return_checks new" using assms(3) by (simp add: flush_return_def split: if_splits)
  moreover have "ri_order_item_id x < d_next d" if x: "x \<in> set (rt_items new)" for x
  proof -
    have "(ri_id x, ri_order_item_id x, ri_quantity x, ri_reason x) \<in> set (asked_for old)"
    proof -
      have "asked_for new = asked_for old" using assms(2) by (simp add: return_change_def)
      with x show ?thesis unfolding asked_for_def by (metis (no_types, lifting) image_eqI list.set_map)
    qed
    with co(3) show ?thesis by (auto simp: asked_for_def)
  qed
  moreover have "untouched new" if "rt_status new \<in> set OPEN"
  proof -
    have "rt_items new = rt_items old" using assms(2) that by (simp add: return_change_def)
    moreover have "rt_status old \<in> set OPEN"
      using assms(2) that by (auto simp: return_change_def return_transitions_def OPEN_def split: if_splits)
    ultimately show ?thesis using ok(10) old by (simp add: returns_ok_def untouched_def)
  qed
  moreover have "rt_id new = rt_id old" using assms(2) by (simp add: return_change_def)
  ultimately have "returns_ok d'"
    using ok(10) co(2) unfolding returns_ok_def by (auto simp: d' dest!: set_set_rowD)
  then show "shop_ok d'" by (intro return_table_ok [OF assms(4), where n = "d_next d"]) (simp_all add: d')
qed

lemma unit_of_row [simp]: "unit_of_line (line_of_row r) = unit_of_item r"
  by (simp add: unit_of_line_def unit_of_item_def line_of_row_def split: option.split)

lemma quantity_of_row [simp]: "ln_quantity (line_of_row r) = oi_quantity r"
  by (simp add: line_of_row_def)

lemma reserved_new_rows:
  assumes "new_rows oid lo hi rows"
  shows "sum_list (map (\<lambda>i. if unit_of_item i = u then outstanding i else 0) rows) = sold_qty (map line_of_row rows) u"
proof -
  have "list_all (\<lambda>r. oi_restocked_quantity r = 0) rows" using assms by (auto simp: new_rows_def list_all_iff)
  then show ?thesis by (induction rows) (simp_all add: sold_qty_def outstanding_def)
qed

lemma write_placed_ok:
  assumes "checkout sha cfg rq now d = Inr (Placed ord d')" and "existing_order rq d = None" and "shop_ok d"
  shows "shop_ok d' \<and> known_unit d' u = known_unit d u \<and> (known_unit d u \<longrightarrow> total_units d' u = total_units d u)"
  using assms(1,2) shop_okD(1-4) [OF assms(3)]
proof (rule checkout_books)
  fix rows
  assume b: "stock_ok d'" "ledger_ok d'" "cart_ok d'" "orders_ok d'"
    and t: "d_orders d' = d_orders d @ [ord]" "d_order_items d' = d_order_items d @ rows"
    and nr: "new_rows (o_id ord) (d_next d) (d_next d') rows" and oid: "d_next d \<le> o_id ord" "o_id ord < d_next d'"
    and st: "o_status ord = PENDING" "o_stock_released_at ord = None"
    and k: "\<And>u. known_unit d' u = known_unit d u"
    and q: "\<And>u. known_unit d u \<Longrightarrow> unit_stock d' u = unit_stock d u - sold_qty (map line_of_row rows) u"
    and f: "d_payments d' = d_payments d" "d_refunds d' = d_refunds d" "d_restocks d' = d_restocks d" "d_disputes d' = d_disputes d"
      "d_reconciliations d' = d_reconciliations d" "d_processed_events d' = d_processed_events d"
      "d_deferred_events d' = d_deferred_events d" "d_jobs d' = d_jobs d" "d_returns d' = d_returns d"
  note ok = shop_okD [OF assms(3)]
  have n: "d_next d \<le> d_next d'" using nr by (simp add: new_rows_def)
  have rows: "d_next d \<le> oi_id r \<and> oi_order_id r = o_id ord \<and> oi_restocked_quantity r = 0 \<and> 0 < oi_quantity r" if "r \<in> set rows" for r
    using nr that by (auto simp: new_rows_def list_all_iff)
  have "order_ok x d'" if "x \<in> set (d_orders d)" for x
  proof -
    have "order_ok x d" using ok(6) that by (simp add: lifecycle_ok_def)
    moreover have "o_id x < o_id ord" using orders_okD(3) [OF ok(4) that] oid(1) by simp
    ultimately show ?thesis using rows by (auto simp: order_ok_def fully_back_def t f)
  qed
  moreover have "order_ok ord d'" using st by (simp add: order_ok_def)
  ultimately have "lifecycle_ok d'" by (simp add: lifecycle_ok_def t)
  moreover have "restocks_ok d'"
  proof -
    have "ir_order_item_id r < d_next d" if "r \<in> set (d_restocks d)" for r
    proof -
      have "ir_order_item_id r \<in> oi_id ` set (d_order_items d)" using ok(5) that by (simp add: restocks_ok_def)
      then show ?thesis using orders_okD(5) [OF ok(4)] by auto
    qed
    then show ?thesis using ok(5) rows by (fastforce simp: restocks_ok_def t f)
  qed
  moreover have "returns_ok d'"
  proof -
    have "claim_on oid (oi_id i) x = 0" if "i \<in> set rows" "x \<in> set (d_returns d)" for i x oid
    proof -
      have "\<forall>y \<in> set (rt_items x). ri_order_item_id y < oi_id i" using ok(10) that rows by (fastforce simp: returns_ok_def)
      then have "filter (\<lambda>y. ri_order_item_id y = oi_id i) (rt_items x) = []" by (auto simp: filter_empty_conv)
      then show ?thesis by (simp add: claim_on_def)
    qed
    then have "map (claim_on oid (oi_id i)) (d_returns d) = map (\<lambda>_. 0) (d_returns d)" if "i \<in> set rows" for i oid
      using that by (intro map_cong [OF refl]) blast
    then have "used (oi_order_id i) d (oi_id i) = sum_list (map (\<lambda>_. 0) (d_returns d))" if "i \<in> set rows" for i
      using that unfolding used_sum by metis
    then have "used (oi_order_id i) d (oi_id i) = 0" if "i \<in> set rows" for i
      using that by simp
    then show ?thesis using ok(10) rows n unfolding returns_ok_def t f(9) used_cong [OF f(9)] by (fastforce dest: order_less_imp_le)
  qed
  moreover have "dedupe_ok d'" by (rule dedupe_ok_next [OF ok(9) f(5,8,6,7) n])
  moreover have "refunds_ok d'" by (rule refunds_ok_next [OF ok(7) f(1,2) n])
  moreover have "disputes_ok d'" by (rule disputes_ok_next [OF ok(8) f(4) n])
  moreover have "total_units d' u = total_units d u" if "known_unit d u"
    using q [OF that] reserved_new_rows [OF nr, of u] by (simp add: total_units_def reserved_def t)
  ultimately show ?thesis using b k by (simp add: shop_ok_def)
qed

text \<open>Writes outside the stock tables leave every unit's total alone.\<close>

lemma total_units_cong:
  assumes "d_products d' = d_products d" "d_variants d' = d_variants d" "d_stock_movements d' = d_stock_movements d"
    "d_order_items d' = d_order_items d"
  shows "known_unit d' u = known_unit d u" "total_units d' u = total_units d u"
  using stock_cong(1,2) [OF assms(1-3)] assms(4) by (simp_all add: total_units_def reserved_def)

lemma db_write_ok:
  assumes "db_write d d'" and "shop_ok d"
  shows "shop_ok d' \<and> known_unit d' u = known_unit d u \<and> (known_unit d u \<longrightarrow> total_units d' u = total_units d u)"
  using assms
proof (cases rule: db_write.cases)
  case (order new old)
  have "d' = d\<lparr>d_orders := set_row o_id new (d_orders d)\<rparr>" using flush_order_Inr order by blast
  then have "known_unit d' u = known_unit d u" "total_units d' u = total_units d u" by (intro total_units_cong; simp)+
  with write_order_ok [OF order assms(2)] show ?thesis by simp
next
  case (payment new old)
  have "d' = d\<lparr>d_payments := set_row pm_id new (d_payments d)\<rparr>" using payment(3) by (simp add: flush_payment_def split: if_splits)
  then have "known_unit d' u = known_unit d u" "total_units d' u = total_units d u" by (intro total_units_cong; simp)+
  with write_payment_ok [OF payment assms(2)] show ?thesis by simp
next
  case (new_payment pm)
  have "d' = d\<lparr>d_next := d_next d + 1, d_payments := d_payments d @ [pm]\<rparr>"
    using new_payment(1) by (auto simp: insert_payment_def fresh_def split: if_splits)
  then have "known_unit d' u = known_unit d u" "total_units d' u = total_units d u" by (intro total_units_cong; simp)+
  with write_new_payment_ok [OF new_payment assms(2)] show ?thesis by simp
next
  case (refund r)
  obtain rs where "d' = d\<lparr>d_refunds := rs\<rparr>" using refund by (auto elim!: save_refund_Inr)
  then have "known_unit d' u = known_unit d u" "total_units d' u = total_units d u" by (intro total_units_cong; simp)+
  with write_refund_ok [OF refund assms(2)] show ?thesis by simp
next
  case (new_refund r)
  have "d' = d\<lparr>d_next := d_next d + 1, d_refunds := d_refunds d @ [r]\<rparr>" using new_refund(1) by (simp add: create_refund_Inr fresh_def)
  then have "known_unit d' u = known_unit d u" "total_units d' u = total_units d u" by (intro total_units_cong; simp)+
  with write_new_refund_ok [OF new_refund assms(2)] show ?thesis by simp
next
  case (dispute x)
  obtain xs where "d' = d\<lparr>d_disputes := xs\<rparr>" using dispute by (auto simp: save_dispute_def res_simps split: option.splits if_splits)
  then have "known_unit d' u = known_unit d u" "total_units d' u = total_units d u" by (intro total_units_cong; simp)+
  with write_dispute_ok [OF dispute assms(2)] show ?thesis by simp
next
  case (new_dispute x)
  have "d' = d\<lparr>d_next := d_next d + 1, d_disputes := d_disputes d @ [x]\<rparr>"
    using new_dispute(1) by (auto simp: create_dispute_def fresh_def split: if_splits)
  then have "known_unit d' u = known_unit d u" "total_units d' u = total_units d u" by (intro total_units_cong; simp)+
  with write_new_dispute_ok [OF new_dispute assms(2)] show ?thesis by simp
next
  case (release ord now b ord')
  from write_release_ok [OF release assms(2)] show ?thesis by blast
next
  case (placed sha cfg rq now ord)
  from write_placed_ok [OF placed assms(2)] show ?thesis .
next
  case (new_return ret n)
  have "known_unit d' u = known_unit d u" "total_units d' u = total_units d u" by (intro total_units_cong; simp add: new_return(6))+
  with write_new_return_ok [OF new_return(1,2,5,4,6,7) assms(2)] show ?thesis by simp
next
  case (return_row new old)
  note w = write_return_row_ok [OF return_row assms(2)]
  have "known_unit d' u = known_unit d u" "total_units d' u = total_units d u" by (intro total_units_cong; simp add: w(2))+
  with w(1) show ?thesis by simp
next
  case (restocked ord ret admin ret')
  from write_restocked_ok [OF restocked assms(2)] show ?thesis by blast
next
  case other
  then have "known_unit d' u = known_unit d u" "total_units d' u = total_units d u" by (intro total_units_cong; simp add: bookkeeping_def)+
  with bookkeeping_shop_ok [OF other assms(2)] show ?thesis by simp
qed

section \<open>What one write does to each table\<close>

lemma db_write_forms:
  assumes "db_write d d'" and "shop_ok d"
  obtains (order) new old where "row o_id (o_id new) (d_orders d) = Some old" "order_change old new"
        "orders_lifecycle_guard old new d = Inr ()" "d' = d\<lparr>d_orders := set_row o_id new (d_orders d)\<rparr>"
        "o_stock_released_at new = o_stock_released_at old \<or> fully_back (o_id new) d \<and> o_status new \<in> {CANCELLED, REFUNDED}"
    | (payment) new old where "row pm_id (pm_id new) (d_payments d) = Some old" "payment_change old new" "payment_checks new d"
        "d' = d\<lparr>d_payments := set_row pm_id new (d_payments d)\<rparr>"
    | (new_payment) pm where "payment_checks pm (snd (fresh d))" "pm_id pm = d_next d"
        "d' = d\<lparr>d_next := d_next d + 1, d_payments := d_payments d @ [pm]\<rparr>"
    | (refund) r old where "row rf_id (rf_id r) (d_refunds d) = Some old" "refunds_guard old r = Inr ()" "refund_checks r d"
        "d' = d\<lparr>d_refunds := set_row rf_id r (d_refunds d)\<rparr>"
    | (new_refund) r where "refund_checks r (snd (fresh d))" "rf_id r = d_next d"
        "d' = d\<lparr>d_next := d_next d + 1, d_refunds := d_refunds d @ [r]\<rparr>"
    | (dispute) x old where "row dp_id (dp_id x) (d_disputes d) = Some old" "disputes_guard old x = Inr ()" "dispute_checks x d"
        "d' = d\<lparr>d_disputes := set_row dp_id x (d_disputes d)\<rparr>"
    | (new_dispute) x where "dispute_checks x (snd (fresh d))" "dp_id x = d_next d"
        "d' = d\<lparr>d_next := d_next d + 1, d_disputes := d_disputes d @ [x]\<rparr>"
    | (release) ps vs ms rs ii where
        "d' = d\<lparr>d_products := ps, d_variants := vs, d_stock_movements := ms, d_restocks := rs, d_order_items := ii\<rparr>"
        "line_facts ii = line_facts (d_order_items d)"
    | (placed) ord where "d_orders d' = d_orders d @ [ord]" "o_status ord = PENDING" "d_next d \<le> o_id ord"
        "d_payments d' = d_payments d" "d_refunds d' = d_refunds d" "d_disputes d' = d_disputes d"
        "d_processed_events d' = d_processed_events d" "d_deferred_events d' = d_deferred_events d" "d_returns d' = d_returns d"
        "d_shipments d' = d_shipments d" "d_next d \<le> d_next d'"
    | (new_return) ret n where "rt_id ret = d_next d" "rt_status ret = ''requested''" "d_next d < n" "d' = d\<lparr>d_next := n, d_returns := d_returns d @ [ret]\<rparr>"
    | (return_row) new old where "row rt_id (rt_id new) (d_returns d) = Some old" "return_change old new"
        "d' = d\<lparr>d_returns := set_row rt_id new (d_returns d)\<rparr>"
    | (other) "bookkeeping d d'"
  using assms(1)
proof (cases rule: db_write.cases)
  case (order new old)
  with flush_order_Inr [OF order(3,1)] that(1) show ?thesis by blast
next
  case (payment new old)
  with that(2) show ?thesis by (simp add: flush_payment_def split: if_splits)
next
  case (new_payment pm)
  then have "payment_checks pm (snd (fresh d))" "d' = d\<lparr>d_next := d_next d + 1, d_payments := d_payments d @ [pm]\<rparr>"
    by (auto simp: insert_payment_def fresh_def split: if_splits)
  with new_payment(2) that(3) show ?thesis by blast
next
  case (refund r)
  then show ?thesis by (rule save_refund_Inr) (rule that(4))
next
  case (new_refund r)
  then have "refund_checks r (snd (fresh d))" "d' = d\<lparr>d_next := d_next d + 1, d_refunds := d_refunds d @ [r]\<rparr>"
    by (simp_all add: create_refund_Inr fresh_def)
  with new_refund(2) that(5) show ?thesis by blast
next
  case (dispute x)
  then obtain old where "row dp_id (dp_id x) (d_disputes d) = Some old" "disputes_guard old x = Inr ()" "dispute_checks x d"
    "d' = d\<lparr>d_disputes := set_row dp_id x (d_disputes d)\<rparr>"
    by (auto simp: save_dispute_def res_simps split: option.splits if_splits)
  then show ?thesis by (rule that(6))
next
  case (new_dispute x)
  then have "dispute_checks x (snd (fresh d))" "d' = d\<lparr>d_next := d_next d + 1, d_disputes := d_disputes d @ [x]\<rparr>"
    by (auto simp: create_dispute_def fresh_def split: if_splits)
  with new_dispute(2) that(7) show ?thesis by blast
next
  case (release ord now b ord')
  from write_release_ok(4) [OF release assms(2)] show ?thesis by (rule stock_writeE) (rule that(8))
next
  case (placed sha cfg rq now ord)
  from placed shop_okD(1-4) [OF assms(2)] show ?thesis by (rule checkout_books) (rule that(9))
next
  case (new_return ret n)
  with that(10) show ?thesis by blast
next
  case (return_row new old)
  with write_return_row_ok(2) [OF return_row assms(2)] that(11) show ?thesis by blast
next
  case (restocked ord ret admin ret')
  from write_restocked_ok(4) [OF restocked assms(2)] show ?thesis by (rule stock_writeE) (rule that(8))
next
  case other
  then show ?thesis by (rule that(12))
qed

section \<open>Sequences of writes\<close>

text \<open>
  A property kept by every write of a well-formed shop is kept by every sequence of writes: the
  contract through which the guarantees reach the services.
\<close>

locale write_invariant =
  fixes I :: "db \<Rightarrow> bool"
  assumes keeps: "db_write d d' \<Longrightarrow> shop_ok d \<Longrightarrow> I d \<Longrightarrow> I d'"
begin

lemma writes_keep: "db_write\<^sup>*\<^sup>* d d' \<Longrightarrow> shop_ok d \<Longrightarrow> I d \<Longrightarrow> shop_ok d' \<and> I d'"
proof (induction rule: rtranclp_induct)
  case (step d1 d2)
  then have "shop_ok d1" "I d1" by blast+
  with step.hyps(2) show ?case using keeps db_write_ok by blast
qed simp

end

interpretation well_formed: write_invariant "\<lambda>d. True"
  by unfold_locales simp

interpretation conserved: write_invariant "\<lambda>d. known_unit d u \<and> total_units d u = n" for u n
  by unfold_locales (use db_write_ok in blast)

lemmas writes_shop_ok = well_formed.writes_keep [THEN conjunct1, OF _ _ TrueI]

lemma writes_trans [trans]: "db_write\<^sup>*\<^sup>* a b \<Longrightarrow> db_write\<^sup>*\<^sup>* b c \<Longrightarrow> db_write\<^sup>*\<^sup>* a c"
  by (rule rtranclp_trans)

end
