(* ===== verification/Service_Writes.thy ===== *)
theory Service_Writes
  imports Writes
begin

text \<open>
  Every operation of the services is a sequence of guarded writes (\<open>db_write\<close>), so whatever the
  writes keep, the operations keep: one lemma per operation, in the order of the code.
\<close>

abbreviation writes :: "db \<Rightarrow> db \<Rightarrow> bool" where
  "writes \<equiv> db_write\<^sup>*\<^sup>*"

section \<open>Bookkeeping\<close>

lemma bk_refl [intro, simp]: "bookkeeping d d"
  by (simp add: bookkeeping_def)

lemma bk_trans: "bookkeeping a b \<Longrightarrow> bookkeeping b c \<Longrightarrow> bookkeeping a c"
  by (fastforce simp: bookkeeping_def)

lemma bk_writes: "bookkeeping d d' \<Longrightarrow> writes d d'"
  by (intro r_into_rtranclp db_write.other)

text \<open>Changes to columns outside the invariants, given the two that need an argument.\<close>

lemma bk_frame:
  assumes "d_products d' = d_products d" "d_variants d' = d_variants d" "d_stock_movements d' = d_stock_movements d"
    "d_orders d' = d_orders d" "d_order_items d' = d_order_items d" "d_restocks d' = d_restocks d"
    "d_payments d' = d_payments d" "d_refunds d' = d_refunds d" "d_disputes d' = d_disputes d"
    "d_carts d' = d_carts d" "d_cart_items d' = d_cart_items d" "d_returns d' = d_returns d"
    "d_shipments d' = d_shipments d"
    and "d_next d \<le> d_next d'" and "dedupe_ok d \<Longrightarrow> dedupe_ok d'" and "\<And>k. settled k d \<Longrightarrow> settled k d'"
    and "de_key ` set (d_deferred_events d) \<subseteq> de_key ` set (d_deferred_events d')"
  shows "bookkeeping d d'"
proof -
  have "cart_ok d'" if "cart_ok d" by (rule cart_ok_next [OF that]) (simp_all add: assms)
  moreover have "shipments_ok d'" if "shipments_ok d" by (rule shipments_ok_next [OF that]) (simp_all add: assms)
  ultimately show ?thesis using assms by (simp add: bookkeeping_def)
qed

lemma bk_audit [intro, simp]: "bookkeeping d (audit_log x y z t d)"
  by (rule bk_frame) (simp_all add: audit_log_def dedupe_ok_def settled_def)

lemma bk_history: "bookkeeping d (d\<lparr>d_order_history := h\<rparr>)"
  by (rule bk_frame) (simp_all add: dedupe_ok_def settled_def)

lemma bk_reconcile [intro, simp]: "bookkeeping d (reconcile kind k pm oid ppid d)"
proof -
  let ?r = "record_reconciliation kind k (map_option pm_id pm) (or_else oid (map_option pm_order_id pm))
            (if truthy_text ppid then ppid else map_option pm_provider_payment_id pm) d"
  have "bookkeeping d (snd ?r)"
  proof (cases "k \<in> rc_dedupe_key ` set (d_reconciliations d)")
    case True
    then show ?thesis by (simp add: record_reconciliation_def)
  next
    case False
    have "dedupe_ok (snd ?r)" if "dedupe_ok d"
      using that False by (fastforce simp: record_reconciliation_def fresh_def dedupe_ok_def)
    with False show ?thesis
      by (intro bk_frame) (simp_all add: record_reconciliation_def fresh_def settled_def)
  qed
  then show ?thesis
    by (auto simp: reconcile_def Let_def split: prod.splits intro: bk_trans)
qed

lemma bk_enqueue [intro, simp]: "bookkeeping d (enqueue t p k d)"
proof (cases "k \<noteq> None \<and> k \<in> jb_dedupe_key ` set (d_jobs d)")
  case True
  then show ?thesis by (simp add: enqueue_def)
next
  case False
  have "dedupe_ok (enqueue t p k d)" if "dedupe_ok d"
  proof -
    have "\<forall>r \<in> set (d_reconciliations d). rc_id r < d_next d + 1" using that by (fastforce simp: dedupe_ok_def)
    with that False show ?thesis by (cases k) (auto simp: enqueue_def fresh_def dedupe_ok_def)
  qed
  with False show ?thesis
    by (intro bk_frame) (simp_all add: enqueue_def fresh_def settled_def)
qed

lemma bk_flag [intro, simp]: "bookkeeping d (flag_for_review act pid kind oid ppid dp k d)"
  unfolding flag_for_review_def Let_def by (rule bk_trans [OF bk_audit bk_reconcile])

lemma bk_issue_document:
  assumes "issue_document today ord t rel d = Inr (doc, d')"
  shows "bookkeeping d d'"
proof -
  obtain iv sq where d': "d' = d\<lparr>d_next := d_next d + 1, d_invoice_sequences := sq, d_invoices := iv\<rparr>"
    using issue_document_Inr [OF assms] by blast
  have "dedupe_ok d'" if "dedupe_ok d" by (rule dedupe_ok_next [OF that]) (simp_all add: d')
  then show ?thesis by (intro bk_frame) (simp_all add: d' settled_def)
qed

lemma bk_issue_invoice: "issue_invoice today e ord d = Inr (r, d') \<Longrightarrow> bookkeeping d d'"
  using issue_invoice_new bk_issue_document by blast

lemma bk_issue_credit_note: "issue_credit_note today ord d = Inr (r, d') \<Longrightarrow> bookkeeping d d'"
  using issue_credit_note_new bk_issue_document by blast

lemma settled_append: "settled k d \<Longrightarrow> d_processed_events d' = d_processed_events d @ rs \<Longrightarrow> settled k d'"
  by (auto simp: settled_def row_append)

lemma settled_set_row:
  assumes "settled k d" and "d_processed_events d' = set_row pe_key r (d_processed_events d)"
    and "row pe_key (pe_key r) (d_processed_events d) = Some old" and "pe_status old = ''failed'' \<or> pe_status r \<noteq> ''failed''"
  shows "settled k d'"
  using assms by (cases "k = pe_key r") (auto simp: settled_def row_set_row)

lemma bk_finish [simp]:
  assumes "s \<noteq> ''failed''"
  shows "bookkeeping d (finish_webhook_event ev s now d)"
proof (cases "row pe_key (event_key ev) (d_processed_events d)")
  case (Some r)
  have "settled k (finish_webhook_event ev s now d)" if "settled k d" for k
    by (rule settled_set_row [OF that, of _ "r\<lparr>pe_status := s, pe_last_error := None, pe_processed_at := Some now\<rparr>" r])
      (use Some assms row_SomeD [OF Some] in \<open>simp_all add: finish_webhook_event_def\<close>)
  with Some show ?thesis by (intro bk_frame) (simp_all add: finish_webhook_event_def dedupe_ok_def)
qed (simp add: finish_webhook_event_def)

lemma bk_claim:
  assumes "claim_webhook_event ev d = (b, d')"
  shows "bookkeeping d d'"
proof (cases "row pe_key (event_key ev) (d_processed_events d)")
  case None
  then obtain r where "d' = d\<lparr>d_processed_events := d_processed_events d @ [r]\<rparr>" "pe_key r = event_key ev"
    using assms by (auto simp: claim_webhook_event_def)
  with None show ?thesis by (intro bk_frame) (auto simp: dedupe_ok_def row_None_iff intro: settled_append)
next
  case (Some r)
  show ?thesis
  proof (cases "pe_status r = ''failed''")
    case True
    then obtain r1 where d': "d' = d\<lparr>d_processed_events := set_row pe_key r1 (d_processed_events d)\<rparr>" and r1: "pe_key r1 = event_key ev"
      using assms Some row_SomeD [OF Some] by (auto simp: claim_webhook_event_def)
    have "settled k d'" if "settled k d" for k
      by (rule settled_set_row [OF that, of _ r1 r]) (use Some True r1 in \<open>simp_all add: d'\<close>)
    then show ?thesis by (intro bk_frame) (simp_all add: d' dedupe_ok_def)
  next
    case False
    with assms Some show ?thesis by (simp add: claim_webhook_event_def)
  qed
qed

lemma bk_record_failed [intro, simp]: "bookkeeping d (record_failed_event ev m d)"
proof (cases "row pe_key (event_key ev) (d_processed_events d)")
  case None
  then obtain r where "record_failed_event ev m d = d\<lparr>d_processed_events := d_processed_events d @ [r]\<rparr>" "pe_key r = event_key ev"
    by (auto simp: record_failed_event_def)
  with None show ?thesis by (intro bk_frame) (auto simp: dedupe_ok_def row_None_iff intro: settled_append)
next
  case (Some r)
  show ?thesis
  proof (cases "pe_status r = ''failed''")
    case True
    have "settled k (record_failed_event ev m d)" if "settled k d" for k
      by (rule settled_set_row [OF that, of _ "r\<lparr>pe_status := ''failed'', pe_attempts := pe_attempts r + 1, pe_last_error := Some m\<rparr>" r])
        (use Some True row_SomeD [OF Some] in \<open>simp_all add: record_failed_event_def\<close>)
    with Some True show ?thesis by (intro bk_frame) (simp_all add: record_failed_event_def dedupe_ok_def)
  next
    case False
    with Some show ?thesis by (simp add: record_failed_event_def)
  qed
qed

lemma bk_defer [intro, simp]: "bookkeeping d (defer_event env ev r now d)"
  by (rule bk_frame) (auto simp: defer_event_def dedupe_ok_def settled_def)

lemma bk_defer_if [intro, simp]: "bookkeeping d (defer_if_payment_unknown env ev r now d)"
  by (simp add: defer_if_payment_unknown_def)

lemma bk_save_deferred [intro, simp]: "bookkeeping d (save_deferred r d)"
  by (rule bk_frame) (auto simp: save_deferred_def dedupe_ok_def settled_def)

lemma bk_resolve [intro, simp]: "bookkeeping d (resolve_by_dedupe_key k note now d)"
proof (rule bk_frame)
  let ?d = "resolve_by_dedupe_key k note now d"
  assume ok: "dedupe_ok d"
  have "map rc_dedupe_key (d_reconciliations ?d) = map rc_dedupe_key (d_reconciliations d)"
    "map rc_id (d_reconciliations ?d) = map rc_id (d_reconciliations d)"
    by (simp_all add: resolve_by_dedupe_key_def)
  moreover have "\<forall>r \<in> set (d_reconciliations ?d). rc_id r < d_next d"
    using ok by (auto simp: resolve_by_dedupe_key_def dedupe_ok_def)
  moreover have "d_jobs ?d = d_jobs d" "d_processed_events ?d = d_processed_events d"
    "d_deferred_events ?d = d_deferred_events d" "d_next ?d = d_next d" by (simp_all add: resolve_by_dedupe_key_def)
  ultimately show "dedupe_ok ?d" using ok unfolding dedupe_ok_def by (simp only:)
qed (auto simp: resolve_by_dedupe_key_def settled_def)

lemma bk_save_reconciliation:
  assumes "save_reconciliation rc d = Inr d'" and "row rc_id (rc_id rc) (d_reconciliations d) = Some old"
    and "rc_dedupe_key rc = rc_dedupe_key old"
  shows "bookkeeping d d'"
proof -
  have d': "d' = d\<lparr>d_reconciliations := set_row rc_id rc (d_reconciliations d)\<rparr>"
    using assms(1) by (simp add: save_reconciliation_def split: if_splits)
  have "dedupe_ok d'" if ok: "dedupe_ok d"
  proof -
    have dist: "distinct (map rc_id (d_reconciliations d))" using ok by (simp add: dedupe_ok_def)
    have "map rc_dedupe_key (set_row rc_id rc (d_reconciliations d)) = map rc_dedupe_key (d_reconciliations d)"
      using row_unique [OF dist assms(2)] assms(3) by (auto simp: set_row_def)
    moreover have "rc_id r < d_next d" if "r \<in> set (set_row rc_id rc (d_reconciliations d))" for r
      using set_set_rowD [OF that] ok row_SomeD [OF assms(2)] by (auto simp: dedupe_ok_def)
    ultimately show ?thesis using ok by (simp add: dedupe_ok_def d')
  qed
  then show ?thesis by (intro bk_frame) (simp_all add: d' settled_def)
qed

section \<open>Orders\<close>

lemma write_then: "db_write a b \<Longrightarrow> writes b c \<Longrightarrow> writes a c"
  by (rule converse_rtranclp_into_rtranclp)

lemma then_bk: "writes a b \<Longrightarrow> bookkeeping b c \<Longrightarrow> writes a c"
  by (rule rtranclp_trans [OF _ bk_writes])

lemma lock_order_Inr:
  assumes "lock_order_for_update oid d = Inr ord"
  shows "row o_id (o_id ord) (d_orders d) = Some ord" "o_id ord = oid"
  using assms by (auto simp: lock_order_for_update_def get_order_by_id_def split: option.splits dest: row_SomeD)

lemma bk_row: "bookkeeping d d' \<Longrightarrow> row o_id i (d_orders d') = row o_id i (d_orders d)"
  by (simp add: bookkeeping_def)

lemma flush_order_writes:
  assumes "flush_order new d = Inr d'" and "row o_id (o_id new) (d_orders d) = Some old" and "order_change old new"
    and "o_stock_released_at new = o_stock_released_at old \<or> fully_back (o_id new) d \<and> o_status new \<in> {CANCELLED, REFUNDED}"
  shows "writes d d' \<and> row o_id (o_id new) (d_orders d') = Some new \<and> d_order_items d' = d_order_items d"
  using db_write.order [OF assms(2,3,1,4)] flush_order_Inr [OF assms(1,2)] assms(2) by (auto simp: row_set_row)

lemma update_status_writes:
  assumes "update_status ord st by reason now d = Inr (ord', d')" and "row o_id (o_id ord) (d_orders d) = Some old"
    and "order_change old ord"
    and "o_stock_released_at ord = o_stock_released_at old \<or> fully_back (o_id ord) d \<and> st \<in> {CANCELLED, REFUNDED}"
  shows "writes d d' \<and> ord' = ord\<lparr>o_status := st\<rparr> \<and> row o_id (o_id ord) (d_orders d') = Some ord' \<and> d_order_items d' = d_order_items d"
proof -
  let ?new = "ord\<lparr>o_status := st\<rparr>"
  obtain d1 h where f: "flush_order ?new d = Inr d1" and d': "d' = d1\<lparr>d_order_history := h\<rparr>" "ord' = ?new"
    using assms(1) by (auto simp: update_status_def Let_def res_simps)
  have "order_change old ?new" using assms(3) unfolding order_change_def by (cases old; cases ord) simp
  with flush_order_writes [OF f, of old] assms(2,4)
  have w: "writes d d1" "row o_id (o_id ord) (d_orders d1) = Some ?new" "d_order_items d1 = d_order_items d" by simp_all
  with then_bk [OF w(1) bk_history] show ?thesis by (simp add: d')
qed

lemma order_change_refl [simp]: "order_change ord ord"
  by (simp add: order_change_def)

lemma mark_paid_writes:
  assumes "mark_paid ord pm ck d = Inr (b, d')" and "row o_id (o_id ord) (d_orders d) = Some ord"
  shows "writes d d'"
proof (cases "o_status ord = PENDING")
  case False
  with assms(1) show ?thesis by (simp add: mark_paid_def)
next
  case True
  obtain ord1 d1 d2 where u: "update_status ord PAID None (Some ''payment confirmed by the payment provider'') (ck_now ck) d = Inr (ord1, d1)"
    and f: "flush_order (ord1\<lparr>o_paid_in_demo_mode := (pm_provider pm = ''demo'')\<rparr>) d1 = Inr d2"
    and d': "d' = audit_log None ''order.paid'' ''order'' [KI (o_id ord1)] d2"
    using assms(1) True by (auto simp: mark_paid_def res_simps)
  have w: "writes d d1" "row o_id (o_id ord1) (d_orders d1) = Some ord1" using update_status_writes [OF u assms(2)] by simp_all
  have "order_change ord1 (ord1\<lparr>o_paid_in_demo_mode := (pm_provider pm = ''demo'')\<rparr>)" by (simp add: order_change_def)
  with flush_order_writes [OF f, of ord1] w(2) have "writes d1 d2" by simp
  then show ?thesis unfolding d' by (intro then_bk [OF _ bk_audit] rtranclp_trans [OF w(1)])
qed

lemma fulfil_order_writes:
  assumes "fulfil_order oid admin ck d = Inr (ord', d')"
  shows "writes d d'"
proof -
  obtain ord where l: "lock_order_for_update oid d = Inr ord" using assms by (auto simp: fulfil_order_def res_simps)
  show ?thesis
  proof (cases "o_status ord = FULFILLED")
    case True
    with assms l show ?thesis by (simp add: fulfil_order_def)
  next
    case False
    then obtain ord1 d1 r d2 where u: "update_status ord FULFILLED (Some admin) (Some ''marked fulfilled by an administrator'') (ck_now ck) d = Inr (ord1, d1)"
      and i: "issue_invoice (ck_today ck) False ord1 d1 = Inr (r, d2)"
      and d': "d' = audit_log (Some admin) ''order.fulfilled'' ''order'' [KI (o_id ord1)] d2"
      using assms l by (auto simp: fulfil_order_def res_simps split: if_splits)
    have "writes d d1" using update_status_writes [OF u lock_order_Inr(1) [OF l]] by simp
    then show ?thesis unfolding d' by (intro then_bk [OF _ bk_audit] then_bk [OF _ bk_issue_invoice [OF i]])
  qed
qed

text \<open>A release followed by the write of its order.\<close>

lemma restock_once_writes:
  assumes "restock_once ord now d = Inr (b, ord', d')" and "row o_id (o_id ord) (d_orders d) = Some ord" and "shop_ok d"
  shows "db_write d d' \<and> row o_id (o_id ord) (d_orders d') = Some ord \<and> fully_back (o_id ord) d'
    \<and> order_change ord ord' \<and> o_id ord' = o_id ord \<and> o_status ord' = o_status ord
    \<and> ord' = ord\<lparr>o_stock_released_at := o_stock_released_at ord'\<rparr>"
proof -
  note ok = shop_okD [OF assms(3)]
  have "order_ok ord d" using ok(6) row_SomeD [OF assms(2)] by (simp add: lifecycle_ok_def)
  then have fb: "o_stock_released_at ord \<noteq> None \<Longrightarrow> fully_back (o_id ord) d" by (simp add: order_ok_def)
  note e = restock_once_effect [OF assms(1) ok(5,4,1,2) fb]
  obtain ps vs ms rs ii where "d' = d\<lparr>d_products := ps, d_variants := vs, d_stock_movements := ms, d_restocks := rs, d_order_items := ii\<rparr>"
    using e(9) unfolding stock_write_def by blast
  then show ?thesis using db_write.release [OF assms(2,1)] assms(2) e(5,10) by (simp add: order_change_def)
qed

lemma release_stock_and_cancel_writes:
  assumes "release_stock_and_cancel ord actor reason now d = Inr (ord', d')" and "row o_id (o_id ord) (d_orders d) = Some ord" and "shop_ok d"
  shows "writes d d' \<and> ord' = ord\<lparr>o_status := CANCELLED, o_stock_released_at := o_stock_released_at ord'\<rparr>
    \<and> row o_id (o_id ord) (d_orders d') = Some ord'"
proof -
  obtain b ord1 d1 where r: "restock_once ord now d = Inr (b, ord1, d1)" and u: "update_status ord1 CANCELLED actor (Some reason) now d1 = Inr (ord', d')"
    using assms(1) by (auto simp: release_stock_and_cancel_def res_simps)
  note w = restock_once_writes [OF r assms(2,3)]
  have "row o_id (o_id ord1) (d_orders d1) = Some ord" "fully_back (o_id ord1) d1" using w by simp_all
  with update_status_writes [OF u this(1)] w
  have v: "writes d1 d'" "ord' = ord1\<lparr>o_status := CANCELLED\<rparr>" "row o_id (o_id ord) (d_orders d') = Some ord'" by simp_all
  have "ord1 = ord\<lparr>o_stock_released_at := o_stock_released_at ord1\<rparr>" using w by blast
  then have "ord' = ord\<lparr>o_status := CANCELLED, o_stock_released_at := o_stock_released_at ord'\<rparr>"
    using v(2) by (cases ord; cases ord1) simp
  with v w show ?thesis by (intro conjI write_then [of d d1]) simp_all
qed

section \<open>Payments\<close>

lemma flush_payment_writes:
  assumes "flush_payment new d = Inr d'" and "row pm_id (pm_id new) (d_payments d) = Some old" and "payment_change old new"
  shows "writes d d' \<and> row pm_id (pm_id new) (d_payments d') = Some new
    \<and> d' = d\<lparr>d_payments := set_row pm_id new (d_payments d)\<rparr>"
  using db_write.payment [OF assms(2,3,1)] assms(1,2) by (auto simp: flush_payment_def row_set_row split: if_splits)

lemma update_payment_status_writes:
  assumes "update_payment_status pm st d = Inr (pm', d')" and "row pm_id (pm_id pm) (d_payments d) = Some old" and "payment_change old pm"
  shows "writes d d' \<and> pm' = pm\<lparr>pm_status := st\<rparr> \<and> row pm_id (pm_id pm) (d_payments d') = Some pm'
    \<and> d' = d\<lparr>d_payments := set_row pm_id pm' (d_payments d)\<rparr>"
  using flush_payment_writes [of "pm\<lparr>pm_status := st\<rparr>" d d' old] assms
  by (auto simp: update_payment_status_def Let_def res_simps payment_change_def)

lemma payment_change_refl [simp]: "payment_change pm pm"
  by (simp add: payment_change_def)

lemma find_row:
  assumes "find P t = Some x" and "distinct (map key t)"
  shows "row key (key x) t = Some x"
proof -
  have "x \<in> set t" using assms(1) by (auto simp: find_Some_iff)
  with assms(2) show ?thesis by (rule row_in_distinct)
qed

lemma fail_pending_writes:
  assumes "rfold fail_pending ps d = Inr d'" and "shop_ok d" and "distinct (map pm_id ps)"
    and "\<forall>p \<in> set ps. row pm_id (pm_id p) (d_payments d) = Some p"
  shows "writes d d' \<and> d_orders d' = d_orders d"
  using assms
proof (induction ps arbitrary: d)
  case (Cons p ps)
  obtain d1 where 1: "fail_pending p d = Inr d1" and 2: "rfold fail_pending ps d1 = Inr d'" using Cons.prems(1) by (auto simp: res_simps)
  have row: "row pm_id (pm_id p) (d_payments d) = Some p" using Cons.prems(4) by simp
  have w: "writes d d1 \<and> d_orders d1 = d_orders d \<and> (\<forall>q \<in> set ps. row pm_id (pm_id q) (d_payments d1) = Some q)"
  proof (cases "pm_status p = PayPending")
    case True
    then obtain p' where u: "update_payment_status p PayFailed d = Inr (p', d1)" using 1 by (auto simp: fail_pending_def res_simps)
    have v: "writes d d1" "p' = p\<lparr>pm_status := PayFailed\<rparr>" and d1: "d1 = d\<lparr>d_payments := set_row pm_id p' (d_payments d)\<rparr>"
      using update_payment_status_writes [OF u row payment_change_refl] by blast+
    have "d_orders d1 = d_orders d" by (simp add: d1)
    moreover have "row pm_id (pm_id q) (d_payments d1) = Some q" if "q \<in> set ps" for q
    proof -
      have "pm_id p \<notin> pm_id ` set ps" using Cons.prems(3) by simp
      then have "pm_id q \<noteq> pm_id p" using that by (metis imageI)
      then have "pm_id q \<noteq> pm_id p'" using v by simp
      then show ?thesis using Cons.prems(4) that by (simp add: d1)
    qed
    ultimately show ?thesis using v(1) by blast
  next
    case False
    with 1 Cons.prems(4) show ?thesis by (simp add: fail_pending_def)
  qed
  then have "shop_ok d1" using writes_shop_ok Cons.prems(2) by blast
  with Cons.IH [OF 2 this] Cons.prems(3) w show ?case by (auto intro: rtranclp_trans)
qed simp

lemma list_for_order_rows:
  assumes "shop_ok d"
  shows "distinct (map pm_id (list_for_order oid d))" and "\<forall>p \<in> set (list_for_order oid d). row pm_id (pm_id p) (d_payments d) = Some p"
proof -
  have dist: "distinct (map pm_id (d_payments d))" using shop_okD(7) [OF assms] by (simp add: refunds_ok_def)
  then show "distinct (map pm_id (list_for_order oid d))"
    by (simp add: list_for_order_def payments_of_def rev_map [symmetric] distinct_map_filter)
  show "\<forall>p \<in> set (list_for_order oid d). row pm_id (pm_id p) (d_payments d) = Some p"
    using row_in_distinct [OF dist] by (simp add: list_for_order_def payments_of_def)
qed

lemma cancel_finish_writes:
  assumes "cancel_finish oid actor reason ck d = Inr (out, ord', d')" and "shop_ok d"
  shows "writes d d'"
proof -
  obtain ord where l: "lock_order_for_update oid d = Inr ord" using assms(1) by (auto simp: cancel_finish_def res_simps)
  note lo = lock_order_Inr [OF l]
  show ?thesis
  proof (cases "o_status ord = PENDING \<and> \<not> list_ex (\<lambda>p. pm_status p = PaySucceeded) (list_for_order (o_id ord) d)")
    case False
    with assms(1) l show ?thesis by (auto simp: cancel_finish_def Let_def split: if_splits)
  next
    case True
    then obtain d1 ord2 d2 where f: "rfold fail_pending (list_for_order (o_id ord) d) d = Inr d1"
      and r: "release_stock_and_cancel ord actor reason (ck_now ck) d1 = Inr (ord2, d2)"
      and d': "d' = audit_log actor ''order.cancelled'' ''order'' [KI (o_id ord2)] d2"
      using assms(1) l by (auto simp: cancel_finish_def Let_def res_simps)
    note w = fail_pending_writes [OF f assms(2) list_for_order_rows [OF assms(2)]]
    then have ok1: "shop_ok d1" using writes_shop_ok assms(2) by blast
    have "row o_id (o_id ord) (d_orders d1) = Some ord" using w lo(1) by simp
    from release_stock_and_cancel_writes [OF r this ok1] have "writes d1 d2" by simp
    with w show ?thesis unfolding d' by (intro then_bk [OF _ bk_audit]) (auto intro: rtranclp_trans)
  qed
qed

section \<open>Refunds\<close>

lemma save_refund_writes: "save_refund r d = Inr d' \<Longrightarrow> writes d d'"
  by (intro r_into_rtranclp db_write.refund)

text \<open>A refund request finds the refund already under way or inserts one and books it.\<close>

definition refund_booked :: "int \<Rightarrow> int option \<Rightarrow> bool \<Rightarrow> int \<Rightarrow> db \<Rightarrow> db" where
  "refund_booked i by c oid d =
     (let a = audit_log by ''refund.requested'' ''refund'' [KI i] (enqueue ''execute_refund'' [KI i] (Some [KS ''execute-refund'', KI i]) d)
      in if c then audit_log by ''order.cancel_refund_requested'' ''order'' [KI oid] a else a)"

lemma bk_refund_booked [intro, simp]: "bookkeeping d (refund_booked i by c oid d)"
  unfolding refund_booked_def Let_def by (auto intro: bk_trans [OF bk_trans [OF bk_enqueue bk_audit] bk_audit] bk_trans [OF bk_enqueue bk_audit])

lemma request_refund_cases:
  assumes "request_refund oid by pid c d = Inr (r, b, d')"
  obtains (existing) "d' = d" "r \<in> set (d_refunds d)" "rf_cancels_order r = c"
    | (new) i r0 d2 where "create_refund r0 (snd (fresh d)) = Inr d2" "rf_id r0 = d_next d"
        "d' = refund_booked (d_next d) (Some by) c i d2" "r = r0" "rf_cancels_order r0 = c"
proof -
  obtain ord pm where l: "lock_order_for_update oid d = Inr ord" and p: "refundable_payment ord pid (list_for_order (o_id ord) d) = Inr pm"
    and g: "guard (o_currency ord \<noteq> None) OrderCurrencyUnknown = Inr ()"
      "guard (\<not> c \<or> o_status ord = PAID) (CancelAndRefundNotAllowed (o_status ord)) = Inr ()"
    using assms by (auto simp: request_refund_def res_simps)
  note body = assms [unfolded request_refund_def l rbind_simps g p]
  show thesis
  proof (cases "get_active_for_payment (pm_id pm) d")
    case (Some x)
    then have "x \<in> set (d_refunds d)" by (auto simp: get_active_for_payment_def find_Some_iff)
    with body existing Some show thesis by (auto split: if_splits)
  next
    case None
    note body = body [unfolded None option.case Let_def fresh_def prod.case rbind_eq_Inr]
    then have "\<not> pm_amount_cents pm \<le> committed_amount (pm_id pm) d" "\<not> 0 < committed_amount (pm_id pm) d"
      by (auto split: if_splits)
    note body = body [unfolded if_not_P [OF this(1)] if_not_P [OF this(2)] rbind_eq_Inr]
    show thesis
    proof (insert body, elim exE conjE, rule new [where i = "o_id ord", unfolded fresh_def snd_conv])
    qed (assumption, simp (no_asm), auto simp: refund_booked_def Let_def)
  qed
qed

lemma request_refund_writes:
  assumes "request_refund oid by pid c d = Inr (r, b, d')"
  shows "writes d d'"
proof (rule request_refund_cases [OF assms])
  fix i r0 d2
  assume "create_refund r0 (snd (fresh d)) = Inr d2" "rf_id r0 = d_next d" and d': "d' = refund_booked (d_next d) (Some by) c i d2"
  then have "writes d d2" by (intro r_into_rtranclp db_write.new_refund)
  then show ?thesis unfolding d' by (rule then_bk [OF _ bk_refund_booked])
qed simp

lemma begin_refund_attempt_writes:
  assumes "begin_refund_attempt rid d = Inr (a, d')"
  shows "writes d d'"
proof (cases "get_refund rid d")
  case None
  with assms show ?thesis by (simp add: begin_refund_attempt_def)
next
  case (Some r)
  show ?thesis
  proof (cases "rf_status r = RefRequested")
    case False
    with assms Some show ?thesis by (simp add: begin_refund_attempt_def)
  next
    case True
    obtain pm where pm: "get_payment (rf_payment_id r) d = Some pm"
      using assms Some True by (auto simp: begin_refund_attempt_def split: option.splits)
    show ?thesis
    proof (cases "has_open_dispute (pm_id pm) d \<and> rf_attempts r = 0")
      case blocked: True
      then obtain r1 d1 where "save_refund r1 d = Inr d1"
        and d': "d' = audit_log None ''refund.blocked_by_dispute'' ''refund'' [KI (rf_id r)]
          (reconcile REFUND_BLOCKED_BY_DISPUTE [KS ''refund_blocked_by_dispute'', KI (rf_id r)] (Some pm) None None d1)"
        using assms Some True pm by (auto simp: begin_refund_attempt_def res_simps Let_def)
      then show ?thesis unfolding d' by (intro then_bk [OF _ bk_audit] then_bk [OF _ bk_reconcile] save_refund_writes)
    next
      case False
      let ?d1 = "if has_open_dispute (pm_id pm) d
                 then reconcile DISPUTE_DURING_REFUND [KS ''dispute_during_refund'', KI (rf_id r)] (Some pm) None None d else d"
      obtain r1 where "save_refund r1 ?d1 = Inr d'"
        using assms Some True pm False by (simp add: begin_refund_attempt_def res_simps Let_def) blast
      moreover have "bookkeeping d ?d1" by simp
      ultimately show ?thesis by (intro rtranclp_trans [OF bk_writes save_refund_writes])
    qed
  qed
qed

lemma record_refund_attempt_failed_writes:
  assumes "record_refund_attempt_failed redact n rid err d = Inr (v, d')"
  shows "writes d d'"
proof (cases "get_refund rid d")
  case None
  with assms show ?thesis by (simp add: record_refund_attempt_failed_def)
next
  case (Some r)
  show ?thesis
  proof (cases "rf_status r = RefRequested \<and> \<not> rf_attempts r < n")
    case False
    with assms Some show ?thesis by (auto simp: record_refund_attempt_failed_def split: if_splits)
  next
    case True
    then obtain r1 d1 where "save_refund r1 d = Inr d1"
      and d': "d' = audit_log None ''refund.uncertain'' ''refund'' [KI (rf_id r)]
        (reconcile REFUND_UNCERTAIN [KS ''refund_uncertain'', KI (rf_id r)] None (Some (rf_order_id r)) None d1)"
      using assms Some by (auto simp: record_refund_attempt_failed_def res_simps Let_def)
    then show ?thesis unfolding d' by (intro then_bk [OF _ bk_audit] then_bk [OF _ bk_reconcile] save_refund_writes)
  qed
qed

lemma add_refunded_amount_writes:
  assumes "add_refunded_amount pm prid amount d = Inr (pm', d')" and "row pm_id (pm_id pm) (d_payments d) = Some pm"
  shows "writes d d' \<and> d_orders d' = d_orders d \<and> pm_id pm' = pm_id pm"
proof -
  obtain new where f: "flush_payment new d = Inr d'" "pm' = new" "payment_change pm new"
    using assms(1) by (auto simp: add_refunded_amount_def Let_def res_simps payment_change_def split: if_splits)
  then have "pm_id new = pm_id pm" by (simp add: payment_change_def)
  with flush_payment_writes [OF f(1) _ f(3)] assms(2) f(2) have "writes d d'" "d' = d\<lparr>d_payments := set_row pm_id new (d_payments d)\<rparr>"
    by auto
  then have "d_orders d' = d_orders d" by (cases d) simp
  with \<open>writes d d'\<close> \<open>pm_id new = pm_id pm\<close> f(2) show ?thesis by simp
qed

text \<open>The order's part of a confirmed refund.\<close>

lemma refunded_order_writes:
  assumes "rbind (update_status ord REFUNDED None reason now d) (\<lambda>(ord, d).
             rbind (issue_credit_note today ord d) (\<lambda>(_, d).
             if c then rbind (restock_once ord now d) (\<lambda>(_, ord, d). flush_order ord d) else Inr d)) = Inr d'"
    and "row o_id (o_id ord) (d_orders d) = Some ord" and "shop_ok d"
  shows "writes d d'"
proof -
  obtain ord1 d1 x d2 where u: "update_status ord REFUNDED None reason now d = Inr (ord1, d1)"
    and i: "issue_credit_note today ord1 d1 = Inr (x, d2)"
    and r: "(if c then rbind (restock_once ord1 now d2) (\<lambda>(_, ord, d). flush_order ord d) else Inr d2) = Inr d'"
    using assms(1) by (auto simp: res_simps)
  have w: "writes d d1" "ord1 = ord\<lparr>o_status := REFUNDED\<rparr>" "row o_id (o_id ord) (d_orders d1) = Some ord1"
    using update_status_writes [OF u assms(2) order_change_refl] by simp_all
  have w2: "writes d d2" using w(1) bk_issue_credit_note [OF i] by (rule then_bk)
  then have ok2: "shop_ok d2" using writes_shop_ok assms(3) by blast
  have row2: "row o_id (o_id ord1) (d_orders d2) = Some ord1" using w(2,3) bk_row [OF bk_issue_credit_note [OF i]] by simp
  show ?thesis
  proof (cases c)
    case False
    with r w2 show ?thesis by simp
  next
    case True
    then obtain b ord2 d3 where s: "restock_once ord1 now d2 = Inr (b, ord2, d3)" and f: "flush_order ord2 d3 = Inr d'"
      using r by (auto simp: res_simps)
    note v = restock_once_writes [OF s row2 ok2]
    have "o_status ord2 = REFUNDED" using v w(2) by simp
    with flush_order_writes [OF f, of ord1] v have "writes d3 d'" by simp
    with v w2 show ?thesis by (meson rtranclp_trans write_then)
  qed
qed

lemma confirm_refund_writes:
  assumes "confirm_refund r prid amount ck d = Inr d'" and "shop_ok d"
  shows "writes d d'"
proof -
  obtain ord pm0 where l: "lock_order_for_update (rf_order_id r) d = Inr ord" and pm0: "get_payment (rf_payment_id r) d = Some pm0"
    using assms(1) by (auto simp: confirm_refund_def res_simps split: option.splits)
  obtain pm d1 where a: "add_refunded_amount pm0 prid (amount_or amount (rf_amount_cents r)) d = Inr (pm, d1)"
    using assms(1) l pm0 by (auto simp: confirm_refund_def res_simps)
  let ?d2 = "if has_open_dispute (pm_id pm) d1
             then reconcile DISPUTE_DURING_REFUND [KS ''dispute_during_refund'', KI (rf_id r)] (Some pm) None None d1 else d1"
  let ?full = "pm_amount_cents pm \<le> (case pm_refunded_amount_cents pm of None \<Rightarrow> 0 | Some a \<Rightarrow> a)"
  obtain d3 where s: "(if rf_origin r = ''requested'' \<and> ?full \<and> o_status ord \<in> {PAID, FULFILLED}
        then rbind (update_status ord REFUNDED None (Some ''refund confirmed by the payment provider'') (ck_now ck) ?d2) (\<lambda>(ord', d).
             rbind (issue_credit_note (ck_today ck) ord' d) (\<lambda>(_, d).
             if rf_cancels_order r \<and> \<not> (o_status ord = FULFILLED)
             then rbind (restock_once ord' (ck_now ck) d) (\<lambda>(_, ord, d). flush_order ord d) else Inr d))
        else Inr ?d2) = Inr d3" and d': "d' = audit_log None ''refund.succeeded'' ''refund'' [KI (rf_id r)] d3"
    using assms(1) unfolding confirm_refund_def Let_def l rbind_simps pm0 option.case a prod.case rbind_eq_Inr by blast
  have row0: "row pm_id (pm_id pm0) (d_payments d) = Some pm0" using pm0 row_SomeD unfolding get_payment_def by fastforce
  have w1: "writes d d1" "d_orders d1 = d_orders d" using add_refunded_amount_writes [OF a row0] by simp_all
  have bk: "bookkeeping d1 ?d2" by simp
  have w2: "writes d ?d2" using w1(1) bk by (rule then_bk)
  then have ok2: "shop_ok ?d2" using writes_shop_ok assms(2) by blast
  have row2: "row o_id (o_id ord) (d_orders ?d2) = Some ord" using lock_order_Inr(1) [OF l] w1(2) bk_row [OF bk] by simp
  have "writes ?d2 d3"
  proof (cases "rf_origin r = ''requested'' \<and> ?full \<and> o_status ord \<in> {PAID, FULFILLED}")
    case True
    show ?thesis by (rule refunded_order_writes [OF s [unfolded if_P [OF True]] row2 ok2])
  next
    case False
    from s [unfolded if_not_P [OF False]] show ?thesis by simp
  qed
  with w2 show ?thesis unfolding d' by (intro then_bk [OF _ bk_audit]) (rule rtranclp_trans)
qed

lemma apply_refund_state_writes:
  assumes "apply_refund_state r status amount cur prid ck d = Inr d'" and "shop_ok d"
  shows "writes d d'"
proof -
  define d1 where "d1 = (if (amount \<noteq> None \<and> amount \<noteq> Some (rf_amount_cents r)) \<or> (cur \<noteq> None \<and> cur \<noteq> Some (rf_currency r))
                then audit_log None ''payment.refund_mismatch'' ''refund'' [KI (rf_id r)]
                       (reconcile REFUND_MISMATCH [KS ''refund_mismatch'', KI (rf_id r)] None (Some (rf_order_id r)) None d)
                else d)"
  have bk: "bookkeeping d d1" unfolding d1_def by (auto intro: bk_trans [OF bk_reconcile bk_audit])
  then have ok1: "shop_ok d1" using bookkeeping_shop_ok assms(2) by blast
  define r1 where "r1 = (if truthy_text prid \<and> rf_provider_refund_id r = None then r\<lparr>rf_provider_refund_id := prid\<rparr> else r)"
  note body = assms(1) [unfolded apply_refund_state_def Let_def, folded d1_def r1_def]
  consider (saved) r2 where "save_refund r2 d1 = Inr d'"
    | (confirmed) r2 d2 x where "save_refund r2 d1 = Inr d2" "confirm_refund r2 x amount ck d2 = Inr d'"
    | (failed) r2 d2 t where "save_refund r2 d1 = Inr d2" "d' = audit_log None ''refund.failed'' ''refund'' [KI t] d2"
  proof (cases "rf_status r1 \<in> {RefSucceeded, RefFailed}")
    case True
    with body that(1) show ?thesis by simp
  next
    case final: False
    show ?thesis
    proof (cases "status = Some ''succeeded''")
      case True
      with body final that(2) show ?thesis by (auto simp: res_simps)
    next
      case ns: False
      show ?thesis
      proof (cases "status = Some ''failed'' \<or> status = Some ''canceled''")
        case True
        with body final ns that(3) show ?thesis by (auto simp: res_simps)
      next
        case False
        with body final ns that(1) show ?thesis by simp
      qed
    qed
  qed
  then have "writes d1 d'"
  proof cases
    case saved
    then show ?thesis by (rule save_refund_writes)
  next
    case confirmed
    have "shop_ok d2" using writes_shop_ok [OF save_refund_writes [OF confirmed(1)] ok1] .
    from rtranclp_trans [OF save_refund_writes [OF confirmed(1)] confirm_refund_writes [OF confirmed(2) this]] show ?thesis .
  next
    case failed
    then show ?thesis using then_bk [OF save_refund_writes [OF failed(1)] bk_audit] by simp
  qed
  with bk_writes [OF bk] show ?thesis by (rule rtranclp_trans)
qed

lemma finish_refund_writes: "finish_refund rid res ck d = Inr d' \<Longrightarrow> shop_ok d \<Longrightarrow> writes d d'"
  by (auto simp: finish_refund_def split: prod.splits option.splits intro: apply_refund_state_writes)

end
