(* ===== verification/Webhook_Writes.thy ===== *)
theory Webhook_Writes
  imports Service_Writes
begin

text \<open>
  Provider refunds, disputes, reconciliation, webhook events, payments and jobs as sequences of
  guarded writes.
\<close>

section \<open>Refunds recorded from the provider\<close>

definition external_refund :: "int \<Rightarrow> payment \<Rightarrow> string \<Rightarrow> int \<Rightarrow> refund" where
  "external_refund i pm prid a =
     \<lparr>rf_id = i, rf_payment_id = pm_id pm, rf_order_id = pm_order_id pm, rf_amount_cents = a,
      rf_currency = pm_currency pm, rf_status = RefSucceeded, rf_provider_refund_id = Some prid,
      rf_idempotency_key = [KS ''provider'', KS prid], rf_requested_by_user_id = None, rf_attempts = 0,
      rf_cancels_order = False, rf_origin = ''provider'', rf_failure_reason = None\<rparr>"

lemma record_external_refund_new:
  assumes "get_by_provider_refund_id prid d = None" and "\<not> (a \<le> 0 \<or> cur \<noteq> Some (pm_currency pm))"
    and "create_refund (external_refund (d_next d) pm prid a) (snd (fresh d)) = Inr d2"
  shows "record_external_refund pm prid (Some a) cur d =
    rbind (add_refunded_amount pm (Some prid) a d2) (\<lambda>(pm1, d3).
      Inr (True, audit_log None ''refund.external_recorded'' ''payment'' [KI (pm_id pm)]
        (reconcile EXTERNAL_REFUND [KS ''external_refund'', KS prid] (Some pm1) None None d3)))"
  using assms(3) unfolding record_external_refund_def fresh_def Let_def prod.case option.case external_refund_def
  by (simp add: assms(1) if_not_P [OF assms(2)])

lemma record_external_refund_flagged:
  assumes "record_external_refund pm prid amount cur d = Inr (b, d')"
    and "\<And>a d2. amount = Some a \<Longrightarrow> get_by_provider_refund_id prid d = None \<Longrightarrow> \<not> (a \<le> 0 \<or> cur \<noteq> Some (pm_currency pm))
           \<Longrightarrow> create_refund (external_refund (d_next d) pm prid a) (snd (fresh d)) \<noteq> Inr d2"
  shows "bookkeeping d d'"
proof (cases "get_by_provider_refund_id prid d = None \<and> amount \<noteq> None \<and> \<not> (the amount \<le> 0 \<or> cur \<noteq> Some (pm_currency pm))")
  case False
  then consider "get_by_provider_refund_id prid d \<noteq> None"
    | "get_by_provider_refund_id prid d = None" "amount = None"
    | a where "get_by_provider_refund_id prid d = None" "amount = Some a" "a \<le> 0 \<or> cur \<noteq> Some (pm_currency pm)" by fastforce
  then show ?thesis using assms(1) by cases (auto simp: record_external_refund_def)
next
  case True
  then obtain a where a: "amount = Some a" "get_by_provider_refund_id prid d = None" "\<not> (a \<le> 0 \<or> cur \<noteq> Some (pm_currency pm))" by auto
  obtain e where e: "create_refund (external_refund (d_next d) pm prid a) (snd (fresh d)) = Inl e"
    using assms(2) [OF a] by (cases "create_refund (external_refund (d_next d) pm prid a) (snd (fresh d))") blast+
  have "d' = reconcile REFUND_MISMATCH [KS ''external_refund_exceeds'', KS prid] (Some pm) None None d"
    using assms(1) e unfolding record_external_refund_def fresh_def Let_def prod.case a(1) option.case external_refund_def
    by (simp add: a(2) if_not_P [OF a(3)])
  then show ?thesis by simp
qed

lemma record_external_refund_writes:
  assumes "record_external_refund pm prid amount cur d = Inr (b, d')" and "row pm_id (pm_id pm) (d_payments d) = Some pm"
  shows "writes d d'"
proof (cases "\<exists>a d2. amount = Some a \<and> get_by_provider_refund_id prid d = None \<and> \<not> (a \<le> 0 \<or> cur \<noteq> Some (pm_currency pm))
    \<and> create_refund (external_refund (d_next d) pm prid a) (snd (fresh d)) = Inr d2")
  case False
  then have "bookkeeping d d'" by (intro record_external_refund_flagged [OF assms(1)]) blast
  then show ?thesis by (rule bk_writes)
next
  case True
  then obtain a d2 where a: "amount = Some a" "get_by_provider_refund_id prid d = None" "\<not> (a \<le> 0 \<or> cur \<noteq> Some (pm_currency pm))"
    and c: "create_refund (external_refund (d_next d) pm prid a) (snd (fresh d)) = Inr d2" by blast
  obtain pm1 d3 where f: "add_refunded_amount pm (Some prid) a d2 = Inr (pm1, d3)"
    and d': "d' = audit_log None ''refund.external_recorded'' ''payment'' [KI (pm_id pm)]
               (reconcile EXTERNAL_REFUND [KS ''external_refund'', KS prid] (Some pm1) None None d3)"
    using assms(1) unfolding a(1) record_external_refund_new [OF a(2,3) c] by (auto simp: res_simps)
  have "d_payments d2 = d_payments d" using c by (simp add: create_refund_Inr fresh_def)
  with add_refunded_amount_writes [OF f] assms(2) have "writes d2 d3" by simp
  moreover have "db_write d d2" by (rule db_write.new_refund [OF c]) (simp add: external_refund_def)
  ultimately have "writes d d3" by (rule write_then [rotated])
  then show ?thesis unfolding d' by (intro then_bk [OF _ bk_audit] then_bk [OF _ bk_reconcile])
qed

section \<open>Disputes and reconciliation\<close>

lemma bk_settled [intro, simp]: "bookkeeping d (dispute_settled m x pm d)"
  by (auto simp: dispute_settled_def intro: bk_trans [OF bk_reconcile bk_audit])

definition dispute_booked :: "bool \<Rightarrow> int \<Rightarrow> payment \<Rightarrow> db \<Rightarrow> db" where
  "dispute_booked fin i pm d =
     (let d3 = audit_log None ''dispute.opened'' ''dispute'' [KI i] d;
          d4 = (if \<not> fin \<and> has_submitted_refund (pm_id pm) d3
                then reconcile DISPUTE_DURING_REFUND [KS ''dispute_during_refund'', KS ''dispute'', KI i] (Some pm) None None d3
                else d3)
      in if \<not> fin then reconcile DISPUTE_OPENED [KS ''dispute_opened'', KI i] (Some pm) None None d4 else d4)"

lemma bk_dispute_booked [intro, simp]: "bookkeeping d (dispute_booked t i pm d)"
  unfolding dispute_booked_def Let_def
  by (auto intro: bk_trans [OF _ bk_reconcile] bk_audit)

lemma open_new_dispute_writes:
  assumes "open_new_dispute ev pdid pm ck d = Inr (x, d')"
  shows "writes d d'"
proof -
  obtain y d2 where c: "create_dispute y (snd (fresh d)) = Inr d2" "dp_id y = d_next d"
    and d': "d' = dispute_booked (terminal_dispute (mapped_status (we_dispute_status ev))) (d_next d) pm d2"
    using assms unfolding open_new_dispute_def Let_def fresh_def prod.case rbind_eq_Inr
  proof (elim exE conjE)
  qed (rule that [unfolded fresh_def snd_conv], assumption, simp (no_asm), simp only: dispute_booked_def Let_def sum.inject prod.inject)
  have "writes d d2" using db_write.new_dispute [OF c] by (rule r_into_rtranclp)
  then show ?thesis unfolding d' by (rule then_bk [OF _ bk_dispute_booked])
qed

lemma apply_dispute_event_writes:
  assumes "apply_dispute_event ev ck d = Inr d'"
  shows "writes d d'"
proof -
  let ?pm = "if we_provider_payment_id ev \<noteq> [] then get_by_provider_payment_id (we_provider_payment_id ev) (Some (we_provider ev)) d else None"
  let ?pd = "if truthy_text (we_provider_dispute_id ev) then we_provider_dispute_id ev else None"
  let ?m = "mapped_status (we_dispute_status ev)"
  note body = assms [unfolded apply_dispute_event_def Let_def]
  show ?thesis
  proof (cases "?pm \<noteq> None \<and> ?pd \<noteq> None")
    case False
    then have "bookkeeping d d'" using body by (auto split: option.splits)
    then show ?thesis by (rule bk_writes)
  next
    case True
    then obtain pm pdid where p: "?pm = Some pm" "?pd = Some pdid" by auto
    note body = body [unfolded p prod.case option.case]
    show ?thesis
    proof (cases "get_dispute (we_provider ev) pdid d")
      case None
      then obtain x d1 where "open_new_dispute ev pdid pm ck d = Inr (x, d1)" "d' = dispute_settled ?m x pm d1"
        using body by (auto simp: res_simps)
      then show ?thesis using then_bk [OF open_new_dispute_writes bk_settled] by blast
    next
      case (Some x)
      show ?thesis
      proof (cases "terminal_dispute (dp_status x) \<or> ?m = dp_status x")
        case True
        with body Some show ?thesis by simp
      next
        case False
        then obtain x1 d1 where "save_dispute x1 d = Inr d1"
          and d': "d' = dispute_settled ?m x1 pm (audit_log None ''dispute.status_changed'' ''dispute'' [KI (dp_id x)] d1)"
          using body Some by (auto simp: res_simps)
        then show ?thesis unfolding d'
          by (intro then_bk [OF _ bk_settled] then_bk [OF _ bk_audit] r_into_rtranclp db_write.dispute)
      qed
    qed
  qed
qed

lemma open_reconciliation_Inr:
  "open_reconciliation rid d = Inr rc \<Longrightarrow> row rc_id (rc_id rc) (d_reconciliations d) = Some rc"
  by (auto simp: open_reconciliation_def split: option.splits if_splits dest: row_SomeD)

lemma resolve_reconciliation_writes:
  assumes "resolve_reconciliation rid admin res nt ck d = Inr (rc, d')"
  shows "writes d d'"
proof -
  obtain rc0 d1 where o: "open_reconciliation rid d = Inr rc0"
    and s: "save_reconciliation (resolved res (str_strip nt) admin (ck_now ck) rc0) d = Inr d1"
    and d': "d' = audit_log (Some admin) ''reconciliation.resolved'' ''payment_reconciliation'' [KI (rc_id rc0)] d1"
    using assms by (auto simp: resolve_reconciliation_def res_simps Let_def)
  have "bookkeeping d d1" by (rule bk_save_reconciliation [OF s, of rc0]) (simp_all add: resolved_def open_reconciliation_Inr [OF o])
  then show ?thesis unfolding d' by (rule bk_writes [OF bk_trans [OF _ bk_audit]])
qed

text \<open>A refund request leaves the reconciliation records alone.\<close>

lemma enqueue_reconciliations [simp]: "d_reconciliations (enqueue t p k d) = d_reconciliations d"
  by (simp add: enqueue_def fresh_def)

lemma request_refund_reconciliations:
  "request_refund oid by pid c d = Inr (r, b, d') \<Longrightarrow> d_reconciliations d' = d_reconciliations d"
  by (erule request_refund_cases) (auto simp: refund_booked_def Let_def create_refund_Inr)

lemma refund_from_reconciliation_writes:
  assumes "refund_from_reconciliation rid admin ck d = Inr (rc, r, d')"
  shows "writes d d'"
proof -
  obtain rc0 where o: "open_reconciliation rid d = Inr rc0"
    using assms by (auto simp: refund_from_reconciliation_def res_simps)
  obtain pid oid where p: "rc_payment_id rc0 = Some pid" "rc_order_id rc0 = Some oid"
    using assms by (auto simp: refund_from_reconciliation_def o split: option.splits)
  obtain b d1 d2 nt where q: "request_refund oid admin (Some pid) False d = Inr (r, b, d1)"
    and s: "save_reconciliation (resolved ''refund_requested'' nt admin (ck_now ck) rc0) d1 = Inr d2"
    and d': "d' = audit_log (Some admin) ''reconciliation.resolved'' ''payment_reconciliation'' [KI (rc_id rc0)] d2"
    using assms by (auto simp: refund_from_reconciliation_def o p res_simps Let_def)
  have "bookkeeping d1 d2"
    by (rule bk_save_reconciliation [OF s, of rc0])
      (simp_all add: resolved_def request_refund_reconciliations [OF q] open_reconciliation_Inr [OF o])
  then show ?thesis unfolding d'
    by (intro then_bk [OF _ bk_audit] then_bk [OF request_refund_writes [OF q]])
qed

section \<open>Webhook events\<close>

lemma bk_matches: "event_matches_payment ev pm d = (b, d') \<Longrightarrow> bookkeeping d d' \<and> (b \<longrightarrow> d' = d)"
  by (auto simp: event_matches_payment_def Let_def split: if_splits option.splits)

lemma payment_found:
  assumes "get_by_provider_payment_id ppid pv d = Some pm" and "shop_ok d"
  shows "row pm_id (pm_id pm) (d_payments d) = Some pm"
  using find_row [of _ "d_payments d" pm pm_id] assms shop_okD(7) [OF assms(2)]
  unfolding get_by_provider_payment_id_def refunds_ok_def by blast

lemma receive_payment_writes:
  assumes "receive_payment ev pm d = Inr (pm', d')" and "row pm_id (pm_id pm) (d_payments d) = Some pm"
  shows "writes d d'"
proof -
  define pm1 where "pm1 = (if truthy_text (we_provider_reference ev) \<and> pm_provider_reference pm = None
                 then pm\<lparr>pm_provider_reference := we_provider_reference ev\<rparr> else pm)"
  have c: "payment_change pm pm1" "pm_id pm1 = pm_id pm" by (simp_all add: pm1_def payment_change_def)
  note body = assms(1) [unfolded receive_payment_def Let_def, folded pm1_def]
  have row: "row pm_id (pm_id pm1) (d_payments d) = Some pm" using c(2) assms(2) by simp
  show ?thesis
  proof (cases "pm_status pm1 = PaySucceeded")
    case False
    with body update_payment_status_writes [of pm1 _ d pm' d' pm, OF _ row c(1)] show ?thesis by simp
  next
    case True
    show ?thesis
    proof (cases "pm1 = pm")
      case same: True
      with body True show ?thesis by simp
    next
      case False
      with body True flush_payment_writes [of pm1 d _ pm, OF _ row c(1)] show ?thesis by (auto simp: res_simps)
    qed
  qed
qed

lemma handle_payment_succeeded_writes:
  assumes "handle_payment_succeeded env ev ck d = Inr d'" and "shop_ok d"
  shows "writes d d'"
proof (cases "get_by_provider_payment_id (we_provider_payment_id ev) (Some (we_provider ev)) d")
  case None
  with assms(1) have "bookkeeping d d'" by (auto simp: handle_payment_succeeded_def Let_def intro: bk_trans [OF bk_flag bk_defer])
  then show ?thesis by (rule bk_writes)
next
  case (Some pm0)
  obtain m d1 where m: "event_matches_payment ev pm0 d = (m, d1)" by fastforce
  show ?thesis
  proof (cases m)
    case False
    with assms(1) Some m have "d' = d1" by (simp add: handle_payment_succeeded_def)
    with bk_matches [OF m] show ?thesis by (auto intro: bk_writes)
  next
    case True
    then have d1: "d1 = d" using bk_matches [OF m] by simp
    obtain pm d2 where r: "receive_payment ev pm0 d = Inr (pm, d2)"
      using assms(1) Some m True d1 by (auto simp: handle_payment_succeeded_def res_simps)
    have w: "writes d d2" by (rule receive_payment_writes [OF r payment_found [OF Some assms(2)]])
    note body = assms(1) [unfolded handle_payment_succeeded_def Let_def Some option.case m prod.case d1 r rbind_simps]
    show ?thesis
    proof (cases "get_order_by_id (pm_order_id pm) d2")
      case None
      with body True have "bookkeeping d2 d'" by auto
      with w show ?thesis by (rule then_bk)
    next
      case (Some ord)
      have row: "row o_id (o_id ord) (d_orders d2) = Some ord" using Some row_SomeD unfolding get_order_by_id_def by fastforce
      show ?thesis
      proof (cases "o_status ord = PENDING")
        case False
        with body True Some have "bookkeeping d2 d'" by auto
        with w show ?thesis by (rule then_bk)
      next
        case pending: True
        obtain b d3 where "mark_paid ord pm ck d2 = Inr (b, d3)" "bookkeeping d3 d'"
          using body True Some pending by (auto simp: res_simps)
        with mark_paid_writes [OF _ row] w show ?thesis by (meson rtranclp_trans then_bk)
      qed
    qed
  qed
qed

lemma handle_payment_failed_writes:
  assumes "handle_payment_failed ppid pv d = Inr d'" and "shop_ok d"
  shows "writes d d'"
proof (cases "get_by_provider_payment_id ppid pv d")
  case None
  with assms(1) show ?thesis by (simp add: handle_payment_failed_def)
next
  case (Some pm)
  from assms(1) Some update_payment_status_writes [OF _ payment_found [OF Some assms(2)] payment_change_refl]
  show ?thesis by (auto simp: handle_payment_failed_def res_simps split: if_splits)
qed

lemma bk_unknown_refund [intro, simp]: "bookkeeping d (unknown_refund env ev ppid now d)"
  unfolding unknown_refund_def Let_def by (rule bk_trans [OF bk_defer_if bk_flag])

lemma handle_refund_event_writes:
  assumes "handle_refund_event env ev ck d = Inr d'" and "shop_ok d"
  shows "writes d d'"
proof -
  obtain f ppid where f: "find_refund ev d = (f, ppid)" by fastforce
  note body = assms(1) [unfolded handle_refund_event_def Let_def f prod.case]
  show ?thesis
  proof (cases f)
    case (Some r)
    with body assms(2) show ?thesis by (auto split: option.splits intro: apply_refund_state_writes)
  next
    case None
    consider (bk) "bookkeeping d d'"
      | (ext) pm b where "get_by_provider_payment_id ppid (Some (we_provider ev)) d = Some pm"
          "record_external_refund pm (the (we_provider_refund_id ev)) (we_amount ev) (we_currency ev) d = Inr (b, d')"
      using body None by (auto simp: res_simps split: if_splits option.splits)
    then show ?thesis
    proof cases
      case bk
      then show ?thesis by (rule bk_writes)
    next
      case ext
      from record_external_refund_writes [OF ext(2) payment_found [OF ext(1) assms(2)]] show ?thesis .
    qed
  qed
qed

lemma dispatch_event_writes:
  assumes "dispatch_event env ev ck d = Inr (b, d')" and "shop_ok d"
  shows "writes d d'"
  using assms
  by (auto simp: dispatch_event_def handle_dispute_event_def res_simps split: if_splits
      intro: handle_payment_succeeded_writes handle_payment_failed_writes handle_refund_event_writes
        then_bk [OF apply_dispute_event_writes bk_defer_if])

lemma process_webhook_event_writes:
  assumes "process_webhook_event env ev ck d = Inr d'" and "shop_ok d"
  shows "writes d d'"
proof -
  obtain c d1 where c: "claim_webhook_event ev d = (c, d1)" by fastforce
  have bk: "bookkeeping d d1" by (rule bk_claim [OF c])
  then have ok: "shop_ok d1" using bookkeeping_shop_ok assms(2) by blast
  show ?thesis
  proof (cases c)
    case False
    with assms(1) c bk show ?thesis by (auto simp: process_webhook_event_def intro: bk_writes)
  next
    case True
    then obtain h d2 where "dispatch_event env ev ck d1 = Inr (h, d2)" "bookkeeping d2 d'"
      using assms(1) c by (auto simp: process_webhook_event_def res_simps)
    with dispatch_event_writes [OF _ ok] show ?thesis by (meson bk bk_writes rtranclp_trans then_bk)
  qed
qed

lemma handle_webhook_writes:
  assumes "handle_webhook env msg ev ck d = (r, d')" and "shop_ok d"
  shows "writes d d'"
  using assms by (auto simp: handle_webhook_def split: sum.splits intro: process_webhook_event_writes bk_writes)

section \<open>Starting a payment\<close>

lemma bk_orphan [intro, simp]: "bookkeeping d (cancel_orphan_intent pv ppid oid d)"
  by (simp add: cancel_orphan_intent_def Let_def split: option.split)

lemma record_new_payment_writes: "writes d (snd (record_new_payment env oid plan intent d))"
proof (cases "lock_order_for_update oid d")
  case (Inl e)
  then show ?thesis by (simp add: record_new_payment_def split: prod.split)
next
  case (Inr ord)
  obtain ppid secret where i: "intent = (ppid, secret)" by fastforce
  let ?pm = "new_payment plan oid ppid (d_next d)"
  have new: "writes d d2" if "insert_payment ?pm (snd (fresh d)) = Inr d2" for d2
    by (intro r_into_rtranclp db_write.new_payment [OF that]) (simp add: new_payment_def)
  have orphan: "writes d (cancel_orphan_intent (pp_provider plan) ppid oid d)" by (intro bk_writes bk_orphan)
  show ?thesis
    unfolding record_new_payment_def i Inr Let_def
    by (simp add: fresh_def split: option.split sum.split prod.split)
      (use new orphan in \<open>auto simp: fresh_def\<close>)
qed

lemma reuse_payment_writes:
  assumes "reuse_payment oid pm intent d = Inr (r, d')"
  shows "writes d d'"
proof -
  obtain ord pm1 status secret where i: "intent = (status, secret)" and l: "lock_order_for_update oid d = Inr ord"
    and a: "assert_order_payable ord = Inr ()" and p: "get_payment (pm_id pm) d = Some pm1"
    using assms by (cases intent) (auto simp: reuse_payment_def res_simps split: option.splits)
  have row: "row pm_id (pm_id pm1) (d_payments d) = Some pm1" using p row_SomeD unfolding get_payment_def by fastforce
  note w = update_payment_status_writes [OF _ row payment_change_refl]
  from assms show ?thesis
    unfolding reuse_payment_def Let_def i prod.case l rbind_simps a p option.case
    by (auto simp: res_simps split: if_splits dest: w)
qed

text \<open>Other requests that commit between two transactions of one operation.\<close>

definition others :: "(db \<Rightarrow> db) \<Rightarrow> bool" where
  "others meanwhile \<longleftrightarrow> (\<forall>d. shop_ok d \<longrightarrow> writes d (meanwhile d))"

lemma othersD: "others m \<Longrightarrow> shop_ok d \<Longrightarrow> writes d (m d) \<and> shop_ok (m d)"
  using writes_shop_ok unfolding others_def by blast

lemma create_new_payment_writes:
  assumes "others meanwhile" and "shop_ok d"
  shows "writes d (snd (create_new_payment env meanwhile oid plan d))"
  using othersD [OF assms] record_new_payment_writes
  by (auto simp: create_new_payment_def split: option.split intro: rtranclp_trans)

lemma create_payment_for_order_writes:
  assumes "others m1" and "others m2" and "shop_ok d"
  shows "writes d (snd (create_payment_for_order sha env m1 m2 oid who now d))"
proof (cases "rbind (assert_live_payments_allowed env) (\<lambda>_. rbind (authorize_payment sha (pe_shop env) oid who now d) (\<lambda>ord. plan_payment env (o_id ord) d))")
  case (Inl e)
  then show ?thesis by (simp add: create_payment_for_order_def)
next
  case (Inr plan)
  note o1 = othersD [OF assms(1,3)]
  have 1: "writes d (snd (create_new_payment env m2 oid plan d))" by (rule create_new_payment_writes [OF assms(2,3)])
  have 2: "writes d d2" "shop_ok d2" if "reuse_payment oid pm i (m1 d) = Inr (r, d2)" for pm i r d2
    using o1 reuse_payment_writes [OF that] writes_shop_ok by (auto intro: rtranclp_trans)
  have 3: "writes d (snd (create_new_payment env m2 oid plan d2))" if "reuse_payment oid pm i (m1 d) = Inr (r, d2)" for pm i r d2
    by (rule rtranclp_trans [OF 2(1) [OF that] create_new_payment_writes [OF assms(2) 2(2) [OF that]]])
  show ?thesis unfolding create_payment_for_order_def Inr Let_def
    using 1 2(1) 3 o1 by (auto split: option.split sum.split)
qed

section \<open>Jobs\<close>

lemma apply_deferred_event_writes: "apply_deferred_event env ev ck d = Inr d' \<Longrightarrow> shop_ok d \<Longrightarrow> writes d d'"
  by (auto simp: apply_deferred_event_def split: if_splits
      intro: handle_payment_succeeded_writes handle_refund_event_writes apply_dispute_event_writes)

lemma bk_fold: "(\<And>x d. bookkeeping d (f x d)) \<Longrightarrow> bookkeeping d (fold f xs d)"
  by (induction xs arbitrary: d) (auto intro: bk_trans)

lemma reprocess_one_writes:
  assumes "shop_ok d"
  shows "writes d (reprocess_one env m ck r d)"
proof (cases "get_by_provider_payment_id (we_provider_payment_id (de_event r)) (Some (we_provider (de_event r))) d")
  case None
  then have "bookkeeping d (reprocess_one env m ck r d)"
    by (auto simp: reprocess_one_def Let_def intro: bk_trans [OF bk_save_deferred bk_audit])
  then show ?thesis by (rule bk_writes)
next
  case (Some pm)
  show ?thesis
  proof (cases "apply_deferred_event env (de_event r) ck d")
    case (Inl e)
    with Some have "bookkeeping d (reprocess_one env m ck r d)" by (auto simp: reprocess_one_def Let_def)
    then show ?thesis by (rule bk_writes)
  next
    case (Inr d1)
    with Some have "bookkeeping d1 (reprocess_one env m ck r d)"
      unfolding reprocess_one_def Let_def
      by simp (intro bk_trans [OF _ bk_audit] bk_trans [OF _ bk_resolve] bk_save_deferred)
    with apply_deferred_event_writes [OF Inr assms] show ?thesis by (rule then_bk)
  qed
qed

lemma reprocess_deferred_events_writes:
  assumes "shop_ok d"
  shows "writes d (reprocess_deferred_events env m ck d)"
proof -
  have "shop_ok d \<Longrightarrow> writes d (fold (reprocess_one env m ck) rs d)" for rs d
  proof (induction rs arbitrary: d)
    case (Cons r rs)
    have "writes d (reprocess_one env m ck r d)" by (rule reprocess_one_writes [OF Cons.prems])
    with Cons.IH writes_shop_ok [OF this Cons.prems] show ?case by (simp add: rtranclp_trans)
  qed simp
  with assms show ?thesis by (simp add: reprocess_deferred_events_def)
qed

lemma sweep_stale_orders_writes: "writes d (sweep_stale_orders env now d)"
  unfolding sweep_stale_orders_def Let_def by (intro bk_writes bk_fold bk_enqueue)

lemma cancel_order_writes:
  assumes "cancel_order rv m oid actor reason ck d = Inr (out, ord, d')" and "others m" and "shop_ok d"
  shows "writes d d'"
proof -
  obtain plan where p: "cancel_begin oid d = Inr plan" using assms(1) by (auto simp: cancel_order_def res_simps)
  note o = othersD [OF assms(2,3)]
  show ?thesis
  proof (cases plan)
    case (AlreadyCancelled x)
    with assms(1) p show ?thesis by (simp add: cancel_order_def)
  next
    case (ToCancel x to_cancel)
    obtain u c where i: "cancel_intents rv to_cancel = (u, c)" by fastforce
    note body = assms(1) [unfolded cancel_order_def p rbind_simps ToCancel cancel_plan.case Let_def i prod.case]
    consider "bookkeeping (m d) d'" | "cancel_finish oid actor reason ck (m d) = Inr (out, ord, d')"
      using body by (auto split: if_splits)
    then have "writes (m d) d'" using bk_writes cancel_finish_writes o by cases blast+
    then show ?thesis by (rule rtranclp_trans [OF o [THEN conjunct1]])
  qed
qed

lemma expire_order_writes:
  assumes "others m" and "shop_ok d"
  shows "writes d (snd (expire_order env m oid ck d))"
proof (cases "cancel_order (resolver_of env) m oid None ''unpaid order expired'' ck d")
  case (Inl e)
  with othersD [OF assms] show ?thesis by (simp add: expire_order_def split: option.split)
next
  case (Inr t)
  obtain out ord d' where t: "t = (out, ord, d')" by (cases t)
  from cancel_order_writes [OF Inr [unfolded t] assms] Inr show ?thesis by (simp add: expire_order_def t split: option.split)
qed

lemma execute_refund_writes:
  assumes "others m" and "shop_ok d"
  shows "writes d (snd (execute_refund env redact m err rid ck d))"
proof (cases "begin_refund_attempt rid d")
  case (Inl e)
  then show ?thesis by (simp add: execute_refund_def)
next
  case (Inr t)
  obtain a d1 where t: "t = (a, d1)" by fastforce
  have w: "writes d d1" using Inr unfolding t by (rule begin_refund_attempt_writes)
  have ok: "shop_ok d1" using writes_shop_ok [OF w assms(2)] .
  note o = othersD [OF assms(1) ok]
  show ?thesis
  proof (cases a)
    case None
    with Inr w show ?thesis by (simp add: execute_refund_def t)
  next
    case (Some at)
    have "writes (m d1) (snd (execute_refund env redact m err rid ck d))"
      unfolding execute_refund_def Inr t Some Let_def
      using record_refund_attempt_failed_writes finish_refund_writes o
      by (auto split: option.split sum.split)
    then show ?thesis by (rule rtranclp_trans [OF rtranclp_trans [OF w o [THEN conjunct1]]])
  qed
qed

end
