(* ===== verification/Return_Writes.thy ===== *)
theory Return_Writes
  imports Webhook_Writes
begin

text \<open>Shipments and returns as sequences of guarded writes.\<close>

section \<open>Shipments\<close>

lemma bk_shipments:
  assumes "d' = d\<lparr>d_next := n, d_shipments := xs\<rparr>" and "d_next d \<le> n" and "shipments_ok d \<Longrightarrow> shipments_ok d'"
  shows "bookkeeping d d'"
proof -
  have "dedupe_ok d'" if "dedupe_ok d" using that by (rule dedupe_ok_next) (simp_all add: assms(1,2))
  moreover have "cart_ok d'" if "cart_ok d" using that by (rule cart_ok_next) (simp_all add: assms(1,2))
  ultimately show ?thesis using assms(2,3) by (simp add: bookkeeping_def assms(1) settled_def)
qed

text \<open>Two parcels of an order never share a carrier's tracking number.\<close>

definition same_tracking :: "shipment \<Rightarrow> shipment \<Rightarrow> bool" where
  "same_tracking x s \<longleftrightarrow> sh_id x \<noteq> sh_id s \<and> sh_order_id x = sh_order_id s \<and> sh_carrier_name x = sh_carrier_name s
     \<and> sh_tracking_number x = sh_tracking_number s \<and> sh_tracking_number s \<noteq> None"

definition shipment_row_ok :: "shipment \<Rightarrow> bool" where
  "shipment_row_ok s \<longleftrightarrow> sh_status s \<in> {''shipped'', ''delivered''} \<and> (sh_status s = ''delivered'' \<longleftrightarrow> sh_delivered_at s \<noteq> None)"

lemma shipment_checks_alt:
  "shipment_checks s d \<longleftrightarrow> shipment_row_ok s \<and> (\<forall>x \<in> set (d_shipments d). \<not> same_tracking x s)"
  by (auto simp: shipment_checks_def shipment_row_ok_def same_tracking_def list_ex_iff)

lemma same_tracking_sym: "same_tracking x s \<longleftrightarrow> same_tracking s x"
  by (auto simp: same_tracking_def)

lemma same_tracking_irrefl [simp]: "\<not> same_tracking s s"
  by (simp add: same_tracking_def)

lemma shipments_ok_alt:
  "shipments_ok d \<longleftrightarrow> distinct (map sh_id (d_shipments d))
     \<and> (\<forall>s \<in> set (d_shipments d). sh_id s < d_next d \<and> shipment_row_ok s \<and> (\<forall>x \<in> set (d_shipments d). \<not> same_tracking x s))"
  by (simp add: shipments_ok_def shipment_checks_alt)

lemma bk_add_shipment:
  assumes "add_shipment s (snd (fresh d)) = Inr d'" and "sh_id s = d_next d"
  shows "bookkeeping d d'"
proof (rule bk_shipments)
  show d': "d' = d\<lparr>d_next := d_next d + 1, d_shipments := d_shipments d @ [s]\<rparr>"
    using assms(1) by (auto simp: add_shipment_def fresh_def split: if_splits)
  assume ok: "shipments_ok d"
  have "shipment_checks s (snd (fresh d))" using assms(1) by (auto simp: add_shipment_def split: if_splits)
  then have c: "shipment_row_ok s" "\<forall>x \<in> set (d_shipments d). \<not> same_tracking x s" by (simp_all add: shipment_checks_alt fresh_def)
  moreover have "sh_id s \<notin> sh_id ` set (d_shipments d)" using ok assms(2) by (fastforce simp: shipments_ok_alt)
  ultimately show "shipments_ok d'"
    using ok same_tracking_sym [of s] assms(2) unfolding shipments_ok_alt by (fastforce simp: d')
qed simp

lemma bk_save_shipment:
  assumes "save_shipment s d = Inr d'" and "row sh_id (sh_id s) (d_shipments d) = Some old"
  shows "bookkeeping d d'"
proof (rule bk_shipments)
  show d': "d' = d\<lparr>d_next := d_next d, d_shipments := set_row sh_id s (d_shipments d)\<rparr>"
    using assms(1) by (auto simp: save_shipment_def split: if_splits)
  assume ok: "shipments_ok d"
  have c: "shipment_row_ok s" "\<forall>x \<in> set (d_shipments d). \<not> same_tracking x s"
    using assms(1) by (simp_all add: save_shipment_def shipment_checks_alt split: if_splits)
  have "sh_id s < d_next d" using ok row_SomeD [OF assms(2)] by (auto simp: shipments_ok_alt)
  with ok c show "shipments_ok d'"
    using same_tracking_sym [of s] unfolding shipments_ok_alt by (auto simp: d' dest!: set_set_rowD)
qed simp

lemma bk_remove_shipment: "bookkeeping d (remove_shipment s d)"
  by (rule bk_shipments [where n = "d_next d"]) (auto simp: remove_shipment_def shipments_ok_alt distinct_map_filter)

lemma get_shipment_row:
  assumes "get_shipment oid sid d = Some s"
  shows "sh_id s = sid" and "\<exists>old. row sh_id sid (d_shipments d) = Some old"
proof -
  have s: "s \<in> set (d_shipments d)" "sh_id s = sid" using assms by (auto simp: get_shipment_def find_Some_iff)
  then show "sh_id s = sid" by simp
  have "row sh_id sid (d_shipments d) \<noteq> None" using s by (auto simp: row_None_iff)
  then show "\<exists>old. row sh_id sid (d_shipments d) = Some old" by blast
qed

lemma create_shipment_writes:
  assumes "create_shipment oid payload admin ck d = Inr (s, d')"
  shows "writes d d'"
proof -
  obtain ord d1 d2 where l: "lock_order_for_update oid d = Inr ord" and a: "add_shipment s (snd (fresh d)) = Inr d1"
    and f: "fulfil_with_shipment (sc_fulfill_order payload) ord admin ck d1 = Inr d2"
    and d': "d' = audit_log (Some admin) ''shipment.created'' ''order'' [KI (o_id ord)] d2" and sid: "sh_id s = d_next d"
    using assms by (auto simp: create_shipment_def res_simps Let_def fresh_def new_shipment_def split: if_splits)
  have d1: "d1 = d\<lparr>d_next := d_next d + 1, d_shipments := d_shipments d @ [s]\<rparr>"
    using a by (auto simp: add_shipment_def fresh_def split: if_splits)
  have "bookkeeping d d1" by (rule bk_add_shipment [OF a]) (simp add: sid)
  moreover have "writes d1 d2"
  proof (cases "sc_fulfill_order payload \<and> o_status ord = PAID")
    case True
    then obtain ord1 d3 r where u: "update_status ord FULFILLED (Some admin) None (ck_now ck) d1 = Inr (ord1, d3)"
      and i: "issue_invoice (ck_today ck) False ord1 d3 = Inr (r, d2)"
      using f by (auto simp: fulfil_with_shipment_def res_simps split: if_splits)
    have o: "row o_id (o_id ord) (d_orders d1) = Some ord" using lock_order_Inr(1) [OF l] by (simp add: d1)
    have "writes d1 d3" using update_status_writes [OF u o] by simp
    then show ?thesis by (rule then_bk [OF _ bk_issue_invoice [OF i]])
  qed (use f in \<open>auto simp: fulfil_with_shipment_def\<close>)
  ultimately have "writes d d2" by (rule rtranclp_trans [OF bk_writes])
  then show ?thesis unfolding d' by (rule then_bk [OF _ bk_audit])
qed

lemma update_shipment_writes:
  assumes "update_shipment oid sid payload admin now d = Inr (s, d')"
  shows "writes d d'"
proof -
  obtain s0 d1 where g: "get_shipment oid sid d = Some s0" and v: "save_shipment s d = Inr d1" and "sh_id s = sh_id s0"
    and d': "d' = audit_log (Some admin) ''shipment.updated'' ''order'' [KI oid] d1"
    using assms by (auto simp: update_shipment_def edited_shipment_def Let_def res_simps split: option.splits if_splits)
  then have "bookkeeping d d1" using bk_save_shipment [OF v] get_shipment_row [OF g] by auto
  then show ?thesis unfolding d' by (rule bk_writes [OF bk_trans [OF _ bk_audit]])
qed

lemma delete_shipment_writes:
  assumes "delete_shipment oid sid admin d = Inr d'"
  shows "writes d d'"
proof -
  obtain s where d': "d' = audit_log (Some admin) ''shipment.deleted'' ''order'' [KI oid] (remove_shipment s d)"
    using assms by (auto simp: delete_shipment_def res_simps split: option.splits)
  show ?thesis unfolding d' by (rule bk_writes [OF bk_trans [OF bk_remove_shipment bk_audit]])
qed

section \<open>Returns\<close>

lemma get_return_Inr: "get_return i d = Inr r \<longleftrightarrow> row rt_id i (d_returns d) = Some r"
  by (simp add: get_return_def split: option.splits)

lemma bk_log_return [simp]: "bookkeeping d (log_return actor action r d)"
  by (simp add: log_return_def)

lemma finish_return_Inr:
  assumes "finish_return actor action admin r d = Inr (x, d')"
  obtains d1 where "flush_return r d = Inr d1" "d' = log_return actor action r d1" "read_return admin d' r = Inr x"
  using assms by (auto simp: finish_return_def Let_def res_simps)

lemma finish_return_writes:
  assumes "finish_return actor action admin r d = Inr (x, d')" and "row rt_id (rt_id r) (d_returns d) = Some old" and "return_change old r"
  shows "writes d d'"
  using assms(1)
proof (rule finish_return_Inr)
  fix d1
  assume "flush_return r d = Inr d1" and d': "d' = log_return actor action r d1"
  then have "writes d d1" using db_write.return_row [OF assms(2,3)] by blast
  then show ?thesis unfolding d' by (rule then_bk [OF _ bk_log_return])
qed

text \<open>The operations that only move a return along.\<close>

lemma return_row_id: "row rt_id i (d_returns d) = Some r \<Longrightarrow> rt_id r = i"
  using row_SomeD by fastforce

lemma moved_return_writes:
  assumes "row rt_id i (d_returns d) = Some r" and "finish_return actor action admin new d = Inr (x, d')"
    and "return_change r new"
  shows "writes d d'"
proof (rule finish_return_writes [OF assms(2) _ assms(3)])
  show "row rt_id (rt_id new) (d_returns d) = Some r" using assms(1,3) return_row_id [OF assms(1)] by (simp add: return_change_def)
qed

lemma cancel_return_writes:
  assumes "cancel_return user i now d = Inr (x, d')"
  shows "writes d d'"
proof -
  obtain r where r: "row rt_id i (d_returns d) = Some r" and s: "rt_status r \<in> set OPEN"
    and f: "finish_return user ''cancelled'' False (r\<lparr>rt_status := ''cancelled'', rt_closed_at := Some now\<rparr>) d = Inr (x, d')"
    using assms by (auto simp: cancel_return_def get_return_Inr res_simps split: if_splits)
  show ?thesis by (rule moved_return_writes [OF r f]) (use s in \<open>auto simp: return_change_def asked_for_def return_transitions_def OPEN_def\<close>)
qed

lemma approve_return_writes:
  assumes "approve_return i admin nt now d = Inr (x, d')"
  shows "writes d d'"
proof -
  obtain r where r: "row rt_id i (d_returns d) = Some r" and s: "rt_status r = ''requested''"
    and f: "finish_return admin ''approved'' True
       (r\<lparr>rt_status := ''approved'', rt_decided_at := Some now, rt_admin_note := nt, rt_handled_by_user_id := Some admin\<rparr>) d = Inr (x, d')"
    using assms by (auto simp: approve_return_def get_return_Inr res_simps split: if_splits)
  show ?thesis by (rule moved_return_writes [OF r f]) (use s in \<open>simp add: return_change_def asked_for_def return_transitions_def\<close>)
qed

lemma reject_return_writes:
  assumes "reject_return i admin reason now d = Inr (x, d')"
  shows "writes d d'"
proof -
  obtain r where r: "row rt_id i (d_returns d) = Some r" and s: "rt_status r = ''requested''"
    and f: "finish_return admin ''rejected'' True
       (r\<lparr>rt_status := ''rejected'', rt_decided_at := Some now, rt_rejection_reason := Some reason, rt_handled_by_user_id := Some admin\<rparr>) d
       = Inr (x, d')"
    using assms by (auto simp: reject_return_def get_return_Inr res_simps split: if_splits)
  show ?thesis by (rule moved_return_writes [OF r f]) (use s in \<open>simp add: return_change_def asked_for_def return_transitions_def\<close>)
qed

lemma close_return_writes:
  assumes "close_return i admin resolution nt now d = Inr (x, d')"
  shows "writes d d'"
proof -
  obtain r where r: "row rt_id i (d_returns d) = Some r" and s: "rt_status r \<in> {''approved'', ''received''}"
    and f: "finish_return admin ''closed'' True
       (r\<lparr>rt_status := ''closed'', rt_resolution := Some resolution, rt_resolution_note := Some nt,
            rt_closed_at := Some now, rt_handled_by_user_id := Some admin\<rparr>) d = Inr (x, d')"
    using assms by (auto simp: close_return_def get_return_Inr res_simps split: if_splits)
  show ?thesis by (rule moved_return_writes [OF r f]) (use s in \<open>auto simp: return_change_def asked_for_def return_transitions_def\<close>)
qed

lemma request_refund_returns:
  "request_refund oid admin pid c d = Inr (r, b, d') \<Longrightarrow> d_returns d' = d_returns d"
  by (erule request_refund_cases) (auto simp: refund_booked_def enqueue_def fresh_def Let_def create_refund_Inr)

lemma refund_return_Inr:
  assumes "refund_return i admin now d = Inr (x, d')"
  obtains r ord rf b d1 where "row rt_id i (d_returns d) = Some r" "rt_status r = ''received''"
    "lock_order_for_update (rt_order_id r) d = Inr ord"
    "\<forall>l \<in> set (order_items_of (o_id ord) d). oi_quantity l \<le> came_back (o_id ord) d (oi_id l)"
    "request_refund (o_id ord) admin None False d = Inr (rf, b, d1)"
    "finish_return admin ''refund_requested'' True
       (r\<lparr>rt_status := ''closed'', rt_resolution := Some ''refunded'', rt_refund_id := Some (rf_id rf),
            rt_closed_at := Some now, rt_handled_by_user_id := Some admin\<rparr>) d1 = Inr (x, d')"
proof -
  obtain r where r: "row rt_id i (d_returns d) = Some r" "rt_status r = ''received''"
    using assms by (auto simp: refund_return_def get_return_Inr res_simps split: if_splits)
  obtain ord where l: "lock_order_for_update (rt_order_id r) d = Inr ord"
    "\<not> list_ex (\<lambda>l. came_back (o_id ord) d (oi_id l) < oi_quantity l) (order_items_of (o_id ord) d)"
    using assms r by (auto simp: refund_return_def get_return_def res_simps split: if_splits)
  obtain rf b d1 where q: "request_refund (o_id ord) admin None False d = Inr (rf, b, d1)"
    "finish_return admin ''refund_requested'' True
       (r\<lparr>rt_status := ''closed'', rt_resolution := Some ''refunded'', rt_refund_id := Some (rf_id rf),
            rt_closed_at := Some now, rt_handled_by_user_id := Some admin\<rparr>) d1 = Inr (x, d')"
    using assms r l by (auto simp: refund_return_def get_return_def res_simps)
  show thesis by (rule that [OF r l(1) _ q]) (use l(2) in \<open>auto simp: list_ex_iff\<close>)
qed

lemma refund_return_writes:
  assumes "refund_return i admin now d = Inr (x, d')"
  shows "writes d d'"
  using assms
proof (rule refund_return_Inr)
  fix r ord rf b d1
  assume r: "row rt_id i (d_returns d) = Some r" "rt_status r = ''received''"
    and q: "request_refund (o_id ord) admin None False d = Inr (rf, b, d1)"
    and f: "finish_return admin ''refund_requested'' True
       (r\<lparr>rt_status := ''closed'', rt_resolution := Some ''refunded'', rt_refund_id := Some (rf_id rf),
            rt_closed_at := Some now, rt_handled_by_user_id := Some admin\<rparr>) d1 = Inr (x, d')"
  have "row rt_id i (d_returns d1) = Some r" using r(1) by (simp add: request_refund_returns [OF q])
  then have "writes d1 d'"
    by (rule moved_return_writes [OF _ f]) (use r(2) in \<open>simp add: return_change_def asked_for_def return_transitions_def\<close>)
  then show ?thesis by (rule rtranclp_trans [OF request_refund_writes [OF q]])
qed

section \<open>A new request\<close>

lemma number_items_In:
  "x \<in> set (number_items n ls) \<Longrightarrow> \<exists>l \<in> set ls. ri_order_item_id x = rl_order_item_id l \<and> ri_quantity x = rl_quantity l"
  by (induction ls arbitrary: n) auto

lemma number_items_untouched: "untouched (r\<lparr>rt_items := number_items n ls\<rparr>)"
proof -
  have "\<forall>x \<in> set (number_items n ls). ri_received_quantity x = None \<and> ri_restocked_quantity x = 0"
    by (induction ls arbitrary: n) auto
  then show ?thesis by (simp add: untouched_def)
qed

lemma rmap_unit: "rmap f xs = Inr ys \<Longrightarrow> x \<in> set xs \<Longrightarrow> \<exists>y. f x = Inr y"
  by (induction xs arbitrary: ys) (auto simp: res_simps)

lemma check_line_Inr:
  assumes "check_line (eligibility_items ord d) l = Inr ()" and "0 < rl_quantity l"
  shows "\<exists>i \<in> set (order_items_of (o_id ord) d). oi_id i = rl_order_item_id l \<and> used (o_id ord) d (oi_id i) + rl_quantity l \<le> oi_quantity i"
proof -
  obtain e where e: "row ei_order_item_id (rl_order_item_id l) (eligibility_items ord d) = Some e" and q: "rl_quantity l \<le> ei_returnable e"
    using assms(1) by (auto simp: check_line_def split: option.splits)
  then obtain i where "i \<in> set (order_items_of (o_id ord) d)" "oi_id i = rl_order_item_id l"
    "ei_returnable e = max (oi_quantity i - used (o_id ord) d (oi_id i)) 0"
    using row_SomeD [OF e] by (auto simp: eligibility_items_def)
  with q assms(2) show ?thesis by (intro bexI [of _ i]) auto
qed

definition new_return :: "int \<Rightarrow> int \<Rightarrow> int \<Rightarrow> return_create \<Rightarrow> int \<Rightarrow> return_request" where
  "new_return i oid user payload now =
     \<lparr>rt_id = i, rt_order_id = oid, rt_user_id = user, rt_status = ''requested'',
      rt_customer_comment = rq_comment payload, rt_admin_note = None, rt_rejection_reason = None,
      rt_resolution = None, rt_resolution_note = None, rt_refund_id = None, rt_requested_at = now,
      rt_decided_at = None, rt_received_at = None, rt_closed_at = None, rt_handled_by_user_id = None,
      rt_items = number_items (i + 1) (rq_items payload)\<rparr>"

lemma create_return_Inr:
  assumes "create_return window user oid payload now d = Inr (x, d')"
  obtains ord ret where "lock_order_for_update oid d = Inr ord" "o_user_id ord = Some user" "el_eligible (eligibility window ord now d)"
    "\<forall>l \<in> set (rq_items payload). check_line (eligibility_items ord d) l = Inr ()"
    "ret = new_return (d_next d) (o_id ord) user payload now" "return_checks ret"
    "d' = log_return user ''requested'' ret (d\<lparr>d_next := d_next d + 1 + int (length (rq_items payload)), d_returns := d_returns d @ [ret]\<rparr>)"
    "read_return False d' ret = Inr x"
proof -
  obtain ord where l: "lock_order_for_update oid d = Inr ord" "o_user_id ord = Some user" "el_eligible (eligibility window ord now d)"
    using assms by (auto simp: create_return_def Let_def res_simps split: if_splits)
  have el: "el_items (eligibility window ord now d) = eligibility_items ord d"
    by (simp add: eligibility_def Let_def split: prod.split)
  let ?ret = "new_return (d_next d) (o_id ord) user payload now"
  obtain us where us: "rmap (check_line (eligibility_items ord d)) (rq_items payload) = Inr us" and c: "return_checks ?ret"
    and d': "d' = log_return user ''requested'' ?ret (d\<lparr>d_next := d_next d + 1 + int (length (rq_items payload)), d_returns := d_returns d @ [?ret]\<rparr>)"
    and x: "read_return False d' ?ret = Inr x"
    using assms l by (auto simp: create_return_def Let_def res_simps insert_return_def el new_return_def split: if_splits)
  have "\<forall>l \<in> set (rq_items payload). check_line (eligibility_items ord d) l = Inr ()" using rmap_unit [OF us] by simp
  with that l c d' x show thesis by blast
qed

lemma create_return_writes:
  assumes "create_return window user oid payload now d = Inr (x, d')"
  shows "writes d d'"
  using assms
proof (rule create_return_Inr)
  fix ord ret
  assume l: "lock_order_for_update oid d = Inr ord" and ok: "\<forall>l \<in> set (rq_items payload). check_line (eligibility_items ord d) l = Inr ()"
    and ret: "ret = new_return (d_next d) (o_id ord) user payload now" and c: "return_checks ret"
    and d': "d' = log_return user ''requested'' ret (d\<lparr>d_next := d_next d + 1 + int (length (rq_items payload)), d_returns := d_returns d @ [ret]\<rparr>)"
  have "claims_bought ret d"
    unfolding claims_bought_def
  proof
    fix y
    assume y: "y \<in> set (rt_items ret)"
    then obtain a where a: "a \<in> set (rq_items payload)" "ri_order_item_id y = rl_order_item_id a" "ri_quantity y = rl_quantity a"
      using number_items_In by (fastforce simp: ret new_return_def)
    have "0 < ri_quantity y" using c y by (simp add: return_checks_def return_item_checks_def list_all_iff)
    with check_line_Inr [of ord d a] ok a
    show "\<exists>l \<in> set (order_items_of (rt_order_id ret) d). oi_id l = ri_order_item_id y \<and> used (rt_order_id ret) d (oi_id l) + ri_quantity y \<le> oi_quantity l"
      by (simp add: ret new_return_def)
  qed
  then have "db_write d (d\<lparr>d_next := d_next d + 1 + int (length (rq_items payload)), d_returns := d_returns d @ [ret]\<rparr>)"
    by (intro db_write.new_return [OF c _ _ _ _ refl]) (use number_items_untouched in \<open>simp_all add: ret new_return_def untouched_def\<close>)
  then show ?thesis unfolding d' by (intro then_bk [OF r_into_rtranclp bk_log_return])
qed

section \<open>Goods received\<close>

lemma received_kept: "asked_for (r\<lparr>rt_items := map (mark_restocked recorded) (map (received_item payload) (rt_items r))\<rparr>) = asked_for r"
  by (simp add: asked_for_def mark_restocked_def received_item_def split: option.split)

lemma received_lines [simp]: "ri_order_item_id (received_item payload i) = ri_order_item_id i"
  by (simp add: received_item_def split: option.split)

lemma receive_return_Inr:
  assumes "receive_return i admin payload now d = Inr (x, d')"
  obtains r ord ret1 d1 where "row rt_id i (d_returns d) = Some r" "rt_status r = ''approved''"
    "distinct (map rv_order_item_id payload)" "set (map rv_order_item_id payload) = set (map ri_order_item_id (rt_items r))"
    "\<forall>e \<in> set payload. check_receipt (rt_items r) e = Inr ()" "lock_order_for_update (rt_order_id r) d = Inr ord"
    "restock_return ord (r\<lparr>rt_items := map (received_item payload) (rt_items r)\<rparr>) admin d = Inr (ret1, d1)"
    "finish_return admin ''received'' True (ret1\<lparr>rt_status := ''received'', rt_received_at := Some now, rt_handled_by_user_id := Some admin\<rparr>) d1
       = Inr (x, d')"
proof -
  obtain r where r: "row rt_id i (d_returns d) = Some r" "rt_status r = ''approved''"
    and p: "distinct (map rv_order_item_id payload)" "set (map rv_order_item_id payload) = set (map ri_order_item_id (rt_items r))"
    using assms by (auto simp: receive_return_def get_return_Inr res_simps split: if_splits)
  obtain us ord ret1 d1 where us: "rmap (check_receipt (rt_items r)) payload = Inr us"
    and l: "lock_order_for_update (rt_order_id r) d = Inr ord"
      "restock_return ord (r\<lparr>rt_items := map (received_item payload) (rt_items r)\<rparr>) admin d = Inr (ret1, d1)"
      "finish_return admin ''received'' True (ret1\<lparr>rt_status := ''received'', rt_received_at := Some now, rt_handled_by_user_id := Some admin\<rparr>) d1
         = Inr (x, d')"
    using assms r p by (auto simp: receive_return_def get_return_def res_simps)
  have "\<forall>e \<in> set payload. check_receipt (rt_items r) e = Inr ()" using rmap_unit [OF us] by simp
  with that r p l show thesis by blast
qed

lemma receive_return_writes:
  assumes "receive_return i admin payload now d = Inr (x, d')" and "shop_ok d"
  shows "writes d d'"
  using assms(1)
proof (rule receive_return_Inr)
  fix r ord ret1 d1
  assume r: "row rt_id i (d_returns d) = Some r" "rt_status r = ''approved''"
    and rs: "restock_return ord (r\<lparr>rt_items := map (received_item payload) (rt_items r)\<rparr>) admin d = Inr (ret1, d1)"
    and f: "finish_return admin ''received'' True (ret1\<lparr>rt_status := ''received'', rt_received_at := Some now, rt_handled_by_user_id := Some admin\<rparr>) d1
       = Inr (x, d')"
  note ok = shop_okD [OF assms(2)]
  have "return_checks r" using ok(10) row_SomeD [OF r(1)] by (simp add: returns_ok_def)
  then have dist: "distinct (map ri_order_item_id (rt_items (r\<lparr>rt_items := map (received_item payload) (rt_items r)\<rparr>)))"
    by (simp add: return_checks_def comp_def)
  from write_restocked_ok(4) [OF rs dist assms(2)] have same: "d_returns d1 = d_returns d" by (rule stock_writeE) simp
  obtain recorded where ret1: "ret1 = r\<lparr>rt_items := map (mark_restocked recorded) (map (received_item payload) (rt_items r))\<rparr>"
    using restock_return_effect [OF rs dist ok(5,4,1,2)] by auto
  have "writes d1 d'"
  proof (rule finish_return_writes [OF f])
    show "row rt_id (rt_id (ret1\<lparr>rt_status := ''received'', rt_received_at := Some now, rt_handled_by_user_id := Some admin\<rparr>)) (d_returns d1) = Some r"
      using r(1) return_row_id [OF r(1)] by (simp add: same ret1)
    show "return_change r (ret1\<lparr>rt_status := ''received'', rt_received_at := Some now, rt_handled_by_user_id := Some admin\<rparr>)"
      using received_kept [where r = r and recorded = recorded and payload = payload] r(2) by (simp add: return_change_def ret1 return_transitions_def asked_for_def OPEN_def)
  qed
  with db_write.restocked [OF rs dist] show ?thesis by (rule write_then)
qed

lemma run_return_writes:
  assumes "run_return window call now d = Inr (x, d')" and "shop_ok d"
  shows "writes d d'"
  using assms
  by (cases call)
    (auto simp: res_simps intro: create_return_writes cancel_return_writes approve_return_writes reject_return_writes
      receive_return_writes refund_return_writes close_return_writes)

end
