(* ===== verification/Shop_Machine.thy ===== *)
theory Shop_Machine
  imports Return_Writes
begin

text \<open>
  The shop as a state machine: one step is one request or one job, with whatever other requests
  commit between the transactions of an operation that calls the payment provider. Every step is a
  sequence of guarded writes, so the invariants of \<open>Writes\<close> hold in every reachable state, and further
  ones are interpretations of \<open>write_invariant\<close>.
\<close>

section \<open>Steps\<close>

fun outcome_db :: "outcome \<Rightarrow> db" where
  "outcome_db (Placed _ d) = d"
| "outcome_db (PricesChanged _ _ d) = d"

inductive shop_step :: "db \<Rightarrow> db \<Rightarrow> bool" where
  carts: "cart_step d d' \<Longrightarrow> shop_step d d'"
| checks_out: "checkout sha cfg rq now d = Inr out \<Longrightarrow> shop_step d (outcome_db out)"
| documents: "run_document r d = Inr d' \<Longrightarrow> shop_step d d'"
| pays: "\<forall>x. shop_step\<^sup>*\<^sup>* x (m1 x) \<Longrightarrow> \<forall>x. shop_step\<^sup>*\<^sup>* x (m2 x)
    \<Longrightarrow> shop_step d (snd (create_payment_for_order sha env m1 m2 oid who now d))"
| webhook: "shop_step d (snd (handle_webhook env message ev ck d))"
| recovers: "shop_step d (reprocess_deferred_events env message ck d)"
| sweeps: "shop_step d (sweep_stale_orders env now d)"
| expires: "\<forall>x. shop_step\<^sup>*\<^sup>* x (m x) \<Longrightarrow> shop_step d (snd (expire_order env m oid ck d))"
| cancels: "\<forall>x. shop_step\<^sup>*\<^sup>* x (m x) \<Longrightarrow> cancel_order rv m oid actor reason ck d = Inr (out, ord, d') \<Longrightarrow> shop_step d d'"
| changes_status: "admin_change_status oid status admin ck d = Inr (ord, d') \<Longrightarrow> shop_step d d'"
| requests_refund: "request_refund oid admin pid c d = Inr (r, b, d') \<Longrightarrow> shop_step d d'"
| refunds: "\<forall>x. shop_step\<^sup>*\<^sup>* x (m x) \<Longrightarrow> shop_step d (snd (execute_refund env redact m err rid ck d))"
| resolves: "resolve_reconciliation rid admin res nt ck d = Inr (rc, d') \<Longrightarrow> shop_step d d'"
| resolves_refund: "refund_from_reconciliation rid admin ck d = Inr (rc, r, d') \<Longrightarrow> shop_step d d'"
| ships: "create_shipment oid payload admin ck d = Inr (s, d') \<Longrightarrow> shop_step d d'"
| edits_shipment: "update_shipment oid sid change admin now d = Inr (s, d') \<Longrightarrow> shop_step d d'"
| removes_shipment: "delete_shipment oid sid admin d = Inr d' \<Longrightarrow> shop_step d d'"
| returns: "run_return window call now d = Inr (x, d') \<Longrightarrow> shop_step d d'"

abbreviation shop_run :: "db \<Rightarrow> db \<Rightarrow> bool" where
  "shop_run \<equiv> shop_step\<^sup>*\<^sup>*"

lemma bk_cart:
  assumes "shop_frame d d'" and "cart_ok d'"
  shows "bookkeeping d d'"
proof -
  obtain n cs xs where d': "d' = d\<lparr>d_next := n, d_carts := cs, d_cart_items := xs\<rparr>" and n: "d_next d \<le> n"
    using assms(1) unfolding shop_frame_def by blast
  have "dedupe_ok d'" if "dedupe_ok d" by (rule dedupe_ok_next [OF that]) (simp_all add: d' n)
  moreover have "shipments_ok d'" if "shipments_ok d" by (rule shipments_ok_next [OF that]) (simp_all add: d' n)
  ultimately show ?thesis using assms(2) unfolding bookkeeping_def by (simp add: d' n settled_def)
qed

lemma bk_price_change:
  assumes "checkout sha cfg rq now d = Inr (PricesChanged ch sub d')" and "cart_ok d"
  shows "bookkeeping d d'"
  using assms
proof (rule price_change_state)
  fix c :: cart and n cs x lk
  assume d': "d' = d\<lparr>d_next := n, d_carts := cs, d_store_currency := x,
       d_cart_items := map (\<lambda>j. if ci_cart_id j = ct_id c then repriced (\<lambda>i. ln_price_cents_snapshot (line_at lk i)) j else j) (d_cart_items d)\<rparr>"
    and ok: "cart_ok d'" and n: "d_next d \<le> n"
  have "dedupe_ok d'" if "dedupe_ok d" by (rule dedupe_ok_next [OF that]) (simp_all add: d' n)
  moreover have "shipments_ok d'" if "shipments_ok d" by (rule shipments_ok_next [OF that]) (simp_all add: d' n)
  ultimately show ?thesis using ok unfolding bookkeeping_def by (simp add: d' n settled_def)
qed

lemma bk_replay:
  assumes "checkout sha cfg rq now d = Inr out" and "existing_order rq d = Some old" and "cart_ok d"
  shows "bookkeeping d (outcome_db out)"
proof -
  have "replay sha rq old d = Inr out" using assms(1,2) by (simp add: checkout_def split: if_splits)
  then consider "out = Placed old d"
    | c d1 where "get_or_create_cart (cr_user_id rq) (cr_guest_token rq) d = Inr (c, d1)" "out = Placed old d1"
    by (auto simp: replay_def res_simps Let_def split: if_splits option.splits)
  then show ?thesis
  proof cases
    case (2 c d1)
    with get_or_create_cart_ok [OF 2(1) assms(3)] repo_frames(1) [OF 2(1)] bk_cart show ?thesis by simp
  qed simp
qed

lemma checkout_writes:
  assumes "checkout sha cfg rq now d = Inr out" and "shop_ok d"
  shows "writes d (outcome_db out)"
proof (cases "existing_order rq d")
  case None
  show ?thesis
  proof (cases out)
    case (Placed ord d')
    with db_write.placed [OF assms(1) [unfolded Placed] None] show ?thesis by auto
  next
    case (PricesChanged ch sub d')
    with bk_price_change [OF assms(1) [unfolded PricesChanged] shop_okD(3) [OF assms(2)]] show ?thesis by (auto intro: bk_writes)
  qed
next
  case (Some old)
  from bk_replay [OF assms(1) this shop_okD(3) [OF assms(2)]] show ?thesis by (rule bk_writes)
qed

lemma run_document_writes:
  assumes "run_document r d = Inr d'"
  shows "writes d d'"
proof (cases r)
  case (WriteProfile p admin)
  then obtain bp where d': "d' = audit_log (Some admin) ''business_profile.updated'' ''business_profile'' [KI 1] (d\<lparr>d_business_profile := bp\<rparr>)"
    using assms by (auto simp: run_document_def write_business_profile_def split: if_splits)
  have "bookkeeping d (d\<lparr>d_business_profile := bp\<rparr>)" by (rule bk_frame) (simp_all add: dedupe_ok_def settled_def)
  then show ?thesis unfolding d' by (rule bk_writes [OF bk_trans [OF _ bk_audit]])
next
  case (IssueInvoice today explicit oid)
  then have "bookkeeping d d'"
    using assms by (auto simp: run_document_def res_simps split: option.splits intro: bk_issue_invoice)
  then show ?thesis by (rule bk_writes)
next
  case (IssueCreditNote today oid)
  then have "bookkeeping d d'"
    using assms by (auto simp: run_document_def res_simps split: option.splits intro: bk_issue_credit_note)
  then show ?thesis by (rule bk_writes)
qed

text \<open>What runs between two transactions keeps the invariant when each of its steps does.\<close>

lemma interference:
  assumes "(\<lambda>a b. shop_step a b \<and> (shop_ok a \<longrightarrow> writes a b))\<^sup>*\<^sup>* x y" and "shop_ok x"
  shows "writes x y"
  using assms(1)
proof (induction rule: rtranclp_induct)
  case (step y z)
  then have "shop_ok y" using writes_shop_ok assms(2) by blast
  with step show ?case by (meson rtranclp_trans)
qed simp

lemma interference_others: "\<forall>x. (\<lambda>a b. shop_step a b \<and> (shop_ok a \<longrightarrow> writes a b))\<^sup>*\<^sup>* x (m x) \<Longrightarrow> others m"
  using interference unfolding others_def by blast

lemma shop_step_writes: "shop_step d d' \<Longrightarrow> shop_ok d \<longrightarrow> writes d d'"
proof (induction rule: shop_step.induct)
  case (carts d d')
  then show ?case using cart_step_ok bk_cart bk_writes shop_okD(3) by blast
next
  case (checks_out sha cfg rq now d out)
  then show ?case using checkout_writes by blast
next
  case (documents r d d')
  then show ?case using run_document_writes by blast
next
  case (pays m1 m2 d sha env oid who now)
  then show ?case using create_payment_for_order_writes interference_others by blast
next
  case (webhook d env message ev ck)
  show ?case using handle_webhook_writes [OF prod.collapse [symmetric]] by blast
next
  case (recovers d env message ck)
  show ?case using reprocess_deferred_events_writes by blast
next
  case (sweeps d env now)
  show ?case using sweep_stale_orders_writes by blast
next
  case (expires m d env oid ck)
  then show ?case using expire_order_writes interference_others by blast
next
  case (cancels m rv oid actor reason ck d out ord d')
  then show ?case using cancel_order_writes interference_others by blast
next
  case (changes_status oid status admin ck d ord d')
  then show ?case using fulfil_order_writes by (auto simp: admin_change_status_def split: if_splits)
next
  case (requests_refund oid admin pid c d r b d')
  then show ?case using request_refund_writes by blast
next
  case (refunds m d env redact err rid ck)
  then show ?case using execute_refund_writes interference_others by blast
next
  case (resolves rid admin res nt ck d rc d')
  then show ?case using resolve_reconciliation_writes by blast
next
  case (resolves_refund rid admin ck d rc r d')
  then show ?case using refund_from_reconciliation_writes by blast
next
  case (ships oid payload admin ck d s d')
  then show ?case using create_shipment_writes by blast
next
  case (edits_shipment oid sid change admin now d s d')
  then show ?case using update_shipment_writes by blast
next
  case (removes_shipment oid sid admin d d')
  then show ?case using delete_shipment_writes by blast
next
  case (returns window call now d x d')
  then show ?case using run_return_writes by blast
qed

lemma shop_run_writes: "shop_run d d' \<Longrightarrow> shop_ok d \<Longrightarrow> writes d d'"
proof (induction rule: rtranclp_induct)
  case (step y z)
  then have "shop_ok y" using writes_shop_ok by blast
  with step shop_step_writes show ?case by (meson rtranclp_trans)
qed simp

end
