(* ===== verification/Order_Guarantees.thy ===== *)
theory Order_Guarantees
  imports Shop_Machine
begin

text \<open>
  What holds in every state the shop can reach: no unit of stock appears or disappears, an order's
  row follows the abstract order machine, refunds and disputes are final and never exceed what was
  paid, and a webhook event is applied once.
\<close>

section \<open>The order machine\<close>

text \<open>An order as its customer sees it: its status, and whether its goods went back to the shelf.\<close>

definition order_abs :: "order \<Rightarrow> order_status \<times> bool" where
  "order_abs ord = (o_status ord, o_stock_released_at ord \<noteq> None)"

inductive order_step :: "order_status \<times> bool \<Rightarrow> order_status \<times> bool \<Rightarrow> bool" where
  pay: "order_step (PENDING, False) (PAID, False)"
| cancel: "order_step (PENDING, False) (CANCELLED, True)"
| fulfil: "order_step (PAID, False) (FULFILLED, False)"
| refund: "order_step (PAID, False) (REFUNDED, False)"
| refund_fulfilled: "order_step (FULFILLED, False) (REFUNDED, False)"
| put_back: "order_step (REFUNDED, False) (REFUNDED, True)"

inductive_simps order_step_from: "order_step (s, r) t"

lemma order_change_trans: "order_change a b \<Longrightarrow> order_change b c \<Longrightarrow> order_change a c"
  unfolding order_change_def by (cases a; cases b; cases c) simp

lemmas order_steps = order_step.intros [THEN r_into_rtranclp [of order_step]]

lemma refunded_and_put_back:
  "order_step\<^sup>*\<^sup>* (PAID, False) (REFUNDED, True)" "order_step\<^sup>*\<^sup>* (FULFILLED, False) (REFUNDED, True)"
  by (rule rtranclp_trans [OF order_steps(4) order_steps(6)] rtranclp_trans [OF order_steps(5) order_steps(6)])+

lemma order_write_refines:
  assumes "order_ok old d" and "orders_lifecycle_guard old new d = Inr ()"
    and "o_stock_released_at new = o_stock_released_at old \<or> fully_back (o_id new) d \<and> o_status new \<in> {CANCELLED, REFUNDED}"
  shows "order_step\<^sup>*\<^sup>* (order_abs old) (order_abs new)"
  using assms(1,3) guard_allowed(1,2,5) [OF assms(2)] unfolding order_ok_def order_abs_def
  by (cases "o_status old"; cases "o_stock_released_at new"; cases "o_stock_released_at old")
    (auto simp: ALLOWED_TRANSITIONS_def order_steps refunded_and_put_back)

lemma order_rows_kept:
  assumes "db_write d d'" and "shop_ok d" and "row o_id i (d_orders d) = Some ord"
  shows "\<exists>new. row o_id i (d_orders d') = Some new \<and> order_change ord new \<and> order_step\<^sup>*\<^sup>* (order_abs ord) (order_abs new)"
  using assms(1,2)
proof (cases rule: db_write_forms)
  case (order new old)
  show ?thesis
  proof (cases "o_id new = i")
    case True
    then have "old = ord" using order(1) assms(3) by simp
    moreover have "order_ok old d" using shop_okD(6) [OF assms(2)] row_SomeD [OF order(1)] by (simp add: lifecycle_ok_def)
    ultimately show ?thesis using order_write_refines [OF _ order(3,5)] order True by (auto simp: row_set_row)
  next
    case False
    with order(4) assms(3) show ?thesis by (auto simp: row_set_row)
  qed
next
  case (placed new)
  then show ?thesis using assms(3) by (simp add: row_append)
qed (use assms(3) in \<open>simp_all add: bookkeeping_def\<close>)

interpretation order_refines: write_invariant
  "\<lambda>d. \<exists>new. row o_id i (d_orders d) = Some new \<and> order_change ord new \<and> order_step\<^sup>*\<^sup>* (order_abs ord) (order_abs new)" for i ord
  by unfold_locales (blast dest: order_rows_kept intro: order_change_trans rtranclp_trans)

section \<open>Refunds and disputes\<close>

definition refund_kept :: "refund \<Rightarrow> refund \<Rightarrow> bool" where
  "refund_kept old new \<longleftrightarrow> rf_payment_id new = rf_payment_id old \<and> rf_order_id new = rf_order_id old
     \<and> rf_amount_cents new = rf_amount_cents old \<and> rf_currency new = rf_currency old
     \<and> (rf_status old \<in> {RefSucceeded, RefFailed} \<longrightarrow> rf_status new = rf_status old)"

definition dispute_kept :: "dispute \<Rightarrow> dispute \<Rightarrow> bool" where
  "dispute_kept old new \<longleftrightarrow> dp_payment_id new = dp_payment_id old \<and> dp_amount_cents new = dp_amount_cents old
     \<and> dp_currency new = dp_currency old \<and> (terminal_dispute (dp_status old) \<longrightarrow> dp_status new = dp_status old)"

lemma kept_refl [simp]: "refund_kept r r" "dispute_kept x x"
  by (simp_all add: refund_kept_def dispute_kept_def)

lemma kept_trans: "refund_kept a b \<Longrightarrow> refund_kept b c \<Longrightarrow> refund_kept a c"
  "dispute_kept x y \<Longrightarrow> dispute_kept y z \<Longrightarrow> dispute_kept x z"
  by (auto simp: refund_kept_def dispute_kept_def)

lemma refund_rows_kept:
  assumes "db_write d d'" and "shop_ok d" and "row rf_id i (d_refunds d) = Some r"
  shows "\<exists>new. row rf_id i (d_refunds d') = Some new \<and> refund_kept r new"
  using assms(1,2)
proof (cases rule: db_write_forms)
  case (refund new old)
  then show ?thesis
    using assms(3) by (cases "rf_id new = i") (auto simp: row_set_row refunds_guard_def res_simps refund_kept_def)
next
  case (new_refund new)
  then show ?thesis using assms(3) by (simp add: row_append)
qed (use assms(3) in \<open>simp_all add: bookkeeping_def\<close>)

lemma dispute_rows_kept:
  assumes "db_write d d'" and "shop_ok d" and "row dp_id i (d_disputes d) = Some x"
  shows "\<exists>new. row dp_id i (d_disputes d') = Some new \<and> dispute_kept x new"
  using assms(1,2)
proof (cases rule: db_write_forms)
  case (dispute new old)
  then show ?thesis
    using assms(3) by (cases "dp_id new = i") (auto simp: row_set_row disputes_guard_def res_simps dispute_kept_def)
next
  case (new_dispute new)
  then show ?thesis using assms(3) by (simp add: row_append)
qed (use assms(3) in \<open>simp_all add: bookkeeping_def\<close>)

interpretation refund_final: write_invariant "\<lambda>d. \<exists>new. row rf_id i (d_refunds d) = Some new \<and> refund_kept r new" for i r
  by unfold_locales (blast dest: refund_rows_kept intro: kept_trans)

interpretation dispute_final: write_invariant "\<lambda>d. \<exists>new. row dp_id i (d_disputes d) = Some new \<and> dispute_kept x new" for i x
  by unfold_locales (blast dest: dispute_rows_kept intro: kept_trans)

section \<open>Column types of the money tables\<close>

definition money_typed :: "db \<Rightarrow> bool" where
  "money_typed d \<longleftrightarrow>
     (\<forall>p \<in> set (d_payments d). 0 < pm_amount_cents p \<and> int32 (pm_amount_cents p) \<and> currency_format (pm_currency p))
     \<and> (\<forall>r \<in> set (d_refunds d). 0 < rf_amount_cents r \<and> int32 (rf_amount_cents r) \<and> currency_format (rf_currency r)
          \<and> rf_origin r \<in> {''requested'', ''provider''})
     \<and> (\<forall>x \<in> set (d_disputes d). dp_status x \<in> set DISPUTE_STATUSES \<and> currency_format (dp_currency x))"

lemma money_typed_kept:
  assumes "db_write d d'" and "shop_ok d" and "money_typed d"
  shows "money_typed d'"
  using assms(1,2)
proof (cases rule: db_write_forms)
  case (payment new old)
  then show ?thesis using assms(3) by (auto simp: money_typed_def payment_checks_def dest!: set_set_rowD)
next
  case (new_payment pm)
  then show ?thesis using assms(3) by (auto simp: money_typed_def payment_checks_def)
next
  case (refund r old)
  then show ?thesis using assms(3) by (auto simp: money_typed_def refund_checks_def dest!: set_set_rowD)
next
  case (new_refund r)
  then show ?thesis using assms(3) by (auto simp: money_typed_def refund_checks_def)
next
  case (dispute x old)
  then show ?thesis using assms(3) by (auto simp: money_typed_def dispute_checks_def dest!: set_set_rowD)
next
  case (new_dispute x)
  then show ?thesis using assms(3) by (auto simp: money_typed_def dispute_checks_def)
qed (use assms(3) in \<open>simp_all add: money_typed_def bookkeeping_def\<close>)

interpretation typed: write_invariant money_typed
  by unfold_locales (rule money_typed_kept)

section \<open>Webhook events\<close>

lemma settled_kept:
  assumes "db_write d d'" and "shop_ok d" and "settled k d"
  shows "settled k d'"
  using assms(1,2)
proof (cases rule: db_write_forms)
  case other
  with assms(3) show ?thesis unfolding bookkeeping_def by blast
qed (use assms(3) in \<open>simp_all add: settled_def\<close>)

lemma deferred_kept:
  assumes "db_write d d'" and "shop_ok d" and "k \<in> de_key ` set (d_deferred_events d)"
  shows "k \<in> de_key ` set (d_deferred_events d')"
  using assms(1,2) by (cases rule: db_write_forms) (use assms(3) in \<open>auto simp: bookkeeping_def\<close>)

interpretation events_settled: write_invariant "settled k" for k
  by unfold_locales (rule settled_kept)

interpretation events_deferred: write_invariant "\<lambda>d. k \<in> de_key ` set (d_deferred_events d)" for k
  by unfold_locales (rule deferred_kept)

section \<open>Properties\<close>

lemma run_keeps:
  assumes "shop_run d d'" and "shop_ok d"
  shows "writes d d'" and "shop_ok d'"
  using shop_run_writes [OF assms] writes_shop_ok assms(2) by blast+

lemma reserved_nonneg:
  assumes "restocks_ok d"
  shows "0 \<le> reserved d u"
  unfolding reserved_def using assms by (intro sum_list_nonneg) (auto simp: restocks_ok_def outstanding_def)

lemma unit_stock_nonneg: "stock_ok d \<Longrightarrow> known_unit d u \<Longrightarrow> 0 \<le> unit_stock d u"
  by (cases u)
    (auto simp: stock_ok_def known_unit_def unit_stock_def p_stock_of_def v_stock_of_def get_product_def get_variant_def
      list_all_iff product_checks_def variant_checks_def split: option.splits dest!: row_SomeD)



text \<open>
  Claim C8 (safety). In every reachable state a cancelled order has released its stock, an order that
  has released its stock is cancelled or refunded and each of its lines has gone back in full (no
  line twice, none partly), and a refunded order has a refund the provider confirmed.
\<close>

theorem ended_orders_sound:
  assumes "shop_run d d'" and "shop_ok d" and "ord \<in> set (d_orders d')"
  shows "(o_status ord = CANCELLED \<longrightarrow> o_stock_released_at ord \<noteq> None)
    \<and> (o_stock_released_at ord \<noteq> None \<longrightarrow> o_status ord \<in> {CANCELLED, REFUNDED}
         \<and> list_all (\<lambda>i. oi_restocked_quantity i = oi_quantity i) (order_items_of (o_id ord) d'))
    \<and> (o_status ord = REFUNDED \<longrightarrow> (\<exists>r \<in> set (d_refunds d'). rf_order_id r = o_id ord \<and> rf_status r = RefSucceeded))"
proof -
  have "order_ok ord d'" using run_keeps(2) [OF assms(1,2)] assms(3) by (simp add: shop_ok_def lifecycle_ok_def)
  then show ?thesis by (auto simp: order_ok_def fully_back_def outstanding_def order_items_of_def list_all_iff)
qed


text \<open>
  Claim C10 (safety). What a refund or a dispute is about never changes, and its outcome is final: a
  refund that succeeded or failed, and a dispute that was won, lost or closed, has that state in
  every later state of the shop, whatever events arrive late or twice.
\<close>

theorem refunds_and_disputes_final:
  assumes "shop_run d d'" and "shop_ok d"
  shows "(\<forall>i r. row rf_id i (d_refunds d) = Some r \<longrightarrow> (\<exists>new. row rf_id i (d_refunds d') = Some new \<and> refund_kept r new))
    \<and> (\<forall>i x. row dp_id i (d_disputes d) = Some x \<longrightarrow> (\<exists>new. row dp_id i (d_disputes d') = Some new \<and> dispute_kept x new))"
proof (intro conjI allI impI)
  fix i r assume "row rf_id i (d_refunds d) = Some r"
  then show "\<exists>new. row rf_id i (d_refunds d') = Some new \<and> refund_kept r new"
    using refund_final.writes_keep [OF run_keeps(1) [OF assms] assms(2), of i r] by simp
next
  fix i x assume "row dp_id i (d_disputes d) = Some x"
  then show "\<exists>new. row dp_id i (d_disputes d') = Some new \<and> dispute_kept x new"
    using dispute_final.writes_keep [OF run_keeps(1) [OF assms] assms(2), of i x] by simp
qed

section \<open>Witnesses\<close>

text \<open>A shop with one unpaid order of two shirts and its pending payment; a provider that agrees to everything.\<close>

definition sample_provider :: provider where
  "sample_provider = \<lparr>pv_name = ''stripe'', pv_supports_cancel = True, pv_cancel = (\<lambda>_ _. Some ''canceled''),
     pv_retrieve = (\<lambda>_. Some (''processing'', ''s'')), pv_create = (\<lambda>_ _ _. Some (''pi_2'', ''s'')),
     pv_refund = (\<lambda>_ a c _. Some (''re_1'', a, ''succeeded'', Some c))\<rparr>"

definition sample_payment :: "payment_status \<Rightarrow> payment" where
  "sample_payment st = \<lparr>pm_id = 60, pm_order_id = 9, pm_provider = ''stripe'', pm_provider_config_id = None,
     pm_provider_reference = None, pm_provider_payment_id = ''pi_1'', pm_status = st, pm_amount_cents = 1000,
     pm_currency = ''inr'', pm_provider_refund_id = None, pm_refunded_amount_cents = None\<rparr>"

definition sample_refund :: refund where
  "sample_refund = \<lparr>rf_id = 61, rf_payment_id = 60, rf_order_id = 9, rf_amount_cents = 1000, rf_currency = ''inr'',
     rf_status = RefFailed, rf_provider_refund_id = Some ''re_0'', rf_idempotency_key = [KI 0], rf_requested_by_user_id = Some 3,
     rf_attempts = 1, rf_cancels_order = True, rf_origin = ''requested'', rf_failure_reason = None\<rparr>"

definition sample_dispute :: dispute where
  "sample_dispute = \<lparr>dp_id = 62, dp_provider = ''stripe'', dp_provider_dispute_id = ''dp_1'', dp_payment_id = 60, dp_order_id = 9,
     dp_amount_cents = 1000, dp_currency = ''inr'', dp_status = ''won'', dp_provider_status = None, dp_reason = None, dp_closed_at = Some 0\<rparr>"

definition sample_life :: db where
  "sample_life = sample_shop\<lparr>
     d_products := [sample_product 1 500 8 0, sample_product 2 600 0 1],
     d_stock_movements := d_stock_movements sample_shop @ [(opening_row 1 None (- 2))\<lparr>sm_before_qty := 10, sm_after_qty := 8\<rparr>],
     d_orders := [sample_paid_order PENDING None], d_order_items := [sample_sold_item],
     d_payments := [sample_payment PayPending], d_refunds := [sample_refund], d_disputes := [sample_dispute]\<rparr>"

lemma sample_life_ok: "shop_ok sample_life" "money_typed sample_life" "known_unit sample_life (UnitP 1)"
  by code_simp+

definition sample_clock :: clock where
  "sample_clock = \<lparr>ck_now = 5, ck_today = (2026, 5, 1)\<rparr>"

abbreviation sample_cancel :: "(shop_error, string \<times> order \<times> db) result" where
  "sample_cancel \<equiv> cancel_order (\<lambda>_. None, sample_provider) (\<lambda>d. d) 9 (Some 7) ''changed my mind'' sample_clock sample_life"

lemma sample_cancelled:
  obtains ord d' where "shop_run sample_life d'" "row o_id 9 (d_orders d') = Some ord" "order_abs ord = (CANCELLED, True)"
    "unit_stock d' (UnitP 1) = 10"
proof -
  have "case sample_cancel of Inl _ \<Rightarrow> False
    | Inr (_, _, d') \<Rightarrow> (case row o_id 9 (d_orders d') of None \<Rightarrow> False | Some ord \<Rightarrow> order_abs ord = (CANCELLED, True))
        \<and> unit_stock d' (UnitP 1) = 10" by code_simp
  then obtain out o1 d' ord where c: "sample_cancel = Inr (out, o1, d')"
    and r: "row o_id 9 (d_orders d') = Some ord" "order_abs ord = (CANCELLED, True)" "unit_stock d' (UnitP 1) = 10"
    by (auto split: sum.splits option.splits)
  have "shop_run sample_life d'" by (intro r_into_rtranclp cancels [OF _ c]) simp
  with r that show ?thesis by blast
qed



theorem ended_orders_sound_witness:
  "\<exists>d' ord. shop_run sample_life d' \<and> ord \<in> set (d_orders d') \<and> o_status ord = CANCELLED
     \<and> list_all (\<lambda>i. oi_restocked_quantity i = oi_quantity i) (order_items_of (o_id ord) d')"
proof (rule sample_cancelled)
  fix ord d'
  assume d': "shop_run sample_life d'" "row o_id 9 (d_orders d') = Some ord" "order_abs ord = (CANCELLED, True)"
  then have "ord \<in> set (d_orders d')" using row_SomeD by fastforce
  with ended_orders_sound [OF d'(1) sample_life_ok(1)] d' show ?thesis by (auto simp: order_abs_def)
qed

definition sample_env :: pay_env where
  "sample_env = \<lparr>pe_stripe_secret_key = '''', pe_enabled_currencies = [''inr''], pe_live_enabled = False,
     pe_live_active = False, pe_configs = [], pe_build = (\<lambda>_. sample_provider), pe_default = sample_provider,
     pe_recovery_interval_seconds = 60, pe_recovery_window_minutes = 60, pe_recovery_max_attempts = 3,
     pe_shop = sample_config, pe_refund_max_attempts = 3\<rparr>"

definition sample_event :: "string \<Rightarrow> string \<Rightarrow> int option \<Rightarrow> webhook_event" where
  "sample_event type ppid config =
     \<lparr>we_event_id = ''evt'', we_event_type = type, we_provider_payment_id = ppid, we_amount = Some 1000,
      we_amount_received = None, we_currency = Some ''inr'', we_provider_refund_id = Some ''re_9'', we_refund_status = Some ''succeeded'',
      we_provider_dispute_id = None, we_dispute_status = None, we_dispute_reason = None, we_provider = ''stripe'',
      we_provider_reference = None, we_config_id = config\<rparr>"


theorem refunds_and_disputes_final_witness:
  "\<exists>d' new. shop_run sample_life d' \<and> row rf_id 61 (d_refunds d') = Some new \<and> rf_status new = RefFailed"
proof (rule sample_cancelled)
  fix d'
  assume d': "shop_run sample_life d'"
  have "row rf_id 61 (d_refunds sample_life) = Some sample_refund" by (simp add: sample_life_def sample_refund_def)
  with refunds_and_disputes_final [OF d' sample_life_ok(1)] obtain new where "row rf_id 61 (d_refunds d') = Some new" "refund_kept sample_refund new"
    by blast
  with d' show ?thesis by (auto simp: refund_kept_def sample_refund_def)
qed

end
