(* ===== verification/Payment_Guarantees.thy ===== *)
theory Payment_Guarantees
  imports Order_Guarantees
begin

text \<open>
  What a payment event does: it is applied once, it pays exactly the order it is for and only when the
  amounts agree, and an event that came too early is retried a bounded number of times. One flaw is
  shown: the replay of such an event no longer knows which configuration it was verified with.
\<close>

section \<open>Once\<close>

lemma settled_claim: "settled (event_key ev) d \<Longrightarrow> claim_webhook_event ev d = (False, d)"
  by (auto simp: settled_def claim_webhook_event_def)

lemma claim_settles:
  assumes "claim_webhook_event ev d = (b, d')"
  shows "settled (event_key ev) d'"
proof (cases "row pe_key (event_key ev) (d_processed_events d)")
  case None
  with assms show ?thesis by (auto simp: claim_webhook_event_def settled_def row_append)
next
  case (Some r)
  with assms row_SomeD [OF Some] show ?thesis
    by (cases "pe_status r = ''failed''") (auto simp: claim_webhook_event_def settled_def row_set_row)
qed

lemma delivered_settled:
  assumes "handle_webhook env message ev ck d = (Inr (), d')" and "shop_ok d"
  shows "settled (event_key ev) d'" and "shop_ok d'"
proof -
  show ok': "shop_ok d'" using handle_webhook_writes [OF assms] writes_shop_ok assms(2) by blast
  obtain c d1 where c: "claim_webhook_event ev d = (c, d1)" by fastforce
  have p: "process_webhook_event env ev ck d = Inr d'" using assms(1) by (auto simp: handle_webhook_def split: sum.splits)
  have s1: "settled (event_key ev) d1" by (rule claim_settles [OF c])
  have ok1: "shop_ok d1" using bookkeeping_shop_ok [OF bk_claim [OF c] assms(2)] .
  show "settled (event_key ev) d'"
  proof (cases c)
    case False
    with p c s1 show ?thesis by (simp add: process_webhook_event_def)
  next
    case True
    then obtain h d2 where h: "dispatch_event env ev ck d1 = Inr (h, d2)"
      and d': "d' = finish_webhook_event ev (if h then ''processed'' else ''ignored'') (ck_now ck) d2"
      using p c by (auto simp: process_webhook_event_def res_simps)
    have "settled (event_key ev) d2"
      using events_settled.writes_keep [OF dispatch_event_writes [OF h ok1] ok1 s1] by simp
    moreover have "bookkeeping d2 d'" unfolding d' by simp
    ultimately show ?thesis unfolding bookkeeping_def by blast
  qed
qed

text \<open>
  Claim C6 (safety). A webhook event is applied at most once. When a delivery of an event was handled,
  every later delivery of the same event (the same provider and event id), after whatever the shop
  did in between, is acknowledged and leaves the whole database as it is.
\<close>

theorem webhook_exactly_once:
  assumes "handle_webhook env message ev ck d = (Inr (), d1)" and "shop_ok d" and "shop_run d1 d2" and "event_key again = event_key ev"
  shows "handle_webhook env' message' again ck' d2 = (Inr (), d2)"
proof -
  note s = delivered_settled [OF assms(1,2)]
  have "settled (event_key again) d2"
    using events_settled.writes_keep [OF run_keeps(1) [OF assms(3) s(2)] s(2,1)] assms(4) by simp
  from settled_claim [OF this] show ?thesis by (simp add: handle_webhook_def process_webhook_event_def)
qed

section \<open>The right order\<close>

lemma reconcile_orders [simp]: "d_orders (reconcile kind k pm oid ppid d) = d_orders d" "d_payments (reconcile kind k pm oid ppid d) = d_payments d"
  using bk_reconcile [of d kind k pm oid ppid] by (simp_all add: bookkeeping_def)

lemma flag_orders [simp]:
  "d_orders (flag_for_review act pid kind oid ppid dp k d) = d_orders d" "d_payments (flag_for_review act pid kind oid ppid dp k d) = d_payments d"
  using bk_flag [of d act pid kind oid ppid dp k] by (simp_all add: bookkeeping_def)

lemma defer_orders [simp]:
  "d_orders (defer_event env ev r now d) = d_orders d" "d_payments (defer_event env ev r now d) = d_payments d"
  using bk_defer [of d env ev r now] by (simp_all add: bookkeeping_def)

lemma enqueue_orders [simp]: "d_orders (enqueue t p k d) = d_orders d" "d_payments (enqueue t p k d) = d_payments d"
  using bk_enqueue [of d t p k] by (simp_all add: bookkeeping_def)

lemma receive_payment_Inr:
  assumes "receive_payment ev pm d = Inr (pm', d')" and "row pm_id (pm_id pm) (d_payments d) = Some pm"
  shows "d_orders d' = d_orders d \<and> pm_order_id pm' = pm_order_id pm \<and> pm_status pm' = PaySucceeded \<and> pm_id pm' = pm_id pm
    \<and> row pm_id (pm_id pm) (d_payments d') = Some pm'"
  using assms by (auto simp: receive_payment_def update_payment_status_def Let_def flush_payment_def res_simps row_set_row split: if_splits)

lemma matches_exact:
  assumes "event_matches_payment ev pm d = (True, d')"
  shows "d' = d \<and> we_amount ev = Some (pm_amount_cents pm) \<and> we_currency ev = Some (pm_currency pm)
    \<and> (we_amount_received ev = None \<or> we_amount_received ev = Some (pm_amount_cents pm))
    \<and> (\<forall>ord. get_order_by_id (pm_order_id pm) d = Some ord \<longrightarrow>
         o_total_cents ord = pm_amount_cents pm \<and> (o_currency ord = None \<or> o_currency ord = Some (pm_currency pm)))"
  using assms
  by (auto simp: event_matches_payment_def Let_def to_stripe_amount_def res_simps split: if_splits option.splits sum.splits)

lemma set_row_twice: "key a = key b \<Longrightarrow> set_row key b (set_row key a t) = set_row key b t"
  by (auto simp: set_row_def)

lemma mark_paid_Inr:
  assumes "mark_paid ord pm ck d = Inr (b, d')" and "o_status ord = PENDING" and "row o_id (o_id ord) (d_orders d) = Some ord"
  shows "d_orders d' = set_row o_id (ord\<lparr>o_status := PAID, o_paid_in_demo_mode := (pm_provider pm = ''demo'')\<rparr>) (d_orders d) \<and> b
    \<and> d_payments d' = d_payments d"
  using assms
  by (auto simp: mark_paid_def update_status_def Let_def flush_order_def res_simps row_set_row set_row_twice split: option.splits)

text \<open>
  Claim C7 (functional). What a payment-succeeded event does to the orders: either no order changes,
  or exactly one does, and then it is the pending order of the payment the event names (same provider
  and provider payment id), it becomes paid, the amount and currency the provider reports are the
  payment's and the order's, and the payment is recorded as succeeded.
\<close>

theorem payment_success_exact:
  assumes "handle_payment_succeeded env ev ck d = Inr d'" and "shop_ok d"
  shows "d_orders d' = d_orders d \<or>
    (\<exists>pm ord demo. get_by_provider_payment_id (we_provider_payment_id ev) (Some (we_provider ev)) d = Some pm
       \<and> row o_id (pm_order_id pm) (d_orders d) = Some ord \<and> o_status ord = PENDING
       \<and> d_orders d' = set_row o_id (ord\<lparr>o_status := PAID, o_paid_in_demo_mode := demo\<rparr>) (d_orders d)
       \<and> we_amount ev = Some (o_total_cents ord) \<and> pm_amount_cents pm = o_total_cents ord
       \<and> we_currency ev = Some (pm_currency pm) \<and> (o_currency ord = None \<or> o_currency ord = we_currency ev)
       \<and> (\<exists>pm'. row pm_id (pm_id pm) (d_payments d') = Some pm' \<and> pm_status pm' = PaySucceeded))"
proof (cases "get_by_provider_payment_id (we_provider_payment_id ev) (Some (we_provider ev)) d")
  case None
  with assms(1) have "d_orders d' = d_orders d" by (auto simp: handle_payment_succeeded_def Let_def)
  then show ?thesis by simp
next
  case (Some pm0)
  obtain m d1 where m: "event_matches_payment ev pm0 d = (m, d1)" by fastforce
  show ?thesis
  proof (cases m)
    case False
    with assms(1) Some m have "d' = d1" by (simp add: handle_payment_succeeded_def)
    with bk_matches [OF m] show ?thesis by (simp add: bookkeeping_def)
  next
    case True
    with m have "event_matches_payment ev pm0 d = (True, d1)" by simp
    note x = matches_exact [OF this]
    then have d1: "d1 = d" by simp
    obtain pm d2 where r: "receive_payment ev pm0 d = Inr (pm, d2)"
      using assms(1) Some m True d1 by (auto simp: handle_payment_succeeded_def res_simps)
    note rp = receive_payment_Inr [OF r payment_found [OF Some assms(2)]]
    note body = assms(1) [unfolded handle_payment_succeeded_def Let_def Some option.case m prod.case d1 r rbind_simps]
    show ?thesis
    proof (cases "get_order_by_id (pm_order_id pm) d2")
      case None
      with body True rp show ?thesis by auto
    next
      case ord: (Some ord)
      show ?thesis
      proof (cases "o_status ord = PENDING")
        case False
        with body True ord rp show ?thesis by auto
      next
        case pending: True
        obtain b d3 where mp: "mark_paid ord pm ck d2 = Inr (b, d3)" and e: "d_orders d' = d_orders d3" "d_payments d' = d_payments d3"
          using body True ord pending by (auto simp: res_simps)
        have row: "row o_id (pm_order_id pm0) (d_orders d) = Some ord" "row o_id (o_id ord) (d_orders d2) = Some ord"
          using ord rp row_SomeD [of o_id "pm_order_id pm" "d_orders d2" ord] by (simp_all add: get_order_by_id_def)
        from mark_paid_Inr [OF mp pending row(2)] e rp row(1) x pending Some show ?thesis
          by (intro disjI2 exI [of _ pm0] exI [of _ ord] exI [of _ "pm_provider pm = ''demo''"]) (simp add: get_order_by_id_def)
      qed
    qed
  qed
qed

section \<open>Bounded retries\<close>

lemma reconcile_deferred [simp]: "d_deferred_events (resolve_by_dedupe_key k nt now d) = d_deferred_events d"
  by (simp add: resolve_by_dedupe_key_def)

lemma row_save_deferred:
  "de_key r \<in> de_key ` set (d_deferred_events d) \<Longrightarrow> row de_key (de_key r) (d_deferred_events (save_deferred r d)) = Some r"
  by (simp add: save_deferred_def row_set_row row_None_iff)

lemma audit_deferred [simp]: "d_deferred_events (audit_log a b c k d) = d_deferred_events d"
  by (simp add: audit_log_def)

lemma reprocess_one_row:
  assumes "shop_ok d" and "de_key r \<in> de_key ` set (d_deferred_events d)" and "de_status r = ''pending''"
  shows "\<exists>r'. row de_key (de_key r) (d_deferred_events (reprocess_one env message ck r d)) = Some r'
    \<and> (de_status r' = ''pending'' \<longrightarrow> de_attempts r' = de_attempts r + 1 \<and> de_attempts r' < pe_recovery_max_attempts env)"
proof -
  have saved: "\<exists>r'. row de_key (de_key r) (d_deferred_events (save_deferred x e)) = Some r' \<and> P r'"
    if "P x" "de_key x = de_key r" "de_key r \<in> de_key ` set (d_deferred_events e)" for x e P
    using that row_save_deferred [of x e] by auto
  show ?thesis
  proof (cases "get_by_provider_payment_id (we_provider_payment_id (de_event r)) (Some (we_provider (de_event r))) d")
    case None
    with assms(2,3) show ?thesis unfolding reprocess_one_def Let_def by (auto intro!: saved)
  next
    case (Some pm)
    show ?thesis
    proof (cases "apply_deferred_event env (de_event r) ck d")
      case (Inl e)
      with Some assms(2,3) show ?thesis unfolding reprocess_one_def Let_def by (auto intro!: saved)
    next
      case (Inr d1)
      have "de_key r \<in> de_key ` set (d_deferred_events d1)"
        using events_deferred.writes_keep [OF apply_deferred_event_writes [OF Inr assms(1)] assms(1,2)] by simp
      with Some Inr show ?thesis unfolding reprocess_one_def Let_def by (auto intro!: saved)
    qed
  qed
qed

text \<open>The job's turn for one event: it is taken up while it is pending.\<close>

definition retry :: "pay_env \<Rightarrow> (shop_error \<Rightarrow> string) \<Rightarrow> string \<times> string \<Rightarrow> clock \<Rightarrow> db \<Rightarrow> db" where
  "retry env message k ck d =
     (case row de_key k (d_deferred_events d) of
        Some r \<Rightarrow> if de_status r = ''pending'' then reprocess_one env message ck r d else d
      | None \<Rightarrow> d)"

lemma retry_shop_ok: "shop_ok d \<Longrightarrow> shop_ok (retry env message k ck d)"
  using writes_shop_ok [OF reprocess_one_writes] by (simp add: retry_def split: option.split)

lemma retries_done:
  "row de_key k (d_deferred_events d) = Some r \<Longrightarrow> de_status r \<noteq> ''pending'' \<Longrightarrow> fold (retry env message k) cks d = d"
  by (induction cks) (simp_all add: retry_def)

lemma retries_count:
  assumes "shop_ok d" and "row de_key k (d_deferred_events d) = Some r"
  shows "\<exists>r'. row de_key k (d_deferred_events (fold (retry env message k) cks d)) = Some r'
    \<and> (de_status r' = ''pending'' \<longrightarrow> de_attempts r' = de_attempts r + int (length cks)
         \<and> (cks \<noteq> [] \<longrightarrow> de_attempts r' < pe_recovery_max_attempts env))"
  using assms
proof (induction cks arbitrary: d r)
  case (Cons ck cks)
  show ?case
  proof (cases "de_status r = ''pending''")
    case False
    with Cons.prems retries_done [OF Cons.prems(2) False, of env message "ck # cks"] show ?thesis by simp
  next
    case True
    have "de_key r = k" "r \<in> set (d_deferred_events d)" using row_SomeD [OF Cons.prems(2)] by simp_all
    with reprocess_one_row [OF Cons.prems(1) _ True, of env message ck] Cons.prems(2) True
    obtain r1 where r1: "row de_key k (d_deferred_events (retry env message k ck d)) = Some r1"
      "de_status r1 = ''pending'' \<longrightarrow> de_attempts r1 = de_attempts r + 1 \<and> de_attempts r1 < pe_recovery_max_attempts env"
      by (auto simp: retry_def)
    show ?thesis
    proof (cases "de_status r1 = ''pending''")
      case False
      with r1(1) retries_done [OF r1(1) False, of env message cks] show ?thesis by simp
    next
      case p: True
      from Cons.IH [OF retry_shop_ok [OF Cons.prems(1)] r1(1)] r1 p show ?thesis
        by (cases cks) (auto simp: algebra_simps)
    qed
  qed
qed simp

text \<open>
  Claim C27 (termination). An event that came before its payment record is not retried for ever: after
  as many turns of the job as the configured maximum leaves, whatever the events do and however the
  turns fail, it is recovered or expired.
\<close>

theorem deferred_event_settles:
  assumes "shop_ok d" and "row de_key k (d_deferred_events d) = Some r" and "cks \<noteq> []"
    and "pe_recovery_max_attempts env \<le> de_attempts r + int (length cks)"
  shows "\<exists>r'. row de_key k (d_deferred_events (fold (retry env message k) cks d)) = Some r' \<and> de_status r' \<noteq> ''pending''"
  using retries_count [OF assms(1,2), of env message cks] assms(3,4) by force

section \<open>What a deferred event forgets\<close>

lemma succeeded_event_received:
  assumes "handle_payment_succeeded env ev ck d = Inr d'" and "shop_ok d"
    and "get_by_provider_payment_id (we_provider_payment_id ev) (Some (we_provider ev)) d = Some pm0"
    and "event_matches_payment ev pm0 d = (True, d1)"
  shows "\<exists>pm'. row pm_id (pm_id pm0) (d_payments d') = Some pm' \<and> pm_status pm' = PaySucceeded"
proof -
  have d1: "d1 = d" using matches_exact [OF assms(4)] by simp
  obtain pm d2 where r: "receive_payment ev pm0 d = Inr (pm, d2)"
    using assms(1,3,4) d1 by (auto simp: handle_payment_succeeded_def res_simps)
  note rp = receive_payment_Inr [OF r payment_found [OF assms(3,2)]]
  note body = assms(1) [unfolded handle_payment_succeeded_def Let_def assms(3) option.case assms(4) prod.case d1 r rbind_simps]
  have "d_payments d' = d_payments d2"
  proof (cases "get_order_by_id (pm_order_id pm) d2")
    case None
    with body show ?thesis by auto
  next
    case (Some ord)
    show ?thesis
    proof (cases "o_status ord = PENDING")
      case False
      with body Some show ?thesis by auto
    next
      case True
      have "row o_id (o_id ord) (d_orders d2) = Some ord"
        using Some row_SomeD [of o_id "pm_order_id pm" "d_orders d2" ord] by (simp add: get_order_by_id_def)
      with body Some True mark_paid_Inr [OF _ True] show ?thesis by (auto simp: res_simps)
    qed
  qed
  with rp show ?thesis by simp
qed

text \<open>
  Claim C35 (error). A flaw of the recovery of early events: an event verified with one provider
  configuration must not be applied to a payment made with another, and a direct delivery refuses it.
  The table of deferred events has no column for the configuration, so once the event was deferred
  its replay skips that check, and the payment of the other configuration is recorded as succeeded.
\<close>

theorem deferred_skips_config_check:
  assumes "get_by_provider_payment_id (we_provider_payment_id ev) (Some (we_provider ev)) d = Some pm" and "shop_ok d"
    and "we_event_type ev = SUCCEEDED_EVENT" and "we_config_id ev = Some c" and "pm_provider_config_id pm = Some c'" and "c \<noteq> c'"
    and "handle_payment_succeeded env ev ck d = Inr d1"
    and "fst (event_matches_payment (ev\<lparr>we_config_id := None\<rparr>) pm d)" and "apply_deferred_event env (stored_event ev) ck d = Inr d2"
  shows "d_payments d1 = d_payments d \<and> d_orders d1 = d_orders d
    \<and> (\<exists>pm'. row pm_id (pm_id pm) (d_payments d2) = Some pm' \<and> pm_status pm' = PaySucceeded)"
proof -
  have "d_payments d1 = d_payments d \<and> d_orders d1 = d_orders d"
    using assms(1,4-7) by (auto simp: handle_payment_succeeded_def event_matches_payment_def Let_def)
  moreover have "handle_payment_succeeded env (stored_event ev) ck d = Inr d2"
    using assms(3,9) by (simp add: apply_deferred_event_def stored_event_def)
  moreover have "event_matches_payment (stored_event ev) pm d = event_matches_payment (ev\<lparr>we_config_id := None\<rparr>) pm d"
    by (simp add: stored_event_def event_matches_payment_def Let_def cong: if_cong option.case_cong)
  ultimately show ?thesis
    using succeeded_event_received [of env "stored_event ev" ck d d2 pm] assms(1,2,8) by (cases "event_matches_payment (stored_event ev) pm d") (simp add: stored_event_def)
qed

section \<open>Witnesses\<close>

abbreviation paid_event :: "int option \<Rightarrow> webhook_event" where
  "paid_event config \<equiv> sample_event SUCCEEDED_EVENT ''pi_1'' config"

theorem webhook_exactly_once_witness:
  "\<exists>d1. handle_webhook sample_env (\<lambda>_. '''') (paid_event None) sample_clock sample_life = (Inr (), d1) \<and> d1 \<noteq> sample_life
     \<and> handle_webhook sample_env (\<lambda>_. '''') (paid_event (Some 4)) sample_clock (sweep_stale_orders sample_env 9 d1)
         = (Inr (), sweep_stale_orders sample_env 9 d1)"
proof -
  let ?r = "handle_webhook sample_env (\<lambda>_. '''') (paid_event None) sample_clock sample_life"
  have "case fst ?r of Inl _ \<Rightarrow> False | Inr _ \<Rightarrow> map o_status (d_orders (snd ?r)) = [PAID]" by code_simp
  then have r: "?r = (Inr (), snd ?r)" "map o_status (d_orders (snd ?r)) = [PAID]" by (auto split: sum.splits simp: prod_eq_iff)
  have "map o_status (d_orders sample_life) = [PENDING]" by code_simp
  then have "snd ?r \<noteq> sample_life" using r(2) by (metis list.inject order_status.distinct(1))
  moreover have "shop_run (snd ?r) (sweep_stale_orders sample_env 9 (snd ?r))" by (intro r_into_rtranclp sweeps)
  moreover have "event_key (paid_event (Some 4)) = event_key (paid_event None)" by (simp add: event_key_def sample_event_def)
  ultimately show ?thesis using webhook_exactly_once [OF r(1) sample_life_ok(1)] r(1) by metis
qed

theorem payment_success_exact_witness:
  "\<exists>d' ord demo. handle_payment_succeeded sample_env (paid_event None) sample_clock sample_life = Inr d'
     \<and> d_orders d' = set_row o_id (ord\<lparr>o_status := PAID, o_paid_in_demo_mode := demo\<rparr>) (d_orders sample_life)
     \<and> we_amount (paid_event None) = Some (o_total_cents ord)"
proof -
  let ?r = "handle_payment_succeeded sample_env (paid_event None) sample_clock sample_life"
  have "case ?r of Inl _ \<Rightarrow> False | Inr d' \<Rightarrow> map o_status (d_orders d') = [PAID]" by code_simp
  then obtain d' where d': "?r = Inr d'" "map o_status (d_orders d') = [PAID]" by (auto split: sum.splits)
  have "map o_status (d_orders sample_life) = [PENDING]" by code_simp
  then have "d_orders d' \<noteq> d_orders sample_life" using d'(2) by (metis list.inject order_status.distinct(1))
  with payment_success_exact [OF d'(1) sample_life_ok(1)] d'(1) show ?thesis by blast
qed

definition sample_early :: db where
  "sample_early = defer_event sample_env (sample_event SUCCEEDED_EVENT ''pi_7'' None) ''early'' 0 sample_life"

theorem deferred_event_settles_witness:
  "\<exists>r'. row de_key (''stripe'', ''evt'') (d_deferred_events
       (fold (retry sample_env (\<lambda>_. '''') (''stripe'', ''evt'')) [sample_clock, sample_clock, sample_clock] sample_early)) = Some r'
     \<and> de_status r' \<noteq> ''pending''"
proof -
  have ok: "shop_ok sample_early"
    unfolding sample_early_def by (rule bookkeeping_shop_ok [OF bk_defer sample_life_ok(1)])
  have "case row de_key (''stripe'', ''evt'') (d_deferred_events sample_early) of None \<Rightarrow> False | Some r \<Rightarrow> 0 \<le> de_attempts r"
    by code_simp
  then obtain r where r: "row de_key (''stripe'', ''evt'') (d_deferred_events sample_early) = Some r" "0 \<le> de_attempts r"
    by (auto split: option.splits)
  show ?thesis by (rule deferred_event_settles [OF ok r(1)]) (use r(2) in \<open>simp_all add: sample_env_def\<close>)
qed

definition sample_configured :: db where
  "sample_configured = sample_life\<lparr>d_payments := [(sample_payment PayPending)\<lparr>pm_provider_config_id := Some 3\<rparr>]\<rparr>"

lemma sample_configured_ok: "shop_ok sample_configured"
  by code_simp

theorem deferred_skips_config_check_witness:
  "\<exists>d1 d2 pm'. handle_payment_succeeded sample_env (paid_event (Some 4)) sample_clock sample_configured = Inr d1
     \<and> d_payments d1 = d_payments sample_configured
     \<and> apply_deferred_event sample_env (stored_event (paid_event (Some 4))) sample_clock sample_configured = Inr d2
     \<and> row pm_id 60 (d_payments d2) = Some pm' \<and> pm_status pm' = PaySucceeded"
proof -
  let ?pm = "(sample_payment PayPending)\<lparr>pm_provider_config_id := Some 3\<rparr>"
  have pm: "get_by_provider_payment_id (we_provider_payment_id (paid_event (Some 4))) (Some (we_provider (paid_event (Some 4)))) sample_configured = Some ?pm"
    by (simp add: get_by_provider_payment_id_def sample_configured_def sample_payment_def sample_event_def)
  have "case handle_payment_succeeded sample_env (paid_event (Some 4)) sample_clock sample_configured of Inl _ \<Rightarrow> False | Inr _ \<Rightarrow> True"
    by code_simp
  then obtain d1 where d1: "handle_payment_succeeded sample_env (paid_event (Some 4)) sample_clock sample_configured = Inr d1" by (auto split: sum.splits)
  have "case apply_deferred_event sample_env (stored_event (paid_event (Some 4))) sample_clock sample_configured of Inl _ \<Rightarrow> False | Inr _ \<Rightarrow> True"
    by code_simp
  then obtain d2 where d2: "apply_deferred_event sample_env (stored_event (paid_event (Some 4))) sample_clock sample_configured = Inr d2" by (auto split: sum.splits)
  have m: "fst (event_matches_payment ((paid_event (Some 4))\<lparr>we_config_id := None\<rparr>) ?pm sample_configured)" by code_simp
  have "pm_id ?pm = 60" by (simp add: sample_payment_def)
  with deferred_skips_config_check [OF pm sample_configured_ok _ _ _ _ d1 m d2, of 4 3] d1 d2 show ?thesis
    by (auto simp: sample_event_def)
qed

end
