(* ===== verification/Return_Guarantees.thy ===== *)
theory Return_Guarantees
  imports Payment_Guarantees
begin

text \<open>
  What customers and the shop can rely on for shipments and returns: no line is returned or put back
  more often than it was bought, a request follows its machine, what is entered as restocked is what
  reappears on the shelf, the whole order is refunded only when the whole order came back, and the
  eligibility answer is the one the request will get.
\<close>

section \<open>The return machine\<close>

inductive return_step :: "string \<Rightarrow> string \<Rightarrow> bool" where
  approve: "return_step ''requested'' ''approved''"
| reject: "return_step ''requested'' ''rejected''"
| withdraw: "return_step ''requested'' ''cancelled''"
| withdraw_approved: "return_step ''approved'' ''cancelled''"
| arrive: "return_step ''approved'' ''received''"
| close_unreceived: "return_step ''approved'' ''closed''"
| close: "return_step ''received'' ''closed''"

inductive_simps return_step_from: "return_step s t"

lemma return_step_iff: "return_step s t \<longleftrightarrow> t \<in> set (return_transitions s)"
  unfolding return_step_from return_transitions_def by auto

definition return_kept :: "return_request \<Rightarrow> return_request \<Rightarrow> bool" where
  "return_kept old new \<longleftrightarrow> rt_order_id new = rt_order_id old \<and> rt_user_id new = rt_user_id old \<and> asked_for new = asked_for old
     \<and> return_step\<^sup>*\<^sup>* (rt_status old) (rt_status new)"

lemma return_kept_refl [simp]: "return_kept r r"
  by (simp add: return_kept_def)

lemma return_kept_trans: "return_kept a b \<Longrightarrow> return_kept b c \<Longrightarrow> return_kept a c"
  by (auto simp: return_kept_def)

lemma return_change_kept: "return_change old new \<Longrightarrow> return_kept old new"
  by (simp add: return_change_def return_kept_def return_step_iff r_into_rtranclp)

lemma return_rows_kept:
  assumes "db_write d d'" and "shop_ok d" and "row rt_id i (d_returns d) = Some r"
  shows "\<exists>new. row rt_id i (d_returns d') = Some new \<and> return_kept r new"
  using assms(1,2)
proof (cases rule: db_write_forms)
  case (return_row new old)
  then show ?thesis
    using assms(3) return_change_kept by (cases "rt_id new = i") (auto simp: row_set_row)
next
  case (new_return ret n)
  then show ?thesis using assms(3) by (simp add: row_append)
qed (use assms(3) in \<open>simp_all add: bookkeeping_def\<close>)

interpretation return_refines: write_invariant "\<lambda>d. \<exists>new. row rt_id i (d_returns d) = Some new \<and> return_kept r new" for i r
  by unfold_locales (blast dest: return_rows_kept intro: return_kept_trans)

lemma return_final: "return_step\<^sup>*\<^sup>* s t \<Longrightarrow> s \<in> {''rejected'', ''cancelled'', ''closed''} \<Longrightarrow> t = s"
  by (erule converse_rtranclpE) (auto simp: return_step_from)

section \<open>Shipments\<close>

lemma shipments_kept:
  assumes "db_write d d'" and "shop_ok d" and "shipments_ok d"
  shows "shipments_ok d'"
  using assms(1,2)
proof (cases rule: db_write_forms)
  case (placed ord)
  then show ?thesis by (intro shipments_ok_next [OF assms(3)])
next
  case other
  with assms(3) show ?thesis by (simp add: bookkeeping_def)
qed (use assms(3) in \<open>auto intro: shipments_ok_next\<close>)

interpretation parcels: write_invariant shipments_ok
  by unfold_locales (rule shipments_kept)

section \<open>Properties of runs\<close>

text \<open>
  Claim C22 (invariant). Whatever happens, a line of an order is never returned more often than it was
  bought: the quantities of all requests that were not rejected or withdrawn stay within the
  quantity of the line, however many requests are made, and so do the units put back in stock by
  returns, cancellations and refunds together. Within a request no more arrives than was asked for
  and no more is put back than arrived.
\<close>

theorem returns_within_purchase:
  assumes "shop_run d d'" and "shop_ok d"
  shows "(\<forall>i \<in> set (d_order_items d'). used (oi_order_id i) d' (oi_id i) \<le> oi_quantity i
        \<and> 0 \<le> oi_restocked_quantity i \<and> oi_restocked_quantity i \<le> oi_quantity i)
    \<and> (\<forall>r \<in> set (d_returns d'). \<forall>x \<in> set (rt_items r). 0 < ri_quantity x \<and> arrived x \<le> ri_quantity x
        \<and> 0 \<le> ri_restocked_quantity x \<and> ri_restocked_quantity x \<le> arrived x)"
proof -
  note ok = shop_okD [OF run_keeps(2) [OF assms]]
  have "0 < ri_quantity x \<and> arrived x \<le> ri_quantity x \<and> 0 \<le> ri_restocked_quantity x \<and> ri_restocked_quantity x \<le> arrived x"
    if "r \<in> set (d_returns d')" "x \<in> set (rt_items r)" for r x
  proof -
    have "return_item_checks x" using ok(10) that by (auto simp: returns_ok_def return_checks_def list_all_iff)
    then show ?thesis by (auto simp: return_item_checks_def arrived_def split: option.splits)
  qed
  with ok(5,10) show ?thesis by (simp add: restocks_ok_def returns_ok_def)
qed

text \<open>
  Claim C23 (refinement). Every return request implements the abstract machine \<open>return_step\<close>:
  requested, then approved, rejected or withdrawn; approved, then received, closed or withdrawn;
  received, then closed. A rejected, withdrawn or closed request stays so for ever, and whose it is,
  of which order, and which lines and quantities it asks for never change.
\<close>

theorem return_follows_machine:
  assumes "shop_run d d'" and "shop_ok d" and "row rt_id i (d_returns d) = Some r"
  shows "\<exists>new. row rt_id i (d_returns d') = Some new \<and> return_step\<^sup>*\<^sup>* (rt_status r) (rt_status new)
    \<and> (rt_status r \<in> {''rejected'', ''cancelled'', ''closed''} \<longrightarrow> rt_status new = rt_status r)
    \<and> rt_order_id new = rt_order_id r \<and> rt_user_id new = rt_user_id r \<and> asked_for new = asked_for r"
proof -
  have "\<exists>new. row rt_id i (d_returns d) = Some new \<and> return_kept r new" using assms(3) by auto
  from return_refines.writes_keep [OF run_keeps(1) [OF assms(1,2)] assms(2) this]
  show ?thesis using return_final unfolding return_kept_def by blast
qed

text \<open>
  In every reachable state a parcel is either under way or delivered, it has a
  delivery time exactly when it is delivered, and no two parcels of an order carry the same tracking
  number of the same carrier.
\<close>

theorem parcels_sound:
  assumes "shop_run d d'" and "shop_ok d" and "shipments_ok d" and "s \<in> set (d_shipments d')"
  shows "sh_status s \<in> {''shipped'', ''delivered''} \<and> (sh_status s = ''delivered'' \<longleftrightarrow> sh_delivered_at s \<noteq> None)
    \<and> (\<forall>x \<in> set (d_shipments d'). sh_tracking_number s \<noteq> None \<and> sh_order_id x = sh_order_id s \<and> sh_carrier_name x = sh_carrier_name s
         \<and> sh_tracking_number x = sh_tracking_number s \<longrightarrow> sh_id x = sh_id s)"
proof -
  have "shipments_ok d'" using parcels.writes_keep [OF run_keeps(1) [OF assms(1,2)] assms(2,3)] by blast
  then have "shipment_checks s d'" using assms(4) by (simp add: shipments_ok_def)
  then show ?thesis by (auto simp: shipment_checks_def list_ex_iff)
qed

section \<open>Goods received\<close>

definition unit_share :: "order_item list \<Rightarrow> sold_unit \<Rightarrow> return_item \<Rightarrow> int" where
  "unit_share lines u y =
     (case row oi_id (ri_order_item_id y) lines of
        None \<Rightarrow> 0 | Some l \<Rightarrow> if unit_of_item l = u then ri_restocked_quantity y else 0)"

lemma moved_back_items:
  assumes "rmap (line_of_item lines) (filter to_restock ys) = Inr ls" and "\<forall>y \<in> set ys. ri_restocked_quantity y = 0"
  shows "moved_back recorded ls u = sum_list (map (unit_share lines u) (map (mark_restocked recorded) ys))"
  using assms
proof (induction ys arbitrary: ls)
  case (Cons y ys)
  show ?case
  proof (cases "to_restock y")
    case True
    then obtain l ls' where l: "row oi_id (ri_order_item_id y) lines = Some l" and ls: "ls = (l, arrived y) # ls'"
      and rest: "rmap (line_of_item lines) (filter to_restock ys) = Inr ls'"
      using Cons.prems(1) by (cases "row oi_id (ri_order_item_id y) lines") (auto simp: line_of_item_def [of lines y] res_simps)
    have "oi_id l = ri_order_item_id y" using row_SomeD [OF l] by simp
    with Cons.IH [OF rest] Cons.prems(2) True l show ?thesis
      by (simp add: ls moved_back_Cons unit_share_def mark_restocked_def)
  next
    case False
    with Cons show ?thesis by (auto simp: unit_share_def mark_restocked_def split: option.split)
  qed
qed (simp add: moved_back_def)

lemma finish_return_frame:
  assumes "finish_return actor action admin r d = Inr (x, d')"
  shows "d_returns d' = set_row rt_id r (d_returns d)" "d_refunds d' = d_refunds d" "unit_stock d' u = unit_stock d u"
proof -
  have d': "d' = log_return actor action r (d\<lparr>d_returns := set_row rt_id r (d_returns d)\<rparr>)"
    using assms by (auto elim!: finish_return_Inr simp: flush_return_def split: if_splits)
  show "d_returns d' = set_row rt_id r (d_returns d)" "d_refunds d' = d_refunds d" by (simp_all add: d' log_return_def)
  show "unit_stock d' u = unit_stock d u" by (rule stock_cong; simp add: d' log_return_def)
qed

lemma untouched_received:
  "untouched r \<Longrightarrow> \<forall>y \<in> set (map (received_item payload) (rt_items r)). ri_restocked_quantity y = 0"
  by (auto simp: untouched_def received_item_def split: option.split)

lemma received_entry:
  assumes "set (map rv_order_item_id payload) = set (map ri_order_item_id (rt_items r))" and "y \<in> set (rt_items r)"
    and "ri_restocked_quantity y = 0"
  shows "\<exists>e \<in> set payload. rv_order_item_id e = ri_order_item_id y
    \<and> ri_order_item_id (mark_restocked recorded (received_item payload y)) = ri_order_item_id y
    \<and> ri_received_quantity (mark_restocked recorded (received_item payload y)) = Some (rv_received_quantity e)
    \<and> ri_restock (mark_restocked recorded (received_item payload y)) = rv_restock e
    \<and> ri_restocked_quantity (mark_restocked recorded (received_item payload y)) \<in> {0, if rv_restock e then rv_received_quantity e else 0}"
proof -
  have "ri_order_item_id y \<in> rv_order_item_id ` set payload" using assms(1,2) by (metis imageI set_map)
  then have "row rv_order_item_id (ri_order_item_id y) payload \<noteq> None" by (simp add: row_None_iff)
  then obtain e where e: "row rv_order_item_id (ri_order_item_id y) payload = Some e" by blast
  with row_SomeD [OF e] assms(3) show ?thesis
    by (intro bexI [of _ e]) (auto simp: received_item_def mark_restocked_def to_restock_def arrived_def)
qed

text \<open>
  Claim C24 (functional). Receiving a return enters for every line what the administrator reported, and
  moves exactly the units it records as put back: every known product or variant gains the restocked
  quantities of the request's lines for it, no more and no less. A line is put back in full or not at
  all, and only when the administrator asked for it.
\<close>

theorem receive_moves_what_it_records:
  assumes "receive_return i admin payload now d = Inr (x, d')" and "shop_ok d" and "known_unit d u"
  shows "\<exists>old new. row rt_id i (d_returns d) = Some old \<and> row rt_id i (d_returns d') = Some new
    \<and> rt_status old = ''approved'' \<and> rt_status new = ''received''
    \<and> unit_stock d' u = unit_stock d u + sum_list (map (unit_share (order_items_of (rt_order_id old) d) u) (rt_items new))
    \<and> (\<forall>y \<in> set (rt_items new). \<exists>e \<in> set payload. rv_order_item_id e = ri_order_item_id y
        \<and> ri_received_quantity y = Some (rv_received_quantity e) \<and> ri_restock y = rv_restock e
        \<and> ri_restocked_quantity y \<in> {0, if rv_restock e then rv_received_quantity e else 0})"
  using assms(1)
proof (rule receive_return_Inr)
  fix r ord ret1 d1
  assume r: "row rt_id i (d_returns d) = Some r" "rt_status r = ''approved''"
    and p: "set (map rv_order_item_id payload) = set (map ri_order_item_id (rt_items r))"
    and l: "lock_order_for_update (rt_order_id r) d = Inr ord"
    and rs: "restock_return ord (r\<lparr>rt_items := map (received_item payload) (rt_items r)\<rparr>) admin d = Inr (ret1, d1)"
    and f: "finish_return admin ''received'' True (ret1\<lparr>rt_status := ''received'', rt_received_at := Some now, rt_handled_by_user_id := Some admin\<rparr>) d1
       = Inr (x, d')"
  note ok = shop_okD [OF assms(2)]
  have rr: "return_checks r" "untouched r" using ok(10) row_SomeD [OF r(1)] r(2) by (auto simp: returns_ok_def OPEN_def)
  then have dist: "distinct (map ri_order_item_id (rt_items (r\<lparr>rt_items := map (received_item payload) (rt_items r)\<rparr>)))"
    by (simp add: return_checks_def comp_def)
  obtain recorded ls where ret1: "ret1 = r\<lparr>rt_items := map (mark_restocked recorded) (map (received_item payload) (rt_items r))\<rparr>"
    and ls: "rmap (line_of_item (order_items_of (o_id ord) d)) (filter to_restock (map (received_item payload) (rt_items r))) = Inr ls"
    and us: "\<forall>u. known_unit d u \<longrightarrow> unit_stock d1 u = unit_stock d u + moved_back recorded ls u"
    using restock_return_effect [OF rs dist ok(5,4,1,2)] by auto
  from write_restocked_ok(4) [OF rs dist assms(2)] have same: "d_returns d1 = d_returns d" by (rule stock_writeE) simp
  let ?new = "ret1\<lparr>rt_status := ''received'', rt_received_at := Some now, rt_handled_by_user_id := Some admin\<rparr>"
  have d': "d_returns d' = set_row rt_id ?new (d_returns d)" "unit_stock d' u = unit_stock d1 u"
    using finish_return_frame [OF f] by (simp_all add: same)
  have id: "rt_id ?new = i" using return_row_id [OF r(1)] by (simp add: ret1)
  have new: "row rt_id i (d_returns d') = Some ?new" unfolding d'(1) using r(1) id by (simp add: row_set_row)
  have "unit_stock d' u = unit_stock d u + sum_list (map (unit_share (order_items_of (rt_order_id r) d) u) (rt_items ?new))"
    using us assms(3) moved_back_items [OF ls untouched_received [OF rr(2)]] lock_order_Inr(2) [OF l] by (simp add: d'(2) ret1)
  moreover have "\<forall>y \<in> set (rt_items ?new). \<exists>e \<in> set payload. rv_order_item_id e = ri_order_item_id y
        \<and> ri_received_quantity y = Some (rv_received_quantity e) \<and> ri_restock y = rv_restock e
        \<and> ri_restocked_quantity y \<in> {0, if rv_restock e then rv_received_quantity e else 0}"
  proof
    fix y
    assume "y \<in> set (rt_items ?new)"
    then obtain z where z: "z \<in> set (rt_items r)" "y = mark_restocked recorded (received_item payload z)" by (auto simp: ret1)
    have "ri_restocked_quantity z = 0" using rr(2) z(1) by (simp add: untouched_def)
    from received_entry [OF p z(1) this, of recorded] show "\<exists>e \<in> set payload. rv_order_item_id e = ri_order_item_id y
        \<and> ri_received_quantity y = Some (rv_received_quantity e) \<and> ri_restock y = rv_restock e
        \<and> ri_restocked_quantity y \<in> {0, if rv_restock e then rv_received_quantity e else 0}"
      unfolding z(2) [symmetric] by (elim bexE conjE) (rule bexI, simp_all)
  qed
  ultimately show ?thesis using r new by (intro exI [of _ r] exI [of _ ?new]) simp
qed

section \<open>The refund of a returned order\<close>

definition came_on :: "int \<Rightarrow> int \<Rightarrow> return_request \<Rightarrow> int" where
  "came_on oid i r = (if rt_order_id r = oid \<and> rt_status r \<in> {''received'', ''closed''}
     then sum_list (map arrived (filter (\<lambda>x. ri_order_item_id x = i) (rt_items r))) else 0)"

lemma came_back_sum: "came_back oid d i = sum_list (map (came_on oid i) (d_returns d))"
proof -
  have "sum_list (map arrived (filter (\<lambda>x. ri_order_item_id x = i) (items_of_returns oid [''received'', ''closed''] rs)))
      = sum_list (map (came_on oid i) rs)" for rs
    by (induction rs) (auto simp: items_of_returns_def came_on_def)
  then show ?thesis by (simp add: came_back_def)
qed

lemma came_within_claim:
  assumes "return_checks r"
  shows "came_on oid i r \<le> claim_on oid i r"
proof -
  have items: "arrived x \<le> ri_quantity x \<and> 0 \<le> ri_quantity x" if "x \<in> set (rt_items r)" for x
    using assms that by (auto simp: return_checks_def list_all_iff return_item_checks_def arrived_def split: option.split)
  then have "sum_list (map arrived (filter (\<lambda>x. ri_order_item_id x = i) (rt_items r)))
      \<le> sum_list (map ri_quantity (filter (\<lambda>x. ri_order_item_id x = i) (rt_items r)))" by (intro sum_list_mono) auto
  moreover have "0 \<le> sum_list (map ri_quantity (filter (\<lambda>x. ri_order_item_id x = i) (rt_items r)))"
    using items by (intro sum_list_nonneg) auto
  ultimately show ?thesis by (auto simp: came_on_def claim_on_def COUNTED_def)
qed

lemma came_back_bounded:
  assumes "returns_ok d" and "l \<in> set (d_order_items d)"
  shows "came_back (oi_order_id l) d (oi_id l) \<le> oi_quantity l"
proof -
  have "came_back (oi_order_id l) d (oi_id l) \<le> used (oi_order_id l) d (oi_id l)"
    unfolding came_back_sum used_sum using assms(1) by (intro sum_list_mono came_within_claim) (simp add: returns_ok_def)
  also have "\<dots> \<le> oi_quantity l" using assms by (simp add: returns_ok_def)
  finally show ?thesis .
qed

lemma request_refund_result:
  assumes "request_refund oid admin pid c d = Inr (rf, b, d1)"
  shows "rf \<in> set (d_refunds d1) \<and> rf_cancels_order rf = c"
  using assms
  by (rule request_refund_cases) (auto simp: refund_booked_def enqueue_def fresh_def Let_def create_refund_Inr)

text \<open>
  Claim C25 (safety). The refund of a return is started only when every unit of the order came back:
  for every line the units received with the order's returns are exactly the units bought. The
  request is then closed as refunded and points to a refund of the shop that does not also cancel the
  order.
\<close>

theorem refund_needs_whole_order:
  assumes "refund_return i admin now d = Inr (x, d')" and "shop_ok d"
  shows "\<exists>r new rf. row rt_id i (d_returns d) = Some r \<and> rt_status r = ''received''
    \<and> (\<forall>l \<in> set (order_items_of (rt_order_id r) d). came_back (rt_order_id r) d (oi_id l) = oi_quantity l)
    \<and> row rt_id i (d_returns d') = Some new \<and> rt_status new = ''closed'' \<and> rt_resolution new = Some ''refunded''
    \<and> rt_refund_id new = Some (rf_id rf) \<and> rf \<in> set (d_refunds d') \<and> \<not> rf_cancels_order rf"
  using assms(1)
proof (rule refund_return_Inr)
  fix r ord rf b d1
  assume r: "row rt_id i (d_returns d) = Some r" "rt_status r = ''received''" and l: "lock_order_for_update (rt_order_id r) d = Inr ord"
    and all: "\<forall>l \<in> set (order_items_of (o_id ord) d). oi_quantity l \<le> came_back (o_id ord) d (oi_id l)"
    and q: "request_refund (o_id ord) admin None False d = Inr (rf, b, d1)"
    and f: "finish_return admin ''refund_requested'' True
       (r\<lparr>rt_status := ''closed'', rt_resolution := Some ''refunded'', rt_refund_id := Some (rf_id rf),
            rt_closed_at := Some now, rt_handled_by_user_id := Some admin\<rparr>) d1 = Inr (x, d')"
  let ?new = "r\<lparr>rt_status := ''closed'', rt_resolution := Some ''refunded'', rt_refund_id := Some (rf_id rf),
            rt_closed_at := Some now, rt_handled_by_user_id := Some admin\<rparr>"
  have oid: "o_id ord = rt_order_id r" using lock_order_Inr(2) [OF l] .
  have "came_back (rt_order_id r) d (oi_id k) = oi_quantity k" if "k \<in> set (order_items_of (rt_order_id r) d)" for k
    using came_back_bounded [OF shop_okD(10) [OF assms(2)], of k] all that by (force simp: oid order_items_of_def)
  moreover have d': "d_returns d' = set_row rt_id ?new (d_returns d)" "d_refunds d' = d_refunds d1"
    using finish_return_frame [OF f] by (simp_all add: request_refund_returns [OF q])
  moreover have "row rt_id i (d_returns d') = Some ?new"
    unfolding d'(1) using r(1) return_row_id [OF r(1)] by (simp add: row_set_row)
  ultimately show ?thesis using r request_refund_result [OF q] by (intro exI [of _ r] exI [of _ ?new] exI [of _ rf]) simp
qed

section \<open>Eligibility\<close>

lemma length_str_strip: "length (str_strip s) \<le> length s"
  unfolding str_strip_def by (metis length_dropWhile_le length_rev order_trans)

lemma length_btrim: "length (btrim s) \<le> length s"
  unfolding btrim_def by (metis length_dropWhile_le length_rev order_trans)

lemma length_clean_text: "clean_text (Some s) = Some t \<Longrightarrow> length t \<le> length s"
  using order_trans [OF length_str_strip length_filter_le] by (auto simp: clean_text_def Let_def split: if_splits)

lemma number_items_checks:
  assumes "list_all (\<lambda>i. 0 < rl_order_item_id i \<and> 0 < rl_quantity i \<and> rl_quantity i \<le> 1000 \<and> rl_reason i \<in> set RETURN_REASONS) ls"
  shows "list_all return_item_checks (number_items n ls)"
  using assms by (induction ls arbitrary: n) (simp_all add: return_item_checks_def)

lemma number_items_lines [simp]: "map ri_order_item_id (number_items n ls) = map rl_order_item_id ls"
  by (induction ls arbitrary: n) simp_all

lemma new_return_checks:
  assumes "ReturnCreate items comment = Inr payload"
  shows "return_checks (new_return i oid user payload now)" and "rq_items payload = items"
proof -
  have p: "payload = \<lparr>rq_items = items, rq_comment = clean_text comment\<rparr>" "distinct (map rl_order_item_id items)"
    "list_all (\<lambda>i. 0 < rl_order_item_id i \<and> 0 < rl_quantity i \<and> rl_quantity i \<le> 1000 \<and> rl_reason i \<in> set RETURN_REASONS) items"
    "case comment of None \<Rightarrow> True | Some c \<Rightarrow> length c \<le> 1000"
    using assms by (simp_all add: ReturnCreate_def split: if_splits)
  have "case clean_text comment of None \<Rightarrow> True | Some c \<Rightarrow> length c \<le> 1000"
    using p(4) length_clean_text by (fastforce simp: clean_text_def split: option.splits)
  then show "return_checks (new_return i oid user payload now)"
    using p(2) number_items_checks [OF p(3)] by (simp add: return_checks_def new_return_def p(1) RETURN_STATUSES_def)
  show "rq_items payload = items" by (simp add: p(1))
qed

lemma check_line_found:
  assumes "check_line (eligibility_items ord d) l = Inr ()"
  shows "\<exists>e \<in> set (eligibility_items ord d). ei_order_item_id e = rl_order_item_id l \<and> rl_quantity l \<le> ei_returnable e"
  using assms by (auto simp: check_line_def split: option.splits dest!: row_SomeD)

lemma check_line_accepts:
  assumes "orders_ok d" and "e \<in> set (eligibility_items ord d)" and "ei_order_item_id e = rl_order_item_id l" and "rl_quantity l \<le> ei_returnable e"
  shows "check_line (eligibility_items ord d) l = Inr ()"
proof -
  have "map ei_order_item_id (eligibility_items ord d) = map oi_id (order_items_of (o_id ord) d)"
    by (simp add: eligibility_items_def)
  moreover have "distinct (map oi_id (order_items_of (o_id ord) d))"
    unfolding order_items_of_def using orders_okD(2) [OF assms(1)] by (rule distinct_map_filter)
  ultimately have "row ei_order_item_id (ei_order_item_id e) (eligibility_items ord d) = Some e"
    using assms(2) by (intro row_in_distinct) simp_all
  with assms(3,4) show ?thesis by (simp add: check_line_def)
qed

lemma accepted_is_read:
  assumes "\<forall>l \<in> set (rq_items payload). check_line (eligibility_items ord d) l = Inr ()" and "d_order_items d' = d_order_items d"
  shows "\<exists>x. read_return False d' (new_return i oid user payload now) = Inr x"
proof -
  have "\<exists>z. read_item False d' y = Inr z" if y: "y \<in> set (rt_items (new_return i oid user payload now))" for y
  proof -
    obtain l where "l \<in> set (rq_items payload)" "ri_order_item_id y = rl_order_item_id l"
      using number_items_In [of y "i + 1" "rq_items payload"] y by (auto simp: new_return_def)
    with assms(1) check_line_found obtain e where "e \<in> set (eligibility_items ord d)" "ei_order_item_id e = ri_order_item_id y" by metis
    then have "ri_order_item_id y \<in> oi_id ` set (d_order_items d')" by (force simp: eligibility_items_def order_items_of_def assms(2))
    then have "row oi_id (ri_order_item_id y) (d_order_items d') \<noteq> None" by (simp add: row_None_iff)
    then show ?thesis by (auto simp: read_item_def)
  qed
  then have "\<forall>y \<in> set (rt_items (new_return i oid user payload now)). \<exists>z. read_item False d' y = Inr z" by blast
  from rmap_total [OF this] obtain zs where "rmap (read_item False d') (rt_items (new_return i oid user payload now)) = Inr zs" ..
  then show ?thesis by (simp add: read_return_def)
qed

lemma eligible_request_succeeds:
  assumes "get_order_by_id oid d = Some ord" and "o_user_id ord = Some user" and "el_eligible (eligibility window ord now d)"
    and "ReturnCreate items comment = Inr payload" and "\<forall>l \<in> set items. check_line (eligibility_items ord d) l = Inr ()"
  shows "\<exists>x d'. create_return window user oid payload now d = Inr (x, d')"
proof -
  note c = new_return_checks [OF assms(4)]
  let ?ret = "new_return (d_next d) (o_id ord) user payload now"
  let ?d = "log_return user ''requested'' ?ret (d\<lparr>d_next := d_next d + 1 + int (length (rq_items payload)), d_returns := d_returns d @ [?ret]\<rparr>)"
  have el: "el_items (eligibility window ord now d) = eligibility_items ord d" by (simp add: eligibility_def Let_def split: prod.split)
  have "\<forall>l \<in> set items. \<exists>u. check_line (eligibility_items ord d) l = Inr u" using assms(5) by blast
  from rmap_total [OF this] obtain us where us: "rmap (check_line (eligibility_items ord d)) items = Inr us" ..
  have "\<forall>l \<in> set (rq_items payload). check_line (eligibility_items ord d) l = Inr ()" using assms(5) c(2) by simp
  from accepted_is_read [OF this, of ?d] obtain x where "read_return False ?d ?ret = Inr x" unfolding log_return_def by force
  then have "create_return window user oid payload now d = Inr (x, ?d)"
    using assms(1-3) us c by (simp add: create_return_def lock_order_for_update_def el insert_return_def Let_def new_return_def)
  then show ?thesis by blast
qed

lemma refused_request_code:
  assumes "get_order_by_id oid d = Some ord" and "o_user_id ord = Some user" and "\<not> el_eligible (eligibility window ord now d)"
  shows "\<exists>e. create_return window user oid payload now d = Inl e \<and> el_reason_code (eligibility window ord now d) = Some (return_code e)"
  using assms
  by (auto simp: create_return_def lock_order_for_update_def eligibility_def Let_def return_code_def split: if_splits)

text \<open>
  Claim C29 (equivalence). What the shop answers when a customer asks whether an order can be returned
  is what a request made at that moment gets: not eligible means that every valid request fails with
  the announced reason, and eligible means that a valid request succeeds exactly when each of its
  lines is a line of the order and asks for at most the announced returnable quantity.
\<close>

theorem eligibility_announces_request:
  assumes "order_eligibility window user oid now d = Inr el" and "ReturnCreate items comment = Inr payload" and "shop_ok d"
  shows "(\<not> el_eligible el \<longrightarrow> (\<exists>e. run_return window (RequestReturn user oid items comment) now d = Inl e
            \<and> el_reason_code el = Some (return_code e)))
    \<and> (el_eligible el \<longrightarrow> ((\<exists>x d'. run_return window (RequestReturn user oid items comment) now d = Inr (x, d'))
         \<longleftrightarrow> (\<forall>l \<in> set items. \<exists>e \<in> set (el_items el). ei_order_item_id e = rl_order_item_id l \<and> rl_quantity l \<le> ei_returnable e)))"
proof -
  obtain ord where ord: "get_order_by_id oid d = Some ord" "o_user_id ord = Some user" and el: "el = eligibility window ord now d"
    using assms(1) by (auto simp: order_eligibility_def split: option.splits if_splits)
  have items: "el_items el = eligibility_items ord d" by (simp add: el eligibility_def Let_def split: prod.split)
  have run: "run_return window (RequestReturn user oid items comment) now d = create_return window user oid payload now d"
    by (simp add: assms(2))
  have "(\<forall>l \<in> set items. \<exists>e \<in> set (el_items el). ei_order_item_id e = rl_order_item_id l \<and> rl_quantity l \<le> ei_returnable e)
      \<longleftrightarrow> (\<forall>l \<in> set items. check_line (eligibility_items ord d) l = Inr ())"
    unfolding items using check_line_found check_line_accepts [OF shop_okD(4) [OF assms(3)]] by blast
  moreover have "\<forall>l \<in> set items. check_line (eligibility_items ord d) l = Inr ()" if "create_return window user oid payload now d = Inr (x, d')" for x d'
    using that by (rule create_return_Inr) (use ord new_return_checks(2) [OF assms(2)] in \<open>auto simp: lock_order_for_update_def\<close>)
  ultimately show ?thesis
    unfolding run using refused_request_code [OF ord] eligible_request_succeeds [OF ord _ assms(2)] el by blast
qed

section \<open>Two weak spots\<close>

text \<open>
  The length of a rejection reason is checked before it is cleaned: a reason of three
  or more characters of which fewer than three remain (blanks, control characters) passes the
  request's validation and is then refused by the database's own constraint, not as invalid input.
\<close>

theorem short_reason_hits_database:
  assumes "row rt_id i (d_returns d) = Some r" and "rt_status r = ''requested''" and "3 \<le> length s" and "length s \<le> 300"
    and "case clean_text (Some s) of None \<Rightarrow> True | Some t \<Rightarrow> length t < 3"
  shows "run_return window (RejectReturn i admin s) now d = Inl (IntegrityError ''return_requests'')"
proof -
  obtain t where t: "ReturnReject s = Inr t" "length t < 3"
    using assms(3-5) by (auto simp: ReturnReject_def bounded_note_def split: option.splits)
  then have "length (btrim t) < 3" using length_btrim [of t] by simp
  then show ?thesis
    using assms(1,2) t(1) by (simp add: reject_return_def get_return_def finish_return_def flush_return_def return_checks_def)
qed

text \<open>
  Claim C36 (error). Recording a shipment with the wish to fulfil the order skips a check that
  fulfilling it directly makes: a paid order whose cancelling refund is under way cannot be fulfilled
  by an administrator, but a shipment marks it fulfilled all the same.
\<close>

theorem shipment_ignores_cancelling_refund:
  assumes "create_shipment oid payload admin ck d = Inr (s, d')" and "sc_fulfill_order payload"
    and "row o_id oid (d_orders d) = Some ord" and "o_status ord = PAID" and "has_cancelling_refund oid d"
  shows "fulfil_order oid admin ck d = Inl StatusChangeNotAllowed
    \<and> (\<exists>new. row o_id oid (d_orders d') = Some new \<and> o_status new = FULFILLED) \<and> has_cancelling_refund oid d'"
proof -
  have l: "lock_order_for_update oid d = Inr ord" using assms(3) by (simp add: lock_order_for_update_def get_order_by_id_def)
  have oid: "o_id ord = oid" using lock_order_Inr(2) [OF l] .
  obtain d1 d2 ord1 d3 r where a: "d1 = d\<lparr>d_next := d_next d + 1, d_shipments := d_shipments d @ [s]\<rparr>"
    and u: "update_status ord FULFILLED (Some admin) None (ck_now ck) d1 = Inr (ord1, d2)"
    and i: "issue_invoice (ck_today ck) False ord1 d2 = Inr (r, d3)"
    and d': "d' = audit_log (Some admin) ''shipment.created'' ''order'' [KI (o_id ord)] d3"
    using assms(1,2,4) l
    by (auto simp: create_shipment_def fulfil_with_shipment_def add_shipment_def fresh_def res_simps Let_def ALLOWED_TRANSITIONS_def split: if_splits)
  have bk: "d_orders d3 = d_orders d2" "d_refunds d3 = d_refunds d2" using bk_issue_invoice [OF i] by (simp_all add: bookkeeping_def)
  have "row o_id (o_id ord) (d_orders d1) = Some ord" using assms(3) oid by (simp add: a)
  from update_status_writes [OF u this] have "row o_id oid (d_orders d2) = Some (ord\<lparr>o_status := FULFILLED\<rparr>)" using oid by simp
  moreover have "d_refunds d2 = d_refunds d"
    using u by (auto simp: update_status_def Let_def flush_order_def res_simps a split: option.splits)
  ultimately show ?thesis
    using l assms(4,5) oid bk by (simp add: d' fulfil_order_def has_cancelling_refund_def)
qed

section \<open>Witnesses\<close>

text \<open>A paid and shipped order of two shirts, and the calls that bring both back.\<close>

definition sample_shipped :: db where
  "sample_shipped = sample_life\<lparr>d_orders := [sample_paid_order FULFILLED None], d_payments := [sample_payment PaySucceeded], d_refunds := []\<rparr>"

definition run_calls :: "return_request_call list \<Rightarrow> db \<Rightarrow> (shop_error, db) result" where
  "run_calls = rfold (\<lambda>call d. rbind (run_return 7 call 5 d) (\<lambda>(_, d). Inr d))"

lemma run_calls_run: "run_calls calls d = Inr d' \<Longrightarrow> shop_run d d'"
proof (induction calls arbitrary: d)
  case (Cons call calls)
  then obtain x d1 where c: "run_return 7 call 5 d = Inr (x, d1)" and "run_calls calls d1 = Inr d'"
    by (auto simp: run_calls_def res_simps)
  then show ?case using Cons.IH by (blast intro: converse_rtranclp_into_rtranclp returns)
qed (simp add: run_calls_def)

definition asks :: return_request_call where
  "asks = RequestReturn 7 9 [\<lparr>rl_order_item_id = 10, rl_quantity = 2, rl_reason = ''damaged''\<rparr>] None"

definition arrives :: "receive_item list" where
  "arrives = [\<lparr>rv_order_item_id = 10, rv_received_quantity = 2, rv_restock = True, rv_condition_note = None\<rparr>]"

definition after_calls :: "return_request_call list \<Rightarrow> db" where
  "after_calls calls = (case run_calls calls sample_shipped of Inl _ \<Rightarrow> sample_shipped | Inr d \<Rightarrow> d)"

lemma sample_shipped_ok: "shop_ok sample_shipped" "shipments_ok sample_shipped" "known_unit sample_shipped (UnitP 1)"
  by code_simp+

lemma after_calls_run: "shop_run sample_shipped (after_calls calls)"
  using run_calls_run by (auto simp: after_calls_def split: sum.split)

lemma after_calls_ok: "shop_ok (after_calls calls)"
  using run_keeps(2) [OF after_calls_run sample_shipped_ok(1)] .

theorem returns_within_purchase_witness:
  "\<exists>d' i. shop_run sample_shipped d' \<and> i \<in> set (d_order_items d') \<and> used 9 d' (oi_id i) = 2 \<and> used 9 d' (oi_id i) \<le> oi_quantity i"
proof -
  let ?d = "after_calls [asks]"
  have "d_order_items ?d = [sample_sold_item]" "used 9 ?d 10 = 2" by code_simp+
  with returns_within_purchase [OF after_calls_run sample_shipped_ok(1), of "[asks]"] after_calls_run show ?thesis
    by (intro exI [of _ ?d] exI [of _ sample_sold_item]) (simp add: sample_sold_item_def)
qed

theorem return_follows_machine_witness:
  "\<exists>d d' r new. shop_run d d' \<and> row rt_id 100 (d_returns d) = Some r \<and> row rt_id 100 (d_returns d') = Some new
     \<and> rt_status r = ''requested'' \<and> rt_status new = ''approved'' \<and> return_step\<^sup>*\<^sup>* (rt_status r) (rt_status new)"
proof -
  let ?d = "after_calls [asks]" and ?call = "ApproveReturn 100 3 None"
  have 1: "map_option rt_status (row rt_id 100 (d_returns ?d)) = Some ''requested''" by code_simp
  have 2: "case run_return 7 ?call 5 ?d of Inl _ \<Rightarrow> False
      | Inr (_, d') \<Rightarrow> map_option rt_status (row rt_id 100 (d_returns d')) = Some ''approved''" by code_simp
  obtain r where r: "row rt_id 100 (d_returns ?d) = Some r" "rt_status r = ''requested''" using 1 by auto
  obtain x d' new where c: "run_return 7 ?call 5 ?d = Inr (x, d')" "row rt_id 100 (d_returns d') = Some new" "rt_status new = ''approved''"
    using 2 by (auto split: sum.splits)
  have run: "shop_run ?d d'" by (intro r_into_rtranclp returns [OF c(1)])
  from return_follows_machine [OF this after_calls_ok r(1)] c(2) have "return_step\<^sup>*\<^sup>* (rt_status r) (rt_status new)" by auto
  with run r c(2,3) show ?thesis by (intro exI [of _ ?d] exI [of _ d'] exI [of _ r] exI [of _ new]) simp
qed

definition sample_parcel :: shipment_create where
  "sample_parcel = \<lparr>sc_carrier_name = ''Delhivery'', sc_tracking_number = Some ''AB1'', sc_tracking_url = None, sc_fulfill_order = True\<rparr>"

theorem parcels_sound_witness:
  "\<exists>d' s. shop_run sample_shipped d' \<and> s \<in> set (d_shipments d') \<and> sh_tracking_number s = Some ''AB1'' \<and> sh_delivered_at s = None"
proof -
  have "case create_shipment 9 sample_parcel 3 sample_clock sample_shipped of Inl _ \<Rightarrow> False
    | Inr (s, d') \<Rightarrow> d_shipments d' = [s] \<and> sh_tracking_number s = Some ''AB1'' \<and> sh_status s = ''shipped''" by code_simp
  then obtain s d' where c: "create_shipment 9 sample_parcel 3 sample_clock sample_shipped = Inr (s, d')"
    and s: "d_shipments d' = [s]" "sh_tracking_number s = Some ''AB1''" "sh_status s = ''shipped''"
    by (auto split: sum.splits)
  have "shop_run sample_shipped d'" by (intro r_into_rtranclp ships [OF c])
  with parcels_sound [OF this sample_shipped_ok(1,2), of s] s show ?thesis by (intro exI [of _ d'] exI [of _ s]) simp
qed

theorem receive_moves_what_it_records_witness:
  "\<exists>x d'. receive_return 100 3 arrives 5 (after_calls [asks, ApproveReturn 100 3 None]) = Inr (x, d') \<and> unit_stock d' (UnitP 1) = 10
     \<and> (\<exists>new. row rt_id 100 (d_returns d') = Some new \<and> rt_status new = ''received'')"
proof -
  let ?d = "after_calls [asks, ApproveReturn 100 3 None]"
  have "case receive_return 100 3 arrives 5 ?d of Inl _ \<Rightarrow> False | Inr (_, d') \<Rightarrow> unit_stock d' (UnitP 1) = 10" by code_simp
  then obtain x d' where c: "receive_return 100 3 arrives 5 ?d = Inr (x, d')" "unit_stock d' (UnitP 1) = 10"
    by (auto split: sum.splits)
  have "known_unit ?d (UnitP 1)" by code_simp
  from receive_moves_what_it_records [OF c(1) after_calls_ok this] c show ?thesis by blast
qed

theorem refund_needs_whole_order_witness:
  "\<exists>x d' new. refund_return 100 3 5 (after_calls [asks, ApproveReturn 100 3 None, ReceiveReturn 100 3 arrives]) = Inr (x, d')
     \<and> row rt_id 100 (d_returns d') = Some new \<and> rt_resolution new = Some ''refunded'' \<and> d_refunds d' \<noteq> []"
proof -
  let ?d = "after_calls [asks, ApproveReturn 100 3 None, ReceiveReturn 100 3 arrives]"
  have "case refund_return 100 3 5 ?d of Inl _ \<Rightarrow> False | Inr _ \<Rightarrow> True" by code_simp
  then obtain x d' where c: "refund_return 100 3 5 ?d = Inr (x, d')" by (auto split: sum.splits)
  from refund_needs_whole_order [OF c after_calls_ok] c show ?thesis by auto
qed

theorem eligibility_announces_request_witness:
  "\<exists>el x d'. order_eligibility 7 7 9 5 sample_shipped = Inr el \<and> el_eligible el \<and> run_return 7 asks 5 sample_shipped = Inr (x, d')"
proof -
  let ?items = "[\<lparr>rl_order_item_id = 10, rl_quantity = 2, rl_reason = ''damaged''\<rparr>]"
  have "case order_eligibility 7 7 9 5 sample_shipped of Inl _ \<Rightarrow> False
    | Inr el \<Rightarrow> el_eligible el \<and> map (\<lambda>e. (ei_order_item_id e, ei_returnable e)) (el_items el) = [(10, 2)]" by code_simp
  then obtain el where el: "order_eligibility 7 7 9 5 sample_shipped = Inr el" "el_eligible el"
    "map (\<lambda>e. (ei_order_item_id e, ei_returnable e)) (el_items el) = [(10, 2)]" by (auto split: sum.splits)
  have "case ReturnCreate ?items None of Inl _ \<Rightarrow> False | Inr _ \<Rightarrow> True" by code_simp
  then obtain payload where p: "ReturnCreate ?items None = Inr payload" by (auto split: sum.splits)
  have "\<exists>e \<in> set (el_items el). ei_order_item_id e = 10 \<and> 2 \<le> ei_returnable e" using el(3) by auto
  with eligibility_announces_request [OF el(1) p sample_shipped_ok(1)] el(1,2) show ?thesis by (auto simp: asks_def)
qed

theorem short_reason_hits_database_witness:
  "run_return 7 (RejectReturn 100 3 ''   '') 5 (after_calls [asks]) = Inl (IntegrityError ''return_requests'')"
proof -
  have "map_option rt_status (row rt_id 100 (d_returns (after_calls [asks]))) = Some ''requested''" by code_simp
  then obtain r where r: "row rt_id 100 (d_returns (after_calls [asks])) = Some r" "rt_status r = ''requested''" by auto
  have "clean_text (Some ''   '') = None" by code_simp
  then show ?thesis by (intro short_reason_hits_database [OF r]) simp_all
qed

definition sample_cancelling :: db where
  "sample_cancelling = sample_life\<lparr>d_orders := [sample_paid_order PAID None], d_payments := [sample_payment PaySucceeded],
     d_refunds := [sample_refund\<lparr>rf_status := RefPending\<rparr>]\<rparr>"

theorem shipment_ignores_cancelling_refund_witness:
  "\<exists>s d' new. create_shipment 9 sample_parcel 3 sample_clock sample_cancelling = Inr (s, d')
     \<and> fulfil_order 9 3 sample_clock sample_cancelling = Inl StatusChangeNotAllowed
     \<and> row o_id 9 (d_orders d') = Some new \<and> o_status new = FULFILLED"
proof -
  have "case create_shipment 9 sample_parcel 3 sample_clock sample_cancelling of Inl _ \<Rightarrow> False | Inr _ \<Rightarrow> True" by code_simp
  then obtain s d' where c: "create_shipment 9 sample_parcel 3 sample_clock sample_cancelling = Inr (s, d')" by (auto split: sum.splits)
  have "row o_id 9 (d_orders sample_cancelling) = Some (sample_paid_order PAID None)" "has_cancelling_refund 9 sample_cancelling"
    by (simp_all add: sample_cancelling_def sample_paid_order_def sample_refund_def has_cancelling_refund_def)
  from shipment_ignores_cancelling_refund [OF c _ this(1) _ this(2)] c show ?thesis
    by (auto simp: sample_parcel_def sample_paid_order_def)
qed

end
