(* ===== verification/Accounts.thy ===== *)
theory Accounts
  imports Lifecycle
begin

text \<open>
  Accounts and sessions: the models, repository, services, jobs and routes of \<open>modules/auth\<close> with the
  token functions of \<open>core/security.py\<close>. The state \<open>site\<close> adds the account tables to the shop's
  database; \<open>put_users\<close> keeps the two columns of \<open>users\<close> that the shop reads in step. The JSON web token
  library, the password hash, SHA-256 and the random secrets are fields of \<open>auth_env\<close>.
\<close>

section \<open>Tables\<close>

datatype user_role = USER | ADMIN

record user =
  u_id :: int
  u_username :: string
  u_email :: string
  u_password_hash :: string
  u_role :: user_role
  u_is_active :: bool
  u_email_verified_at :: "int option"
  u_created_at :: int

record refresh_token =
  tk_id :: int
  tk_jti :: key_part
  tk_user_id :: int
  tk_family_id :: int
  tk_expires_at :: int
  tk_revoked :: bool
  tk_rotated_at :: "int option"
  tk_grace_replays :: int

record auth_token =
  at_id :: int
  at_user_id :: int
  at_purpose :: string
  at_token_hash :: string
  at_email :: string
  at_expires_at :: int
  at_used_at :: "int option"
  at_created_at :: int

record staff_role =
  sr_id :: int
  sr_name :: string
  sr_description :: "string option"
  sr_permissions :: "string list"
  sr_is_system :: bool

record staff_assignment =
  sa_user_id :: int
  sa_role_id :: int
  sa_assigned_by :: "int option"

text \<open>An email handed to the sender: which template, with the secret or address it carries.\<close>

datatype letter =
  PasswordResetMail string
| EmailVerificationMail string
| EmailChangeConfirmation string
| EmailChangeRequested string
| EmailChangedMail string
| PasswordChangedMail

record site =
  st_shop :: db
  st_users :: "user list"
  st_refresh_tokens :: "refresh_token list"
  st_auth_tokens :: "auth_token list"
  st_roles :: "staff_role list"
  st_assignments :: "staff_assignment list"
  st_outbox :: "(string \<times> letter) list"

datatype account_error =
  EmailAlreadyExists string
| UsernameAlreadyExists string
| InvalidCredentials
| InvalidRefreshToken
| InvalidAccountToken
| CurrentPasswordIncorrect
| SamePassword
| Unauthorized
| AdminRequired
| UserNotFound int
| LastAdmin
| ForbiddenAction string
| PermissionDenied string
| RoleNotFound
| RoleNameTaken
| SystemRole
| RoleInUse nat
| StaffMemberNotFound
| LastRoleManager
| ShopError shop_error
| Constraint string
| MissingClaim
| InvalidRequest
| EmailNotSent

section \<open>Code outside the repository and the settings\<close>

text \<open>
  The claims of a token. \<open>sub\<close> and \<open>jti\<close> are the texts of UUIDs (\<open>KI\<close>) or any other text (\<open>KS\<close>);
  \<open>iat\<close> and \<open>exp\<close> are whole seconds, as the library writes a \<open>datetime\<close>.
\<close>

record claims =
  cl_sub :: key_part
  cl_type :: "string option"
  cl_iat :: int
  cl_exp :: int
  cl_jti :: "key_part option"

record auth_env =
  ev_encode :: "claims \<Rightarrow> string"
  ev_decode :: "int \<Rightarrow> string \<Rightarrow> claims option"
  ev_unverified :: "string \<Rightarrow> claims option"
  ev_hash_password :: "int \<Rightarrow> string \<Rightarrow> string"
  ev_verify_password :: "string \<Rightarrow> string \<Rightarrow> bool"
  ev_sha256 :: "string \<Rightarrow> string"
  ev_random :: "int \<Rightarrow> string"
  ev_sends :: "string \<Rightarrow> letter \<Rightarrow> bool"
  access_token_expire_minutes :: int
  refresh_token_expire_days :: int
  refresh_reuse_grace_seconds :: int
  refresh_reuse_grace_max_replays :: int
  password_reset_token_minutes :: int
  email_verification_token_hours :: int
  email_change_token_minutes :: int
  password_reset_emails_per_hour :: int

abbreviation second :: int where "second \<equiv> 1000000"
abbreviation minute :: int where "minute \<equiv> 60 * second"
abbreviation hour :: int where "hour \<equiv> 60 * minute"
abbreviation day :: int where "day \<equiv> 24 * hour"

section \<open>Writing the tables\<close>

definition fresh_id :: "site \<Rightarrow> int \<times> site" where
  "fresh_id s = (let (i, d) = fresh (st_shop s) in (i, s\<lparr>st_shop := d\<rparr>))"

definition put_users :: "user list \<Rightarrow> site \<Rightarrow> site" where
  "put_users us s = s\<lparr>st_users := us, st_shop := (st_shop s)\<lparr>d_users := map (\<lambda>u. (u_id u, u_email u)) us\<rparr>\<rparr>"

text \<open>The unique columns of \<open>users\<close>; a row is not compared with itself.\<close>

definition user_unique :: "user \<Rightarrow> site \<Rightarrow> bool" where
  "user_unique u s \<longleftrightarrow> \<not> list_ex (\<lambda>x. u_id x \<noteq> u_id u \<and> (u_username x = u_username u \<or> u_email x = u_email u)) (st_users s)"

definition flush_user :: "user \<Rightarrow> site \<Rightarrow> (account_error, site) result" where
  "flush_user u s = (if user_unique u s then Inr (put_users (set_row u_id u (st_users s)) s) else Inl (Constraint ''users''))"

definition site_audit :: "int option \<Rightarrow> string \<Rightarrow> string \<Rightarrow> key \<Rightarrow> site \<Rightarrow> site" where
  "site_audit actor action target_type target s = s\<lparr>st_shop := audit_log actor action target_type target (st_shop s)\<rparr>"

definition site_enqueue :: "string \<Rightarrow> key \<Rightarrow> key option \<Rightarrow> site \<Rightarrow> site" where
  "site_enqueue job_type payload dedupe_key s = s\<lparr>st_shop := enqueue job_type payload dedupe_key (st_shop s)\<rparr>"

section \<open>The repository\<close>

definition get_user_by_id :: "int \<Rightarrow> site \<Rightarrow> user option" where
  "get_user_by_id i s = row u_id i (st_users s)"

definition get_user_by_email :: "string \<Rightarrow> site \<Rightarrow> user option" where
  "get_user_by_email email s = row u_email email (st_users s)"

definition find_user_by_email_ci :: "string \<Rightarrow> site \<Rightarrow> user option" where
  "find_user_by_email_ci email s =
     (case get_user_by_email email s of
        Some u \<Rightarrow> Some u
      | None \<Rightarrow> (case sort_key u_created_at (filter (\<lambda>u. str_lower (u_email u) = str_lower email) (st_users s)) of
                  [] \<Rightarrow> None | u # _ \<Rightarrow> Some u))"

definition get_user_by_username :: "string \<Rightarrow> site \<Rightarrow> user option" where
  "get_user_by_username username s = row u_username username (st_users s)"

definition create_user :: "string \<Rightarrow> string \<Rightarrow> string \<Rightarrow> int \<Rightarrow> site \<Rightarrow> (account_error, user \<times> site) result" where
  "create_user username email password_hash now s =
     (let (i, s) = fresh_id s;
          u = \<lparr>u_id = i, u_username = username, u_email = email, u_password_hash = password_hash, u_role = USER,
               u_is_active = True, u_email_verified_at = None, u_created_at = now\<rparr>
      in if user_unique u s then Inr (u, put_users (st_users s @ [u]) s) else Inl (Constraint ''users''))"

text \<open>Without a \<open>family_id\<close> the token starts a family of its own.\<close>

definition store_refresh_token :: "int \<Rightarrow> key_part \<Rightarrow> int \<Rightarrow> int option \<Rightarrow> site \<Rightarrow> (account_error, site) result" where
  "store_refresh_token user_id jti expires_at family_id s =
     (let (i, s) = fresh_id s;
          (f, s) = (case family_id of Some f \<Rightarrow> (f, s) | None \<Rightarrow> fresh_id s);
          t = \<lparr>tk_id = i, tk_jti = jti, tk_user_id = user_id, tk_family_id = f, tk_expires_at = expires_at,
               tk_revoked = False, tk_rotated_at = None, tk_grace_replays = 0\<rparr>
      in if jti \<in> tk_jti ` set (st_refresh_tokens s) then Inl (Constraint ''refresh_tokens.jti'')
         else Inr (s\<lparr>st_refresh_tokens := st_refresh_tokens s @ [t]\<rparr>))"

definition get_refresh_token_by_jti :: "key_part option \<Rightarrow> site \<Rightarrow> refresh_token option" where
  "get_refresh_token_by_jti jti s = Option.bind jti (\<lambda>j. row tk_jti j (st_refresh_tokens s))"

definition put_token :: "refresh_token \<Rightarrow> site \<Rightarrow> site" where
  "put_token t s = s\<lparr>st_refresh_tokens := set_row tk_id t (st_refresh_tokens s)\<rparr>"

definition revoke_refresh_token :: "refresh_token \<Rightarrow> site \<Rightarrow> site" where
  "revoke_refresh_token t s = put_token (t\<lparr>tk_revoked := True\<rparr>) s"

definition rotate_refresh_token :: "refresh_token \<Rightarrow> int \<Rightarrow> site \<Rightarrow> site" where
  "rotate_refresh_token t now s = put_token (t\<lparr>tk_revoked := True, tk_rotated_at := Some now\<rparr>) s"

definition record_grace_replay :: "refresh_token \<Rightarrow> site \<Rightarrow> site" where
  "record_grace_replay t s = put_token (t\<lparr>tk_grace_replays := tk_grace_replays t + 1\<rparr>) s"

definition family_has_active_token :: "int \<Rightarrow> site \<Rightarrow> bool" where
  "family_has_active_token f s = list_ex (\<lambda>t. tk_family_id t = f \<and> \<not> tk_revoked t) (st_refresh_tokens s)"

definition revoke_where :: "(refresh_token \<Rightarrow> bool) \<Rightarrow> site \<Rightarrow> site" where
  "revoke_where P s = s\<lparr>st_refresh_tokens := map (\<lambda>t. if P t \<and> \<not> tk_revoked t then t\<lparr>tk_revoked := True\<rparr> else t) (st_refresh_tokens s)\<rparr>"

definition revoke_family :: "int \<Rightarrow> site \<Rightarrow> site" where
  "revoke_family f = revoke_where (\<lambda>t. tk_family_id t = f)"

definition revoke_all_refresh_tokens :: "int \<Rightarrow> site \<Rightarrow> site" where
  "revoke_all_refresh_tokens user_id = revoke_where (\<lambda>t. tk_user_id t = user_id)"

subsection \<open>Emailed single-use tokens\<close>

definition create_auth_token :: "int \<Rightarrow> string \<Rightarrow> string \<Rightarrow> string \<Rightarrow> int \<Rightarrow> int \<Rightarrow> site \<Rightarrow> (account_error, site) result" where
  "create_auth_token user_id purpose token_hash email expires_at now s =
     (let (i, s) = fresh_id s;
          t = \<lparr>at_id = i, at_user_id = user_id, at_purpose = purpose, at_token_hash = token_hash, at_email = email,
               at_expires_at = expires_at, at_used_at = None, at_created_at = now\<rparr>
      in if token_hash \<in> at_token_hash ` set (st_auth_tokens s) then Inl (Constraint ''auth_tokens.token_hash'')
         else Inr (s\<lparr>st_auth_tokens := st_auth_tokens s @ [t]\<rparr>))"

definition consumable :: "string \<Rightarrow> string \<Rightarrow> int \<Rightarrow> auth_token \<Rightarrow> bool" where
  "consumable token_hash purpose now t \<longleftrightarrow>
     at_token_hash t = token_hash \<and> at_purpose t = purpose \<and> at_used_at t = None \<and> now < at_expires_at t"

definition use_where :: "(auth_token \<Rightarrow> bool) \<Rightarrow> int \<Rightarrow> site \<Rightarrow> site" where
  "use_where P now s = s\<lparr>st_auth_tokens := map (\<lambda>t. if P t then t\<lparr>at_used_at := Some now\<rparr> else t) (st_auth_tokens s)\<rparr>"

text \<open>One UPDATE with RETURNING; the hash is unique, so at most one row matches.\<close>

definition consume_auth_token :: "string \<Rightarrow> string \<Rightarrow> int \<Rightarrow> site \<Rightarrow> (int \<times> string) option \<times> site" where
  "consume_auth_token token_hash purpose now s =
     (map_option (\<lambda>t. (at_user_id t, at_email t)) (find (consumable token_hash purpose now) (st_auth_tokens s)),
      use_where (consumable token_hash purpose now) now s)"

definition invalidate_auth_tokens :: "int \<Rightarrow> string list \<Rightarrow> int \<Rightarrow> site \<Rightarrow> site" where
  "invalidate_auth_tokens user_id purposes now =
     use_where (\<lambda>t. at_user_id t = user_id \<and> at_purpose t \<in> set purposes \<and> at_used_at t = None) now"

definition count_recent_auth_tokens :: "int \<Rightarrow> string \<Rightarrow> int \<Rightarrow> site \<Rightarrow> int" where
  "count_recent_auth_tokens user_id purpose since s =
     int (length (filter (\<lambda>t. at_user_id t = user_id \<and> at_purpose t = purpose \<and> since \<le> at_created_at t) (st_auth_tokens s)))"

section \<open>Tokens\<close>

text \<open>\<open>_create_token\<close>: a refresh token carries a random identifier.\<close>

definition create_access_token :: "auth_env \<Rightarrow> key_part \<Rightarrow> int \<Rightarrow> string" where
  "create_access_token env subject now =
     ev_encode env \<lparr>cl_sub = subject, cl_type = Some ''access'', cl_iat = now div second,
       cl_exp = (now + access_token_expire_minutes env * minute) div second, cl_jti = None\<rparr>"

definition create_refresh_token :: "auth_env \<Rightarrow> key_part \<Rightarrow> int \<Rightarrow> site \<Rightarrow> string \<times> site" where
  "create_refresh_token env subject now s =
     (let (j, s) = fresh_id s in
      (ev_encode env \<lparr>cl_sub = subject, cl_type = Some ''refresh'', cl_iat = now div second,
         cl_exp = (now + refresh_token_expire_days env * day) div second, cl_jti = Some (KI j)\<rparr>, s))"

text \<open>The identifier and expiry of the token just made, read back for its row.\<close>

definition minted :: "auth_env \<Rightarrow> string \<Rightarrow> (account_error, key_part \<times> int) result" where
  "minted env token =
     (case ev_unverified env token of
        None \<Rightarrow> Inl MissingClaim
      | Some c \<Rightarrow> (case cl_jti c of None \<Rightarrow> Inl MissingClaim | Some j \<Rightarrow> Inr (j, cl_exp c * second)))"

section \<open>\<open>AuthService\<close>\<close>

type_synonym token_pair = "string \<times> string"

definition auth_register :: "auth_env \<Rightarrow> string \<Rightarrow> string \<Rightarrow> string \<Rightarrow> int \<Rightarrow> site \<Rightarrow> (account_error, user \<times> site) result" where
  "auth_register env username email password now s =
     (if get_user_by_email email s \<noteq> None then Inl (EmailAlreadyExists email)
      else if get_user_by_username username s \<noteq> None then Inl (UsernameAlreadyExists username)
      else let (salt, s) = fresh_id s in create_user username email (ev_hash_password env salt password) now s)"

definition issue_tokens :: "auth_env \<Rightarrow> user \<Rightarrow> int \<Rightarrow> site \<Rightarrow> (account_error, token_pair \<times> site) result" where
  "issue_tokens env u now s =
     (let access = create_access_token env (KI (u_id u)) now;
          (refresh, s) = create_refresh_token env (KI (u_id u)) now s
      in rbind (minted env refresh) (\<lambda>(jti, expires_at).
         rbind (store_refresh_token (u_id u) jti expires_at None s) (\<lambda>s.
         Inr ((access, refresh), s))))"

definition auth_login :: "auth_env \<Rightarrow> string \<Rightarrow> string \<Rightarrow> int \<Rightarrow> site \<Rightarrow> (account_error, token_pair \<times> site) result" where
  "auth_login env email password now s =
     (case get_user_by_email email s of
        None \<Rightarrow> Inl InvalidCredentials
      | Some u \<Rightarrow>
          if \<not> ev_verify_password env password (u_password_hash u) then Inl InvalidCredentials
          else if \<not> u_is_active u then Inl InvalidCredentials
          else issue_tokens env u now s)"

definition is_benign_replay :: "auth_env \<Rightarrow> refresh_token \<Rightarrow> int \<Rightarrow> site \<Rightarrow> bool" where
  "is_benign_replay env stored now s \<longleftrightarrow>
     \<not> refresh_reuse_grace_seconds env \<le> 0
     \<and> (case tk_rotated_at stored of None \<Rightarrow> False | Some r \<Rightarrow> \<not> now - r > refresh_reuse_grace_seconds env * second)
     \<and> \<not> tk_grace_replays stored \<ge> refresh_reuse_grace_max_replays env
     \<and> family_has_active_token (tk_family_id stored) s"

text \<open>The new pair of a rotation or an accepted replay, in the family of the token presented.\<close>

definition reissue :: "auth_env \<Rightarrow> key_part \<Rightarrow> refresh_token \<Rightarrow> int \<Rightarrow> site \<Rightarrow> (account_error, token_pair \<times> site) result" where
  "reissue env subject stored now s =
     (let access = create_access_token env subject now;
          (refresh, s) = create_refresh_token env subject now s
      in rbind (minted env refresh) (\<lambda>(jti, expires_at).
         rbind (store_refresh_token (tk_user_id stored) jti expires_at (Some (tk_family_id stored)) s) (\<lambda>s.
         Inr ((access, refresh), s))))"

text \<open>
  \<open>refresh\<close> answers with the state it leaves behind: the revocation of a family after a detected reuse
  is committed before the request fails, every other failure leaves the database as it was.
\<close>

definition refresh_checked :: "auth_env \<Rightarrow> claims \<Rightarrow> refresh_token \<Rightarrow> bool \<Rightarrow> int \<Rightarrow> site \<Rightarrow> (account_error, token_pair \<times> site) result" where
  "refresh_checked env payload stored again now s =
     (if tk_expires_at stored < now then Inl InvalidRefreshToken
      else case get_user_by_id (tk_user_id stored) s of
        None \<Rightarrow> Inl InvalidRefreshToken
      | Some u \<Rightarrow>
          if \<not> u_is_active u then Inl InvalidRefreshToken
          else reissue env (cl_sub payload) stored now
            (if again
             then site_audit (Some (tk_user_id stored)) ''auth.refresh_replay_accepted'' ''refresh_token'' [tk_jti stored]
                    (record_grace_replay stored s)
             else rotate_refresh_token stored now s))"

definition auth_refresh :: "auth_env \<Rightarrow> string \<Rightarrow> int \<Rightarrow> site \<Rightarrow> (account_error, token_pair) result \<times> site" where
  "auth_refresh env token now s =
     (case ev_decode env now token of
        None \<Rightarrow> (Inl InvalidRefreshToken, s)
      | Some payload \<Rightarrow>
          if cl_type payload \<noteq> Some ''refresh'' then (Inl InvalidRefreshToken, s)
          else case get_refresh_token_by_jti (cl_jti payload) s of
            None \<Rightarrow> (Inl InvalidRefreshToken, s)
          | Some stored \<Rightarrow>
              if tk_revoked stored \<and> \<not> is_benign_replay env stored now s
              then (Inl InvalidRefreshToken, revoke_family (tk_family_id stored) s)
              else case refresh_checked env payload stored (tk_revoked stored) now s of
                Inl e \<Rightarrow> (Inl e, s)
              | Inr (pair, s') \<Rightarrow> (Inr pair, s'))"

definition auth_logout :: "auth_env \<Rightarrow> string \<Rightarrow> int \<Rightarrow> site \<Rightarrow> site" where
  "auth_logout env token now s =
     (case ev_decode env now token of
        None \<Rightarrow> s
      | Some payload \<Rightarrow>
          (case get_refresh_token_by_jti (cl_jti payload) s of
             None \<Rightarrow> s
           | Some stored \<Rightarrow> if \<not> tk_revoked stored then revoke_refresh_token stored s else s))"

section \<open>\<open>AccountService\<close>\<close>

abbreviation PASSWORD_RESET :: string where "PASSWORD_RESET \<equiv> ''password_reset''"
abbreviation EMAIL_VERIFICATION :: string where "EMAIL_VERIFICATION \<equiv> ''email_verification''"
abbreviation EMAIL_CHANGE :: string where "EMAIL_CHANGE \<equiv> ''email_change''"

abbreviation minute_bucket :: "int \<Rightarrow> int" where
  "minute_bucket now \<equiv> now div minute"

definition request_password_reset :: "auth_env \<Rightarrow> string \<Rightarrow> int \<Rightarrow> site \<Rightarrow> site" where
  "request_password_reset env email now =
     site_enqueue ''send_password_reset'' [KS email] (Some [KS ''pwreset'', KS (ev_sha256 env (str_lower email)), KI (minute_bucket now)])"

text \<open>The account an emailed token was issued to, if it is active.\<close>

definition token_owner :: "(int \<times> string) option \<Rightarrow> site \<Rightarrow> (user \<times> string) option" where
  "token_owner r s =
     Option.bind r (\<lambda>(user_id, email). Option.bind (get_user_by_id user_id s) (\<lambda>u.
       if u_is_active u then Some (u, email) else None))"

definition reset_password :: "auth_env \<Rightarrow> string \<Rightarrow> string \<Rightarrow> int \<Rightarrow> site \<Rightarrow> (account_error, site) result" where
  "reset_password env token new_password now s =
     (let (r, s) = consume_auth_token (ev_sha256 env token) PASSWORD_RESET now s in
      case token_owner r s of
        None \<Rightarrow> Inl InvalidAccountToken
      | Some (u, email) \<Rightarrow>
          if u_email u \<noteq> email then Inl InvalidAccountToken
          else let (salt, s) = fresh_id s;
                   u = u\<lparr>u_password_hash := ev_hash_password env salt new_password,
                         u_email_verified_at := Some (case u_email_verified_at u of None \<Rightarrow> now | Some t \<Rightarrow> t)\<rparr>
               in rbind (flush_user u s) (\<lambda>s.
                  Inr (site_enqueue ''send_account_notice'' [KI (u_id u), KS ''password_changed''] None
                      (site_audit (Some (u_id u)) ''auth.password_reset'' ''user'' [KI (u_id u)]
                      (revoke_all_refresh_tokens (u_id u)
                      (invalidate_auth_tokens (u_id u) [PASSWORD_RESET] now s))))))"

definition change_password :: "auth_env \<Rightarrow> user \<Rightarrow> string \<Rightarrow> string \<Rightarrow> int \<Rightarrow> site \<Rightarrow> (account_error, token_pair \<times> site) result" where
  "change_password env u current_password new_password now s =
     (if \<not> ev_verify_password env current_password (u_password_hash u) then Inl CurrentPasswordIncorrect
      else if current_password = new_password then Inl SamePassword
      else let (salt, s) = fresh_id s;
               u = u\<lparr>u_password_hash := ev_hash_password env salt new_password\<rparr>
           in rbind (flush_user u s) (\<lambda>s.
              rbind (issue_tokens env u now (revoke_all_refresh_tokens (u_id u) (invalidate_auth_tokens (u_id u) [PASSWORD_RESET] now s)))
                (\<lambda>(pair, s).
              Inr (pair, site_enqueue ''send_account_notice'' [KI (u_id u), KS ''password_changed''] None
                    (site_audit (Some (u_id u)) ''auth.password_changed'' ''user'' [KI (u_id u)] s)))))"

definition request_email_verification :: "user \<Rightarrow> int \<Rightarrow> site \<Rightarrow> site" where
  "request_email_verification u now s =
     (if u_email_verified_at u \<noteq> None then s
      else site_enqueue ''send_email_verification'' [KI (u_id u)] (Some [KS ''verify'', KI (u_id u), KI (minute_bucket now)]) s)"

definition verify_email :: "auth_env \<Rightarrow> string \<Rightarrow> int \<Rightarrow> site \<Rightarrow> (account_error, site) result" where
  "verify_email env token now s =
     (let (r, s) = consume_auth_token (ev_sha256 env token) EMAIL_VERIFICATION now s in
      case token_owner r s of
        None \<Rightarrow> Inl InvalidAccountToken
      | Some (u, email) \<Rightarrow>
          if u_email u \<noteq> email then Inl InvalidAccountToken
          else if u_email_verified_at u \<noteq> None then Inr s
          else rbind (flush_user (u\<lparr>u_email_verified_at := Some now\<rparr>) s) (\<lambda>s.
               Inr (site_audit (Some (u_id u)) ''auth.email_verified'' ''user'' [KI (u_id u)] s)))"

text \<open>The pair of account and address stands for its SHA-256 in the job's key.\<close>

definition request_email_change :: "auth_env \<Rightarrow> user \<Rightarrow> string \<Rightarrow> string \<Rightarrow> int \<Rightarrow> site \<Rightarrow> (account_error, site) result" where
  "request_email_change env u new_email password now s =
     (if \<not> ev_verify_password env password (u_password_hash u) then Inl CurrentPasswordIncorrect
      else if str_lower new_email = str_lower (u_email u) then Inr s
      else Inr (site_enqueue ''send_email_change'' [KI (u_id u), KS new_email]
             (Some [KS ''emailchange'', KI (u_id u), KS (str_lower new_email), KI (minute_bucket now)]) s))"

definition confirm_email_change :: "auth_env \<Rightarrow> string \<Rightarrow> int \<Rightarrow> site \<Rightarrow> (account_error, site) result" where
  "confirm_email_change env token now s =
     (let (r, s) = consume_auth_token (ev_sha256 env token) EMAIL_CHANGE now s in
      case token_owner r s of
        None \<Rightarrow> Inl InvalidAccountToken
      | Some (u, email) \<Rightarrow>
          rbind (guard (case find_user_by_email_ci email s of None \<Rightarrow> True | Some taken \<Rightarrow> u_id taken = u_id u)
                   (EmailAlreadyExists email)) (\<lambda>_.
             rbind (flush_user (u\<lparr>u_email := email, u_email_verified_at := Some now\<rparr>) s) (\<lambda>s.
             Inr (site_enqueue ''send_account_notice'' [KS ''email_changed'', KS (u_email u), KS email] None
                 (site_audit (Some (u_id u)) ''auth.email_changed'' ''user'' [KI (u_id u)]
                 (invalidate_auth_tokens (u_id u) [PASSWORD_RESET, EMAIL_VERIFICATION, EMAIL_CHANGE] now s))))))"

definition token_expiry :: "auth_env \<Rightarrow> string \<Rightarrow> int \<Rightarrow> int" where
  "token_expiry env purpose now =
     now + (if purpose = PASSWORD_RESET then password_reset_token_minutes env * minute
            else if purpose = EMAIL_VERIFICATION then email_verification_token_hours env * hour
            else email_change_token_minutes env * minute)"

section \<open>The jobs that send the account emails\<close>

text \<open>Handing a letter to the sender; when that fails the job's transaction is rolled back and retried.\<close>

definition send_mail :: "auth_env \<Rightarrow> string \<Rightarrow> letter \<Rightarrow> site \<Rightarrow> (account_error, site) result" where
  "send_mail env recipient l s = (if ev_sends env recipient l then Inr (s\<lparr>st_outbox := st_outbox s @ [(recipient, l)]\<rparr>) else Inl EmailNotSent)"

definition issue_auth_token :: "auth_env \<Rightarrow> int \<Rightarrow> string \<Rightarrow> string \<Rightarrow> int \<Rightarrow> site \<Rightarrow> (account_error, string \<times> site) result" where
  "issue_auth_token env user_id purpose email now s =
     (let (n, s) = fresh_id s; token = ev_random env n in
      rbind (create_auth_token user_id purpose (ev_sha256 env token) email (token_expiry env purpose now) now s) (\<lambda>s.
      Inr (token, s)))"

definition send_password_reset :: "auth_env \<Rightarrow> string \<Rightarrow> int \<Rightarrow> site \<Rightarrow> (account_error, site) result" where
  "send_password_reset env email now s =
     (case find_user_by_email_ci email s of
        None \<Rightarrow> Inr s
      | Some u \<Rightarrow>
          if \<not> u_is_active u then Inr s
          else if count_recent_auth_tokens (u_id u) PASSWORD_RESET (now - hour) s \<ge> password_reset_emails_per_hour env then Inr s
          else rbind (issue_auth_token env (u_id u) PASSWORD_RESET (u_email u) now s) (\<lambda>(token, s).
               send_mail env (u_email u) (PasswordResetMail token) s))"

definition send_email_verification :: "auth_env \<Rightarrow> int \<Rightarrow> int \<Rightarrow> site \<Rightarrow> (account_error, site) result" where
  "send_email_verification env user_id now s =
     (case get_user_by_id user_id s of
        None \<Rightarrow> Inr s
      | Some u \<Rightarrow>
          if \<not> u_is_active u \<or> u_email_verified_at u \<noteq> None then Inr s
          else rbind (issue_auth_token env (u_id u) EMAIL_VERIFICATION (u_email u) now s) (\<lambda>(token, s).
               send_mail env (u_email u) (EmailVerificationMail token) s))"

definition send_email_change :: "auth_env \<Rightarrow> int \<Rightarrow> string \<Rightarrow> int \<Rightarrow> site \<Rightarrow> (account_error, site) result" where
  "send_email_change env user_id new_email now s =
     (case get_user_by_id user_id s of
        None \<Rightarrow> Inr s
      | Some u \<Rightarrow>
          if \<not> u_is_active u then Inr s
          else if (case find_user_by_email_ci new_email s of None \<Rightarrow> False | Some taken \<Rightarrow> u_id taken \<noteq> u_id u) then Inr s
          else rbind (issue_auth_token env (u_id u) EMAIL_CHANGE new_email now s) (\<lambda>(token, s).
               rbind (send_mail env new_email (EmailChangeConfirmation token) s)
                 (send_mail env (u_email u) (EmailChangeRequested new_email))))"

definition send_account_notice :: "auth_env \<Rightarrow> key \<Rightarrow> site \<Rightarrow> (account_error, site) result" where
  "send_account_notice env payload s =
     (case payload of
        [KS kind, KS recipient, KS new_email] \<Rightarrow>
          if kind = ''email_changed'' then send_mail env recipient (EmailChangedMail new_email) s else Inr s
      | [KI user_id, KS kind] \<Rightarrow>
          (case get_user_by_id user_id s of
             None \<Rightarrow> Inr s
           | Some u \<Rightarrow> if u_is_active u \<and> kind = ''password_changed'' then send_mail env (u_email u) PasswordChangedMail s else Inr s)
      | _ \<Rightarrow> Inr s)"

text \<open>The registry's dispatch on the type of a queued job, for the job types of this module.\<close>

definition run_account_job :: "auth_env \<Rightarrow> job \<Rightarrow> int \<Rightarrow> site \<Rightarrow> (account_error, site) result" where
  "run_account_job env j now s =
     (case jb_payload j of
        [KS email] \<Rightarrow> if jb_type j = ''send_password_reset'' then send_password_reset env email now s else Inr s
      | [KI i] \<Rightarrow> if jb_type j = ''send_email_verification'' then send_email_verification env i now s else Inr s
      | [KI i, KS x] \<Rightarrow>
          if jb_type j = ''send_email_change'' then send_email_change env i x now s
          else if jb_type j = ''send_account_notice'' then send_account_notice env (jb_payload j) s else Inr s
      | _ \<Rightarrow> if jb_type j = ''send_account_notice'' then send_account_notice env (jb_payload j) s else Inr s)"

section \<open>Who is calling\<close>

definition get_current_user :: "auth_env \<Rightarrow> string \<Rightarrow> int \<Rightarrow> site \<Rightarrow> (account_error, user) result" where
  "get_current_user env credentials now s =
     (case ev_decode env now credentials of
        None \<Rightarrow> Inl Unauthorized
      | Some payload \<Rightarrow>
          if cl_type payload \<noteq> Some ''access'' then Inl Unauthorized
          else case cl_sub payload of
            KI i \<Rightarrow> (case get_user_by_id i s of
                      None \<Rightarrow> Inl Unauthorized
                    | Some u \<Rightarrow> if u_is_active u then Inr u else Inl Unauthorized)
          | _ \<Rightarrow> Inl Unauthorized)"

definition get_optional_current_user :: "auth_env \<Rightarrow> string option \<Rightarrow> int \<Rightarrow> site \<Rightarrow> user option" where
  "get_optional_current_user env credentials now s =
     (case credentials of
        None \<Rightarrow> None
      | Some c \<Rightarrow> (case get_current_user env c now s of Inl _ \<Rightarrow> None | Inr u \<Rightarrow> Some u))"

definition require_admin :: "auth_env \<Rightarrow> string \<Rightarrow> int \<Rightarrow> site \<Rightarrow> (account_error, user) result" where
  "require_admin env credentials now s =
     rbind (get_current_user env credentials now s) (\<lambda>u.
     rbind (guard (u_role u = ADMIN) AdminRequired) (\<lambda>_. Inr u))"

section \<open>Routes\<close>

definition merge_guest_cart_if_any :: "int \<Rightarrow> string option \<Rightarrow> site \<Rightarrow> (account_error, site) result" where
  "merge_guest_cart_if_any user_id guest_cart_token s =
     (case guest_cart_token of
        None \<Rightarrow> Inr s
      | Some g \<Rightarrow>
          if g = [] then Inr s
          else rbind (lift_err ShopError (merge_guest_cart_into_user user_id g (st_shop s))) (\<lambda>d. Inr (s\<lparr>st_shop := d\<rparr>)))"

definition register_route ::
  "auth_env \<Rightarrow> string \<Rightarrow> string \<Rightarrow> string \<Rightarrow> string option \<Rightarrow> int \<Rightarrow> site \<Rightarrow> (account_error, user \<times> site) result" where
  "register_route env username email password guest_cart_token now s =
     rbind (auth_register env username email password now s) (\<lambda>(u, s).
     rbind (merge_guest_cart_if_any (u_id u) guest_cart_token (request_email_verification u now s)) (\<lambda>s.
     Inr (u, s)))"

definition login_route ::
  "auth_env \<Rightarrow> string \<Rightarrow> string \<Rightarrow> string option \<Rightarrow> int \<Rightarrow> site \<Rightarrow> (account_error, token_pair \<times> site) result" where
  "login_route env email password guest_cart_token now s =
     rbind (auth_login env email password now s) (\<lambda>(tokens, s).
     case get_user_by_email email s of
       None \<Rightarrow> Inr (tokens, s)
     | Some u \<Rightarrow> rbind (merge_guest_cart_if_any (u_id u) guest_cart_token s) (\<lambda>s. Inr (tokens, s)))"

definition change_password_route ::
  "auth_env \<Rightarrow> string \<Rightarrow> string \<Rightarrow> string \<Rightarrow> int \<Rightarrow> site \<Rightarrow> (account_error, token_pair \<times> site) result" where
  "change_password_route env credentials current_password new_password now s =
     rbind (get_current_user env credentials now s) (\<lambda>u. change_password env u current_password new_password now s)"

definition send_email_verification_route :: "auth_env \<Rightarrow> string \<Rightarrow> int \<Rightarrow> site \<Rightarrow> (account_error, site) result" where
  "send_email_verification_route env credentials now s =
     rbind (get_current_user env credentials now s) (\<lambda>u. Inr (request_email_verification u now s))"

definition change_email_route :: "auth_env \<Rightarrow> string \<Rightarrow> string \<Rightarrow> string \<Rightarrow> int \<Rightarrow> site \<Rightarrow> (account_error, site) result" where
  "change_email_route env credentials new_email password now s =
     rbind (get_current_user env credentials now s) (\<lambda>u. request_email_change env u new_email password now s)"

end
