(* ===== verification/Staff.thy ===== *)
theory Staff
  imports Accounts
begin

text \<open>
  Who may do what: the permissions, staff roles and role assignments of \<open>modules/roles\<close> and the user
  administration of \<open>modules/users\<close>, with the routes that call them. \<open>AccessService\<close> caches what it
  looked up during one request, which no handler can observe: none writes between two look-ups.
\<close>

section \<open>Permissions\<close>

datatype permission =
  REPORTS_READ
| AUDIT_READ
| CATALOGUE_READ
| CATALOGUE_WRITE
| INVENTORY_ADJUST
| REVIEWS_MODERATE
| CUSTOMERS_READ
| CUSTOMERS_MANAGE
| ORDERS_READ
| ORDERS_MANAGE
| RETURNS_READ
| RETURNS_MANAGE
| REFUNDS_ISSUE
| PAYMENTS_READ
| PAYMENTS_MANAGE
| PAYMENTS_CREDENTIALS
| PAYMENTS_LIVE
| TAX_READ
| TAX_CONFIGURE
| STORE_CONFIGURE
| COUPONS_MANAGE
| EMAIL_CONFIGURE
| CONTENT_EDIT
| CONTENT_PUBLISH
| ROLES_MANAGE

fun permission_value :: "permission \<Rightarrow> string" where
  "permission_value REPORTS_READ = ''reports.read''"
| "permission_value AUDIT_READ = ''audit.read''"
| "permission_value CATALOGUE_READ = ''catalogue.read''"
| "permission_value CATALOGUE_WRITE = ''catalogue.write''"
| "permission_value INVENTORY_ADJUST = ''inventory.adjust''"
| "permission_value REVIEWS_MODERATE = ''reviews.moderate''"
| "permission_value CUSTOMERS_READ = ''customers.read''"
| "permission_value CUSTOMERS_MANAGE = ''customers.manage''"
| "permission_value ORDERS_READ = ''orders.read''"
| "permission_value ORDERS_MANAGE = ''orders.manage''"
| "permission_value RETURNS_READ = ''returns.read''"
| "permission_value RETURNS_MANAGE = ''returns.manage''"
| "permission_value REFUNDS_ISSUE = ''refunds.issue''"
| "permission_value PAYMENTS_READ = ''payments.read''"
| "permission_value PAYMENTS_MANAGE = ''payments.manage''"
| "permission_value PAYMENTS_CREDENTIALS = ''payments.credentials''"
| "permission_value PAYMENTS_LIVE = ''payments.live''"
| "permission_value TAX_READ = ''tax.read''"
| "permission_value TAX_CONFIGURE = ''tax.configure''"
| "permission_value STORE_CONFIGURE = ''store.configure''"
| "permission_value COUPONS_MANAGE = ''coupons.manage''"
| "permission_value EMAIL_CONFIGURE = ''email.configure''"
| "permission_value CONTENT_EDIT = ''content.edit''"
| "permission_value CONTENT_PUBLISH = ''content.publish''"
| "permission_value ROLES_MANAGE = ''roles.manage''"

definition ALL_PERMISSIONS :: "permission list" where
  "ALL_PERMISSIONS =
     [REPORTS_READ, AUDIT_READ, CATALOGUE_READ, CATALOGUE_WRITE, INVENTORY_ADJUST, REVIEWS_MODERATE,
      CUSTOMERS_READ, CUSTOMERS_MANAGE, ORDERS_READ, ORDERS_MANAGE, RETURNS_READ, RETURNS_MANAGE,
      REFUNDS_ISSUE, PAYMENTS_READ, PAYMENTS_MANAGE, PAYMENTS_CREDENTIALS, PAYMENTS_LIVE, TAX_READ,
      TAX_CONFIGURE, STORE_CONFIGURE, COUPONS_MANAGE, EMAIL_CONFIGURE, CONTENT_EDIT, CONTENT_PUBLISH,
      ROLES_MANAGE]"

fun IMPLIES :: "permission \<Rightarrow> permission set" where
  "IMPLIES CATALOGUE_WRITE = {CATALOGUE_READ}"
| "IMPLIES INVENTORY_ADJUST = {CATALOGUE_READ}"
| "IMPLIES CUSTOMERS_MANAGE = {CUSTOMERS_READ}"
| "IMPLIES ORDERS_MANAGE = {ORDERS_READ}"
| "IMPLIES RETURNS_MANAGE = {RETURNS_READ, ORDERS_READ}"
| "IMPLIES REFUNDS_ISSUE = {ORDERS_READ, RETURNS_READ, PAYMENTS_READ}"
| "IMPLIES PAYMENTS_MANAGE = {PAYMENTS_READ}"
| "IMPLIES PAYMENTS_CREDENTIALS = {PAYMENTS_READ}"
| "IMPLIES PAYMENTS_LIVE = {PAYMENTS_READ}"
| "IMPLIES TAX_CONFIGURE = {TAX_READ}"
| "IMPLIES CONTENT_PUBLISH = {CONTENT_EDIT}"
| "IMPLIES _ = {}"

definition effective :: "permission set \<Rightarrow> permission set" where
  "effective granted = granted \<union> \<Union> (IMPLIES ` granted)"

text \<open>The two system roles have fixed identifiers outside the range of generated ones.\<close>

definition OWNER_ROLE_ID :: int where "OWNER_ROLE_ID = - 1"
definition NO_ACCESS_ROLE_ID :: int where "NO_ACCESS_ROLE_ID = - 2"
definition OWNER_ROLE_NAME :: string where "OWNER_ROLE_NAME = ''Owner''"
definition NO_ACCESS_ROLE_NAME :: string where "NO_ACCESS_ROLE_NAME = ''No access''"

definition sorted_values :: "permission set \<Rightarrow> string list" where
  "sorted_values ps = sorted_list_of_set (permission_value ` ps)"

definition known_permissions :: "string list \<Rightarrow> permission set" where
  "known_permissions stored = {p \<in> set ALL_PERMISSIONS. permission_value p \<in> set stored}"

definition role_permissions_for_display :: "int \<Rightarrow> string list \<Rightarrow> string list" where
  "role_permissions_for_display role_id stored =
     (if role_id = OWNER_ROLE_ID then sorted_values (set ALL_PERMISSIONS)
      else sort (filter (\<lambda>p. p \<in> permission_value ` set ALL_PERMISSIONS) stored))"

section \<open>\<open>AccessService\<close>\<close>

definition role_permissions :: "staff_role option \<Rightarrow> permission set" where
  "role_permissions role =
     (case role of
        None \<Rightarrow> set ALL_PERMISSIONS
      | Some r \<Rightarrow> if sr_id r = OWNER_ROLE_ID then set ALL_PERMISSIONS else effective (known_permissions (sr_permissions r)))"

definition get_assignment :: "int \<Rightarrow> site \<Rightarrow> staff_assignment option" where
  "get_assignment user_id s = row sa_user_id user_id (st_assignments s)"

definition get_role :: "int \<Rightarrow> site \<Rightarrow> staff_role option" where
  "get_role role_id s = row sr_id role_id (st_roles s)"

text \<open>The role a user's assignment points to; none without an assignment.\<close>

definition assigned_role :: "int \<Rightarrow> site \<Rightarrow> staff_role option" where
  "assigned_role user_id s = Option.bind (get_assignment user_id s) (\<lambda>a. get_role (sa_role_id a) s)"

definition active_admin :: "user \<Rightarrow> bool" where
  "active_admin u \<longleftrightarrow> u_role u = ADMIN \<and> u_is_active u"

definition resolve :: "user \<Rightarrow> site \<Rightarrow> permission set \<times> staff_role option" where
  "resolve u s =
     (if \<not> active_admin u then ({}, None)
      else let role = assigned_role (u_id u) s in (role_permissions role, role))"

definition has_permission :: "user \<Rightarrow> permission \<Rightarrow> site \<Rightarrow> bool" where
  "has_permission u p s \<longleftrightarrow> p \<in> fst (resolve u s)"

definition access_require :: "user \<Rightarrow> permission \<Rightarrow> site \<Rightarrow> (account_error, unit) result" where
  "access_require u p s = guard (has_permission u p s) (PermissionDenied (permission_value p))"

datatype staff_change = LEAVES_STAFF | NewRole staff_role

definition lock_active_admins :: "site \<Rightarrow> (user \<times> staff_role option) list" where
  "lock_active_admins s = map (\<lambda>u. (u, assigned_role (u_id u) s)) (sort_key u_id (filter active_admin (st_users s)))"

text \<open>Would this administrator, after the change, still be able to manage roles?\<close>

definition keeps_managing ::
  "(int \<times> staff_change) list \<Rightarrow> (int \<times> permission set) option \<Rightarrow> user \<times> staff_role option \<Rightarrow> bool" where
  "keeps_managing user_changes role_change = (\<lambda>(u, assigned).
     case map_of user_changes (u_id u) of
       Some LEAVES_STAFF \<Rightarrow> False
     | change \<Rightarrow>
         let role = (case change of Some (NewRole r) \<Rightarrow> Some r | _ \<Rightarrow> assigned);
             permissions = (case (role, role_change) of
                 (Some r, Some (i, ps)) \<Rightarrow> if sr_id r = i \<and> \<not> sr_is_system r then effective ps else role_permissions role
               | _ \<Rightarrow> role_permissions role)
         in ROLES_MANAGE \<in> permissions)"

definition assert_role_manager_remains ::
  "(int \<times> staff_change) list \<Rightarrow> (int \<times> permission set) option \<Rightarrow> site \<Rightarrow> (account_error, unit) result" where
  "assert_role_manager_remains user_changes role_change s =
     guard (list_ex (keeps_managing user_changes role_change) (lock_active_admins s)) LastRoleManager"

definition require_permission :: "auth_env \<Rightarrow> permission \<Rightarrow> string \<Rightarrow> int \<Rightarrow> site \<Rightarrow> (account_error, user) result" where
  "require_permission env p credentials now s =
     rbind (require_admin env credentials now s) (\<lambda>admin.
     rbind (access_require admin p s) (\<lambda>_. Inr admin))"

section \<open>\<open>RoleService\<close>\<close>

definition role_name_free :: "staff_role \<Rightarrow> site \<Rightarrow> bool" where
  "role_name_free r s \<longleftrightarrow> \<not> list_ex (\<lambda>x. sr_id x \<noteq> sr_id r \<and> sr_name x = sr_name r) (st_roles s)"

definition add_role :: "staff_role \<Rightarrow> site \<Rightarrow> (account_error, site) result" where
  "add_role r s = (if role_name_free r s then Inr (s\<lparr>st_roles := st_roles s @ [r]\<rparr>) else Inl (Constraint ''staff_roles.name''))"

definition ensure_system_roles :: "site \<Rightarrow> (account_error, site) result" where
  "ensure_system_roles =
     rfold (\<lambda>(i, name) s. if get_role i s = None
         then add_role \<lparr>sr_id = i, sr_name = name, sr_description = None, sr_permissions = [], sr_is_system = True\<rparr> s
         else Inr s)
       [(OWNER_ROLE_ID, OWNER_ROLE_NAME), (NO_ACCESS_ROLE_ID, NO_ACCESS_ROLE_NAME)]"

definition name_taken :: "string \<Rightarrow> int option \<Rightarrow> site \<Rightarrow> bool" where
  "name_taken name excluding s =
     list_ex (\<lambda>r. str_lower (sr_name r) = str_lower name \<and> Some (sr_id r) \<noteq> excluding) (st_roles s)"

definition count_assignments :: "int \<Rightarrow> site \<Rightarrow> nat" where
  "count_assignments role_id s = length (filter (\<lambda>a. sa_role_id a = role_id) (st_assignments s))"

definition set_assignment :: "int \<Rightarrow> int \<Rightarrow> int \<Rightarrow> site \<Rightarrow> site" where
  "set_assignment user_id role_id actor s =
     (let a = \<lparr>sa_user_id = user_id, sa_role_id = role_id, sa_assigned_by = Some actor\<rparr> in
      if get_assignment user_id s = None then s\<lparr>st_assignments := st_assignments s @ [a]\<rparr>
      else s\<lparr>st_assignments := set_row sa_user_id a (st_assignments s)\<rparr>)"

definition remove_assignment :: "int \<Rightarrow> site \<Rightarrow> site" where
  "remove_assignment user_id s = s\<lparr>st_assignments := filter (\<lambda>a. sa_user_id a \<noteq> user_id) (st_assignments s)\<rparr>"

definition service_get_role :: "int \<Rightarrow> site \<Rightarrow> (account_error, staff_role) result" where
  "service_get_role role_id s = (case get_role role_id s of None \<Rightarrow> Inl RoleNotFound | Some r \<Rightarrow> Inr r)"

definition create_role :: "user \<Rightarrow> string \<Rightarrow> string option \<Rightarrow> permission set \<Rightarrow> site \<Rightarrow> (account_error, staff_role \<times> site) result" where
  "create_role actor name description permissions s =
     (if name_taken name None s then Inl RoleNameTaken
      else let (i, s) = fresh_id s;
               r = \<lparr>sr_id = i, sr_name = name, sr_description = description, sr_permissions = sorted_values permissions, sr_is_system = False\<rparr>
           in rbind (add_role r s) (\<lambda>s.
              Inr (r, site_audit (Some (u_id actor)) ''staff_role.created'' ''staff_role'' [KI i] s)))"

text \<open>The new name of a role, unless another role has it; upper and lower case count as the same.\<close>

definition rename_role :: "string option \<Rightarrow> staff_role \<Rightarrow> site \<Rightarrow> (account_error, staff_role) result" where
  "rename_role name role s =
     (case name of
        None \<Rightarrow> Inr role
      | Some n \<Rightarrow> if n = sr_name role then Inr role
                 else if name_taken n (Some (sr_id role)) s then Inl RoleNameTaken
                 else Inr (role\<lparr>sr_name := n\<rparr>))"

definition update_role ::
  "user \<Rightarrow> int \<Rightarrow> string option \<Rightarrow> string option option \<Rightarrow> permission set option \<Rightarrow> site \<Rightarrow> (account_error, staff_role \<times> site) result" where
  "update_role actor role_id name description permissions s =
     rbind (service_get_role role_id s) (\<lambda>role.
     if sr_is_system role then Inl SystemRole
     else rbind (rename_role name role s) (\<lambda>role.
          let role = (case description of None \<Rightarrow> role | Some x \<Rightarrow> role\<lparr>sr_description := x\<rparr>) in
          rbind (case permissions of
            None \<Rightarrow> Inr role
          | Some ps \<Rightarrow>
              rbind (if ROLES_MANAGE \<notin> ps then assert_role_manager_remains [] (Some (sr_id role, ps)) s else Inr ()) (\<lambda>_.
              Inr (role\<lparr>sr_permissions := sorted_values ps\<rparr>))) (\<lambda>role.
          Inr (role, site_audit (Some (u_id actor)) ''staff_role.updated'' ''staff_role'' [KI (sr_id role)]
                (s\<lparr>st_roles := set_row sr_id role (st_roles s)\<rparr>)))))"

definition delete_role :: "user \<Rightarrow> int \<Rightarrow> site \<Rightarrow> (account_error, site) result" where
  "delete_role actor role_id s =
     rbind (service_get_role role_id s) (\<lambda>role.
     if sr_is_system role then Inl SystemRole
     else let members = count_assignments (sr_id role) s in
       if members \<noteq> 0 then Inl (RoleInUse members)
       else Inr (site_audit (Some (u_id actor)) ''staff_role.deleted'' ''staff_role'' [KI role_id]
                  (s\<lparr>st_roles := filter (\<lambda>r. sr_id r \<noteq> sr_id role) (st_roles s)\<rparr>)))"

definition assign_role :: "user \<Rightarrow> int \<Rightarrow> int \<Rightarrow> site \<Rightarrow> (account_error, user \<times> site) result" where
  "assign_role actor user_id role_id s =
     rbind (ensure_system_roles s) (\<lambda>s.
     rbind (service_get_role role_id s) (\<lambda>role.
     case find (\<lambda>u. u_id u = user_id \<and> active_admin u) (st_users s) of
       None \<Rightarrow> Inl StaffMemberNotFound
     | Some target \<Rightarrow>
         rbind (assert_role_manager_remains [(user_id, NewRole role)] None s) (\<lambda>_.
         Inr (target, site_audit (Some (u_id actor)) ''staff.role_assigned'' ''user'' [KI user_id]
               (set_assignment user_id (sr_id role) (u_id actor) s)))))"

definition start_with_no_access :: "user \<Rightarrow> int \<Rightarrow> site \<Rightarrow> (account_error, site) result" where
  "start_with_no_access actor user_id s =
     rbind (ensure_system_roles s) (\<lambda>s.
     Inr (site_audit (Some (u_id actor)) ''staff.role_assigned'' ''user'' [KI user_id]
           (set_assignment user_id NO_ACCESS_ROLE_ID (u_id actor) s)))"

section \<open>\<open>UserService\<close>\<close>

definition assert_not_last_admin :: "user \<Rightarrow> site \<Rightarrow> (account_error, unit) result" where
  "assert_not_last_admin u s =
     (if u_role u \<noteq> ADMIN \<or> \<not> u_is_active u then Inr ()
      else guard (filter (\<lambda>a. active_admin a \<and> u_id a \<noteq> u_id u) (st_users s) \<noteq> []) LastAdmin)"

definition service_get_user :: "int \<Rightarrow> user \<Rightarrow> site \<Rightarrow> (account_error, user) result" where
  "service_get_user target_user_id current_user s =
     (if u_role current_user \<noteq> ADMIN \<and> u_id current_user \<noteq> target_user_id
      then Inl (ForbiddenAction ''You can only view your own profile'')
      else case get_user_by_id target_user_id s of None \<Rightarrow> Inl (UserNotFound target_user_id) | Some u \<Rightarrow> Inr u)"

text \<open>
  One's own address changes only through the confirmed flow; an administrator may correct someone else's,
  which is then unverified.
\<close>

definition change_address :: "bool \<Rightarrow> string option \<Rightarrow> user \<Rightarrow> (account_error, user) result" where
  "change_address own email u =
     (case email of
        None \<Rightarrow> Inr u
      | Some e \<Rightarrow>
          if e = u_email u then Inr u
          else if own then Inl (ForbiddenAction ''Change your email address with POST /auth/email/change'')
          else Inr (u\<lparr>u_email := e, u_email_verified_at := None\<rparr>))"

definition service_update_user ::
  "int \<Rightarrow> user \<Rightarrow> string option \<Rightarrow> string option \<Rightarrow> user_role option \<Rightarrow> site \<Rightarrow> (account_error, user \<times> site) result" where
  "service_update_user target_user_id current_user username email role s =
     (if u_role current_user \<noteq> ADMIN \<and> u_id current_user \<noteq> target_user_id
      then Inl (ForbiddenAction ''You can only update your own profile'')
      else if role \<noteq> None \<and> u_role current_user \<noteq> ADMIN
      then Inl (ForbiddenAction ''Only administrators can change roles'')
      else case get_user_by_id target_user_id s of
        None \<Rightarrow> Inl (UserNotFound target_user_id)
      | Some u \<Rightarrow>
          rbind (if role \<noteq> None \<and> role \<noteq> Some ADMIN then assert_not_last_admin u s else Inr ()) (\<lambda>_.
          rbind (change_address (u_id current_user = target_user_id) email
                   (case username of None \<Rightarrow> u | Some n \<Rightarrow> u\<lparr>u_username := n\<rparr>)) (\<lambda>mailed.
          let new = (case role of None \<Rightarrow> mailed | Some r \<Rightarrow> mailed\<lparr>u_role := r\<rparr>) in
          rbind (flush_user new s) (\<lambda>s. Inr (new, s)))))"

definition service_deactivate_user :: "int \<Rightarrow> user \<Rightarrow> site \<Rightarrow> (account_error, user \<times> site) result" where
  "service_deactivate_user target_user_id current_user s =
     (if u_role current_user \<noteq> ADMIN \<and> u_id current_user \<noteq> target_user_id
      then Inl (ForbiddenAction ''You can only deactivate your own account'')
      else case get_user_by_id target_user_id s of
        None \<Rightarrow> Inl (UserNotFound target_user_id)
      | Some u \<Rightarrow>
          rbind (assert_not_last_admin u s) (\<lambda>_.
          let new = u\<lparr>u_is_active := False\<rparr> in
          rbind (flush_user new s) (\<lambda>s. Inr (new, s))))"

section \<open>User routes\<close>

text \<open>\<open>previous_role\<close> is read only when the request names a role.\<close>

definition update_user_as ::
  "user \<Rightarrow> int \<Rightarrow> string option \<Rightarrow> string option \<Rightarrow> user_role option \<Rightarrow> site \<Rightarrow> (account_error, user \<times> site) result" where
  "update_user_as me user_id username email role s =
     rbind (if u_role me = ADMIN \<and> user_id \<noteq> u_id me then access_require me CUSTOMERS_MANAGE s else Inr ()) (\<lambda>_.
     rbind (if u_role me = ADMIN \<and> role \<noteq> None then access_require me ROLES_MANAGE s else Inr ()) (\<lambda>_.
     rbind (if role = None then Inr None else rbind (service_get_user user_id me s) (\<lambda>x. Inr (Some (u_role x)))) (\<lambda>previous.
     rbind (service_update_user user_id me username email role s) (\<lambda>(u, s).
     rbind (if role \<noteq> None \<and> previous = Some ADMIN \<and> u_role u \<noteq> ADMIN
            then rbind (assert_role_manager_remains [(u_id u, LEAVES_STAFF)] None s) (\<lambda>_. Inr (remove_assignment (u_id u) s))
            else Inr s) (\<lambda>s.
     rbind (if role \<noteq> None \<and> previous \<noteq> Some ADMIN \<and> u_role u = ADMIN then start_with_no_access me (u_id u) s else Inr s) (\<lambda>s.
     Inr (u, if role \<noteq> None \<and> previous \<noteq> Some (u_role u)
             then site_audit (Some (u_id me)) ''user.role_changed'' ''user'' [KI (u_id u)] s else s)))))))"

definition update_user_route ::
  "auth_env \<Rightarrow> string \<Rightarrow> int \<Rightarrow> string option \<Rightarrow> string option \<Rightarrow> user_role option \<Rightarrow> int \<Rightarrow> site \<Rightarrow> (account_error, user \<times> site) result" where
  "update_user_route env credentials user_id username email role now s =
     rbind (get_current_user env credentials now s) (\<lambda>me. update_user_as me user_id username email role s)"

definition deactivate_user_as :: "user \<Rightarrow> int \<Rightarrow> site \<Rightarrow> (account_error, site) result" where
  "deactivate_user_as me user_id s =
     rbind (if u_role me = ADMIN
            then rbind (if user_id \<noteq> u_id me then access_require me CUSTOMERS_MANAGE s else Inr ()) (\<lambda>_.
                 rbind (service_get_user user_id me s) (\<lambda>target.
                 if active_admin target then assert_role_manager_remains [(user_id, LEAVES_STAFF)] None s else Inr ()))
            else Inr ()) (\<lambda>_.
     rbind (service_deactivate_user user_id me s) (\<lambda>(u, s).
     Inr (site_audit (Some (u_id me)) ''user.deactivated'' ''user'' [KI user_id] s)))"

definition deactivate_user_route :: "auth_env \<Rightarrow> string \<Rightarrow> int \<Rightarrow> int \<Rightarrow> site \<Rightarrow> (account_error, site) result" where
  "deactivate_user_route env credentials user_id now s =
     rbind (get_current_user env credentials now s) (\<lambda>me. deactivate_user_as me user_id s)"

definition get_user_route :: "auth_env \<Rightarrow> string \<Rightarrow> int \<Rightarrow> int \<Rightarrow> site \<Rightarrow> (account_error, user) result" where
  "get_user_route env credentials user_id now s =
     rbind (get_current_user env credentials now s) (\<lambda>me.
     rbind (if u_role me = ADMIN \<and> user_id \<noteq> u_id me then access_require me CUSTOMERS_READ s else Inr ()) (\<lambda>_.
     service_get_user user_id me s))"

section \<open>Role routes\<close>

text \<open>\<open>" ".join(value.split())\<close>: white space at the ends goes, every run inside becomes one blank.\<close>

fun white_words :: "string \<Rightarrow> string \<Rightarrow> string list" where
  "white_words w [] = (if w = [] then [] else [rev w])"
| "white_words w (c # cs) =
     (if is_space c then (if w = [] then white_words [] cs else rev w # white_words [] cs) else white_words (c # w) cs)"

definition clean_role_name :: "string \<Rightarrow> (account_error, string) result" where
  "clean_role_name value =
     (if 1 \<le> length value \<and> length value \<le> 60
      then let v = join_words (white_words [] value) in if v = [] then Inl InvalidRequest else Inr v
      else Inl InvalidRequest)"

definition role_description :: "string option \<Rightarrow> (account_error, string option) result" where
  "role_description value =
     (case value of None \<Rightarrow> Inr None | Some x \<Rightarrow> if length x \<le> 500 then Inr (Some x) else Inl InvalidRequest)"

definition create_role_route ::
  "auth_env \<Rightarrow> string \<Rightarrow> string \<Rightarrow> string option \<Rightarrow> permission set \<Rightarrow> int \<Rightarrow> site \<Rightarrow> (account_error, staff_role \<times> site) result" where
  "create_role_route env credentials name description permissions now s =
     rbind (require_permission env ROLES_MANAGE credentials now s) (\<lambda>admin.
     rbind (clean_role_name name) (\<lambda>name.
     rbind (role_description description) (\<lambda>description.
     create_role admin name description permissions s)))"

definition update_role_route ::
  "auth_env \<Rightarrow> string \<Rightarrow> int \<Rightarrow> string option \<Rightarrow> string option option \<Rightarrow> permission set option \<Rightarrow> int \<Rightarrow> site
     \<Rightarrow> (account_error, staff_role \<times> site) result" where
  "update_role_route env credentials role_id name description permissions now s =
     rbind (require_permission env ROLES_MANAGE credentials now s) (\<lambda>admin.
     rbind (case name of None \<Rightarrow> Inr None | Some n \<Rightarrow> rbind (clean_role_name n) (\<lambda>x. Inr (Some x))) (\<lambda>name.
     rbind (case description of None \<Rightarrow> Inr None | Some x \<Rightarrow> rbind (role_description x) (\<lambda>y. Inr (Some y))) (\<lambda>description.
     update_role admin role_id name description permissions s)))"

definition delete_role_route :: "auth_env \<Rightarrow> string \<Rightarrow> int \<Rightarrow> int \<Rightarrow> site \<Rightarrow> (account_error, site) result" where
  "delete_role_route env credentials role_id now s =
     rbind (require_permission env ROLES_MANAGE credentials now s) (\<lambda>admin. delete_role admin role_id s)"

definition assign_role_route :: "auth_env \<Rightarrow> string \<Rightarrow> int \<Rightarrow> int \<Rightarrow> int \<Rightarrow> site \<Rightarrow> (account_error, user \<times> site) result" where
  "assign_role_route env credentials user_id role_id now s =
     rbind (require_permission env ROLES_MANAGE credentials now s) (\<lambda>admin. assign_role admin user_id role_id s)"

text \<open>Listing the roles creates the system roles a database without them lacks.\<close>

definition list_roles_route :: "auth_env \<Rightarrow> string \<Rightarrow> int \<Rightarrow> site \<Rightarrow> (account_error, (staff_role \<times> nat) list \<times> site) result" where
  "list_roles_route env credentials now s =
     rbind (require_permission env ROLES_MANAGE credentials now s) (\<lambda>_.
     rbind (ensure_system_roles s) (\<lambda>s.
     Inr (map (\<lambda>r. (r, length (filter (\<lambda>a. sa_role_id a = sr_id r \<and> list_ex (\<lambda>u. u_id u = sa_user_id a \<and> active_admin u) (st_users s))
                                 (st_assignments s))))
            (sort_key (\<lambda>r. (\<not> sr_is_system r, sr_name r)) (st_roles s)), s)))"

definition my_access_route :: "auth_env \<Rightarrow> string \<Rightarrow> int \<Rightarrow> site \<Rightarrow> (account_error, bool \<times> staff_role option \<times> string list) result" where
  "my_access_route env credentials now s =
     rbind (get_current_user env credentials now s) (\<lambda>u.
     Inr (active_admin u, snd (resolve u s), sorted_values (fst (resolve u s))))"

end
