(* ===== verification/Account_Machine.thy ===== *)
theory Account_Machine
  imports Staff
begin

text \<open>
  The accounts as a state machine: a step serves one request or runs one queued job, or the rest of the
  shop moves on. Two views of the state are machines of their own, the refresh tokens and the emailed
  links; the locale \<open>site_view\<close> carries what holds of their moves to every run of the accounts.
\<close>

section \<open>Requests\<close>

datatype account_request =
  Register string string string "string option"
| Login string string "string option"
| Refresh string
| Logout string
| ForgotPassword string
| ResetPassword string string
| ChangePassword string string string
| SendVerification string
| VerifyEmail string
| ChangeEmail string string string
| ConfirmEmailChange string
| RunJob job
| UpdateUser string int "string option" "string option" "user_role option"
| DeactivateUser string int
| CreateRole string string "string option" "permission set"
| UpdateRole string int "string option" "string option option" "permission set option"
| DeleteRole string int
| AssignRole string int int
| ListRoles string

definition committed :: "site \<Rightarrow> (account_error, site) result \<Rightarrow> site" where
  "committed s r = (case r of Inl _ \<Rightarrow> s | Inr s' \<Rightarrow> s')"

definition second_of :: "(account_error, 'a \<times> site) result \<Rightarrow> (account_error, site) result" where
  "second_of r = rbind r (\<lambda>(_, s). Inr s)"

text \<open>The state after a request: a failed one is rolled back, apart from what \<open>refresh\<close> commits itself.\<close>

fun serve :: "auth_env \<Rightarrow> account_request \<Rightarrow> int \<Rightarrow> site \<Rightarrow> site" where
  "serve env (Register username email password guest) now s = committed s (second_of (register_route env username email password guest now s))"
| "serve env (Login email password guest) now s = committed s (second_of (login_route env email password guest now s))"
| "serve env (Refresh token) now s = snd (auth_refresh env token now s)"
| "serve env (Logout token) now s = auth_logout env token now s"
| "serve env (ForgotPassword email) now s = request_password_reset env email now s"
| "serve env (ResetPassword token new) now s = committed s (reset_password env token new now s)"
| "serve env (ChangePassword cred current new) now s = committed s (second_of (change_password_route env cred current new now s))"
| "serve env (SendVerification cred) now s = committed s (send_email_verification_route env cred now s)"
| "serve env (VerifyEmail token) now s = committed s (verify_email env token now s)"
| "serve env (ChangeEmail cred new_email password) now s = committed s (change_email_route env cred new_email password now s)"
| "serve env (ConfirmEmailChange token) now s = committed s (confirm_email_change env token now s)"
| "serve env (RunJob j) now s = committed s (run_account_job env j now s)"
| "serve env (UpdateUser cred i username email role) now s = committed s (second_of (update_user_route env cred i username email role now s))"
| "serve env (DeactivateUser cred i) now s = committed s (deactivate_user_route env cred i now s)"
| "serve env (CreateRole cred name descr ps) now s = committed s (second_of (create_role_route env cred name descr ps now s))"
| "serve env (UpdateRole cred i name descr ps) now s = committed s (second_of (update_role_route env cred i name descr ps now s))"
| "serve env (DeleteRole cred i) now s = committed s (delete_role_route env cred i now s)"
| "serve env (AssignRole cred u i) now s = committed s (second_of (assign_role_route env cred u i now s))"
| "serve env (ListRoles cred) now s = committed s (second_of (list_roles_route env cred now s))"

text \<open>The access token a request carries.\<close>

fun credentials_of :: "account_request \<Rightarrow> string option" where
  "credentials_of (ChangePassword cred _ _) = Some cred"
| "credentials_of (SendVerification cred) = Some cred"
| "credentials_of (ChangeEmail cred _ _) = Some cred"
| "credentials_of (UpdateUser cred _ _ _ _) = Some cred"
| "credentials_of (DeactivateUser cred _) = Some cred"
| "credentials_of (CreateRole cred _ _ _) = Some cred"
| "credentials_of (UpdateRole cred _ _ _ _) = Some cred"
| "credentials_of (DeleteRole cred _) = Some cred"
| "credentials_of (AssignRole cred _ _) = Some cred"
| "credentials_of (ListRoles cred) = Some cred"
| "credentials_of _ = None"

text \<open>
  What the rest of the shop does in between writes none of the account tables and takes its identifiers
  from the same supply.
\<close>

inductive site_step :: "auth_env \<Rightarrow> site \<Rightarrow> site \<Rightarrow> bool" for env where
  serves: "site_step env s (serve env rq now s)"
| elsewhere: "d_next (st_shop s) \<le> d_next d \<Longrightarrow> d_users d = d_users (st_shop s) \<Longrightarrow> site_step env s (s\<lparr>st_shop := d\<rparr>)"

abbreviation site_run :: "auth_env \<Rightarrow> site \<Rightarrow> site \<Rightarrow> bool" where
  "site_run env \<equiv> (site_step env)\<^sup>*\<^sup>*"

locale site_view =
  fixes env :: auth_env and ok :: "site \<Rightarrow> bool" and view :: "site \<Rightarrow> 'v" and moves :: "'v \<Rightarrow> 'v \<Rightarrow> bool"
  assumes step_ok: "site_step env s s' \<Longrightarrow> ok s \<Longrightarrow> ok s'"
    and step_moves: "site_step env s s' \<Longrightarrow> ok s \<Longrightarrow> moves\<^sup>*\<^sup>* (view s) (view s')"
begin

lemma run_ok_moves: "site_run env s s' \<Longrightarrow> ok s \<Longrightarrow> ok s' \<and> moves\<^sup>*\<^sup>* (view s) (view s')"
  by (induction rule: rtranclp_induct) (blast dest: step_ok step_moves intro: rtranclp_trans)+

lemma run_ok: "site_run env s s' \<Longrightarrow> ok s \<Longrightarrow> ok s'"
  by (blast dest: run_ok_moves)

lemma run_invariant:
  assumes "site_run env s s'" and "ok s" and "I (view s)" and "\<And>v w. moves v w \<Longrightarrow> I v \<Longrightarrow> I w"
  shows "I (view s')"
proof -
  have "moves\<^sup>*\<^sup>* (view s) (view s')" using run_ok_moves [OF assms(1,2)] ..
  then show ?thesis using assms(3) by (induction rule: rtranclp_induct) (auto intro: assms(4))
qed

end

section \<open>What the small writers leave alone\<close>

abbreviation next_id :: "site \<Rightarrow> int" where
  "next_id s \<equiv> d_next (st_shop s)"

lemma fresh_id_eq [simp]: "fresh_id s = (next_id s, s\<lparr>st_shop := (st_shop s)\<lparr>d_next := next_id s + 1\<rparr>\<rparr>)"
  by (simp add: fresh_id_def fresh_def)

lemma enqueue_next: "d_next d \<le> d_next (enqueue t p k d)"
  by (simp add: enqueue_def fresh_def Let_def)

lemma site_enqueue_frame [simp]:
  "st_users (site_enqueue t p k s) = st_users s" "st_refresh_tokens (site_enqueue t p k s) = st_refresh_tokens s"
  "st_auth_tokens (site_enqueue t p k s) = st_auth_tokens s" "st_roles (site_enqueue t p k s) = st_roles s"
  "st_assignments (site_enqueue t p k s) = st_assignments s" "next_id s \<le> next_id (site_enqueue t p k s)"
  by (simp_all add: site_enqueue_def enqueue_next)

lemma site_audit_frame [simp]:
  "st_users (site_audit a b c t s) = st_users s" "st_refresh_tokens (site_audit a b c t s) = st_refresh_tokens s"
  "st_auth_tokens (site_audit a b c t s) = st_auth_tokens s" "st_roles (site_audit a b c t s) = st_roles s"
  "st_assignments (site_audit a b c t s) = st_assignments s" "next_id (site_audit a b c t s) = next_id s"
  by (simp_all add: site_audit_def)

lemma put_users_frame [simp]:
  "st_users (put_users us s) = us" "st_refresh_tokens (put_users us s) = st_refresh_tokens s"
  "st_auth_tokens (put_users us s) = st_auth_tokens s" "st_roles (put_users us s) = st_roles s"
  "st_assignments (put_users us s) = st_assignments s" "next_id (put_users us s) = next_id s"
  by (simp_all add: put_users_def)

lemma flush_user_Inr [simp]:
  "flush_user u s = Inr s' \<longleftrightarrow> user_unique u s \<and> s' = put_users (set_row u_id u (st_users s)) s"
  by (auto simp: flush_user_def)

lemma token_writers_frame [simp]:
  "st_users (put_token t s) = st_users s" "st_auth_tokens (put_token t s) = st_auth_tokens s"
  "st_roles (put_token t s) = st_roles s" "st_assignments (put_token t s) = st_assignments s" "st_shop (put_token t s) = st_shop s"
  "st_users (revoke_where P s) = st_users s" "st_auth_tokens (revoke_where P s) = st_auth_tokens s"
  "st_roles (revoke_where P s) = st_roles s" "st_assignments (revoke_where P s) = st_assignments s"
  "st_shop (revoke_where P s) = st_shop s"
  "st_users (use_where Q now s) = st_users s" "st_refresh_tokens (use_where Q now s) = st_refresh_tokens s"
  "st_roles (use_where Q now s) = st_roles s" "st_assignments (use_where Q now s) = st_assignments s"
  "st_shop (use_where Q now s) = st_shop s"
  by (simp_all add: put_token_def revoke_where_def use_where_def)

lemma send_mail_Inr [simp]:
  "send_mail env r l s = Inr s' \<longleftrightarrow> ev_sends env r l \<and> s' = s\<lparr>st_outbox := st_outbox s @ [(r, l)]\<rparr>"
  by (auto simp: send_mail_def)

lemma merge_frame:
  assumes "merge_guest_cart_into_user u g d = Inr d'"
  shows "shop_frame d d'"
  using assms unfolding merge_guest_cart_into_user_def
  by (auto simp: rbind_eq_Inr split: option.splits intro: repo_frames(7) shop_frame_trans [OF merge_items_frame repo_frames(6)])

lemma merge_guest_cart_if_any_frame:
  assumes "merge_guest_cart_if_any u g s = Inr s'"
  obtains d where "s' = s\<lparr>st_shop := d\<rparr>" "next_id s \<le> d_next d" "d_users d = d_users (st_shop s)"
proof (cases "g = None \<or> g = Some []")
  case True
  with assms have "s' = s\<lparr>st_shop := st_shop s\<rparr>" by (auto simp: merge_guest_cart_if_any_def)
  then show ?thesis by (rule that) simp_all
next
  case False
  then obtain x where g: "g = Some x" "x \<noteq> []" by auto
  from assms obtain d where d: "merge_guest_cart_into_user u x (st_shop s) = Inr d" "s' = s\<lparr>st_shop := d\<rparr>"
    by (auto simp: merge_guest_cart_if_any_def g rbind_eq_Inr lift_err_eq)
  have f: "shop_frame (st_shop s) d" by (rule merge_frame [OF d(1)])
  then have "d_users d = d_users (st_shop s)"
    unfolding shop_frame_def by (metis db.select_convs(30) db.surjective db.update_convs(1,7,8))
  with f show ?thesis by (intro that [OF d(2)]) (simp_all add: shop_frame_def)
qed

lemma store_refresh_token_Inr:
  assumes "store_refresh_token uid jti ex fam s = Inr s'"
  obtains t where "s' = s\<lparr>st_shop := (st_shop s)\<lparr>d_next := next_id s + (if fam = None then 2 else 1)\<rparr>, st_refresh_tokens := st_refresh_tokens s @ [t]\<rparr>"
    "tk_id t = next_id s" "tk_family_id t = (case fam of None \<Rightarrow> next_id s + 1 | Some f \<Rightarrow> f)" "tk_jti t = jti" "tk_user_id t = uid"
    "\<not> tk_revoked t" "tk_rotated_at t = None" "tk_grace_replays t = 0" "jti \<notin> tk_jti ` set (st_refresh_tokens s)"
    "tk_expires_at t = ex"
proof -
  let ?t = "\<lparr>tk_id = next_id s, tk_jti = jti, tk_user_id = uid, tk_family_id = (case fam of None \<Rightarrow> next_id s + 1 | Some f \<Rightarrow> f),
      tk_expires_at = ex, tk_revoked = False, tk_rotated_at = None, tk_grace_replays = 0\<rparr>"
  show ?thesis
    using assms by (intro that [of ?t]) (auto simp: store_refresh_token_def Let_def split: option.splits if_splits)
qed

lemma create_auth_token_Inr:
  assumes "create_auth_token uid p h e ex now s = Inr s'"
  obtains t where "s' = s\<lparr>st_shop := (st_shop s)\<lparr>d_next := next_id s + 1\<rparr>, st_auth_tokens := st_auth_tokens s @ [t]\<rparr>"
    "at_token_hash t = h" "at_used_at t = None" "h \<notin> at_token_hash ` set (st_auth_tokens s)" "at_purpose t = p"
    "at_user_id t = uid" "at_email t = e" "at_expires_at t = ex"
proof -
  let ?t = "\<lparr>at_id = next_id s, at_user_id = uid, at_purpose = p, at_token_hash = h, at_email = e,
      at_expires_at = ex, at_used_at = None, at_created_at = now\<rparr>"
  show ?thesis
    using assms by (intro that [of ?t]) (auto simp: create_auth_token_def Let_def split: if_splits)
qed

lemma issue_auth_token_Inr:
  assumes "issue_auth_token env uid p e now s = Inr (tok, s')"
  obtains t where "s' = s\<lparr>st_shop := (st_shop s)\<lparr>d_next := next_id s + 2\<rparr>, st_auth_tokens := st_auth_tokens s @ [t]\<rparr>"
    "at_token_hash t = ev_sha256 env tok" "at_used_at t = None" "at_token_hash t \<notin> at_token_hash ` set (st_auth_tokens s)"
    "at_purpose t = p" "at_user_id t = uid" "at_email t = e"
proof -
  obtain s1 where "create_auth_token uid p (ev_sha256 env tok) e (token_expiry env p now) now
      (s\<lparr>st_shop := (st_shop s)\<lparr>d_next := next_id s + 1\<rparr>\<rparr>) = Inr s1" "s' = s1"
    using assms by (auto simp: issue_auth_token_def Let_def rbind_eq_Inr)
  then show ?thesis by (elim create_auth_token_Inr) (rule that, simp_all add: image_iff)
qed

section \<open>The sessions\<close>

definition sessions :: "site \<Rightarrow> refresh_token list \<times> int" where
  "sessions s = (st_refresh_tokens s, next_id s)"

text \<open>
  The machine of the refresh tokens, with the supply of identifiers: a session opens in a family of its
  own; tokens are revoked; an active token is exchanged for one of its family; and a token that was
  exchanged inside the grace window gives another one while its family is alive.
\<close>

definition fresh_token :: "refresh_token list \<Rightarrow> int \<Rightarrow> refresh_token \<Rightarrow> int \<Rightarrow> bool" where
  "fresh_token ts n t n' \<longleftrightarrow> n \<le> tk_id t \<and> tk_id t < n' \<and> tk_jti t \<notin> tk_jti ` set ts
     \<and> \<not> tk_revoked t \<and> tk_rotated_at t = None \<and> tk_grace_replays t = 0"

inductive session_step :: "auth_env \<Rightarrow> refresh_token list \<times> int \<Rightarrow> refresh_token list \<times> int \<Rightarrow> bool" for env where
  idle: "n \<le> n' \<Longrightarrow> session_step env (ts, n) (ts, n')"
| opens: "fresh_token ts n t n' \<Longrightarrow> n \<le> tk_family_id t \<Longrightarrow> tk_family_id t < n' \<Longrightarrow> session_step env (ts, n) (ts @ [t], n')"
| revokes: "session_step env (ts, n) (map (\<lambda>t. if P t then t\<lparr>tk_revoked := True\<rparr> else t) ts, n)"
| rotates: "t \<in> set ts \<Longrightarrow> \<not> tk_revoked t \<Longrightarrow> ts' = set_row tk_id (t\<lparr>tk_revoked := True, tk_rotated_at := Some now\<rparr>) ts
    \<Longrightarrow> fresh_token ts' n x n' \<Longrightarrow> tk_family_id x = tk_family_id t \<Longrightarrow> tk_user_id x = tk_user_id t
    \<Longrightarrow> session_step env (ts, n) (ts' @ [x], n')"
| replays: "t \<in> set ts \<Longrightarrow> tk_revoked t \<Longrightarrow> tk_rotated_at t \<noteq> None \<Longrightarrow> tk_grace_replays t < refresh_reuse_grace_max_replays env
    \<Longrightarrow> \<exists>y \<in> set ts. tk_family_id y = tk_family_id t \<and> \<not> tk_revoked y
    \<Longrightarrow> ts' = set_row tk_id (t\<lparr>tk_grace_replays := tk_grace_replays t + 1\<rparr>) ts
    \<Longrightarrow> fresh_token ts' n x n' \<Longrightarrow> tk_family_id x = tk_family_id t \<Longrightarrow> tk_user_id x = tk_user_id t
    \<Longrightarrow> session_step env (ts, n) (ts' @ [x], n')"

abbreviation session_moves :: "auth_env \<Rightarrow> site \<Rightarrow> site \<Rightarrow> bool" where
  "session_moves env s s' \<equiv> (session_step env)\<^sup>*\<^sup>* (sessions s) (sessions s')"

lemma session_idle: "st_refresh_tokens s' = st_refresh_tokens s \<Longrightarrow> next_id s \<le> next_id s' \<Longrightarrow> session_moves env s s'"
  by (simp add: sessions_def idle r_into_rtranclp)

lemma session_idle': "session_moves env s s1 \<Longrightarrow> st_refresh_tokens s' = st_refresh_tokens s1 \<Longrightarrow> next_id s1 \<le> next_id s' \<Longrightarrow> session_moves env s s'"
  by (rule rtranclp_trans [OF _ session_idle])

lemma session_revoke: "session_moves env s (revoke_where P s)"
proof -
  have "session_step env (sessions s) (sessions (revoke_where P s))"
    using revokes [of env "st_refresh_tokens s" "next_id s" "\<lambda>t. P t \<and> \<not> tk_revoked t"]
    by (simp add: sessions_def revoke_where_def)
  then show ?thesis ..
qed

lemma session_issue:
  assumes "issue_tokens env u now s = Inr (pair, s')"
  shows "session_moves env s s'"
proof -
  let ?s = "s\<lparr>st_shop := (st_shop s)\<lparr>d_next := next_id s + 1\<rparr>\<rparr>"
  obtain j ex where st: "store_refresh_token (u_id u) j ex None ?s = Inr s'"
    using assms by (auto simp: issue_tokens_def create_refresh_token_def Let_def rbind_eq_Inr)
  then have "session_step env (sessions s) (sessions s')"
    by (elim store_refresh_token_Inr) (auto simp: sessions_def fresh_token_def intro!: opens)
  then show ?thesis ..
qed

lemma reissue_Inr:
  assumes "reissue env sub stored now s = Inr (pair, s')"
  obtains x where "sessions s' = (st_refresh_tokens s @ [x], next_id s + 2)" "fresh_token (st_refresh_tokens s) (next_id s) x (next_id s + 2)"
    "tk_family_id x = tk_family_id stored" "tk_user_id x = tk_user_id stored"
    "st_users s' = st_users s" "st_auth_tokens s' = st_auth_tokens s" "st_roles s' = st_roles s" "st_assignments s' = st_assignments s"
proof -
  let ?s = "s\<lparr>st_shop := (st_shop s)\<lparr>d_next := next_id s + 1\<rparr>\<rparr>"
  obtain j ex where st: "store_refresh_token (tk_user_id stored) j ex (Some (tk_family_id stored)) ?s = Inr s'"
    using assms by (auto simp: reissue_def create_refresh_token_def Let_def rbind_eq_Inr)
  then show ?thesis
  proof (rule store_refresh_token_Inr)
    fix t
    assume "s' = ?s\<lparr>st_shop := (st_shop ?s)\<lparr>d_next := next_id ?s + (if Some (tk_family_id stored) = None then 2 else 1)\<rparr>,
        st_refresh_tokens := st_refresh_tokens ?s @ [t]\<rparr>"
      and "tk_id t = next_id ?s" "tk_family_id t = (case Some (tk_family_id stored) of None \<Rightarrow> next_id ?s + 1 | Some f \<Rightarrow> f)" "tk_jti t = j"
      "tk_user_id t = tk_user_id stored" "\<not> tk_revoked t" "tk_rotated_at t = None" "tk_grace_replays t = 0"
      "j \<notin> tk_jti ` set (st_refresh_tokens ?s)"
    then show ?thesis by (intro that [of t]) (simp_all add: sessions_def fresh_token_def)
  qed
qed

lemma get_refresh_token_Some:
  "get_refresh_token_by_jti j s = Some t \<Longrightarrow> t \<in> set (st_refresh_tokens s) \<and> j = Some (tk_jti t)"
  by (auto simp: get_refresh_token_by_jti_def bind_eq_Some_conv dest: row_SomeD)

lemma refresh_cases:
  obtains (refused) e where "auth_refresh env tok now s = (Inl e, s)"
  | (reused) c t where "ev_decode env now tok = Some c" "get_refresh_token_by_jti (cl_jti c) s = Some t" "tk_revoked t"
      "\<not> is_benign_replay env t now s" "auth_refresh env tok now s = (Inl InvalidRefreshToken, revoke_family (tk_family_id t) s)"
  | (rotated) c t pair s' where "ev_decode env now tok = Some c" "get_refresh_token_by_jti (cl_jti c) s = Some t" "\<not> tk_revoked t"
      "reissue env (cl_sub c) t now (rotate_refresh_token t now s) = Inr (pair, s')" "auth_refresh env tok now s = (Inr pair, s')"
  | (replayed) c t pair s' where "ev_decode env now tok = Some c" "get_refresh_token_by_jti (cl_jti c) s = Some t" "tk_revoked t"
      "is_benign_replay env t now s" "reissue env (cl_sub c) t now (site_audit (Some (tk_user_id t)) ''auth.refresh_replay_accepted''
         ''refresh_token'' [tk_jti t] (record_grace_replay t s)) = Inr (pair, s')" "auth_refresh env tok now s = (Inr pair, s')"
proof (cases "\<exists>e. auth_refresh env tok now s = (Inl e, s)")
  case True
  then show ?thesis using refused by blast
next
  case False
  obtain c where c: "ev_decode env now tok = Some c" "cl_type c = Some ''refresh''"
    using False unfolding auth_refresh_def by (auto split: option.splits if_splits)
  obtain t where t: "get_refresh_token_by_jti (cl_jti c) s = Some t"
    using False c unfolding auth_refresh_def by (auto split: option.splits)
  show ?thesis
  proof (cases "tk_revoked t \<and> \<not> is_benign_replay env t now s")
    case True
    with c t show ?thesis by (intro reused [OF c(1) t]) (simp_all add: auth_refresh_def)
  next
    case ok: False
    then obtain pair s' where chk: "refresh_checked env c t (tk_revoked t) now s = Inr (pair, s')"
      "auth_refresh env tok now s = (Inr pair, s')"
      using False c t unfolding auth_refresh_def by (auto split: sum.splits)
    from chk(1) show ?thesis
      using ok rotated [OF c(1) t _ _ chk(2)] replayed [OF c(1) t _ _ _ chk(2)]
      by (cases "tk_revoked t") (auto simp: refresh_checked_def split: option.splits if_splits)
  qed
qed

lemma session_refresh: "session_moves env s (snd (auth_refresh env tok now s))"
proof (cases rule: refresh_cases [of env tok now s])
  case (refused e)
  then show ?thesis by simp
next
  case (reused c t)
  then show ?thesis by (simp add: revoke_family_def session_revoke)
next
  case (rotated c t pair s')
  have "session_step env (sessions s) (sessions s')"
    using rotated(4)
  proof (rule reissue_Inr)
    fix x
    assume x: "sessions s' = (st_refresh_tokens (rotate_refresh_token t now s) @ [x], next_id (rotate_refresh_token t now s) + 2)"
      "fresh_token (st_refresh_tokens (rotate_refresh_token t now s)) (next_id (rotate_refresh_token t now s)) x (next_id (rotate_refresh_token t now s) + 2)"
      "tk_family_id x = tk_family_id t" "tk_user_id x = tk_user_id t"
    show ?thesis
      using x get_refresh_token_Some [OF rotated(2)] rotated(3)
      by (auto simp: sessions_def rotate_refresh_token_def put_token_def intro!: rotates)
  qed
  then show ?thesis using rotated(5) by auto
next
  case (replayed c t pair s')
  have "session_step env (sessions s) (sessions s')"
    using replayed(5)
  proof (rule reissue_Inr)
    show ?thesis
      if x: "sessions s' = (st_refresh_tokens (site_audit a b l k (record_grace_replay t s)) @ [x], next_id (site_audit a b l k (record_grace_replay t s)) + 2)"
        "fresh_token (st_refresh_tokens (site_audit a b l k (record_grace_replay t s))) (next_id (site_audit a b l k (record_grace_replay t s))) x
           (next_id (site_audit a b l k (record_grace_replay t s)) + 2)"
        "tk_family_id x = tk_family_id t" "tk_user_id x = tk_user_id t" for x a b l k
      using x get_refresh_token_Some [OF replayed(2)] replayed(3,4)
      by (auto simp: sessions_def record_grace_replay_def put_token_def is_benign_replay_def family_has_active_token_def
          list_ex_iff split: option.splits intro!: replays)
  qed
  then show ?thesis using replayed(6) by auto
qed

section \<open>The emailed links\<close>

text \<open>The machine of the emailed tokens: one is issued under a new hash, or unused ones are marked used.\<close>

inductive link_step :: "auth_token list \<Rightarrow> auth_token list \<Rightarrow> bool" where
  issued: "at_token_hash t \<notin> at_token_hash ` set ts \<Longrightarrow> link_step ts (ts @ [t])"
| used: "(\<And>t. P t \<Longrightarrow> at_used_at t = None) \<Longrightarrow> link_step ts (map (\<lambda>t. if P t then t\<lparr>at_used_at := Some now\<rparr> else t) ts)"

abbreviation link_moves :: "site \<Rightarrow> site \<Rightarrow> bool" where
  "link_moves s s' \<equiv> link_step\<^sup>*\<^sup>* (st_auth_tokens s) (st_auth_tokens s')"

lemma link_use: "(\<And>t. P t \<Longrightarrow> at_used_at t = None) \<Longrightarrow> link_moves s (use_where P now s)"
  unfolding use_where_def by (simp add: used r_into_rtranclp)

lemma link_consume: "link_moves s (use_where (consumable h p now) now s)"
  by (rule link_use) (simp add: consumable_def)

lemma link_invalidate: "link_moves s s1 \<Longrightarrow> link_moves s (invalidate_auth_tokens u ps now s1)"
  unfolding invalidate_auth_tokens_def by (erule rtranclp_trans) (rule link_use, simp)

section \<open>What the account operations do to the three views\<close>

text \<open>The columns and tables the access checks read.\<close>

definition staff_part :: "user \<Rightarrow> int \<times> user_role \<times> bool" where
  "staff_part u = (u_id u, u_role u, u_is_active u)"

definition staff_frame :: "site \<Rightarrow> site \<Rightarrow> bool" where
  "staff_frame s s' \<longleftrightarrow> next_id s \<le> next_id s' \<and> st_roles s' = st_roles s \<and> st_assignments s' = st_assignments s
     \<and> map staff_part (st_users s') = map staff_part (st_users s)"

lemma staff_frame_refl [simp]: "staff_frame s s"
  by (simp add: staff_frame_def)

lemma staff_frame_trans: "staff_frame s s1 \<Longrightarrow> staff_frame s1 s2 \<Longrightarrow> staff_frame s s2"
  by (simp add: staff_frame_def)

lemma staff_parts_set_row:
  assumes "row u_id (u_id u') us = Some u" and "u_role u' = u_role u" and "u_is_active u' = u_is_active u" and "distinct (map u_id us)"
  shows "map staff_part (set_row u_id u' us) = map staff_part us"
proof -
  have "staff_part (if u_id x = u_id u' then u' else x) = staff_part x" if "x \<in> set us" for x
    using row_in_distinct [OF assms(4) that] assms(1-3) by (auto simp: staff_part_def)
  then show ?thesis by (simp add: set_row_def)
qed

definition account_moves :: "auth_env \<Rightarrow> site \<Rightarrow> site \<Rightarrow> bool" where
  "account_moves env s s' \<longleftrightarrow> session_moves env s s' \<and> link_moves s s' \<and> staff_frame s s'"

lemma account_moves_refl [simp]: "account_moves env s s"
  by (simp add: account_moves_def)

lemma account_moves_trans: "account_moves env s s1 \<Longrightarrow> account_moves env s1 s2 \<Longrightarrow> account_moves env s s2"
  by (auto simp: account_moves_def intro: rtranclp_trans staff_frame_trans)

lemma moves_idle:
  assumes "st_refresh_tokens s' = st_refresh_tokens s" "st_auth_tokens s' = st_auth_tokens s" "staff_frame s s'"
  shows "account_moves env s s'"
  using assms by (simp add: account_moves_def session_idle staff_frame_def)

lemma moves_shop: "next_id s \<le> d_next d \<Longrightarrow> account_moves env s (s\<lparr>st_shop := d\<rparr>)"
  by (rule moves_idle) (simp_all add: staff_frame_def)

lemma moves_enqueue: "account_moves env s (site_enqueue t p k s)"
  by (rule moves_idle) (simp_all add: staff_frame_def)

lemma moves_audit: "account_moves env s (site_audit a b c t s)"
  by (rule moves_idle) (simp_all add: staff_frame_def)

lemma moves_mail: "account_moves env s (s\<lparr>st_outbox := x\<rparr>)"
  by (rule moves_idle) (simp_all add: staff_frame_def)

lemma moves_revoke: "account_moves env s (revoke_all_refresh_tokens u s)"
  by (simp add: account_moves_def revoke_all_refresh_tokens_def session_revoke staff_frame_def)

lemma moves_use: "(\<And>t. P t \<Longrightarrow> at_used_at t = None) \<Longrightarrow> account_moves env s (use_where P now s)"
  by (simp add: account_moves_def session_idle link_use staff_frame_def)

lemma moves_invalidate: "account_moves env s (invalidate_auth_tokens u ps now s)"
  unfolding invalidate_auth_tokens_def by (rule moves_use) simp

lemma moves_consume: "account_moves env s (use_where (consumable h p now) now s)"
  by (rule moves_use) (simp add: consumable_def)

lemma moves_user:
  assumes "row u_id (u_id u') (st_users s) = Some u" "u_role u' = u_role u" "u_is_active u' = u_is_active u" "distinct (map u_id (st_users s))"
  shows "account_moves env s (put_users (set_row u_id u' (st_users s)) s)"
  by (rule moves_idle) (simp_all add: staff_frame_def staff_parts_set_row [OF assms])

lemma moves_issue:
  assumes "issue_tokens env u now s = Inr (pair, s')"
  shows "account_moves env s s'"
proof -
  let ?s = "s\<lparr>st_shop := (st_shop s)\<lparr>d_next := next_id s + 1\<rparr>\<rparr>"
  obtain j ex where "store_refresh_token (u_id u) j ex None ?s = Inr s'"
    using assms by (auto simp: issue_tokens_def create_refresh_token_def Let_def rbind_eq_Inr)
  then have "st_auth_tokens s' = st_auth_tokens s \<and> staff_frame s s'"
    by (elim store_refresh_token_Inr) (simp add: staff_frame_def)
  then show ?thesis using session_issue [OF assms] by (simp add: account_moves_def)
qed

lemma moves_refresh: "account_moves env s (snd (auth_refresh env tok now s))"
proof -
  have "st_auth_tokens (snd (auth_refresh env tok now s)) = st_auth_tokens s \<and> staff_frame s (snd (auth_refresh env tok now s))"
  proof (cases rule: refresh_cases [of env tok now s])
    case (rotated c t pair s')
    from rotated(4) show ?thesis
      by (rule reissue_Inr) (use rotated(5) in \<open>simp add: sessions_def staff_frame_def rotate_refresh_token_def\<close>)
  next
    case (replayed c t pair s')
    from replayed(5) show ?thesis
      by (rule reissue_Inr) (use replayed(6) in \<open>simp add: sessions_def staff_frame_def record_grace_replay_def\<close>)
  qed (auto simp: revoke_family_def staff_frame_def)
  then show ?thesis using session_refresh by (simp add: account_moves_def)
qed

lemma moves_logout: 
  assumes "distinct (map tk_id (st_refresh_tokens s))"
  shows "account_moves env s (auth_logout env tok now s)"
proof -
  have "session_moves env s (revoke_refresh_token t s)" if "t \<in> set (st_refresh_tokens s)" for t
  proof -
    have "set_row tk_id (t\<lparr>tk_revoked := True\<rparr>) (st_refresh_tokens s)
        = map (\<lambda>x. if x = t then x\<lparr>tk_revoked := True\<rparr> else x) (st_refresh_tokens s)"
      using assms that by (auto simp: set_row_def distinct_map dest: inj_onD)
    then show ?thesis
      using revokes [of env "st_refresh_tokens s" "next_id s" "\<lambda>x. x = t"]
      by (simp add: sessions_def revoke_refresh_token_def put_token_def r_into_rtranclp)
  qed
  then show ?thesis
    by (auto simp: account_moves_def auth_logout_def revoke_refresh_token_def staff_frame_def dest!: get_refresh_token_Some split: option.splits)
qed

section \<open>The account services\<close>

lemma token_owner_Some:
  assumes "token_owner r s = Some (u, email)"
  shows "row u_id (u_id u) (st_users s) = Some u \<and> u_is_active u \<and> r = Some (u_id u, email)"
  using assms by (auto simp: token_owner_def bind_eq_Some_conv get_user_by_id_def split: if_splits dest: row_SomeD)

lemma moves_bump: "account_moves env s (s\<lparr>st_shop := (st_shop s)\<lparr>d_next := next_id s + 1\<rparr>\<rparr>)"
  by (rule moves_shop) simp

lemmas moves_then =
  account_moves_trans [OF _ moves_enqueue] account_moves_trans [OF _ moves_audit] account_moves_trans [OF _ moves_revoke]
  account_moves_trans [OF _ moves_invalidate] account_moves_trans [OF _ moves_mail]

lemma moves_reset:
  assumes "reset_password env tok pw now s = Inr s'" and "distinct (map u_id (st_users s))"
  shows "account_moves env s s'"
proof -
  let ?s1 = "use_where (consumable (ev_sha256 env tok) PASSWORD_RESET now) now s"
  let ?s2 = "?s1\<lparr>st_shop := (st_shop ?s1)\<lparr>d_next := next_id ?s1 + 1\<rparr>\<rparr>"
  let ?u = "\<lambda>u v. u\<lparr>u_password_hash := ev_hash_password env (next_id s) pw, u_email_verified_at := Some v\<rparr>"
  obtain r u email v where u: "token_owner r ?s1 = Some (u, email)"
    and s': "s' = site_enqueue ''send_account_notice'' [KI (u_id u), KS ''password_changed''] None
        (site_audit (Some (u_id u)) ''auth.password_reset'' ''user'' [KI (u_id u)]
        (revoke_all_refresh_tokens (u_id u) (invalidate_auth_tokens (u_id u) [PASSWORD_RESET] now
        (put_users (set_row u_id (?u u v) (st_users ?s2)) ?s2))))"
    using assms(1) unfolding reset_password_def consume_auth_token_def Let_def
    by (auto simp: rbind_eq_Inr split: option.splits if_splits)
  have "account_moves env s ?s2" by (rule account_moves_trans [OF moves_consume moves_bump])
  moreover have "account_moves env ?s2 (put_users (set_row u_id (?u u v) (st_users ?s2)) ?s2)"
    by (rule moves_user [of _ _ u]) (use assms(2) token_owner_Some [OF u] in simp_all)
  ultimately have "account_moves env s (put_users (set_row u_id (?u u v) (st_users ?s2)) ?s2)" by (rule account_moves_trans)
  then show ?thesis unfolding s' by (intro moves_then)
qed

lemma moves_change_password:
  assumes "change_password env u cur pw now s = Inr (pair, s')" and "row u_id (u_id u) (st_users s) = Some u"
    and "distinct (map u_id (st_users s))"
  shows "account_moves env s s'"
proof -
  let ?s1 = "s\<lparr>st_shop := (st_shop s)\<lparr>d_next := next_id s + 1\<rparr>\<rparr>"
  define u' where "u' = u\<lparr>u_password_hash := ev_hash_password env (next_id s) pw\<rparr>"
  then have u': "u_id u' = u_id u" "u_role u' = u_role u" "u_is_active u' = u_is_active u" by simp_all
  obtain s2 where i: "issue_tokens env u' now (revoke_all_refresh_tokens (u_id u') (invalidate_auth_tokens (u_id u') [PASSWORD_RESET] now
       (put_users (set_row u_id u' (st_users ?s1)) ?s1))) = Inr (pair, s2)"
    and s': "s' = site_enqueue ''send_account_notice'' [KI (u_id u'), KS ''password_changed''] None
        (site_audit (Some (u_id u')) ''auth.password_changed'' ''user'' [KI (u_id u')] s2)"
    using assms(1) unfolding change_password_def Let_def u'_def
    by (auto simp: rbind_eq_Inr split: if_splits)
  have "account_moves env ?s1 (put_users (set_row u_id u' (st_users ?s1)) ?s1)"
    by (rule moves_user [of _ _ u]) (use u' assms(2,3) in simp_all)
  from account_moves_trans [OF moves_bump this]
  have "account_moves env s (revoke_all_refresh_tokens (u_id u') (invalidate_auth_tokens (u_id u') [PASSWORD_RESET] now
       (put_users (set_row u_id u' (st_users ?s1)) ?s1)))"
    by (intro moves_then)
  from account_moves_trans [OF this moves_issue [OF i]] show ?thesis unfolding s' by (intro moves_then)
qed

lemma moves_request_verification: "account_moves env s (request_email_verification u now s)"
  by (simp add: request_email_verification_def moves_enqueue)

lemma moves_verify:
  assumes "verify_email env tok now s = Inr s'" and "distinct (map u_id (st_users s))"
  shows "account_moves env s s'"
proof -
  let ?s1 = "use_where (consumable (ev_sha256 env tok) EMAIL_VERIFICATION now) now s"
  obtain r u email where u: "token_owner r ?s1 = Some (u, email)"
    and s': "s' = ?s1 \<or> s' = site_audit (Some (u_id u)) ''auth.email_verified'' ''user'' [KI (u_id u)]
        (put_users (set_row u_id (u\<lparr>u_email_verified_at := Some now\<rparr>) (st_users ?s1)) ?s1)"
    using assms(1) unfolding verify_email_def consume_auth_token_def Let_def
    by (auto simp: rbind_eq_Inr split: option.splits if_splits)
  have "account_moves env ?s1 (put_users (set_row u_id (u\<lparr>u_email_verified_at := Some now\<rparr>) (st_users ?s1)) ?s1)"
    by (rule moves_user [of _ _ u]) (use assms(2) token_owner_Some [OF u] in simp_all)
  from moves_then(2) [OF account_moves_trans [OF moves_consume this]] moves_consume show ?thesis using s' by auto
qed

lemma moves_confirm:
  assumes "confirm_email_change env tok now s = Inr s'" and "distinct (map u_id (st_users s))"
  shows "account_moves env s s'"
proof -
  let ?s1 = "use_where (consumable (ev_sha256 env tok) EMAIL_CHANGE now) now s"
  obtain r u email where u: "token_owner r ?s1 = Some (u, email)"
    and s': "s' = site_enqueue ''send_account_notice'' [KS ''email_changed'', KS (u_email u), KS email] None
        (site_audit (Some (u_id u)) ''auth.email_changed'' ''user'' [KI (u_id u)]
        (invalidate_auth_tokens (u_id u) [PASSWORD_RESET, EMAIL_VERIFICATION, EMAIL_CHANGE] now
        (put_users (set_row u_id (u\<lparr>u_email := email, u_email_verified_at := Some now\<rparr>) (st_users ?s1)) ?s1)))"
    using assms(1) unfolding confirm_email_change_def consume_auth_token_def Let_def
    by (auto simp: rbind_eq_Inr split: option.splits if_splits)
  have "account_moves env ?s1 (put_users (set_row u_id (u\<lparr>u_email := email, u_email_verified_at := Some now\<rparr>) (st_users ?s1)) ?s1)"
    by (rule moves_user [of _ _ u]) (use assms(2) token_owner_Some [OF u] in simp_all)
  from account_moves_trans [OF moves_consume this] show ?thesis unfolding s' by (intro moves_then)
qed

lemma moves_issue_link:
  assumes "issue_auth_token env uid p e now s = Inr (tok, s')"
  shows "account_moves env s s'"
  using assms by (rule issue_auth_token_Inr) (simp add: account_moves_def session_idle staff_frame_def issued r_into_rtranclp)

lemma moves_job:
  assumes "run_account_job env j now s = Inr s'"
  shows "account_moves env s s'"
proof -
  have "account_moves env s s'" if "send_password_reset env e now s = Inr s'" for e
    using that unfolding send_password_reset_def
    by (auto simp: rbind_eq_Inr split: option.splits if_splits intro: account_moves_trans [OF moves_issue_link moves_mail])
  moreover have "account_moves env s s'" if "send_email_verification env i now s = Inr s'" for i
    using that unfolding send_email_verification_def
    by (auto simp: rbind_eq_Inr split: option.splits if_splits intro: account_moves_trans [OF moves_issue_link moves_mail])
  moreover have "account_moves env s s'" if "send_email_change env i e now s = Inr s'" for i e
    using that unfolding send_email_change_def
    by (auto simp: rbind_eq_Inr split: option.splits if_splits intro: account_moves_trans [OF moves_issue_link moves_mail])
  moreover have "account_moves env s s'" if "send_account_notice env p s = Inr s'" for p
    using that unfolding send_account_notice_def
    by (auto split: list.splits key_part.splits option.splits if_splits intro: moves_mail)
  ultimately show ?thesis
    using assms unfolding run_account_job_def by (auto split: list.splits key_part.splits if_splits)
qed

lemma current_user_Inr:
  assumes "get_current_user env cred now s = Inr u"
  shows "row u_id (u_id u) (st_users s) = Some u \<and> u_is_active u"
  using assms unfolding get_current_user_def
  by (auto simp: get_user_by_id_def split: option.splits if_splits key_part.splits dest: row_SomeD)

lemma moves_login:
  assumes "login_route env email pw g now s = Inr (pair, s')"
  shows "account_moves env s s'"
proof -
  obtain u s1 where i: "issue_tokens env u now s = Inr (pair, s1)" and r: "s' = s1 \<or> (\<exists>v. merge_guest_cart_if_any v g s1 = Inr s')"
    using assms unfolding login_route_def auth_login_def
    by (auto simp: rbind_eq_Inr split: option.splits if_splits)
  have "account_moves env s1 s'" using r by (auto elim!: merge_guest_cart_if_any_frame intro: moves_shop)
  with moves_issue [OF i] show ?thesis by (rule account_moves_trans)
qed

lemma register_route_Inr:
  assumes "register_route env name email pw g now s = Inr (u, s')"
  shows "st_users s' = st_users s @ [u] \<and> u_id u = next_id s + 1 \<and> u_id u < next_id s' \<and> u_role u = USER \<and> u_is_active u
     \<and> u_email_verified_at u = None
     \<and> st_refresh_tokens s' = st_refresh_tokens s \<and> st_auth_tokens s' = st_auth_tokens s \<and> st_roles s' = st_roles s
     \<and> st_assignments s' = st_assignments s"
proof -
  obtain s1 where r: "auth_register env name email pw now s = Inr (u, s1)"
    and m: "merge_guest_cart_if_any (u_id u) g (request_email_verification u now s1) = Inr s'"
    using assms by (auto simp: register_route_def rbind_eq_Inr)
  from r have s1: "st_users s1 = st_users s @ [u] \<and> u_id u = next_id s + 1 \<and> next_id s1 = next_id s + 2 \<and> u_role u = USER \<and> u_is_active u
     \<and> u_email_verified_at u = None
     \<and> st_refresh_tokens s1 = st_refresh_tokens s \<and> st_auth_tokens s1 = st_auth_tokens s \<and> st_roles s1 = st_roles s
     \<and> st_assignments s1 = st_assignments s"
    unfolding auth_register_def create_user_def by (auto simp: Let_def split: if_splits)
  moreover have "next_id s1 \<le> next_id (request_email_verification u now s1)" by (simp add: request_email_verification_def)
  ultimately show ?thesis
    using m by (elim merge_guest_cart_if_any_frame) (simp add: request_email_verification_def)
qed

end
