(* ===== verification/Access_Rules.thy ===== *)
theory Access_Rules
  imports Account_Machine
begin

text \<open>
  What the requests do to staff access: the tables stay well formed, some active administrator can always
  manage roles, and nobody gains a permission except through a request of someone who can.
\<close>

section \<open>Who holds what\<close>

definition holds :: "int \<Rightarrow> permission \<Rightarrow> site \<Rightarrow> bool" where
  "holds i p s \<longleftrightarrow> (\<exists>u \<in> set (st_users s). u_id u = i \<and> has_permission u p s)"

definition manager_exists :: "site \<Rightarrow> bool" where
  "manager_exists s \<longleftrightarrow> (\<exists>u \<in> set (st_users s). has_permission u ROLES_MANAGE s)"

definition SYSTEM_ROLES :: "int list" where
  "SYSTEM_ROLES = [OWNER_ROLE_ID, NO_ACCESS_ROLE_ID]"

text \<open>Keys, foreign keys, and that the system roles are the two fixed ones, the second without permissions.\<close>

definition staff_ok :: "site \<Rightarrow> bool" where
  "staff_ok s \<longleftrightarrow> distinct (map u_id (st_users s)) \<and> distinct (map sr_id (st_roles s)) \<and> distinct (map sa_user_id (st_assignments s))
     \<and> 0 \<le> next_id s \<and> (\<forall>u \<in> set (st_users s). u_id u < next_id s) \<and> (\<forall>r \<in> set (st_roles s). sr_id r < next_id s)
     \<and> (\<forall>a \<in> set (st_assignments s). sa_role_id a \<in> sr_id ` set (st_roles s))
     \<and> (\<forall>r \<in> set (st_roles s). sr_is_system r \<longleftrightarrow> sr_id r \<in> set SYSTEM_ROLES)
     \<and> (\<forall>r \<in> set (st_roles s). sr_id r = NO_ACCESS_ROLE_ID \<longrightarrow> sr_permissions r = [])"

lemma staff_okD:
  assumes "staff_ok s"
  shows "distinct (map u_id (st_users s))" "distinct (map sr_id (st_roles s))" "distinct (map sa_user_id (st_assignments s))"
    "0 \<le> next_id s" "\<And>u. u \<in> set (st_users s) \<Longrightarrow> u_id u < next_id s" "\<And>r. r \<in> set (st_roles s) \<Longrightarrow> sr_id r < next_id s"
    "\<And>a. a \<in> set (st_assignments s) \<Longrightarrow> sa_role_id a \<in> sr_id ` set (st_roles s)"
    "\<And>r. r \<in> set (st_roles s) \<Longrightarrow> sr_is_system r \<longleftrightarrow> sr_id r \<in> set SYSTEM_ROLES"
    "\<And>r. r \<in> set (st_roles s) \<Longrightarrow> sr_id r = NO_ACCESS_ROLE_ID \<Longrightarrow> sr_permissions r = []"
  using assms unfolding staff_ok_def by blast+

text \<open>The outcome of a request: \<open>manages\<close> says whether its sender could manage roles.\<close>

definition access_change :: "bool \<Rightarrow> site \<Rightarrow> site \<Rightarrow> bool" where
  "access_change manages s s' \<longleftrightarrow> staff_ok s' \<and> (manager_exists s \<longrightarrow> manager_exists s')
     \<and> (manages \<or> (\<forall>i p. holds i p s' \<longrightarrow> holds i p s))"

lemma has_permission_iff:
  "has_permission u p s \<longleftrightarrow> active_admin u \<and> p \<in> role_permissions (assigned_role (u_id u) s)"
  by (simp add: has_permission_def resolve_def Let_def)

lemma remains_Inr:
  "assert_role_manager_remains uc rc s = Inr x
     \<longleftrightarrow> (\<exists>u \<in> set (st_users s). active_admin u \<and> keeps_managing uc rc (u, assigned_role (u_id u) s))"
  by (auto simp: assert_role_manager_remains_def lock_active_admins_def list_ex_iff)

lemma all_permissions [simp]: "p \<in> set ALL_PERMISSIONS"
  by (cases p) (simp_all add: ALL_PERMISSIONS_def)

lemma permission_value_inj: "permission_value p = permission_value q \<Longrightarrow> p = q"
  by (cases p; cases q) simp_all

lemma known_sorted [simp]: "known_permissions (sorted_values ps) = ps"
proof -
  have "finite (UNIV :: permission set)" by (rule finite_subset [of _ "set ALL_PERMISSIONS"]) auto
  then have "finite (permission_value ` ps)" by (meson finite_imageI finite_subset top_greatest)
  then show ?thesis by (auto simp: known_permissions_def sorted_values_def dest: permission_value_inj)
qed

lemma known_Nil [simp]: "known_permissions [] = {}"
  by (simp add: known_permissions_def)

lemma effective_Nil [simp]: "effective {} = {}"
  by (simp add: effective_def)

lemma effective_manage [simp]: "ROLES_MANAGE \<in> effective ps \<longleftrightarrow> ROLES_MANAGE \<in> ps"
proof -
  have "ROLES_MANAGE \<notin> IMPLIES p" for p by (cases p) simp_all
  then show ?thesis by (auto simp: effective_def)
qed

section \<open>Requests that leave the staff alone\<close>

lemma assigned_role_frame: "st_roles s' = st_roles s \<Longrightarrow> st_assignments s' = st_assignments s \<Longrightarrow> assigned_role i s' = assigned_role i s"
  by (simp add: assigned_role_def get_assignment_def get_role_def)

lemma holds_parts:
  "holds i p s \<longleftrightarrow> (i, ADMIN, True) \<in> staff_part ` set (st_users s) \<and> p \<in> role_permissions (assigned_role i s)"
  by (auto simp: holds_def has_permission_iff active_admin_def staff_part_def image_iff)

lemma manager_holds: "manager_exists s \<longleftrightarrow> (\<exists>i. holds i ROLES_MANAGE s)"
  by (auto simp: manager_exists_def holds_def)

lemma staff_ids: "map u_id us = map fst (map staff_part us)"
  by (simp add: staff_part_def)

lemma staff_frame_change:
  assumes "staff_frame s s'" and "staff_ok s"
  shows "access_change m s s'"
proof -
  have parts: "map staff_part (st_users s') = map staff_part (st_users s)" and r: "st_roles s' = st_roles s" "st_assignments s' = st_assignments s"
    and n: "next_id s \<le> next_id s'" using assms(1) by (simp_all add: staff_frame_def)
  have ids: "map u_id (st_users s') = map u_id (st_users s)" by (simp only: staff_ids parts)
  have set_ids: "u_id ` set (st_users s') = u_id ` set (st_users s)" using ids by (metis set_map)
  have "u_id u < next_id s'" if "u \<in> set (st_users s')" for u
  proof -
    from that set_ids obtain x where "x \<in> set (st_users s)" "u_id u = u_id x" by (metis image_iff)
    then show ?thesis using staff_okD(5) [OF assms(2)] n by fastforce
  qed
  moreover have "sr_id x < next_id s'" if "x \<in> set (st_roles s)" for x using staff_okD(6) [OF assms(2) that] n by simp
  ultimately have "staff_ok s'"
    using assms(2) n unfolding staff_ok_def ids r by simp
  moreover have "staff_part ` set (st_users s') = staff_part ` set (st_users s)" using parts by (metis set_map)
  then have "holds i p s' \<longleftrightarrow> holds i p s" for i p
    by (simp only: holds_parts assigned_role_frame [OF r])
  ultimately show ?thesis by (simp add: access_change_def manager_holds)
qed

lemma register_change:
  assumes "register_route env name email pw g now s = Inr (u, s')" and "staff_ok s"
  shows "access_change m s s'"
proof -
  note f = register_route_Inr [OF assms(1)]
  have new: "u_id u \<notin> u_id ` set (st_users s)" using staff_okD(5) [OF assms(2)] f by fastforce
  have n: "next_id s \<le> next_id s'" using f by simp
  have "x \<in> set (st_users s) \<Longrightarrow> u_id x < next_id s'" "y \<in> set (st_roles s) \<Longrightarrow> sr_id y < next_id s'" for x y
    using staff_okD(5,6) [OF assms(2)] n by fastforce+
  then have "staff_ok s'" using assms(2) f new n by (auto simp: staff_ok_def)
  moreover have "holds i p s' \<longleftrightarrow> holds i p s" for i p
    using f by (auto simp: holds_parts assigned_role_frame [of s' s] staff_part_def)
  ultimately show ?thesis by (simp add: access_change_def manager_holds)
qed

section \<open>Roles\<close>

lemma get_role_Some: "get_role i s = Some r \<Longrightarrow> r \<in> set (st_roles s) \<and> sr_id r = i"
  by (auto simp: get_role_def dest: row_SomeD)

lemma get_role_None: "get_role i s = None \<longleftrightarrow> i \<notin> sr_id ` set (st_roles s)"
  by (simp add: get_role_def row_None_iff)

lemma service_get_role_Inr [simp]: "service_get_role i s = Inr r \<longleftrightarrow> get_role i s = Some r"
  by (auto simp: service_get_role_def split: option.splits)

lemma add_system_role:
  assumes "staff_ok s" and "get_role i s = None" and "i \<in> set SYSTEM_ROLES"
    and "s' = s\<lparr>st_roles := st_roles s @ [\<lparr>sr_id = i, sr_name = n, sr_description = None, sr_permissions = [], sr_is_system = True\<rparr>]\<rparr>"
  shows "staff_ok s' \<and> assigned_role j s' = assigned_role j s"
proof
  have new: "i \<notin> sr_id ` set (st_roles s)" using assms(2) by (simp add: get_role_None)
  have "i < next_id s" using assms(3) staff_okD(4) [OF assms(1)] by (auto simp: SYSTEM_ROLES_def OWNER_ROLE_ID_def NO_ACCESS_ROLE_ID_def)
  with assms new show "staff_ok s'" by (auto simp: staff_ok_def)
  have "get_role (sa_role_id a) s' = get_role (sa_role_id a) s" if "a \<in> set (st_assignments s)" for a
    using staff_okD(7) [OF assms(1) that] new by (auto simp: assms(4) get_role_def row_append split: option.splits simp: row_None_iff)
  then show "assigned_role j s' = assigned_role j s"
    using assms(4) by (auto simp: assigned_role_def get_assignment_def bind_eq_None_conv dest: row_SomeD
        intro!: Option.bind_cong)
qed

text \<open>Creating the system roles changes nobody's role.\<close>

lemma ensure_system_roles_Inr:
  assumes "ensure_system_roles s = Inr s'" and "staff_ok s"
  shows "staff_ok s' \<and> st_users s' = st_users s \<and> st_assignments s' = st_assignments s \<and> (\<forall>j. assigned_role j s' = assigned_role j s)
     \<and> st_refresh_tokens s' = st_refresh_tokens s \<and> st_auth_tokens s' = st_auth_tokens s \<and> st_shop s' = st_shop s
     \<and> get_role NO_ACCESS_ROLE_ID s' \<noteq> None"
proof -
  let ?P = "\<lambda>s'. staff_ok s' \<and> st_users s' = st_users s \<and> st_assignments s' = st_assignments s \<and> (\<forall>j. assigned_role j s' = assigned_role j s)
     \<and> st_refresh_tokens s' = st_refresh_tokens s \<and> st_auth_tokens s' = st_auth_tokens s \<and> st_shop s' = st_shop s"
  have step: "?P t' \<and> get_role i t' \<noteq> None"
    if "(if get_role i t = None
         then add_role \<lparr>sr_id = i, sr_name = n, sr_description = None, sr_permissions = [], sr_is_system = True\<rparr> t else Inr t) = Inr t'"
      and P: "?P t" and i: "i \<in> set SYSTEM_ROLES" for i n t t'
  proof (cases "get_role i t = None")
    case True
    with that(1) have t': "t' = t\<lparr>st_roles := st_roles t @ [\<lparr>sr_id = i, sr_name = n, sr_description = None, sr_permissions = [], sr_is_system = True\<rparr>]\<rparr>"
      by (simp add: add_role_def split: if_splits)
    have "staff_ok t' \<and> assigned_role j t' = assigned_role j t" for j
      by (rule add_system_role [OF _ True i t']) (use P in blast)
    with P show ?thesis by (simp add: t' get_role_None)
  next
    case False
    with that show ?thesis by simp
  qed
  from assms(1) obtain s1 where
    "(if get_role OWNER_ROLE_ID s = None
      then add_role \<lparr>sr_id = OWNER_ROLE_ID, sr_name = OWNER_ROLE_NAME, sr_description = None, sr_permissions = [], sr_is_system = True\<rparr> s else Inr s) = Inr s1"
    "(if get_role NO_ACCESS_ROLE_ID s1 = None
      then add_role \<lparr>sr_id = NO_ACCESS_ROLE_ID, sr_name = NO_ACCESS_ROLE_NAME, sr_description = None, sr_permissions = [], sr_is_system = True\<rparr> s1 else Inr s1) = Inr s'"
    unfolding ensure_system_roles_def by (auto simp: rbind_eq_Inr)
  moreover have "OWNER_ROLE_ID \<in> set SYSTEM_ROLES" "NO_ACCESS_ROLE_ID \<in> set SYSTEM_ROLES" by (simp_all add: SYSTEM_ROLES_def)
  ultimately show ?thesis using step [where i = OWNER_ROLE_ID and t = s and t' = s1] step [where i = NO_ACCESS_ROLE_ID and t = s1 and t' = s'] assms(2) by blast
qed

lemma holds_same_roles:
  assumes "st_users s' = st_users s" and "\<And>j. assigned_role j s' = assigned_role j s"
  shows "holds i p s' \<longleftrightarrow> holds i p s"
  by (simp add: holds_parts assms)

lemma access_same:
  assumes "staff_ok s'" and "st_users s' = st_users s" and "\<And>j. assigned_role j s' = assigned_role j s"
  shows "access_change m s s'"
  using assms holds_same_roles [OF assms(2,3)] by (simp add: access_change_def manager_holds)

lemma staff_ok_audit [simp]: "staff_ok (site_audit a b c t s) = staff_ok s"
  by (simp add: staff_ok_def)

lemma assigned_role_audit [simp]: "assigned_role j (site_audit a b c t s) = assigned_role j s"
  by (rule assigned_role_frame) simp_all

lemma create_role_change:
  assumes "create_role me name d ps s = Inr (r, s')" and "staff_ok s"
  shows "access_change m s s'"
proof -
  let ?s = "s\<lparr>st_shop := (st_shop s)\<lparr>d_next := next_id s + 1\<rparr>\<rparr>"
  have r: "sr_id r = next_id s" "\<not> sr_is_system r"
    and s': "s' = site_audit (Some (u_id me)) ''staff_role.created'' ''staff_role'' [KI (next_id s)] (?s\<lparr>st_roles := st_roles s @ [r]\<rparr>)"
    using assms(1) unfolding create_role_def Let_def by (auto simp: rbind_eq_Inr add_role_def split: if_splits)
  have new: "next_id s \<notin> sr_id ` set (st_roles s)" using staff_okD(6) [OF assms(2)] by fastforce
  have n: "0 \<le> next_id s" by (rule staff_okD(4) [OF assms(2)])
  have "x \<in> set (st_users s) \<Longrightarrow> u_id x < next_id s + 1" "y \<in> set (st_roles s) \<Longrightarrow> sr_id y < next_id s + 1" for x y
    using staff_okD(5,6) [OF assms(2)] by fastforce+
  then have "staff_ok s'"
    using assms(2) new r n unfolding s' by (auto simp: staff_ok_def SYSTEM_ROLES_def OWNER_ROLE_ID_def NO_ACCESS_ROLE_ID_def)
  moreover have "get_role (sa_role_id a) s' = get_role (sa_role_id a) s" if "a \<in> set (st_assignments s)" for a
    using staff_okD(7) [OF assms(2) that] new r by (auto simp: s' get_role_def row_append split: option.splits simp: row_None_iff)
  then have "assigned_role j s' = assigned_role j s" for j
    by (auto simp: assigned_role_def get_assignment_def s' dest: row_SomeD intro!: Option.bind_cong)
  ultimately show ?thesis by (intro access_same) (simp_all add: s')
qed

lemma row_filter_other: "j \<noteq> k \<Longrightarrow> row key j (filter (\<lambda>x. key x \<noteq> k) t) = row key j t"
  by (induction t) auto

lemma delete_role_change:
  assumes "delete_role me i s = Inr s'" and "staff_ok s"
  shows "access_change m s s'"
proof -
  obtain r where r: "get_role i s = Some r" "\<not> sr_is_system r" "count_assignments (sr_id r) s = 0"
    and s': "s' = site_audit (Some (u_id me)) ''staff_role.deleted'' ''staff_role'' [KI i]
       (s\<lparr>st_roles := filter (\<lambda>x. sr_id x \<noteq> sr_id r) (st_roles s)\<rparr>)"
    using assms(1) unfolding delete_role_def Let_def by (auto simp: rbind_eq_Inr split: if_splits)
  have free: "sa_role_id a \<noteq> sr_id r" if "a \<in> set (st_assignments s)" for a
    using r(3) that by (auto simp: count_assignments_def filter_empty_conv)
  have "sa_role_id a \<in> sr_id ` {x \<in> set (st_roles s). sr_id x \<noteq> sr_id r}" if "a \<in> set (st_assignments s)" for a
    using free [OF that] staff_okD(7) [OF assms(2) that] by auto
  then have "staff_ok s'"
    using assms(2) unfolding s' by (auto simp: staff_ok_def distinct_map_filter)
  moreover have "get_role j s' = get_role j s" if "j \<noteq> sr_id r" for j
    using that by (simp add: s' get_role_def row_filter_other)
  then have "assigned_role j s' = assigned_role j s" for j
    using free by (auto simp: assigned_role_def get_assignment_def s' dest: row_SomeD intro!: Option.bind_cong)
  ultimately show ?thesis by (intro access_same) (simp_all add: s')
qed

lemma role_permissions_cong:
  "sr_id r' = sr_id r \<Longrightarrow> sr_permissions r' = sr_permissions r \<Longrightarrow> role_permissions (Some r') = role_permissions (Some r)"
  by (simp add: role_permissions_def)

text \<open>After the edit of a role, whoever holds it holds the new version.\<close>

lemma assigned_role_set_row:
  assumes "s' = s\<lparr>st_roles := set_row sr_id r' (st_roles s)\<rparr>" and "get_role (sr_id r') s \<noteq> None"
  shows "assigned_role j s' = map_option (\<lambda>x. if sr_id x = sr_id r' then r' else x) (assigned_role j s)"
proof -
  have "get_role i s' = map_option (\<lambda>x. if sr_id x = sr_id r' then r' else x) (get_role i s)" for i
    using assms(2) by (auto simp: assms(1) get_role_def row_set_row dest: row_SomeD split: option.splits
        simp: map_option_case)
  then show ?thesis by (simp add: assigned_role_def get_assignment_def assms(1) split: bind_split)
qed

lemma update_role_Inr:
  assumes "update_role me i n d ps s = Inr (r', s')"
  obtains r where "get_role i s = Some r" "\<not> sr_is_system r" "sr_id r' = sr_id r" "sr_is_system r' = sr_is_system r"
    "sr_permissions r' = (case ps of None \<Rightarrow> sr_permissions r | Some q \<Rightarrow> sorted_values q)"
    "\<And>q. ps = Some q \<Longrightarrow> ROLES_MANAGE \<notin> q \<Longrightarrow> assert_role_manager_remains [] (Some (i, q)) s = Inr ()"
    "s' = site_audit (Some (u_id me)) ''staff_role.updated'' ''staff_role'' [KI (sr_id r')] (s\<lparr>st_roles := set_row sr_id r' (st_roles s)\<rparr>)"
proof -
  obtain r r0 where r: "get_role i s = Some r" "\<not> sr_is_system r" and rn: "rename_role n r s = Inr r0"
    and rest: "(let role = (case d of None \<Rightarrow> r0 | Some x \<Rightarrow> r0\<lparr>sr_description := x\<rparr>) in
        rbind (case ps of
          None \<Rightarrow> Inr role
        | Some ps \<Rightarrow>
            rbind (if ROLES_MANAGE \<notin> ps then assert_role_manager_remains [] (Some (sr_id role, ps)) s else Inr ()) (\<lambda>_.
            Inr (role\<lparr>sr_permissions := sorted_values ps\<rparr>))) (\<lambda>role.
        Inr (role, site_audit (Some (u_id me)) ''staff_role.updated'' ''staff_role'' [KI (sr_id role)]
              (s\<lparr>st_roles := set_row sr_id role (st_roles s)\<rparr>)))) = Inr (r', s')"
    using assms unfolding update_role_def rbind_eq_Inr [of "service_get_role i s"] service_get_role_Inr
    by (auto simp: rbind_eq_Inr [of "rename_role _ _ _"] split: if_splits)
  have i: "sr_id r = i" using get_role_Some [OF r(1)] by simp
  from rn have r0: "sr_id r0 = sr_id r" "sr_is_system r0 = sr_is_system r" "sr_permissions r0 = sr_permissions r"
    by (auto simp: rename_role_def split: option.splits if_splits)
  show ?thesis
    by (rule that [OF r]) (use rest r0 i in \<open>auto simp: Let_def rbind_eq_Inr split: option.splits if_splits\<close>)
qed

lemma update_role_change:
  assumes "update_role me i n d ps s = Inr (r', s')" and "staff_ok s"
  shows "access_change True s s'"
  using assms(1)
proof (rule update_role_Inr)
  fix r
  assume r: "get_role i s = Some r" "\<not> sr_is_system r" and r': "sr_id r' = sr_id r" "sr_is_system r' = sr_is_system r"
    and perms: "sr_permissions r' = (case ps of None \<Rightarrow> sr_permissions r | Some q \<Rightarrow> sorted_values q)"
    and kept: "\<And>q. ps = Some q \<Longrightarrow> ROLES_MANAGE \<notin> q \<Longrightarrow> assert_role_manager_remains [] (Some (i, q)) s = Inr ()"
    and s': "s' = site_audit (Some (u_id me)) ''staff_role.updated'' ''staff_role'' [KI (sr_id r')] (s\<lparr>st_roles := set_row sr_id r' (st_roles s)\<rparr>)"
  have in_r: "r \<in> set (st_roles s)" "sr_id r = i" using get_role_Some [OF r(1)] by auto
  have nosys: "sr_id r \<notin> set SYSTEM_ROLES" using staff_okD(8) [OF assms(2) in_r(1)] r(2) by simp
  have ids: "sr_id ` set (set_row sr_id r' (st_roles s)) = sr_id ` set (st_roles s)" by (metis keys_set_row set_map)
  have "staff_ok s'"
    using assms(2) nosys r'(1,2) r(2) staff_okD(6) [OF assms(2) in_r(1)] unfolding s'
    by (auto simp: staff_ok_def ids SYSTEM_ROLES_def dest!: set_set_rowD)
  have asg: "assigned_role j s' = map_option (\<lambda>x. if sr_id x = i then r' else x) (assigned_role j s)" for j
    unfolding s' assigned_role_audit by (subst assigned_role_set_row [OF refl]) (simp_all add: r' in_r(2) r(1))
  have this_role: "x = r" if "assigned_role j s = Some x" "sr_id x = i" for x j
    using that r(1) get_role_Some by (auto simp: assigned_role_def bind_eq_Some_conv)
  have "manager_exists s'" if mgr: "manager_exists s"
  proof (cases "\<exists>q. ps = Some q \<and> ROLES_MANAGE \<notin> q")
    case True
    then obtain q u where u: "u \<in> set (st_users s)" "active_admin u" "keeps_managing [] (Some (i, q)) (u, assigned_role (u_id u) s)"
      and q: "ps = Some q" "ROLES_MANAGE \<notin> q"
      using kept by (auto simp: remains_Inr)
    have "ROLES_MANAGE \<in> role_permissions (assigned_role (u_id u) s')"
      using u(3) q(2) r(2) by (auto simp: keeps_managing_def asg Let_def dest: this_role split: option.splits if_splits)
    with u show ?thesis by (auto simp: manager_exists_def has_permission_iff s')
  next
    case False
    from mgr obtain u where u: "u \<in> set (st_users s)" "active_admin u" "ROLES_MANAGE \<in> role_permissions (assigned_role (u_id u) s)"
      by (auto simp: manager_exists_def has_permission_iff)
    have "ROLES_MANAGE \<in> role_permissions (Some r')" if "ROLES_MANAGE \<in> role_permissions (Some r)"
      using that False perms r'(1) by (auto simp: role_permissions_def split: option.splits)
    then have "ROLES_MANAGE \<in> role_permissions (assigned_role (u_id u) s')"
      using u(3) by (cases "assigned_role (u_id u) s") (auto simp: asg dest: this_role)
    with u show ?thesis by (auto simp: manager_exists_def has_permission_iff s')
  qed
  with \<open>staff_ok s'\<close> show ?thesis by (simp add: access_change_def)
qed

section \<open>Assignments\<close>

lemma assigned_set_assignment:
  assumes "get_role rid s = Some r"
  shows "assigned_role j (set_assignment u rid a s) = (if j = u then Some r else assigned_role j s)"
  using assms
  by (auto simp: set_assignment_def Let_def assigned_role_def get_assignment_def get_role_def row_append row_set_row split: option.splits)

lemma staff_ok_set_assignment:
  assumes "staff_ok s" and "get_role rid s \<noteq> None"
  shows "staff_ok (set_assignment u rid a s)"
proof -
  have rid: "rid \<in> sr_id ` set (st_roles s)" using assms(2) by (simp add: get_role_None)
  have "u \<notin> sa_user_id ` set (st_assignments s)" if "get_assignment u s = None"
    using that by (simp add: get_assignment_def row_None_iff)
  with assms(1) rid show ?thesis by (auto simp: set_assignment_def Let_def staff_ok_def dest!: set_set_rowD)
qed

lemma set_assignment_frame [simp]:
  "st_users (set_assignment u r a s) = st_users s" "st_refresh_tokens (set_assignment u r a s) = st_refresh_tokens s"
  "st_auth_tokens (set_assignment u r a s) = st_auth_tokens s" "st_shop (set_assignment u r a s) = st_shop s"
  by (simp_all add: set_assignment_def Let_def)

lemma assign_role_change:
  assumes "assign_role me uid rid s = Inr (target, s')" and "staff_ok s"
  shows "access_change True s s'"
proof -
  obtain s1 r where e: "ensure_system_roles s = Inr s1" and r: "get_role rid s1 = Some r"
    and kept: "assert_role_manager_remains [(uid, NewRole r)] None s1 = Inr ()"
    and s': "s' = site_audit (Some (u_id me)) ''staff.role_assigned'' ''user'' [KI uid] (set_assignment uid (sr_id r) (u_id me) s1)"
    using assms(1) unfolding assign_role_def by (auto simp: rbind_eq_Inr split: option.splits)
  note e1 = ensure_system_roles_Inr [OF e assms(2)]
  have r': "get_role (sr_id r) s1 = Some r" using r get_role_Some by blast
  have "staff_ok s'" unfolding s' using e1 r' by (simp add: staff_ok_set_assignment)
  moreover obtain u where u: "u \<in> set (st_users s1)" "active_admin u" "keeps_managing [(uid, NewRole r)] None (u, assigned_role (u_id u) s1)"
    using kept by (auto simp: remains_Inr)
  then have "ROLES_MANAGE \<in> role_permissions (assigned_role (u_id u) s')"
    by (auto simp: keeps_managing_def Let_def s' assigned_set_assignment [OF r'] split: if_splits option.splits)
  with u have "manager_exists s'" by (auto simp: manager_exists_def has_permission_iff s')
  ultimately show ?thesis by (simp add: access_change_def)
qed

section \<open>Users\<close>

lemma assigned_remove_assignment: "assigned_role j (remove_assignment u s) = (if j = u then None else assigned_role j s)"
proof -
  have "row sa_user_id u (filter (\<lambda>a. sa_user_id a \<noteq> u) (st_assignments s)) = None" by (auto simp: row_None_iff)
  then show ?thesis by (simp add: assigned_role_def get_assignment_def get_role_def remove_assignment_def row_filter_other)
qed

lemma staff_ok_put_user:
  assumes "staff_ok s" and "row u_id (u_id u') (st_users s) \<noteq> None"
  shows "staff_ok (put_users (set_row u_id u' (st_users s)) s)"
proof -
  obtain u where "u \<in> set (st_users s)" "u_id u = u_id u'" using assms(2) by (auto dest: row_SomeD)
  then have "u_id u' < next_id s" using staff_okD(5) [OF assms(1)] by metis
  with assms(1) show ?thesis by (auto simp: staff_ok_def dest!: set_set_rowD)
qed

lemma assigned_put_users [simp]: "assigned_role j (put_users us s) = assigned_role j s"
  by (rule assigned_role_frame) simp_all

lemma set_set_row: "row key (key r') t = Some r \<Longrightarrow> set (set_row key r' t) = insert r' {x \<in> set t. key x \<noteq> key r'}"
  using row_SomeD [of key "key r'" t r] by (auto simp: set_row_def)

lemma fst_staff_part [simp]: "fst (staff_part u) = u_id u"
  by (simp add: staff_part_def)

lemma image_filter: "f ` {x \<in> A. P (f x)} = {y \<in> f ` A. P y}"
  by auto

lemma parts_set_row:
  assumes "row u_id (u_id u') us = Some u"
  shows "staff_part ` set (set_row u_id u' us) = insert (staff_part u') {p \<in> staff_part ` set us. fst p \<noteq> u_id u'}"
  using image_filter [of staff_part "set us" "\<lambda>p. fst p \<noteq> u_id u'"] by (simp add: set_set_row [OF assms])

lemma keeps_leaves:
  "keeps_managing [(i, LEAVES_STAFF)] None (u, r) \<longleftrightarrow> u_id u \<noteq> i \<and> ROLES_MANAGE \<in> role_permissions r"
  by (auto simp: keeps_managing_def Let_def split: option.splits)

text \<open>
  A user row is replaced and nobody else's part in the staff changes. Afterwards that user holds nothing;
  if an active administrator is lost that way, another one can manage roles.
\<close>

lemma leave_change:
  assumes ok: "staff_ok s" "staff_ok s'" and u: "row u_id (u_id u') (st_users s) = Some u"
    and users: "st_users s' = set_row u_id u' (st_users s)" and gone: "\<And>p. active_admin u' \<Longrightarrow> p \<notin> role_permissions (assigned_role (u_id u') s')"
    and others: "\<And>j. j \<noteq> u_id u' \<Longrightarrow> assigned_role j s' = assigned_role j s"
    and kept: "active_admin u \<Longrightarrow> \<exists>j. j \<noteq> u_id u' \<and> holds j ROLES_MANAGE s"
  shows "access_change m s s'"
proof -
  have "(u_id u', ADMIN, True) = staff_part u' \<longleftrightarrow> active_admin u'" by (auto simp: active_admin_def staff_part_def)
  then have h: "holds j p s' \<longleftrightarrow> j \<noteq> u_id u' \<and> holds j p s" for j p
    unfolding holds_parts users parts_set_row [OF u] using others gone by (auto simp: staff_part_def)
  have mine: "active_admin u" if "holds (u_id u') p s" for p
  proof -
    from that obtain x where x: "x \<in> set (st_users s)" "u_id x = u_id u'" "active_admin x" by (auto simp: holds_def has_permission_iff)
    then show ?thesis using row_in_distinct [OF staff_okD(1) [OF ok(1)] x(1)] u by simp
  qed
  have "manager_exists s'" if "manager_exists s"
    using that kept mine unfolding manager_holds h by metis
  with ok(2) h show ?thesis by (simp add: access_change_def)
qed

lemma deactivate_change:
  assumes "deactivate_user_as me i s = Inr s'" and "staff_ok s" and "row u_id (u_id me) (st_users s) = Some me"
  shows "access_change m s s'"
proof -
  obtain u where u: "row u_id i (st_users s) = Some u" and own: "u_role me \<noteq> ADMIN \<Longrightarrow> u_id me = i"
    and s': "s' = site_audit (Some (u_id me)) ''user.deactivated'' ''user'' [KI i] (put_users (set_row u_id (u\<lparr>u_is_active := False\<rparr>) (st_users s)) s)"
    and kept: "u_role me = ADMIN \<Longrightarrow> active_admin u \<Longrightarrow> assert_role_manager_remains [(i, LEAVES_STAFF)] None s = Inr ()"
    using assms(1) unfolding deactivate_user_as_def service_deactivate_user_def service_get_user_def Let_def
    by (auto simp: rbind_eq_Inr get_user_by_id_def split: if_splits option.splits)
  have i: "u_id u = i" using row_SomeD [OF u] by simp
  have rem: "\<exists>j. j \<noteq> i \<and> holds j ROLES_MANAGE s" if "active_admin u"
  proof -
    have "u_role me = ADMIN" using own assms(3) u that by (cases "u_role me = ADMIN") (auto simp: active_admin_def)
    from kept [OF this that] show ?thesis by (auto simp: remains_Inr keeps_leaves holds_def has_permission_iff)
  qed
  show ?thesis
    by (rule leave_change [OF assms(2), where u' = "u\<lparr>u_is_active := False\<rparr>" and u = u])
      (use u i rem in \<open>simp_all add: s' staff_ok_put_user [OF assms(2)] active_admin_def\<close>)
qed

lemma change_address_Inr:
  "change_address own e u = Inr u' \<Longrightarrow> u_id u' = u_id u \<and> u_is_active u' = u_is_active u \<and> u_role u' = u_role u"
  by (auto simp: change_address_def split: option.splits if_splits)

lemma service_update_user_Inr:
  assumes "service_update_user i me n e role s = Inr (u', s')"
  obtains u where "row u_id i (st_users s) = Some u" "u_id u' = i" "u_is_active u' = u_is_active u"
    "u_role u' = (case role of None \<Rightarrow> u_role u | Some r \<Rightarrow> r)" "s' = put_users (set_row u_id u' (st_users s)) s"
    "role \<noteq> None \<Longrightarrow> u_role me = ADMIN"
proof -
  have role: "u_role me = ADMIN" if "role \<noteq> None"
    using assms that by (cases "u_role me = ADMIN") (auto simp: service_update_user_def split: if_splits)
  obtain u where u: "row u_id i (st_users s) = Some u"
    using assms by (cases "row u_id i (st_users s)") (auto simp: service_update_user_def get_user_by_id_def split: if_splits)
  obtain mailed where m: "change_address (u_id me = i) e (case n of None \<Rightarrow> u | Some n \<Rightarrow> u\<lparr>u_username := n\<rparr>) = Inr mailed"
    and u': "u' = (case role of None \<Rightarrow> mailed | Some r \<Rightarrow> mailed\<lparr>u_role := r\<rparr>)" "s' = put_users (set_row u_id u' (st_users s)) s"
  proof -
    have "\<not> (u_role me \<noteq> ADMIN \<and> u_id me \<noteq> i)"
    proof
      assume "u_role me \<noteq> ADMIN \<and> u_id me \<noteq> i"
      then show False using assms by (simp add: service_update_user_def)
    qed
    moreover have "\<not> (role \<noteq> None \<and> u_role me \<noteq> ADMIN)" using role by blast
    moreover note assms u
    ultimately show ?thesis
      unfolding service_update_user_def get_user_by_id_def Let_def 
      by (simp only: if_False option.case rbind_eq_Inr flush_user_Inr sum.inject prod.inject) (elim exE conjE, rule that, (simp only: )+)
  qed
  have "u_id u = i" using row_SomeD [OF u] by simp
  with change_address_Inr [OF m] u' show ?thesis by (intro that [OF u]) (auto intro: role split: option.splits)
qed

lemma get_user_role: "service_get_user i me s = Inr x \<Longrightarrow> row u_id i (st_users s) = Some x"
  by (auto simp: service_get_user_def get_user_by_id_def split: if_splits option.splits)

lemma promotion_change:
  assumes "staff_ok s" and u: "row u_id i (st_users s) = Some u" "u_role u \<noteq> ADMIN" and u': "u_id u' = i"
    and start: "start_with_no_access me i (put_users (set_row u_id u' (st_users s)) s) = Inr s'"
  shows "access_change m s s' \<and> st_users s' = set_row u_id u' (st_users s)"
proof -
  let ?s1 = "put_users (set_row u_id u' (st_users s)) s"
  obtain s2 where e: "ensure_system_roles ?s1 = Inr s2"
    and s': "s' = site_audit (Some (u_id me)) ''staff.role_assigned'' ''user'' [KI i] (set_assignment i NO_ACCESS_ROLE_ID (u_id me) s2)"
    using start unfolding start_with_no_access_def by (auto simp: rbind_eq_Inr)
  have ok1: "staff_ok ?s1" by (rule staff_ok_put_user [OF assms(1)]) (simp add: u u')
  note e2 = ensure_system_roles_Inr [OF e ok1]
  then obtain r where r: "get_role NO_ACCESS_ROLE_ID s2 = Some r" by auto
  have "sr_permissions r = []" using staff_okD(9) [of s2 r] e2 get_role_Some [OF r] by blast
  moreover have "sr_id r = NO_ACCESS_ROLE_ID" using get_role_Some [OF r] by simp
  ultimately have none: "role_permissions (Some r) = {}" by (simp add: role_permissions_def NO_ACCESS_ROLE_ID_def OWNER_ROLE_ID_def)
  have ok': "staff_ok s'" unfolding s' using e2 r by (simp add: staff_ok_set_assignment)
  have users: "st_users s' = set_row u_id u' (st_users s)" using e2 by (simp add: s')
  have asg: "assigned_role j s' = (if j = i then Some r else assigned_role j s)" for j
    using e2 by (simp add: s' assigned_set_assignment [OF r])
  have "access_change m s s'"
    by (rule leave_change [OF assms(1) ok', where u' = u' and u = u])
      (use u u' users asg none in \<open>simp_all add: active_admin_def\<close>)
  with users show ?thesis by simp
qed

lemma demotion_change:
  assumes "staff_ok s" and u: "row u_id i (st_users s) = Some u" and u': "u_id u' = i" "u_role u' \<noteq> ADMIN"
    and kept: "assert_role_manager_remains [(i, LEAVES_STAFF)] None (put_users (set_row u_id u' (st_users s)) s) = Inr ()"
  shows "access_change m s (remove_assignment i (put_users (set_row u_id u' (st_users s)) s))"
proof (rule leave_change [OF assms(1), where u' = u' and u = u])
  let ?s1 = "put_users (set_row u_id u' (st_users s)) s"
  have "staff_ok ?s1" by (rule staff_ok_put_user [OF assms(1)]) (simp add: u u')
  then show "staff_ok (remove_assignment i ?s1)" by (auto simp: staff_ok_def remove_assignment_def distinct_map_filter)
  show "row u_id (u_id u') (st_users s) = Some u" using u u' by simp
  show "st_users (remove_assignment i ?s1) = set_row u_id u' (st_users s)" by (simp add: remove_assignment_def)
  show "p \<notin> role_permissions (assigned_role (u_id u') (remove_assignment i ?s1))" if "active_admin u'" for p
    using that u' by (simp add: active_admin_def)
  show "assigned_role j (remove_assignment i ?s1) = assigned_role j s" if "j \<noteq> u_id u'" for j
    using that u' by (simp add: assigned_remove_assignment)
  show "\<exists>j. j \<noteq> u_id u' \<and> holds j ROLES_MANAGE s"
    using kept u' by (auto simp: remains_Inr keeps_leaves holds_def has_permission_iff dest!: set_set_rowD)
qed

lemma access_change_audit: "access_change m s s1 \<Longrightarrow> access_change m s (site_audit a b c t s1)"
  by (simp add: access_change_def manager_holds holds_parts)

lemma update_user_as_Inr:
  assumes "update_user_as me i n e role s = Inr (u', s')"
  obtains previous s1 s2 s3 where
    "(if role = None then Inr None else rbind (service_get_user i me s) (\<lambda>x. Inr (Some (u_role x)))) = Inr previous"
    "service_update_user i me n e role s = Inr (u', s1)"
    "(if role \<noteq> None \<and> previous = Some ADMIN \<and> u_role u' \<noteq> ADMIN
         then rbind (assert_role_manager_remains [(u_id u', LEAVES_STAFF)] None s1) (\<lambda>_. Inr (remove_assignment (u_id u') s1)) else Inr s1) = Inr s2"
    "(if role \<noteq> None \<and> previous \<noteq> Some ADMIN \<and> u_role u' = ADMIN then start_with_no_access me (u_id u') s2 else Inr s2) = Inr s3"
    "s' = (if role \<noteq> None \<and> previous \<noteq> Some (u_role u') then site_audit (Some (u_id me)) ''user.role_changed'' ''user'' [KI (u_id u')] s3 else s3)"
  using assms unfolding update_user_as_def
  by (simp only: rbind_eq_Inr split_paired_Ex prod.case sum.inject prod.inject) (elim exE conjE, rule that, (simp only: )+)

lemma update_user_change:
  assumes "update_user_as me i n e role s = Inr (u', s')" and "staff_ok s"
  shows "access_change m s s'"
proof -
  obtain previous s1 s2 s3 where prev: "(if role = None then Inr None else rbind (service_get_user i me s) (\<lambda>x. Inr (Some (u_role x)))) = Inr previous"
    and up: "service_update_user i me n e role s = Inr (u', s1)"
    and out: "(if role \<noteq> None \<and> previous = Some ADMIN \<and> u_role u' \<noteq> ADMIN
         then rbind (assert_role_manager_remains [(u_id u', LEAVES_STAFF)] None s1) (\<lambda>_. Inr (remove_assignment (u_id u') s1)) else Inr s1) = Inr s2"
    and into: "(if role \<noteq> None \<and> previous \<noteq> Some ADMIN \<and> u_role u' = ADMIN then start_with_no_access me (u_id u') s2 else Inr s2) = Inr s3"
    and s': "s' = (if role \<noteq> None \<and> previous \<noteq> Some (u_role u') then site_audit (Some (u_id me)) ''user.role_changed'' ''user'' [KI (u_id u')] s3 else s3)"
    using assms(1) by (rule update_user_as_Inr)
  from up have "access_change m s s3"
  proof (rule service_update_user_Inr)
    fix u
    assume u: "row u_id i (st_users s) = Some u" "u_id u' = i" "u_is_active u' = u_is_active u"
      "u_role u' = (case role of None \<Rightarrow> u_role u | Some r \<Rightarrow> r)" "s1 = put_users (set_row u_id u' (st_users s)) s"
    have p: "previous = (if role = None then None else Some (u_role u))"
      using prev u(1) by (auto simp: rbind_eq_Inr dest: get_user_role split: if_splits)
    have same: "access_change m s s1" if "u_role u' = u_role u"
    proof (rule staff_frame_change [OF _ assms(2)])
      show "staff_frame s s1"
        unfolding u(5) staff_frame_def using staff_parts_set_row [of u' "st_users s" u] u that staff_okD(1) [OF assms(2)] by simp
    qed
    show ?thesis
    proof (cases "u_role u' = u_role u")
      case True
      then have "s2 = s1" using out p by (simp split: if_splits)
      moreover have "s3 = s2" using into p True by (simp split: if_splits)
      ultimately show ?thesis using same True by simp
    next
      case False
      then have role: "role = Some (u_role u')" using u(4) by (auto split: option.splits)
      show ?thesis
      proof (cases "u_role u' = ADMIN")
        case True
        then have "start_with_no_access me i (put_users (set_row u_id u' (st_users s)) s) = Inr s3"
          using out into p role False u(2,5) by auto
        moreover have "u_role u \<noteq> ADMIN" using False True by simp
        ultimately show ?thesis using promotion_change [OF assms(2) u(1) _ u(2)] by blast
      next
        case nadm: False
        then have "u_role u = ADMIN" using False by (cases "u_role u"; cases "u_role u'") auto
        then have "assert_role_manager_remains [(i, LEAVES_STAFF)] None (put_users (set_row u_id u' (st_users s)) s) = Inr ()"
          "s3 = remove_assignment i (put_users (set_row u_id u' (st_users s)) s)"
          using out into p role nadm u(2,5) by (auto simp: rbind_eq_Inr)
        with demotion_change [OF assms(2) u(1,2) nadm] show ?thesis by simp
      qed
    qed
  qed
  then show ?thesis by (simp add: s' access_change_audit)
qed

end
