(* ===== verification/Account_Guarantees.thy ===== *)
theory Account_Guarantees
  imports Access_Rules
begin

text \<open>
  The guarantees of the accounts over every run: sessions that were shut down stay shut down, an emailed
  link works once, staff access is never lost and never taken. The invariants are those of the two view
  machines of \<open>Account_Machine\<close> and of the staff tables.
\<close>

section \<open>Invariants of the sessions\<close>

text \<open>How many tokens of a family can still be exchanged, and how often its tokens were replayed.\<close>

definition usable :: "int \<Rightarrow> refresh_token list \<Rightarrow> int" where
  "usable f ts = sum_list (map (\<lambda>t. if tk_family_id t = f \<and> \<not> tk_revoked t then 1 else 0) ts)"

definition replayed :: "int \<Rightarrow> refresh_token list \<Rightarrow> int" where
  "replayed f ts = sum_list (map (\<lambda>t. if tk_family_id t = f then tk_grace_replays t else 0) ts)"

definition token_ok :: "auth_env \<Rightarrow> int \<Rightarrow> refresh_token \<Rightarrow> bool" where
  "token_ok env n t \<longleftrightarrow> tk_id t < n \<and> tk_family_id t < n \<and> (tk_rotated_at t \<noteq> None \<longrightarrow> tk_revoked t)
     \<and> 0 \<le> tk_grace_replays t \<and> tk_grace_replays t \<le> max 0 (refresh_reuse_grace_max_replays env)"

definition sessions_ok :: "auth_env \<Rightarrow> refresh_token list \<times> int \<Rightarrow> bool" where
  "sessions_ok env = (\<lambda>(ts, n). distinct (map tk_id ts) \<and> distinct (map tk_jti ts) \<and> (\<forall>t \<in> set ts. token_ok env n t)
     \<and> (\<forall>t \<in> set ts. \<forall>x \<in> set ts. tk_family_id x = tk_family_id t \<longrightarrow> tk_user_id x = tk_user_id t)
     \<and> (\<forall>f \<in> tk_family_id ` set ts. usable f ts \<le> 1 + replayed f ts))"

lemma sessions_okD:
  assumes "sessions_ok env (ts, n)"
  shows "distinct (map tk_id ts)" "distinct (map tk_jti ts)" "\<And>t. t \<in> set ts \<Longrightarrow> token_ok env n t"
    "\<And>t x. t \<in> set ts \<Longrightarrow> x \<in> set ts \<Longrightarrow> tk_family_id x = tk_family_id t \<Longrightarrow> tk_user_id x = tk_user_id t"
    "\<And>f. f \<in> tk_family_id ` set ts \<Longrightarrow> usable f ts \<le> 1 + replayed f ts"
  using assms unfolding sessions_ok_def prod.case by blast+

lemma sessions_okI:
  assumes "distinct (map tk_id ts)" and "distinct (map tk_jti ts)" and "\<And>t. t \<in> set ts \<Longrightarrow> token_ok env n t"
    and "\<And>t x. t \<in> set ts \<Longrightarrow> x \<in> set ts \<Longrightarrow> tk_family_id x = tk_family_id t \<Longrightarrow> tk_user_id x = tk_user_id t"
    and "\<And>f. f \<in> tk_family_id ` set ts \<Longrightarrow> usable f ts \<le> 1 + replayed f ts"
  shows "sessions_ok env (ts, n)"
  unfolding sessions_ok_def prod.case using assms by blast

lemma token_ok_mono: "token_ok env n t \<Longrightarrow> n \<le> n' \<Longrightarrow> token_ok env n' t"
  by (simp add: token_ok_def)

lemma fresh_token_ok:
  assumes "fresh_token ts n x n'" and "tk_family_id x < n'"
  shows "token_ok env n' x"
  using assms by (simp add: fresh_token_def token_ok_def)

lemma sums_absent:
  assumes "f \<notin> tk_family_id ` set ts"
  shows "usable f ts = 0" "replayed f ts = 0"
proof -
  have "map (\<lambda>t. if tk_family_id t = f \<and> \<not> tk_revoked t then 1 else 0) ts = map (\<lambda>_. 0 :: int) ts"
    "map (\<lambda>t. if tk_family_id t = f then tk_grace_replays t else 0) ts = map (\<lambda>_. 0) ts"
    using assms by auto
  then show "usable f ts = 0" "replayed f ts = 0" unfolding usable_def replayed_def by (simp_all only: sum_list_0)
qed

lemma sums_append [simp]:
  "usable f (ts @ us) = usable f ts + usable f us" "replayed f (ts @ us) = replayed f ts + replayed f us"
  "usable f [t] = (if tk_family_id t = f \<and> \<not> tk_revoked t then 1 else 0)"
  "replayed f [t] = (if tk_family_id t = f then tk_grace_replays t else 0)"
  by (simp_all add: usable_def replayed_def)

lemma exchange_row:
  assumes "distinct (map tk_id ts)" and "t \<in> set ts" and "tk_id t' = tk_id t" and "tk_jti t' = tk_jti t"
  shows "row tk_id (tk_id t') ts = Some t" "set (set_row tk_id t' ts) = insert t' {x \<in> set ts. tk_id x \<noteq> tk_id t}"
    "map tk_jti (set_row tk_id t' ts) = map tk_jti ts" "tk_jti ` set (set_row tk_id t' ts) = tk_jti ` set ts"
proof -
  show row: "row tk_id (tk_id t') ts = Some t" using row_in_distinct [OF assms(1,2)] assms(3) by simp
  show "set (set_row tk_id t' ts) = insert t' {x \<in> set ts. tk_id x \<noteq> tk_id t}" using set_set_row [OF row] assms(3) by simp
  show "map tk_jti (set_row tk_id t' ts) = map tk_jti ts"
    using assms by (auto simp: set_row_def distinct_map dest: inj_onD)
  then show "tk_jti ` set (set_row tk_id t' ts) = tk_jti ` set ts" by (metis set_map)
qed

text \<open>The move common to rotation and replay: one row changes, one token of the same family is added.\<close>

lemma sessions_ok_exchange:
  assumes ok: "sessions_ok env (ts, n)" and t: "t \<in> set ts"
    and t': "tk_id t' = tk_id t" "tk_jti t' = tk_jti t" "tk_family_id t' = tk_family_id t" "tk_user_id t' = tk_user_id t" "token_ok env n t'"
    and x: "fresh_token (set_row tk_id t' ts) n x n'" "tk_family_id x = tk_family_id t" "tk_user_id x = tk_user_id t"
    and count: "(if tk_revoked t' then 0 else 1) + 1 - (if tk_revoked t then 0 else 1) \<le> tk_grace_replays t' - tk_grace_replays t"
  shows "sessions_ok env (set_row tk_id t' ts @ [x], n')"
proof -
  note okD = sessions_okD [OF ok]
  note ex = exchange_row [OF okD(1) t t'(1,2)]
  have n: "n \<le> n'" using x(1) by (simp add: fresh_token_def)
  have fams: "tk_family_id ` set (set_row tk_id t' ts) = tk_family_id ` set ts"
    using okD(1) t t'(3) unfolding ex(2) by (auto simp: distinct_map dest: inj_onD)
  have all: "token_ok env n' y" if "y \<in> set (set_row tk_id t' ts)" for y
    using set_set_rowD [OF that] okD(3) t'(5) n by (auto intro: token_ok_mono)
  have owner: "tk_user_id y = tk_user_id t" if "y \<in> set (set_row tk_id t' ts)" "tk_family_id y = tk_family_id t" for y
    using set_set_rowD [OF that(1)] that(2) t' okD(4) [OF t] by auto
  have owner2: "tk_user_id y = tk_user_id z"
    if "y \<in> set (set_row tk_id t' ts)" "z \<in> set (set_row tk_id t' ts)" "tk_family_id y = tk_family_id z" for y z
    using set_set_rowD [OF that(1)] set_set_rowD [OF that(2)] that(3) t' okD(4) [OF t] okD(4) by metis
  have ids: "tk_id x \<notin> tk_id ` set ts" using okD(3) x(1) by (fastforce simp: fresh_token_def token_ok_def)
  have "tk_id ` set (set_row tk_id t' ts) = tk_id ` set ts" by (metis keys_set_row set_map)
  then have d: "distinct (map tk_id (set_row tk_id t' ts @ [x]))" "distinct (map tk_jti (set_row tk_id t' ts @ [x]))"
    using okD(1,2) ids x(1) ex(3,4) by (simp_all add: fresh_token_def)
  have fx: "tk_family_id t < n" "token_ok env n' x"
    using okD(3) [OF t] n fresh_token_ok [OF x(1)] x(2) by (simp_all add: token_ok_def)
  have sums: "usable f (set_row tk_id t' ts) = usable f ts
        - (if tk_family_id t = f \<and> \<not> tk_revoked t then 1 else 0) + (if tk_family_id t' = f \<and> \<not> tk_revoked t' then 1 else 0)"
    "replayed f (set_row tk_id t' ts) = replayed f ts
        - (if tk_family_id t = f then tk_grace_replays t else 0) + (if tk_family_id t' = f then tk_grace_replays t' else 0)" for f
    unfolding usable_def replayed_def by (rule sum_list_set_row [OF okD(1) ex(1)])+
  have bound: "usable f (set_row tk_id t' ts @ [x]) \<le> 1 + replayed f (set_row tk_id t' ts @ [x])"
    if "f \<in> tk_family_id ` set (set_row tk_id t' ts @ [x])" for f
  proof -
    have "f \<in> tk_family_id ` set ts" using that fams x(2) t by auto
    from okD(5) [OF this] show ?thesis
      using count t'(3) x(1,2) by (auto simp: sums fresh_token_def)
  qed
  have "tk_user_id y = tk_user_id z"
    if "z \<in> set (set_row tk_id t' ts @ [x])" "y \<in> set (set_row tk_id t' ts @ [x])" "tk_family_id y = tk_family_id z" for y z
    using that x(2,3) owner [of y] owner [of z] owner2 [of y z] by (cases "y = x"; cases "z = x") auto
  moreover have "token_ok env n' y" if "y \<in> set (set_row tk_id t' ts @ [x])" for y using that all fx(2) by auto
  ultimately show ?thesis using d bound by (intro sessions_okI)
qed

lemma sessions_ok_step:
  assumes "session_step env v w" and "sessions_ok env v"
  shows "sessions_ok env w"
  using assms
proof (induction rule: session_step.induct)
  case (idle n n' ts)
  then show ?case unfolding sessions_ok_def prod.case by (blast intro: token_ok_mono)
next
  case (opens ts n t n')
  note okD = sessions_okD [OF opens.prems]
  have n: "n \<le> n'" using opens.hyps(1) by (simp add: fresh_token_def)
  have new: "tk_id t \<notin> tk_id ` set ts" "tk_family_id t \<notin> tk_family_id ` set ts" "tk_jti t \<notin> tk_jti ` set ts"
    using okD(3) opens.hyps(1,2) by (fastforce simp: fresh_token_def token_ok_def)+
  have bound: "usable f (ts @ [t]) \<le> 1 + replayed f (ts @ [t])" if "f \<in> tk_family_id ` set (ts @ [t])" for f
    using okD(5) [of f] that new(2) opens.hyps(1) sums_absent [of f ts] by (auto simp: fresh_token_def)
  show ?case
  proof (rule sessions_okI)
    show "token_ok env n' x" if "x \<in> set (ts @ [t])" for x
      using that okD(3) fresh_token_ok [OF opens.hyps(1,3)] token_ok_mono [OF _ n] by auto
    show "tk_user_id y = tk_user_id z" if "z \<in> set (ts @ [t])" "y \<in> set (ts @ [t])" "tk_family_id y = tk_family_id z" for y z
    proof -
      have "tk_family_id a \<noteq> tk_family_id t" if "a \<in> set ts" for a using new(2) that by (metis image_eqI)
      with that okD(4) [of z y] show ?thesis by (cases "y = t"; cases "z = t") auto
    qed
  qed (use okD(1,2) new bound in auto)
next
  case (revokes ts n P)
  note okD = sessions_okD [OF revokes.prems]
  let ?f = "\<lambda>t. if P t then t\<lparr>tk_revoked := True\<rparr> else t"
  have cols: "tk_id \<circ> ?f = tk_id" "tk_jti \<circ> ?f = tk_jti" "tk_family_id \<circ> ?f = tk_family_id" by auto
  have "usable f (map ?f ts) \<le> usable f ts" "replayed f (map ?f ts) = replayed f ts" for f
    unfolding usable_def replayed_def by (induction ts) auto
  then have sums: "usable f (map ?f ts) \<le> 1 + replayed f (map ?f ts)" if "f \<in> tk_family_id ` set ts" for f
    using okD(5) [OF that] by (metis order_trans)
  have fams: "tk_family_id ` set (map ?f ts) = tk_family_id ` set ts" by (simp only: set_map image_comp cols(3))
  show ?case
  proof (rule sessions_okI)
    show "distinct (map tk_id (map ?f ts))" "distinct (map tk_jti (map ?f ts))" using okD(1,2) by (simp_all only: map_map cols)
    show "token_ok env n t" if "t \<in> set (map ?f ts)" for t using that okD(3) by (auto simp: token_ok_def)
    show "tk_user_id x = tk_user_id t" if tx: "t \<in> set (map ?f ts)" "x \<in> set (map ?f ts)" "tk_family_id x = tk_family_id t" for t x
    proof -
      obtain a b where "a \<in> set ts" "t = ?f a" "b \<in> set ts" "x = ?f b" using tx(1,2) by (auto simp only: set_map)
      then show ?thesis using okD(4) [of a b] tx(3) by (simp split: if_splits)
    qed
    show "usable f (map ?f ts) \<le> 1 + replayed f (map ?f ts)" if "f \<in> tk_family_id ` set (map ?f ts)" for f
      using that unfolding fams by (rule sums)
  qed
next
  case (rotates t ts ts' now n x n')
  show ?case unfolding rotates.hyps(3)
    by (rule sessions_ok_exchange [OF rotates.prems rotates.hyps(1)])
      (use rotates.hyps sessions_okD(3) [OF rotates.prems rotates.hyps(1)] in \<open>simp_all add: token_ok_def\<close>)
next
  case (replays t ts ts' n x n')
  show ?case unfolding replays.hyps(6)
    by (rule sessions_ok_exchange [OF replays.prems replays.hyps(1)])
      (use replays.hyps sessions_okD(3) [OF replays.prems replays.hyps(1)] in \<open>simp_all add: token_ok_def\<close>)
qed

text \<open>
  Once every token of a family is revoked the family is dead: no move adds to it, and the token known under
  a given identifier stays in it.
\<close>

definition dead :: "auth_env \<Rightarrow> int \<Rightarrow> key_part \<Rightarrow> refresh_token list \<times> int \<Rightarrow> bool" where
  "dead env f j = (\<lambda>(ts, n). sessions_ok env (ts, n) \<and> f < n \<and> (\<forall>t \<in> set ts. tk_family_id t = f \<longrightarrow> tk_revoked t)
     \<and> j \<in> tk_jti ` set ts \<and> (\<forall>t \<in> set ts. tk_jti t = j \<longrightarrow> tk_family_id t = f))"

lemma dead_exchange:
  assumes "dead env f j (ts, n)" and "t \<in> set ts" and t': "tk_id t' = tk_id t" "tk_jti t' = tk_jti t" "tk_family_id t' = tk_family_id t"
    and x: "fresh_token (set_row tk_id t' ts) n x n'" "tk_family_id x = tk_family_id t"
    and alive: "tk_family_id t \<noteq> f" and ok: "sessions_ok env (set_row tk_id t' ts @ [x], n')"
  shows "dead env f j (set_row tk_id t' ts @ [x], n')"
proof -
  have d: "sessions_ok env (ts, n)" "f < n" "\<forall>y \<in> set ts. tk_family_id y = f \<longrightarrow> tk_revoked y" "j \<in> tk_jti ` set ts"
    "\<forall>y \<in> set ts. tk_jti y = j \<longrightarrow> tk_family_id y = f"
    using assms(1) by (simp_all add: dead_def)
  note ex = exchange_row [OF sessions_okD(1) [OF d(1)] assms(2) t'(1,2)]
  have xj: "tk_jti x \<noteq> j" using x(1) d(4) unfolding fresh_token_def ex(4) by blast
  have tj: "tk_jti t \<noteq> j" using d(5) assms(2) alive by blast
  have "n < n'" using x(1) by (simp add: fresh_token_def)
  moreover have "tk_revoked y" if "y \<in> set (set_row tk_id t' ts @ [x])" "tk_family_id y = f" for y
    using that d(3) alive x(2) t'(3) unfolding set_append ex(2) by auto
  moreover have "tk_family_id y = f" if "y \<in> set (set_row tk_id t' ts @ [x])" "tk_jti y = j" for y
    using that d(5) xj tj t'(2) unfolding set_append ex(2) by auto
  moreover have "j \<in> tk_jti ` set (set_row tk_id t' ts @ [x])" unfolding set_append image_Un ex(4) using d(4) by simp
  ultimately show ?thesis using ok d(2) unfolding dead_def prod.case by auto
qed

lemma dead_step:
  assumes "session_step env v w" and "dead env f j v"
  shows "dead env f j w"
proof -
  have "sessions_ok env w" using assms sessions_ok_step [OF assms(1)] by (auto simp: dead_def split: prod.splits)
  with assms show ?thesis
  proof (induction rule: session_step.induct)
    case (rotates t ts ts' now n x n')
    have "tk_family_id t \<noteq> f" using rotates.prems(1) rotates.hyps(1,2) by (auto simp: dead_def)
    then show ?case
      using dead_exchange [OF rotates.prems(1) rotates.hyps(1), of "t\<lparr>tk_revoked := True, tk_rotated_at := Some now\<rparr>"]
        rotates.prems(2) rotates.hyps(3-5) by simp
  next
    case (replays t ts ts' n x n')
    have "tk_family_id t \<noteq> f" using replays.prems(1) replays.hyps(5) by (auto simp: dead_def)
    then show ?case
      using dead_exchange [OF replays.prems(1) replays.hyps(1), of "t\<lparr>tk_grace_replays := tk_grace_replays t + 1\<rparr>"]
        replays.prems(2) replays.hyps(6-8) by simp
  next
    case (revokes ts n P)
    let ?f = "\<lambda>t. if P t then t\<lparr>tk_revoked := True\<rparr> else t"
    have "tk_jti \<circ> ?f = tk_jti" by auto
    then have "tk_jti ` set (map ?f ts) = tk_jti ` set ts" by (simp only: set_map image_comp)
    with revokes.prems show ?case unfolding dead_def prod.case by auto
  qed (auto simp: dead_def fresh_token_def image_iff)
qed

lemma dead_refused:
  assumes "dead env f j (sessions s)" and "ev_decode env now tok = Some c" and "cl_jti c = Some j"
  shows "fst (auth_refresh env tok now s) = Inl InvalidRefreshToken"
proof (cases "cl_type c = Some ''refresh''")
  case False
  with assms show ?thesis by (simp add: auth_refresh_def)
next
  case True
  obtain t where t: "get_refresh_token_by_jti (cl_jti c) s = Some t"
    using assms(1,3) by (cases "row tk_jti j (st_refresh_tokens s)") (auto simp: dead_def sessions_def get_refresh_token_by_jti_def row_None_iff)
  then have "tk_family_id t = f" "tk_revoked t" using assms(1,3) get_refresh_token_Some [OF t] by (auto simp: dead_def sessions_def)
  moreover have "\<not> family_has_active_token f s"
    using assms(1) by (auto simp: dead_def sessions_def family_has_active_token_def list_ex_iff)
  ultimately show ?thesis using True assms(2) t by (simp add: auth_refresh_def is_benign_replay_def)
qed

lemma dead_start:
  assumes "sessions_ok env (sessions s)" and "t \<in> set (st_refresh_tokens s)" and "\<not> family_has_active_token (tk_family_id t) s"
  shows "dead env (tk_family_id t) (tk_jti t) (sessions s)"
proof -
  have ok: "sessions_ok env (st_refresh_tokens s, next_id s)" using assms(1) by (simp add: sessions_def)
  have "x = t" if "x \<in> set (st_refresh_tokens s)" "tk_jti x = tk_jti t" for x
    using sessions_okD(2) [OF ok] that assms(2) by (auto simp: distinct_map dest: inj_onD)
  then show ?thesis
    using ok assms(2,3) sessions_okD(3) [OF ok assms(2)]
    by (auto simp: dead_def sessions_def family_has_active_token_def list_ex_iff token_ok_def)
qed

section \<open>Invariants of the links\<close>

definition spent :: "string \<Rightarrow> auth_token list \<Rightarrow> bool" where
  "spent h ts \<longleftrightarrow> h \<in> at_token_hash ` set ts \<and> (\<forall>t \<in> set ts. at_token_hash t = h \<longrightarrow> at_used_at t \<noteq> None)"

lemma use_keys: "map at_token_hash (map (\<lambda>t. if P t then t\<lparr>at_used_at := Some now\<rparr> else t) ts) = map at_token_hash ts"
  by simp

lemma link_step_distinct: "link_step ts us \<Longrightarrow> distinct (map at_token_hash ts) \<Longrightarrow> distinct (map at_token_hash us)"
proof (induction rule: link_step.induct)
  case (used P ts now)
  then show ?case by (simp only: use_keys)
qed simp

lemma spent_step: "link_step ts us \<Longrightarrow> spent h ts \<Longrightarrow> spent h us"
proof (induction rule: link_step.induct)
  case (issued t ts)
  then show ?case by (auto simp: spent_def)
next
  case (used P ts now)
  have "at_token_hash ` set (map (\<lambda>t. if P t then t\<lparr>at_used_at := Some now\<rparr> else t) ts) = at_token_hash ` set ts"
    using use_keys [of P now ts] by (metis set_map)
  then show ?case using used.prems unfolding spent_def by auto
qed

section \<open>Every step\<close>

definition site_ok :: "auth_env \<Rightarrow> site \<Rightarrow> bool" where
  "site_ok env s \<longleftrightarrow> sessions_ok env (sessions s) \<and> distinct (map at_token_hash (st_auth_tokens s)) \<and> staff_ok s"

text \<open>Was the request sent by someone who can manage roles?\<close>

definition sender_manages :: "auth_env \<Rightarrow> account_request \<Rightarrow> int \<Rightarrow> site \<Rightarrow> bool" where
  "sender_manages env rq now s \<longleftrightarrow>
     (case credentials_of rq of
        None \<Rightarrow> False
      | Some cred \<Rightarrow> (case get_current_user env cred now s of Inl _ \<Rightarrow> False | Inr me \<Rightarrow> has_permission me ROLES_MANAGE s))"

definition quiet :: "site \<Rightarrow> site \<Rightarrow> bool" where
  "quiet s s' \<longleftrightarrow> st_refresh_tokens s' = st_refresh_tokens s \<and> st_auth_tokens s' = st_auth_tokens s \<and> next_id s \<le> next_id s'"

definition well_served :: "auth_env \<Rightarrow> bool \<Rightarrow> site \<Rightarrow> site \<Rightarrow> bool" where
  "well_served env m s s' \<longleftrightarrow> session_moves env s s' \<and> link_moves s s' \<and> access_change m s s'"

lemma well_served_refl: "staff_ok s \<Longrightarrow> well_served env m s s"
  by (simp add: well_served_def access_change_def)

lemma served_account: "account_moves env s s' \<Longrightarrow> staff_ok s \<Longrightarrow> well_served env m s s'"
  by (simp add: well_served_def account_moves_def staff_frame_change)

lemma served_quiet: "quiet s s' \<Longrightarrow> access_change m s s' \<Longrightarrow> well_served env m s s'"
  by (simp add: well_served_def quiet_def session_idle)

lemma served_commit:
  assumes "staff_ok s" and "\<And>s'. r = Inr s' \<Longrightarrow> well_served env m s s'"
  shows "well_served env m s (committed s r)"
  using assms by (cases r) (auto simp: committed_def well_served_refl)

lemma second_of_Inr: "second_of r = Inr s' \<longleftrightarrow> (\<exists>x. r = Inr (x, s'))"
  by (auto simp: second_of_def rbind_eq_Inr split: prod.splits)

lemma ensure_quiet: "ensure_system_roles s = Inr s' \<Longrightarrow> quiet s s'"
  by (auto simp: ensure_system_roles_def rbind_eq_Inr add_role_def quiet_def split: if_splits)

lemma quiet_trans: "quiet s s1 \<Longrightarrow> quiet s1 s2 \<Longrightarrow> quiet s s2"
  by (simp add: quiet_def)

lemma quiet_then:
  "quiet s s1 \<Longrightarrow> quiet s (site_audit a b c t s1)" "quiet s s1 \<Longrightarrow> quiet s (set_assignment u r x s1)"
  "quiet s s1 \<Longrightarrow> quiet s (remove_assignment u s1)" "quiet s s1 \<Longrightarrow> quiet s (put_users us s1)" "quiet s s"
  by (simp_all add: quiet_def remove_assignment_def)

lemma start_quiet: "start_with_no_access me i s = Inr s' \<Longrightarrow> quiet s s'"
  by (auto simp: start_with_no_access_def rbind_eq_Inr intro: quiet_then ensure_quiet)

lemma update_user_quiet:
  assumes "update_user_as me i n e role s = Inr (u', s')"
  shows "quiet s s'"
proof -
  obtain previous s1 s2 s3 where
      "(if role = None then Inr None else rbind (service_get_user i me s) (\<lambda>x. Inr (Some (u_role x)))) = Inr previous"
    and up: "service_update_user i me n e role s = Inr (u', s1)"
    and out: "(if role \<noteq> None \<and> previous = Some ADMIN \<and> u_role u' \<noteq> ADMIN
         then rbind (assert_role_manager_remains [(u_id u', LEAVES_STAFF)] None s1) (\<lambda>_. Inr (remove_assignment (u_id u') s1)) else Inr s1) = Inr s2"
    and into: "(if role \<noteq> None \<and> previous \<noteq> Some ADMIN \<and> u_role u' = ADMIN then start_with_no_access me (u_id u') s2 else Inr s2) = Inr s3"
    and s': "s' = (if role \<noteq> None \<and> previous \<noteq> Some (u_role u') then site_audit (Some (u_id me)) ''user.role_changed'' ''user'' [KI (u_id u')] s3 else s3)"
    using assms(1) by (rule update_user_as_Inr)
  have "quiet s s1" using up by (rule service_update_user_Inr) (simp add: quiet_then)
  moreover have "quiet s1 s2" using out by (auto simp: rbind_eq_Inr quiet_then split: if_splits)
  moreover have "quiet s2 s3" using into by (auto simp: quiet_then start_quiet split: if_splits)
  ultimately show ?thesis unfolding s' by (auto intro: quiet_trans quiet_then)
qed

lemma deactivate_quiet: "deactivate_user_as me i s = Inr s' \<Longrightarrow> quiet s s'"
  unfolding deactivate_user_as_def service_deactivate_user_def
  by (auto simp: rbind_eq_Inr Let_def quiet_then split: if_splits option.splits)

lemma role_writes_quiet:
  "create_role me n d ps s = Inr (r, s') \<Longrightarrow> quiet s s'"
  "update_role me i x y qs s = Inr (r, s') \<Longrightarrow> quiet s s'"
  "delete_role me i s = Inr s' \<Longrightarrow> quiet s s'"
  "assign_role me u i s = Inr (w, s') \<Longrightarrow> quiet s s'"
proof -
  show "create_role me n d ps s = Inr (r, s') \<Longrightarrow> quiet s s'"
    by (auto simp: create_role_def Let_def rbind_eq_Inr add_role_def quiet_def split: if_splits)
  show "update_role me i x y qs s = Inr (r, s') \<Longrightarrow> quiet s s'"
    by (erule update_role_Inr) (simp add: quiet_def)
  show "delete_role me i s = Inr s' \<Longrightarrow> quiet s s'"
    by (auto simp: delete_role_def Let_def rbind_eq_Inr quiet_def split: if_splits)
  show "assign_role me u i s = Inr (w, s') \<Longrightarrow> quiet s s'"
    by (auto simp: assign_role_def rbind_eq_Inr quiet_then(1,2) ensure_quiet split: option.splits)
qed

lemma require_permission_Inr:
  assumes "require_permission env p cred now s = Inr me"
  shows "get_current_user env cred now s = Inr me" "has_permission me p s"
  using assms by (auto simp: require_permission_def require_admin_def access_require_def rbind_eq_Inr)

lemma served_manager:
  assumes "require_permission env ROLES_MANAGE cred now s = Inr me" and "credentials_of rq = Some cred"
    and "quiet s s'" and "access_change True s s'"
  shows "well_served env (sender_manages env rq now s) s s'"
proof -
  have "sender_manages env rq now s" using require_permission_Inr [OF assms(1)] assms(2) by (simp add: sender_manages_def)
  then show ?thesis using served_quiet [OF assms(3,4)] by simp
qed

lemma list_roles_change:
  assumes "ensure_system_roles s = Inr s'" and "staff_ok s"
  shows "access_change m s s'"
  using ensure_system_roles_Inr [OF assms] by (intro access_same) simp_all

lemma serve_well:
  assumes "site_ok env s"
  shows "well_served env (sender_manages env rq now s) s (serve env rq now s)"
proof -
  have ok: "staff_ok s" and ids: "distinct (map u_id (st_users s))" and tks: "distinct (map tk_id (st_refresh_tokens s))"
    using assms by (auto simp: site_ok_def sessions_def dest: staff_okD(1) sessions_okD(1))
  note acc = served_account [OF _ ok]
  show ?thesis
  proof (cases rq)
    case (Register n e p g)
    show ?thesis unfolding Register serve.simps
      by (rule served_commit [OF ok])
        (auto simp: second_of_Inr quiet_def dest: register_route_Inr intro!: served_quiet register_change [OF _ ok])
  next
    case (Login e p g)
    show ?thesis unfolding Login serve.simps by (rule served_commit [OF ok]) (auto simp: second_of_Inr intro: acc moves_login)
  next
    case (Refresh t)
    show ?thesis unfolding Refresh serve.simps by (rule acc [OF moves_refresh])
  next
    case (Logout t)
    show ?thesis unfolding Logout serve.simps by (rule acc [OF moves_logout [OF tks]])
  next
    case (ForgotPassword e)
    show ?thesis unfolding ForgotPassword serve.simps request_password_reset_def by (rule acc [OF moves_enqueue])
  next
    case (ResetPassword t p)
    show ?thesis unfolding ResetPassword serve.simps by (rule served_commit [OF ok]) (rule acc [OF moves_reset [OF _ ids]])
  next
    case (ChangePassword c p q)
    show ?thesis unfolding ChangePassword serve.simps
      by (rule served_commit [OF ok])
        (auto simp: second_of_Inr change_password_route_def rbind_eq_Inr dest!: current_user_Inr intro: acc moves_change_password [OF _ _ ids])
  next
    case (SendVerification c)
    show ?thesis unfolding SendVerification serve.simps
      by (rule served_commit [OF ok])
        (auto simp: send_email_verification_route_def rbind_eq_Inr intro: acc moves_request_verification)
  next
    case (VerifyEmail t)
    show ?thesis unfolding VerifyEmail serve.simps by (rule served_commit [OF ok]) (rule acc [OF moves_verify [OF _ ids]])
  next
    case (ChangeEmail c e p)
    show ?thesis unfolding ChangeEmail serve.simps
      by (rule served_commit [OF ok])
        (auto simp: change_email_route_def request_email_change_def rbind_eq_Inr split: if_splits intro: acc moves_enqueue)
  next
    case (ConfirmEmailChange t)
    show ?thesis unfolding ConfirmEmailChange serve.simps by (rule served_commit [OF ok]) (rule acc [OF moves_confirm [OF _ ids]])
  next
    case (RunJob j)
    show ?thesis unfolding RunJob serve.simps by (rule served_commit [OF ok]) (rule acc [OF moves_job])
  next
    case (UpdateUser c i n e r)
    show ?thesis unfolding UpdateUser serve.simps
      by (rule served_commit [OF ok])
        (auto simp: second_of_Inr update_user_route_def rbind_eq_Inr intro: served_quiet update_user_quiet update_user_change [OF _ ok])
  next
    case (DeactivateUser c i)
    show ?thesis unfolding DeactivateUser serve.simps
      by (rule served_commit [OF ok])
        (auto simp: deactivate_user_route_def rbind_eq_Inr dest!: current_user_Inr
          intro: served_quiet deactivate_quiet deactivate_change [OF _ ok])
  next
    case (CreateRole c n d p)
    show ?thesis unfolding CreateRole serve.simps
      by (rule served_commit [OF ok])
        (auto simp: second_of_Inr create_role_route_def rbind_eq_Inr
          intro!: served_manager role_writes_quiet(1) create_role_change [OF _ ok])
  next
    case (UpdateRole c i n d p)
    show ?thesis unfolding UpdateRole serve.simps
      by (rule served_commit [OF ok])
        (auto simp: second_of_Inr update_role_route_def rbind_eq_Inr
          intro!: served_manager role_writes_quiet(2) update_role_change [OF _ ok])
  next
    case (DeleteRole c i)
    show ?thesis unfolding DeleteRole serve.simps
      by (rule served_commit [OF ok])
        (auto simp: delete_role_route_def rbind_eq_Inr intro!: served_manager role_writes_quiet(3) delete_role_change [OF _ ok])
  next
    case (AssignRole c u i)
    show ?thesis unfolding AssignRole serve.simps
      by (rule served_commit [OF ok])
        (auto simp: second_of_Inr assign_role_route_def rbind_eq_Inr
          intro!: served_manager role_writes_quiet(4) assign_role_change [OF _ ok])
  next
    case (ListRoles c)
    show ?thesis unfolding ListRoles serve.simps
      by (rule served_commit [OF ok])
        (auto simp: second_of_Inr list_roles_route_def rbind_eq_Inr intro: served_quiet ensure_quiet list_roles_change [OF _ ok])
  qed
qed

lemma step_well:
  assumes "site_step env s s'" and "site_ok env s"
  shows "session_moves env s s' \<and> link_moves s s' \<and> access_change True s s'"
  using assms
proof (induction rule: site_step.induct)
  case (serves s rq now)
  then show ?case using serve_well [OF serves, of rq now] by (auto simp: well_served_def access_change_def)
next
  case (elsewhere s d)
  then have "account_moves env s (s\<lparr>st_shop := d\<rparr>)" by (intro moves_shop)
  then show ?case using elsewhere.prems by (simp add: account_moves_def staff_frame_change site_ok_def)
qed

lemma site_ok_step:
  assumes "site_step env s s'" and "site_ok env s"
  shows "site_ok env s'"
proof -
  note w = step_well [OF assms]
  have "sessions_ok env v" if "(session_step env)\<^sup>*\<^sup>* (sessions s) v" for v
    using that by (induction rule: rtranclp_induct) (use assms(2) in \<open>auto simp: site_ok_def intro: sessions_ok_step\<close>)
  moreover have "distinct (map at_token_hash v)" if "link_step\<^sup>*\<^sup>* (st_auth_tokens s) v" for v
    using that by (induction rule: rtranclp_induct) (use assms(2) in \<open>auto simp: site_ok_def intro: link_step_distinct\<close>)
  ultimately show ?thesis using w by (simp add: site_ok_def access_change_def)
qed

interpretation session_view: site_view env "site_ok env" sessions "session_step env" for env
  by unfold_locales (auto dest: site_ok_step step_well)

interpretation link_view: site_view env "site_ok env" st_auth_tokens link_step for env
  by unfold_locales (auto dest: site_ok_step step_well)

end
