(* ===== verification/Account_Properties.thy ===== *)
theory Account_Properties
  imports Account_Guarantees
begin

text \<open>
  The properties of accounts, sessions and staff access, with a small site they are tried on: an owner, a
  customer and a stand-in for the token library.
\<close>

section \<open>A small site\<close>

text \<open>Tokens as two or three characters: kind, account, and the identifier of a refresh token.\<close>

definition toy_encode :: "claims \<Rightarrow> string" where
  "toy_encode c =
     (case (cl_sub c, cl_jti c) of
        (KI i, None) \<Rightarrow> [CHR ''A'', char_of i]
      | (KI i, Some (KI j)) \<Rightarrow> [CHR ''R'', char_of i, char_of j]
      | _ \<Rightarrow> ''X'')"

definition toy_decode :: "int \<Rightarrow> string \<Rightarrow> claims option" where
  "toy_decode now token =
     (case token of
        [k, i] \<Rightarrow> if k = CHR ''A''
          then Some \<lparr>cl_sub = KI (char_code i), cl_type = Some ''access'', cl_iat = 0, cl_exp = 1000, cl_jti = None\<rparr> else None
      | [k, i, j] \<Rightarrow> if k = CHR ''R''
          then Some \<lparr>cl_sub = KI (char_code i), cl_type = Some ''refresh'', cl_iat = 0, cl_exp = 1000, cl_jti = Some (KI (char_code j))\<rparr> else None
      | _ \<Rightarrow> None)"

definition toy_env :: auth_env where
  "toy_env = \<lparr>ev_encode = toy_encode, ev_decode = toy_decode, ev_unverified = toy_decode 0,
     ev_hash_password = (\<lambda>salt p. CHR ''h'' # p), ev_verify_password = (\<lambda>p h. h = CHR ''h'' # p), ev_sha256 = (\<lambda>x. CHR ''s'' # x),
     ev_random = (\<lambda>n. [CHR ''t'', char_of n]), ev_sends = (\<lambda>_ _. True), access_token_expire_minutes = 15, refresh_token_expire_days = 7,
     refresh_reuse_grace_seconds = 10, refresh_reuse_grace_max_replays = 3, password_reset_token_minutes = 60,
     email_verification_token_hours = 24, email_change_token_minutes = 60, password_reset_emails_per_hour = 3\<rparr>"

definition sample_user :: "int \<Rightarrow> string \<Rightarrow> user_role \<Rightarrow> user" where
  "sample_user i name role = \<lparr>u_id = i, u_username = name, u_email = name @ ''@x'', u_password_hash = CHR ''h'' # name, u_role = role,
     u_is_active = True, u_email_verified_at = None, u_created_at = 0\<rparr>"

definition sample_site :: site where
  "sample_site = \<lparr>st_shop = empty_db, st_users = [sample_user 1 ''ann'' ADMIN, sample_user 2 ''bob'' USER], st_refresh_tokens = [],
     st_auth_tokens = [], st_roles = [], st_assignments = [], st_outbox = []\<rparr>"

text \<open>Requests one after the other, each with its time in seconds.\<close>

definition served :: "(account_request \<times> int) list \<Rightarrow> site" where
  "served rqs = fold (\<lambda>(rq, t). serve toy_env rq (t * second)) rqs sample_site"

definition toy_refresh :: "int \<Rightarrow> int \<Rightarrow> string" where
  "toy_refresh i j = [CHR ''R'', char_of i, char_of j]"

definition toy_access :: "int \<Rightarrow> string" where
  "toy_access i = [CHR ''A'', char_of i]"

definition toy_link :: "int \<Rightarrow> string" where
  "toy_link n = [CHR ''t'', char_of n]"

text \<open>Bob signs in, refreshes, and his second tab presents the same token again.\<close>

definition two_tabs :: "(account_request \<times> int) list" where
  "two_tabs = [(Login ''bob@x'' ''bob'' None, 1), (Refresh (toy_refresh 2 100), 2), (Refresh (toy_refresh 2 100), 3)]"

lemma served_run: "site_run toy_env sample_site (served rqs)"
proof -
  have "site_run toy_env s (fold (\<lambda>(rq, t). serve toy_env rq (t * second)) rqs s)" for s
  proof (induction rqs arbitrary: s)
    case (Cons a rqs)
    obtain rq t where a: "a = (rq, t)" by (cases a)
    have "site_step toy_env s (serve toy_env rq (t * second) s)" by (rule serves)
    then show ?case using Cons [of "serve toy_env rq (t * second) s"] by (simp add: a converse_rtranclp_into_rtranclp)
  qed simp
  then show ?thesis by (simp add: served_def)
qed

text \<open>
  Bob also asks for another address and for a new password, and the two emails are sent; and Ann makes Bob an
  administrator, who holds nothing until she gives him the Owner role.
\<close>

definition pending :: "(account_request \<times> int) list" where
  "pending = two_tabs @ [(ChangeEmail (toy_access 2) ''eve@x'' ''bob'', 3), (ForgotPassword ''bob@x'', 4),
     (RunJob \<lparr>jb_id = 107, jb_type = ''send_email_change'', jb_payload = [KI 2, KS ''eve@x''], jb_dedupe_key = None\<rparr>, 5),
     (RunJob \<lparr>jb_id = 108, jb_type = ''send_password_reset'', jb_payload = [KS ''bob@x''], jb_dedupe_key = None\<rparr>, 6)]"

definition promoted :: "(account_request \<times> int) list" where
  "promoted = [(Login ''bob@x'' ''bob'' None, 1), (ListRoles (toy_access 1), 2),
     (UpdateUser (toy_access 1) 2 None None (Some ADMIN), 3), (AssignRole (toy_access 1) 2 (- 1), 4)]"

definition toy_claims :: "int \<Rightarrow> int \<Rightarrow> claims" where
  "toy_claims i j = \<lparr>cl_sub = KI i, cl_type = Some ''refresh'', cl_iat = 0, cl_exp = 1000, cl_jti = Some (KI j)\<rparr>"

definition first_token :: "site \<Rightarrow> refresh_token" where "first_token s = st_refresh_tokens s ! 0"
definition second_token :: "site \<Rightarrow> refresh_token" where "second_token s = st_refresh_tokens s ! 1"
definition third_token :: "site \<Rightarrow> refresh_token" where "third_token s = st_refresh_tokens s ! 2"

lemma served_snoc: "served (rqs @ [(rq, t)]) = serve toy_env rq (t * second) (served rqs)"
  by (simp add: served_def)

lemma sample_ok: "site_ok toy_env sample_site"
  by code_simp

lemma served_ok: "site_ok toy_env (served rqs)"
  by (rule session_view.run_ok [OF served_run sample_ok])

lemma not_isl_Inr: "\<not> isl r \<Longrightarrow> \<exists>x. r = Inr x"
  by (cases r) auto

lemma served_Inr:
  assumes "serve toy_env rq (t * second) (served rqs) = committed (served rqs) r" and "\<not> isl r"
  shows "r = Inr (served (rqs @ [(rq, t)]))"
  using assms by (cases r) (simp_all add: served_snoc committed_def)

section \<open>Sessions\<close>

lemma dead_forever:
  assumes "site_ok env s" and "site_run env s s'" and "t \<in> set (st_refresh_tokens s)" and "\<not> family_has_active_token (tk_family_id t) s"
    and "ev_decode env now tok = Some c" and "cl_jti c = Some (tk_jti t)"
  shows "fst (auth_refresh env tok now s') = Inl InvalidRefreshToken"
proof -
  have "dead env (tk_family_id t) (tk_jti t) (sessions s)"
    using dead_start [OF _ assms(3,4)] assms(1) by (simp add: site_ok_def)
  then have "dead env (tk_family_id t) (tk_jti t) (sessions s')"
    using dead_step by (rule session_view.run_invariant [OF assms(2,1)])
  then show ?thesis using assms(5,6) by (rule dead_refused)
qed

lemma site_ok_serve: "site_ok env s \<Longrightarrow> site_ok env (serve env rq now s)"
  by (rule site_ok_step [OF serves])

lemma revoked_inactive:
  "\<not> list_ex (\<lambda>t. P t \<and> \<not> tk_revoked t) (st_refresh_tokens (revoke_where P s))" if "\<And>t b. P (t\<lparr>tk_revoked := b\<rparr>) = P t"
  using that by (auto simp: revoke_where_def list_ex_iff)

text \<open>
  Claim C11 (safety). Presenting a refresh token that was revoked, outside the grace window, is refused and
  shuts its whole family down for good: whatever happens later, no token that family had is ever accepted
  again.
\<close>

theorem reuse_shuts_family:
  assumes "site_ok env s" and "ev_decode env now tok = Some c" and "cl_type c = Some ''refresh''"
    and "get_refresh_token_by_jti (cl_jti c) s = Some t" and "tk_revoked t" and "\<not> is_benign_replay env t now s"
    and "site_run env (snd (auth_refresh env tok now s)) s'"
    and "x \<in> set (st_refresh_tokens s)" and "tk_family_id x = tk_family_id t"
    and "ev_decode env now' tok' = Some c'" and "cl_jti c' = Some (tk_jti x)"
  shows "fst (auth_refresh env tok now s) = Inl InvalidRefreshToken \<and> fst (auth_refresh env tok' now' s') = Inl InvalidRefreshToken"
proof
  have eq: "auth_refresh env tok now s = (Inl InvalidRefreshToken, revoke_family (tk_family_id t) s)"
    using assms(2-6) by (simp add: auth_refresh_def)
  then show "fst (auth_refresh env tok now s) = Inl InvalidRefreshToken" by simp
  let ?s = "revoke_family (tk_family_id t) s"
  have ok: "site_ok env ?s" using site_ok_serve [OF assms(1), of "Refresh tok" now] eq by simp
  let ?x = "if \<not> tk_revoked x then x\<lparr>tk_revoked := True\<rparr> else x"
  have x: "?x \<in> set (st_refresh_tokens ?s)" "tk_family_id ?x = tk_family_id t" "tk_jti ?x = tk_jti x"
    using assms(8,9) by (force simp: revoke_family_def revoke_where_def image_iff)+
  have "\<not> family_has_active_token (tk_family_id ?x) ?s"
    using revoked_inactive [of "\<lambda>y. tk_family_id y = tk_family_id t" s] unfolding family_has_active_token_def revoke_family_def x(2) by simp
  then show "fst (auth_refresh env tok' now' s') = Inl InvalidRefreshToken"
    using dead_forever [OF ok _ x(1) _ assms(10)] assms(7,11) eq x(3) by simp
qed

theorem reuse_shuts_family_witness:
  "fst (auth_refresh toy_env (toy_refresh 2 100) (30 * second) (served two_tabs)) = Inl InvalidRefreshToken
   \<and> fst (auth_refresh toy_env (toy_refresh 2 105) (31 * second) (served (two_tabs @ [(Refresh (toy_refresh 2 100), 30)]))) = Inl InvalidRefreshToken"
proof -
  let ?s = "served two_tabs"
  have p: "cl_type (toy_claims 2 100) = Some ''refresh''" "cl_jti (toy_claims 2 105) = Some (tk_jti (third_token ?s))"
    "ev_decode toy_env (30 * second) (toy_refresh 2 100) = Some (toy_claims 2 100)"
    "ev_decode toy_env (31 * second) (toy_refresh 2 105) = Some (toy_claims 2 105)"
    "get_refresh_token_by_jti (cl_jti (toy_claims 2 100)) ?s = Some (first_token ?s)" "tk_revoked (first_token ?s)"
    "\<not> is_benign_replay toy_env (first_token ?s) (30 * second) ?s" "third_token ?s \<in> set (st_refresh_tokens ?s)"
    "tk_family_id (third_token ?s) = tk_family_id (first_token ?s)"
    by code_simp+
  show ?thesis
    using reuse_shuts_family [OF served_ok p(3,1,5,6,7) rtranclp.rtrancl_refl p(8,9,4,2)] by (simp add: served_snoc)
qed

lemma reset_password_Inr:
  assumes "reset_password env tok pw now s = Inr s'"
  obtains t u v where "find (consumable (ev_sha256 env tok) PASSWORD_RESET now) (st_auth_tokens s) = Some t" "row u_id (at_user_id t) (st_users s) = Some u"
    "u_is_active u" "at_email t = u_email u"
    "st_users s' = set_row u_id (u\<lparr>u_password_hash := ev_hash_password env (next_id s) pw, u_email_verified_at := Some v\<rparr>) (st_users s)"
    "st_refresh_tokens s' = st_refresh_tokens (revoke_all_refresh_tokens (u_id u) s)"
    "st_auth_tokens s' = st_auth_tokens (invalidate_auth_tokens (u_id u) [PASSWORD_RESET] now
       (use_where (consumable (ev_sha256 env tok) PASSWORD_RESET now) now s))"
proof -
  let ?s1 = "use_where (consumable (ev_sha256 env tok) PASSWORD_RESET now) now s"
  let ?s2 = "?s1\<lparr>st_shop := (st_shop ?s1)\<lparr>d_next := next_id ?s1 + 1\<rparr>\<rparr>"
  let ?u = "\<lambda>u v. u\<lparr>u_password_hash := ev_hash_password env (next_id s) pw, u_email_verified_at := Some v\<rparr>"
  obtain u email v where u: "token_owner (map_option (\<lambda>t. (at_user_id t, at_email t)) (find (consumable (ev_sha256 env tok) PASSWORD_RESET now) (st_auth_tokens s))) ?s1
       = Some (u, email)" and email: "u_email u = email"
    and s': "s' = site_enqueue ''send_account_notice'' [KI (u_id u), KS ''password_changed''] None
        (site_audit (Some (u_id u)) ''auth.password_reset'' ''user'' [KI (u_id u)]
        (revoke_all_refresh_tokens (u_id u) (invalidate_auth_tokens (u_id u) [PASSWORD_RESET] now
        (put_users (set_row u_id (?u u v) (st_users ?s2)) ?s2))))"
    using assms unfolding reset_password_def consume_auth_token_def Let_def
    by (auto simp: rbind_eq_Inr split: option.splits if_splits)
  obtain t where t: "find (consumable (ev_sha256 env tok) PASSWORD_RESET now) (st_auth_tokens s) = Some t" "at_user_id t = u_id u" "at_email t = email"
    using token_owner_Some [OF u] by auto
  show ?thesis
    by (rule that [OF t(1)])
      (use token_owner_Some [OF u] t(2,3) email in \<open>auto simp: s' revoke_all_refresh_tokens_def revoke_where_def invalidate_auth_tokens_def use_where_def\<close>)
qed

text \<open>
  Claim C14 (safety). A password is reset only with an unused, unexpired reset link that was issued to the
  account's current address; afterwards the account has the new password, no reset link of it works, and it
  is signed out everywhere: no refresh token it had is ever accepted again.
\<close>

theorem reset_signs_out_everywhere:
  assumes "site_ok env s" and "reset_password env tok pw now s = Inr s1"
  shows "\<exists>t u. t \<in> set (st_auth_tokens s) \<and> consumable (ev_sha256 env tok) PASSWORD_RESET now t
     \<and> get_user_by_id (at_user_id t) s = Some u \<and> u_is_active u \<and> at_email t = u_email u
     \<and> map_option u_password_hash (get_user_by_id (u_id u) s1) = Some (ev_hash_password env (next_id s) pw)
     \<and> (\<forall>l \<in> set (st_auth_tokens s1). at_user_id l = u_id u \<and> at_purpose l = PASSWORD_RESET \<longrightarrow> at_used_at l \<noteq> None)
     \<and> (\<forall>x \<in> set (st_refresh_tokens s). \<forall>s' tok' now' c'. tk_user_id x = u_id u \<and> site_run env s1 s'
          \<and> ev_decode env now' tok' = Some c' \<and> cl_jti c' = Some (tk_jti x)
          \<longrightarrow> fst (auth_refresh env tok' now' s') = Inl InvalidRefreshToken)"
proof -
  have ok: "site_ok env s1" using site_ok_serve [OF assms(1), of "ResetPassword tok pw" now] assms(2) by (simp add: committed_def)
  then have so: "sessions_ok env (st_refresh_tokens s1, next_id s1)" by (simp add: site_ok_def sessions_def)
  from assms(2) show ?thesis
  proof (rule reset_password_Inr)
    fix t u v
    assume t: "find (consumable (ev_sha256 env tok) PASSWORD_RESET now) (st_auth_tokens s) = Some t"
      and u: "row u_id (at_user_id t) (st_users s) = Some u" "u_is_active u" "at_email t = u_email u"
      and users: "st_users s1 = set_row u_id (u\<lparr>u_password_hash := ev_hash_password env (next_id s) pw, u_email_verified_at := Some v\<rparr>) (st_users s)"
      and tokens: "st_refresh_tokens s1 = st_refresh_tokens (revoke_all_refresh_tokens (u_id u) s)"
      and links: "st_auth_tokens s1 = st_auth_tokens (invalidate_auth_tokens (u_id u) [PASSWORD_RESET] now
         (use_where (consumable (ev_sha256 env tok) PASSWORD_RESET now) now s))"
    have t': "t \<in> set (st_auth_tokens s)" "consumable (ev_sha256 env tok) PASSWORD_RESET now t"
      using t by (auto simp: find_Some_iff in_set_conv_nth)
    have uid: "u_id u = at_user_id t" using row_SomeD [OF u(1)] by simp
    have hash: "map_option u_password_hash (get_user_by_id (u_id u) s1) = Some (ev_hash_password env (next_id s) pw)"
      using u(1) uid by (simp add: get_user_by_id_def users row_set_row)
    have used: "at_used_at l \<noteq> None" if "l \<in> set (st_auth_tokens s1)" "at_user_id l = u_id u" "at_purpose l = PASSWORD_RESET" for l
      using that unfolding links by (auto simp: invalidate_auth_tokens_def use_where_def split: if_splits)
    have out: "fst (auth_refresh env tok' now' s') = Inl InvalidRefreshToken"
      if x: "x \<in> set (st_refresh_tokens s)" "tk_user_id x = u_id u" and run: "site_run env s1 s'"
        and c: "ev_decode env now' tok' = Some c'" "cl_jti c' = Some (tk_jti x)" for x s' tok' now' c'
    proof -
      let ?x = "if \<not> tk_revoked x then x\<lparr>tk_revoked := True\<rparr> else x"
      have x': "?x \<in> set (st_refresh_tokens s1)" "tk_family_id ?x = tk_family_id x" "tk_jti ?x = tk_jti x"
        using x by (force simp: tokens revoke_all_refresh_tokens_def revoke_where_def image_iff)+
      have "tk_revoked y" if y: "y \<in> set (st_refresh_tokens s1)" "tk_family_id y = tk_family_id x" for y
      proof -
        have "tk_user_id y = tk_user_id ?x"
          using sessions_okD(4) [OF so x'(1) y(1)] y(2) x'(2) by simp
        then show ?thesis using y(1) x(2) by (auto simp: tokens revoke_all_refresh_tokens_def revoke_where_def split: if_splits)
      qed
      then have "\<not> family_has_active_token (tk_family_id ?x) s1" by (auto simp: family_has_active_token_def list_ex_iff)
      from dead_forever [OF ok run x'(1) this c(1)] show ?thesis using c(2) x'(3) by simp
    qed
    show ?thesis
      using t' u uid hash used out by (intro exI [of _ t] exI [of _ u]) (simp add: get_user_by_id_def)
  qed
qed

theorem reset_signs_out_everywhere_witness:
  "\<exists>t (u :: user). t \<in> set (st_auth_tokens (served pending)) \<and> at_user_id t = u_id u
     \<and> map_option u_password_hash (get_user_by_id (u_id u) (served (pending @ [(ResetPassword (toy_link 111) ''newpass'', 7)]))) = Some ''hnewpass''"
proof -
  have r: "reset_password toy_env (toy_link 111) ''newpass'' (7 * second) (served pending)
      = Inr (served (pending @ [(ResetPassword (toy_link 111) ''newpass'', 7)]))"
    by (rule served_Inr, simp) code_simp
  have h: "ev_hash_password toy_env n ''newpass'' = ''hnewpass''" for n by (simp add: toy_env_def)
  obtain t u where "t \<in> set (st_auth_tokens (served pending))" "get_user_by_id (at_user_id t) (served pending) = Some u"
    "map_option u_password_hash (get_user_by_id (u_id u) (served (pending @ [(ResetPassword (toy_link 111) ''newpass'', 7)]))) = Some ''hnewpass''"
    using reset_signs_out_everywhere [OF served_ok r] unfolding h by blast
  moreover from this(2) have "at_user_id t = u_id u" by (auto simp: get_user_by_id_def dest: row_SomeD)
  ultimately show ?thesis by blast
qed

text \<open>
  Claim C16 (refinement). Whatever requests, jobs and other work run, the refresh tokens move only as the
  session machine allows: new families by signing in, exchanges within a family, replays inside the limits,
  and revocations.
\<close>

theorem sessions_refine_machine:
  assumes "site_ok env s" and "site_run env s s'"
  shows "(session_step env)\<^sup>*\<^sup>* (sessions s) (sessions s') \<and> site_ok env s'"
  using session_view.run_ok_moves [OF assms(2,1)] by blast

theorem sessions_refine_machine_witness:
  "(session_step toy_env)\<^sup>*\<^sup>* (sessions sample_site) (sessions (served two_tabs)) \<and> length (st_refresh_tokens (served two_tabs)) = 3"
proof
  show "(session_step toy_env)\<^sup>*\<^sup>* (sessions sample_site) (sessions (served two_tabs))"
    using sessions_refine_machine [OF sample_ok served_run] by blast
  show "length (st_refresh_tokens (served two_tabs)) = 3" by code_simp
qed

text \<open>
  Claim C17 (bounds). In every reachable state a token was replayed at most as often as configured, a rotated
  token is revoked, all tokens of a family belong to one account, and a family has at most one usable token
  more than it had replays.
\<close>

theorem session_bounds:
  assumes "site_ok env s" and "site_run env s s'" and "t \<in> set (st_refresh_tokens s')"
  shows "0 \<le> tk_grace_replays t \<and> tk_grace_replays t \<le> max 0 (refresh_reuse_grace_max_replays env)
     \<and> (tk_rotated_at t \<noteq> None \<longrightarrow> tk_revoked t)
     \<and> (\<forall>x \<in> set (st_refresh_tokens s'). tk_family_id x = tk_family_id t \<longrightarrow> tk_user_id x = tk_user_id t)
     \<and> usable (tk_family_id t) (st_refresh_tokens s') \<le> 1 + replayed (tk_family_id t) (st_refresh_tokens s')"
proof -
  have so: "sessions_ok env (st_refresh_tokens s', next_id s')"
    using session_view.run_ok [OF assms(2,1)] by (simp add: site_ok_def sessions_def)
  have "usable (tk_family_id t) (st_refresh_tokens s') \<le> 1 + replayed (tk_family_id t) (st_refresh_tokens s')"
    by (rule sessions_okD(5) [OF so]) (use assms(3) in simp)
  then show ?thesis
    using sessions_okD(3) [OF so assms(3)] sessions_okD(4) [OF so assms(3)] unfolding token_ok_def by blast
qed

theorem session_bounds_witness:
  "tk_grace_replays (first_token (served two_tabs)) = 1 \<and> usable 102 (st_refresh_tokens (served two_tabs)) = 2
   \<and> usable 102 (st_refresh_tokens (served two_tabs)) \<le> 1 + replayed 102 (st_refresh_tokens (served two_tabs))"
proof -
  have p: "first_token (served two_tabs) \<in> set (st_refresh_tokens (served two_tabs))" "tk_family_id (first_token (served two_tabs)) = 102" by code_simp+
  have "tk_grace_replays (first_token (served two_tabs)) = 1" "usable 102 (st_refresh_tokens (served two_tabs)) = 2" by code_simp+
  moreover from session_bounds [OF sample_ok served_run p(1)]
  have "usable 102 (st_refresh_tokens (served two_tabs)) \<le> 1 + replayed 102 (st_refresh_tokens (served two_tabs))" unfolding p(2) by blast
  ultimately show ?thesis by simp
qed

text \<open>
  Claim C38 (error). Signing out revokes only the token presented: another usable token of the same family,
  which an accepted replay leaves behind, stays usable.
\<close>

theorem logout_keeps_siblings:
  assumes "site_ok env s" and "ev_decode env now tok = Some c" and "get_refresh_token_by_jti (cl_jti c) s = Some t"
    and "x \<in> set (st_refresh_tokens s)" and "tk_jti x \<noteq> tk_jti t" and "\<not> tk_revoked x"
  shows "x \<in> set (st_refresh_tokens (auth_logout env tok now s)) \<and> family_has_active_token (tk_family_id x) (auth_logout env tok now s)"
proof -
  have so: "sessions_ok env (st_refresh_tokens s, next_id s)" using assms(1) by (simp add: site_ok_def sessions_def)
  have "tk_id x \<noteq> tk_id t"
    using sessions_okD(1) [OF so] assms(4,5) get_refresh_token_Some [OF assms(3)] by (auto simp: distinct_map dest: inj_onD)
  then have "x \<in> set (st_refresh_tokens (auth_logout env tok now s))"
    using assms(2-4) by (auto simp: auth_logout_def revoke_refresh_token_def put_token_def set_row_def image_iff)
  with assms(6) show ?thesis by (auto simp: family_has_active_token_def list_ex_iff)
qed

theorem logout_keeps_siblings_witness:
  "family_has_active_token 102 (auth_logout toy_env (toy_refresh 2 103) (4 * second) (served two_tabs))
   \<and> (\<exists>pair. fst (auth_refresh toy_env (toy_refresh 2 105) (5 * second) (served (two_tabs @ [(Logout (toy_refresh 2 103), 4)]))) = Inr pair)"
proof -
  let ?s = "served two_tabs"
  have p: "ev_decode toy_env (4 * second) (toy_refresh 2 103) = Some (toy_claims 2 103)"
    "get_refresh_token_by_jti (cl_jti (toy_claims 2 103)) ?s = Some (second_token ?s)"
    "third_token ?s \<in> set (st_refresh_tokens ?s)" "tk_jti (third_token ?s) \<noteq> tk_jti (second_token ?s)" "\<not> tk_revoked (third_token ?s)"
    "tk_family_id (third_token ?s) = 102"
    by code_simp+
  have "\<not> isl (fst (auth_refresh toy_env (toy_refresh 2 105) (5 * second) (served (two_tabs @ [(Logout (toy_refresh 2 103), 4)]))))" by code_simp
  then show ?thesis using logout_keeps_siblings [OF served_ok p(1-5)] p(6) by (auto dest: not_isl_Inr)
qed

section \<open>Links\<close>

lemma spent_consume:
  assumes "find (consumable h p now) (st_auth_tokens s) = Some t" and "distinct (map at_token_hash (st_auth_tokens s))"
  shows "spent h (st_auth_tokens (use_where (consumable h p now) now s))"
proof -
  have t: "t \<in> set (st_auth_tokens s)" "consumable h p now t" using assms(1) by (auto simp: find_Some_iff in_set_conv_nth)
  have "x = t" if "x \<in> set (st_auth_tokens s)" "at_token_hash x = h" for x
    using assms(2) that t by (auto simp: distinct_map consumable_def dest: inj_onD)
  then have "consumable h p now x" if "x \<in> set (st_auth_tokens s)" "at_token_hash x = h" for x using that t(2) by simp
  moreover have "at_token_hash ` set (st_auth_tokens (use_where (consumable h p now) now s)) = at_token_hash ` set (st_auth_tokens s)"
    using use_keys [of "consumable h p now" now "st_auth_tokens s"] unfolding use_where_def by (metis (no_types, lifting) set_map site.select_convs(4) site.surjective site.update_convs(4))
  then have "h \<in> at_token_hash ` set (st_auth_tokens (use_where (consumable h p now) now s))"
    using t by (auto simp: consumable_def)
  ultimately show ?thesis unfolding spent_def by (auto simp: use_where_def split: if_splits)
qed

lemma spent_used: "spent h (st_auth_tokens s) \<Longrightarrow> (\<And>t. P t \<Longrightarrow> at_used_at t = None) \<Longrightarrow> spent h (st_auth_tokens (use_where P now s))"
  unfolding use_where_def by (simp add: spent_step [OF used])

lemma spent_invalidate: "spent h (st_auth_tokens s) \<Longrightarrow> spent h (st_auth_tokens (invalidate_auth_tokens u ps now s))"
  unfolding invalidate_auth_tokens_def by (rule spent_used) simp_all

lemma spent_refused:
  assumes "spent (ev_sha256 env tok) (st_auth_tokens s)"
  shows "reset_password env tok pw now s = Inl InvalidAccountToken" "verify_email env tok now s = Inl InvalidAccountToken"
    "confirm_email_change env tok now s = Inl InvalidAccountToken"
proof -
  have "find (consumable (ev_sha256 env tok) p now) (st_auth_tokens s) = None" for p
    using assms by (auto simp: find_None_iff spent_def consumable_def)
  then show "reset_password env tok pw now s = Inl InvalidAccountToken" "verify_email env tok now s = Inl InvalidAccountToken"
    "confirm_email_change env tok now s = Inl InvalidAccountToken"
    by (simp_all add: reset_password_def verify_email_def confirm_email_change_def consume_auth_token_def token_owner_def)
qed

lemma token_owner_find:
  "token_owner (map_option f (find P ts)) s = Some x \<Longrightarrow> \<exists>t. find P ts = Some t"
  by (cases "find P ts") (auto simp: token_owner_def)

lemma consumed_spent:
  assumes "reset_password env tok pw now s = Inr s1 \<or> verify_email env tok now s = Inr s1 \<or> confirm_email_change env tok now s = Inr s1"
    and d: "distinct (map at_token_hash (st_auth_tokens s))"
  shows "spent (ev_sha256 env tok) (st_auth_tokens s1)"
  using assms(1)
proof (elim disjE)
  assume "reset_password env tok pw now s = Inr s1"
  then show ?thesis
    by (rule reset_password_Inr) (simp only:, rule spent_invalidate, rule spent_consume [OF _ d])
next
  assume v: "verify_email env tok now s = Inr s1"
  let ?s1 = "use_where (consumable (ev_sha256 env tok) EMAIL_VERIFICATION now) now s"
  obtain t where "find (consumable (ev_sha256 env tok) EMAIL_VERIFICATION now) (st_auth_tokens s) = Some t" "st_auth_tokens s1 = st_auth_tokens ?s1"
    using v unfolding verify_email_def consume_auth_token_def Let_def
    by (auto simp: rbind_eq_Inr split: option.splits if_splits dest!: token_owner_find)
  then show ?thesis using spent_consume [OF _ d] by simp
next
  assume v: "confirm_email_change env tok now s = Inr s1"
  let ?s1 = "use_where (consumable (ev_sha256 env tok) EMAIL_CHANGE now) now s"
  let ?us = "\<lambda>u email. set_row u_id (u\<lparr>u_email := email, u_email_verified_at := Some now\<rparr>) (st_users ?s1)"
  obtain t u email where t: "find (consumable (ev_sha256 env tok) EMAIL_CHANGE now) (st_auth_tokens s) = Some t"
    and s1: "st_auth_tokens s1 = st_auth_tokens (invalidate_auth_tokens (u_id u) [PASSWORD_RESET, EMAIL_VERIFICATION, EMAIL_CHANGE] now
        (put_users (?us u email) ?s1))"
    using v unfolding confirm_email_change_def consume_auth_token_def Let_def
    by (auto simp: rbind_eq_Inr split: option.splits if_splits dest!: token_owner_find)
  have "spent (ev_sha256 env tok) (st_auth_tokens (put_users (?us u email) ?s1))" using spent_consume [OF t d] by simp
  then show ?thesis unfolding s1 by (rule spent_invalidate)
qed

text \<open>
  Claim C15 (safety). A link from an email works once: after it reset a password, verified an address or
  changed one, it is refused everywhere, whatever happened in between.
\<close>

theorem link_works_once:
  assumes "site_ok env s"
    and "reset_password env tok pw now s = Inr s1 \<or> verify_email env tok now s = Inr s1 \<or> confirm_email_change env tok now s = Inr s1"
    and "site_run env s1 s'"
  shows "reset_password env tok pw' now' s' = Inl InvalidAccountToken \<and> verify_email env tok now' s' = Inl InvalidAccountToken
     \<and> confirm_email_change env tok now' s' = Inl InvalidAccountToken"
proof -
  have "serve env (ResetPassword tok pw) now s = s1 \<or> serve env (VerifyEmail tok) now s = s1 \<or> serve env (ConfirmEmailChange tok) now s = s1"
    using assms(2) unfolding serve.simps by (elim disjE) (simp_all add: committed_def)
  then have ok: "site_ok env s1" using site_ok_serve [OF assms(1)] by blast
  have "spent (ev_sha256 env tok) (st_auth_tokens s1)"
    using consumed_spent [OF assms(2)] assms(1) by (simp add: site_ok_def)
  then have "spent (ev_sha256 env tok) (st_auth_tokens s')"
    using spent_step by (rule link_view.run_invariant [OF assms(3) ok])
  then show ?thesis by (simp add: spent_refused)
qed

theorem link_works_once_witness:
  "reset_password toy_env (toy_link 111) ''again'' (8 * second) (served (pending @ [(ResetPassword (toy_link 111) ''newpass'', 7)]))
     = Inl InvalidAccountToken"
proof -
  have r: "reset_password toy_env (toy_link 111) ''newpass'' (7 * second) (served pending)
      = Inr (served (pending @ [(ResetPassword (toy_link 111) ''newpass'', 7)]))"
    by (rule served_Inr, simp) code_simp
  show ?thesis using link_works_once [OF served_ok disjI1 [OF r] rtranclp.rtrancl_refl] by blast
qed

text \<open>
  Claim C37 (error). Resetting the password leaves a pending change of the account's address alone: its link,
  asked for with the old password, can still be used.
\<close>

theorem reset_keeps_email_change_link:
  assumes "reset_password env tok pw now s = Inr s1" and "t \<in> set (st_auth_tokens s)" and "at_purpose t = EMAIL_CHANGE"
  shows "t \<in> set (st_auth_tokens s1)"
  using assms(1)
proof (rule reset_password_Inr)
  fix u
  assume "st_auth_tokens s1 = st_auth_tokens (invalidate_auth_tokens (u_id u) [PASSWORD_RESET] now
       (use_where (consumable (ev_sha256 env tok) PASSWORD_RESET now) now s))"
  then show ?thesis using assms(2,3) by (force simp: invalidate_auth_tokens_def use_where_def consumable_def image_iff)
qed

theorem reset_keeps_email_change_link_witness:
  "hd (st_auth_tokens (served pending)) \<in> set (st_auth_tokens (served (pending @ [(ResetPassword (toy_link 111) ''newpass'', 7)])))
   \<and> map u_email (st_users (served (pending @ [(ResetPassword (toy_link 111) ''newpass'', 7), (ConfirmEmailChange (toy_link 109), 8)])))
     = [''ann@x'', ''eve@x'']"
proof -
  have r: "reset_password toy_env (toy_link 111) ''newpass'' (7 * second) (served pending)
      = Inr (served (pending @ [(ResetPassword (toy_link 111) ''newpass'', 7)]))"
    by (rule served_Inr, simp) code_simp
  have p: "hd (st_auth_tokens (served pending)) \<in> set (st_auth_tokens (served pending))"
    "at_purpose (hd (st_auth_tokens (served pending))) = EMAIL_CHANGE" by code_simp+
  have "map u_email (st_users (served (pending @ [(ResetPassword (toy_link 111) ''newpass'', 7), (ConfirmEmailChange (toy_link 109), 8)])))
     = [''ann@x'', ''eve@x'']" by code_simp
  with reset_keeps_email_change_link [OF r p] show ?thesis by blast
qed

section \<open>Staff\<close>

text \<open>
  Claim C12 (invariant). If some active administrator can manage roles, then in every later state some active
  administrator can: no sequence of demotions, deactivations, role edits, deletions and assignments locks
  everyone out.
\<close>

theorem role_manager_remains:
  assumes "site_ok env s" and "manager_exists s" and "site_run env s s'"
  shows "\<exists>u \<in> set (st_users s'). active_admin u \<and> has_permission u ROLES_MANAGE s'"
proof -
  have "manager_exists s' \<and> site_ok env s'"
    using assms(3) by (induction rule: rtranclp_induct) (use assms(1,2) step_well site_ok_step in \<open>auto simp: access_change_def\<close>)
  then show ?thesis by (auto simp: manager_exists_def has_permission_iff)
qed

theorem role_manager_remains_witness:
  "\<exists>u \<in> set (st_users (served (promoted @ [(DeactivateUser (toy_access 1) 1, 5)]))).
     active_admin u \<and> has_permission u ROLES_MANAGE (served (promoted @ [(DeactivateUser (toy_access 1) 1, 5)]))"
proof -
  have "manager_exists sample_site" by code_simp
  then show ?thesis by (rule role_manager_remains [OF sample_ok _ served_run])
qed

text \<open>
  Claim C13 (safety). Nobody gains a permission except through a request sent by an active administrator who
  can manage roles: registration, promotion, account recovery, profile changes and the jobs give none.
\<close>

theorem permissions_come_from_managers:
  assumes "site_ok env s" and "holds i p (serve env rq now s)" and "\<not> holds i p s"
  shows "\<exists>cred me. credentials_of rq = Some cred \<and> get_current_user env cred now s = Inr me \<and> active_admin me
     \<and> has_permission me ROLES_MANAGE s"
proof -
  have "sender_manages env rq now s"
    using serve_well [OF assms(1), of rq now] assms(2,3) by (auto simp: well_served_def access_change_def)
  then show ?thesis by (auto simp: sender_manages_def has_permission_iff split: option.splits sum.splits)
qed

theorem permissions_come_from_managers_witness:
  "\<exists>me. get_current_user toy_env (toy_access 1) (4 * second) (served (butlast promoted)) = Inr me
     \<and> has_permission me ROLES_MANAGE (served (butlast promoted)) \<and> \<not> holds 2 TAX_READ (served (butlast promoted))
     \<and> holds 2 TAX_READ (served promoted)"
proof -
  let ?s = "served (butlast promoted)" and ?rq = "AssignRole (toy_access 1) 2 (- 1)"
  have p: "holds 2 TAX_READ (serve toy_env ?rq (4 * second) ?s)" "\<not> holds 2 TAX_READ ?s" by code_simp+
  have "served promoted = serve toy_env ?rq (4 * second) ?s"
    using served_snoc [of "butlast promoted" ?rq 4] by (simp add: promoted_def)
  with permissions_come_from_managers [OF served_ok p] p show ?thesis by auto
qed

end
