(* ===== verification/Jobs.thy ===== *)
theory Jobs
  imports Lifecycle "HOL-Library.AList"
begin

text \<open>
  The background job queue and its worker (\<open>core/jobs\<close>): enqueuing with a dedupe key, claiming a due job under
  a lock that expires, recording success or failure, retrying with a growing delay, and the schedules of the
  periodic jobs. \<open>now\<close> is the database's time of the transaction, in microseconds; settings are in seconds.
  What a handler does is a parameter (the handlers of this program are modelled with their components): here
  it returns, raises, or its worker dies. A dedupe key is the list of the parts its text is made of.
  The conversion of seconds to a database interval, the settings and the masking of secrets are parameters.
\<close>

section \<open>Jobs and settings\<close>

record background_job =
  bj_id :: int
  bj_type :: string
  bj_payload :: key
  bj_status :: string
  bj_attempts :: int
  bj_max_attempts :: int
  bj_run_at :: int
  bj_locked_until :: "int option"
  bj_finished_at :: "int option"
  bj_last_error :: "string option"
  bj_dedupe_key :: "key option"

abbreviation JOB_PENDING :: string where "JOB_PENDING \<equiv> ''pending''"
abbreviation JOB_RUNNING :: string where "JOB_RUNNING \<equiv> ''running''"
abbreviation JOB_SUCCEEDED :: string where "JOB_SUCCEEDED \<equiv> ''succeeded''"
abbreviation JOB_FAILED :: string where "JOB_FAILED \<equiv> ''failed''"

text \<open>The CHECK constraints of the table.\<close>

definition job_checks :: "background_job \<Rightarrow> bool" where
  "job_checks j \<longleftrightarrow> bj_status j \<in> {JOB_PENDING, JOB_RUNNING, JOB_SUCCEEDED, JOB_FAILED} \<and> 0 \<le> bj_attempts j \<and> 1 \<le> bj_max_attempts j"

record job_queue =
  q_next :: int
  q_rows :: "background_job list"

record job_settings =
  js_default_max_attempts :: int
  js_job_timeout_seconds :: rat
  js_lock_seconds :: rat
  js_retry_base_seconds :: rat
  js_retry_max_seconds :: rat
  js_order_expiry_sweep_interval_seconds :: int
  js_webhook_recovery_interval_seconds :: int

text \<open>What the settings are validated for.\<close>

definition job_settings_ok :: "job_settings \<Rightarrow> bool" where
  "job_settings_ok cfg \<longleftrightarrow> 1 \<le> js_default_max_attempts cfg \<and> 0 < js_job_timeout_seconds cfg \<and> 0 < js_lock_seconds cfg
     \<and> 0 \<le> js_retry_base_seconds cfg \<and> 0 \<le> js_retry_max_seconds cfg
     \<and> 0 \<le> js_order_expiry_sweep_interval_seconds cfg \<and> 0 \<le> js_webhook_recovery_interval_seconds cfg
     \<and> js_job_timeout_seconds cfg < js_lock_seconds cfg"

record job_env =
  je_interval :: "rat \<Rightarrow> int"
  je_redact :: "string \<Rightarrow> string"

datatype job_error = ValueTooLong string | ValueOutOfRange string | CheckViolation string | HandlerRegistered string
  | DelayOverflow | WorkerDied

section \<open>The queue\<close>

text \<open>\<open>payload or {}\<close> is the payload here; \<open>max_attempts or default\<close> also replaces a zero.\<close>

definition enqueue_job :: "job_settings \<Rightarrow> string \<Rightarrow> key \<Rightarrow> key option \<Rightarrow> int \<Rightarrow> int option \<Rightarrow> int \<Rightarrow> job_queue
    \<Rightarrow> (job_error, int option \<times> job_queue) result" where
  "enqueue_job cfg job_type payload dedupe_key delay max_attempts now q =
     (let m = (case max_attempts of None \<Rightarrow> js_default_max_attempts cfg
                 | Some a \<Rightarrow> if a = 0 then js_default_max_attempts cfg else a);
          j = \<lparr>bj_id = q_next q, bj_type = job_type, bj_payload = payload, bj_status = JOB_PENDING, bj_attempts = 0,
               bj_max_attempts = m, bj_run_at = now + delay, bj_locked_until = None, bj_finished_at = None,
               bj_last_error = None, bj_dedupe_key = dedupe_key\<rparr>
      in rbind (guard (length job_type \<le> 100) (ValueTooLong ''job_type'')) (\<lambda>_.
         rbind (guard (int32 m) (ValueOutOfRange ''max_attempts'')) (\<lambda>_.
         rbind (guard (job_checks j) (CheckViolation ''ck_background_jobs_attempts'')) (\<lambda>_.
           if dedupe_key \<noteq> None \<and> dedupe_key \<in> bj_dedupe_key ` set (q_rows q) then Inr (None, q)
           else Inr (Some (q_next q), \<lparr>q_next = q_next q + 1, q_rows = q_rows q @ [j]\<rparr>)))))"

section \<open>The worker's statements\<close>

text \<open>\<open>locked_until < now()\<close>, which is not true of a missing lock.\<close>

definition lock_expired :: "int \<Rightarrow> background_job \<Rightarrow> bool" where
  "lock_expired now j = (case bj_locked_until j of None \<Rightarrow> False | Some u \<Rightarrow> u < now)"

definition out_of_attempts :: string where
  "out_of_attempts = '' [worker stopped before finishing; out of attempts]''"

definition exhaust_row :: "int \<Rightarrow> background_job \<Rightarrow> background_job" where
  "exhaust_row now j =
     (if bj_status j = JOB_RUNNING \<and> lock_expired now j \<and> bj_max_attempts j \<le> bj_attempts j
      then j\<lparr>bj_status := JOB_FAILED, bj_finished_at := Some now, bj_locked_until := None,
             bj_last_error := Some ((case bj_last_error j of None \<Rightarrow> [] | Some e \<Rightarrow> e) @ out_of_attempts)\<rparr>
      else j)"

definition fail_exhausted :: "int \<Rightarrow> background_job list \<Rightarrow> background_job list" where
  "fail_exhausted now rows = map (exhaust_row now) rows"

definition job_due :: "int \<Rightarrow> background_job \<Rightarrow> bool" where
  "job_due now j \<longleftrightarrow> bj_attempts j < bj_max_attempts j
     \<and> (bj_status j = JOB_PENDING \<and> bj_run_at j \<le> now \<or> bj_status j = JOB_RUNNING \<and> lock_expired now j)"

text \<open>\<open>held\<close> are the rows locked by the transactions of other workers, which SKIP LOCKED passes over.\<close>

definition next_due :: "int \<Rightarrow> int list \<Rightarrow> background_job list \<Rightarrow> background_job option" where
  "next_due now held rows =
     (case sort_key (\<lambda>j. (bj_run_at j, bj_id j)) (filter (\<lambda>j. job_due now j \<and> bj_id j \<notin> set held) rows) of
        [] \<Rightarrow> None | j # _ \<Rightarrow> Some j)"

record claimed_job =
  cj_id :: int
  cj_type :: string
  cj_payload :: key
  cj_attempts :: int
  cj_max_attempts :: int

definition claim_of :: "background_job \<Rightarrow> claimed_job" where
  "claim_of j = \<lparr>cj_id = bj_id j, cj_type = bj_type j, cj_payload = bj_payload j, cj_attempts = bj_attempts j,
                 cj_max_attempts = bj_max_attempts j\<rparr>"

definition take_job :: "job_env \<Rightarrow> job_settings \<Rightarrow> int \<Rightarrow> background_job \<Rightarrow> background_job" where
  "take_job env cfg now j = j\<lparr>bj_status := JOB_RUNNING, bj_attempts := bj_attempts j + 1,
     bj_locked_until := Some (now + je_interval env (js_lock_seconds cfg))\<rparr>"

definition claim_next :: "job_env \<Rightarrow> job_settings \<Rightarrow> int \<Rightarrow> int list \<Rightarrow> job_queue \<Rightarrow> claimed_job option \<times> job_queue" where
  "claim_next env cfg now held q =
     (let rows = fail_exhausted now (q_rows q)
      in case next_due now held rows of
           None \<Rightarrow> (None, q\<lparr>q_rows := rows\<rparr>)
         | Some j \<Rightarrow> let j' = take_job env cfg now j in (Some (claim_of j'), q\<lparr>q_rows := set_row bj_id j' rows\<rparr>))"

text \<open>The condition of the statements that record a result: the job still runs the attempt of this worker.\<close>

definition holds_job :: "claimed_job \<Rightarrow> background_job \<Rightarrow> bool" where
  "holds_job c j \<longleftrightarrow> bj_id j = cj_id c \<and> bj_status j = JOB_RUNNING \<and> bj_attempts j = cj_attempts c"

definition record_result :: "claimed_job \<Rightarrow> (background_job \<Rightarrow> background_job) \<Rightarrow> job_queue \<Rightarrow> bool \<times> job_queue" where
  "record_result c f q = (list_ex (holds_job c) (q_rows q),
     q\<lparr>q_rows := map (\<lambda>j. if holds_job c j then f j else j) (q_rows q)\<rparr>)"

definition completed :: "int \<Rightarrow> background_job \<Rightarrow> background_job" where
  "completed now j =
     j\<lparr>bj_status := JOB_SUCCEEDED, bj_finished_at := Some now, bj_locked_until := None, bj_last_error := None\<rparr>"

definition complete_job :: "int \<Rightarrow> claimed_job \<Rightarrow> job_queue \<Rightarrow> bool \<times> job_queue" where
  "complete_job now c q = record_result c (completed now) q"

text \<open>
  The delay is computed with floats. Doubling is exact there, and a product beyond the largest float is
  infinite, so that the minimum is the cap; only the power itself is too large to become a float from
  \<open>2 ^ 1024\<close> on.
\<close>

definition retry_delay_seconds :: "int \<Rightarrow> rat \<Rightarrow> rat \<Rightarrow> (job_error, rat) result" where
  "retry_delay_seconds attempts base cap =
     (let n = nat (max (attempts - 1) 0)
      in if 1024 \<le> n then Inl DelayOverflow else Inr (min (base * 2 ^ n) cap))"

definition failed_row :: "job_env \<Rightarrow> int \<Rightarrow> bool \<Rightarrow> rat \<Rightarrow> string \<Rightarrow> background_job \<Rightarrow> background_job" where
  "failed_row env now final delay error j =
     j\<lparr>bj_status := (if final then JOB_FAILED else JOB_PENDING), bj_run_at := now + je_interval env delay,
       bj_finished_at := (if final then Some now else None), bj_locked_until := None,
       bj_last_error := Some error\<rparr>"

definition fail_job :: "job_env \<Rightarrow> job_settings \<Rightarrow> int \<Rightarrow> claimed_job \<Rightarrow> string \<Rightarrow> job_queue
    \<Rightarrow> (job_error, bool \<times> job_queue) result" where
  "fail_job env cfg now c error q =
     (let final = cj_max_attempts c \<le> cj_attempts c
      in rbind (retry_delay_seconds (cj_attempts c) (js_retry_base_seconds cfg) (js_retry_max_seconds cfg)) (\<lambda>delay.
         Inr (record_result c (failed_row env now final delay (take 4000 error)) q)))"

section \<open>Handlers\<close>

text \<open>\<open>_handlers\<close>: the functions registered per job type; \<open>'h\<close> stands for the function objects.\<close>

definition job_handler :: "string \<Rightarrow> 'h \<Rightarrow> (string \<times> 'h) list \<Rightarrow> (job_error, (string \<times> 'h) list) result" where
  "job_handler job_type func handlers =
     (case map_of handlers job_type of
        Some g \<Rightarrow> if g \<noteq> func then Inl (HandlerRegistered job_type) else Inr (AList.update job_type func handlers)
      | None \<Rightarrow> Inr (AList.update job_type func handlers))"

definition get_handler :: "string \<Rightarrow> (string \<times> 'h) list \<Rightarrow> 'h option" where
  "get_handler job_type handlers = map_of handlers job_type"

text \<open>
  How one execution of a handler ends: it returns, it raises an exception of a class with a text (running out of
  time raises \<open>TimeoutError\<close> without a text), or the worker dies with it.
\<close>

datatype handler_end = Returned | Raised string string | Died

text \<open>\<open>repr\<close> of a text.\<close>

definition hex_digit :: "nat \<Rightarrow> char" where
  "hex_digit n = char_of (if n < 10 then 48 + n else 87 + n)"

definition repr_char :: "char \<Rightarrow> char \<Rightarrow> string" where
  "repr_char qc c =
     (let n = (of_char c :: nat)
      in if c = qc \<or> n = 92 then [char_of (92 :: nat), c]
         else if n = 9 then [char_of (92 :: nat), CHR ''t'']
         else if n = 10 then [char_of (92 :: nat), CHR ''n'']
         else if n = 13 then [char_of (92 :: nat), CHR ''r'']
         else if n < 32 \<or> (127 \<le> n \<and> n \<le> 160) \<or> n = 173
         then [char_of (92 :: nat), CHR ''x'', hex_digit (n div 16), hex_digit (n mod 16)]
         else [c])"

definition repr_str :: "string \<Rightarrow> string" where
  "repr_str s = (let single = char_of (39 :: nat); double = char_of (34 :: nat);
       qc = (if single \<in> set s \<and> double \<notin> set s then double else single)
     in [qc] @ concat (map (repr_char qc) s) @ [qc])"

definition no_handler :: "string \<Rightarrow> handler_end" where
  "no_handler job_type = Raised ''LookupError'' (''no handler registered for job type '' @ repr_str job_type)"

text \<open>
  A claimed job runs and its result is recorded. A worker that dies records nothing; an exception on the way
  leaves the job as it is.
\<close>

definition run_claimed :: "job_env \<Rightarrow> job_settings \<Rightarrow> (string \<times> 'h) list \<Rightarrow> ('h \<Rightarrow> key \<Rightarrow> handler_end) \<Rightarrow> int
    \<Rightarrow> claimed_job \<Rightarrow> job_queue \<Rightarrow> (job_error, unit) result \<times> job_queue" where
  "run_claimed env cfg handlers runs now c q =
     (case (case get_handler (cj_type c) handlers of None \<Rightarrow> no_handler (cj_type c) | Some h \<Rightarrow> runs h (cj_payload c)) of
        Returned \<Rightarrow> (Inr (), snd (complete_job now c q))
      | Raised cls msg \<Rightarrow>
          (case fail_job env cfg now c (je_redact env (cls @ '': '' @ msg)) q of
             Inl e \<Rightarrow> (Inl e, q) | Inr (_, q') \<Rightarrow> (Inr (), q'))
      | Died \<Rightarrow> (Inl WorkerDied, q))"

text \<open>
  One round of a worker: the time and the rows held by others when it claims, the time its handler ends, what
  the handlers do, and what other transactions do to the queue in between.
\<close>

record 'h round =
  rd_claim_at :: int
  rd_held :: "int list"
  rd_end_at :: int
  rd_runs :: "'h \<Rightarrow> key \<Rightarrow> handler_end"
  rd_meanwhile :: "job_queue \<Rightarrow> job_queue"

definition run_one :: "job_env \<Rightarrow> job_settings \<Rightarrow> (string \<times> 'h) list \<Rightarrow> 'h round \<Rightarrow> job_queue
    \<Rightarrow> (job_error, bool) result \<times> job_queue" where
  "run_one env cfg handlers rd q =
     (case claim_next env cfg (rd_claim_at rd) (rd_held rd) q of
        (None, q1) \<Rightarrow> (Inr False, q1)
      | (Some c, q1) \<Rightarrow>
          (case run_claimed env cfg handlers (rd_runs rd) (rd_end_at rd) c (rd_meanwhile rd q1) of
             (Inl e, q2) \<Rightarrow> (Inl e, q2) | (Inr _, q2) \<Rightarrow> (Inr True, q2)))"

text \<open>
  The loop of a worker, which goes on after an exception; only its sleeping depends on the answer. After a
  death the rounds are those of the worker started in its place.
\<close>

definition run_worker :: "job_env \<Rightarrow> job_settings \<Rightarrow> (string \<times> 'h) list \<Rightarrow> 'h round list \<Rightarrow> job_queue \<Rightarrow> job_queue" where
  "run_worker env cfg handlers rounds q = fold (\<lambda>rd q. snd (run_one env cfg handlers rd q)) rounds q"

section \<open>Periodic jobs\<close>

record schedule =
  sc_job_type :: string
  sc_interval_seconds :: "job_settings \<Rightarrow> int"

definition register_schedule :: "string \<Rightarrow> (job_settings \<Rightarrow> int) \<Rightarrow> schedule list \<Rightarrow> schedule list" where
  "register_schedule job_type interval schedules =
     (if list_ex (\<lambda>s. sc_job_type s = job_type) schedules then schedules
      else schedules @ [\<lparr>sc_job_type = job_type, sc_interval_seconds = interval\<rparr>])"

definition get_schedules :: "schedule list" where
  "get_schedules = register_schedule ''reprocess_deferred_events'' js_webhook_recovery_interval_seconds
     (register_schedule ''sweep_stale_orders'' js_order_expiry_sweep_interval_seconds [])"

definition time_bucket :: "rat \<Rightarrow> int \<Rightarrow> int" where
  "time_bucket t interval = \<lfloor>t / of_int interval\<rfloor>"

definition schedule_key :: "string \<Rightarrow> int \<Rightarrow> key" where
  "schedule_key job_type bucket = [KS ''schedule'', KS job_type, KI bucket]"

text \<open>
  \<open>clock\<close> gives, for the turn of each job type, the worker's own time in seconds and the database's time. Every
  job is committed on its own.
\<close>

fun enqueue_due :: "job_settings \<Rightarrow> (string \<Rightarrow> rat \<times> int) \<Rightarrow> schedule list \<Rightarrow> job_queue
    \<Rightarrow> (job_error, string list) result \<times> job_queue" where
  "enqueue_due cfg clock [] q = (Inr [], q)"
| "enqueue_due cfg clock (s # ss) q =
     (let interval = sc_interval_seconds s cfg
      in if interval \<le> 0 then enqueue_due cfg clock ss q
         else let (t, now) = clock (sc_job_type s)
              in case enqueue_job cfg (sc_job_type s) [] (Some (schedule_key (sc_job_type s) (time_bucket t interval)))
                        0 (Some 3) now q of
                   Inl e \<Rightarrow> (Inl e, q)
                 | Inr (job_id, q1) \<Rightarrow>
                     (case enqueue_due cfg clock ss q1 of
                        (Inl e, q2) \<Rightarrow> (Inl e, q2)
                      | (Inr enqueued, q2) \<Rightarrow> (Inr (if job_id \<noteq> None then sc_job_type s # enqueued else enqueued), q2)))"

text \<open>How long the scheduler waits between two rounds; without an enabled schedule it does not run at all.\<close>

definition scheduler_tick :: "job_settings \<Rightarrow> schedule list \<Rightarrow> rat option" where
  "scheduler_tick cfg schedules =
     (case filter (\<lambda>i. 0 < i) (map (\<lambda>s. sc_interval_seconds s cfg) schedules) of
        [] \<Rightarrow> None
      | i # is \<Rightarrow> Some (max 1 (of_int (fold min is i) / 2)))"

definition run_scheduler :: "job_settings \<Rightarrow> schedule list \<Rightarrow> (string \<Rightarrow> rat \<times> int) list \<Rightarrow> job_queue \<Rightarrow> job_queue" where
  "run_scheduler cfg schedules clocks q =
     (if scheduler_tick cfg schedules = None then q
      else fold (\<lambda>clock q. snd (enqueue_due cfg clock schedules q)) clocks q)"

end
