(* ===== verification/Job_Guarantees.thy ===== *)
theory Job_Guarantees
  imports Jobs
begin

text \<open>
  What the queue guarantees over every interleaving of callers, workers and schedulers: the phases of a job
  form a machine with final states, a job is never claimed more often than it may be, claims in force never
  overlap, late results are ignored, and workers that go on end every job.
\<close>

section \<open>The phases of a job\<close>

datatype phase = Waiting int | Working int | Finished int | Given_up int

definition phase_of :: "background_job \<Rightarrow> phase" where
  "phase_of j = (if bj_status j = JOB_PENDING then Waiting (bj_attempts j)
     else if bj_status j = JOB_RUNNING then Working (bj_attempts j)
     else if bj_status j = JOB_SUCCEEDED then Finished (bj_attempts j) else Given_up (bj_attempts j))"

inductive phase_step :: "int \<Rightarrow> phase \<Rightarrow> phase \<Rightarrow> bool" for m where
  starts: "a < m \<Longrightarrow> phase_step m (Waiting a) (Working (a + 1))"
| takes_over: "a < m \<Longrightarrow> phase_step m (Working a) (Working (a + 1))"
| succeeds: "phase_step m (Working a) (Finished a)"
| retries: "a < m \<Longrightarrow> phase_step m (Working a) (Waiting a)"
| gives_up: "m \<le> a \<Longrightarrow> phase_step m (Working a) (Given_up a)"

inductive_cases phase_final: "phase_step m (Finished a) p" "phase_step m (Given_up a) p"

definition job_moves :: "background_job \<Rightarrow> background_job \<Rightarrow> bool" where
  "job_moves j j' \<longleftrightarrow> bj_id j' = bj_id j \<and> bj_type j' = bj_type j \<and> bj_payload j' = bj_payload j
     \<and> bj_max_attempts j' = bj_max_attempts j \<and> bj_dedupe_key j' = bj_dedupe_key j
     \<and> (phase_step (bj_max_attempts j))\<^sup>*\<^sup>* (phase_of j) (phase_of j')"

lemma job_moves_refl [simp]: "job_moves j j"
  by (simp add: job_moves_def)

lemma job_moves_trans: "job_moves i j \<Longrightarrow> job_moves j k \<Longrightarrow> job_moves i k"
  unfolding job_moves_def by (metis rtranclp_trans)

lemma job_moves_frame:
  "job_moves j j' \<Longrightarrow> bj_id j' = bj_id j"
  "job_moves j j' \<Longrightarrow> bj_type j' = bj_type j"
  "job_moves j j' \<Longrightarrow> bj_payload j' = bj_payload j"
  "job_moves j j' \<Longrightarrow> bj_max_attempts j' = bj_max_attempts j"
  "job_moves j j' \<Longrightarrow> bj_dedupe_key j' = bj_dedupe_key j"
  by (simp_all add: job_moves_def)

lemma job_moves_one:
  assumes "phase_step (bj_max_attempts j) (phase_of j) (phase_of j')"
    and "bj_id j' = bj_id j" "bj_type j' = bj_type j" "bj_payload j' = bj_payload j"
    and "bj_max_attempts j' = bj_max_attempts j" "bj_dedupe_key j' = bj_dedupe_key j"
  shows "job_moves j j'"
  using assms by (auto simp: job_moves_def)

section \<open>Rows and tables\<close>

definition row_ok :: "background_job \<Rightarrow> bool" where
  "row_ok j \<longleftrightarrow> job_checks j \<and> bj_attempts j \<le> bj_max_attempts j
     \<and> (bj_status j = JOB_PENDING \<longrightarrow> bj_attempts j < bj_max_attempts j)
     \<and> (bj_status j = JOB_RUNNING \<longleftrightarrow> bj_locked_until j \<noteq> None)
     \<and> (bj_status j = JOB_RUNNING \<longrightarrow> 1 \<le> bj_attempts j)
     \<and> (bj_status j = JOB_FAILED \<longrightarrow> bj_attempts j = bj_max_attempts j)
     \<and> (bj_status j \<in> {JOB_SUCCEEDED, JOB_FAILED} \<longleftrightarrow> bj_finished_at j \<noteq> None)"

definition queue_ok :: "job_queue \<Rightarrow> bool" where
  "queue_ok q \<longleftrightarrow> distinct (map bj_id (q_rows q)) \<and> (\<forall>j \<in> set (q_rows q). bj_id j < q_next q \<and> row_ok j)
     \<and> inj_on bj_dedupe_key {j \<in> set (q_rows q). bj_dedupe_key j \<noteq> None}"

lemma exhaust_row_ok: "row_ok j \<Longrightarrow> row_ok (exhaust_row now j) \<and> job_moves j (exhaust_row now j)"
  by (auto simp: row_ok_def exhaust_row_def job_checks_def phase_of_def intro!: job_moves_one gives_up)

lemma take_job_ok: "row_ok j \<Longrightarrow> job_due now j \<Longrightarrow> row_ok (take_job env cfg now j) \<and> job_moves j (take_job env cfg now j)"
  by (auto simp: row_ok_def take_job_def job_checks_def phase_of_def job_due_def intro!: job_moves_one starts takes_over)

lemma completed_ok: "row_ok j \<Longrightarrow> bj_status j = JOB_RUNNING \<Longrightarrow> row_ok (completed now j) \<and> job_moves j (completed now j)"
  by (auto simp: row_ok_def completed_def job_checks_def phase_of_def intro!: job_moves_one succeeds)

lemma queue_ok_map:
  assumes q: "queue_ok q" and f: "\<And>j. j \<in> set (q_rows q) \<Longrightarrow> row_ok (f j) \<and> job_moves j (f j)"
  shows "queue_ok (q\<lparr>q_rows := map f (q_rows q)\<rparr>)"
proof -
  have ids: "bj_id (f j) = bj_id j" if "j \<in> set (q_rows q)" for j
    using f [OF that] by (blast dest: job_moves_frame(1))
  then have m: "map (bj_id \<circ> f) (q_rows q) = map bj_id (q_rows q)" by simp
  have k: "inj_on bj_dedupe_key {j \<in> f ` set (q_rows q). bj_dedupe_key j \<noteq> None}"
  proof (rule inj_onI)
    fix x y assume x: "x \<in> {j \<in> f ` set (q_rows q). bj_dedupe_key j \<noteq> None}"
      and y: "y \<in> {j \<in> f ` set (q_rows q). bj_dedupe_key j \<noteq> None}" and eq: "bj_dedupe_key x = bj_dedupe_key y"
    obtain a b where ab: "x = f a" "a \<in> set (q_rows q)" "y = f b" "b \<in> set (q_rows q)" using x y by blast
    have "bj_dedupe_key (f a) = bj_dedupe_key a" "bj_dedupe_key (f b) = bj_dedupe_key b"
      using f ab by (blast dest: job_moves_frame(5))+
    then have "bj_dedupe_key a = bj_dedupe_key b" "bj_dedupe_key a \<noteq> None"
      using eq x ab by auto
    then have "a = b" using q ab by (auto simp: queue_ok_def dest: inj_onD)
    then show "x = y" by (simp add: ab)
  qed
  have "\<forall>j \<in> set (q_rows q). bj_id (f j) < q_next q \<and> row_ok (f j)"
    using q f ids by (simp add: queue_ok_def)
  with k q show ?thesis by (simp add: queue_ok_def m)
qed

section \<open>The operations, row by row\<close>

lemma enqueue_job_Inr:
  assumes "enqueue_job cfg ty payload dkey delay m now q = Inr (r, q')"
  obtains (present) "r = None" "q' = q" "dkey \<noteq> None" "dkey \<in> bj_dedupe_key ` set (q_rows q)"
  | (added) j where "r = Some (q_next q)" "q' = \<lparr>q_next = q_next q + 1, q_rows = q_rows q @ [j]\<rparr>"
      "bj_id j = q_next q" "bj_type j = ty" "bj_payload j = payload" "bj_dedupe_key j = dkey" "bj_status j = JOB_PENDING"
      "bj_run_at j = now + delay" "row_ok j" "dkey = None \<or> dkey \<notin> bj_dedupe_key ` set (q_rows q)"
proof (cases "dkey \<noteq> None \<and> dkey \<in> bj_dedupe_key ` set (q_rows q)")
  case True
  then show thesis using assms present by (simp add: enqueue_job_def Let_def rbind_eq_Inr)
next
  case False
  define k where "k = (case m of None \<Rightarrow> js_default_max_attempts cfg | Some a \<Rightarrow> if a = 0 then js_default_max_attempts cfg else a)"
  define j where "j = \<lparr>bj_id = q_next q, bj_type = ty, bj_payload = payload, bj_status = JOB_PENDING, bj_attempts = 0,
      bj_max_attempts = k, bj_run_at = now + delay, bj_locked_until = None, bj_finished_at = None,
      bj_last_error = None, bj_dedupe_key = dkey\<rparr>"
  have "job_checks j" "r = Some (q_next q)" "q' = \<lparr>q_next = q_next q + 1, q_rows = q_rows q @ [j]\<rparr>"
    using assms False unfolding enqueue_job_def Let_def k_def [symmetric] j_def [symmetric]
    by (simp_all only: rbind_eq_Inr guard_simps if_False) auto
  moreover have "row_ok j" using \<open>job_checks j\<close> by (simp add: row_ok_def job_checks_def j_def)
  ultimately show thesis using False by (intro added [of j]) (auto simp: j_def)
qed

lemma enqueue_job_ok:
  assumes "enqueue_job cfg ty payload dkey delay m now q = Inr (r, q')" and q: "queue_ok q"
  shows "queue_ok q'"
  using assms(1)
proof (cases rule: enqueue_job_Inr)
  case present
  then show ?thesis using q by simp
next
  case (added j)
  then show ?thesis using q unfolding queue_ok_def by (auto simp: inj_on_def image_iff less_le)
qed

lemma next_due_Some:
  assumes "next_due now held rows = Some j"
  shows "j \<in> set rows" "job_due now j" "bj_id j \<notin> set held"
    and "\<And>i. i \<in> set rows \<Longrightarrow> job_due now i \<Longrightarrow> bj_id i \<notin> set held \<Longrightarrow> (bj_run_at j, bj_id j) \<le> (bj_run_at i, bj_id i)"
proof -
  let ?f = "\<lambda>j. (bj_run_at j, bj_id j)" and ?rs = "filter (\<lambda>j. job_due now j \<and> bj_id j \<notin> set held) rows"
  obtain js where s: "sort_key ?f ?rs = j # js"
    using assms by (auto simp: next_due_def split: list.splits)
  have mem: "set (j # js) = set ?rs" unfolding s [symmetric] by simp
  show "j \<in> set rows" "job_due now j" "bj_id j \<notin> set held" using mem by auto
  fix i assume "i \<in> set rows" "job_due now i" "bj_id i \<notin> set held"
  then have "i \<in> set (j # js)" unfolding mem by simp
  then have "i = j \<or> i \<in> set js" by (simp only: set_simps insert_iff)
  moreover have "sorted (map ?f (j # js))" unfolding s [symmetric] by (rule sorted_sort_key)
  then have "\<forall>y \<in> ?f ` set js. ?f j \<le> y" by (simp only: list.map sorted_simps(2) set_map simp_thms) blast
  ultimately show "?f j \<le> ?f i" by (elim disjE) (simp_all only: order.refl ball_simps)
qed

lemma next_due_None: "next_due now held rows = None \<Longrightarrow> j \<in> set rows \<Longrightarrow> job_due now j \<Longrightarrow> bj_id j \<in> set held"
proof (rule ccontr)
  assume n: "next_due now held rows = None" "j \<in> set rows" "job_due now j" "bj_id j \<notin> set held"
  let ?f = "\<lambda>j. (bj_run_at j, bj_id j)" and ?rs = "filter (\<lambda>j. job_due now j \<and> bj_id j \<notin> set held) rows"
  have "sort_key ?f ?rs = []" using n(1) by (auto simp: next_due_def split: list.splits)
  moreover have "set (sort_key ?f ?rs) = set ?rs" by (rule set_sort)
  ultimately have "set ?rs = {}" by (simp only: list.set)
  moreover have "j \<in> set ?rs" using n(2-4) by simp
  ultimately show False by (simp only: empty_iff)
qed

lemma due_exhaust: "job_due now (exhaust_row now j) \<Longrightarrow> exhaust_row now j = j"
  by (auto simp: exhaust_row_def job_due_def)

lemma exhaust_frame [simp]:
  "bj_id (exhaust_row now j) = bj_id j" "bj_attempts (exhaust_row now j) = bj_attempts j"
  by (simp_all add: exhaust_row_def)

text \<open>A claim is a change of every row on its own.\<close>

definition claim_row :: "job_env \<Rightarrow> job_settings \<Rightarrow> int \<Rightarrow> background_job \<Rightarrow> background_job \<Rightarrow> background_job" where
  "claim_row env cfg now j0 j = (if bj_id j = bj_id j0 then take_job env cfg now j else exhaust_row now j)"

lemma claim_next_Some:
  assumes "claim_next env cfg now held q = (Some c, q')" and q: "queue_ok q"
  obtains j0 where "j0 \<in> set (q_rows q)" "job_due now j0" "bj_id j0 \<notin> set held" "c = claim_of (take_job env cfg now j0)"
    "q' = q\<lparr>q_rows := map (claim_row env cfg now j0) (q_rows q)\<rparr>"
    "\<And>j. j \<in> set (q_rows q) \<Longrightarrow> bj_id j = bj_id j0 \<Longrightarrow> j = j0"
proof -
  obtain j where n: "next_due now held (fail_exhausted now (q_rows q)) = Some j"
    and c: "c = claim_of (take_job env cfg now j)"
    and q': "q' = q\<lparr>q_rows := set_row bj_id (take_job env cfg now j) (fail_exhausted now (q_rows q))\<rparr>"
    using assms(1) by (auto simp: claim_next_def Let_def split: option.splits)
  note d = next_due_Some [OF n]
  obtain j0 where j0: "j0 \<in> set (q_rows q)" "j = exhaust_row now j0" using d(1) by (auto simp: fail_exhausted_def)
  then have j: "j = j0" using d(2) due_exhaust by metis
  have uniq: "i = j0" if "i \<in> set (q_rows q)" "bj_id i = bj_id j0" for i
    using q j0(1) that by (auto simp: queue_ok_def distinct_map dest: inj_onD)
  have "set_row bj_id (take_job env cfg now j) (fail_exhausted now (q_rows q)) = map (claim_row env cfg now j0) (q_rows q)"
    unfolding set_row_def fail_exhausted_def map_map
    by (rule map_cong) (auto simp: claim_row_def j take_job_def dest: uniq)
  then have "q' = q\<lparr>q_rows := map (claim_row env cfg now j0) (q_rows q)\<rparr>" unfolding q' by simp
  with that [of j0] show thesis using j0(1) d(2,3) c uniq unfolding j by blast
qed

lemma claim_next_None:
  assumes "claim_next env cfg now held q = (None, q')"
  shows "q' = q\<lparr>q_rows := map (exhaust_row now) (q_rows q)\<rparr>"
    and "j \<in> set (q_rows q') \<Longrightarrow> job_due now j \<Longrightarrow> bj_id j \<in> set held"
  using assms by (auto simp: claim_next_def Let_def fail_exhausted_def split: option.splits dest: next_due_None)

lemma claim_row_ok:
  assumes "job_due now j0" and "row_ok j" and "bj_id j = bj_id j0 \<Longrightarrow> j = j0"
  shows "row_ok (claim_row env cfg now j0 j) \<and> job_moves j (claim_row env cfg now j0 j)"
  using assms take_job_ok exhaust_row_ok by (auto simp: claim_row_def)

lemma fail_job_Inr:
  assumes "fail_job env cfg now c error q = Inr (b, q')"
  obtains delay where
    "retry_delay_seconds (cj_attempts c) (js_retry_base_seconds cfg) (js_retry_max_seconds cfg) = Inr delay"
    "(b, q') = record_result c (failed_row env now (cj_max_attempts c \<le> cj_attempts c) delay (take 4000 error)) q"
proof -
  obtain delay where
    "retry_delay_seconds (cj_attempts c) (js_retry_base_seconds cfg) (js_retry_max_seconds cfg) = Inr delay"
    "record_result c (failed_row env now (cj_max_attempts c \<le> cj_attempts c) delay (take 4000 error)) q = (b, q')"
    using assms [unfolded fail_job_def Let_def rbind_eq_Inr] by auto
  then show thesis by (intro that [OF _ sym])
qed

lemma failed_row_ok:
  assumes "row_ok j" "holds_job c j" "cj_max_attempts c = bj_max_attempts j"
  shows "row_ok (failed_row env now (cj_max_attempts c \<le> cj_attempts c) delay error j)
       \<and> job_moves j (failed_row env now (cj_max_attempts c \<le> cj_attempts c) delay error j)"
  using assms
  by (auto simp: row_ok_def failed_row_def holds_job_def job_checks_def phase_of_def intro!: job_moves_one retries gives_up)

lemma record_result_ok:
  assumes r: "(b, q') = record_result c f q" and q: "queue_ok q"
    and f: "\<And>j. j \<in> set (q_rows q) \<Longrightarrow> holds_job c j \<Longrightarrow> row_ok (f j) \<and> job_moves j (f j)"
  shows "queue_ok q'" and "q' = q\<lparr>q_rows := map (\<lambda>j. if holds_job c j then f j else j) (q_rows q)\<rparr>"
proof -
  show eq: "q' = q\<lparr>q_rows := map (\<lambda>j. if holds_job c j then f j else j) (q_rows q)\<rparr>"
    using r by (simp add: record_result_def)
  show "queue_ok q'" unfolding eq
    by (rule queue_ok_map [OF q]) (use q f in \<open>auto simp: queue_ok_def\<close>)
qed

section \<open>Workers and callers interleaved\<close>

text \<open>
  The world of the queue: the time of the last transaction, the table, and the claims whose workers have not
  reported yet, each with the time of the claim. Transactions take effect in the order of their times. A worker
  may report at any time, also long after its lock expired, or never.
\<close>

record job_world =
  jw_now :: int
  jw_queue :: job_queue
  jw_hands :: "(claimed_job \<times> int) list"

inductive job_step :: "job_env \<Rightarrow> job_settings \<Rightarrow> job_world \<Rightarrow> job_world \<Rightarrow> bool" for env cfg where
  enqueues: "jw_now w \<le> now \<Longrightarrow> enqueue_job cfg ty payload dkey delay m now (jw_queue w) = Inr (r, q)
    \<Longrightarrow> job_step env cfg w (w\<lparr>jw_now := now, jw_queue := q\<rparr>)"
| claims: "jw_now w \<le> now \<Longrightarrow> claim_next env cfg now held (jw_queue w) = (Some c, q)
    \<Longrightarrow> job_step env cfg w (w\<lparr>jw_now := now, jw_queue := q, jw_hands := jw_hands w @ [(c, now)]\<rparr>)"
| finds_nothing: "jw_now w \<le> now \<Longrightarrow> claim_next env cfg now held (jw_queue w) = (None, q)
    \<Longrightarrow> job_step env cfg w (w\<lparr>jw_now := now, jw_queue := q\<rparr>)"
| completes: "jw_now w \<le> now \<Longrightarrow> (c, t) \<in> set (jw_hands w) \<Longrightarrow> complete_job now c (jw_queue w) = (b, q)
    \<Longrightarrow> job_step env cfg w (w\<lparr>jw_now := now, jw_queue := q, jw_hands := remove1 (c, t) (jw_hands w)\<rparr>)"
| fails: "jw_now w \<le> now \<Longrightarrow> (c, t) \<in> set (jw_hands w) \<Longrightarrow> fail_job env cfg now c error (jw_queue w) = Inr (b, q)
    \<Longrightarrow> job_step env cfg w (w\<lparr>jw_now := now, jw_queue := q, jw_hands := remove1 (c, t) (jw_hands w)\<rparr>)"
| vanishes: "(c, t) \<in> set (jw_hands w) \<Longrightarrow> job_step env cfg w (w\<lparr>jw_hands := remove1 (c, t) (jw_hands w)\<rparr>)"

abbreviation job_run :: "job_env \<Rightarrow> job_settings \<Rightarrow> job_world \<Rightarrow> job_world \<Rightarrow> bool" where
  "job_run env cfg \<equiv> (job_step env cfg)\<^sup>*\<^sup>*"

text \<open>What a claim says about its row: the row runs under the claim's lock, or the claim's lock is over.\<close>

definition claim_row_ok :: "int \<Rightarrow> int \<Rightarrow> claimed_job \<Rightarrow> int \<Rightarrow> background_job \<Rightarrow> bool" where
  "claim_row_ok lock now c t j \<longleftrightarrow> bj_id j = cj_id c \<and> bj_type j = cj_type c \<and> bj_payload j = cj_payload c
     \<and> bj_max_attempts j = cj_max_attempts c \<and> 1 \<le> cj_attempts c \<and> cj_attempts c \<le> bj_attempts j
     \<and> (if holds_job c j then bj_locked_until j = Some (t + lock) else t + lock < now)"

abbreviation lock_time :: "job_env \<Rightarrow> job_settings \<Rightarrow> int" where
  "lock_time env cfg \<equiv> je_interval env (js_lock_seconds cfg)"

definition claims_ok :: "int \<Rightarrow> int \<Rightarrow> background_job list \<Rightarrow> (claimed_job \<times> int) list \<Rightarrow> bool" where
  "claims_ok lock now rows hands \<longleftrightarrow> distinct (map (\<lambda>h. (cj_id (fst h), cj_attempts (fst h))) hands)
     \<and> (\<forall>h \<in> set hands. \<exists>j \<in> set rows. claim_row_ok lock now (fst h) (snd h) j)"

definition world_ok :: "job_env \<Rightarrow> job_settings \<Rightarrow> job_world \<Rightarrow> bool" where
  "world_ok env cfg w \<longleftrightarrow> queue_ok (jw_queue w)
     \<and> claims_ok (lock_time env cfg) (jw_now w) (q_rows (jw_queue w)) (jw_hands w)"

lemma claim_row_ok_later: "claim_row_ok lock now c t j \<Longrightarrow> now \<le> now' \<Longrightarrow> claim_row_ok lock now' c t j"
  by (auto simp: claim_row_ok_def split: if_splits)

lemma claim_row_ok_exhaust:
  "claim_row_ok lock now c t j \<Longrightarrow> now \<le> now' \<Longrightarrow> claim_row_ok lock now' c t (exhaust_row now' j)"
  by (auto simp: claim_row_ok_def exhaust_row_def holds_job_def lock_expired_def split: if_splits)

lemma claim_row_ok_take:
  assumes "claim_row_ok lock now c t j" "now \<le> now'" "job_due now' j"
  shows "claim_row_ok lock now' c t (take_job env cfg now' j)"
  using assms by (auto simp: claim_row_ok_def take_job_def holds_job_def job_due_def lock_expired_def split: if_splits)

lemma claim_row_ok_claim:
  assumes "claim_row_ok lock now c t j" "now \<le> now'" "job_due now' j0" "bj_id j = bj_id j0 \<Longrightarrow> j = j0"
  shows "claim_row_ok lock now' c t (claim_row env cfg now' j0 j)"
  using assms claim_row_ok_take claim_row_ok_exhaust by (auto simp: claim_row_def)

text \<open>A report of one claim ends its own row's run; to every other claim that row was lost before.\<close>

lemma claim_row_ok_report:
  assumes "claim_row_ok lock now c t j" "now \<le> now'" "(cj_id c, cj_attempts c) \<noteq> (cj_id c0, cj_attempts c0)"
    and "\<And>j. bj_status (f j) \<noteq> JOB_RUNNING" "\<And>j. bj_id (f j) = bj_id j" "\<And>j. bj_type (f j) = bj_type j"
    and "\<And>j. bj_payload (f j) = bj_payload j" "\<And>j. bj_max_attempts (f j) = bj_max_attempts j"
    and "\<And>j. bj_attempts (f j) = bj_attempts j"
  shows "claim_row_ok lock now' c t (if holds_job c0 j then f j else j)"
  using assms by (auto simp: claim_row_ok_def holds_job_def split: if_splits)

lemma claims_ok_map:
  assumes "claims_ok lock now rows hands" and "set hands' \<subseteq> set hands"
    and "distinct (map (\<lambda>h. (cj_id (fst h), cj_attempts (fst h))) hands')"
    and "\<And>h j. h \<in> set hands' \<Longrightarrow> j \<in> set rows \<Longrightarrow> claim_row_ok lock now (fst h) (snd h) j
      \<Longrightarrow> claim_row_ok lock now' (fst h) (snd h) (f j)"
  shows "claims_ok lock now' (map f rows) hands'"
  using assms unfolding claims_ok_def by fastforce

definition rows_move :: "background_job list \<Rightarrow> background_job list \<Rightarrow> bool" where
  "rows_move rows rows' \<longleftrightarrow> (\<forall>j \<in> set rows. \<exists>j' \<in> set rows'. job_moves j j')"

lemma rows_move_trans: "rows_move r s \<Longrightarrow> rows_move s t \<Longrightarrow> rows_move r t"
  unfolding rows_move_def by (meson job_moves_trans)

lemma rows_move_map: "(\<And>j. j \<in> set rows \<Longrightarrow> job_moves j (f j)) \<Longrightarrow> rows_move rows (map f rows)"
  by (auto simp: rows_move_def)

lemma rows_move_append: "rows_move rows (rows @ new)"
  unfolding rows_move_def by (auto intro: job_moves_refl)

lemma queue_ok_row: "queue_ok q \<Longrightarrow> j \<in> set (q_rows q) \<Longrightarrow> row_ok j"
  by (simp add: queue_ok_def)

lemma queue_ok_unique: "queue_ok q \<Longrightarrow> i \<in> set (q_rows q) \<Longrightarrow> j \<in> set (q_rows q) \<Longrightarrow> bj_id i = bj_id j \<Longrightarrow> i = j"
  by (auto simp: queue_ok_def distinct_map dest: inj_onD)

text \<open>A claim: the table stays well formed, the new claim holds its row, and no other claim is on it.\<close>

lemma claim_keeps:
  assumes c: "claim_next env cfg now' held q = (Some c, q')" and q: "queue_ok q"
    and h: "claims_ok (lock_time env cfg) now (q_rows q) hands" and le: "now \<le> now'"
  shows "queue_ok q'" "claims_ok (lock_time env cfg) now' (q_rows q') (hands @ [(c, now')])"
    "rows_move (q_rows q) (q_rows q')"
proof -
  obtain j0 where j0: "j0 \<in> set (q_rows q)" "job_due now' j0" "c = claim_of (take_job env cfg now' j0)"
    and q': "q' = q\<lparr>q_rows := map (claim_row env cfg now' j0) (q_rows q)\<rparr>"
    and u: "\<And>j. j \<in> set (q_rows q) \<Longrightarrow> bj_id j = bj_id j0 \<Longrightarrow> j = j0"
    by (rule claim_next_Some [OF c q]) blast
  have rows: "row_ok (claim_row env cfg now' j0 j) \<and> job_moves j (claim_row env cfg now' j0 j)"
    if "j \<in> set (q_rows q)" for j
    using claim_row_ok [OF j0(2) queue_ok_row [OF q that]] u [OF that] by blast
  show "queue_ok q'" unfolding q' by (rule queue_ok_map [OF q rows])
  have eq: "q_rows q' = map (claim_row env cfg now' j0) (q_rows q)" by (simp add: q')
  show "rows_move (q_rows q) (q_rows q')" unfolding eq by (rule rows_move_map) (use rows in auto)
  have old: "claims_ok (lock_time env cfg) now' (q_rows q') hands"
    unfolding eq
    by (rule claims_ok_map [OF h]) (use h u le j0(2) in \<open>auto simp: claims_ok_def intro: claim_row_ok_claim\<close>)
  have id: "cj_id c = bj_id j0" "cj_attempts c = bj_attempts j0 + 1" by (simp_all add: j0(3) claim_of_def take_job_def)
  have new: "(cj_id c, cj_attempts c) \<notin> set (map (\<lambda>h. (cj_id (fst h), cj_attempts (fst h))) hands)"
  proof
    assume "(cj_id c, cj_attempts c) \<in> set (map (\<lambda>h. (cj_id (fst h), cj_attempts (fst h))) hands)"
    then obtain g where g: "g \<in> set hands" "cj_id (fst g) = cj_id c" "cj_attempts (fst g) = cj_attempts c" by auto
    obtain j where j: "j \<in> set (q_rows q)" "claim_row_ok (lock_time env cfg) now (fst g) (snd g) j"
      using h g(1) unfolding claims_ok_def by blast
    then have "j = j0" using u g(2) id(1) by (simp add: claim_row_ok_def)
    then show False using j(2) g(3) id(2) by (simp add: claim_row_ok_def)
  qed
  have "claim_row_ok (lock_time env cfg) now' c now' (take_job env cfg now' j0)"
    using queue_ok_row [OF q j0(1)]
    by (auto simp: claim_row_ok_def j0(3) claim_of_def take_job_def holds_job_def row_ok_def job_checks_def)
  moreover have "take_job env cfg now' j0 \<in> set (q_rows q')" using j0(1) by (auto simp: q' claim_row_def)
  ultimately show "claims_ok (lock_time env cfg) now' (q_rows q') (hands @ [(c, now')])"
    using old new unfolding claims_ok_def by auto
qed

lemma no_claim_keeps:
  assumes c: "claim_next env cfg now' held q = (None, q')" and q: "queue_ok q"
    and h: "claims_ok lock now (q_rows q) hands" and le: "now \<le> now'"
  shows "queue_ok q'" "claims_ok lock now' (q_rows q') hands" "rows_move (q_rows q) (q_rows q')"
proof -
  note q' = claim_next_None(1) [OF c]
  note rows = exhaust_row_ok [OF queue_ok_row [OF q]]
  show "queue_ok q'" unfolding q' by (rule queue_ok_map [OF q rows])
  have eq: "q_rows q' = map (exhaust_row now') (q_rows q)" by (simp add: q')
  show "rows_move (q_rows q) (q_rows q')" unfolding eq by (rule rows_move_map) (use rows in auto)
  show "claims_ok lock now' (q_rows q') hands" unfolding eq
    by (rule claims_ok_map [OF h]) (use h le in \<open>auto simp: claims_ok_def intro: claim_row_ok_exhaust\<close>)
qed

text \<open>A report, of success or failure.\<close>

lemma report_keeps:
  assumes r: "(b, q') = record_result c f q" and q: "queue_ok q"
    and h: "claims_ok lock now (q_rows q) hands" and mem: "(c, t) \<in> set hands" and le: "now \<le> now'"
    and f: "\<And>j. row_ok j \<Longrightarrow> holds_job c j \<Longrightarrow> cj_max_attempts c = bj_max_attempts j \<Longrightarrow> row_ok (f j) \<and> job_moves j (f j)"
    and fr: "\<And>j. bj_status (f j) \<noteq> JOB_RUNNING" "\<And>j. bj_id (f j) = bj_id j" "\<And>j. bj_type (f j) = bj_type j"
      "\<And>j. bj_payload (f j) = bj_payload j" "\<And>j. bj_max_attempts (f j) = bj_max_attempts j"
      "\<And>j. bj_attempts (f j) = bj_attempts j"
  shows "queue_ok q'" "claims_ok lock now' (q_rows q') (remove1 (c, t) hands)" "rows_move (q_rows q) (q_rows q')"
proof -
  obtain j0 where j0: "j0 \<in> set (q_rows q)" "claim_row_ok lock now c t j0"
    using h mem unfolding claims_ok_def by fastforce
  have rows: "row_ok (f j) \<and> job_moves j (f j)" if j: "j \<in> set (q_rows q)" "holds_job c j" for j
  proof (rule f [OF queue_ok_row [OF q j(1)] j(2)])
    have "j = j0" using queue_ok_unique [OF q j(1) j0(1)] j(2) j0(2) by (simp add: claim_row_ok_def holds_job_def)
    then show "cj_max_attempts c = bj_max_attempts j" using j0(2) by (simp add: claim_row_ok_def)
  qed
  note q' = record_result_ok(2) [OF r q rows]
  show "queue_ok q'" by (rule record_result_ok(1) [OF r q rows])
  have eq: "q_rows q' = map (\<lambda>j. if holds_job c j then f j else j) (q_rows q)" by (simp add: q')
  show "rows_move (q_rows q) (q_rows q')" unfolding eq by (rule rows_move_map) (use rows in auto)
  let ?k = "\<lambda>h. (cj_id (fst h), cj_attempts (fst h))"
  have d: "distinct hands" "inj_on ?k (set hands)" using h unfolding claims_ok_def distinct_map by blast+
  then have other: "?k g \<noteq> (cj_id c, cj_attempts c)" if "g \<in> set (remove1 (c, t) hands)" for g
    using that mem d(1) inj_onD [OF d(2), of g "(c, t)"] by (simp only: set_remove1_eq fst_conv) blast
  show "claims_ok lock now' (q_rows q') (remove1 (c, t) hands)" unfolding eq
  proof (rule claims_ok_map [OF h])
    show "distinct (map ?k (remove1 (c, t) hands))"
      using d(1) inj_on_subset [OF d(2) set_remove1_subset [of "(c, t)"]] by (simp add: distinct_map del: set_remove1_eq)
    fix g j assume "g \<in> set (remove1 (c, t) hands)" "claim_row_ok lock now (fst g) (snd g) j"
    then show "claim_row_ok lock now' (fst g) (snd g) (if holds_job c j then f j else j)"
      using other le fr by (intro claim_row_ok_report) auto
  qed (rule set_remove1_subset)
qed

lemma job_step_keeps:
  assumes "job_step env cfg w w'" and "world_ok env cfg w"
  shows "world_ok env cfg w' \<and> jw_now w \<le> jw_now w' \<and> rows_move (q_rows (jw_queue w)) (q_rows (jw_queue w'))"
  using assms
proof (induction rule: job_step.induct)
  case (enqueues w now ty payload dkey delay m r q)
  have q: "queue_ok q" using enqueue_job_ok [OF enqueues(2)] enqueues(3) by (simp add: world_ok_def)
  obtain new where rows: "q_rows q = q_rows (jw_queue w) @ new"
    using enqueues(2) by (cases rule: enqueue_job_Inr) auto
  have "claims_ok (lock_time env cfg) now (q_rows q) (jw_hands w)"
    using enqueues(1,3) unfolding world_ok_def claims_ok_def rows
    by (fastforce intro: claim_row_ok_later)
  then show ?case using q enqueues(1) by (simp add: world_ok_def rows rows_move_append)
next
  case (claims w now held c q)
  have q: "queue_ok (jw_queue w)" and h: "claims_ok (lock_time env cfg) (jw_now w) (q_rows (jw_queue w)) (jw_hands w)"
    using claims(3) by (simp_all add: world_ok_def)
  show ?case using claim_keeps [OF claims(2) q h claims(1)] claims(1) by (simp add: world_ok_def)
next
  case (finds_nothing w now held q)
  have q: "queue_ok (jw_queue w)" and h: "claims_ok (lock_time env cfg) (jw_now w) (q_rows (jw_queue w)) (jw_hands w)"
    using finds_nothing(3) by (simp_all add: world_ok_def)
  show ?case using no_claim_keeps [OF finds_nothing(2) q h finds_nothing(1)] finds_nothing(1) by (simp add: world_ok_def)
next
  case (completes w now c t b q)
  have "(b, q) = record_result c (completed now) (jw_queue w)" using completes(3) by (simp add: complete_job_def)
  moreover have q: "queue_ok (jw_queue w)" "claims_ok (lock_time env cfg) (jw_now w) (q_rows (jw_queue w)) (jw_hands w)"
    using completes(4) by (simp_all add: world_ok_def)
  moreover have "row_ok (completed now j) \<and> job_moves j (completed now j)" if "row_ok j" "holds_job c j" for j
    using completed_ok that by (simp add: holds_job_def)
  ultimately have "queue_ok q \<and> claims_ok (lock_time env cfg) now (q_rows q) (remove1 (c, t) (jw_hands w))
      \<and> rows_move (q_rows (jw_queue w)) (q_rows q)"
    using report_keeps [OF _ _ _ completes(2,1), of b q "completed now" "jw_queue w" "lock_time env cfg"]
    by (simp add: completed_def)
  then show ?case using completes(1) by (simp add: world_ok_def)
next
  case (fails w now c t error b q)
  obtain delay msg where r: "(b, q) = record_result c (failed_row env now (cj_max_attempts c \<le> cj_attempts c) delay msg) (jw_queue w)"
    by (rule fail_job_Inr [OF fails(3)])
  have q: "queue_ok (jw_queue w)" and h: "claims_ok (lock_time env cfg) (jw_now w) (q_rows (jw_queue w)) (jw_hands w)"
    using fails(4) by (simp_all add: world_ok_def)
  note k = report_keeps [OF r q h fails(2,1) failed_row_ok]
  have "queue_ok q \<and> claims_ok (lock_time env cfg) now (q_rows q) (remove1 (c, t) (jw_hands w))
      \<and> rows_move (q_rows (jw_queue w)) (q_rows q)"
    by (intro conjI k) (simp_all add: failed_row_def)
  then show ?case using fails(1) by (simp add: world_ok_def)
next
  case (vanishes c t w)
  then show ?case unfolding world_ok_def claims_ok_def rows_move_def
    by (auto simp: distinct_map intro: inj_on_diff job_moves_refl dest: notin_set_remove1)
qed

lemma job_run_keeps:
  assumes "job_run env cfg w w'" and "world_ok env cfg w"
  shows "world_ok env cfg w' \<and> jw_now w \<le> jw_now w' \<and> rows_move (q_rows (jw_queue w)) (q_rows (jw_queue w'))"
  using assms
proof (induction rule: rtranclp_induct)
  case base
  then show ?case using rows_move_append [of _ "[]"] by simp
next
  case (step v v')
  then show ?case using job_step_keeps [OF step(2)] by (auto intro: rows_move_trans)
qed

text \<open>A world without claims.\<close>

lemma world_ok_start: "queue_ok (jw_queue w) \<Longrightarrow> jw_hands w = [] \<Longrightarrow> world_ok env cfg w"
  by (simp add: world_ok_def claims_ok_def)

section \<open>Claims in force\<close>

lemma claim_in_force:
  assumes ok: "world_ok env cfg w" and h: "(c, t) \<in> set (jw_hands w)" and le: "jw_now w \<le> t + lock_time env cfg"
  obtains j where "j \<in> set (q_rows (jw_queue w))" "holds_job c j"
proof -
  obtain j where "j \<in> set (q_rows (jw_queue w))" "claim_row_ok (lock_time env cfg) (jw_now w) c t j"
    using ok h unfolding world_ok_def claims_ok_def by fastforce
  with that le show thesis by (auto simp: claim_row_ok_def split: if_splits)
qed

lemma claim_known:
  assumes ok: "world_ok env cfg w" and h: "(c, t) \<in> set (jw_hands w)"
  obtains j where "j \<in> set (q_rows (jw_queue w))" "bj_id j = cj_id c" "cj_attempts c \<le> bj_attempts j"
proof -
  obtain j where "j \<in> set (q_rows (jw_queue w))" "claim_row_ok (lock_time env cfg) (jw_now w) c t j"
    using ok h unfolding world_ok_def claims_ok_def by fastforce
  with that show thesis by (auto simp: claim_row_ok_def)
qed

lemma same_claim:
  assumes ok: "world_ok env cfg w" and h: "h \<in> set (jw_hands w)" "h' \<in> set (jw_hands w)"
    and "cj_id (fst h) = cj_id (fst h')" "cj_attempts (fst h) = cj_attempts (fst h')"
  shows "h = h'"
proof -
  have "inj_on (\<lambda>h. (cj_id (fst h), cj_attempts (fst h))) (set (jw_hands w))"
    using ok unfolding world_ok_def claims_ok_def distinct_map by blast
  from inj_onD [OF this _ h] assms(4,5) show ?thesis by simp
qed

lemma length_at_most_one: "distinct xs \<Longrightarrow> (\<And>x y. x \<in> set xs \<Longrightarrow> y \<in> set xs \<Longrightarrow> x = y) \<Longrightarrow> length xs \<le> 1"
proof (rule ccontr)
  assume d: "distinct xs" and eq: "\<And>x y. x \<in> set xs \<Longrightarrow> y \<in> set xs \<Longrightarrow> x = y" and "\<not> length xs \<le> 1"
  then have l: "0 < length xs" "1 < length xs" by auto
  have "xs ! 0 = xs ! 1" by (rule eq) (use l in simp_all)
  with d l show False by (metis nth_eq_iff_index_eq zero_neq_one)
qed

lemma claims_in_force_disjoint:
  assumes ok: "world_ok env cfg w"
  shows "length (filter (\<lambda>h. cj_id (fst h) = i \<and> jw_now w \<le> snd h + lock_time env cfg) (jw_hands w)) \<le> 1"
proof (rule length_at_most_one)
  have "distinct (jw_hands w)" using ok unfolding world_ok_def claims_ok_def distinct_map by blast
  then show "distinct (filter (\<lambda>h. cj_id (fst h) = i \<and> jw_now w \<le> snd h + lock_time env cfg) (jw_hands w))" by simp
next
  fix h h' assume "h \<in> set (filter (\<lambda>h. cj_id (fst h) = i \<and> jw_now w \<le> snd h + lock_time env cfg) (jw_hands w))"
    and "h' \<in> set (filter (\<lambda>h. cj_id (fst h) = i \<and> jw_now w \<le> snd h + lock_time env cfg) (jw_hands w))"
  then have h: "(fst h, snd h) \<in> set (jw_hands w)" "cj_id (fst h) = i" "jw_now w \<le> snd h + lock_time env cfg"
    and h': "(fst h', snd h') \<in> set (jw_hands w)" "cj_id (fst h') = i" "jw_now w \<le> snd h' + lock_time env cfg" by auto
  obtain j where j: "j \<in> set (q_rows (jw_queue w))" "holds_job (fst h) j" by (rule claim_in_force [OF ok h(1,3)])
  obtain j' where j': "j' \<in> set (q_rows (jw_queue w))" "holds_job (fst h') j'" by (rule claim_in_force [OF ok h'(1,3)])
  have "j = j'" using queue_ok_unique [of "jw_queue w" j j'] ok j j' h(2) h'(2) by (simp add: world_ok_def holds_job_def)
  then show "h = h'" using same_claim [OF ok, of h h'] h h' j(2) j'(2) by (simp add: holds_job_def)
qed

text \<open>A claim whose job somebody else claimed later holds nothing.\<close>

lemma overtaken_holds_nothing:
  assumes ok: "world_ok env cfg w" and h: "(c, t) \<in> set (jw_hands w)" "(c', t') \<in> set (jw_hands w)"
    and "cj_id c = cj_id c'" "cj_attempts c < cj_attempts c'" and j: "j \<in> set (q_rows (jw_queue w))"
  shows "\<not> holds_job c j"
proof
  assume hold: "holds_job c j"
  obtain j' where j': "j' \<in> set (q_rows (jw_queue w))" "bj_id j' = cj_id c'" "cj_attempts c' \<le> bj_attempts j'"
    by (rule claim_known [OF ok h(2)])
  have "j = j'" using queue_ok_unique [of "jw_queue w" j j'] ok j j' hold assms(4) by (simp add: world_ok_def holds_job_def)
  with hold j'(3) assms(5) show False by (simp add: holds_job_def)
qed

lemma record_result_nothing:
  "(\<And>j. j \<in> set (q_rows q) \<Longrightarrow> \<not> holds_job c j) \<Longrightarrow> record_result c f q = (False, q)"
  by (auto simp: record_result_def list_ex_iff intro!: map_idI job_queue.equality)

lemma overtaken_report_ignored:
  assumes "world_ok env cfg w" "(c, t) \<in> set (jw_hands w)" "(c', t') \<in> set (jw_hands w)"
    and "cj_id c = cj_id c'" "cj_attempts c < cj_attempts c'"
  shows "complete_job now c (jw_queue w) = (False, jw_queue w)"
    and "fail_job env cfg now c error (jw_queue w) = Inr r \<Longrightarrow> r = (False, jw_queue w)"
proof -
  note n = record_result_nothing [OF overtaken_holds_nothing [OF assms]]
  show "complete_job now c (jw_queue w) = (False, jw_queue w)" by (simp add: complete_job_def n)
  show "r = (False, jw_queue w)" if "fail_job env cfg now c error (jw_queue w) = Inr r"
    using that by (cases r) (auto elim!: fail_job_Inr simp: n)
qed

section \<open>Phases only move forward\<close>

lemma phase_final_stays: "(phase_step m)\<^sup>*\<^sup>* p p' \<Longrightarrow> p = Finished a \<or> p = Given_up a \<Longrightarrow> p' = p"
  by (induction rule: converse_rtranclp_induct) (auto elim: phase_final)

lemma job_moves_final: "job_moves j j' \<Longrightarrow> bj_status j \<in> {JOB_SUCCEEDED, JOB_FAILED} \<Longrightarrow> phase_of j' = phase_of j"
proof -
  assume m: "job_moves j j'" and s: "bj_status j \<in> {JOB_SUCCEEDED, JOB_FAILED}"
  have "phase_of j = Finished (bj_attempts j) \<or> phase_of j = Given_up (bj_attempts j)"
    using s by (auto simp: phase_of_def)
  with m show ?thesis unfolding job_moves_def by (blast dest: phase_final_stays)
qed

section \<open>Workers that go on end every job\<close>

definition unfinished :: "background_job \<Rightarrow> bool" where
  "unfinished j \<longleftrightarrow> bj_status j \<in> {JOB_PENDING, JOB_RUNNING}"

text \<open>The attempts that are left to the jobs that have not ended.\<close>

definition chance :: "background_job \<Rightarrow> nat" where
  "chance j = (if unfinished j then nat (bj_max_attempts j - bj_attempts j) else 0)"

definition chances :: "background_job list \<Rightarrow> nat" where
  "chances rows = sum_list (map chance rows)"

text \<open>After the time \<open>t\<close> every waiting job is due and every lock is over.\<close>

definition quiet_after :: "int \<Rightarrow> background_job list \<Rightarrow> bool" where
  "quiet_after t rows \<longleftrightarrow> (\<forall>j \<in> set rows. (bj_status j = JOB_PENDING \<longrightarrow> bj_run_at j \<le> t)
     \<and> (bj_status j = JOB_RUNNING \<longrightarrow> (\<forall>u. bj_locked_until j = Some u \<longrightarrow> u \<le> t)))"

definition round_over :: "job_env \<Rightarrow> job_settings \<Rightarrow> 'h round \<Rightarrow> int" where
  "round_over env cfg rd = max (rd_claim_at rd + lock_time env cfg)
     (rd_end_at rd + je_interval env (js_retry_max_seconds cfg))"

text \<open>Rounds one after another, each starting when the locks and the delays of the one before are over.\<close>

fun spaced :: "job_env \<Rightarrow> job_settings \<Rightarrow> int \<Rightarrow> 'h round list \<Rightarrow> bool" where
  "spaced env cfg t [] = True"
| "spaced env cfg t (rd # rds) \<longleftrightarrow> t < rd_claim_at rd \<and> rd_claim_at rd \<le> rd_end_at rd \<and> rd_held rd = []
     \<and> rd_meanwhile rd = id \<and> spaced env cfg (round_over env cfg rd) rds"

lemma sum_list_less:
  fixes f g :: "'a \<Rightarrow> nat"
  assumes "\<And>x. x \<in> set xs \<Longrightarrow> g x \<le> f x" and "x \<in> set xs" "g x < f x"
  shows "sum_list (map g xs) < sum_list (map f xs)"
proof -
  obtain ys zs where xs: "xs = ys @ x # zs" using split_list [OF assms(2)] by blast
  have "sum_list (map g ys) \<le> sum_list (map f ys)" "sum_list (map g zs) \<le> sum_list (map f zs)"
    using assms(1) by (auto simp: xs intro!: sum_list_mono)
  then show ?thesis using assms(3) by (simp add: xs)
qed

lemma chances_map_le: "(\<And>j. j \<in> set rows \<Longrightarrow> chance (f j) \<le> chance j) \<Longrightarrow> chances (map f rows) \<le> chances rows"
  unfolding chances_def map_map by (rule sum_list_mono) simp

lemma chances_map_less:
  "(\<And>j. j \<in> set rows \<Longrightarrow> chance (f j) \<le> chance j) \<Longrightarrow> j \<in> set rows \<Longrightarrow> chance (f j) < chance j
   \<Longrightarrow> chances (map f rows) < chances rows"
  unfolding chances_def map_map by (rule sum_list_less) auto

lemma chance_exhaust: "chance (exhaust_row now j) \<le> chance j"
  by (simp add: chance_def exhaust_row_def unfinished_def)

lemma chance_take: "job_due now j \<Longrightarrow> chance (take_job env cfg now j) < chance j"
  by (auto simp: chance_def take_job_def unfinished_def job_due_def)

lemma chance_completed: "chance (completed now j) \<le> chance j"
  by (simp add: chance_def completed_def unfinished_def)

lemma chance_failed: "bj_status j = JOB_RUNNING \<Longrightarrow> chance (failed_row env now final delay error j) \<le> chance j"
  by (simp add: chance_def failed_row_def unfinished_def)

text \<open>What a claimed job's end does to the table: one change of the rows the claim holds.\<close>

lemma run_claimed_rows:
  assumes "run_claimed env cfg handlers runs now c q = (r, q')"
  obtains (same) "q' = q"
  | (finished) b where "(b, q') = record_result c (completed now) q"
  | (again) b delay error where "(b, q') = record_result c (failed_row env now (cj_max_attempts c \<le> cj_attempts c) delay error) q"
      "delay \<le> js_retry_max_seconds cfg"
proof -
  have cap: "delay \<le> js_retry_max_seconds cfg"
    if "retry_delay_seconds a (js_retry_base_seconds cfg) (js_retry_max_seconds cfg) = Inr delay" for a delay
    using that by (auto simp: retry_delay_seconds_def Let_def split: if_splits)
  show thesis
  proof (cases "case get_handler (cj_type c) handlers of None \<Rightarrow> no_handler (cj_type c) | Some h \<Rightarrow> runs h (cj_payload c)")
    case Returned
    then show thesis using assms finished [of True] finished [of False]
      by (cases "complete_job now c q") (auto simp: run_claimed_def complete_job_def)
  next
    case (Raised cls msg)
    show thesis
    proof (cases "fail_job env cfg now c (je_redact env (cls @ '': '' @ msg)) q")
      case (Inl e)
      then show thesis using assms Raised same by (simp add: run_claimed_def)
    next
      case (Inr p)
      then have "fail_job env cfg now c (je_redact env (cls @ '': '' @ msg)) q = Inr (fst p, q')"
        using assms Raised by (cases p) (simp add: run_claimed_def)
      then show thesis by (rule fail_job_Inr) (use again cap in blast)
    qed
  next
    case Died
    then show thesis using assms same by (simp add: run_claimed_def)
  qed
qed

lemma quiet_map:
  assumes "quiet_after t rows" "t \<le> t'"
    and "\<And>j. j \<in> set rows \<Longrightarrow> f j = j \<or> bj_status (f j) \<in> {JOB_SUCCEEDED, JOB_FAILED}
      \<or> bj_status (f j) = JOB_RUNNING \<and> bj_locked_until (f j) = Some u \<and> u \<le> t'
      \<or> bj_status (f j) = JOB_PENDING \<and> bj_run_at (f j) \<le> t'"
  shows "quiet_after t' (map f rows)"
  unfolding quiet_after_def set_map ball_simps
proof (intro ballI)
  fix j assume j: "j \<in> set rows"
  show "(bj_status (f j) = JOB_PENDING \<longrightarrow> bj_run_at (f j) \<le> t')
    \<and> (bj_status (f j) = JOB_RUNNING \<longrightarrow> (\<forall>u. bj_locked_until (f j) = Some u \<longrightarrow> u \<le> t'))"
    using assms(3) [OF j] assms(1,2) j unfolding quiet_after_def by fastforce
qed

text \<open>If nothing can be claimed after a quiet time, every job has ended.\<close>

lemma quiet_none:
  assumes c: "claim_next env cfg now [] q = (None, q')" and q: "queue_ok q" and t: "quiet_after t (q_rows q)" "t < now"
    and j: "j \<in> set (q_rows q')"
  shows "\<not> unfinished j"
proof
  assume u: "unfinished j"
  have not_due: "\<not> job_due now j" using claim_next_None(2) [OF c j] by auto
  obtain i where i: "i \<in> set (q_rows q)" "j = exhaust_row now i" using j claim_next_None(1) [OF c] by auto
  have ok: "row_ok i" using queue_ok_row [OF q i(1)] .
  have "j = i" "\<not> (bj_status i = JOB_RUNNING \<and> lock_expired now i \<and> bj_max_attempts i \<le> bj_attempts i)"
    using u i(2) by (auto simp: exhaust_row_def unfinished_def split: if_splits)
  moreover have "bj_status i = JOB_RUNNING \<longrightarrow> lock_expired now i" "bj_status i = JOB_PENDING \<longrightarrow> bj_run_at i \<le> now"
    using t i(1) ok by (fastforce simp: quiet_after_def row_ok_def lock_expired_def split: option.splits)+
  ultimately show False using not_due u ok by (auto simp: job_due_def unfinished_def row_ok_def)
qed

text \<open>The two halves of a round: the claim uses up an attempt, the report gives none back.\<close>

lemma claim_round:
  assumes c: "claim_next env cfg now [] q = (Some c, q1)" and q: "queue_ok q" and t: "quiet_after t (q_rows q)" "t < now"
    and t': "t \<le> t'" "now + lock_time env cfg \<le> t'"
  shows "quiet_after t' (q_rows q1)" "chances (q_rows q1) < chances (q_rows q)"
proof -
  obtain j0 where j0: "j0 \<in> set (q_rows q)" "job_due now j0"
    and q1: "q_rows q1 = map (claim_row env cfg now j0) (q_rows q)"
    and u: "\<And>j. j \<in> set (q_rows q) \<Longrightarrow> bj_id j = bj_id j0 \<Longrightarrow> j = j0"
    by (rule claim_next_Some [OF c q]) auto
  have "chance (claim_row env cfg now j0 j) \<le> chance j" if "j \<in> set (q_rows q)" for j
    using u [OF that] chance_take [OF j0(2)] chance_exhaust by (auto simp: claim_row_def intro: less_imp_le)
  then show "chances (q_rows q1) < chances (q_rows q)" unfolding q1
    by (rule chances_map_less [OF _ j0(1)]) (simp_all add: claim_row_def chance_take [OF j0(2)])
  show "quiet_after t' (q_rows q1)" unfolding q1
    by (rule quiet_map [OF t(1) t'(1), where u = "now + lock_time env cfg"])
       (use t'(2) in \<open>auto simp: claim_row_def take_job_def exhaust_row_def\<close>)
qed

lemma report_round:
  assumes run: "run_claimed env cfg handlers runs now c q1 = (r, q')" and q1: "queue_ok q1"
    and h: "claims_ok lock t (q_rows q1) [(c, t)]" and le: "t \<le> now"
    and quiet: "quiet_after t' (q_rows q1)" and late: "now + je_interval env (js_retry_max_seconds cfg) \<le> t'"
    and m: "mono (je_interval env)"
  shows "queue_ok q' \<and> quiet_after t' (q_rows q') \<and> rows_move (q_rows q1) (q_rows q')
    \<and> chances (q_rows q') \<le> chances (q_rows q1)"
  using run
proof (cases rule: run_claimed_rows)
  case same
  then show ?thesis using q1 quiet rows_move_append [of _ "[]"] by simp
next
  case (finished b)
  have q2: "q_rows q' = map (\<lambda>j. if holds_job c j then completed now j else j) (q_rows q1)"
    using finished by (simp add: record_result_def)
  have "queue_ok q'" "rows_move (q_rows q1) (q_rows q')"
    by (rule report_keeps [OF finished q1 h _ le completed_ok]; simp add: holds_job_def completed_def)+
  moreover have "quiet_after t' (q_rows q')" unfolding q2
    by (rule quiet_map [OF quiet order.refl]) (simp add: completed_def)
  moreover have "chances (q_rows q') \<le> chances (q_rows q1)" unfolding q2
    by (rule chances_map_le) (simp add: chance_completed)
  ultimately show ?thesis by blast
next
  case (again b delay error)
  let ?f = "failed_row env now (cj_max_attempts c \<le> cj_attempts c) delay error"
  have q2: "q_rows q' = map (\<lambda>j. if holds_job c j then ?f j else j) (q_rows q1)"
    using again(1) by (simp add: record_result_def)
  have "now + je_interval env delay \<le> t'" using monoD [OF m again(2)] late by simp
  then have "quiet_after t' (q_rows q')" unfolding q2
    by (intro quiet_map [OF quiet order.refl]) (simp add: failed_row_def)
  moreover have "queue_ok q'" "rows_move (q_rows q1) (q_rows q')"
    by (rule report_keeps [OF again(1) q1 h _ le failed_row_ok]; simp add: failed_row_def)+
  moreover have "chances (q_rows q') \<le> chances (q_rows q1)" unfolding q2
    by (rule chances_map_le) (simp add: chance_failed holds_job_def)
  ultimately show ?thesis by blast
qed

lemma run_one_round:
  assumes r: "run_one env cfg handlers rd q = (r, q')" and q: "queue_ok q" and t: "quiet_after t (q_rows q)"
    and sp: "t < rd_claim_at rd" "rd_claim_at rd \<le> rd_end_at rd" "rd_held rd = []" "rd_meanwhile rd = id"
    and cfg: "0 \<le> lock_time env cfg" "mono (je_interval env)"
  shows "queue_ok q' \<and> quiet_after (round_over env cfg rd) (q_rows q') \<and> rows_move (q_rows q) (q_rows q')
    \<and> ((\<forall>j \<in> set (q_rows q'). \<not> unfinished j) \<or> chances (q_rows q') < chances (q_rows q))"
proof -
  let ?t' = "round_over env cfg rd" and ?now = "rd_claim_at rd"
  have t': "t \<le> ?t'" "?now + lock_time env cfg \<le> ?t'" "rd_end_at rd + je_interval env (js_retry_max_seconds cfg) \<le> ?t'"
    using sp(1) cfg(1) by (simp_all add: round_over_def)
  have none: "claims_ok (lock_time env cfg) t (q_rows q) []" by (simp add: claims_ok_def)
  obtain c0 q1 where c: "claim_next env cfg ?now [] q = (c0, q1)" by fastforce
  show ?thesis
  proof (cases c0)
    case None
    note c = c [unfolded None]
    have "q' = q1" using r c sp(3) by (simp add: run_one_def)
    moreover have "quiet_after ?t' (q_rows q1)"
      using quiet_map [OF t t'(1), of "exhaust_row ?now"] claim_next_None(1) [OF c] by (simp add: exhaust_row_def)
    ultimately show ?thesis using no_claim_keeps [OF c q none] sp(1) quiet_none [OF c q t sp(1)] by auto
  next
    case (Some cl)
    note c = c [unfolded Some]
    note k = claim_keeps [OF c q none less_imp_le [OF sp(1)], unfolded append_Nil]
    note cr = claim_round [OF c q t sp(1) t'(1,2)]
    obtain r' where run: "run_claimed env cfg handlers (rd_runs rd) (rd_end_at rd) cl q1 = (r', q')"
      using r c sp(3,4) by (auto simp: run_one_def split: prod.splits sum.splits)
    show ?thesis using report_round [OF run k(1,2) sp(2) cr(1) t'(3) cfg(2)] k(3) cr(2)
      by (auto intro: rows_move_trans)
  qed
qed

lemma all_ended_stays:
  assumes r: "run_one env cfg handlers rd q = (r, q')" and e: "\<forall>j \<in> set (q_rows q). \<not> unfinished j"
  shows "q' = q"
proof -
  have ex: "map (exhaust_row (rd_claim_at rd)) (q_rows q) = q_rows q"
    by (rule map_idI) (use e in \<open>auto simp: exhaust_row_def unfinished_def\<close>)
  have "next_due (rd_claim_at rd) (rd_held rd) (q_rows q) = None"
  proof (cases "next_due (rd_claim_at rd) (rd_held rd) (q_rows q)")
    case (Some j)
    from next_due_Some(1,2) [OF Some] e show ?thesis by (auto simp: job_due_def unfinished_def)
  qed
  then show ?thesis using r by (simp add: run_one_def claim_next_def fail_exhausted_def ex)
qed

lemma run_worker_ends:
  assumes "queue_ok q" "quiet_after t (q_rows q)" "spaced env cfg t rounds"
    and "0 \<le> lock_time env cfg" "mono (je_interval env)"
    and "(\<forall>j \<in> set (q_rows q). \<not> unfinished j) \<or> chances (q_rows q) < length rounds"
  shows "queue_ok (run_worker env cfg handlers rounds q) \<and> rows_move (q_rows q) (q_rows (run_worker env cfg handlers rounds q))
    \<and> (\<forall>j \<in> set (q_rows (run_worker env cfg handlers rounds q)). \<not> unfinished j)"
  using assms(1-3,6)
proof (induction rounds arbitrary: q t)
  case Nil
  then show ?case using rows_move_append [of _ "[]"] by (auto simp: run_worker_def)
next
  case (Cons rd rounds)
  obtain r q' where r: "run_one env cfg handlers rd q = (r, q')" by fastforce
  have "t < rd_claim_at rd" "rd_claim_at rd \<le> rd_end_at rd" "rd_held rd = []" "rd_meanwhile rd = id"
    and sp: "spaced env cfg (round_over env cfg rd) rounds" using Cons.prems(3) by simp_all
  note k = run_one_round [OF r Cons.prems(1,2) this(1-4) assms(4,5)]
  have "(\<forall>j \<in> set (q_rows q'). \<not> unfinished j) \<or> chances (q_rows q') < length rounds"
    using Cons.prems(4) k all_ended_stays [OF r] by auto
  with Cons.IH [of q' "round_over env cfg rd"] k sp
  have "queue_ok (run_worker env cfg handlers rounds q') \<and> rows_move (q_rows q') (q_rows (run_worker env cfg handlers rounds q'))
    \<and> (\<forall>j \<in> set (q_rows (run_worker env cfg handlers rounds q')). \<not> unfinished j)" by blast
  then show ?case using k r by (auto simp: run_worker_def intro: rows_move_trans)
qed

section \<open>Schedules\<close>

definition due_key :: "job_settings \<Rightarrow> (string \<Rightarrow> rat \<times> int) \<Rightarrow> schedule \<Rightarrow> key" where
  "due_key cfg clock s = schedule_key (sc_job_type s) (time_bucket (fst (clock (sc_job_type s))) (sc_interval_seconds s cfg))"

definition with_key :: "key \<Rightarrow> job_queue \<Rightarrow> background_job list" where
  "with_key k q = filter (\<lambda>j. bj_dedupe_key j = Some k) (q_rows q)"

lemma schedule_key_inject [simp]: "schedule_key t b = schedule_key t' b' \<longleftrightarrow> t = t' \<and> b = b'"
  by (simp add: schedule_key_def)

lemma list_all2_mem: "list_all2 P xs ys \<Longrightarrow> x \<in> set xs \<Longrightarrow> \<exists>y \<in> set ys. P x y"
  by (induction rule: list_all2_induct) auto

lemma with_key_once: "queue_ok q \<Longrightarrow> length (with_key k q) \<le> 1"
proof (rule length_at_most_one)
  assume q: "queue_ok q"
  have "distinct (q_rows q)" using q unfolding queue_ok_def distinct_map by blast
  then show "distinct (with_key k q)" by (simp add: with_key_def)
  show "x = y" if "x \<in> set (with_key k q)" "y \<in> set (with_key k q)" for x y
    using that q inj_onD [of bj_dedupe_key "{j \<in> set (q_rows q). bj_dedupe_key j \<noteq> None}" x y]
    by (simp add: with_key_def queue_ok_def)
qed

lemma with_key_one:
  assumes "queue_ok q" "j \<in> set (q_rows q)" "bj_dedupe_key j = Some k"
  shows "length (with_key k q) = 1"
proof -
  have "j \<in> set (with_key k q)" using assms by (simp add: with_key_def)
  then have "0 < length (with_key k q)" by (rule length_pos_if_in_set)
  with with_key_once [OF assms(1), of k] show ?thesis by linarith
qed

text \<open>A job that was enqueued stays, with its key: the key is taken for good.\<close>

lemma with_key_stays:
  assumes "job_run env cfg w w'" "world_ok env cfg w" "length (with_key k (jw_queue w)) = 1"
  shows "length (with_key k (jw_queue w')) = 1"
proof -
  have "with_key k (jw_queue w) \<noteq> []" using assms(3) by auto
  then obtain j where j: "j \<in> set (q_rows (jw_queue w))" "bj_dedupe_key j = Some k"
    by (auto simp: with_key_def filter_empty_conv)
  note k = job_run_keeps [OF assms(1,2)]
  obtain j' where j': "j' \<in> set (q_rows (jw_queue w'))" "job_moves j j'"
    using k j(1) unfolding rows_move_def by blast
  show ?thesis using with_key_one [OF _ j'(1)] k j(2) job_moves_frame(5) [OF j'(2)] by (simp add: world_ok_def)
qed

definition missing :: "job_settings \<Rightarrow> (string \<Rightarrow> rat \<times> int) \<Rightarrow> job_queue \<Rightarrow> schedule list \<Rightarrow> schedule list" where
  "missing cfg clock q schedules =
     filter (\<lambda>s. 0 < sc_interval_seconds s cfg \<and> with_key (due_key cfg clock s) q = []) schedules"

definition scheduled :: "job_settings \<Rightarrow> (string \<Rightarrow> rat \<times> int) \<Rightarrow> schedule \<Rightarrow> background_job \<Rightarrow> bool" where
  "scheduled cfg clock s j \<longleftrightarrow> bj_type j = sc_job_type s \<and> bj_payload j = [] \<and> bj_dedupe_key j = Some (due_key cfg clock s)
     \<and> bj_status j = JOB_PENDING \<and> bj_run_at j = snd (clock (sc_job_type s)) \<and> bj_max_attempts j = 3"

lemma enqueue_scheduled:
  assumes "length ty \<le> 100"
  shows "enqueue_job cfg ty [] (Some k) 0 (Some 3) now q =
    (if with_key k q \<noteq> [] then Inr (None, q)
     else Inr (Some (q_next q), \<lparr>q_next = q_next q + 1, q_rows = q_rows q @
       [\<lparr>bj_id = q_next q, bj_type = ty, bj_payload = [], bj_status = JOB_PENDING, bj_attempts = 0, bj_max_attempts = 3,
         bj_run_at = now, bj_locked_until = None, bj_finished_at = None, bj_last_error = None, bj_dedupe_key = Some k\<rparr>]\<rparr>))"
proof -
  have "Some k \<in> bj_dedupe_key ` set (q_rows q) \<longleftrightarrow> with_key k q \<noteq> []"
    by (auto simp: with_key_def filter_empty_conv image_iff intro: sym)
  then show ?thesis using assms by (simp add: enqueue_job_def Let_def job_checks_def int32_def)
qed

lemma enqueue_due_adds:
  assumes "queue_ok q" and "distinct (map sc_job_type ss)" and "\<forall>s \<in> set ss. length (sc_job_type s) \<le> 100"
  shows "\<exists>q' new. enqueue_due cfg clock ss q = (Inr (map sc_job_type (missing cfg clock q ss)), q') \<and> queue_ok q'
    \<and> q_rows q' = q_rows q @ new \<and> list_all2 (scheduled cfg clock) (missing cfg clock q ss) new"
  using assms
proof (induction ss arbitrary: q)
  case Nil
  then show ?case by (simp add: missing_def)
next
  case (Cons s ss)
  let ?k = "due_key cfg clock s" and ?t = "fst (clock (sc_job_type s))" and ?now = "snd (clock (sc_job_type s))"
  have len: "length (sc_job_type s) \<le> 100" using Cons.prems by simp
  have key: "schedule_key (sc_job_type s) (time_bucket ?t (sc_interval_seconds s cfg)) = ?k" by (simp add: due_key_def)
  note eq = enqueue_scheduled [OF len, of cfg ?k ?now]
  have IH: "\<exists>q' new. enqueue_due cfg clock ss q1 = (Inr (map sc_job_type (missing cfg clock q1 ss)), q') \<and> queue_ok q'
    \<and> q_rows q' = q_rows q1 @ new \<and> list_all2 (scheduled cfg clock) (missing cfg clock q1 ss) new" if "queue_ok q1" for q1
    using Cons.IH [OF that] Cons.prems by simp
  show ?case
  proof (cases "0 < sc_interval_seconds s cfg \<and> with_key ?k q = []")
    case False
    then have "missing cfg clock q (s # ss) = missing cfg clock q ss" by (auto simp: missing_def)
    moreover have "enqueue_due cfg clock (s # ss) q = enqueue_due cfg clock ss q"
      using False by (cases "enqueue_due cfg clock ss q"; cases "fst (enqueue_due cfg clock ss q)")
        (auto simp: Let_def case_prod_unfold key eq)
    ultimately show ?thesis using IH [OF Cons.prems(1)] by simp
  next
    case True
    obtain r q1 where e: "enqueue_job cfg (sc_job_type s) [] (Some ?k) 0 (Some 3) ?now q = Inr (Some r, q1)"
      using eq [of q] True by simp
    have q1: "queue_ok q1" by (rule enqueue_job_ok [OF e Cons.prems(1)])
    obtain j where j: "q_rows q1 = q_rows q @ [j]" "scheduled cfg clock s j"
      using e eq [of q] True by (auto simp: scheduled_def)
    have same: "missing cfg clock q1 ss = missing cfg clock q ss" unfolding missing_def
      by (rule filter_cong [OF refl])
         (use Cons.prems(2) j in \<open>auto simp: with_key_def scheduled_def due_key_def\<close>)
    obtain q' new where n: "enqueue_due cfg clock ss q1 = (Inr (map sc_job_type (missing cfg clock q ss)), q')"
      "queue_ok q'" "q_rows q' = q_rows q1 @ new" "list_all2 (scheduled cfg clock) (missing cfg clock q ss) new"
      using IH [OF q1] unfolding same by blast
    have "enqueue_due cfg clock (s # ss) q = (Inr (sc_job_type s # map sc_job_type (missing cfg clock q ss)), q')"
      using True e n(1) by (simp add: Let_def case_prod_unfold key)
    moreover have "missing cfg clock q (s # ss) = s # missing cfg clock q ss" using True by (simp add: missing_def)
    ultimately show ?thesis using n j by (intro exI [of _ q'] exI [of _ "j # new"]) simp
  qed
qed

section \<open>Times: retries and ticks\<close>

text \<open>The delays double from the base to the cap.\<close>

lemma retry_delay_doubles:
  assumes "1 \<le> n" "n < 1024" "0 \<le> base"
  shows "retry_delay_seconds n base cap = Inr (min (base * 2 ^ nat (n - 1)) cap)"
    and "retry_delay_seconds (n + 1) base cap = Inr (min (2 * (base * 2 ^ nat (n - 1))) cap)"
proof -
  have "nat n = Suc (nat (n - 1))" "Suc (nat (n - 1)) < 1024" using assms(1,2) by simp_all
  then show "retry_delay_seconds (n + 1) base cap = Inr (min (2 * (base * 2 ^ nat (n - 1))) cap)"
    using assms by (simp add: retry_delay_seconds_def Let_def mult.left_commute)
qed (use assms in \<open>simp add: retry_delay_seconds_def Let_def\<close>)

text \<open>From the 1025th attempt on the delay cannot be computed, and the failure is not recorded.\<close>

lemma retry_delay_overflows: "1025 \<le> cj_attempts c \<Longrightarrow> fail_job env cfg now c error q = Inl DelayOverflow"
  by (simp add: fail_job_def retry_delay_seconds_def Let_def)

lemma fold_min_le: "fold min is i \<le> (i :: int)" "x \<in> set is \<Longrightarrow> fold min is i \<le> x"
proof (induction "is" arbitrary: i)
  case (Cons a as)
  { case 1 show ?case using Cons(1) [of "min a i"] by simp }
  { case 2 then show ?case using Cons(1,2) [of "min a i"] by auto }
qed simp_all

text \<open>With intervals of two seconds or more the scheduler looks at least twice per interval.\<close>

lemma scheduler_tick_half:
  assumes t: "scheduler_tick cfg ss = Some tick" and s: "s \<in> set ss" "0 < sc_interval_seconds s cfg"
    and two: "\<forall>s \<in> set ss. sc_interval_seconds s cfg \<le> 0 \<or> 2 \<le> sc_interval_seconds s cfg"
  shows "2 * tick \<le> of_int (sc_interval_seconds s cfg)"
proof -
  let ?is = "filter (\<lambda>i. 0 < i) (map (\<lambda>s. sc_interval_seconds s cfg) ss)"
  obtain i iss where mins: "?is = i # iss" "tick = max 1 (of_int (fold min iss i) / 2)"
    using t by (auto simp: scheduler_tick_def split: list.splits)
  have "sc_interval_seconds s cfg \<in> set (i # iss)" unfolding mins(1) [symmetric] using s by auto
  then have "fold min iss i \<le> sc_interval_seconds s cfg" using fold_min_le(1) [of iss i] fold_min_le(2) [of _ iss i] by auto
  moreover have "2 \<le> sc_interval_seconds s cfg" using two s by auto
  ultimately show ?thesis unfolding mins(2) by (auto simp: max_def)
qed

lemma bucket_not_skipped:
  assumes "0 < i" "t' \<le> t + of_int i"
  shows "time_bucket t' i \<le> time_bucket t i + 1"
proof -
  have "t' / of_int i \<le> t / of_int i + 1" using assms by (simp add: field_simps)
  then have "\<lfloor>t' / of_int i\<rfloor> \<le> \<lfloor>t / of_int i + 1\<rfloor>" by (rule floor_mono)
  then show ?thesis by (simp add: time_bucket_def)
qed

text \<open>With an interval of one second the tick is the whole interval, and any delay on top skips a bucket.\<close>

lemma scheduler_can_skip_bucket:
  "scheduler_tick cfg [\<lparr>sc_job_type = ty, sc_interval_seconds = (\<lambda>_. 1)\<rparr>] = Some 1"
  "time_bucket (9 / 10) 1 = 0" "time_bucket (9 / 10 + 1 + 1 / 10) 1 = 2"
  by (simp add: scheduler_tick_def, code_simp, code_simp)

section \<open>A worker's round is a run\<close>

lemma run_claimed_step:
  assumes "run_claimed env cfg handlers runs now c (jw_queue w) = (r, q')" "jw_now w \<le> now" "(c, t) \<in> set (jw_hands w)"
  obtains w' where "job_step env cfg w w'" "jw_queue w' = q'" "jw_now w' \<le> now" "jw_hands w' = remove1 (c, t) (jw_hands w)"
proof -
  let ?how = "case get_handler (cj_type c) handlers of None \<Rightarrow> no_handler (cj_type c) | Some h \<Rightarrow> runs h (cj_payload c)"
  note reached = that
  have vanish: thesis if "q' = jw_queue w"
    using that reached [OF job_step.vanishes [OF assms(3)]] assms(2) by simp
  show thesis
  proof (cases ?how)
    case Returned
    then obtain b where "complete_job now c (jw_queue w) = (b, q')"
      using assms(1) by (cases "complete_job now c (jw_queue w)") (simp add: run_claimed_def)
    from job_step.completes [OF assms(2,3) this] that show thesis by fastforce
  next
    case (Raised cls msg)
    show thesis
    proof (cases "fail_job env cfg now c (je_redact env (cls @ '': '' @ msg)) (jw_queue w)")
      case (Inl e)
      then show thesis using assms(1) Raised vanish by (simp add: run_claimed_def)
    next
      case (Inr p)
      then have "fail_job env cfg now c (je_redact env (cls @ '': '' @ msg)) (jw_queue w) = Inr (fst p, q')"
        using assms(1) Raised by (cases p) (simp add: run_claimed_def)
      from job_step.fails [OF assms(2,3) this] that show thesis by fastforce
    qed
  next
    case Died
    then show thesis using assms(1) vanish by (simp add: run_claimed_def)
  qed
qed

lemma run_one_is_run:
  assumes r: "run_one env cfg handlers rd (jw_queue w) = (r, q')" and t: "jw_now w \<le> rd_claim_at rd" "rd_claim_at rd \<le> rd_end_at rd"
    and h: "jw_hands w = []" and m: "rd_meanwhile rd = id"
  shows "\<exists>w'. job_run env cfg w w' \<and> jw_queue w' = q' \<and> jw_now w' \<le> rd_end_at rd \<and> jw_hands w' = []"
proof -
  obtain c q1 where c: "claim_next env cfg (rd_claim_at rd) (rd_held rd) (jw_queue w) = (c, q1)" by fastforce
  show ?thesis
  proof (cases c)
    case None
    with r c have "q' = q1" by (simp add: run_one_def)
    with job_step.finds_nothing [OF t(1) c [unfolded None]] t(2) h show ?thesis
      by (intro exI [of _ "w\<lparr>jw_now := rd_claim_at rd, jw_queue := q1\<rparr>"]) auto
  next
    case (Some cl)
    define v where "v = w\<lparr>jw_now := rd_claim_at rd, jw_queue := q1, jw_hands := [(cl, rd_claim_at rd)]\<rparr>"
    have v: "job_step env cfg w v" using job_step.claims [OF t(1) c [unfolded Some]] h by (simp add: v_def)
    obtain r' where "run_claimed env cfg handlers (rd_runs rd) (rd_end_at rd) cl (jw_queue v) = (r', q')"
      using r c Some m by (auto simp: run_one_def v_def split: prod.splits sum.splits)
    then obtain w' where "job_step env cfg v w'" "jw_queue w' = q'" "jw_now w' \<le> rd_end_at rd" "jw_hands w' = []"
      by (rule run_claimed_step [where t = "rd_claim_at rd"]) (use t in \<open>simp_all add: v_def\<close>)
    with v show ?thesis by (blast intro: converse_rtranclp_into_rtranclp r_into_rtranclp)
  qed
qed

section \<open>The queue behind the shop\<close>

text \<open>The shop's services see of a job what they enqueue; their \<open>enqueue\<close> is implemented by the queue's.\<close>

definition shop_job :: "background_job \<Rightarrow> job" where
  "shop_job j = \<lparr>jb_id = bj_id j, jb_type = bj_type j, jb_payload = bj_payload j, jb_dedupe_key = bj_dedupe_key j\<rparr>"

definition implements :: "job_queue \<Rightarrow> db \<Rightarrow> bool" where
  "implements q d \<longleftrightarrow> q_next q = d_next d \<and> map shop_job (q_rows q) = d_jobs d"

lemma enqueue_implements:
  assumes "implements q d" and "enqueue_job cfg ty payload k delay m now q = Inr (r, q')"
  shows "implements q' (enqueue ty payload k d)"
proof -
  have key: "jb_dedupe_key ` set (d_jobs d) = bj_dedupe_key ` set (q_rows q)"
    using assms(1) unfolding implements_def by (metis (no_types, lifting) job.select_convs(4) image_cong image_image image_set shop_job_def)
  show ?thesis using assms(2)
  proof (cases rule: enqueue_job_Inr)
    case present
    then show ?thesis using assms(1) by (simp add: enqueue_def key)
  next
    case (added j)
    then show ?thesis using assms(1) by (auto simp: enqueue_def key fresh_def implements_def shop_job_def)
  qed
qed

end
