(* ===== verification/Job_Properties.thy ===== *)
theory Job_Properties
  imports Job_Guarantees
begin

text \<open>
  The properties of the background jobs, each with a run it applies to: the default settings, a queue with one
  job, a slow worker that is overtaken, and a job that fails until it is given up.
\<close>

section \<open>Sample runs\<close>

definition demo_env :: job_env where
  "demo_env = \<lparr>je_interval = (\<lambda>s. \<lfloor>s * 1000000\<rfloor>), je_redact = (\<lambda>s. s)\<rparr>"

definition demo_settings :: job_settings where
  "demo_settings = \<lparr>js_default_max_attempts = 5, js_job_timeout_seconds = 60, js_lock_seconds = 300,
     js_retry_base_seconds = 30, js_retry_max_seconds = 3600, js_order_expiry_sweep_interval_seconds = 60,
     js_webhook_recovery_interval_seconds = 60\<rparr>"

lemma demo_mono: "mono (je_interval demo_env)"
  by (rule monoI) (auto simp: demo_env_def intro: floor_mono)

lemma demo_settings_ok: "job_settings_ok demo_settings"
  by (simp add: job_settings_ok_def demo_settings_def)

definition one_job :: job_queue where
  "one_job = (case enqueue_job demo_settings ''send_order_confirmation'' [KI 7] (Some [KS ''order-confirmation'', KI 7]) 0
      (Some 2) 0 \<lparr>q_next = 1, q_rows = []\<rparr> of Inr (_, q) \<Rightarrow> q | Inl _ \<Rightarrow> \<lparr>q_next = 1, q_rows = []\<rparr>)"

lemma one_job_rows: "one_job = \<lparr>q_next = 2, q_rows = [\<lparr>bj_id = 1, bj_type = ''send_order_confirmation'', bj_payload = [KI 7],
    bj_status = JOB_PENDING, bj_attempts = 0, bj_max_attempts = 2, bj_run_at = 0, bj_locked_until = None,
    bj_finished_at = None, bj_last_error = None, bj_dedupe_key = Some [KS ''order-confirmation'', KI 7]\<rparr>]\<rparr>"
  by (simp add: one_job_def enqueue_job_def Let_def job_checks_def int32_def)

lemma one_job_ok: "queue_ok one_job"
  by (simp add: one_job_rows queue_ok_def row_ok_def job_checks_def inj_on_def)

definition demo_world :: job_world where
  "demo_world = \<lparr>jw_now = 0, jw_queue = one_job, jw_hands = []\<rparr>"

text \<open>A first worker claims the job; when its lock is over a second one does.\<close>

definition first_claim :: "claimed_job option \<times> job_queue" where
  "first_claim = claim_next demo_env demo_settings 0 [] one_job"

definition second_claim :: "claimed_job option \<times> job_queue" where
  "second_claim = claim_next demo_env demo_settings 300000001 [] (snd first_claim)"

definition claim_no :: "int \<Rightarrow> claimed_job" where
  "claim_no n = \<lparr>cj_id = 1, cj_type = ''send_order_confirmation'', cj_payload = [KI 7], cj_attempts = n, cj_max_attempts = 2\<rparr>"

lemma claims_made: "fst first_claim = Some (claim_no 1)" "fst second_claim = Some (claim_no 2)"
  by code_simp+

definition overtaken_world :: job_world where
  "overtaken_world = \<lparr>jw_now = 300000001, jw_queue = snd second_claim, jw_hands = [(claim_no 1, 0), (claim_no 2, 300000001)]\<rparr>"

lemma overtaken_run: "job_run demo_env demo_settings demo_world overtaken_world"
proof -
  let ?v = "demo_world\<lparr>jw_now := 0, jw_queue := snd first_claim, jw_hands := jw_hands demo_world @ [(claim_no 1, 0)]\<rparr>"
  have "job_step demo_env demo_settings demo_world ?v"
    by (rule job_step.claims [of _ _ _ _ "[]"])
       (simp_all add: demo_world_def first_claim_def [symmetric] claims_made prod_eq_iff)
  moreover have "job_step demo_env demo_settings ?v
      (?v\<lparr>jw_now := 300000001, jw_queue := snd second_claim, jw_hands := jw_hands ?v @ [(claim_no 2, 300000001)]\<rparr>)"
    by (rule job_step.claims [of _ _ _ _ "[]"])
       (simp_all add: demo_world_def second_claim_def [symmetric] claims_made prod_eq_iff)
  ultimately show ?thesis by (simp add: overtaken_world_def demo_world_def)
qed

section \<open>Properties\<close>

text \<open>
  Claim C18 (safety). At any time at most one worker that is still within the job timeout works on a job,
  however workers, callers and schedulers interleave; and a worker whose job somebody else claimed since can
  record neither success nor failure.
\<close>

theorem one_worker_at_a_time:
  assumes start: "queue_ok (jw_queue w)" "jw_hands w = []" and run: "job_run env cfg w w'"
    and cfg: "job_settings_ok cfg" and m: "mono (je_interval env)"
  shows "length (filter (\<lambda>h. cj_id (fst h) = i \<and> jw_now w' \<le> snd h + je_interval env (js_job_timeout_seconds cfg)) (jw_hands w')) \<le> 1
    \<and> (\<forall>h \<in> set (jw_hands w'). \<forall>h' \<in> set (jw_hands w'). cj_id (fst h) = cj_id (fst h') \<longrightarrow> cj_attempts (fst h) < cj_attempts (fst h') \<longrightarrow>
        complete_job now (fst h) (jw_queue w') = (False, jw_queue w')
        \<and> fail_job env cfg now (fst h) error (jw_queue w') \<in> {Inr (False, jw_queue w'), Inl DelayOverflow})"
proof
  have ok: "world_ok env cfg w'" using job_run_keeps [OF run world_ok_start [OF start]] ..
  let ?P = "\<lambda>h. cj_id (fst h) = i \<and> jw_now w' \<le> snd h + je_interval env (js_job_timeout_seconds cfg)"
  let ?Q = "\<lambda>h. cj_id (fst h) = i \<and> jw_now w' \<le> snd h + lock_time env cfg"
  have "je_interval env (js_job_timeout_seconds cfg) \<le> lock_time env cfg"
    using monoD [OF m] cfg by (simp add: job_settings_ok_def)
  then have "filter ?P (jw_hands w') = filter ?P (filter ?Q (jw_hands w'))"
    unfolding filter_filter by (intro filter_cong) auto
  then have "length (filter ?P (jw_hands w')) \<le> length (filter ?Q (jw_hands w'))"
    using length_filter_le [of ?P "filter ?Q (jw_hands w')"] by simp
  then show "length (filter ?P (jw_hands w')) \<le> 1"
    using claims_in_force_disjoint [OF ok, of i] by linarith
  have fail: "fail_job env cfg now c error q \<in> {Inr (False, q), Inl DelayOverflow}"
    if "\<And>r. fail_job env cfg now c error q = Inr r \<Longrightarrow> r = (False, q)" for c q
    using that by (cases "fail_job env cfg now c error q")
      (auto simp: fail_job_def Let_def rbind_eq_Inl retry_delay_seconds_def split: if_splits)
  show "\<forall>h \<in> set (jw_hands w'). \<forall>h' \<in> set (jw_hands w'). cj_id (fst h) = cj_id (fst h') \<longrightarrow> cj_attempts (fst h) < cj_attempts (fst h') \<longrightarrow>
      complete_job now (fst h) (jw_queue w') = (False, jw_queue w')
      \<and> fail_job env cfg now (fst h) error (jw_queue w') \<in> {Inr (False, jw_queue w'), Inl DelayOverflow}"
  proof (intro ballI impI)
    fix h h' assume h: "h \<in> set (jw_hands w')" "h' \<in> set (jw_hands w')" "cj_id (fst h) = cj_id (fst h')"
      "cj_attempts (fst h) < cj_attempts (fst h')"
    have "(fst h, snd h) \<in> set (jw_hands w')" "(fst h', snd h') \<in> set (jw_hands w')" using h(1,2) by simp_all
    note ignored = overtaken_report_ignored [OF ok this h(3,4)]
    show "complete_job now (fst h) (jw_queue w') = (False, jw_queue w')
        \<and> fail_job env cfg now (fst h) error (jw_queue w') \<in> {Inr (False, jw_queue w'), Inl DelayOverflow}"
      by (rule conjI [OF ignored(1) fail [OF ignored(2)]])
  qed
qed

lemma one_worker_at_a_time_witness:
  "length (filter (\<lambda>h. cj_id (fst h) = 1 \<and> jw_now overtaken_world \<le> snd h + je_interval demo_env (js_job_timeout_seconds demo_settings))
      (jw_hands overtaken_world)) \<le> 1
    \<and> complete_job 300000002 (claim_no 1) (jw_queue overtaken_world) = (False, jw_queue overtaken_world)"
  using one_worker_at_a_time [OF _ _ overtaken_run demo_settings_ok demo_mono, of 1 300000002] one_job_ok
  by (auto simp: demo_world_def overtaken_world_def claim_no_def)

text \<open>
  Claim C20 (refinement). Every job implements the machine of phases: it waits, runs, is taken over, is retried
  while attempts are left, and ends succeeded or given up for good; it never starts more often than allowed
  and nothing else about it changes.
\<close>

theorem job_follows_machine:
  assumes start: "queue_ok (jw_queue w)" "jw_hands w = []" and run: "job_run env cfg w w'"
    and j: "j \<in> set (q_rows (jw_queue w))"
  shows "\<exists>j' \<in> set (q_rows (jw_queue w')). job_moves j j' \<and> 0 \<le> bj_attempts j' \<and> bj_attempts j' \<le> bj_max_attempts j
    \<and> (bj_status j' = JOB_FAILED \<longrightarrow> bj_attempts j' = bj_max_attempts j)
    \<and> (bj_status j \<in> {JOB_SUCCEEDED, JOB_FAILED} \<longrightarrow> phase_of j' = phase_of j)"
proof -
  note k = job_run_keeps [OF run world_ok_start [OF start]]
  obtain j' where j': "j' \<in> set (q_rows (jw_queue w'))" "job_moves j j'" using k j unfolding rows_move_def by blast
  have "row_ok j'" using queue_ok_row [OF _ j'(1)] k by (simp add: world_ok_def)
  then show ?thesis using j' job_moves_final [OF j'(2)] job_moves_frame(4) [OF j'(2)]
    by (intro bexI [OF _ j'(1)]) (auto simp: row_ok_def job_checks_def)
qed

lemma job_follows_machine_witness:
  "\<exists>j' \<in> set (q_rows (jw_queue overtaken_world)). job_moves (hd (q_rows one_job)) j' \<and> bj_attempts j' \<le> 2"
  using job_follows_machine [OF _ _ overtaken_run, of "hd (q_rows one_job)"] one_job_ok
  by (auto simp: demo_world_def one_job_rows)

text \<open>
  Claim C19 (liveness). Workers that keep claiming end every job: with more rounds than attempts left, each
  after the locks and delays of the one before, every job of the queue has succeeded or was given up, whatever
  its handlers do and even if every worker dies.
\<close>

theorem worker_ends_every_job:
  assumes q: "queue_ok q" and t: "quiet_after t (q_rows q)" "spaced env cfg t rounds" and n: "chances (q_rows q) < length rounds"
    and cfg: "job_settings_ok cfg" and m: "mono (je_interval env)" "0 \<le> je_interval env 0"
  shows "\<forall>j \<in> set (q_rows q). \<exists>j' \<in> set (q_rows (run_worker env cfg handlers rounds q)).
    job_moves j j' \<and> bj_status j' \<in> {JOB_SUCCEEDED, JOB_FAILED}"
proof
  fix j assume j: "j \<in> set (q_rows q)"
  let ?q' = "run_worker env cfg handlers rounds q"
  have "je_interval env 0 \<le> lock_time env cfg" using monoD [OF m(1)] cfg by (simp add: job_settings_ok_def)
  then have k: "queue_ok ?q' \<and> rows_move (q_rows q) (q_rows ?q') \<and> (\<forall>j \<in> set (q_rows ?q'). \<not> unfinished j)"
    by (intro run_worker_ends [OF q t _ m(1)]) (use m(2) n in simp_all)
  obtain j' where "j' \<in> set (q_rows ?q')" "job_moves j j'" using k j unfolding rows_move_def by blast
  moreover from this have "bj_status j' \<in> {JOB_SUCCEEDED, JOB_FAILED}"
    using k queue_ok_row [of ?q' j'] by (auto simp: unfinished_def row_ok_def job_checks_def)
  ultimately show "\<exists>j' \<in> set (q_rows ?q'). job_moves j j' \<and> bj_status j' \<in> {JOB_SUCCEEDED, JOB_FAILED}" by blast
qed

definition bad_round :: "int \<Rightarrow> unit round" where
  "bad_round n = \<lparr>rd_claim_at = n * 4000000000, rd_held = [], rd_end_at = n * 4000000000 + 1000,
     rd_runs = (\<lambda>_ _. if n = 1 then Died else Raised ''TimeoutError'' []), rd_meanwhile = id\<rparr>"

lemma worker_ends_every_job_witness:
  "\<exists>j' \<in> set (q_rows (run_worker demo_env demo_settings [(''send_order_confirmation'', ())] (map bad_round [1, 2, 3]) one_job)).
     bj_status j' \<in> {JOB_SUCCEEDED, JOB_FAILED}"
proof -
  have "quiet_after 0 (q_rows one_job)" "chances (q_rows one_job) < length (map bad_round [1, 2, 3])"
    by (simp_all add: one_job_rows quiet_after_def chances_def chance_def unfinished_def)
  moreover have "spaced demo_env demo_settings 0 (map bad_round [1, 2, 3])"
    by (simp add: bad_round_def round_over_def demo_env_def demo_settings_def)
  ultimately show ?thesis
    using worker_ends_every_job [OF one_job_ok, of 0 demo_env demo_settings "map bad_round [1, 2, 3]"
        "[(''send_order_confirmation'', ())]"] demo_settings_ok demo_mono
    by (auto simp: one_job_rows demo_env_def)
qed

text \<open>
  Claim C21 (functional). The scheduler enqueues exactly the enabled schedules whose current time bucket has no
  job yet, each once, and in every later state there is exactly one job for each of these buckets, however many
  schedulers run.
\<close>

theorem schedule_once_per_bucket:
  assumes q: "queue_ok q" and d: "distinct (map sc_job_type ss)" and l: "\<forall>s \<in> set ss. length (sc_job_type s) \<le> 100"
  shows "\<exists>q' new. enqueue_due cfg clock ss q = (Inr (map sc_job_type (missing cfg clock q ss)), q')
    \<and> q_rows q' = q_rows q @ new \<and> list_all2 (scheduled cfg clock) (missing cfg clock q ss) new
    \<and> (\<forall>w w' env s. jw_queue w = q' \<longrightarrow> jw_hands w = [] \<longrightarrow> job_run env cfg w w' \<longrightarrow> s \<in> set ss \<longrightarrow> 0 < sc_interval_seconds s cfg
        \<longrightarrow> length (with_key (due_key cfg clock s) (jw_queue w')) = 1)"
proof -
  obtain q' new where e: "enqueue_due cfg clock ss q = (Inr (map sc_job_type (missing cfg clock q ss)), q')"
    and q': "queue_ok q'" and rows: "q_rows q' = q_rows q @ new" "list_all2 (scheduled cfg clock) (missing cfg clock q ss) new"
    using enqueue_due_adds [OF q d l] by blast
  have "length (with_key (due_key cfg clock s) (jw_queue w')) = 1"
    if w: "jw_queue w = q'" "jw_hands w = []" and run: "job_run env cfg w w'" and s: "s \<in> set ss" "0 < sc_interval_seconds s cfg"
    for w w' env s
  proof (rule with_key_stays [OF run])
    show "world_ok env cfg w" using w q' by (simp add: world_ok_start)
    show "length (with_key (due_key cfg clock s) (jw_queue w)) = 1"
    proof (cases "with_key (due_key cfg clock s) q = []")
      case True
      then have "s \<in> set (missing cfg clock q ss)" using s by (simp add: missing_def)
      then obtain j where "j \<in> set new" "scheduled cfg clock s j" using rows(2) by (blast dest: list_all2_mem)
      then show ?thesis using with_key_one [OF q', of j] rows(1) w by (simp add: scheduled_def)
    next
      case False
      then obtain j where "j \<in> set (q_rows q)" "bj_dedupe_key j = Some (due_key cfg clock s)"
        by (auto simp: with_key_def filter_empty_conv)
      then show ?thesis using with_key_one [OF q', of j] rows(1) w by simp
    qed
  qed
  with e rows show ?thesis by blast
qed

lemma schedule_once_per_bucket_witness:
  "\<exists>q' new. enqueue_due demo_settings (\<lambda>_. (1000, 5)) get_schedules one_job =
       (Inr [''sweep_stale_orders'', ''reprocess_deferred_events''], q') \<and> q_rows q' = q_rows one_job @ new"
proof -
  have "map sc_job_type (missing demo_settings (\<lambda>_. (1000, 5)) one_job get_schedules) =
      [''sweep_stale_orders'', ''reprocess_deferred_events'']"
    by (simp add: missing_def get_schedules_def register_schedule_def demo_settings_def one_job_rows with_key_def due_key_def
        schedule_key_def)
  then show ?thesis
    using schedule_once_per_bucket [OF one_job_ok, of get_schedules demo_settings "\<lambda>_. (1000, 5)"]
    by (auto simp: get_schedules_def register_schedule_def)
qed

end
