(* ===== verification/Spec2Isabelle.thy ===== *)
theory Spec2Isabelle
  imports Return_Guarantees Account_Properties Job_Properties
begin

text \<open>
  \<^bold>\<open>A verification of the shop's backend (src/app)\<close>

  The program is the backend of an online shop. Customers and guests fill carts, check out and pay through a
  provider; administrators fulfil, cancel, refund and ship orders and handle returns; accounts sign in with
  rotating tokens and staff act through roles. The library models that core end to end: the definitions follow
  the Python sources function by function, keep their names, and are executable.

  \<^bold>\<open>Modelling conventions.\<close> A request is a transaction: an exception rolls it back, so a service method is
  a function from the database \<open>db\<close> (theory \<open>Shop_Data\<close>: one record per ORM model, a table is the list of its
  rows) to \<open>Inl error\<close> (nothing changed) or \<open>Inr\<close> of its result and the new database. An operation that
  commits before it raises, or in several transactions, returns its answer together with the database it
  leaves (\<open>reply\<close>). CHECK and unique constraints and triggers are part of the operations that write the table.
  A row lock makes the reads and writes under it one step. Between the transactions of an operation that calls
  the payment provider other requests run: they are a parameter \<open>meanwhile\<close>, a function on the database, which
  the run properties instantiate with any sequence of steps of the shop itself. Decimals are rationals with
  Python's 28-digit context written out (\<open>Decimal_Context\<close>); texts are lists of Latin-1 characters; integer
  columns are integers, with the 32-bit range (\<open>int32\<close>) checked where the database would refuse a value; times
  are microseconds; identifiers come from one supply (\<open>fresh\<close>). The payment provider, SHA-256, the token
  library, the password hash, random secrets, the mail sender, the masking of secrets in logs and the checks of
  webhook signatures are parameters.

  \<^bold>\<open>Arithmetic and tax\<close>
  \<^item> \<open>Prelude\<close>: results with errors, tables, Python lists and dictionaries, and the lemmas all theories share.
  \<^item> \<open>Decimal_Context\<close>, \<open>Decimal_Text\<close>, \<open>Money\<close> (\<open>core/money.py\<close>): currencies, minor units, provider amounts,
    parsing and printing; conversions round trip and round to the nearest unit.
  \<^item> \<open>Gst_Calc\<close>, \<open>Gst_States\<close>, \<open>Tax_Engine\<close> (\<open>modules/tax\<close>): exact allocation (locale \<open>exact_split\<close>), GST by
    slab, the state table, the two engines (locale \<open>tax_contract\<close>) and their readiness checks.

  \<^bold>\<open>From the catalogue to the order\<close>
  \<^item> \<open>Shop_Data\<close>: enumerations, rows, errors. \<open>Catalog\<close>: stock, ledger trigger, product view (locale \<open>stock_store\<close>).
  \<^item> \<open>Coupons\<close>: discounts and limits. \<open>Cart\<close>: carts, their invariant and their digest.
  \<^item> \<open>Checkout\<close>, \<open>Checkout_Guarantees\<close>: pricing, settlement, checkout, quote, idempotency, guest payment tokens.
  \<^item> \<open>Invoices\<close>: tax invoices and credit notes, numbering (locale \<open>document_series\<close>), amounts in words.

  \<^bold>\<open>Money and goods after the order\<close>
  \<^item> \<open>Lifecycle\<close> (\<open>payments/services/lifecycle_service.py\<close> with the triggers of \<open>models/lifecycle_guard.py\<close> and
    \<open>models/provider_guard.py\<close>): paying, fulfilling, cancelling, refunding, disputes, reconciliation.
  \<^item> \<open>Payments\<close> (\<open>payments/services/payment_service.py\<close>, \<open>webhook_recovery.py\<close>, the payment jobs): payment
    creation, webhooks claimed once, deferred events, stale orders.
  \<^item> \<open>Shipments\<close>, \<open>Returns\<close> (\<open>modules/shipments\<close>, \<open>modules/returns\<close>): parcels; return requests from asking to
    receiving, restocking and refunding.
  \<^item> \<open>Restock\<close>, \<open>Return_Restock\<close>: goods going back line by line, equal to what the order or the return recorded.
  \<^item> \<open>Writes\<close>: the guarded writes the tables admit and the invariant \<open>shop_ok\<close>; \<open>Service_Writes\<close>, \<open>Webhook_Writes\<close>,
    \<open>Return_Writes\<close>: every operation is a sequence of them. The locale \<open>write_invariant\<close> turns what one write
    keeps into what every run keeps.
  \<^item> \<open>Shop_Machine\<close>: one step is one request or job, with others in between; \<open>shop_ok\<close> holds in every reachable state.
  \<^item> \<open>Order_Guarantees\<close>, \<open>Payment_Guarantees\<close>, \<open>Return_Guarantees\<close>: the properties of runs - stock is conserved,
    orders and returns implement abstract machines, events count once, refunds and disputes are final.

  \<^bold>\<open>Accounts and staff\<close>
  \<^item> \<open>Accounts\<close> (\<open>modules/auth\<close>, \<open>core/security.py\<close>): the account tables beside the shop's database (\<open>site\<close>), the
    token store, sign-in, rotation, sign-out, recovery, address changes, their jobs and routes.
  \<^item> \<open>Staff\<close> (\<open>modules/roles\<close>, \<open>modules/users\<close>): permissions, roles, assignments, user administration, routes.
  \<^item> \<open>Account_Machine\<close>: requests as data, one \<open>serve\<close> for all; the refresh tokens and the emailed links as machines
    of their own (locale \<open>site_view\<close>). \<open>Access_Rules\<close>: what each request does to staff access.
  \<^item> \<open>Account_Guarantees\<close>, \<open>Account_Properties\<close>: invariants over runs; families that were shut down stay shut,
    links work once, someone can always manage roles, permissions come only from those who can.

  \<^bold>\<open>Background jobs\<close>
  \<^item> \<open>Jobs\<close> (\<open>core/jobs\<close>): the queue with its dedupe keys, the worker's statements, handlers and rounds, and the
    schedules. \<open>Job_Guarantees\<close>: callers, workers and schedulers interleaved as a step relation (\<open>job_step\<close>); the
    phases of a job, claims and their locks, the queue behind the shop's \<open>enqueue\<close>. \<open>Job_Properties\<close>: one worker at
    a time, the machine of phases, every job ends, one scheduled job per time bucket.

  \<^bold>\<open>Bounds.\<close> There is no fuel: every loop of the sources runs over a finite list and is structural recursion
  here; the endless loop of a worker is a fold over its rounds, and how many rounds end every job is proved. The
  recovery of deferred events is bounded by the number of attempts configured. Amounts in words are
  read back below the largest number the code can print.

  \<^bold>\<open>What the proofs showed\<close> is listed with the properties it belongs to: shipping dropped from a tax computation
  with worthless goods, the line limit missing when carts merge, colliding document prefixes, a configuration
  check lost when an event is deferred, shipments that ignore a cancelling refund, a note validated before it is
  cleaned, sessions that survive signing out, an address change that survives a password reset, a scheduler tick that can
  skip a bucket, and a retry delay that stops being computable.

  \<^bold>\<open>Not modelled\<close>
  \<^item> Adapters of outside services (\<open>core/payments\<close> providers, \<open>core/email\<close>, \<open>core/storage\<close>, \<open>core/revalidate.py\<close>):
    they translate between a library or network protocol and the interface that is a parameter here.
  \<^item> Caches, rate limits, logging, request context, security headers and settings (\<open>core\<close>): no business state.
  \<^item> Catalogue, category, variant, content, review, wishlist, address and report services: editing and listing of
    rows whose effect on buying is in the model (prices, stock, status); their own rules are not.
  \<^item> Administration of provider configurations, email settings, site content, currency changes and tax data:
    the data they maintain is read by the modelled operations and arbitrary in the theorems.
  \<^item> Schema migrations, the seed script, the GraphQL layer and the load tests. Details of audit entries are left
    out; texts of emails too. Requests to the accounts are served one at a time: interleavings inside one handler
    are not modelled there.
\<close>

end
